(* ===== verification/Prelude.thy ===== *)
theory Prelude
  imports Main
begin

text \<open>
  The prelude of the development: the theorem collections the component theories extend, and
  the generic facts on lists that several components share (first occurrences, duplicate-free
  accumulation, removal by index).  Nothing here models code of the repository; the one shared
  interface is \<open>keyed_loop\<close>, the shape of the ``seen set'' loops that the front end writes
  in several places.
\<close>

named_theorems js_eval \<open>evaluation of JavaScript string and number operations\<close>
named_theorems inv_rules \<open>preservation of component invariants\<close>
named_theorems op_defs \<open>definitions of component operations\<close>

section \<open>Lists\<close>

text \<open>\<open>Array.prototype.findIndex\<close>: the first index that satisfies a predicate.\<close>

fun find_index :: "('a \<Rightarrow> bool) \<Rightarrow> 'a list \<Rightarrow> nat option" where
  "find_index P [] = None"
| "find_index P (x # xs) = (if P x then Some 0 else map_option Suc (find_index P xs))"

lemma find_index_None_iff: "find_index P xs = None \<longleftrightarrow> (\<forall>x \<in> set xs. \<not> P x)"
  by (induction xs) auto

lemma find_index_None: "(\<And>x. x \<in> set xs \<Longrightarrow> \<not> P x) \<Longrightarrow> find_index P xs = None"
  by (simp add: find_index_None_iff)

lemma find_index_NoneD: "find_index P xs = None \<Longrightarrow> x \<in> set xs \<Longrightarrow> \<not> P x"
  by (simp add: find_index_None_iff)

lemma find_index_cases:
  obtains (none) "find_index P xs = None" "\<forall>x \<in> set xs. \<not> P x"
    | (some) i where "find_index P xs = Some i" "i < length xs" "P (xs ! i)" "\<forall>j < i. \<not> P (xs ! j)"
proof (cases "find_index P xs")
  case None
  then show ?thesis using find_index_None_iff [of P xs] that(1) by simp
next
  case (Some i)
  have "i < length xs \<and> P (xs ! i) \<and> (\<forall>j < i. \<not> P (xs ! j))"
    using Some
  proof (induction xs arbitrary: i)
    case (Cons x xs)
    show ?case
    proof (cases "P x")
      case False
      with Cons.prems obtain k where "find_index P xs = Some k" "i = Suc k" by auto
      with False Cons.IH [of k] show ?thesis by (auto simp: nth_Cons split: nat.splits)
    qed (use Cons.prems in auto)
  qed simp
  with Some that(2) show ?thesis by blast
qed

lemma find_index_SomeD:
  "find_index P xs = Some i \<Longrightarrow> i < length xs \<and> P (xs ! i) \<and> (\<forall>j < i. \<not> P (xs ! j))"
  by (cases xs P rule: find_index_cases) auto

lemma find_index_Some_iff:
  "(\<exists>i. find_index P xs = Some i) \<longleftrightarrow> (\<exists>x \<in> set xs. P x)"
  by (metis find_index_None_iff not_None_eq)

lemma find_index_nth:
  assumes "find_index P xs = Some i"
  shows "xs ! i \<in> set xs"
  using find_index_SomeD [OF assms] by simp

text \<open>\<open>Array.prototype.splice (i, 1)\<close>: the list without its element at an index.\<close>

definition remove_nth :: "nat \<Rightarrow> 'a list \<Rightarrow> 'a list" where
  "remove_nth i xs = take i xs @ drop (Suc i) xs"

lemma length_remove_nth [simp]: "i < length xs \<Longrightarrow> length (remove_nth i xs) = length xs - 1"
  by (simp add: remove_nth_def)

lemma set_remove_nth_subset: "set (remove_nth i xs) \<subseteq> set xs"
  by (auto simp: remove_nth_def dest: in_set_takeD in_set_dropD)

lemma map_remove_nth: "map f (remove_nth i xs) = remove_nth i (map f xs)"
  by (simp add: remove_nth_def take_map drop_map)

lemma distinct_remove_nth [intro]: "distinct xs \<Longrightarrow> distinct (remove_nth i xs)"
  by (auto simp: remove_nth_def set_take_disj_set_drop_if_distinct)

lemma set_remove_nth_distinct:
  assumes "distinct xs" "i < length xs"
  shows "set (remove_nth i xs) = set xs - {xs ! i}"
proof -
  have "set xs = set (take i xs @ xs ! i # drop (Suc i) xs)"
    using assms(2) by (simp flip: id_take_nth_drop)
  moreover have "distinct (take i xs @ xs ! i # drop (Suc i) xs)"
    using assms by (simp flip: id_take_nth_drop)
  ultimately show ?thesis by (auto simp: remove_nth_def)
qed

lemma remove_nth_eq_remove1:
  "find_index (\<lambda>v. v = x) xs = Some i \<Longrightarrow> remove_nth i xs = remove1 x xs"
proof (induction xs arbitrary: i)
  case (Cons y ys)
  then show ?case by (cases "y = x") (auto simp: remove_nth_def)
qed simp

lemma takeWhile_fresh: "c \<notin> set a \<Longrightarrow> takeWhile (\<lambda>x. x \<noteq> c) (a @ c # p) = a"
  by (induction a) auto

lemma append_Cons_fresh_eq:
  assumes "c \<notin> set a" "c \<notin> set b"
  shows "a @ c # p = b @ c # q \<longleftrightarrow> a = b \<and> p = q"
proof
  assume e: "a @ c # p = b @ c # q"
  with takeWhile_fresh [OF assms(1), of p] takeWhile_fresh [OF assms(2), of q] have "a = b" by simp
  with e show "a = b \<and> p = q" by simp
qed simp

lemma distinct_map_inj:
  "distinct (map f xs) \<Longrightarrow> x \<in> set xs \<Longrightarrow> y \<in> set xs \<Longrightarrow> f x = f y \<Longrightarrow> x = y"
  by (auto simp: distinct_map inj_on_def)

section \<open>The ``seen set'' loop\<close>

text \<open>
  The loop
  \<^verbatim>\<open>for (const x of xs) { const y = f(x); if (seen.has(key(y))) continue;
                   seen.add(key(y)); result.push(y); }\<close>
  with \<open>seen\<close> and \<open>result\<close> as accumulators.
\<close>

fun seen_loop :: "('a \<Rightarrow> 'k) \<Rightarrow> 'k set \<Rightarrow> 'a list \<Rightarrow> 'a list \<Rightarrow> 'a list" where
  "seen_loop key seen result [] = result"
| "seen_loop key seen result (x # xs) =
     (if key x \<in> seen then seen_loop key seen result xs
      else seen_loop key (insert (key x) seen) (result @ [x]) xs)"

definition seen_dedup :: "('a \<Rightarrow> 'k) \<Rightarrow> 'a list \<Rightarrow> 'a list" where
  "seen_dedup key xs = seen_loop key {} [] xs"

text \<open>
  What a caller of the loop relies on: its results are values of the normal form, and equal
  keys mean equal values.  The laws are the ones every such loop of the code is written for.
\<close>

locale keyed_loop =
  fixes key :: "'a \<Rightarrow> 'k" and normal :: "'a \<Rightarrow> bool"
  assumes key_inj: "normal x \<Longrightarrow> normal y \<Longrightarrow> key x = key y \<Longrightarrow> x = y"
begin

lemma seen_loop_set:
  assumes "\<forall>x \<in> set xs. normal x" "\<forall>x \<in> set result. normal x" "seen = key ` set result"
  shows "set (seen_loop key seen result xs) = set result \<union> set xs"
  using assms
proof (induction xs arbitrary: seen result)
  case Nil
  then show ?case by simp
next
  case (Cons x xs)
  show ?case
  proof (cases "key x \<in> seen")
    case True
    with Cons.prems obtain y where "y \<in> set result" "key x = key y" by auto
    with Cons.prems have "x = y" by (auto intro: key_inj)
    with True \<open>y \<in> set result\<close> Cons show ?thesis by auto
  next
    case False
    have "set (seen_loop key (insert (key x) seen) (result @ [x]) xs) = set (result @ [x]) \<union> set xs"
      by (rule Cons.IH) (use Cons.prems in auto)
    with False show ?thesis by auto
  qed
qed

lemma seen_dedup_set: "\<forall>x \<in> set xs. normal x \<Longrightarrow> set (seen_dedup key xs) = set xs"
  by (simp add: seen_dedup_def seen_loop_set)

end

lemma seen_loop_distinct_keys:
  assumes "distinct (map key result)" "seen = key ` set result"
  shows "distinct (map key (seen_loop key seen result xs))"
  using assms
proof (induction xs arbitrary: seen result)
  case (Cons x xs)
  show ?case
  proof (cases "key x \<in> seen")
    case True
    with Cons show ?thesis by simp
  next
    case False
    with Cons.prems have "distinct (map key (result @ [x]))"
      "insert (key x) seen = key ` set (result @ [x])" by auto
    then have "distinct (map key (seen_loop key (insert (key x) seen) (result @ [x]) xs))"
      by (rule Cons.IH)
    with False show ?thesis by simp
  qed
qed simp

lemma seen_dedup_distinct_keys: "distinct (map key (seen_dedup key xs))"
  by (simp add: seen_dedup_def seen_loop_distinct_keys)

lemma seen_dedup_distinct: "distinct (seen_dedup key xs)"
  using seen_dedup_distinct_keys [of key xs] by (simp add: distinct_map)

lemma seen_loop_fresh:
  assumes "distinct (map key (result @ xs))" "seen = key ` set result"
  shows "seen_loop key seen result xs = result @ xs"
  using assms
proof (induction xs arbitrary: seen result)
  case (Cons x xs)
  have "seen_loop key (insert (key x) seen) (result @ [x]) xs = (result @ [x]) @ xs"
    by (rule Cons.IH) (use Cons.prems in auto)
  with Cons.prems show ?case by auto
qed simp

lemma seen_dedup_fixed: "distinct (map key xs) \<Longrightarrow> seen_dedup key xs = xs"
  by (simp add: seen_dedup_def seen_loop_fresh)

lemma seen_dedup_idem: "seen_dedup key (seen_dedup key xs) = seen_dedup key xs"
  by (rule seen_dedup_fixed) (rule seen_dedup_distinct_keys)

lemma seen_loop_subset: "set (seen_loop key seen result xs) \<subseteq> set result \<union> set xs"
  by (induction key seen result xs rule: seen_loop.induct) auto

lemma seen_dedup_subset: "set (seen_dedup key xs) \<subseteq> set xs"
  using seen_loop_subset [of key "{}" "[]" xs] by (simp add: seen_dedup_def)

section \<open>Runs of a step system\<close>

text \<open>
  Components with handlers are step functions over an event type.  The contract they share is
  an invariant that holds at the start and that every handler keeps; a run is a fold of the
  step over the events.
\<close>

locale step_system =
  fixes step :: "'s \<Rightarrow> 'e \<Rightarrow> 's" and inv :: "'s \<Rightarrow> bool"
  assumes step_inv: "inv s \<Longrightarrow> inv (step s e)"
begin

lemma run_inv: "inv s \<Longrightarrow> inv (foldl step s es)"
  by (induction es arbitrary: s) (auto intro: step_inv)

lemma run_prefix_inv: "inv s \<Longrightarrow> inv (foldl step s (take n es))"
  by (rule run_inv)

end

end
