(* ===== verification/JsString.thy ===== *)
theory JsString
  imports Prelude "HOL-Library.Sublist"
begin

text \<open>
  JavaScript strings.  A string is a finite sequence of UTF-16 code units; the model writes it
  as a list of naturals, so that the classes of the code beyond Latin-1 (CJK names, full-width
  separators, Unicode white space) can be stated.  \<open>lit ''...''\<close> is a string literal of the
  source.  The operations are those of \<open>String.prototype\<close> that the modelled files call.
\<close>

section \<open>Literals and code units\<close>

type_synonym jstring = "nat list"

definition lit :: "string \<Rightarrow> jstring" where
  "lit s = map of_char s"

lemma lit_simps [simp, js_eval]:
  "lit [] = []"
  "lit (c # cs) = of_char c # lit cs"
  by (simp_all add: lit_def)

lemma lit_append: "lit (s @ t) = lit s @ lit t"
  by (simp add: lit_def)

lemma length_lit [simp]: "length (lit s) = length s"
  by (simp add: lit_def)

text \<open>The white space of \<open>trim\<close> and of the class \<open>\s\<close>.\<close>

definition is_space :: "nat \<Rightarrow> bool" where
  "is_space c \<longleftrightarrow> 9 \<le> c \<and> c \<le> 13 \<or> c = 32 \<or> c = 160 \<or> c = 5760 \<or> 8192 \<le> c \<and> c \<le> 8202
     \<or> c = 8232 \<or> c = 8233 \<or> c = 8239 \<or> c = 8287 \<or> c = 12288 \<or> c = 65279"

definition is_digit :: "nat \<Rightarrow> bool" where
  "is_digit c \<longleftrightarrow> 48 \<le> c \<and> c \<le> 57"

definition is_upper :: "nat \<Rightarrow> bool" where
  "is_upper c \<longleftrightarrow> 65 \<le> c \<and> c \<le> 90"

definition is_lower :: "nat \<Rightarrow> bool" where
  "is_lower c \<longleftrightarrow> 97 \<le> c \<and> c \<le> 122"

lemma digit_not_space: "is_digit c \<Longrightarrow> \<not> is_space c"
  by (auto simp: is_digit_def is_space_def)

text \<open>
  \<open>toLowerCase\<close>: Latin-1 upper case letters and the two letters beyond Latin-1 whose lower
  case contains an ASCII letter.  Other letters are kept; the modelled code only compares
  lower-cased strings with ASCII literals, which no other letter can produce.
\<close>

definition lower_unit :: "nat \<Rightarrow> jstring" where
  "lower_unit c =
     (if is_upper c \<or> 192 \<le> c \<and> c \<le> 222 \<and> c \<noteq> 215 then [c + 32]
      else if c = 8490 then [107]
      else if c = 304 then [105, 775]
      else [c])"

definition toLowerCase :: "jstring \<Rightarrow> jstring" where
  "toLowerCase s = concat (map lower_unit s)"

lemma toLowerCase_simps [simp]:
  "toLowerCase [] = []"
  "toLowerCase (c # s) = lower_unit c @ toLowerCase s"
  by (simp_all add: toLowerCase_def)

lemma lower_unit_idem: "toLowerCase (lower_unit c) = lower_unit c"
  by (auto simp: lower_unit_def is_upper_def)

lemma toLowerCase_append [simp]: "toLowerCase (s @ t) = toLowerCase s @ toLowerCase t"
  by (simp add: toLowerCase_def)

lemma toLowerCase_idem: "toLowerCase (toLowerCase s) = toLowerCase s"
  by (induction s) (auto simp: lower_unit_idem)

lemma toLowerCase_fixed: "\<forall>c \<in> set s. lower_unit c = [c] \<Longrightarrow> toLowerCase s = s"
  by (induction s) auto

section \<open>Searching\<close>

definition startsWith :: "jstring \<Rightarrow> jstring \<Rightarrow> bool" where
  "startsWith s p \<longleftrightarrow> take (length p) s = p"

definition endsWith :: "jstring \<Rightarrow> jstring \<Rightarrow> bool" where
  "endsWith s p \<longleftrightarrow> length p \<le> length s \<and> drop (length s - length p) s = p"

lemma startsWith_iff: "startsWith s p \<longleftrightarrow> (\<exists>t. s = p @ t)"
  by (metis append_eq_conv_conj append_take_drop_id startsWith_def)

lemma endsWith_iff: "endsWith s p \<longleftrightarrow> (\<exists>t. s = t @ p)"
proof
  assume "endsWith s p"
  then have "s = take (length s - length p) s @ p"
    by (metis append_take_drop_id endsWith_def)
  then show "\<exists>t. s = t @ p" ..
qed (auto simp: endsWith_def)

text \<open>\<open>indexOf\<close>, with \<open>None\<close> for the result \<open>-1\<close>.\<close>

fun find_sub :: "jstring \<Rightarrow> jstring \<Rightarrow> nat option" where
  "find_sub p [] = (if p = [] then Some 0 else None)"
| "find_sub p (c # s) =
     (if startsWith (c # s) p then Some 0 else map_option Suc (find_sub p s))"

definition str_includes :: "jstring \<Rightarrow> jstring \<Rightarrow> bool" where
  "str_includes s p \<longleftrightarrow> find_sub p s \<noteq> None"

lemma find_sub_SomeD:
  "find_sub p s = Some i \<Longrightarrow> i + length p \<le> length s \<and> take (length p) (drop i s) = p"
proof (induction p s arbitrary: i rule: find_sub.induct)
  case (2 p c s)
  show ?case
  proof (cases "startsWith (c # s) p")
    case True
    then have "length p \<le> Suc (length s)"
      by (metis length_Cons length_append le_add1 startsWith_iff)
    with True 2 show ?thesis by (auto simp: startsWith_def)
  next
    case False
    with 2 show ?thesis by (auto simp: 2)
  qed
qed (auto split: if_splits)

lemma find_sub_unit: "find_sub [c] s = find_index (\<lambda>d. d = c) s"
  by (induction s) (auto simp: startsWith_def)

lemma str_includes_single [simp]: "str_includes s [c] \<longleftrightarrow> c \<in> set s"
  using find_index_Some_iff [of "\<lambda>d. d = c" s] by (auto simp: str_includes_def find_sub_unit)

lemma find_sub_split:
  "find_sub p s = Some i \<Longrightarrow> s = take i s @ p @ drop (i + length p) s"
  using find_sub_SomeD [of p s i]
  by (metis add.commute append_take_drop_id drop_drop)

lemma find_sub_None_append_p:
  "(\<exists>u v. s = u @ p @ v) \<Longrightarrow> find_sub p s \<noteq> None"
proof (induction s)
  case Nil
  then show ?case by auto
next
  case (Cons c s)
  then obtain u v where uv: "c # s = u @ p @ v" by auto
  show ?case
  proof (cases u)
    case Nil
    with uv have "startsWith (c # s) p" by (auto simp: startsWith_iff)
    then show ?thesis by simp
  next
    case (Cons d u')
    with uv have "find_sub p s \<noteq> None" by (intro Cons.IH) auto
    then show ?thesis by auto
  qed
qed

lemma str_includes_iff: "str_includes s p \<longleftrightarrow> (\<exists>u v. s = u @ p @ v)"
  by (metis find_sub_None_append_p find_sub_split str_includes_def option.exhaust)

text \<open>\<open>lastIndexOf\<close> of a single code unit.\<close>

definition last_index_unit :: "nat \<Rightarrow> jstring \<Rightarrow> nat option" where
  "last_index_unit c s = map_option (\<lambda>i. length s - Suc i) (find_index (\<lambda>d. d = c) (rev s))"

section \<open>Trimming\<close>

definition trim_start :: "jstring \<Rightarrow> jstring" where
  "trim_start s = dropWhile is_space s"

definition trim_end :: "jstring \<Rightarrow> jstring" where
  "trim_end s = rev (dropWhile is_space (rev s))"

definition trim :: "jstring \<Rightarrow> jstring" where
  "trim s = trim_end (trim_start s)"

lemma trim_Nil [simp]: "trim [] = []"
  by (simp add: trim_def trim_end_def trim_start_def)

lemma dropWhile_idem: "dropWhile P (dropWhile P s) = dropWhile P s"
  by (induction s) auto

lemma hd_trim: "trim s \<noteq> [] \<Longrightarrow> \<not> is_space (hd (trim s))"
proof -
  assume ne: "trim s \<noteq> []"
  let ?t = "dropWhile is_space s"
  have "trim s = rev (dropWhile is_space (rev ?t))"
    by (simp add: trim_def trim_end_def trim_start_def)
  moreover obtain u where "rev ?t = u @ dropWhile is_space (rev ?t)"
    by (metis takeWhile_dropWhile_id)
  ultimately have t: "?t = trim s @ rev u" by (metis rev_append rev_rev_ident)
  with ne have "hd (trim s) = hd ?t" "?t \<noteq> []" by auto
  then show ?thesis by (simp add: hd_dropWhile)
qed

lemma last_trim: "trim s \<noteq> [] \<Longrightarrow> \<not> is_space (last (trim s))"
  by (metis hd_dropWhile hd_rev rev_is_Nil_conv rev_rev_ident trim_def trim_end_def)

lemma trim_fixed: "s \<noteq> [] \<Longrightarrow> \<not> is_space (hd s) \<Longrightarrow> \<not> is_space (last s) \<Longrightarrow> trim s = s"
proof -
  assume a: "s \<noteq> []" "\<not> is_space (hd s)" "\<not> is_space (last s)"
  have "dropWhile is_space s = s" using a by (cases s) auto
  moreover have "dropWhile is_space (rev s) = rev s" using a
    by (metis dropWhile.simps(2) hd_rev list.exhaust_sel rev_is_Nil_conv)
  ultimately show ?thesis by (simp add: trim_def trim_end_def trim_start_def)
qed

lemma trim_idem [simp]: "trim (trim s) = trim s"
  using trim_fixed [of "trim s", OF _ hd_trim last_trim] by (cases "trim s = []") auto

lemma set_trim_subset: "set (trim s) \<subseteq> set s"
proof
  fix x assume "x \<in> set (trim s)"
  then have "x \<in> set (dropWhile is_space (rev (dropWhile is_space s)))"
    by (simp add: trim_def trim_end_def trim_start_def)
  then have "x \<in> set (rev (dropWhile is_space s))" by (rule set_dropWhileD)
  then have "x \<in> set (dropWhile is_space s)" by simp
  then show "x \<in> set s" by (rule set_dropWhileD)
qed

lemma trim_no_space: "\<forall>c \<in> set s. \<not> is_space c \<Longrightarrow> trim s = s"
  by (cases "s = []") (auto intro: trim_fixed)

lemma trim_eq_Nil_iff: "trim s = [] \<longleftrightarrow> (\<forall>c \<in> set s. is_space c)"
  by (auto simp: trim_def trim_end_def trim_start_def dropWhile_eq_Nil_conv
      dest: set_dropWhileD)
   (metis dropWhile_eq_Nil_conv hd_dropWhile list.set_sel(1) set_dropWhileD)

section \<open>Splitting and joining\<close>

text \<open>\<open>split\<close> at a single code unit: a string without the separator is one field.\<close>

fun split_unit :: "nat \<Rightarrow> jstring \<Rightarrow> jstring list" where
  "split_unit c [] = [[]]"
| "split_unit c (d # s) =
     (if d = c then [] # split_unit c s
      else case split_unit c s of [] \<Rightarrow> [[d]] | w # ws \<Rightarrow> (d # w) # ws)"

text \<open>\<open>split\<close> at a separator of any length; the empty separator gives the code units.\<close>

function js_split :: "jstring \<Rightarrow> jstring \<Rightarrow> jstring list" where
  "js_split p s =
     (if p = [] then map (\<lambda>c. [c]) s
      else case find_sub p s of
             None \<Rightarrow> [s]
           | Some i \<Rightarrow> take i s # js_split p (drop (i + length p) s))"
  by pat_completeness auto
termination
proof (relation "measure (\<lambda>(p, s). length s)")
  fix p s i
  assume "p \<noteq> []" "find_sub p s = Some i"
  with find_sub_SomeD [of p s i] have "i + length p \<le> length s" "0 < length p" by auto
  then have "length s - (i + length p) < length s" by linarith
  then show "((p, drop (i + length p) s), p, s) \<in> measure (\<lambda>(p, s). length s)" by simp
qed simp

declare js_split.simps [simp del]

text \<open>\<open>Array.prototype.join\<close>.\<close>

fun js_join :: "jstring \<Rightarrow> jstring list \<Rightarrow> jstring" where
  "js_join sep [] = []"
| "js_join sep [w] = w"
| "js_join sep (w # v # ws) = w @ sep @ js_join sep (v # ws)"

lemma js_join_Cons: "ws \<noteq> [] \<Longrightarrow> js_join sep (w # ws) = w @ sep @ js_join sep ws"
  by (cases ws) auto

lemma split_unit_ne [simp]: "split_unit c s \<noteq> []"
  by (induction s) (auto split: list.splits)

lemma split_unit_Cons_neq:
  "d \<noteq> c \<Longrightarrow> split_unit c (d # s) = (d # hd (split_unit c s)) # tl (split_unit c s)"
  by (cases "split_unit c s") auto

lemma split_unit_no_sep: "w \<in> set (split_unit c s) \<Longrightarrow> c \<notin> set w"
proof (induction s arbitrary: w)
  case (Cons d s)
  then show ?case
    by (cases "split_unit c s") (auto split: if_splits)
qed simp

lemma split_unit_fresh: "c \<notin> set s \<Longrightarrow> split_unit c s = [s]"
  by (induction s) auto

lemma split_unit_append_sep:
  "c \<notin> set s \<Longrightarrow> split_unit c (s @ c # t) = s # split_unit c t"
  by (induction s) (auto split: list.splits)

lemma split_unit_append:
  "split_unit c (s @ t) =
     butlast (split_unit c s) @ (last (split_unit c s) @ hd (split_unit c t)) # tl (split_unit c t)"
proof (induction s)
  case Nil
  then show ?case by (cases "split_unit c t") auto
next
  case (Cons d s)
  show ?case
  proof (cases "d = c")
    case True
    with Cons show ?thesis by simp
  next
    case False
    obtain w ws where "split_unit c s = w # ws" by (cases "split_unit c s") auto
    with False Cons show ?thesis by (cases ws) auto
  qed
qed

lemma join_split_unit [simp]: "js_join [c] (split_unit c s) = s"
proof (induction s)
  case (Cons d s)
  obtain w ws where w: "split_unit c s = w # ws" by (cases "split_unit c s") auto
  with Cons show ?case by (cases ws) auto
qed simp

lemma split_join_unit:
  "ws \<noteq> [] \<Longrightarrow> \<forall>w \<in> set ws. c \<notin> set w \<Longrightarrow> split_unit c (js_join [c] ws) = ws"
proof (induction "[c]" ws rule: js_join.induct)
  case (3 w v ws)
  then show ?case by (simp add: split_unit_append_sep)
qed (auto simp: split_unit_fresh)

lemma set_split_unit_subset: "w \<in> set (split_unit c s) \<Longrightarrow> set w \<subseteq> set s"
proof (induction s arbitrary: w)
  case (Cons d s)
  obtain v vs where "split_unit c s = v # vs" by (cases "split_unit c s") auto
  with Cons show ?case by (auto split: if_splits; blast)
qed simp

lemma js_split_unit: "js_split [c] s = split_unit c s"
proof (induction s rule: length_induct)
  case (1 s)
  show ?case
  proof (cases "find_index (\<lambda>d. d = c) s")
    case None
    then have "c \<notin> set s" by (auto simp: find_index_None_iff)
    then show ?thesis
      by (simp add: js_split.simps find_sub_unit split_unit_fresh None)
  next
    case (Some i)
    note i = find_index_SomeD [OF Some]
    then have s: "s = take i s @ c # drop (Suc i) s" by (metis id_take_nth_drop)
    have "c \<notin> set (take i s)" using i by (auto simp: in_set_conv_nth)
    then have "split_unit c s = take i s # split_unit c (drop (Suc i) s)"
      by (subst s) (rule split_unit_append_sep)
    moreover have "length (drop (Suc i) s) < length s" using i by (cases s) auto
    then have "js_split [c] (drop (Suc i) s) = split_unit c (drop (Suc i) s)"
      using 1 by blast
    ultimately show ?thesis by (subst js_split.simps) (simp add: find_sub_unit Some)
  qed
qed

lemma js_split_ne [simp]: "p \<noteq> [] \<Longrightarrow> js_split p s \<noteq> []"
  by (subst js_split.simps) (auto split: option.splits)

lemma join_js_split: "p \<noteq> [] \<Longrightarrow> js_join p (js_split p s) = s"
proof (induction p s rule: js_split.induct)
  case (1 p s)
  show ?case
  proof (cases "find_sub p s")
    case None
    with 1 show ?thesis by (simp add: js_split.simps)
  next
    case (Some i)
    with 1 have "js_join p (js_split p (drop (i + length p) s)) = drop (i + length p) s" by simp
    with 1 Some show ?thesis
      by (subst js_split.simps) (simp add: js_join_Cons find_sub_split [OF Some, symmetric])
  qed
qed

text \<open>\<open>replaceAll\<close> with a string pattern: the fields between the occurrences, rejoined.\<close>

definition replaceAll :: "jstring \<Rightarrow> jstring \<Rightarrow> jstring \<Rightarrow> jstring" where
  "replaceAll s p r = js_join r (js_split p s)"

lemma replaceAll_absent: "p \<noteq> [] \<Longrightarrow> \<not> str_includes s p \<Longrightarrow> replaceAll s p r = s"
  by (simp add: replaceAll_def js_split.simps str_includes_def)

lemma replaceAll_prefix_once:
  assumes "p \<noteq> []" "find_sub p (u @ p @ v) = Some (length u)" "\<not> str_includes v p"
  shows "replaceAll (u @ p @ v) p r = u @ r @ v"
  using assms by (simp add: replaceAll_def js_split.simps [of p "u @ p @ v"]
      js_split.simps [of p v] str_includes_def)

lemma js_join_Nil_filter: "js_join [] ws = concat ws"
  by (induction "[] :: jstring" ws rule: js_join.induct) auto

lemma replaceAll_unit_removes: "c \<notin> set (replaceAll s [c] [])"
  by (auto simp: replaceAll_def js_join_Nil_filter js_split_unit dest: split_unit_no_sep)

lemma replaceAll_unit: "replaceAll s [c] [] = filter (\<lambda>d. d \<noteq> c) s"
proof -
  have "concat (split_unit c s) = filter (\<lambda>d. d \<noteq> c) s"
  proof (induction s)
    case (Cons d s)
    then show ?case by (cases "split_unit c s") auto
  qed simp
  then show ?thesis by (simp add: replaceAll_def js_join_Nil_filter js_split_unit)
qed

end
