(* ===== verification/JsNumber.thy ===== *)
theory JsNumber
  imports JsString Complex_Main
begin

text \<open>
  JavaScript numbers as far as the modelled files use them: decimal numerals of naturals
  (\<open>String(n)\<close>, template literals, \<open>padStart\<close>), \<open>parseInt\<close> and \<open>Number\<close> of
  strings.  \<open>Number\<close> follows the grammar of the string numeric literals and yields the
  rational value before rounding to a double; the comparisons the code makes with constants
  below \<open>2^53\<close> do not change under that rounding, which is monotone and fixes those constants.
\<close>

section \<open>Decimal numerals\<close>

definition nat_of_digits :: "jstring \<Rightarrow> nat" where
  "nat_of_digits s = foldl (\<lambda>n c. n * 10 + (c - 48)) 0 s"

fun digits_of_nat :: "nat \<Rightarrow> jstring" where
  "digits_of_nat n =
     (if n < 10 then [48 + n] else digits_of_nat (n div 10) @ [48 + n mod 10])"

declare digits_of_nat.simps [simp del]

definition all_digits :: "jstring \<Rightarrow> bool" where
  "all_digits s \<longleftrightarrow> s \<noteq> [] \<and> (\<forall>c \<in> set s. is_digit c)"

lemma foldl_digits_shift:
  "foldl (\<lambda>n c. n * 10 + (c - 48)) k s = k * 10 ^ length s + foldl (\<lambda>n c. n * 10 + (c - 48)) (0::nat) s"
proof (induction s arbitrary: k)
  case (Cons c s)
  show ?case
    using Cons.IH [of "k * 10 + (c - 48)"] Cons.IH [of "c - 48"] by (simp add: algebra_simps)
qed simp

lemma nat_of_digits_Nil [simp]: "nat_of_digits [] = 0"
  by (simp add: nat_of_digits_def)

lemma nat_of_digits_Cons:
  "nat_of_digits (c # s) = (c - 48) * 10 ^ length s + nat_of_digits s"
  using foldl_digits_shift [of "c - 48" s] by (simp add: nat_of_digits_def)

lemma nat_of_digits_snoc: "nat_of_digits (s @ [c]) = nat_of_digits s * 10 + (c - 48)"
  by (simp add: nat_of_digits_def)

lemma nat_of_digits_bound: "\<forall>c \<in> set s. is_digit c \<Longrightarrow> nat_of_digits s < 10 ^ length s"
proof (induction s)
  case (Cons c s)
  then have "c - 48 \<le> 9" by (auto simp: is_digit_def)
  then have "(c - 48) * 10 ^ length s \<le> 9 * 10 ^ length s" by (rule mult_le_mono1)
  moreover have "nat_of_digits s < 10 ^ length s" using Cons by simp
  ultimately have "nat_of_digits (c # s) < 9 * 10 ^ length s + 10 ^ length s"
    unfolding nat_of_digits_Cons by (rule add_le_less_mono)
  then show ?case by simp
qed simp

lemma digits_of_nat_ne [simp]: "digits_of_nat n \<noteq> []"
  by (subst digits_of_nat.simps) simp

lemma digits_of_nat_digits: "\<forall>c \<in> set (digits_of_nat n). is_digit c"
proof (induction n rule: digits_of_nat.induct)
  case (1 n)
  then show ?case by (subst digits_of_nat.simps) (auto simp: is_digit_def)
qed

lemma all_digits_of_nat [simp]: "all_digits (digits_of_nat n)"
  using digits_of_nat_digits by (simp add: all_digits_def)

lemma nat_of_digits_of_nat [simp]: "nat_of_digits (digits_of_nat n) = n"
proof (induction n rule: digits_of_nat.induct)
  case (1 n)
  then show ?case
    by (subst digits_of_nat.simps) (auto simp: nat_of_digits_snoc nat_of_digits_Cons)
qed

lemma digits_of_nat_inj [simp]: "digits_of_nat m = digits_of_nat n \<longleftrightarrow> m = n"
  by (metis nat_of_digits_of_nat)

text \<open>A numeral without a leading zero is the numeral of its value.\<close>

lemma hd_digits_of_nat: "0 < n \<Longrightarrow> hd (digits_of_nat n) \<noteq> 48"
proof (induction n rule: digits_of_nat.induct)
  case (1 n)
  show ?case
  proof (cases "n < 10")
    case True
    with 1 show ?thesis by (subst digits_of_nat.simps) simp
  next
    case False
    then have "hd (digits_of_nat (n div 10)) \<noteq> 48" by (intro "1.IH") auto
    with False show ?thesis by (subst digits_of_nat.simps) simp
  qed
qed

lemma digits_of_nat_of_digits:
  "all_digits s \<Longrightarrow> length s = 1 \<or> hd s \<noteq> 48 \<Longrightarrow> digits_of_nat (nat_of_digits s) = s"
proof (induction s rule: rev_induct)
  case (snoc c s)
  have c: "48 \<le> c" "c \<le> 57" using snoc.prems by (auto simp: all_digits_def is_digit_def)
  show ?case
  proof (cases "s = []")
    case True
    with c show ?thesis by (subst digits_of_nat.simps) (auto simp: nat_of_digits_Cons)
  next
    case False
    with snoc.prems have hd: "hd s \<noteq> 48" and ds: "all_digits s"
      by (auto simp: all_digits_def)
    from False obtain d t where s: "s = d # t" by (cases s) auto
    with hd ds have "1 \<le> d - 48" by (auto simp: all_digits_def is_digit_def)
    then have "1 * 10 ^ length t \<le> (d - 48) * 10 ^ length t" by (rule mult_le_mono1)
    moreover have "(1::nat) \<le> 10 ^ length t" by simp
    ultimately have "1 \<le> nat_of_digits s" unfolding s nat_of_digits_Cons by linarith
    moreover have "digits_of_nat (nat_of_digits s) = s" using hd ds by (intro snoc.IH) auto
    moreover obtain k where "c = 48 + k" "k < 10"
      using c le_Suc_ex [of 48 c] by auto
    ultimately show ?thesis
      by (subst digits_of_nat.simps) (auto simp: nat_of_digits_snoc)
  qed
qed (simp add: all_digits_def)

lemma length_digits_of_nat_le: "0 < k \<Longrightarrow> n < 10 ^ k \<Longrightarrow> length (digits_of_nat n) \<le> k"
proof (induction n arbitrary: k rule: digits_of_nat.induct)
  case (1 n)
  show ?case
  proof (cases "n < 10")
    case True
    with 1 show ?thesis by (subst digits_of_nat.simps) simp
  next
    case False
    with 1 obtain j where k: "k = Suc j" "0 < j"
      by (metis One_nat_def Suc_lessI gr0_implies_Suc power_one_right neq0_conv)
    with 1 have "n div 10 < 10 ^ j" by (simp add: less_mult_imp_div_less mult.commute)
    with False k have "length (digits_of_nat (n div 10)) \<le> j" by (intro "1.IH") auto
    with False k show ?thesis by (subst digits_of_nat.simps) simp
  qed
qed

text \<open>\<open>padStart(n, '0')\<close>.\<close>

definition pad_start0 :: "nat \<Rightarrow> jstring \<Rightarrow> jstring" where
  "pad_start0 n s = replicate (n - length s) 48 @ s"

lemma length_pad_start0: "length s \<le> n \<Longrightarrow> length (pad_start0 n s) = n"
  by (simp add: pad_start0_def)

lemma nat_of_digits_zeros: "nat_of_digits (replicate n 48 @ s) = nat_of_digits s"
  by (induction n) (auto simp: nat_of_digits_Cons)

section \<open>Number\<close>

datatype jsnum = NaN | Infinite bool | Fin rat

definition pow10 :: "int \<Rightarrow> rat" where
  "pow10 e = (if 0 \<le> e then 10 ^ nat e else 1 / 10 ^ nat (- e))"

text \<open>The exponent part of a decimal literal; the empty rest is exponent \<open>0\<close>.\<close>

definition exponent_part :: "jstring \<Rightarrow> int option" where
  "exponent_part s =
     (case s of
        [] \<Rightarrow> Some 0
      | c # r \<Rightarrow>
          (if c \<noteq> 101 \<and> c \<noteq> 69 then None
           else
             let neg = (r \<noteq> [] \<and> hd r = 45);
                 ds = (if r \<noteq> [] \<and> (hd r = 45 \<or> hd r = 43) then tl r else r)
             in if all_digits ds
                then Some (if neg then - int (nat_of_digits ds) else int (nat_of_digits ds))
                else None))"

definition unsigned_decimal :: "jstring \<Rightarrow> jsnum" where
  "unsigned_decimal s =
     (if s = lit ''Infinity'' then Infinite False
      else
        let ip = takeWhile is_digit s; r = dropWhile is_digit s;
            frac = (r \<noteq> [] \<and> hd r = 46);
            fp = (if frac then takeWhile is_digit (tl r) else []);
            ep = (if frac then dropWhile is_digit (tl r) else r)
        in if ip = [] \<and> fp = [] then NaN
           else case exponent_part ep of
                  None \<Rightarrow> NaN
                | Some e \<Rightarrow> Fin (of_nat (nat_of_digits (ip @ fp)) * pow10 (e - int (length fp))))"

fun negate_num :: "jsnum \<Rightarrow> jsnum" where
  "negate_num NaN = NaN"
| "negate_num (Infinite b) = Infinite (\<not> b)"
| "negate_num (Fin q) = Fin (- q)"

text \<open>Binary, octal and hexadecimal literals.\<close>

definition hex_value :: "nat \<Rightarrow> nat option" where
  "hex_value c =
     (if is_digit c then Some (c - 48)
      else if 97 \<le> c \<and> c \<le> 102 then Some (c - 87)
      else if 65 \<le> c \<and> c \<le> 70 then Some (c - 55) else None)"

fun radix_value :: "nat \<Rightarrow> nat \<Rightarrow> jstring \<Rightarrow> nat option" where
  "radix_value b n [] = Some n"
| "radix_value b n (c # s) =
     (case hex_value c of
        None \<Rightarrow> None
      | Some d \<Rightarrow> if d < b then radix_value b (n * b + d) s else None)"

definition radix_literal :: "nat \<Rightarrow> jstring \<Rightarrow> jsnum" where
  "radix_literal b s =
     (if s = [] then NaN
      else case radix_value b 0 s of None \<Rightarrow> NaN | Some n \<Rightarrow> Fin (of_nat n))"

definition js_Number :: "jstring \<Rightarrow> jsnum" where
  "js_Number str =
     (let s = trim str in
      case s of
        [] \<Rightarrow> Fin 0
      | c # r \<Rightarrow>
          (if c = 48 \<and> r \<noteq> [] \<and> hd r \<in> {120, 88} then radix_literal 16 (tl r)
           else if c = 48 \<and> r \<noteq> [] \<and> hd r \<in> {111, 79} then radix_literal 8 (tl r)
           else if c = 48 \<and> r \<noteq> [] \<and> hd r \<in> {98, 66} then radix_literal 2 (tl r)
           else if c = 45 then negate_num (unsigned_decimal r)
           else if c = 43 then unsigned_decimal r
           else unsigned_decimal s))"

lemma unsigned_decimal_digits:
  assumes "all_digits s"
  shows "unsigned_decimal s = Fin (of_nat (nat_of_digits s))"
proof -
  have "takeWhile is_digit s = s" "dropWhile is_digit s = []"
    using assms by (auto simp: all_digits_def)
  moreover have "s \<noteq> lit ''Infinity''" using assms by (auto simp: all_digits_def is_digit_def)
  ultimately show ?thesis
    using assms
    by (simp only: unsigned_decimal_def Let_def if_False simp_thms list.size)
       (simp add: exponent_part_def pow10_def all_digits_def)
qed

lemma js_Number_digits [simp]:
  assumes "all_digits s"
  shows "js_Number s = Fin (of_nat (nat_of_digits s))"
proof -
  have "trim s = s" using assms by (intro trim_no_space) (auto simp: all_digits_def digit_not_space)
  moreover have "\<not> (hd s = 48 \<and> tl s \<noteq> [] \<and> hd (tl s) \<in> {120, 88, 111, 79, 98, 66})"
    using assms by (cases s; cases "tl s") (auto simp: all_digits_def is_digit_def)
  moreover have "hd s \<noteq> 45" "hd s \<noteq> 43" "s \<noteq> []"
    using assms by (cases s; auto simp: all_digits_def is_digit_def)+
  ultimately show ?thesis
    using assms by (auto simp: js_Number_def unsigned_decimal_digits split: list.splits)
qed

lemma js_Number_of_nat [simp]: "js_Number (digits_of_nat n) = Fin (of_nat n)"
  by simp

text \<open>Comparisons of numbers; with \<open>NaN\<close> every comparison is false.\<close>

fun num_le :: "jsnum \<Rightarrow> rat \<Rightarrow> bool" where
  "num_le NaN q = False"
| "num_le (Infinite neg) q = neg"
| "num_le (Fin p) q = (p \<le> q)"

fun num_less :: "jsnum \<Rightarrow> rat \<Rightarrow> bool" where
  "num_less NaN q = False"
| "num_less (Infinite neg) q = neg"
| "num_less (Fin p) q = (p < q)"

fun num_greater :: "jsnum \<Rightarrow> rat \<Rightarrow> bool" where
  "num_greater NaN q = False"
| "num_greater (Infinite neg) q = (\<not> neg)"
| "num_greater (Fin p) q = (q < p)"

fun num_times :: "jsnum \<Rightarrow> rat \<Rightarrow> jsnum" where
  "num_times NaN q = NaN"
| "num_times (Infinite neg) q = (if q = 0 then NaN else Infinite (neg \<noteq> (q < 0)))"
| "num_times (Fin p) q = Fin (p * q)"

end
