(* ===== verification/Regex.thy ===== *)
theory Regex
  imports JsNumber
begin

text \<open>
  The regular expressions of the front end.  A pattern is a value of \<open>rx\<close>, written
  constructor by constructor from the source's literal; \<open>rmatch\<close> decides membership by
  derivatives and \<open>rmatch_iff\<close> ties it to the language \<open>lang\<close>.  The patterns modelled are
  anchored (\<open>^...$\<close> without the \<open>m\<close> flag), so \<open>RegExp.prototype.test\<close> is membership of
  the whole input; a lookahead at the start is a second membership test on the same input.
\<close>

section \<open>Syntax and language\<close>

datatype rx =
    REmpty
  | REps
  | RCls "nat \<Rightarrow> bool"
  | RSeq rx rx
  | RAlt rx rx
  | RRep nat nat rx
  | RStar rx

primrec lpow :: "nat \<Rightarrow> 'a list set \<Rightarrow> 'a list set" where
  "lpow 0 L = {[]}"
| "lpow (Suc k) L = {u @ v | u v. u \<in> L \<and> v \<in> lpow k L}"

fun lang :: "rx \<Rightarrow> jstring set" where
  "lang REmpty = {}"
| "lang REps = {[]}"
| "lang (RCls p) = {[c] | c. p c}"
| "lang (RSeq r s) = {u @ v | u v. u \<in> lang r \<and> v \<in> lang s}"
| "lang (RAlt r s) = lang r \<union> lang s"
| "lang (RRep m n r) = (\<Union>k \<in> {m..n}. lpow k (lang r))"
| "lang (RStar r) = (\<Union>k. lpow k (lang r))"

text \<open>Derived forms: \<open>r?\<close>, \<open>r+\<close>, \<open>r{n}\<close>, a word, a case-sensitive code unit.\<close>

definition ropt :: "rx \<Rightarrow> rx" where "ropt r = RRep 0 1 r"
definition rplus :: "rx \<Rightarrow> rx" where "rplus r = RSeq r (RStar r)"
definition rtimes :: "nat \<Rightarrow> rx \<Rightarrow> rx" where "rtimes n r = RRep n n r"
definition runit :: "char \<Rightarrow> rx" where "runit c = RCls (\<lambda>d. d = of_char c)"

fun rseqs :: "rx list \<Rightarrow> rx" where
  "rseqs [] = REps"
| "rseqs [r] = r"
| "rseqs (r # s # rs) = RSeq r (rseqs (s # rs))"

fun ralts :: "rx list \<Rightarrow> rx" where
  "ralts [] = REmpty"
| "ralts [r] = r"
| "ralts (r # s # rs) = RAlt r (ralts (s # rs))"

definition rword :: "string \<Rightarrow> rx" where
  "rword w = rseqs (map runit w)"

section \<open>Character classes\<close>

definition rng :: "char \<Rightarrow> char \<Rightarrow> nat \<Rightarrow> bool" where
  "rng a b c \<longleftrightarrow> of_char a \<le> c \<and> c \<le> of_char b"

definition one_of :: "string \<Rightarrow> nat \<Rightarrow> bool" where
  "one_of w c \<longleftrightarrow> c \<in> set (lit w)"

definition alnum :: "nat \<Rightarrow> bool" where
  "alnum c \<longleftrightarrow> is_lower c \<or> is_upper c \<or> is_digit c"

definition lower_alnum :: "nat \<Rightarrow> bool" where
  "lower_alnum c \<longleftrightarrow> is_lower c \<or> is_digit c"

definition letter :: "nat \<Rightarrow> bool" where
  "letter c \<longleftrightarrow> is_lower c \<or> is_upper c"

definition hex_unit :: "nat \<Rightarrow> bool" where
  "hex_unit c \<longleftrightarrow> is_digit c \<or> rng (CHR ''a'') (CHR ''f'') c \<or> rng (CHR ''A'') (CHR ''F'') c"

text \<open>\<open>[\u4e00-\u9fa5]\<close>, \<open>\w\<close> and \<open>.\<close>.\<close>

definition cjk :: "nat \<Rightarrow> bool" where
  "cjk c \<longleftrightarrow> 19968 \<le> c \<and> c \<le> 40869"

definition word_unit :: "nat \<Rightarrow> bool" where
  "word_unit c \<longleftrightarrow> alnum c \<or> c = 95"

definition dot_unit :: "nat \<Rightarrow> bool" where
  "dot_unit c \<longleftrightarrow> c \<noteq> 10 \<and> c \<noteq> 13 \<and> c \<noteq> 8232 \<and> c \<noteq> 8233"

lemmas cls_defs = rng_def one_of_def alnum_def lower_alnum_def letter_def hex_unit_def cjk_def
  word_unit_def dot_unit_def is_digit_def is_lower_def is_upper_def

section \<open>Derivatives\<close>

fun nullable :: "rx \<Rightarrow> bool" where
  "nullable REmpty = False"
| "nullable REps = True"
| "nullable (RCls p) = False"
| "nullable (RSeq r s) = (nullable r \<and> nullable s)"
| "nullable (RAlt r s) = (nullable r \<or> nullable s)"
| "nullable (RRep m n r) = (m \<le> n \<and> (m = 0 \<or> nullable r))"
| "nullable (RStar r) = True"

fun mk_seq :: "rx \<Rightarrow> rx \<Rightarrow> rx" where
  "mk_seq REmpty s = REmpty"
| "mk_seq REps s = s"
| "mk_seq r s = RSeq r s"

fun mk_alt :: "rx \<Rightarrow> rx \<Rightarrow> rx" where
  "mk_alt REmpty s = s"
| "mk_alt r REmpty = r"
| "mk_alt r s = RAlt r s"

fun rderiv :: "nat \<Rightarrow> rx \<Rightarrow> rx" where
  "rderiv c REmpty = REmpty"
| "rderiv c REps = REmpty"
| "rderiv c (RCls p) = (if p c then REps else REmpty)"
| "rderiv c (RSeq r s) =
     (if nullable r then mk_alt (mk_seq (rderiv c r) s) (rderiv c s) else mk_seq (rderiv c r) s)"
| "rderiv c (RAlt r s) = mk_alt (rderiv c r) (rderiv c s)"
| "rderiv c (RRep m n r) =
     (if n = 0 \<or> n < m then REmpty else mk_seq (rderiv c r) (RRep (m - 1) (n - 1) r))"
| "rderiv c (RStar r) = mk_seq (rderiv c r) (RStar r)"

fun rmatch :: "rx \<Rightarrow> jstring \<Rightarrow> bool" where
  "rmatch r [] = nullable r"
| "rmatch r (c # s) = rmatch (rderiv c r) s"

section \<open>The matcher decides the language\<close>

lemma Nil_in_lpow: "[] \<in> lpow k L \<longleftrightarrow> k = 0 \<or> [] \<in> L"
  by (induction k) auto

lemma nullable_iff: "nullable r \<longleftrightarrow> [] \<in> lang r"
proof (induction r)
  case (RRep m n r)
  have "(\<exists>k \<in> {m..n}. k = 0 \<or> [] \<in> lang r) \<longleftrightarrow> m \<le> n \<and> (m = 0 \<or> [] \<in> lang r)"
    by (auto intro: bexI [of _ m])
  with RRep show ?case by (simp add: Nil_in_lpow)
next
  case (RStar r)
  show ?case by (auto simp: Nil_in_lpow)
qed auto

lemma lang_mk_seq [simp]: "lang (mk_seq r s) = lang (RSeq r s)"
  by (cases r) simp_all

lemma lang_mk_alt [simp]: "lang (mk_alt r s) = lang (RAlt r s)"
  by (cases r; cases s) simp_all

lemma lpow_Suc_Cons:
  "c # s \<in> lpow (Suc k) L \<longleftrightarrow> (\<exists>u v. c # u \<in> L \<and> v \<in> lpow k L \<and> s = u @ v)"
proof (induction k)
  case 0
  then show ?case by (auto simp: Cons_eq_append_conv)
next
  case (Suc k)
  show ?case
  proof
    assume "c # s \<in> lpow (Suc (Suc k)) L"
    then obtain x y where xy: "c # s = x @ y" "x \<in> L" "y \<in> lpow (Suc k) L"
      unfolding lpow.simps(2) [of "Suc k"] by blast
    show "\<exists>u v. c # u \<in> L \<and> v \<in> lpow (Suc k) L \<and> s = u @ v"
    proof (cases x)
      case Nil
      with xy Suc.IH obtain u v where uv: "c # u \<in> L" "v \<in> lpow k L" "s = u @ v" by auto
      have "v \<in> lpow (Suc k) L" using uv(2) xy(2) Nil by auto
      with uv show ?thesis by blast
    next
      case (Cons d u)
      with xy show ?thesis by auto
    qed
  next
    assume "\<exists>u v. c # u \<in> L \<and> v \<in> lpow (Suc k) L \<and> s = u @ v"
    then show "c # s \<in> lpow (Suc (Suc k)) L"
      unfolding lpow.simps(2) [of "Suc k"] by (metis (mono_tags, lifting) append_Cons mem_Collect_eq)
  qed
qed

lemma Cons_in_rep:
  assumes "m \<le> n" "0 < n"
  shows "c # s \<in> (\<Union>k \<in> {m..n}. lpow k L) \<longleftrightarrow>
    (\<exists>u v. c # u \<in> L \<and> v \<in> (\<Union>k \<in> {m - 1..n - 1}. lpow k L) \<and> s = u @ v)" (is "?l \<longleftrightarrow> ?r")
proof
  assume ?l
  then obtain k where k: "m \<le> k" "k \<le> n" "c # s \<in> lpow k L" by auto
  then obtain j where j: "k = Suc j" by (cases k) auto
  with k obtain u v where "c # u \<in> L" "v \<in> lpow j L" "s = u @ v"
    by (auto simp: lpow_Suc_Cons simp del: lpow.simps)
  moreover have "j \<in> {m - 1..n - 1}" using k j by auto
  ultimately show ?r by blast
next
  assume ?r
  then obtain u v k where k: "c # u \<in> L" "v \<in> lpow k L" "s = u @ v" "m - 1 \<le> k" "k \<le> n - 1"
    by auto
  then have "c # s \<in> lpow (Suc k) L" by (auto simp: lpow_Suc_Cons simp del: lpow.simps)
  moreover have "Suc k \<in> {m..n}" using k assms by auto
  ultimately show ?l by blast
qed

lemma Cons_in_star:
  "c # s \<in> (\<Union>k. lpow k L) \<longleftrightarrow> (\<exists>u v. c # u \<in> L \<and> v \<in> (\<Union>k. lpow k L) \<and> s = u @ v)" (is "?l \<longleftrightarrow> ?r")
proof
  assume ?l
  then obtain k where k: "c # s \<in> lpow k L" by auto
  then obtain j where "k = Suc j" by (cases k) auto
  with k show ?r by (auto simp: lpow_Suc_Cons simp del: lpow.simps)
next
  assume ?r
  then obtain u v k where "c # u \<in> L" "v \<in> lpow k L" "s = u @ v" by auto
  then have "c # s \<in> lpow (Suc k) L" by (auto simp: lpow_Suc_Cons simp del: lpow.simps)
  then show ?l by blast
qed

lemma lang_rderiv: "s \<in> lang (rderiv c r) \<longleftrightarrow> c # s \<in> lang r"
proof (induction r arbitrary: s)
  case (RSeq r1 r2)
  have "c # s \<in> lang (RSeq r1 r2) \<longleftrightarrow>
      (\<exists>u v. c # u \<in> lang r1 \<and> v \<in> lang r2 \<and> s = u @ v) \<or> [] \<in> lang r1 \<and> c # s \<in> lang r2"
    by (auto simp: Cons_eq_append_conv)
  with RSeq show ?case by (auto simp: nullable_iff)
next
  case (RRep m n r)
  show ?case
  proof (cases "n = 0 \<or> n < m")
    case True
    then show ?thesis by auto
  next
    case False
    then have "c # s \<in> lang (RRep m n r) \<longleftrightarrow>
      (\<exists>u v. c # u \<in> lang r \<and> v \<in> (\<Union>k \<in> {m - 1..n - 1}. lpow k (lang r)) \<and> s = u @ v)"
      by (simp only: lang.simps) (rule Cons_in_rep, auto)
    with False RRep show ?thesis by auto
  qed
next
  case (RStar r)
  have "c # s \<in> lang (RStar r) \<longleftrightarrow>
      (\<exists>u v. c # u \<in> lang r \<and> v \<in> (\<Union>k. lpow k (lang r)) \<and> s = u @ v)"
    by (simp only: lang.simps Cons_in_star)
  with RStar show ?case by auto
qed auto

theorem rmatch_iff: "rmatch r s \<longleftrightarrow> s \<in> lang r"
  by (induction s arbitrary: r) (auto simp: nullable_iff lang_rderiv)

section \<open>Recognising common shapes\<close>

named_theorems rx_simps \<open>membership in the language of a pattern\<close>

lemma in_cls [rx_simps]: "s \<in> lang (RCls p) \<longleftrightarrow> (\<exists>c. s = [c] \<and> p c)"
  by auto

lemma lang_seqI: "u \<in> lang r1 \<Longrightarrow> v \<in> lang r2 \<Longrightarrow> u @ v \<in> lang (RSeq r1 r2)"
  by auto

lemma in_cls_seq [rx_simps]:
  "s \<in> lang (RSeq (RCls p) r) \<longleftrightarrow> (\<exists>c t. s = c # t \<and> p c \<and> t \<in> lang r)"
  using lang_seqI [of "[hd s]" "RCls p" "tl s" r] by auto

lemma in_lpow_cls: "s \<in> lpow k {[c] | c. p c} \<longleftrightarrow> length s = k \<and> (\<forall>c \<in> set s. p c)"
proof (induction k arbitrary: s)
  case (Suc k)
  have "s \<in> lpow (Suc k) {[c] | c. p c} \<longleftrightarrow>
      s \<noteq> [] \<and> p (hd s) \<and> tl s \<in> lpow k {[c] | c. p c}"
    by (cases s) (simp_all only: lpow_Suc_Cons, auto)
  also have "\<dots> \<longleftrightarrow> length s = Suc k \<and> (\<forall>c \<in> set s. p c)"
    by (cases s) (auto simp: Suc)
  finally show ?case .
qed auto

lemma in_rep_cls [rx_simps]:
  "s \<in> lang (RRep m n (RCls p)) \<longleftrightarrow> m \<le> length s \<and> length s \<le> n \<and> (\<forall>c \<in> set s. p c)"
  by (auto simp: in_lpow_cls)

lemma in_star_cls [rx_simps]: "s \<in> lang (RStar (RCls p)) \<longleftrightarrow> (\<forall>c \<in> set s. p c)"
  by (auto simp: in_lpow_cls)

lemma in_times_cls [rx_simps]:
  "s \<in> lang (rtimes n (RCls p)) \<longleftrightarrow> length s = n \<and> (\<forall>c \<in> set s. p c)"
  unfolding rtimes_def in_rep_cls by auto

lemma in_plus_cls [rx_simps]:
  "s \<in> lang (rplus (RCls p)) \<longleftrightarrow> s \<noteq> [] \<and> (\<forall>c \<in> set s. p c)"
  unfolding rplus_def in_cls_seq in_star_cls by (cases s) auto

lemma in_opt [rx_simps]: "s \<in> lang (ropt r) \<longleftrightarrow> s = [] \<or> s \<in> lang r"
proof -
  have "{0..1::nat} = {0, 1}" by auto
  then show ?thesis by (simp add: ropt_def)
qed

lemma in_alt [rx_simps]: "s \<in> lang (RAlt r1 r2) \<longleftrightarrow> s \<in> lang r1 \<or> s \<in> lang r2"
  by simp

lemma in_seq: "s \<in> lang (RSeq r1 r2) \<longleftrightarrow> (\<exists>u v. s = u @ v \<and> u \<in> lang r1 \<and> v \<in> lang r2)"
  by auto

lemma in_unit_seq [rx_simps]:
  "s \<in> lang (RSeq (runit c) r) \<longleftrightarrow> (\<exists>t. s = of_char c # t \<and> t \<in> lang r)"
  unfolding runit_def in_cls_seq by auto

lemma in_rword: "s \<in> lang (rword w) \<longleftrightarrow> s = lit w"
proof (induction w arbitrary: s)
  case Nil
  then show ?case by (simp add: rword_def)
next
  case (Cons c w)
  then show ?case by (cases w) (auto simp: rword_def runit_def)
qed

text \<open>A class before a counted class: the shape of most name rules.\<close>

lemma match_head_tail:
  "rmatch (RSeq (RCls p) (RRep m n (RCls q))) s \<longleftrightarrow>
     s \<noteq> [] \<and> p (hd s) \<and> m \<le> length (tl s) \<and> length (tl s) \<le> n \<and> (\<forall>c \<in> set (tl s). q c)"
  unfolding rmatch_iff in_cls_seq in_rep_cls by (cases s) auto

lemma match_rep_cls:
  "rmatch (RRep m n (RCls p)) s \<longleftrightarrow> m \<le> length s \<and> length s \<le> n \<and> (\<forall>c \<in> set s. p c)"
  unfolding rmatch_iff in_rep_cls ..

lemma match_plus_cls: "rmatch (rplus (RCls p)) s \<longleftrightarrow> s \<noteq> [] \<and> (\<forall>c \<in> set s. p c)"
  unfolding rmatch_iff in_plus_cls ..

text \<open>Only code units of the classes occur in a match.\<close>

fun rx_units :: "rx \<Rightarrow> nat \<Rightarrow> bool" where
  "rx_units REmpty c = False"
| "rx_units REps c = False"
| "rx_units (RCls p) c = p c"
| "rx_units (RSeq r s) c = (rx_units r c \<or> rx_units s c)"
| "rx_units (RAlt r s) c = (rx_units r c \<or> rx_units s c)"
| "rx_units (RRep m n r) c = rx_units r c"
| "rx_units (RStar r) c = rx_units r c"

lemma lpow_units: "s \<in> lpow k L \<Longrightarrow> (\<And>t. t \<in> L \<Longrightarrow> \<forall>c \<in> set t. P c) \<Longrightarrow> \<forall>c \<in> set s. P c"
proof (induction k arbitrary: s)
  case (Suc k)
  from Suc.prems(1) obtain u v where "s = u @ v" "u \<in> L" "v \<in> lpow k L" by auto
  with Suc.IH [of v] Suc.prems(2) show ?case by auto
qed auto

lemma lang_units: "s \<in> lang r \<Longrightarrow> \<forall>c \<in> set s. rx_units r c"
proof (induction r arbitrary: s)
  case (RRep m n r)
  then obtain k where "s \<in> lpow k (lang r)" by auto
  then show ?case by (rule lpow_units) (simp add: RRep.IH)
next
  case (RStar r)
  then obtain k where "s \<in> lpow k (lang r)" by auto
  then show ?case by (rule lpow_units) (simp add: RStar.IH)
next
  case (RSeq r1 r2)
  then obtain u v where "s = u @ v" "u \<in> lang r1" "v \<in> lang r2" by auto
  with RSeq.IH show ?case by auto
next
  case (RAlt r1 r2)
  then consider "s \<in> lang r1" | "s \<in> lang r2" by auto
  then show ?case by cases (use RAlt.IH in auto)
qed auto

lemma rmatch_units: "rmatch r s \<Longrightarrow> c \<in> set s \<Longrightarrow> rx_units r c"
  using lang_units by (simp add: rmatch_iff)

text \<open>Membership of a list with a visible head: the rules that evaluate short patterns.\<close>

lemma Cons_in_cls_seq: "c # t \<in> lang (RSeq (RCls p) r) \<longleftrightarrow> p c \<and> t \<in> lang r"
  unfolding in_cls_seq by simp

lemma Nil_in_cls_seq: "[] \<notin> lang (RSeq (RCls p) r)"
  unfolding in_cls_seq by simp

lemma in_opt_seq: "s \<in> lang (RSeq (ropt r) q) \<longleftrightarrow> s \<in> lang q \<or> s \<in> lang (RSeq r q)"
proof -
  have "lang (ropt r) = {[]} \<union> lang r" using in_opt by blast
  then show ?thesis by auto
qed

lemma in_alt_seq: "s \<in> lang (RSeq (RAlt r1 r2) q) \<longleftrightarrow> s \<in> lang (RSeq r1 q) \<or> s \<in> lang (RSeq r2 q)"
  by auto

lemma in_seq_assoc: "s \<in> lang (RSeq (RSeq r1 r2) q) \<longleftrightarrow> s \<in> lang (RSeq r1 (RSeq r2 q))"
proof
  assume "s \<in> lang (RSeq (RSeq r1 r2) q)"
  then obtain u v w where "s = u @ (v @ w)" "u \<in> lang r1" "v \<in> lang r2" "w \<in> lang q"
    by (metis append.assoc in_seq)
  then show "s \<in> lang (RSeq r1 (RSeq r2 q))" by (metis lang_seqI)
next
  assume "s \<in> lang (RSeq r1 (RSeq r2 q))"
  then obtain u v w where "s = (u @ v) @ w" "u \<in> lang r1" "v \<in> lang r2" "w \<in> lang q"
    by (metis append.assoc in_seq)
  then show "s \<in> lang (RSeq (RSeq r1 r2) q)" by (metis lang_seqI)
qed

lemmas rx_eval = Cons_in_cls_seq Nil_in_cls_seq in_opt_seq in_opt in_alt_seq in_alt in_seq_assoc
  in_rep_cls in_star_cls in_times_cls in_plus_cls in_cls

lemma in_rep_contains:
  assumes "s \<in> lang (RRep m n r)" "0 < m" "\<And>t. t \<in> lang r \<Longrightarrow> c \<in> set t"
  shows "c \<in> set s"
proof -
  from assms(1) obtain k where k: "m \<le> k" "s \<in> lpow k (lang r)" by auto
  with assms(2) obtain j where "k = Suc j" by (cases k) auto
  with k assms(3) show ?thesis by auto
qed

section \<open>Lists of pieces between separators\<close>

lemma lang_times_0: "lang (rtimes 0 q) = {[]}"
  by (simp add: rtimes_def)

lemma lang_times_Suc: "lang (rtimes (Suc n) q) = lang (RSeq q (rtimes n q))"
  by (simp add: rtimes_def)

lemma in_runit: "s \<in> lang (runit c) \<longleftrightarrow> s = [of_char c]"
  by (auto simp: runit_def)

text \<open>A piece, a separator, and the rest, in either grouping.\<close>

lemma in_seq_sep_left:
  "s \<in> lang (RSeq (RSeq r (runit c)) q) \<longleftrightarrow>
     (\<exists>w t. s = w @ of_char c # t \<and> w \<in> lang r \<and> t \<in> lang q)" (is "?l \<longleftrightarrow> ?r")
proof
  assume ?l
  then obtain u t where "s = u @ t" "u \<in> lang (RSeq r (runit c))" "t \<in> lang q"
    by (metis in_seq)
  then show ?r unfolding in_seq in_runit by (auto, blast)
next
  assume ?r
  then obtain w t where wt: "s = (w @ [of_char c]) @ t" "w \<in> lang r" "t \<in> lang q" by auto
  then have "w @ [of_char c] \<in> lang (RSeq r (runit c))" by (intro lang_seqI) (simp_all add: in_runit)
  with wt show ?l using lang_seqI by blast
qed

lemma in_seq_sep_right:
  "s \<in> lang (RSeq r (RSeq (RSeq (runit c) p) q)) \<longleftrightarrow>
     (\<exists>w t. s = w @ of_char c # t \<and> w \<in> lang r \<and> t \<in> lang (RSeq p q))" (is "?l \<longleftrightarrow> ?r")
proof
  assume ?l
  then obtain w u x where x: "s = w @ x @ u" "w \<in> lang r" "x \<in> lang (RSeq (runit c) p)" "u \<in> lang q"
    by (metis in_seq)
  from x(3) obtain y where "x = of_char c # y" "y \<in> lang p" by (auto simp: in_unit_seq simp del: lang.simps)
  with x have "s = w @ of_char c # y @ u" "y @ u \<in> lang (RSeq p q)" using lang_seqI by auto
  with x(2) show ?r by blast
next
  assume ?r
  then obtain w y u where w: "s = w @ (of_char c # y) @ u" "w \<in> lang r" "y \<in> lang p" "u \<in> lang q"
    by (auto simp: in_seq [of _ p q] simp del: lang.simps)
  then have "of_char c # y \<in> lang (RSeq (runit c) p)" by (simp add: in_unit_seq del: lang.simps)
  with w show ?l by (metis lang_seqI)
qed

lemma in_times_sep:
  "s \<in> lang (rtimes n (RSeq r (runit c))) \<longleftrightarrow>
     (\<exists>ws. length ws = n \<and> set ws \<subseteq> lang r \<and> s = concat (map (\<lambda>w. w @ [of_char c]) ws))"
proof (induction n arbitrary: s)
  case 0
  show ?case by (simp add: rtimes_def)
next
  case (Suc n)
  have "s \<in> lang (rtimes (Suc n) (RSeq r (runit c))) \<longleftrightarrow>
      (\<exists>w t. s = w @ of_char c # t \<and> w \<in> lang r \<and> t \<in> lang (rtimes n (RSeq r (runit c))))"
    unfolding lang_times_Suc by (rule in_seq_sep_left)
  also have "\<dots> \<longleftrightarrow> (\<exists>ws. length ws = Suc n \<and> set ws \<subseteq> lang r \<and>
      s = concat (map (\<lambda>w. w @ [of_char c]) ws))"
  proof -
    have "(\<exists>ws. length ws = Suc n \<and> set ws \<subseteq> lang r \<and> s = concat (map (\<lambda>w. w @ [of_char c]) ws))
      \<longleftrightarrow> (\<exists>w vs. length vs = n \<and> w \<in> lang r \<and> set vs \<subseteq> lang r \<and>
            s = w @ of_char c # concat (map (\<lambda>w. w @ [of_char c]) vs))"
      (is "?p \<longleftrightarrow> ?q")
    proof
      assume ?p
      then obtain w vs where "length vs = n" "w \<in> lang r" "set vs \<subseteq> lang r"
        "s = concat (map (\<lambda>w. w @ [of_char c]) (w # vs))"
        by (metis length_Suc_conv list.simps(15) insert_subset)
      then show ?q by auto
    next
      assume ?q
      then obtain w vs where "length (w # vs) = Suc n" "set (w # vs) \<subseteq> lang r"
        "s = concat (map (\<lambda>w. w @ [of_char c]) (w # vs))" by auto
      then show ?p by blast
    qed
    then show ?thesis unfolding Suc.IH by blast
  qed
  finally show ?case .
qed

lemma concat_sep_join: "concat (map (\<lambda>w. w @ [c]) ws) @ u = js_join [c] (ws @ [u])"
  by (induction ws) (auto simp: js_join_Cons)

text \<open>\<open>(r c){n} r\<close> is \<open>n + 1\<close> pieces joined by \<open>c\<close>; so is \<open>r (c r){n}\<close>.\<close>

lemma in_sep_last:
  "s \<in> lang (RSeq (rtimes n (RSeq r (runit c))) r) \<longleftrightarrow>
     (\<exists>ws. length ws = Suc n \<and> set ws \<subseteq> lang r \<and> s = js_join [of_char c] ws)"
proof
  assume "s \<in> lang (RSeq (rtimes n (RSeq r (runit c))) r)"
  then obtain v u where vu: "s = v @ u" "v \<in> lang (rtimes n (RSeq r (runit c)))" "u \<in> lang r"
    by (auto simp: in_seq simp del: lang.simps)
  then obtain ws where "length ws = n" "set ws \<subseteq> lang r" "v = concat (map (\<lambda>w. w @ [of_char c]) ws)"
    by (auto simp: in_times_sep)
  with vu have "length (ws @ [u]) = Suc n \<and> set (ws @ [u]) \<subseteq> lang r \<and>
      s = js_join [of_char c] (ws @ [u])"
    by (simp add: concat_sep_join)
  then show "\<exists>ws. length ws = Suc n \<and> set ws \<subseteq> lang r \<and> s = js_join [of_char c] ws" by blast
next
  assume "\<exists>ws. length ws = Suc n \<and> set ws \<subseteq> lang r \<and> s = js_join [of_char c] ws"
  then obtain ws where ws: "length ws = Suc n" "set ws \<subseteq> lang r" "s = js_join [of_char c] ws" by blast
  then obtain vs u where vs: "ws = vs @ [u]" by (metis length_Suc_conv_rev)
  with ws have "s = concat (map (\<lambda>w. w @ [of_char c]) vs) @ u" by (simp add: concat_sep_join)
  moreover have "concat (map (\<lambda>w. w @ [of_char c]) vs) \<in> lang (rtimes n (RSeq r (runit c)))"
    unfolding in_times_sep using ws vs by auto
  ultimately show "s \<in> lang (RSeq (rtimes n (RSeq r (runit c))) r)"
    using ws vs lang_seqI by simp
qed

lemma in_sep_first:
  "s \<in> lang (RSeq r (rtimes n (RSeq (runit c) r))) \<longleftrightarrow>
     (\<exists>ws. length ws = Suc n \<and> set ws \<subseteq> lang r \<and> s = js_join [of_char c] ws)"
proof (induction n arbitrary: s)
  case 0
  show ?case by (auto simp: rtimes_def length_Suc_conv)
next
  case (Suc n)
  have "s \<in> lang (RSeq r (rtimes (Suc n) (RSeq (runit c) r))) \<longleftrightarrow>
      (\<exists>w t. s = w @ of_char c # t \<and> w \<in> lang r \<and>
             t \<in> lang (RSeq r (rtimes n (RSeq (runit c) r))))"
  proof -
    have "lang (RSeq r (rtimes (Suc n) (RSeq (runit c) r))) =
        lang (RSeq r (RSeq (RSeq (runit c) r) (rtimes n (RSeq (runit c) r))))"
      by (simp only: lang.simps(4) lang_times_Suc)
    then show ?thesis by (simp only: in_seq_sep_right)
  qed
  also have "\<dots> \<longleftrightarrow> (\<exists>ws. length ws = Suc (Suc n) \<and> set ws \<subseteq> lang r \<and>
      s = js_join [of_char c] ws)" (is "?a \<longleftrightarrow> ?b")
  proof
    assume ?a
    then obtain w t ws where "s = w @ of_char c # t" "w \<in> lang r" "length ws = Suc n"
      "set ws \<subseteq> lang r" "t = js_join [of_char c] ws"
      unfolding Suc.IH by blast
    then have "length (w # ws) = Suc (Suc n) \<and> set (w # ws) \<subseteq> lang r \<and>
        s = js_join [of_char c] (w # ws)"
      by (cases ws) (auto simp: js_join_Cons)
    then show ?b by blast
  next
    assume ?b
    then obtain w ws where "length ws = Suc n" "w \<in> lang r" "set ws \<subseteq> lang r"
      "s = js_join [of_char c] (w # ws)"
      by (metis length_Suc_conv list.simps(15) insert_subset)
    moreover from this have "s = w @ of_char c # js_join [of_char c] ws"
      by (cases ws) simp_all
    ultimately show ?a unfolding Suc.IH by blast
  qed
  finally show ?case .
qed

end
