(* ===== verification/FormRules.thy ===== *)
theory FormRules
  imports Regex
begin

text \<open>
  The form rules of \<^verbatim>\<open>src/web/src/global/form-rules.ts\<close>: the validators of the input forms and
  the table \<open>Rules\<close> the views attach to their fields.  A validator gets the field's value
  (\<open>None\<close> for \<open>undefined\<close> or \<open>null\<close>) and answers through its callback: \<open>Pass\<close> for
  \<open>callback()\<close>, \<open>Fail\<close> with the message for \<open>callback(new Error(...))\<close>; \<open>Throws\<close> is a
  \<open>TypeError\<close> that leaves the validator.  Translation keys stand for the translated texts.
\<close>

section \<open>Verdicts\<close>

datatype msg_arg = AStr string | ANum rat

datatype message = Msg string "msg_arg list"

datatype verdict = Pass | Fail message | Throws

type_synonym rule_value = "jstring option"

text \<open>The test \<open>value === '' || typeof value === 'undefined' || value == null\<close>.\<close>

fun blank :: "rule_value \<Rightarrow> bool" where
  "blank None = True"
| "blank (Some s) = (s = [])"

text \<open>
  The shape of nearly all validators: one verdict for a blank value, and a test of the rest.
  The conjunct \<open>value !== ''\<close> that some tests repeat is settled by the first branch.
\<close>

definition pattern_rule :: "verdict \<Rightarrow> (jstring \<Rightarrow> bool) \<Rightarrow> message \<Rightarrow> rule_value \<Rightarrow> verdict" where
  "pattern_rule onblank test msg value =
     (if blank value then onblank
      else if \<not> test (the value) \<and> the value \<noteq> [] then Fail msg else Pass)"

definition required_rule :: "rx \<Rightarrow> string \<Rightarrow> rule_value \<Rightarrow> verdict" where
  "required_rule r key = pattern_rule (Fail (Msg key [])) (rmatch r) (Msg key [])"

definition optional_rule :: "rx \<Rightarrow> string \<Rightarrow> rule_value \<Rightarrow> verdict" where
  "optional_rule r key = pattern_rule Pass (rmatch r) (Msg key [])"

section \<open>Pattern pieces\<close>

definition dig :: rx where "dig = RCls is_digit"
definition rdot :: rx where "rdot = runit CHR ''.''"
definition rcolon :: rx where "rcolon = runit CHR '':''"

text \<open>\<open>(\d{1,2}|1\d\d|2[0-4]\d|25[0-5])\<close>\<close>

definition octet_d2 :: rx where
  "octet_d2 = ralts
    [RRep 1 2 dig,
     rseqs [runit CHR ''1'', dig, dig],
     rseqs [runit CHR ''2'', RCls (rng CHR ''0'' CHR ''4''), dig],
     rseqs [runit CHR ''2'', runit CHR ''5'', RCls (rng CHR ''0'' CHR ''5'')]]"

definition regIP :: rx where
  "regIP = rseqs [octet_d2, rdot, octet_d2, rdot, octet_d2, rdot, octet_d2]"

text \<open>\<open>(?:[0-9]|[1-9][0-9]|1[0-9][0-9]|2[0-4][0-9]|25[0-5])\<close>\<close>

definition IPv4SegmentFormat :: rx where
  "IPv4SegmentFormat = ralts
    [dig,
     rseqs [RCls (rng CHR ''1'' CHR ''9''), dig],
     rseqs [runit CHR ''1'', dig, dig],
     rseqs [runit CHR ''2'', RCls (rng CHR ''0'' CHR ''4''), dig],
     rseqs [runit CHR ''2'', runit CHR ''5'', RCls (rng CHR ''0'' CHR ''5'')]]"

definition IPv4AddressFormat :: rx where
  "IPv4AddressFormat = RSeq (rtimes 3 (RSeq IPv4SegmentFormat rdot)) IPv4SegmentFormat"

definition IPv6SegmentFormat :: rx where
  "IPv6SegmentFormat = RRep 1 4 (RCls hex_unit)"

text \<open>\<open>(?:SEG:){n}\<close> and \<open>(:SEG){m,n}\<close>\<close>

definition segs_colon :: "nat \<Rightarrow> rx" where
  "segs_colon n = rtimes n (RSeq IPv6SegmentFormat rcolon)"

definition colon_segs :: "nat \<Rightarrow> nat \<Rightarrow> rx" where
  "colon_segs m n = RRep m n (RSeq rcolon IPv6SegmentFormat)"

definition IPv6AddressRegExp :: rx where
  "IPv6AddressRegExp = RSeq
    (ralts
      [RSeq (segs_colon 7) (RAlt IPv6SegmentFormat rcolon),
       RSeq (segs_colon 6) (ralts [IPv4AddressFormat, RSeq rcolon IPv6SegmentFormat, rcolon]),
       RSeq (segs_colon 5) (ralts [RSeq rcolon IPv4AddressFormat, colon_segs 1 2, rcolon]),
       RSeq (segs_colon 4)
         (ralts [rseqs [colon_segs 0 1, rcolon, IPv4AddressFormat], colon_segs 1 3, rcolon]),
       RSeq (segs_colon 3)
         (ralts [rseqs [colon_segs 0 2, rcolon, IPv4AddressFormat], colon_segs 1 4, rcolon]),
       RSeq (segs_colon 2)
         (ralts [rseqs [colon_segs 0 3, rcolon, IPv4AddressFormat], colon_segs 1 5, rcolon]),
       RSeq (segs_colon 1)
         (ralts [rseqs [colon_segs 0 4, rcolon, IPv4AddressFormat], colon_segs 1 6, rcolon]),
       RSeq rcolon
         (ralts [rseqs [colon_segs 0 5, rcolon, IPv4AddressFormat], colon_segs 1 7, rcolon])])
    (ropt (RSeq (runit CHR ''%'') (rplus (RCls (\<lambda>c. alnum c \<or> one_of ''-.:'' c)))))"

text \<open>
  \<open>^(?=^.{3,255}$)[a-zA-Z0-9][-a-zA-Z0-9]{0,62}(\.[a-zA-Z0-9][-a-zA-Z0-9]{0,62})+$\<close>: the
  lookahead is a test of the whole value.
\<close>

definition host_label :: rx where
  "host_label = RSeq (RCls alnum) (RRep 0 62 (RCls (\<lambda>c. alnum c \<or> one_of ''-'' c)))"

definition regHost :: "jstring \<Rightarrow> bool" where
  "regHost s \<longleftrightarrow> rmatch (RRep 3 255 (RCls dot_unit)) s \<and>
     rmatch (RSeq host_label (rplus (RSeq rdot host_label))) s"

section \<open>Address and host validators\<close>

definition checkNoSpace :: "rule_value \<Rightarrow> verdict" where
  "checkNoSpace value = (case value of None \<Rightarrow> Throws
     | Some s \<Rightarrow> if str_includes s (lit '' '') then Fail (Msg ''setting.noSpace'' []) else Pass)"

definition checkIp :: "rule_value \<Rightarrow> verdict" where
  "checkIp = pattern_rule (Fail (Msg ''commons.rule.requiredInput'' []))
     (rmatch regIP) (Msg ''commons.rule.ip'' [])"

definition checkIpv4 :: "rule_value \<Rightarrow> verdict" where
  "checkIpv4 = optional_rule regIP ''commons.rule.ip''"

definition checkIpV6 :: "rule_value \<Rightarrow> verdict" where
  "checkIpV6 = pattern_rule (Fail (Msg ''commons.rule.requiredInput'' []))
     (rmatch IPv6AddressRegExp) (Msg ''commons.rule.ip'' [])"

definition checkIpV4V6OrDomain :: "rule_value \<Rightarrow> verdict" where
  "checkIpV4V6OrDomain = pattern_rule (Fail (Msg ''commons.rule.requiredInput'' []))
     (\<lambda>s. regHost s \<or> rmatch IPv4AddressFormat s \<or> rmatch IPv6AddressRegExp s)
     (Msg ''commons.rule.ip'' [])"

text \<open>The three literals of \<open>checkDomainOrIP\<close>; its domain pattern has the flag \<open>i\<close>.\<close>

definition octet_z3 :: rx where
  "octet_z3 = ralts
    [rseqs [runit CHR ''2'', runit CHR ''5'', RCls (rng CHR ''0'' CHR ''5'')],
     rseqs [runit CHR ''2'', RCls (rng CHR ''0'' CHR ''4''), dig],
     rseqs [ropt (RCls (one_of ''01'')), dig, ropt dig]]"

definition ipv4Regex :: rx where
  "ipv4Regex = RSeq (rtimes 3 (RSeq octet_z3 rdot)) octet_z3"

text \<open>\<open>(?:25[0-5]|(?:2[0-4]|1{0,1}[0-9]){0,1}[0-9])\<close>\<close>

definition octet_n :: rx where
  "octet_n = RAlt
    (rseqs [runit CHR ''2'', runit CHR ''5'', RCls (rng CHR ''0'' CHR ''5'')])
    (RSeq (ropt (RAlt (RSeq (runit CHR ''2'') (RCls (rng CHR ''0'' CHR ''4'')))
                      (RSeq (ropt (runit CHR ''1'')) dig)))
          dig)"

definition quad_n :: rx where
  "quad_n = RSeq (rtimes 3 (RSeq octet_n rdot)) octet_n"

definition ipv6Regex :: rx where
  "ipv6Regex =
    (let seg = IPv6SegmentFormat; sc = (\<lambda>m n. RRep m n (RSeq seg rcolon)) in
     ralts
      [RSeq (sc 7 7) seg,
       RSeq (sc 1 7) rcolon,
       rseqs [sc 1 6, rcolon, seg],
       RSeq (sc 1 5) (colon_segs 1 2),
       RSeq (sc 1 4) (colon_segs 1 3),
       RSeq (sc 1 3) (colon_segs 1 4),
       RSeq (sc 1 2) (colon_segs 1 5),
       rseqs [seg, rcolon, colon_segs 1 6],
       RSeq rcolon (RAlt (colon_segs 1 7) rcolon),
       rseqs [rword ''fe80:'', RRep 0 4 (RSeq rcolon (RRep 0 4 (RCls hex_unit))),
              runit CHR ''%'', rplus (RCls alnum)],
       rseqs [rcolon, rcolon,
              ropt (rseqs [rword ''ffff'', ropt (RSeq rcolon (RRep 1 4 (runit CHR ''0''))), rcolon]),
              quad_n],
       rseqs [sc 1 4, rcolon, quad_n]])"

definition lower_alnum_i_dash :: "nat \<Rightarrow> bool" where
  "lower_alnum_i_dash c \<longleftrightarrow> alnum c \<or> one_of ''-'' c"

definition domainRegex :: rx where
  "domainRegex = rseqs
    [ropt (RSeq (runit CHR ''*'') rdot),
     rplus (rseqs [RCls alnum, ropt (RSeq (RRep 0 61 (RCls lower_alnum_i_dash)) (RCls alnum)), rdot]),
     RCls alnum, RRep 0 61 (RCls lower_alnum_i_dash), RCls alnum]"

definition checkDomainOrIP :: "rule_value \<Rightarrow> verdict" where
  "checkDomainOrIP value =
     (if blank value then Pass
      else if rmatch ipv4Regex (the value) \<or> rmatch ipv6Regex (the value) \<or>
              rmatch domainRegex (the value)
      then Pass else Fail (Msg ''commons.rule.domain'' []))"

definition checkHost :: "rule_value \<Rightarrow> verdict" where
  "checkHost = pattern_rule (Fail (Msg ''commons.rule.requiredInput'' []))
     (\<lambda>s. rmatch regIP s \<or> regHost s) (Msg ''commons.rule.host'' [])"

definition ipv4_strict :: rx where
  "ipv4_strict =
    (let oct = ralts
       [rseqs [runit CHR ''2'', runit CHR ''5'', RCls (rng CHR ''0'' CHR ''5'')],
        rseqs [runit CHR ''2'', RCls (rng CHR ''0'' CHR ''4''), dig],
        rseqs [runit CHR ''1'', dig, dig],
        RSeq (ropt (RCls (rng CHR ''1'' CHR ''9''))) dig]
     in RSeq oct (rtimes 3 (RSeq rdot oct)))"

definition ipv6_plain :: rx where
  "ipv6_plain =
    (let seg = IPv6SegmentFormat in
     ralts [RSeq (RRep 7 7 (RSeq seg rcolon)) seg,
            RSeq (RRep 1 7 (RSeq seg rcolon)) rcolon,
            RSeq rcolon (colon_segs 1 7)])"

definition checkIpv4orV6 :: "rule_value \<Rightarrow> verdict" where
  "checkIpv4orV6 value =
     (if blank value then Pass
      else if \<not> rmatch ipv4_strict (the value) \<and> \<not> rmatch ipv6_plain (the value)
      then Fail (Msg ''commons.rule.ip'' []) else Pass)"

section \<open>Name and credential validators\<close>

definition checkIllegal :: "rule_value \<Rightarrow> verdict" where
  "checkIllegal value =
     (if blank value then Fail (Msg ''commons.rule.requiredInput'' [])
      else let v = the value in
        if str_includes v (lit ''&'') \<or> str_includes v (lit ''|'') \<or> str_includes v (lit '';'') \<or>
           str_includes v (lit ''$'') \<or> str_includes v (lit [CHR 0x27]) \<or>
           str_includes v (lit [CHR 0x60]) \<or>
           str_includes v (lit ''('') \<or> str_includes v (lit '')'') \<or>
           str_includes v (lit ''>'') \<or> str_includes v (lit ''<'')
        then Fail (Msg ''commons.rule.illegalInput'' []) else Pass)"

text \<open>\<open>^(?![\d]+$)(?![a-zA-Z]+$)(?![^\da-zA-Z]+$).{8,30}$\<close>\<close>

definition complexityPassword :: "rule_value \<Rightarrow> verdict" where
  "complexityPassword = pattern_rule (Fail (Msg ''commons.rule.complexityPassword'' []))
     (\<lambda>s. \<not> rmatch (rplus dig) s \<and> \<not> rmatch (rplus (RCls letter)) s \<and>
          \<not> rmatch (rplus (RCls (\<lambda>c. \<not> alnum c))) s \<and> rmatch (RRep 8 30 (RCls dot_unit)) s)
     (Msg ''commons.rule.complexityPassword'' [])"

text \<open>\<open>[P]{1}[Q]{m,n}\<close>: the shape of the name rules.\<close>

definition head_tail :: "(nat \<Rightarrow> bool) \<Rightarrow> (nat \<Rightarrow> bool) \<Rightarrow> nat \<Rightarrow> nat \<Rightarrow> rx" where
  "head_tail p q m n = RSeq (RCls p) (RRep m n (RCls q))"

definition alnum_cjk :: "nat \<Rightarrow> bool" where
  "alnum_cjk c \<longleftrightarrow> alnum c \<or> cjk c"

definition alnum_or :: "string \<Rightarrow> nat \<Rightarrow> bool" where
  "alnum_or w c \<longleftrightarrow> alnum c \<or> one_of w c"

definition checkName :: "rule_value \<Rightarrow> verdict" where
  "checkName = required_rule
     (head_tail alnum_cjk (\<lambda>c. alnum_cjk c \<or> one_of ''_.-'' c) 0 127) ''commons.rule.commonName''"

definition checkUserName :: "rule_value \<Rightarrow> verdict" where
  "checkUserName = required_rule
     (RRep 3 30 (RCls (\<lambda>c. alnum_cjk c \<or> one_of ''_'' c))) ''commons.rule.userName''"

definition checkSimpleName :: "rule_value \<Rightarrow> verdict" where
  "checkSimpleName = required_rule (head_tail alnum (alnum_or ''_'') 2 29) ''commons.rule.simpleName''"

definition checkSimplePassword :: "rule_value \<Rightarrow> verdict" where
  "checkSimplePassword =
     required_rule (head_tail alnum (alnum_or ''_'') 0 29) ''commons.rule.simplePassword''"

definition checkAuthBasicPassword :: "rule_value \<Rightarrow> verdict" where
  "checkAuthBasicPassword =
     required_rule (RRep 1 72 (RCls (alnum_or ''_-.@$!%*?&''))) ''commons.rule.authBasicPassword''"

definition checkDBName :: "rule_value \<Rightarrow> verdict" where
  "checkDBName = required_rule
     (head_tail alnum_cjk (\<lambda>c. alnum_cjk c \<or> one_of ''_.-'' c) 0 63) ''commons.rule.dbName''"

definition checkComposeName :: "rule_value \<Rightarrow> verdict" where
  "checkComposeName = required_rule
     (head_tail lower_alnum (\<lambda>c. lower_alnum c \<or> one_of ''_-'' c) 0 255) ''commons.rule.composeName''"

definition checkImageName :: "rule_value \<Rightarrow> verdict" where
  "checkImageName =
     required_rule (head_tail alnum (alnum_or '':@_/.-'') 0 255) ''commons.rule.imageName''"

definition checkVolumeName :: "rule_value \<Rightarrow> verdict" where
  "checkVolumeName =
     required_rule (head_tail alnum (alnum_or ''_.-'') 1 30) ''commons.rule.volumeName''"

text \<open>\<open>[^/\\\"'|<>()?*]{1,128}\<close>: 47 92 34 39 124 60 62 40 41 63 42.\<close>

definition linux_forbidden :: "nat \<Rightarrow> bool" where
  "linux_forbidden c \<longleftrightarrow> c \<in> {47, 92, 34, 39, 124, 60, 62, 40, 41, 63, 42}"

definition linuxName_msg :: message where
  "linuxName_msg = Msg ''commons.rule.linuxName''
     [AStr (''/'' @ [CHR 0x5C] @ '':*?'' @ [CHR 0x27, CHR 0x22] @ ''()<>|'')]"

definition checkLinuxName :: "rule_value \<Rightarrow> verdict" where
  "checkLinuxName = pattern_rule (Fail linuxName_msg)
     (rmatch (RRep 1 128 (RCls (\<lambda>c. \<not> linux_forbidden c)))) linuxName_msg"

definition checkSupervisorName :: "rule_value \<Rightarrow> verdict" where
  "checkSupervisorName =
     required_rule (head_tail alnum (alnum_or ''_-'') 0 127) ''commons.rule.supervisorName''"

definition checkDatabaseName :: "rule_value \<Rightarrow> verdict" where
  "checkDatabaseName =
     required_rule (head_tail alnum (alnum_or ''_'') 0 30) ''commons.rule.databaseName''"

text \<open>\<open>^(?![_-])[a-zA-Z0-9_-]{1,29}[a-zA-Z0-9]$\<close>\<close>

definition checkAppName :: "rule_value \<Rightarrow> verdict" where
  "checkAppName = pattern_rule (Fail (Msg ''commons.rule.appName'' []))
     (\<lambda>s. \<not> (s \<noteq> [] \<and> one_of ''_-'' (hd s)) \<and>
          rmatch (RSeq (RRep 1 29 (RCls (alnum_or ''_-''))) (RCls alnum)) s)
     (Msg ''commons.rule.appName'' [])"

definition checkAlias :: "rule_value \<Rightarrow> verdict" where
  "checkAlias value =
     (if blank value then Fail (Msg ''commons.rule.alias'' [])
      else let s = the value in
        if \<not> (\<not> one_of ''-_'' (hd s) \<and>
               rmatch (RSeq (RRep 0 126 (RCls (alnum_or ''._-''))) (RCls (alnum_or ''.''))) s)
        then Fail (Msg ''commons.rule.alias'' []) else Pass)"

definition checkVMName :: "rule_value \<Rightarrow> verdict" where
  "checkVMName = required_rule (head_tail alnum (alnum_or ''._-'') 0 63) ''commons.rule.vmName''"

definition checkVMNetwork :: "rule_value \<Rightarrow> verdict" where
  "checkVMNetwork =
     required_rule (head_tail alnum (alnum_or ''._:-'') 0 63) ''commons.rule.vmNetwork''"

section \<open>Domain, number and parameter validators\<close>

definition domain_unit :: "nat \<Rightarrow> bool" where
  "domain_unit c \<longleftrightarrow> word_unit c \<or> cjk c \<or> one_of ''-'' c"

definition domain_reg :: rx where
  "domain_reg = RSeq
     (RRep 1 10 (RSeq (RRep 1 100 (RCls (\<lambda>c. domain_unit c \<or> one_of ''*'' c))) rdot))
     (RAlt (RRep 1 24 (RCls domain_unit))
           (rseqs [RRep 1 24 (RCls domain_unit), rdot, RRep 1 24 (RCls domain_unit)]))"

definition checkDomain :: "rule_value \<Rightarrow> verdict" where
  "checkDomain = required_rule domain_reg ''commons.rule.domain''"

definition checkDomainWithPort :: "rule_value \<Rightarrow> verdict" where
  "checkDomainWithPort =
     required_rule (RSeq domain_reg (ropt (RSeq rcolon (RRep 1 5 dig)))) ''commons.rule.domain''"

definition checkIntegerNumber :: "rule_value \<Rightarrow> verdict" where
  "checkIntegerNumber =
     required_rule (RSeq (RCls (rng CHR ''1'' CHR ''9'')) (RStar dig)) ''commons.rule.integer''"

definition checkIntegerNumberWith0 :: "rule_value \<Rightarrow> verdict" where
  "checkIntegerNumberWith0 = required_rule (RStar dig) ''commons.rule.integer''"

definition checkFloatNumber :: "rule_value \<Rightarrow> verdict" where
  "checkFloatNumber = pattern_rule (Fail (Msg ''commons.rule.integer'' []))
     (rmatch (RSeq (rplus dig) (ropt (RSeq rdot (rplus dig))))) (Msg ''commons.rule.number'' [])"

definition checkParamCommon :: "rule_value \<Rightarrow> verdict" where
  "checkParamCommon =
     required_rule (head_tail alnum (alnum_or ''._-'') 1 63) ''commons.rule.paramName''"

definition checkParamComplexity :: "rule_value \<Rightarrow> verdict" where
  "checkParamComplexity = pattern_rule (Fail (Msg ''commons.rule.paramComplexity'' [AStr ''.%@!~_-'']))
     (rmatch (rseqs [RCls alnum, RRep 4 126 (RCls (alnum_or ''.%@!~_-'')), RCls alnum]))
     (Msg ''commons.rule.paramComplexity'' [AStr ''.%@!~_-''])"

definition digit_in :: "char \<Rightarrow> char \<Rightarrow> rx" where
  "digit_in a b = RCls (rng a b)"

text \<open>
  The six alternatives of a decimal port; \<open>port_reg\<close> is the pattern of \<open>checkPort\<close>, and
  \<open>colon_port\<close> the same alternatives after a colon, as \<open>checkParamUrlAndPort\<close> has them.
\<close>

definition port_alts :: "rx list" where
  "port_alts =
    [RSeq (digit_in CHR ''1'' CHR ''9'') (RRep 0 3 dig),
     RSeq (digit_in CHR ''1'' CHR ''5'') (rtimes 4 dig),
     rseqs [runit CHR ''6'', digit_in CHR ''0'' CHR ''4'', rtimes 3 dig],
     rseqs [runit CHR ''6'', runit CHR ''5'', digit_in CHR ''0'' CHR ''4'', rtimes 2 dig],
     rseqs [runit CHR ''6'', runit CHR ''5'', runit CHR ''5'', digit_in CHR ''0'' CHR ''2'', dig],
     rseqs [runit CHR ''6'', runit CHR ''5'', runit CHR ''5'', runit CHR ''3'',
            digit_in CHR ''0'' CHR ''5'']]"

definition port_reg :: rx where
  "port_reg = ralts port_alts"

definition colon_port :: rx where
  "colon_port = ralts (map (RSeq rcolon) port_alts)"

definition checkParamUrlAndPort :: "rule_value \<Rightarrow> verdict" where
  "checkParamUrlAndPort = required_rule
     (rseqs
       [ropt (rseqs [rword ''http'', ropt (runit CHR ''s''), rword ''://'']),
        RAlt (rword ''localhost'')
             (RSeq (RStar (RSeq (rplus (RCls (alnum_or ''_-''))) rdot)) (rplus (RCls (alnum_or ''_-'')))),
        ropt colon_port,
        ropt (RSeq (runit CHR ''/'') (RStar (RCls (\<lambda>c. \<not> is_space c))))])
     ''commons.rule.paramUrlAndPort''"

definition checkPort :: "rule_value \<Rightarrow> verdict" where
  "checkPort = required_rule port_reg ''commons.rule.port''"

definition checkDoc :: "rule_value \<Rightarrow> verdict" where
  "checkDoc = required_rule
     (rplus (RCls (\<lambda>c. alnum_or ''./_-'' c \<or> c = 10))) ''commons.rule.nginxDoc''"

definition checkContainerName :: "rule_value \<Rightarrow> verdict" where
  "checkContainerName =
     optional_rule (head_tail alnum (alnum_or ''_.-'') 1 127) ''commons.rule.containerName''"

definition checkDisableFunctions :: "rule_value \<Rightarrow> verdict" where
  "checkDisableFunctions =
     required_rule (rplus (RCls (\<lambda>c. letter c \<or> one_of ''_,'' c))) ''commons.rule.disableFunction''"

definition checkLeechExts :: "rule_value \<Rightarrow> verdict" where
  "checkLeechExts = required_rule (rplus (RCls (alnum_or '',''))) ''commons.rule.leechExts''"

definition checkParamSimple :: "rule_value \<Rightarrow> verdict" where
  "checkParamSimple =
     optional_rule (head_tail lower_alnum lower_alnum 1 128) ''commons.rule.paramSimple''"

definition checkFilePermission :: "rule_value \<Rightarrow> verdict" where
  "checkFilePermission =
     required_rule (RRep 3 4 (digit_in CHR ''0'' CHR ''7'')) ''commons.rule.filePermission''"

definition checkPHPExtensions :: "rule_value \<Rightarrow> verdict" where
  "checkPHPExtensions =
     required_rule (rplus (RCls (\<lambda>c. lower_alnum c \<or> one_of '',_'' c))) ''commons.rule.phpExtension''"

text \<open>\<open>^(http|https):\/\/\<close> has no end anchor: any text may follow.\<close>

definition checkHttpOrHttps :: "rule_value \<Rightarrow> verdict" where
  "checkHttpOrHttps = required_rule
     (rseqs [RAlt (rword ''http'') (rword ''https''), rword ''://'', RStar (RCls (\<lambda>_. True))])
     ''commons.rule.paramHttp''"

definition checkPhone :: "rule_value \<Rightarrow> verdict" where
  "checkPhone = optional_rule
     (rseqs [ropt (RSeq (RAlt (runit CHR ''+'') (rword ''00'')) (rword ''86'')),
             runit CHR ''1'', digit_in CHR ''3'' CHR ''9'', rtimes 9 dig])
     ''commons.rule.phone''"

section \<open>Rules\<close>

datatype rule_type = TyNumber | TyString | TyEmail

datatype trigger = Blur | Change | BlurChange

record form_item_rule =
  required :: bool
  rtype :: "rule_type option"
  rmin :: "rat option"
  rmax :: "rat option"
  message :: "message option"
  rtrigger :: trigger
  validator :: "(rule_value \<Rightarrow> verdict) option"

definition checkNumberRange :: "rat \<Rightarrow> rat \<Rightarrow> form_item_rule" where
  "checkNumberRange mn mx =
     \<lparr>required = False, rtype = Some TyNumber, rmin = Some mn, rmax = Some mx,
      message = Some (Msg ''commons.rule.numberRange'' [ANum mn, ANum mx]),
      rtrigger = Blur, validator = None\<rparr>"

definition checkFloatNumberRange :: "rat \<Rightarrow> rat \<Rightarrow> form_item_rule" where
  "checkFloatNumberRange mn mx =
     \<lparr>required = False, rtype = None, rmin = None, rmax = None,
      message = Some (Msg ''commons.rule.numberRange'' [ANum mn, ANum mx]),
      rtrigger = Blur,
      validator = Some (pattern_rule (Fail (Msg ''commons.rule.disableFunction'' []))
        (\<lambda>v. \<not> (num_less (js_Number v) mn \<or> num_greater (js_Number v) mx))
        (Msg ''commons.rule.disableFunction'' []))\<rparr>"

definition checkMaxLength :: "nat \<Rightarrow> form_item_rule" where
  "checkMaxLength maxLength =
     \<lparr>required = False, rtype = Some TyString, rmin = None, rmax = None, message = None,
      rtrigger = Blur,
      validator = Some (\<lambda>value. if blank value then Pass
        else if length (the value) > maxLength
          then Fail (Msg ''commons.rule.maxLength'' [ANum (of_nat maxLength)]) else Pass)\<rparr>"

end
