(* ===== verification/Dotted.thy ===== *)
theory Dotted
  imports FormRules
begin

text \<open>
  Decimal octets, dotted quads and decimal ports: which strings the octet and port patterns of
  the form rules accept, as the decimal texts of numbers in a range.  The form rules and the
  firewall's hand-written parser both rest on these facts.
\<close>

section \<open>Canonical numerals\<close>

definition canonical :: "jstring \<Rightarrow> bool" where
  "canonical s \<longleftrightarrow> all_digits s \<and> (length s = 1 \<or> hd s \<noteq> 48)"

lemma canonical_of_nat: "canonical (digits_of_nat n)"
proof (cases "n = 0")
  case True
  then show ?thesis by (subst digits_of_nat.simps) (simp add: canonical_def all_digits_def is_digit_def)
next
  case False
  then show ?thesis using hd_digits_of_nat by (simp add: canonical_def)
qed

lemma canonical_iff: "canonical s \<longleftrightarrow> digits_of_nat (nat_of_digits s) = s"
proof
  show "canonical s \<Longrightarrow> digits_of_nat (nat_of_digits s) = s"
    using digits_of_nat_of_digits [of s] by (auto simp: canonical_def)
next
  show "digits_of_nat (nat_of_digits s) = s \<Longrightarrow> canonical s"
    using canonical_of_nat [of "nat_of_digits s"] by simp
qed

lemma numeral_range: "(\<exists>n. P n \<and> s = digits_of_nat n) \<longleftrightarrow> canonical s \<and> P (nat_of_digits s)"
  by (metis canonical_iff nat_of_digits_of_nat)

lemma canonical_lower:
  assumes "canonical (c # s)" "s \<noteq> []"
  shows "10 ^ length s \<le> nat_of_digits (c # s)"
proof -
  have "1 \<le> c - 48" using assms by (auto simp: canonical_def all_digits_def is_digit_def)
  then have "1 * 10 ^ length s \<le> (c - 48) * 10 ^ length s" by (rule mult_le_mono1)
  then show ?thesis unfolding nat_of_digits_Cons by linarith
qed

lemma canonical_short:
  assumes "canonical s" "nat_of_digits s < 10 ^ k" "0 < k"
  shows "length s \<le> k"
  using assms length_digits_of_nat_le [of k "nat_of_digits s"] by (simp add: canonical_iff)

section \<open>Octets\<close>

definition octet :: "jstring \<Rightarrow> bool" where
  "octet s \<longleftrightarrow> canonical s \<and> nat_of_digits s \<le> 255"

lemma octet_iff: "octet s \<longleftrightarrow> (\<exists>n \<le> 255. s = digits_of_nat n)"
  unfolding octet_def using numeral_range [of "\<lambda>n. n \<le> 255" s] by auto

lemma octet_length: "octet s \<Longrightarrow> s \<noteq> [] \<and> length s \<le> 3"
  using canonical_short [of s 3] by (auto simp: octet_def canonical_def all_digits_def)

text \<open>The patterns \<open>IPv4SegmentFormat\<close> and the octet of \<open>ipv4_strict\<close>.\<close>

lemma short_cases:
  assumes "length s \<le> 3"
  obtains "s = []" | a where "s = [a]" | a b where "s = [a, b]" | a b c where "s = [a, b, c]"
proof -
  have "length s = 0 \<or> length s = 1 \<or> length s = 2 \<or> length s = 3" using assms by arith
  then show thesis
    by (auto simp: numeral_3_eq_3 numeral_2_eq_2 length_Suc_conv intro: that)
qed

lemma IPv4Segment_short: "s \<in> lang IPv4SegmentFormat \<Longrightarrow> length s \<le> 3"
  by (auto simp: IPv4SegmentFormat_def dig_def runit_def rx_simps simp del: lang.simps)

lemma IPv4Segment_octet: "s \<in> lang IPv4SegmentFormat \<longleftrightarrow> octet s"
proof (cases "length s \<le> 3")
  case True
  then show ?thesis
    by (cases s rule: short_cases)
      (auto simp: IPv4SegmentFormat_def dig_def runit_def rx_eval octet_def canonical_def
        all_digits_def is_digit_def rng_def nat_of_digits_Cons simp del: lang.simps)
next
  case False
  then show ?thesis using IPv4Segment_short octet_length by blast
qed

lemma octet_strict:
  "s \<in> lang (ralts
       [rseqs [runit CHR ''2'', runit CHR ''5'', RCls (rng CHR ''0'' CHR ''5'')],
        rseqs [runit CHR ''2'', RCls (rng CHR ''0'' CHR ''4''), dig],
        rseqs [runit CHR ''1'', dig, dig],
        RSeq (ropt (RCls (rng CHR ''1'' CHR ''9''))) dig]) \<longleftrightarrow> octet s" (is "s \<in> lang ?r \<longleftrightarrow> _")
proof (cases "length s \<le> 3")
  case True
  then show ?thesis
    by (cases s rule: short_cases)
      (auto simp: dig_def runit_def rx_eval octet_def canonical_def
        all_digits_def is_digit_def rng_def nat_of_digits_Cons simp del: lang.simps)
next
  case False
  moreover have "s \<in> lang ?r \<Longrightarrow> length s \<le> 3"
    by (auto simp: dig_def runit_def rx_simps in_opt_seq simp del: lang.simps)
  ultimately show ?thesis using octet_length by blast
qed

section \<open>Dotted quads\<close>

definition dotted_quad :: "nat \<Rightarrow> nat \<Rightarrow> nat \<Rightarrow> nat \<Rightarrow> jstring" where
  "dotted_quad a b c d = js_join (lit ''.'') (map digits_of_nat [a, b, c, d])"

definition is_quad :: "jstring \<Rightarrow> bool" where
  "is_quad s \<longleftrightarrow> (\<exists>a b c d. a \<le> 255 \<and> b \<le> 255 \<and> c \<le> 255 \<and> d \<le> 255 \<and> s = dotted_quad a b c d)"

lemma is_quad_pieces:
  "is_quad s \<longleftrightarrow> (\<exists>ws. length ws = 4 \<and> (\<forall>w \<in> set ws. octet w) \<and> s = js_join [46] ws)"
proof
  assume "is_quad s"
  then obtain a b c d where q: "a \<le> 255" "b \<le> 255" "c \<le> 255" "d \<le> 255" "s = dotted_quad a b c d"
    by (auto simp: is_quad_def)
  then have "\<forall>w \<in> set (map digits_of_nat [a, b, c, d]). octet w" by (auto simp: octet_iff)
  moreover have "s = js_join [46] (map digits_of_nat [a, b, c, d])"
    using q by (simp add: dotted_quad_def)
  moreover have "length (map digits_of_nat [a, b, c, d]) = 4" by simp
  ultimately show "\<exists>ws. length ws = 4 \<and> (\<forall>w \<in> set ws. octet w) \<and> s = js_join [46] ws" by blast
next
  assume "\<exists>ws. length ws = 4 \<and> (\<forall>w \<in> set ws. octet w) \<and> s = js_join [46] ws"
  then obtain w x y z where ws: "octet w" "octet x" "octet y" "octet z" "s = js_join [46] [w, x, y, z]"
    by (auto simp: length_Suc_conv eval_nat_numeral)
  then obtain a b c d where "a \<le> 255" "b \<le> 255" "c \<le> 255" "d \<le> 255"
    "w = digits_of_nat a" "x = digits_of_nat b" "y = digits_of_nat c" "z = digits_of_nat d"
    unfolding octet_iff by blast
  with ws(5) show "is_quad s" by (auto simp: is_quad_def dotted_quad_def)
qed

lemma dot_code: "of_char CHR ''.'' = (46::nat)" "lit ''.'' = [46]"
  by simp_all

lemma octets_subset: "set ws \<subseteq> {w. octet w} \<longleftrightarrow> (\<forall>w \<in> set ws. octet w)"
  by auto

lemma IPv4Segment_lang: "lang IPv4SegmentFormat = {w. octet w}"
  using IPv4Segment_octet by auto

lemma IPv4Address_quad: "rmatch IPv4AddressFormat s \<longleftrightarrow> is_quad s"
  unfolding rmatch_iff IPv4AddressFormat_def rdot_def in_sep_last is_quad_pieces
    IPv4Segment_lang octets_subset dot_code by (simp add: numeral_eq_Suc)

lemma ipv4_strict_quad: "rmatch ipv4_strict s \<longleftrightarrow> is_quad s"
proof -
  have "lang (ralts
       [rseqs [runit CHR ''2'', runit CHR ''5'', RCls (rng CHR ''0'' CHR ''5'')],
        rseqs [runit CHR ''2'', RCls (rng CHR ''0'' CHR ''4''), dig],
        rseqs [runit CHR ''1'', dig, dig],
        RSeq (ropt (RCls (rng CHR ''1'' CHR ''9''))) dig]) = {w. octet w}"
    using octet_strict by blast
  then show ?thesis
    unfolding rmatch_iff ipv4_strict_def Let_def rdot_def in_sep_first is_quad_pieces
    by (simp add: octets_subset dot_code numeral_eq_Suc del: ralts.simps rseqs.simps lang.simps)
qed

section \<open>Ports\<close>

lemma port_cases:
  assumes "length s \<le> 5"
  obtains (short) "length s \<le> 3" | (four) a b c d where "s = [a, b, c, d]"
    | (five) a b c d e where "s = [a, b, c, d, e]"
proof -
  have "length s \<le> 3 \<or> length s = 4 \<or> length s = 5" using assms by arith
  then show thesis by (auto simp: eval_nat_numeral length_Suc_conv intro: that)
qed

lemmas port_eval = port_reg_def port_alts_def digit_in_def dig_def runit_def rx_eval canonical_def
  all_digits_def is_digit_def rng_def nat_of_digits_Cons

text \<open>The six alternatives cover exactly the numbers up to 65535, compared digit by digit.\<close>

lemma lex_step:
  fixes a x :: nat
  assumes "x < k"
  shows "a * k + x \<le> m * k + y \<and> y < k \<longleftrightarrow> (a < m \<or> a = m \<and> x \<le> y) \<and> y < k"
proof (cases "y < k")
  case True
  consider "a < m" | "a = m" | "m < a" by linarith
  then show ?thesis
  proof cases
    case 1
    then have "Suc a * k \<le> m * k" by (intro mult_le_mono1) simp
    with assms 1 show ?thesis by simp
  next
    case 3
    then have "Suc m * k \<le> a * k" by (intro mult_le_mono1) simp
    with True 3 show ?thesis by simp
  qed simp
qed simp

lemma port_arith:
  fixes a b c d e :: nat
  assumes "b \<le> 9" "c \<le> 9" "d \<le> 9" "e \<le> 9"
  shows "a * 10000 + (b * 1000 + (c * 100 + (d * 10 + e))) \<le> 65535 \<longleftrightarrow>
    a \<le> 5 \<or> a = 6 \<and> b \<le> 4 \<or> a = 6 \<and> b = 5 \<and> c \<le> 4 \<or>
    a = 6 \<and> b = 5 \<and> c = 5 \<and> d \<le> 2 \<or> a = 6 \<and> b = 5 \<and> c = 5 \<and> d = 3 \<and> e \<le> 5"
proof -
  have 1: "a * 10000 + (b * 1000 + (c * 100 + (d * 10 + e))) \<le> 65535 \<longleftrightarrow>
      a < 6 \<or> a = 6 \<and> b * 1000 + (c * 100 + (d * 10 + e)) \<le> 5535"
    using assms lex_step [of "b * 1000 + (c * 100 + (d * 10 + e))" 10000 a 6 5535] by simp
  have 2: "b * 1000 + (c * 100 + (d * 10 + e)) \<le> 5535 \<longleftrightarrow>
      b < 5 \<or> b = 5 \<and> c * 100 + (d * 10 + e) \<le> 535"
    using assms lex_step [of "c * 100 + (d * 10 + e)" 1000 b 5 535] by simp
  have 3: "c * 100 + (d * 10 + e) \<le> 535 \<longleftrightarrow> c < 5 \<or> c = 5 \<and> d * 10 + e \<le> 35"
    using assms lex_step [of "d * 10 + e" 100 c 5 35] by simp
  have 4: "d * 10 + e \<le> 35 \<longleftrightarrow> d < 3 \<or> d = 3 \<and> e \<le> 5"
    using assms lex_step [of e 10 d 3 5] by simp
  have lt: "a < 6 \<longleftrightarrow> a \<le> 5" "b < 5 \<longleftrightarrow> b \<le> 4" "c < 5 \<longleftrightarrow> c \<le> 4" "d < 3 \<longleftrightarrow> d \<le> 2" by arith+
  show ?thesis unfolding 1 2 3 4 lt by blast
qed

lemma digit_offset: "is_digit c \<longleftrightarrow> (\<exists>n \<le> 9. c = 48 + n)"
  using le_Suc_ex [of 48 c] by (auto simp: is_digit_def)

lemma port_digits:
  assumes "length s \<le> 5"
  shows "s \<in> lang port_reg \<longleftrightarrow> canonical s \<and> 1 \<le> nat_of_digits s \<and> nat_of_digits s \<le> 65535"
  using assms
proof (cases s rule: port_cases)
  case short
  then show ?thesis
    by (cases s rule: short_cases) (auto simp: port_eval simp del: lang.simps)
next
  case (four a b c d)
  then show ?thesis by (auto simp: port_eval simp del: lang.simps)
next
  case (five a b c d e)
  show ?thesis
  proof (cases "is_digit a \<and> is_digit b \<and> is_digit c \<and> is_digit d \<and> is_digit e")
    case True
    then obtain a' b' c' d' e' where n: "a = 48 + a'" "b = 48 + b'" "c = 48 + c'" "d = 48 + d'"
      "e = 48 + e'" "a' \<le> 9" "b' \<le> 9" "c' \<le> 9" "d' \<le> 9" "e' \<le> 9"
      unfolding digit_offset by blast
    show ?thesis
    proof (cases "a' = 0")
      case True
      then show ?thesis using n by (simp add: five port_eval del: lang.simps)
    next
      case False
      then show ?thesis
        using n port_arith [of b' c' d' e' a'] by (simp add: five port_eval del: lang.simps)
    qed
  next
    case False
    then show ?thesis by (auto simp: five port_eval simp del: lang.simps)
  qed
qed

lemma port_reg_length: "s \<in> lang port_reg \<Longrightarrow> length s \<le> 5"
  by (auto simp: port_reg_def port_alts_def digit_in_def dig_def runit_def rx_simps simp del: lang.simps)

lemma port_reg_iff:
  "rmatch port_reg s \<longleftrightarrow> canonical s \<and> 1 \<le> nat_of_digits s \<and> nat_of_digits s \<le> 65535"
proof (cases "length s \<le> 5")
  case True
  then show ?thesis by (simp add: rmatch_iff port_digits)
next
  case False
  then show ?thesis
    using port_reg_length [of s] canonical_short [of s 5] by (auto simp: rmatch_iff)
qed

end
