(* ===== verification/Firewall.thy ===== *)
theory Firewall
  imports Dotted
begin

text \<open>
  Address, port and tag input of the firewall pages:
  \<^verbatim>\<open>src/web/src/views/host/firewall/utils/validation.ts\<close>.  A thrown \<open>Error\<close> is the left side
  of a sum; \<open>undefined\<close> is \<open>None\<close>.  The texts matched by \<open>\d+\<close> are compared as the numbers
  they denote.
\<close>

section \<open>Definitions\<close>

datatype family = IPv4 | IPv6 | Inet

datatype fw_error = InvalidPortRange | InvalidWhitelistRule | JsonError | NoProperty

text \<open>\<open>split(/[...]+/)\<close>: the pieces between maximal runs of a class.\<close>

function split_runs :: "(nat \<Rightarrow> bool) \<Rightarrow> jstring \<Rightarrow> jstring list" where
  "split_runs P s =
     (case dropWhile (\<lambda>c. \<not> P c) s of
        [] \<Rightarrow> [s]
      | c # t \<Rightarrow> takeWhile (\<lambda>d. \<not> P d) s # split_runs P (dropWhile P t))"
  by pat_completeness auto
termination
proof (relation "measure (\<lambda>(P, s). length s)")
  fix P s c and t :: jstring
  assume "dropWhile (\<lambda>c. \<not> P c) s = c # t"
  then have "length (c # t) \<le> length s" by (metis length_dropWhile_le)
  moreover have "length (dropWhile P t) \<le> length t" by (rule length_dropWhile_le)
  ultimately show "((P, dropWhile P t), P, s) \<in> measure (\<lambda>(P, s). length s)" by simp
qed simp

declare split_runs.simps [simp del]

definition tag_sep :: "nat \<Rightarrow> bool" where
  "tag_sep c \<longleftrightarrow> c = 44 \<or> c = 65292 \<or> c = 59 \<or> c = 65307 \<or> is_space c"

definition splitTagValues :: "jstring list \<Rightarrow> jstring list" where
  "splitTagValues values =
     seen_dedup id (filter (\<lambda>v. v \<noteq> []) (map trim (concat (map (split_runs tag_sep) values))))"

definition isValidIPv4Address :: "jstring \<Rightarrow> bool" where
  "isValidIPv4Address value =
     (let parts = js_split (lit ''.'') value in
      length parts = 4 \<and>
      list_all (\<lambda>part. rmatch (RAlt (runit CHR ''0'') (RSeq (RCls (rng CHR ''1'' CHR ''9'')) (RRep 0 2 dig))) part \<and>
                  \<not> num_less (js_Number part) 0 \<and> num_le (js_Number part) 255) parts)"

definition hex_group :: "jstring \<Rightarrow> bool" where
  "hex_group g = rmatch (RRep 1 4 (RCls hex_unit)) g"

definition isValidIPv6Address :: "jstring \<Rightarrow> bool" where
  "isValidIPv6Address value =
     (if \<not> str_includes value (lit '':'') \<or> str_includes value (lit '':::'') \<or>
         length (js_split (lit ''::'') value) - 1 > 1 then False
      else
        let normalized =
          (if str_includes value (lit ''.'') then
             (case last_index_unit 58 value of
                None \<Rightarrow> None
              | Some separator \<Rightarrow>
                  if \<not> isValidIPv4Address (drop (separator + 1) value) then None
                  else Some (take separator value @ lit '':0:0''))
           else Some value)
        in case normalized of None \<Rightarrow> False
           | Some normalized \<Rightarrow>
               let compressed = str_includes normalized (lit ''::'');
                   pieces = js_split (lit ''::'') normalized;
                   left = hd pieces;
                   right = (if length pieces > 1 then pieces ! 1 else []);
                   groups = (if left \<noteq> [] then js_split (lit '':'') left else []) @
                            (if right \<noteq> [] then js_split (lit '':'') right else [])
               in if list_ex (\<lambda>group. \<not> hex_group group) groups then False
                  else if compressed then length groups < 8 else length groups = 8)"

definition inferAddressFamily :: "jstring \<Rightarrow> family" where
  "inferAddressFamily value = (if str_includes value (lit '':'') then IPv6 else IPv4)"

definition valid_in_family :: "family \<Rightarrow> jstring \<Rightarrow> bool" where
  "valid_in_family f a = (if f = IPv6 then isValidIPv6Address a else isValidIPv4Address a)"

definition isValidIPOrCIDR :: "jstring \<Rightarrow> bool" where
  "isValidIPOrCIDR value =
     (let slash = find_index (\<lambda>c. c = 47) value in
      if slash \<noteq> last_index_unit 47 value then False
      else
        let address = (case slash of None \<Rightarrow> value | Some i \<Rightarrow> take i value);
            prefix = map_option (\<lambda>i. drop (i + 1) value) slash;
            family = inferAddressFamily address
        in if \<not> valid_in_family family address then False
           else case prefix of None \<Rightarrow> True
              | Some p \<Rightarrow>
                  if \<not> rmatch (RRep 1 3 dig) p then False
                  else \<not> num_less (js_Number p) 0 \<and>
                       num_le (js_Number p) (if family = IPv6 then 128 else 32))"

definition isValidAddressForFamily :: "family \<Rightarrow> jstring \<Rightarrow> bool \<Rightarrow> bool" where
  "isValidAddressForFamily family value allowCIDR =
     (if \<not> allowCIDR \<and> str_includes value (lit ''/'') then False
      else isValidIPOrCIDR value \<and> inferAddressFamily (hd (js_split (lit ''/'') value)) = family)"

definition formatHostAddress :: "jstring option \<Rightarrow> family option \<Rightarrow> jstring" where
  "formatHostAddress value family =
     (let address = (case value of None \<Rightarrow> [] | Some v \<Rightarrow> trim v) in
      if address = [] then []
      else
        let addressFamily = (if family = Some Inet \<or> family = None
              then inferAddressFamily (hd (js_split (lit ''/'') address)) else the family);
            hostPrefix = (if addressFamily = IPv6 then lit ''/128'' else lit ''/32'')
        in if \<not> endsWith address hostPrefix then address
           else let host = take (length address - length hostPrefix) address
                in if valid_in_family addressFamily host then host else address)"

definition formatHostAddressList :: "jstring list \<Rightarrow> family option \<Rightarrow> jstring" where
  "formatHostAddressList values family =
     js_join (lit '', '')
       (filter (\<lambda>a. a \<noteq> []) (map (\<lambda>value. formatHostAddress (Some value) family) values))"

text \<open>\<open>match(/^(\d+)(?:[:-](\d+))?$/)\<close>: the first group stops at the first non-digit.\<close>

definition match_range :: "jstring \<Rightarrow> (jstring \<times> jstring option) option" where
  "match_range s =
     (let a = takeWhile is_digit s in
      if a = [] then None
      else case dropWhile is_digit s of
        [] \<Rightarrow> Some (a, None)
      | c # b \<Rightarrow> if (c = 58 \<or> c = 45) \<and> all_digits b then Some (a, Some b) else None)"

definition normalizePortRange :: "jstring \<Rightarrow> fw_error + jstring" where
  "normalizePortRange value =
     (case match_range (trim value) of
        None \<Rightarrow> Inl InvalidPortRange
      | Some (a, b) \<Rightarrow>
          let start = nat_of_digits a;
              finish = (case b of None \<Rightarrow> start | Some b \<Rightarrow> nat_of_digits b)
          in if start < 1 \<or> start > 65535 \<or> finish < start \<or> finish > 65535 then Inl InvalidPortRange
             else if start = finish then Inr (digits_of_nat start)
             else Inr (digits_of_nat start @ lit ''-'' @ digits_of_nat finish))"

definition isValidPortRange :: "jstring \<Rightarrow> bool" where
  "isValidPortRange value = (case normalizePortRange value of Inl _ \<Rightarrow> False | Inr _ \<Rightarrow> True)"

end
