(* ===== verification/FormProps.thy ===== *)
theory FormProps
  imports Dotted
begin

text \<open>
  What the validators of \<^verbatim>\<open>src/web/src/global/form-rules.ts\<close> accept: the exact range of the
  port and address rules, and the safety of the name rules (no accepted name holds a character
  that \<open>checkIllegal\<close> rejects).
\<close>

section \<open>Verdicts of the pattern rules\<close>

lemma pattern_rule_Some [simp]:
  "pattern_rule onblank test msg (Some s) =
     (if s = [] then onblank else if test s then Pass else Fail msg)"
  by (simp add: pattern_rule_def)

lemma pattern_rule_None [simp]: "pattern_rule onblank test msg None = onblank"
  by (simp add: pattern_rule_def)

lemmas rule_defs = required_rule_def optional_rule_def head_tail_def

section \<open>Ports and addresses\<close>

text \<open>\<open>checkPort\<close> accepts exactly the decimal texts, without leading zeros, of the numbers
  from 1 to 65535: its six alternatives have no gap and no overlap outside the range.\<close>

theorem checkPort_decimal:
  "checkPort (Some s) = Pass \<longleftrightarrow> (\<exists>n. 1 \<le> n \<and> n \<le> 65535 \<and> s = digits_of_nat n)"
proof -
  have "checkPort (Some s) = Pass \<longleftrightarrow> s \<noteq> [] \<and> rmatch port_reg s"
    by (simp add: checkPort_def rule_defs)
  also have "\<dots> \<longleftrightarrow> canonical s \<and> 1 \<le> nat_of_digits s \<and> nat_of_digits s \<le> 65535"
    unfolding port_reg_iff by (auto simp: canonical_def all_digits_def)
  also have "\<dots> \<longleftrightarrow> (\<exists>n. 1 \<le> n \<and> n \<le> 65535 \<and> s = digits_of_nat n)"
    using numeral_range [of "\<lambda>n. 1 \<le> n \<and> n \<le> 65535" s] by auto
  finally show ?thesis .
qed

lemma is_quad_ne: "is_quad s \<Longrightarrow> s \<noteq> []"
  by (auto simp: is_quad_def dotted_quad_def)

lemma ipv6_plain_colon: "rmatch ipv6_plain s \<Longrightarrow> 58 \<in> set s"
proof -
  have *: "58 \<in> set t" if "t \<in> lang (RSeq IPv6SegmentFormat rcolon)" for t
    using that by (auto simp: rcolon_def in_seq in_runit simp del: lang.simps)
  assume "rmatch ipv6_plain s"
  then show ?thesis
    using in_rep_contains [of _ 7 7 "RSeq IPv6SegmentFormat rcolon" 58]
    by (auto simp: rmatch_iff ipv6_plain_def Let_def in_seq [of s] in_alt rcolon_def [symmetric]
        in_unit_seq * in_seq [of s rcolon] simp del: lang.simps)
      (auto simp: rcolon_def in_runit)
qed

text \<open>The character rule.\<close>

definition illegal_units :: "nat list" where
  "illegal_units = [38, 124, 59, 36, 39, 96, 40, 41, 62, 60]"

lemma checkIllegal_iff:
  "checkIllegal (Some s) = Pass \<longleftrightarrow> s \<noteq> [] \<and> (\<forall>c \<in> set illegal_units. c \<notin> set s)"
  by (auto simp: checkIllegal_def illegal_units_def Let_def)

definition safe_rx :: "rx \<Rightarrow> bool" where
  "safe_rx r \<longleftrightarrow> (\<forall>c \<in> set illegal_units. \<not> rx_units r c)"

lemma safe_rx_legal: "safe_rx r \<Longrightarrow> rmatch r s \<Longrightarrow> s \<noteq> [] \<Longrightarrow> checkIllegal (Some s) = Pass"
  unfolding checkIllegal_iff safe_rx_def using rmatch_units by blast

text \<open>The rules whose accepted values the views pass on as names of files, containers, databases,
  services and parameters.\<close>

definition name_rules :: "(rule_value \<Rightarrow> verdict) list" where
  "name_rules =
    [checkName, checkUserName, checkSimpleName, checkSimplePassword, checkDBName, checkComposeName,
     checkImageName, checkVolumeName, checkSupervisorName, checkDatabaseName, checkAppName,
     checkAlias, checkVMName, checkVMNetwork, checkParamCommon, checkContainerName,
     checkParamSimple, checkDisableFunctions, checkLeechExts, checkFilePermission,
     checkPHPExtensions, checkDoc, checkPort, checkIp, checkIpv4]"

lemma pattern_rule_Pass:
  "pattern_rule onblank test msg (Some s) = Pass \<Longrightarrow> s \<noteq> [] \<Longrightarrow> test s"
  by (simp split: if_splits)

lemmas units_eval = safe_rx_def illegal_units_def cls_defs alnum_or_def alnum_cjk_def dig_def
  digit_in_def runit_def rplus_def rtimes_def

text \<open>A safe rule is one whose accepted values match a pattern without those characters.\<close>

definition safe_rule :: "(rule_value \<Rightarrow> verdict) \<Rightarrow> bool" where
  "safe_rule v \<longleftrightarrow> (\<forall>s. v (Some s) = Pass \<longrightarrow> s \<noteq> [] \<longrightarrow> checkIllegal (Some s) = Pass)"

lemma safe_required: "safe_rx r \<Longrightarrow> safe_rule (required_rule r key)"
  unfolding safe_rule_def required_rule_def using safe_rx_legal pattern_rule_Pass by blast

lemma safe_optional: "safe_rx r \<Longrightarrow> safe_rule (optional_rule r key)"
  unfolding safe_rule_def optional_rule_def using safe_rx_legal pattern_rule_Pass by blast

lemma safe_pattern:
  "safe_rx r \<Longrightarrow> (\<And>s. test s \<Longrightarrow> rmatch r s) \<Longrightarrow> safe_rule (pattern_rule onblank test msg)"
  unfolding safe_rule_def using safe_rx_legal pattern_rule_Pass by blast

lemma safe_regIP: "safe_rx regIP"
  by (simp add: regIP_def octet_d2_def rdot_def units_eval)

lemma safe_port: "safe_rx port_reg"
  by (simp add: port_reg_def port_alts_def units_eval)

lemma safe_alias: "safe_rule checkAlias"
proof -
  have "safe_rx (RSeq (RRep 0 126 (RCls (alnum_or ''._-''))) (RCls (alnum_or ''.'')))"
    by (simp add: units_eval)
  from safe_rx_legal [OF this] show ?thesis
    by (auto simp: safe_rule_def checkAlias_def Let_def split: if_splits)
qed

lemma safe_app_name: "safe_rule checkAppName"
  unfolding checkAppName_def
  by (rule safe_pattern [of "RSeq (RRep 1 29 (RCls (alnum_or ''_-''))) (RCls alnum)"])
    (simp_all add: units_eval)

lemma name_rules_safe: "\<forall>v \<in> set name_rules. safe_rule v"
  unfolding name_rules_def list.set ball_simps
  by (intro conjI TrueI safe_alias safe_app_name;
      (unfold checkName_def checkUserName_def checkSimpleName_def checkSimplePassword_def
        checkDBName_def checkComposeName_def checkImageName_def checkVolumeName_def
        checkSupervisorName_def checkDatabaseName_def checkVMName_def
        checkVMNetwork_def checkParamCommon_def checkContainerName_def checkParamSimple_def
        checkDisableFunctions_def checkLeechExts_def checkFilePermission_def
        checkPHPExtensions_def checkDoc_def checkPort_def checkIp_def checkIpv4_def head_tail_def)?;
      (rule safe_required safe_optional safe_pattern [OF safe_regIP])?;
      (rule safe_port safe_regIP | simp add: units_eval)?)

text \<open>The name rules agree with \<open>checkIllegal\<close>: a non-blank value that any of the 25 name
  rules accepts passes the character rule, so none of the characters that matter to a shell
  is in it.\<close>

theorem name_rules_legal:
  assumes "v \<in> set name_rules" "v (Some s) = Pass" "s \<noteq> []"
  shows "checkIllegal (Some s) = Pass"
  using name_rules_safe assms by (auto simp: safe_rule_def)

theorem name_rules_legal_witness: "checkIllegal (Some (lit ''web-1.local'')) = Pass"
  by (rule name_rules_legal [of checkVMName])
    (simp_all add: name_rules_def checkVMName_def rule_defs match_head_tail alnum_or_def
      one_of_def alnum_def is_lower_def is_upper_def is_digit_def)

section \<open>Passwords and numbers\<close>

text \<open>\<open>complexityPassword\<close> in terms of its characters: 8 to 30 units without a line
  terminator, not all digits, not all letters, not all symbols.\<close>

theorem complexityPassword_classes:
  "complexityPassword (Some s) = Pass \<longleftrightarrow>
     8 \<le> length s \<and> length s \<le> 30 \<and> (\<forall>c \<in> set s. dot_unit c) \<and>
     (\<exists>c \<in> set s. \<not> is_digit c) \<and> (\<exists>c \<in> set s. \<not> letter c) \<and> (\<exists>c \<in> set s. alnum c)"
  by (auto simp: complexityPassword_def dig_def match_plus_cls match_rep_cls)

text \<open>The range rule compares numbers, and every comparison with \<open>NaN\<close> is false.\<close>

lemma checkFloatNumberRange_NaN:
  "js_Number s = NaN \<Longrightarrow> the (validator (checkFloatNumberRange mn mx)) (Some s) = Pass \<or> s = []"
  by (simp add: checkFloatNumberRange_def)

lemma checkFloatNumberRange_digits:
  assumes "all_digits s"
  shows "the (validator (checkFloatNumberRange mn mx)) (Some s) = Pass \<longleftrightarrow>
     mn \<le> of_nat (nat_of_digits s) \<and> of_nat (nat_of_digits s) \<le> mx"
  using assms by (auto simp: checkFloatNumberRange_def all_digits_def)

lemma checkFilePermission_octal:
  "checkFilePermission (Some s) = Pass \<longleftrightarrow>
     3 \<le> length s \<and> length s \<le> 4 \<and> (\<forall>c \<in> set s. 48 \<le> c \<and> c \<le> 55)"
  by (auto simp: checkFilePermission_def rule_defs digit_in_def match_rep_cls rng_def)

end
