(* ===== verification/FirewallProps.thy ===== *)
theory FirewallProps
  imports Firewall FormProps
begin

text \<open>
  What the firewall's validators accept: IPv4 addresses are the dotted quads (the same as the
  form rules' strict pattern), IPv6 addresses the lists of groups with at most one \<open>::\<close>, CIDR
  suffixes the prefixes of the family, and port ranges are brought to a normal form.
\<close>

section \<open>IPv4\<close>

lemma part_octet:
  "rmatch (RAlt (runit CHR ''0'') (RSeq (RCls (rng CHR ''1'' CHR ''9'')) (RRep 0 2 dig))) part \<and>
     \<not> num_less (js_Number part) 0 \<and> num_le (js_Number part) 255 \<longleftrightarrow> octet part"
proof -
  have shape: "rmatch (RAlt (runit CHR ''0'') (RSeq (RCls (rng CHR ''1'' CHR ''9'')) (RRep 0 2 dig))) part
      \<longleftrightarrow> canonical part \<and> length part \<le> 3"
    unfolding rmatch_iff
  proof (cases "length part \<le> 3")
    case True
    then show "part \<in> lang (RAlt (runit CHR ''0'') (RSeq (RCls (rng CHR ''1'' CHR ''9'')) (RRep 0 2 dig)))
        \<longleftrightarrow> canonical part \<and> length part \<le> 3"
      by (cases part rule: short_cases)
        (auto simp: dig_def runit_def rx_eval canonical_def all_digits_def is_digit_def rng_def
          simp del: lang.simps)
  next
    case False
    then show "part \<in> lang (RAlt (runit CHR ''0'') (RSeq (RCls (rng CHR ''1'' CHR ''9'')) (RRep 0 2 dig)))
        \<longleftrightarrow> canonical part \<and> length part \<le> 3"
      by (auto simp: dig_def runit_def rx_simps simp del: lang.simps)
  qed
  have "num_le (js_Number part) 255 \<longleftrightarrow> nat_of_digits part \<le> 255"
    "\<not> num_less (js_Number part) 0" if "canonical part"
    using that of_nat_le_iff [of "nat_of_digits part" 255, where ?'a = rat]
    by (auto simp: canonical_def simp del: of_nat_le_iff)
  with shape show ?thesis using octet_length by (auto simp: octet_def)
qed

lemma isValidIPv4_quad: "isValidIPv4Address s \<longleftrightarrow> is_quad s"
proof -
  have split: "js_split (lit ''.'') s = split_unit 46 s" by (simp add: js_split_unit)
  have no_dot: "46 \<notin> set w" if "octet w" for w
    using that by (auto simp: octet_def canonical_def all_digits_def is_digit_def)
  show ?thesis
  proof
    assume "isValidIPv4Address s"
    then have "length (split_unit 46 s) = 4" "\<forall>w \<in> set (split_unit 46 s). octet w"
      unfolding isValidIPv4Address_def Let_def split part_octet list_all_iff by blast+
    moreover have "s = js_join [46] (split_unit 46 s)" by simp
    ultimately show "is_quad s" unfolding is_quad_pieces by blast
  next
    assume "is_quad s"
    then obtain ws where ws: "length ws = 4" "\<forall>w \<in> set ws. octet w" "s = js_join [46] ws"
      unfolding is_quad_pieces by blast
    then have "split_unit 46 s = ws" using no_dot by (auto intro!: split_join_unit)
    with ws show "isValidIPv4Address s"
      unfolding isValidIPv4Address_def Let_def split part_octet list_all_iff by simp
  qed
qed

text \<open>The firewall's hand-written IPv4 parser accepts exactly the dotted quads: four decimal
  numbers up to 255, without leading zeros, joined by dots.\<close>

theorem firewall_ipv4_quads:
  "isValidIPv4Address s \<longleftrightarrow>
     (\<exists>a b c d. a \<le> 255 \<and> b \<le> 255 \<and> c \<le> 255 \<and> d \<le> 255 \<and>
        s = js_join (lit ''.'') (map digits_of_nat [a, b, c, d]))"
  unfolding isValidIPv4_quad is_quad_def dotted_quad_def ..

text \<open>Two validators of different pages agree: on a value without a colon, the form rule
  \<open>checkIpv4orV6\<close> passes exactly the blank value and what the firewall takes as an IPv4
  address.\<close>

theorem form_rule_agrees_with_firewall:
  assumes "58 \<notin> set s"
  shows "checkIpv4orV6 (Some s) = Pass \<longleftrightarrow> s = [] \<or> isValidIPv4Address s"
  using assms ipv6_plain_colon [of s]
  by (auto simp: checkIpv4orV6_def ipv4_strict_quad isValidIPv4_quad)

theorem form_rule_agrees_with_firewall_witness:
  "(58 \<notin> set (lit ''10.0.0.1'')) \<and>
   (checkIpv4orV6 (Some (lit ''10.0.0.1'')) = Pass \<longleftrightarrow>
      lit ''10.0.0.1'' = [] \<or> isValidIPv4Address (lit ''10.0.0.1''))"
  using form_rule_agrees_with_firewall [of "lit ''10.0.0.1''"] by simp

section \<open>IPv6\<close>

definition hex_groups :: "jstring list \<Rightarrow> bool" where
  "hex_groups gs \<longleftrightarrow> (\<forall>g \<in> set gs. hex_group g)"

lemma hex_group_units: "hex_group g \<longleftrightarrow> g \<noteq> [] \<and> length g \<le> 4 \<and> (\<forall>c \<in> set g. hex_unit c)"
  by (auto simp: hex_group_def match_rep_cls Suc_le_eq)

lemma hex_group_no_colon: "hex_group g \<Longrightarrow> 58 \<notin> set g \<and> g \<noteq> []"
  by (auto simp: hex_group_units cls_defs)

text \<open>A text without \<open>::\<close> that neither starts nor ends with a colon: the join of groups is one,
  and the only \<open>::\<close> between two such texts is the one that was put there.\<close>

definition colon_clean :: "jstring \<Rightarrow> bool" where
  "colon_clean s \<longleftrightarrow> \<not> (\<exists>u v. s = u @ 58 # 58 # v) \<and> (\<forall>t. s \<noteq> 58 # t) \<and> (\<forall>t. s \<noteq> t @ [58])"

lemma colon_clean_group:
  assumes "58 \<notin> set g"
  shows "colon_clean g"
  using assms unfolding colon_clean_def by (metis in_set_conv_decomp list.set_intros(1))

lemma colon_clean_Cons:
  assumes "58 \<notin> set g" "g \<noteq> []" "colon_clean s" "s \<noteq> []"
  shows "colon_clean (g @ 58 # s)"
proof -
  have mid: "\<not> (\<exists>u v. g @ 58 # s = u @ 58 # 58 # v)"
  proof clarify
    fix u v
    assume e: "g @ 58 # s = u @ 58 # 58 # v"
    then consider w where "g = u @ w" "w @ 58 # s = 58 # 58 # v" | w where "u = g @ w" "58 # s = w @ 58 # 58 # v"
      by (auto simp: append_eq_append_conv2)
    then show False
    proof cases
      case 1
      with assms(1) have "w = []" by (cases w) auto
      with 1 assms(3) show False by (auto simp: colon_clean_def)
    next
      case 2
      then show False using assms(3) by (cases w) (auto simp: colon_clean_def)
    qed
  qed
  have "\<forall>t. g @ 58 # s \<noteq> 58 # t" using assms by (cases g) auto
  moreover have "\<forall>t. g @ 58 # s \<noteq> t @ [58]"
  proof clarify
    fix t
    assume "g @ 58 # s = t @ [58]"
    with assms(4) have "last s = 58" by (metis last_ConsR last_appendR last_snoc list.discI)
    then have "s = butlast s @ [58]" using assms(4) by (metis append_butlast_last_id)
    with assms(3) show False unfolding colon_clean_def by blast
  qed
  ultimately show ?thesis using mid unfolding colon_clean_def by blast
qed

lemma colon_clean_join: "hex_groups gs \<Longrightarrow> colon_clean (js_join [58] gs)"
proof (induction "[58::nat]" gs rule: js_join.induct)
  case 1
  show ?case by (simp add: colon_clean_def)
next
  case (2 w)
  then show ?case using hex_group_no_colon colon_clean_group by (simp add: hex_groups_def)
next
  case (3 w v ws)
  then have "colon_clean (js_join [58] (v # ws))" "58 \<notin> set w" "w \<noteq> []" "v \<noteq> []"
    using hex_group_no_colon by (auto simp: hex_groups_def)
  moreover from this have "js_join [58] (v # ws) \<noteq> []" by (cases ws) auto
  ultimately show ?case by (simp add: colon_clean_Cons)
qed

lemma clean_no_double: "colon_clean s \<Longrightarrow> \<not> str_includes s [58, 58]"
  by (auto simp: colon_clean_def str_includes_iff)

lemma double_colon_unique:
  assumes "colon_clean l" "colon_clean r" "l @ 58 # 58 # r = u @ 58 # 58 # v"
  shows "u = l \<and> v = r"
proof -
  from assms(3) consider w where "l = u @ w" "w @ 58 # 58 # r = 58 # 58 # v"
    | w where "u = l @ w" "58 # 58 # r = w @ 58 # 58 # v"
    by (auto simp: append_eq_append_conv2)
  then show ?thesis
  proof cases
    case 1
    then have "w = [] \<or> w = [58] \<or> (\<exists>x. w = 58 # 58 # x)" by (auto simp: append_eq_Cons_conv)
    with 1 assms(1) show ?thesis by (auto simp: colon_clean_def)
  next
    case 2
    then have "w = [] \<or> w = [58] \<or> (\<exists>x. w = 58 # 58 # x)" by (auto simp: Cons_eq_append_conv)
    with 2 assms(2) show ?thesis by (auto simp: colon_clean_def)
  qed
qed

lemma split_double_colon:
  assumes "colon_clean l" "colon_clean r"
  shows "js_split [58, 58] (l @ 58 # 58 # r) = [l, r]"
proof -
  have "str_includes (l @ 58 # 58 # r) [58, 58]" by (auto simp: str_includes_iff)
  then obtain i where i: "find_sub [58, 58] (l @ 58 # 58 # r) = Some i" by (auto simp: str_includes_def)
  have len: "length [58, 58 :: nat] = 2" by simp
  from find_sub_split [OF i]
  have "l @ 58 # 58 # r = take i (l @ 58 # 58 # r) @ 58 # 58 # drop (i + 2) (l @ 58 # 58 # r)"
    by (simp only: append_Cons append_Nil len)
  from double_colon_unique [OF assms this]
  have "take i (l @ 58 # 58 # r) = l" "drop (i + 2) (l @ 58 # 58 # r) = r" by (rule conjunct1, rule conjunct2)
  moreover have "js_split [58, 58] r = [r]"
    using clean_no_double [OF assms(2)] by (simp add: js_split.simps str_includes_def)
  ultimately show ?thesis by (subst js_split.simps) (simp add: i)
qed

lemma no_triple_colon:
  assumes "colon_clean l" "colon_clean r"
  shows "\<not> str_includes (l @ 58 # 58 # r) [58, 58, 58]"
proof
  assume "str_includes (l @ 58 # 58 # r) [58, 58, 58]"
  then obtain u v where uv: "l @ 58 # 58 # r = u @ 58 # 58 # 58 # v" by (auto simp: str_includes_iff)
  then have "u = l" using double_colon_unique [OF assms] by blast
  moreover from uv have "l @ 58 # 58 # r = (u @ [58]) @ 58 # 58 # v" by simp
  then have "u @ [58] = l" using double_colon_unique [OF assms] by blast
  ultimately show False by simp
qed

lemma split_groups: "hex_groups gs \<Longrightarrow> gs \<noteq> [] \<Longrightarrow> split_unit 58 (js_join [58] gs) = gs"
  using hex_group_no_colon by (intro split_join_unit) (auto simp: hex_groups_def)

lemma join_groups_Nil: "hex_groups gs \<Longrightarrow> js_join [58] gs = [] \<longleftrightarrow> gs = []"
proof (induction "[58::nat]" gs rule: js_join.induct)
  case (2 w)
  then show ?case using hex_group_no_colon by (auto simp: hex_groups_def)
qed auto

text \<open>What the function does after the dotted tail has been replaced.\<close>

definition groups_ok :: "jstring \<Rightarrow> bool" where
  "groups_ok s \<longleftrightarrow>
     (let pieces = js_split [58, 58] s;
          right = (if length pieces > 1 then pieces ! 1 else []);
          groups = (if hd pieces \<noteq> [] then split_unit 58 (hd pieces) else []) @
                   (if right \<noteq> [] then split_unit 58 right else [])
      in hex_groups groups \<and>
         (if str_includes s [58, 58] then length groups < 8 else length groups = 8))"

lemma groups_ok_full:
  assumes "\<not> str_includes s [58, 58]"
  shows "groups_ok s \<longleftrightarrow> (\<exists>gs. length gs = 8 \<and> hex_groups gs \<and> s = js_join [58] gs)"
proof -
  have pieces: "js_split [58, 58] s = [s]" using assms by (simp add: js_split.simps str_includes_def)
  show ?thesis
  proof
    assume "groups_ok s"
    then have "hex_groups (split_unit 58 s)" "length (split_unit 58 s) = 8"
      using assms by (auto simp: groups_ok_def pieces Let_def split: if_splits)
    then show "\<exists>gs. length gs = 8 \<and> hex_groups gs \<and> s = js_join [58] gs"
      by (metis join_split_unit)
  next
    assume "\<exists>gs. length gs = 8 \<and> hex_groups gs \<and> s = js_join [58] gs"
    then obtain gs where gs: "length gs = 8" "hex_groups gs" "s = js_join [58] gs" by blast
    then have "gs \<noteq> []" by auto
    then have "split_unit 58 s = gs" "s \<noteq> []" using gs split_groups join_groups_Nil by auto
    with gs assms show "groups_ok s" by (simp add: groups_ok_def pieces [unfolded gs] Let_def)
  qed
qed

lemma groups_ok_compressed:
  assumes "str_includes s [58, 58]" "length (js_split [58, 58] s) \<le> 2"
  shows "groups_ok s \<longleftrightarrow> (\<exists>l r. length l + length r < 8 \<and> hex_groups l \<and> hex_groups r \<and>
     s = js_join [58] l @ 58 # 58 # js_join [58] r)" (is "_ \<longleftrightarrow> ?r")
proof -
  obtain i where i: "find_sub [58, 58] s = Some i" using assms(1) by (auto simp: str_includes_def)
  define a b where "a = take i s" and "b = drop (i + 2) s"
  have s: "s = a @ 58 # 58 # b" using find_sub_split [OF i] by (simp add: a_def b_def)
  have sp: "js_split [58, 58] s = a # js_split [58, 58] b"
    by (subst js_split.simps) (simp add: i a_def b_def)
  have "js_split [58, 58] b \<noteq> []" by simp
  with sp assms(2) obtain b' where b': "js_split [58, 58] b = [b']" by (cases "js_split [58, 58] b") auto
  have "b' = b" using join_js_split [of "[58, 58]" b] by (simp add: b')
  with sp b' have pieces: "js_split [58, 58] s = [a, b]" by simp
  let ?g = "\<lambda>x. if x \<noteq> [] then split_unit 58 x else []"
  have join: "js_join [58] (?g x) = x" for x by simp
  have ok: "groups_ok s \<longleftrightarrow> hex_groups (?g a @ ?g b) \<and> length (?g a @ ?g b) < 8"
    using assms(1) by (simp add: groups_ok_def pieces)
  show ?thesis
  proof
    assume "groups_ok s"
    then have "hex_groups (?g a)" "hex_groups (?g b)" "length (?g a) + length (?g b) < 8"
      unfolding ok by (auto simp: hex_groups_def)
    moreover have "s = js_join [58] (?g a) @ 58 # 58 # js_join [58] (?g b)" unfolding join by (rule s)
    ultimately show ?r by blast
  next
    assume ?r
    then obtain l r where lr: "length l + length r < 8" "hex_groups l" "hex_groups r"
      "s = js_join [58] l @ 58 # 58 # js_join [58] r" by blast
    have "a = js_join [58] l \<and> b = js_join [58] r"
      using double_colon_unique [OF colon_clean_join [OF lr(2)] colon_clean_join [OF lr(3)]] s lr(4)
      by simp
    moreover have "?g (js_join [58] gs) = gs" if "hex_groups gs" for gs
      using that split_groups join_groups_Nil by auto
    ultimately have "?g a = l" "?g b = r" using lr by blast+
    with lr show "groups_ok s" unfolding ok by (auto simp: hex_groups_def)
  qed
qed

lemma isValidIPv6_no_dot:
  assumes "46 \<notin> set s"
  shows "isValidIPv6Address s \<longleftrightarrow> 58 \<in> set s \<and> \<not> str_includes s [58, 58, 58] \<and>
    length (js_split [58, 58] s) \<le> 2 \<and> groups_ok s"
  using assms
  by (auto simp: isValidIPv6Address_def groups_ok_def js_split_unit Let_def hex_groups_def list_ex_iff)

text \<open>IPv6 texts without a dotted tail: \<open>isValidIPv6Address\<close> accepts exactly eight groups
  of one to four hexadecimal digits, or fewer than eight around a single \<open>::\<close>.\<close>

theorem firewall_ipv6_groups:
  assumes "46 \<notin> set s"
  shows "isValidIPv6Address s \<longleftrightarrow>
    (\<exists>gs. length gs = 8 \<and> hex_groups gs \<and> s = js_join (lit '':'') gs) \<or>
    (\<exists>l r. length l + length r < 8 \<and> hex_groups l \<and> hex_groups r \<and>
       s = js_join (lit '':'') l @ lit ''::'' @ js_join (lit '':'') r)"
proof -
  have full: "58 \<in> set s \<and> \<not> str_includes s [58, 58]"
    if gs: "length gs = 8" "hex_groups gs" "s = js_join [58] gs" for gs
  proof -
    obtain w v ws where "gs = w # v # ws" using gs(1) by (auto simp: numeral_eq_Suc length_Suc_conv)
    with gs show ?thesis using clean_no_double [OF colon_clean_join [OF gs(2)]] by auto
  qed
  have comp: "58 \<in> set s \<and> str_includes s [58, 58] \<and> length (js_split [58, 58] s) = 2 \<and>
      \<not> str_includes s [58, 58, 58]"
    if "hex_groups l" "hex_groups r" "s = js_join [58] l @ 58 # 58 # js_join [58] r" for l r
    using that split_double_colon no_triple_colon colon_clean_join by (auto simp: str_includes_iff)
  have tri: "str_includes s [58, 58, 58] \<Longrightarrow> str_includes s [58, 58]"
    by (auto simp: str_includes_iff)
  let ?full = "\<exists>gs. length gs = 8 \<and> hex_groups gs \<and> s = js_join [58] gs"
  let ?comp = "\<exists>l r. length l + length r < 8 \<and> hex_groups l \<and> hex_groups r \<and>
    s = js_join [58] l @ 58 # 58 # js_join [58] r"
  note valid = isValidIPv6_no_dot [OF assms]
  have "isValidIPv6Address s \<longleftrightarrow> ?full \<or> ?comp"
  proof (cases "str_includes s [58, 58]")
    case True
    then have "\<not> ?full" using full by blast
    moreover have "isValidIPv6Address s \<longleftrightarrow> ?comp"
    proof
      show "isValidIPv6Address s \<Longrightarrow> ?comp" using valid groups_ok_compressed [OF True] by blast
      assume ?comp
      with comp have "58 \<in> set s" "length (js_split [58, 58] s) = 2" "\<not> str_includes s [58, 58, 58]"
        by blast+
      with \<open>?comp\<close> show "isValidIPv6Address s" using valid groups_ok_compressed [OF True] by simp
    qed
    ultimately show ?thesis by blast
  next
    case False
    then have "\<not> ?comp" using comp by blast
    moreover from False have "length (js_split [58, 58] s) \<le> 2"
      by (simp add: js_split.simps str_includes_def)
    ultimately show ?thesis using valid groups_ok_full [OF False] full tri False by blast
  qed
  then show ?thesis by simp
qed

theorem firewall_ipv6_groups_witness: "isValidIPv6Address (lit ''fe80::1'')"
proof -
  have "hex_groups [lit ''fe80'']" "hex_groups [lit ''1'']"
    by (simp_all add: hex_groups_def hex_group_units cls_defs)
  then have "\<exists>l r. length l + length r < 8 \<and> hex_groups l \<and> hex_groups r \<and>
      lit ''fe80::1'' = js_join (lit '':'') l @ lit ''::'' @ js_join (lit '':'') r"
    by (intro exI [of _ "[lit ''fe80'']"] exI [of _ "[lit ''1'']"]) simp
  then show ?thesis using firewall_ipv6_groups [of "lit ''fe80::1''"] by simp
qed

section \<open>Port ranges\<close>

text \<open>The normal form: one decimal port, or two ports joined by a dash, in increasing order.\<close>

definition range_text :: "nat \<Rightarrow> nat \<Rightarrow> jstring" where
  "range_text a b = (if a = b then digits_of_nat a else digits_of_nat a @ lit ''-'' @ digits_of_nat b)"

lemma digits_units: "c \<in> set (digits_of_nat n) \<Longrightarrow> is_digit c"
  using digits_of_nat_digits by blast

lemma takeWhile_digits [simp]: "takeWhile is_digit (digits_of_nat n @ 45 # t) = digits_of_nat n"
  "dropWhile is_digit (digits_of_nat n @ 45 # t) = 45 # t"
  using digits_units by (auto simp: takeWhile_append2 dropWhile_append2 is_digit_def)

lemma takeWhile_digits_all [simp]: "takeWhile is_digit (digits_of_nat n) = digits_of_nat n"
  "dropWhile is_digit (digits_of_nat n) = []"
  using digits_units by (simp_all add: takeWhile_eq_all_conv)

lemma match_range_text:
  "match_range (range_text a b) = Some (digits_of_nat a, if a = b then None else Some (digits_of_nat b))"
  by (simp add: match_range_def range_text_def)

lemma trim_range_text: "trim (range_text a b) = range_text a b"
proof (rule trim_no_space)
  show "\<forall>c \<in> set (range_text a b). \<not> is_space c"
    using digits_units digit_not_space by (auto simp: range_text_def is_space_def)
qed

lemma normalize_range_text:
  "1 \<le> a \<Longrightarrow> a \<le> b \<Longrightarrow> b \<le> 65535 \<Longrightarrow> normalizePortRange (range_text a b) = Inr (range_text a b)"
  unfolding normalizePortRange_def trim_range_text match_range_text
  by (auto simp: range_text_def)

lemma normalizePortRange_InrD:
  assumes "normalizePortRange s = Inr r"
  shows "\<exists>a b. 1 \<le> a \<and> a \<le> b \<and> b \<le> 65535 \<and> r = range_text a b"
proof -
  obtain x y where m: "match_range (trim s) = Some (x, y)"
    using assms by (auto simp: normalizePortRange_def split: option.splits)
  let ?a = "nat_of_digits x" and ?b = "case y of None \<Rightarrow> nat_of_digits x | Some b \<Rightarrow> nat_of_digits b"
  from assms m have "1 \<le> ?a \<and> ?a \<le> ?b \<and> ?b \<le> 65535 \<and> r = range_text ?a ?b"
    by (auto simp: normalizePortRange_def Let_def range_text_def split: if_splits)
  then show ?thesis by blast
qed

text \<open>\<open>normalizePortRange\<close> is a normal form: what it returns is the text of a range
  \<open>1 \<le> a \<le> b \<le> 65535\<close> (one port when \<open>a = b\<close>), and normalising that text again changes
  nothing.\<close>

theorem normalizePortRange_normal:
  assumes "normalizePortRange s = Inr r"
  shows "(\<exists>a b. 1 \<le> a \<and> a \<le> b \<and> b \<le> 65535 \<and>
            r = (if a = b then digits_of_nat a else digits_of_nat a @ lit ''-'' @ digits_of_nat b)) \<and>
         normalizePortRange r = Inr r"
  using normalizePortRange_InrD [OF assms] normalize_range_text
  by (auto simp: range_text_def simp del: lit_simps)

theorem normalizePortRange_normal_witness:
  "normalizePortRange (lit '' 0080:443 '') = Inr (lit ''80-443'') \<and>
   normalizePortRange (lit ''80-443'') = Inr (lit ''80-443'')"
proof -
  have eval: "normalizePortRange (lit '' 0080:443 '') = Inr (lit ''80-443'')"
    by (simp add: normalizePortRange_def match_range_def trim_def trim_end_def trim_start_def
        is_space_def is_digit_def all_digits_def nat_of_digits_Cons Let_def
        digits_of_nat.simps [of 80] digits_of_nat.simps [of 443] digits_of_nat.simps [of 8]
        digits_of_nat.simps [of 44] digits_of_nat.simps [of 4])
  from normalizePortRange_normal [OF eval] eval show ?thesis by blast
qed

section \<open>CIDR and families\<close>

lemma is_quad_units: "is_quad s \<Longrightarrow> c \<in> set s \<Longrightarrow> is_digit c \<or> c = 46"
  using digits_units by (auto simp: is_quad_def dotted_quad_def)

lemma is_quad_no: "is_quad s \<Longrightarrow> 58 \<notin> set s \<and> 47 \<notin> set s"
  using is_quad_units [of s 58] is_quad_units [of s 47] by (auto simp: is_digit_def)

lemma slash_split:
  assumes "find_index (\<lambda>c. c = c0) s = Some i"
  shows "s = take i s @ c0 # drop (Suc i) s \<and> c0 \<notin> set (take i s)"
proof -
  note i = find_index_SomeD [OF assms]
  then have "s = take i s @ c0 # drop (Suc i) s" by (metis id_take_nth_drop)
  moreover have "c0 \<notin> set (take i s)" using i by (auto simp: in_set_conv_nth)
  ultimately show ?thesis by blast
qed

lemma find_index_append_fresh:
  "c \<notin> set u \<Longrightarrow> find_index (\<lambda>d. d = c) (u @ c # v) = Some (length u)"
  by (induction u) auto

lemma last_index_append_fresh:
  assumes "c \<notin> set v"
  shows "last_index_unit c (u @ c # v) = Some (length u)"
proof -
  have "find_index (\<lambda>d. d = c) (rev (u @ c # v)) = Some (length v)"
    using assms find_index_append_fresh [of c "rev v" "rev u"] by simp
  then show ?thesis by (simp add: last_index_unit_def)
qed

lemma last_index_None: "last_index_unit c s = None \<longleftrightarrow> c \<notin> set s"
  by (auto simp: last_index_unit_def find_index_None_iff)

definition prefix_ok :: "family \<Rightarrow> jstring \<Rightarrow> bool" where
  "prefix_ok f p \<longleftrightarrow> all_digits p \<and> length p \<le> 3 \<and> nat_of_digits p \<le> (if f = IPv6 then 128 else 32)"

lemma prefix_ok_test:
  "rmatch (RRep 1 3 dig) p \<and> \<not> num_less (js_Number p) 0 \<and>
     num_le (js_Number p) (if f = IPv6 then 128 else 32) \<longleftrightarrow> prefix_ok f p"
proof (cases "all_digits p")
  case True
  then show ?thesis
    using of_nat_le_iff [of "nat_of_digits p" 128, where ?'a = rat]
      of_nat_le_iff [of "nat_of_digits p" 32, where ?'a = rat]
    by (auto simp: prefix_ok_def match_rep_cls dig_def all_digits_def Suc_le_eq simp del: of_nat_le_iff)
next
  case False
  then show ?thesis by (auto simp: prefix_ok_def match_rep_cls dig_def all_digits_def)
qed

lemma prefix_ok_no_slash: "prefix_ok f p \<Longrightarrow> 47 \<notin> set p"
  by (auto simp: prefix_ok_def all_digits_def is_digit_def)

lemma cidr_none:
  assumes "47 \<notin> set s"
  shows "isValidIPOrCIDR s \<longleftrightarrow> valid_in_family (inferAddressFamily s) s"
proof -
  have "find_index (\<lambda>c. c = 47) s = None" "last_index_unit 47 s = None"
    using assms by (auto simp: last_index_None find_index_None_iff)
  then show ?thesis by (simp add: isValidIPOrCIDR_def Let_def)
qed

lemma cidr_slash:
  assumes "47 \<notin> set a"
  shows "isValidIPOrCIDR (a @ 47 # p) \<longleftrightarrow>
    valid_in_family (inferAddressFamily a) a \<and> prefix_ok (inferAddressFamily a) p"
proof (cases "47 \<in> set p")
  case True
  then obtain u v where uv: "p = u @ 47 # v" "47 \<notin> set v" by (metis split_list_last)
  have "last_index_unit 47 (a @ 47 # p) = Some (length (a @ 47 # u))"
    using last_index_append_fresh [OF uv(2), of "a @ 47 # u"] by (simp add: uv(1))
  then have "find_index (\<lambda>c. c = 47) (a @ 47 # p) \<noteq> last_index_unit 47 (a @ 47 # p)"
    by (simp add: find_index_append_fresh [OF assms])
  then have "\<not> isValidIPOrCIDR (a @ 47 # p)" by (simp add: isValidIPOrCIDR_def Let_def)
  with True prefix_ok_no_slash show ?thesis by blast
next
  case False
  have "find_index (\<lambda>c. c = 47) (a @ 47 # p) = Some (length a)"
    "last_index_unit 47 (a @ 47 # p) = Some (length a)"
    by (rule find_index_append_fresh [OF assms]) (rule last_index_append_fresh [OF False])
  then show ?thesis
    using prefix_ok_test [of p "inferAddressFamily a"] by (auto simp: isValidIPOrCIDR_def Let_def)
qed

lemma valid_IPv4 [simp]: "valid_in_family IPv4 a \<longleftrightarrow> is_quad a"
  by (simp add: valid_in_family_def isValidIPv4_quad)

lemma infer_IPv4: "58 \<notin> set a \<Longrightarrow> inferAddressFamily a = IPv4"
  by (simp add: inferAddressFamily_def)

text \<open>On values without a colon, \<open>isValidIPOrCIDR\<close> accepts a dotted quad, alone or before
  a slash and a prefix length of at most three digits that denotes at most 32.\<close>

theorem firewall_ipv4_cidr:
  assumes "58 \<notin> set s"
  shows "isValidIPOrCIDR s \<longleftrightarrow> isValidIPv4Address s \<or>
    (\<exists>a p. s = a @ lit ''/'' @ p \<and> isValidIPv4Address a \<and> all_digits p \<and> length p \<le> 3 \<and>
       nat_of_digits p \<le> 32)"
proof (cases "47 \<in> set s")
  case False
  then have "isValidIPOrCIDR s \<longleftrightarrow> is_quad s" using assms by (simp add: cidr_none infer_IPv4)
  with False show ?thesis by (auto simp: isValidIPv4_quad)
next
  case True
  then obtain a p where s: "s = a @ 47 # p" "47 \<notin> set a" by (metis split_list_first)
  with assms have cidr: "isValidIPOrCIDR s \<longleftrightarrow> is_quad a \<and> prefix_ok IPv4 p"
    by (simp add: cidr_slash infer_IPv4)
  have unique: "b = a \<and> q = p" if "s = b @ 47 # q" "is_quad b" for b q
    using that s is_quad_no [of b] append_Cons_fresh_eq [of 47 b a q p] by simp
  have "\<not> is_quad s" using True is_quad_no by blast
  moreover have "(\<exists>a p. s = a @ 47 # p \<and> is_quad a \<and> prefix_ok IPv4 p) \<longleftrightarrow> is_quad a \<and> prefix_ok IPv4 p"
    using s(1) unique by blast
  ultimately show ?thesis using cidr by (simp add: isValidIPv4_quad prefix_ok_def)
qed

theorem firewall_ipv4_cidr_witness: "isValidIPOrCIDR (lit ''10.0.0.0/8'')"
proof -
  have q: "isValidIPv4Address (lit ''10.0.0.0'')"
    by (simp add: isValidIPv4Address_def js_split_unit part_octet Let_def octet_def canonical_def
        all_digits_def is_digit_def nat_of_digits_Cons list_all_iff del: js_Number_digits)
  have "lit ''10.0.0.0/8'' = lit ''10.0.0.0'' @ lit ''/'' @ lit ''8'' \<and>
      isValidIPv4Address (lit ''10.0.0.0'') \<and> all_digits (lit ''8'') \<and> length (lit ''8'') \<le> 3 \<and>
      nat_of_digits (lit ''8'') \<le> 32"
    using q by (simp add: all_digits_def is_digit_def nat_of_digits_Cons)
  then show ?thesis using firewall_ipv4_cidr [of "lit ''10.0.0.0/8''"] by (simp only: lit_simps) auto
qed

end
