(* ===== verification/FormTable.thy ===== *)
theory FormTable
  imports FormProps
begin

text \<open>
  The table \<open>Rules\<close> of \<^verbatim>\<open>src/web/src/global/form-rules.ts\<close>: for every key of \<open>CommonRule\<close>
  the rule the views attach to a form field, and what the table promises of blank values.
\<close>

text \<open>The keys of \<open>CommonRule\<close>, in its order, and the table.\<close>

datatype common_rule =
    R_requiredInput | R_requiredSelect | R_requiredSelectBusiness | R_noSpace | R_name | R_userName
  | R_simpleName | R_simplePassword | R_dbName | R_imageName | R_composeName | R_volumeName
  | R_linuxName | R_password | R_email | R_number | R_integerNumber | R_integerNumberWith0
  | R_floatNumber | R_ip | R_ipV6 | R_ipv4 | R_ipV4V6OrDomain | R_host
  | R_illegal | R_port | R_domain | R_databaseName | R_nginxDoc | R_appName
  | R_containerName | R_disabledFunctions | R_leechExts | R_domainWithPort | R_filePermission | R_phpExtensions
  | R_supervisorName | R_domainOrIP | R_authBasicPassword | R_ipv4orV6 | R_alias | R_paramCommon
  | R_paramComplexity | R_paramPort | R_paramExtUrl | R_paramSimple | R_paramHttp | R_phone
  | R_vmName | R_vmNetwork

fun Rules :: "common_rule \<Rightarrow> form_item_rule" where
  "Rules R_requiredInput =
     \<lparr>required = True, rtype = None, rmin = None, rmax = None,
      message = Some (Msg ''commons.rule.requiredInput'' []), rtrigger = Blur,
      validator = None\<rparr>"
| "Rules R_requiredSelect =
     \<lparr>required = True, rtype = None, rmin = None, rmax = None,
      message = Some (Msg ''commons.rule.requiredSelect'' []), rtrigger = Change,
      validator = None\<rparr>"
| "Rules R_requiredSelectBusiness =
     \<lparr>required = True, rtype = Some TyNumber, rmin = Some 1, rmax = Some 65535,
      message = Some (Msg ''commons.rule.requiredSelect'' []), rtrigger = Change,
      validator = None\<rparr>"
| "Rules R_noSpace =
     \<lparr>required = True, rtype = None, rmin = None, rmax = None,
      message = None, rtrigger = Blur,
      validator = Some checkNoSpace\<rparr>"
| "Rules R_simpleName =
     \<lparr>required = True, rtype = None, rmin = None, rmax = None,
      message = None, rtrigger = Blur,
      validator = Some checkSimpleName\<rparr>"
| "Rules R_simplePassword =
     \<lparr>required = True, rtype = None, rmin = None, rmax = None,
      message = None, rtrigger = Blur,
      validator = Some checkSimplePassword\<rparr>"
| "Rules R_dbName =
     \<lparr>required = True, rtype = None, rmin = None, rmax = None,
      message = None, rtrigger = Blur,
      validator = Some checkDBName\<rparr>"
| "Rules R_composeName =
     \<lparr>required = True, rtype = None, rmin = None, rmax = None,
      message = None, rtrigger = Blur,
      validator = Some checkComposeName\<rparr>"
| "Rules R_imageName =
     \<lparr>required = True, rtype = None, rmin = None, rmax = None,
      message = None, rtrigger = Blur,
      validator = Some checkImageName\<rparr>"
| "Rules R_volumeName =
     \<lparr>required = True, rtype = None, rmin = None, rmax = None,
      message = None, rtrigger = Blur,
      validator = Some checkVolumeName\<rparr>"
| "Rules R_name =
     \<lparr>required = True, rtype = None, rmin = None, rmax = None,
      message = None, rtrigger = Blur,
      validator = Some checkName\<rparr>"
| "Rules R_userName =
     \<lparr>required = True, rtype = None, rmin = None, rmax = None,
      message = None, rtrigger = Blur,
      validator = Some checkUserName\<rparr>"
| "Rules R_linuxName =
     \<lparr>required = True, rtype = None, rmin = None, rmax = None,
      message = None, rtrigger = Blur,
      validator = Some checkLinuxName\<rparr>"
| "Rules R_databaseName =
     \<lparr>required = True, rtype = None, rmin = None, rmax = None,
      message = None, rtrigger = Blur,
      validator = Some checkDatabaseName\<rparr>"
| "Rules R_password =
     \<lparr>required = False, rtype = None, rmin = None, rmax = None,
      message = None, rtrigger = Blur,
      validator = Some complexityPassword\<rparr>"
| "Rules R_email =
     \<lparr>required = True, rtype = Some TyEmail, rmin = None, rmax = None,
      message = Some (Msg ''commons.rule.email'' []), rtrigger = Blur,
      validator = None\<rparr>"
| "Rules R_number =
     \<lparr>required = True, rtype = Some TyNumber, rmin = Some 0, rmax = None,
      message = Some (Msg ''commons.rule.number'' []), rtrigger = Blur,
      validator = None\<rparr>"
| "Rules R_integerNumber =
     \<lparr>required = True, rtype = None, rmin = None, rmax = None,
      message = None, rtrigger = Blur,
      validator = Some checkIntegerNumber\<rparr>"
| "Rules R_integerNumberWith0 =
     \<lparr>required = True, rtype = None, rmin = None, rmax = None,
      message = None, rtrigger = Blur,
      validator = Some checkIntegerNumberWith0\<rparr>"
| "Rules R_floatNumber =
     \<lparr>required = True, rtype = None, rmin = Some 0, rmax = None,
      message = Some (Msg ''commons.rule.number'' []), rtrigger = Blur,
      validator = Some checkFloatNumber\<rparr>"
| "Rules R_ip =
     \<lparr>required = True, rtype = None, rmin = None, rmax = None,
      message = None, rtrigger = Blur,
      validator = Some checkIp\<rparr>"
| "Rules R_ipV6 =
     \<lparr>required = True, rtype = None, rmin = None, rmax = None,
      message = None, rtrigger = Blur,
      validator = Some checkIpV6\<rparr>"
| "Rules R_ipV4V6OrDomain =
     \<lparr>required = True, rtype = None, rmin = None, rmax = None,
      message = None, rtrigger = Blur,
      validator = Some checkIpV4V6OrDomain\<rparr>"
| "Rules R_host =
     \<lparr>required = True, rtype = None, rmin = None, rmax = None,
      message = None, rtrigger = Blur,
      validator = Some checkHost\<rparr>"
| "Rules R_illegal =
     \<lparr>required = True, rtype = None, rmin = None, rmax = None,
      message = None, rtrigger = Blur,
      validator = Some checkIllegal\<rparr>"
| "Rules R_port =
     \<lparr>required = True, rtype = Some TyNumber, rmin = Some 1, rmax = Some 65535,
      message = Some (Msg ''commons.rule.port'' []), rtrigger = Blur,
      validator = None\<rparr>"
| "Rules R_domain =
     \<lparr>required = True, rtype = None, rmin = None, rmax = None,
      message = None, rtrigger = Blur,
      validator = Some checkDomain\<rparr>"
| "Rules R_paramCommon =
     \<lparr>required = True, rtype = None, rmin = None, rmax = None,
      message = None, rtrigger = Blur,
      validator = Some checkParamCommon\<rparr>"
| "Rules R_paramComplexity =
     \<lparr>required = True, rtype = None, rmin = None, rmax = None,
      message = None, rtrigger = Blur,
      validator = Some checkParamComplexity\<rparr>"
| "Rules R_paramPort =
     \<lparr>required = True, rtype = None, rmin = None, rmax = None,
      message = None, rtrigger = Blur,
      validator = Some checkPort\<rparr>"
| "Rules R_paramExtUrl =
     \<lparr>required = True, rtype = None, rmin = None, rmax = None,
      message = None, rtrigger = Blur,
      validator = Some checkParamUrlAndPort\<rparr>"
| "Rules R_nginxDoc =
     \<lparr>required = True, rtype = None, rmin = None, rmax = None,
      message = None, rtrigger = Blur,
      validator = Some checkDoc\<rparr>"
| "Rules R_appName =
     \<lparr>required = True, rtype = None, rmin = None, rmax = None,
      message = None, rtrigger = Blur,
      validator = Some checkAppName\<rparr>"
| "Rules R_containerName =
     \<lparr>required = False, rtype = None, rmin = None, rmax = None,
      message = None, rtrigger = Blur,
      validator = Some checkContainerName\<rparr>"
| "Rules R_disabledFunctions =
     \<lparr>required = True, rtype = None, rmin = None, rmax = None,
      message = None, rtrigger = Blur,
      validator = Some checkDisableFunctions\<rparr>"
| "Rules R_leechExts =
     \<lparr>required = True, rtype = None, rmin = None, rmax = None,
      message = None, rtrigger = Blur,
      validator = Some checkLeechExts\<rparr>"
| "Rules R_supervisorName =
     \<lparr>required = True, rtype = None, rmin = None, rmax = None,
      message = None, rtrigger = Blur,
      validator = Some checkSupervisorName\<rparr>"
| "Rules R_paramSimple =
     \<lparr>required = True, rtype = None, rmin = None, rmax = None,
      message = None, rtrigger = Blur,
      validator = Some checkParamSimple\<rparr>"
| "Rules R_domainWithPort =
     \<lparr>required = True, rtype = None, rmin = None, rmax = None,
      message = None, rtrigger = Blur,
      validator = Some checkDomainWithPort\<rparr>"
| "Rules R_filePermission =
     \<lparr>required = True, rtype = None, rmin = None, rmax = None,
      message = None, rtrigger = Blur,
      validator = Some checkFilePermission\<rparr>"
| "Rules R_phpExtensions =
     \<lparr>required = True, rtype = None, rmin = None, rmax = None,
      message = None, rtrigger = Blur,
      validator = Some checkPHPExtensions\<rparr>"
| "Rules R_paramHttp =
     \<lparr>required = True, rtype = None, rmin = None, rmax = None,
      message = None, rtrigger = Blur,
      validator = Some checkHttpOrHttps\<rparr>"
| "Rules R_ipv4 =
     \<lparr>required = False, rtype = None, rmin = None, rmax = None,
      message = None, rtrigger = Blur,
      validator = Some checkIpv4\<rparr>"
| "Rules R_domainOrIP =
     \<lparr>required = False, rtype = None, rmin = None, rmax = None,
      message = None, rtrigger = Blur,
      validator = Some checkDomainOrIP\<rparr>"
| "Rules R_phone =
     \<lparr>required = False, rtype = None, rmin = None, rmax = None,
      message = None, rtrigger = Blur,
      validator = Some checkPhone\<rparr>"
| "Rules R_authBasicPassword =
     \<lparr>required = False, rtype = None, rmin = None, rmax = None,
      message = None, rtrigger = Blur,
      validator = Some checkAuthBasicPassword\<rparr>"
| "Rules R_ipv4orV6 =
     \<lparr>required = False, rtype = None, rmin = None, rmax = None,
      message = None, rtrigger = Blur,
      validator = Some checkIpv4orV6\<rparr>"
| "Rules R_alias =
     \<lparr>required = True, rtype = None, rmin = None, rmax = None,
      message = None, rtrigger = Blur,
      validator = Some checkAlias\<rparr>"
| "Rules R_vmName =
     \<lparr>required = True, rtype = None, rmin = None, rmax = None,
      message = None, rtrigger = Blur,
      validator = Some checkVMName\<rparr>"
| "Rules R_vmNetwork =
     \<lparr>required = True, rtype = None, rmin = None, rmax = None,
      message = None, rtrigger = BlurChange,
      validator = Some checkVMNetwork\<rparr>"


section \<open>Blank values\<close>

lemmas checker_defs = checkNoSpace_def checkIp_def checkIpv4_def checkIpV6_def
  checkIpV4V6OrDomain_def checkDomainOrIP_def checkHost_def checkIpv4orV6_def checkIllegal_def
  complexityPassword_def checkName_def checkUserName_def checkSimpleName_def
  checkSimplePassword_def checkAuthBasicPassword_def checkDBName_def checkComposeName_def
  checkImageName_def checkVolumeName_def checkLinuxName_def checkSupervisorName_def
  checkDatabaseName_def checkAppName_def checkAlias_def checkVMName_def checkVMNetwork_def
  checkDomain_def checkDomainWithPort_def checkIntegerNumber_def checkIntegerNumberWith0_def
  checkFloatNumber_def checkParamCommon_def checkParamComplexity_def checkParamUrlAndPort_def
  checkPort_def checkDoc_def checkContainerName_def checkDisableFunctions_def checkLeechExts_def
  checkParamSimple_def checkFilePermission_def checkPHPExtensions_def checkHttpOrHttps_def
  checkPhone_def

lemma blank_verdicts:
  assumes "validator (Rules k) = Some f" "blank v" "k \<noteq> R_noSpace"
  shows "f v = Pass \<longleftrightarrow> k \<in> {R_ipv4, R_domainOrIP, R_containerName, R_paramSimple, R_phone, R_ipv4orV6}"
  using assms
  by (cases k)
    (auto simp: checker_defs rule_defs pattern_rule_def)

text \<open>The validator of a required field rejects a blank value, with two exceptions:
  \<open>paramSimple\<close>, whose validator passes it, and \<open>noSpace\<close>, which passes the empty string
  and fails with a \<open>TypeError\<close> on an undefined value.\<close>

theorem required_rules_reject_blank:
  "(\<exists>f v. required (Rules k) \<and> validator (Rules k) = Some f \<and> blank v \<and> f v = Pass) \<longleftrightarrow>
     k \<in> {R_paramSimple, R_noSpace}"
proof (cases "k = R_noSpace")
  case True
  have "checkNoSpace (Some []) = Pass" by (simp add: checkNoSpace_def str_includes_def)
  with True show ?thesis by (auto intro!: exI [of _ "Some []"])
next
  case False
  have "required (Rules k) \<Longrightarrow>
      k \<notin> {R_ipv4, R_domainOrIP, R_containerName, R_phone, R_ipv4orV6}"
    by (cases k) simp_all
  with False have "required (Rules k) \<and> validator (Rules k) = Some f \<and> blank v \<and> f v = Pass \<Longrightarrow>
      k = R_paramSimple" for f v
    using blank_verdicts [of k f v] by auto
  moreover have "checkParamSimple None = Pass"
    by (simp add: checkParamSimple_def rule_defs)
  ultimately show ?thesis using False by (auto intro!: exI [of _ None])
qed

end
