(* ===== verification/Tabs.thy ===== *)
theory Tabs
  imports JsString
begin

text \<open>
  The store of the open tabs, \<^verbatim>\<open>src/web/src/store/modules/tabs.ts\<close>: the tabs in their order, the
  names the router view keeps alive, and the active path.  The functions are untyped in the
  source: an argument that is compared with a tab's path may be a string or, in one call, a tab
  (\<open>path_arg\<close>); a name may be missing (\<open>None\<close>).
\<close>

section \<open>State and operations\<close>

record tab =
  path :: jstring
  tab_name :: "jstring option"

record tabs_store =
  isShowTabIcon :: bool
  cachedTabs :: "jstring option list"
  openedTabs :: "tab list"
  activeTabPath :: jstring

definition initial_tabs :: tabs_store where
  "initial_tabs = \<lparr>isShowTabIcon = True, cachedTabs = [], openedTabs = [], activeTabPath = []\<rparr>"

datatype path_arg = Str jstring | Obj tab

text \<open>\<open>v.path === path\<close>: an object is never equal to a string.\<close>

definition same_path :: "tab \<Rightarrow> path_arg \<Rightarrow> bool" where
  "same_path v a = (case a of Str p \<Rightarrow> path v = p | Obj _ \<Rightarrow> False)"

definition getActivePath :: "jstring \<Rightarrow> jstring" where
  "getActivePath p =
     (case find_index (\<lambda>c. c = 47) p of
        None \<Rightarrow> p
      | Some first \<Rightarrow>
          (case last_index_unit 47 p of
             None \<Rightarrow> p
           | Some lst \<Rightarrow> if first = lst then p else drop first (take lst p)))"

text \<open>The index, or -1.\<close>

definition getTabIdxByPath :: "tabs_store \<Rightarrow> path_arg \<Rightarrow> int" where
  "getTabIdxByPath s a =
     (case find_index (\<lambda>v. same_path v a) (openedTabs s) of None \<Rightarrow> -1 | Some i \<Rightarrow> int i)"

definition removeAllTabs :: "tabs_store \<Rightarrow> tabs_store" where
  "removeAllTabs s = s\<lparr>openedTabs := [], cachedTabs := []\<rparr>"

definition findTab :: "tabs_store \<Rightarrow> path_arg \<Rightarrow> tab option" where
  "findTab s a =
     (let idx = getTabIdxByPath s a in if idx > -1 then Some (openedTabs s ! nat idx) else None)"

definition truthy_name :: "jstring option \<Rightarrow> bool" where
  "truthy_name n \<longleftrightarrow> n \<noteq> None \<and> n \<noteq> Some []"

definition addCachedTab :: "tabs_store \<Rightarrow> jstring option \<Rightarrow> tabs_store" where
  "addCachedTab s name =
     (if truthy_name name \<and> name \<notin> set (cachedTabs s) then s\<lparr>cachedTabs := cachedTabs s @ [name]\<rparr>
      else s)"

definition removeCachedTab :: "tabs_store \<Rightarrow> jstring option \<Rightarrow> tabs_store" where
  "removeCachedTab s name =
     (if truthy_name name then
        (case find_index (\<lambda>v. v = name) (cachedTabs s) of
           None \<Rightarrow> s
         | Some idx \<Rightarrow> s\<lparr>cachedTabs := remove_nth idx (cachedTabs s)\<rparr>)
      else s)"

definition addTab :: "tabs_store \<Rightarrow> tab \<Rightarrow> tabs_store" where
  "addTab s t =
     (if getTabIdxByPath s (Str (path t)) < 0
      then addCachedTab (s\<lparr>openedTabs := openedTabs s @ [t]\<rparr>) (tab_name t)
      else s)"

text \<open>\<open>removeTab\<close> also returns the path of the last tab that is left.\<close>

definition removeTab :: "tabs_store \<Rightarrow> path_arg \<Rightarrow> tabs_store \<times> jstring option" where
  "removeTab s a =
     (if length (openedTabs s) > 1 then
        let idx = getTabIdxByPath s a;
            s' = (if idx > -1
                  then (removeCachedTab s (tab_name (openedTabs s ! nat idx)))
                         \<lparr>openedTabs := remove_nth (nat idx) (openedTabs s)\<rparr>
                  else s)
        in (s', Some (path (last (openedTabs s'))))
      else (s, None))"

definition removeOtherTabs :: "tabs_store \<Rightarrow> path_arg \<Rightarrow> tabs_store" where
  "removeOtherTabs s a =
     (let idx = getTabIdxByPath s a in
      if idx > -1 then
        let t = openedTabs s ! nat idx in s\<lparr>openedTabs := [t], cachedTabs := [tab_name t]\<rparr>
      else s)"

definition removeUnActiveTabs :: "tabs_store \<Rightarrow> tabs_store" where
  "removeUnActiveTabs s =
     (if openedTabs s \<noteq> [] then
        let idx = getTabIdxByPath s (Str (activeTabPath s));
            idx = (if idx > -1 then idx else 0);
            t = openedTabs s ! nat idx
        in removeOtherTabs s (Obj t)
      else s)"

datatype side = SRight | SLeft | SOther string

text \<open>\<open>splice(idx + 1)\<close> cuts the tail off, \<open>splice(0, idx)\<close> the first \<open>idx\<close> elements, none when
  \<open>idx\<close> is negative.\<close>

definition removeTabs :: "tabs_store \<Rightarrow> jstring \<Rightarrow> side \<Rightarrow> tabs_store" where
  "removeTabs s p ty =
     (if p \<noteq> [] then
        let idx = getTabIdxByPath s (Str p);
            (rest, removed) = (case ty of
                SRight \<Rightarrow> (take (nat (idx + 1)) (openedTabs s), drop (nat (idx + 1)) (openedTabs s))
              | SLeft \<Rightarrow> (drop (nat idx) (openedTabs s), take (nat idx) (openedTabs s))
              | SOther _ \<Rightarrow> (openedTabs s, []))
        in fold (\<lambda>e s. removeCachedTab s (tab_name e)) removed (s\<lparr>openedTabs := rest\<rparr>)
      else s)"

definition hasCloseDropdown :: "tabs_store \<Rightarrow> jstring \<Rightarrow> string \<Rightarrow> bool option" where
  "hasCloseDropdown s p ty =
     (let idx = getTabIdxByPath s (Str p) in
      if ty = ''close'' \<or> ty = ''other'' then Some (length (openedTabs s) > 1)
      else if ty = ''left'' then Some (idx \<noteq> 0)
      else if ty = ''right'' then Some (idx \<noteq> int (length (openedTabs s)) - 1)
      else None)"

text \<open>What the layout does to the store, as events.\<close>

datatype tabs_event =
    Add tab
  | Remove path_arg
  | RemoveSide jstring side
  | RemoveOther path_arg
  | RemoveUnActive
  | RemoveAll
  | Activate jstring
  | Cache "jstring option"
  | Uncache "jstring option"

fun tabs_step :: "tabs_store \<Rightarrow> tabs_event \<Rightarrow> tabs_store" where
  "tabs_step s (Add t) = addTab s t"
| "tabs_step s (Remove a) = fst (removeTab s a)"
| "tabs_step s (RemoveSide p ty) = removeTabs s p ty"
| "tabs_step s (RemoveOther a) = removeOtherTabs s a"
| "tabs_step s RemoveUnActive = removeUnActiveTabs s"
| "tabs_step s RemoveAll = removeAllTabs s"
| "tabs_step s (Activate p) = s\<lparr>activeTabPath := p\<rparr>"
| "tabs_step s (Cache n) = addCachedTab s n"
| "tabs_step s (Uncache n) = removeCachedTab s n"

section \<open>Invariant\<close>

definition tabs_inv :: "tabs_store \<Rightarrow> bool" where
  "tabs_inv s \<longleftrightarrow> distinct (map path (openedTabs s)) \<and> distinct (cachedTabs s)"

lemma idx_neg: "getTabIdxByPath s (Str p) < 0 \<longleftrightarrow> p \<notin> path ` set (openedTabs s)"
  by (cases "openedTabs s" "\<lambda>v. same_path v (Str p)" rule: find_index_cases)
    (auto simp: getTabIdxByPath_def same_path_def)

lemma idx_obj [simp]: "getTabIdxByPath s (Obj t) = -1"
proof -
  have "find_index (\<lambda>v. same_path v (Obj t)) xs = None" for xs
    by (simp add: same_path_def find_index_None)
  then show ?thesis by (simp add: getTabIdxByPath_def)
qed

lemma idx_bounds: "-1 \<le> getTabIdxByPath s a \<and> getTabIdxByPath s a < int (length (openedTabs s))"
  by (auto simp: getTabIdxByPath_def split: option.splits dest: find_index_SomeD)

lemma idx_nth:
  "distinct (map path (openedTabs s)) \<Longrightarrow> i < length (openedTabs s) \<Longrightarrow>
   getTabIdxByPath s (Str (path (openedTabs s ! i))) = int i"
proof (cases "openedTabs s" "\<lambda>v :: tab. path v = path (openedTabs s ! i)" rule: find_index_cases)
  case none
  moreover assume "i < length (openedTabs s)"
  ultimately show ?thesis using nth_mem by blast
next
  case (some k)
  moreover assume d: "distinct (map path (openedTabs s))" and i: "i < length (openedTabs s)"
  ultimately have "k = i" using nth_eq_iff_index_eq [OF d, of k i] by simp
  with some show ?thesis by (simp add: getTabIdxByPath_def same_path_def)
qed

lemma idx_pos:
  assumes "getTabIdxByPath s a > -1"
  shows "nat (getTabIdxByPath s a) < length (openedTabs s)"
    "same_path (openedTabs s ! nat (getTabIdxByPath s a)) a"
  using assms by (auto simp: getTabIdxByPath_def split: option.splits dest: find_index_SomeD)

lemma opened_cached [simp]:
  "openedTabs (addCachedTab s n) = openedTabs s" "openedTabs (removeCachedTab s n) = openedTabs s"
  by (simp_all add: addCachedTab_def removeCachedTab_def split: option.splits)

lemma cached_add:
  "cachedTabs (addCachedTab s n) =
     (if truthy_name n \<and> n \<notin> set (cachedTabs s) then cachedTabs s @ [n] else cachedTabs s)"
  by (simp add: addCachedTab_def)

lemma cached_remove:
  "cachedTabs (removeCachedTab s n) =
     (if truthy_name n then remove1 n (cachedTabs s) else cachedTabs s)"
proof (cases "find_index (\<lambda>v. v = n) (cachedTabs s)")
  case None
  then have "n \<notin> set (cachedTabs s)" by (auto simp: find_index_None_iff)
  then show ?thesis by (simp add: removeCachedTab_def None remove1_idem)
next
  case (Some i)
  then show ?thesis by (simp add: removeCachedTab_def remove_nth_eq_remove1)
qed

lemma fold_opened [simp]:
  "openedTabs (fold (\<lambda>e s. removeCachedTab s (tab_name e)) ts s) = openedTabs s"
  by (induction ts arbitrary: s) auto

lemma fold_cached:
  "distinct (cachedTabs s) \<Longrightarrow>
   distinct (cachedTabs (fold (\<lambda>e s. removeCachedTab s (tab_name e)) ts s)) \<and>
   set (cachedTabs (fold (\<lambda>e s. removeCachedTab s (tab_name e)) ts s)) =
     set (cachedTabs s) - {n \<in> tab_name ` set ts. truthy_name n}"
  by (induction ts arbitrary: s) (auto simp: cached_remove)

lemma add_inv:
  assumes "tabs_inv s"
  shows "tabs_inv (addTab s t)"
  using assms idx_neg [of s "path t"] by (auto simp: addTab_def tabs_inv_def cached_add)

lemma distinct_nthI: "distinct xs \<Longrightarrow> distinct (take n xs) \<and> distinct (drop n xs)"
  by simp

lemma removeTab_inv: "tabs_inv s \<Longrightarrow> tabs_inv (fst (removeTab s a))"
  by (auto simp: removeTab_def tabs_inv_def Let_def cached_remove map_remove_nth distinct_remove1)

lemma removeTabs_inv:
  assumes "tabs_inv s"
  shows "tabs_inv (removeTabs s p ty)"
proof (cases "p = []")
  case False
  show ?thesis
    using assms fold_cached [of "s\<lparr>openedTabs := _\<rparr>"] False
    by (cases ty) (auto simp: removeTabs_def tabs_inv_def Let_def simp flip: take_map drop_map)
qed (simp add: removeTabs_def assms)

lemma removeOtherTabs_inv: "tabs_inv s \<Longrightarrow> tabs_inv (removeOtherTabs s a)"
  by (simp add: removeOtherTabs_def tabs_inv_def Let_def)

lemma removeUnActiveTabs_id: "removeUnActiveTabs s = s"
  by (simp add: removeUnActiveTabs_def removeOtherTabs_def Let_def)

lemma tabs_step_inv: "tabs_inv s \<Longrightarrow> tabs_inv (tabs_step s e)"
  by (cases e)
    (auto simp: add_inv removeTab_inv removeTabs_inv removeOtherTabs_inv removeUnActiveTabs_id
      removeAllTabs_def, auto simp: tabs_inv_def cached_add cached_remove distinct_remove1)

interpretation tabs_sys: step_system tabs_step tabs_inv
  by unfold_locales (rule tabs_step_inv)

text \<open>C11: From the empty store, whatever the layout does, no path is open twice and no name is
  kept alive twice.\<close>

theorem tabs_reachable_distinct:
  "distinct (map path (openedTabs (foldl tabs_step initial_tabs es))) \<and>
   distinct (cachedTabs (foldl tabs_step initial_tabs es))"
proof -
  have "tabs_inv initial_tabs" by (simp add: tabs_inv_def initial_tabs_def)
  then have "tabs_inv (foldl tabs_step initial_tabs es)" by (rule tabs_sys.run_inv)
  then show ?thesis by (simp add: tabs_inv_def)
qed

section \<open>What the operations keep\<close>

text \<open>Closing to the left or to the right of an open tab keeps exactly the tabs from it on,
  or up to it; with a path that is not open, closing to the right closes every tab, because
  the index -1 becomes the start of the cut, and closing to the left closes none.\<close>

theorem removeTabs_sides:
  assumes "distinct (map path (openedTabs s))" "p \<noteq> []"
  shows "(\<forall>i < length (openedTabs s). path (openedTabs s ! i) = p \<longrightarrow>
            openedTabs (removeTabs s p SRight) = take (i + 1) (openedTabs s) \<and>
            openedTabs (removeTabs s p SLeft) = drop i (openedTabs s)) \<and>
         (p \<notin> path ` set (openedTabs s) \<longrightarrow>
            openedTabs (removeTabs s p SRight) = [] \<and>
            openedTabs (removeTabs s p SLeft) = openedTabs s)"
proof (intro conjI allI impI)
  fix i
  assume "i < length (openedTabs s)" "path (openedTabs s ! i) = p"
  then have "getTabIdxByPath s (Str p) = int i" using idx_nth [OF assms(1)] by blast
  with assms(2) show "openedTabs (removeTabs s p SRight) = take (i + 1) (openedTabs s)"
    "openedTabs (removeTabs s p SLeft) = drop i (openedTabs s)"
    by (simp_all add: removeTabs_def nat_add_distrib)
next
  assume "p \<notin> path ` set (openedTabs s)"
  then have "getTabIdxByPath s (Str p) = -1"
    using idx_neg [of s p] idx_bounds [of s "Str p"] by simp
  with assms(2) show "openedTabs (removeTabs s p SRight) = []"
    "openedTabs (removeTabs s p SLeft) = openedTabs s"
    by (simp_all add: removeTabs_def)
qed

definition demo_tabs :: tabs_store where
  "demo_tabs = initial_tabs\<lparr>openedTabs :=
     map (\<lambda>p. \<lparr>path = lit p, tab_name = Some (lit p)\<rparr>) [''/a'', ''/b'', ''/c'']\<rparr>"

theorem removeTabs_sides_witness:
  "openedTabs (removeTabs demo_tabs (lit ''/b'') SRight) = take 2 (openedTabs demo_tabs) \<and>
   openedTabs (removeTabs demo_tabs (lit ''/zz'') SRight) = []"
proof -
  have d: "distinct (map path (openedTabs demo_tabs))" by (simp add: demo_tabs_def)
  have "1 < length (openedTabs demo_tabs) \<and> path (openedTabs demo_tabs ! 1) = lit ''/b''"
    "lit ''/zz'' \<notin> path ` set (openedTabs demo_tabs)"
    by (simp_all add: demo_tabs_def)
  then show ?thesis
    using removeTabs_sides [OF d, of "lit ''/b''"] removeTabs_sides [OF d, of "lit ''/zz''"]
    by (auto simp: numeral_2_eq_2)
qed

text \<open>\<open>removeUnActiveTabs\<close> never closes anything: it hands the tab, not the tab's path, to
  \<open>removeOtherTabs\<close>, whose comparison with a path is then always false.\<close>

theorem removeUnActiveTabs_noop: "removeUnActiveTabs s = s"
  by (rule removeUnActiveTabs_id)

text \<open>Closing an open tab takes its name out of the kept-alive names even while another open
  tab has the same name, and touches no other tab and no other name.\<close>

theorem removeTab_effect:
  assumes "tabs_inv s" "t \<in> set (openedTabs s)" "length (openedTabs s) > 1"
  shows "set (openedTabs (fst (removeTab s (Str (path t))))) = set (openedTabs s) - {t} \<and>
    set (cachedTabs (fst (removeTab s (Str (path t))))) =
      set (cachedTabs s) - (if truthy_name (tab_name t) then {tab_name t} else {}) \<and>
    snd (removeTab s (Str (path t))) \<in> Some ` path ` (set (openedTabs s) - {t})"
proof -
  from assms(2) obtain i where i: "i < length (openedTabs s)" "openedTabs s ! i = t"
    by (auto simp: in_set_conv_nth)
  have d: "distinct (map path (openedTabs s))" "distinct (openedTabs s)" "distinct (cachedTabs s)"
    using assms(1) by (auto simp: tabs_inv_def distinct_map)
  have idx: "getTabIdxByPath s (Str (path t)) = int i" using idx_nth [OF d(1) i(1)] i(2) by simp
  let ?o = "remove_nth i (openedTabs s)"
  have o: "set ?o = set (openedTabs s) - {t}" using set_remove_nth_distinct [OF d(2) i(1)] i(2) by simp
  have "?o \<noteq> []" using i(1) assms(3) by (metis length_remove_nth list.size(3) zero_less_diff less_irrefl)
  then have "last ?o \<in> set (openedTabs s) - {t}" using o last_in_set by blast
  then show ?thesis
    using assms(3) o d(3) i(2) by (simp add: removeTab_def idx Let_def cached_remove)
qed

theorem removeTab_effect_witness:
  "set (openedTabs (fst (removeTab demo_tabs (Str (lit ''/b''))))) =
     set (openedTabs demo_tabs) - {\<lparr>path = lit ''/b'', tab_name = Some (lit ''/b'')\<rparr>}"
  using removeTab_effect [of demo_tabs "\<lparr>path = lit ''/b'', tab_name = Some (lit ''/b'')\<rparr>"]
  by (simp add: demo_tabs_def tabs_inv_def initial_tabs_def)

end
