(* ===== verification/Process.thy ===== *)
theory Process
  imports JsNumber
begin

text \<open>
  The store of the process pages, \<^verbatim>\<open>src/web/src/store/modules/process.ts\<close>: one web socket for
  the process list and the network list, opened for the first page that needs it and closed
  half a second after the last one left, with a polling timer and at most one request in flight.

  The closure's variables are the fields of \<open>pstate\<close>.  Sockets are numbered in the order they
  are made and keep their \<open>readyState\<close>; a handler that is attached to a socket runs when the
  browser fires an event of that socket, also after the store has let go of it.  Timers are
  numbered, and the clock is left out: a timer that is set may fire at any later moment.  An
  \<open>await\<close> splits a function: the call parks its token in \<open>auth_waiting\<close> and the continuation
  runs when the reply of \<open>checkStreamAuth\<close> comes.  \<open>JSON.parse\<close> either throws or gives a value,
  of which the store only asks whether it is falsy (\<open>None\<close>).
\<close>

section \<open>State\<close>

datatype req = Ps | Net

datatype ready_state = CONNECTING | OPEN | CLOSING | CLOSED

text \<open>A search field: a number, \<open>undefined\<close>, or a string that an input element left there.\<close>

datatype num_field = Undef | Num jsnum | NumStr jstring

record ps_search =
  pid :: num_field
  username :: jstring
  ps_name :: jstring

record net_search =
  processID :: num_field
  processName :: jstring
  port :: num_field

datatype request = PsRequest ps_search | NetRequest net_search

datatype timer =
    PollTick req
  | DisconnectCheck
  | CheckConnection req bool
  | StopCheck nat
  | SendInitial req

record 'd pstate =
  websocket :: "nat option"
  sockets :: "ready_state list"
  pollingTimer :: "nat option"
  disconnectTimer :: "nat option"
  timers :: "(nat \<times> timer) list"
  next_timer :: nat
  initWebSocketToken :: nat
  auth_waiting :: "nat list"
  connectionRefCount :: nat
  isConnected :: bool
  isConnecting :: bool
  psData :: "'d list"
  psLoading :: bool
  psSearch :: ps_search
  netData :: "'d list"
  netLoading :: bool
  netSearch :: net_search
  pendingRequestType :: "req option"
  queuedRequestType :: "req option"
  isPsFetching :: bool
  isNetFetching :: bool
  activePollingType :: "req option"
  sent :: "(nat \<times> request) list"
  shown_errors :: "jstring list"

definition empty_ps :: ps_search where
  "empty_ps = \<lparr>pid = Undef, username = [], ps_name = []\<rparr>"

definition empty_net :: net_search where
  "empty_net = \<lparr>processID = Undef, processName = [], port = Undef\<rparr>"

definition initial_process :: "'d pstate" where
  "initial_process =
     \<lparr>websocket = None, sockets = [], pollingTimer = None, disconnectTimer = None, timers = [],
      next_timer = 0, initWebSocketToken = 0, auth_waiting = [], connectionRefCount = 0,
      isConnected = False, isConnecting = False, psData = [], psLoading = False,
      psSearch = empty_ps, netData = [], netLoading = False, netSearch = empty_net,
      pendingRequestType = None, queuedRequestType = None, isPsFetching = False,
      isNetFetching = False, activePollingType = None, sent = [], shown_errors = []\<rparr>"

section \<open>Requests\<close>

definition isWsOpen :: "'d pstate \<Rightarrow> bool" where
  "isWsOpen s = (case websocket s of None \<Rightarrow> False | Some i \<Rightarrow> i < length (sockets s) \<and> sockets s ! i = OPEN)"

fun as_number :: "num_field \<Rightarrow> num_field" where
  "as_number (NumStr t) = Num (js_Number t)"
| "as_number f = f"

definition ws_send :: "request \<Rightarrow> 'd pstate \<Rightarrow> 'd pstate" where
  "ws_send r s = (case websocket s of None \<Rightarrow> s | Some i \<Rightarrow> s\<lparr>sent := sent s @ [(i, r)]\<rparr>)"

fun doSendMessage :: "req \<Rightarrow> 'd pstate \<Rightarrow> 'd pstate" where
  "doSendMessage Ps s =
     ws_send (PsRequest ((psSearch s)\<lparr>pid := as_number (pid (psSearch s))\<rparr>))
       (s\<lparr>pendingRequestType := Some Ps, isPsFetching := True, psLoading := (psData s = [])\<rparr>)"
| "doSendMessage Net s =
     ws_send (NetRequest ((netSearch s)\<lparr>processID := as_number (processID (netSearch s)),
                                        port := as_number (port (netSearch s))\<rparr>))
       (s\<lparr>pendingRequestType := Some Net, isNetFetching := True, netLoading := (netData s = [])\<rparr>)"

definition sendPsMessage :: "'d pstate \<Rightarrow> 'd pstate" where
  "sendPsMessage s =
     (if \<not> isWsOpen s then s
      else if pendingRequestType s \<noteq> None then s\<lparr>queuedRequestType := Some Ps\<rparr>
      else if isPsFetching s then s
      else doSendMessage Ps s)"

definition sendNetMessage :: "'d pstate \<Rightarrow> 'd pstate" where
  "sendNetMessage s =
     (if \<not> isWsOpen s then s
      else if pendingRequestType s \<noteq> None then s\<lparr>queuedRequestType := Some Net\<rparr>
      else if isNetFetching s then s
      else doSendMessage Net s)"

definition sendMessage :: "req \<Rightarrow> 'd pstate \<Rightarrow> 'd pstate" where
  "sendMessage t s = (case t of Ps \<Rightarrow> sendPsMessage s | Net \<Rightarrow> sendNetMessage s)"

section \<open>Socket handlers\<close>

definition onOpen :: "'d pstate \<Rightarrow> 'd pstate" where
  "onOpen s = s\<lparr>isConnected := True, isConnecting := False\<rparr>"

datatype 'd payload = Malformed | Parsed "'d list option"

definition or_empty :: "'d list option \<Rightarrow> 'd list" where
  "or_empty v = (case v of None \<Rightarrow> [] | Some d \<Rightarrow> d)"

definition take_response :: "'d list option \<Rightarrow> 'd pstate \<Rightarrow> 'd pstate" where
  "take_response v s =
     (let responseType = pendingRequestType s;
          s = (case responseType of
                 Some Ps \<Rightarrow> s\<lparr>isPsFetching := False\<rparr>
               | Some Net \<Rightarrow> s\<lparr>isNetFetching := False\<rparr>
               | None \<Rightarrow> s);
          s = s\<lparr>pendingRequestType := None\<rparr>
      in if responseType = activePollingType s then
           (case responseType of
              Some Ps \<Rightarrow> s\<lparr>psData := or_empty v, psLoading := False\<rparr>
            | Some Net \<Rightarrow> s\<lparr>netData := or_empty v, netLoading := False\<rparr>
            | None \<Rightarrow> s)
         else s)"

definition onMessage :: "'d payload \<Rightarrow> 'd pstate \<Rightarrow> 'd pstate" where
  "onMessage p s =
     (case p of
        Malformed \<Rightarrow> s
      | Parsed v \<Rightarrow>
          let s = take_response v s in
          (case queuedRequestType s of
             None \<Rightarrow> s
           | Some t \<Rightarrow> if isWsOpen s then doSendMessage t (s\<lparr>queuedRequestType := None\<rparr>) else s))"

definition onClose :: "'d pstate \<Rightarrow> 'd pstate" where
  "onClose s = s\<lparr>isConnected := False, isConnecting := False, websocket := None\<rparr>"

section \<open>Timers\<close>

definition clear_timer :: "nat option \<Rightarrow> 'd pstate \<Rightarrow> 'd pstate" where
  "clear_timer t s = (case t of None \<Rightarrow> s
     | Some i \<Rightarrow> s\<lparr>timers := filter (\<lambda>(j, _). j \<noteq> i) (timers s)\<rparr>)"

definition set_timer :: "timer \<Rightarrow> 'd pstate \<Rightarrow> 'd pstate" where
  "set_timer k s = s\<lparr>timers := timers s @ [(next_timer s, k)], next_timer := Suc (next_timer s)\<rparr>"

definition stopPolling :: "'d pstate \<Rightarrow> 'd pstate" where
  "stopPolling s =
     (clear_timer (pollingTimer s) s)\<lparr>pollingTimer := None, activePollingType := None\<rparr>"

section \<open>Connection\<close>

text \<open>\<open>initWebSocket\<close> up to its \<open>await\<close>, and from it on.\<close>

definition initWebSocket :: "'d pstate \<Rightarrow> 'd pstate" where
  "initWebSocket s =
     (if websocket s \<noteq> None \<or> isConnecting s then s
      else let token = Suc (initWebSocketToken s) in
        s\<lparr>initWebSocketToken := token, isConnecting := True, auth_waiting := auth_waiting s @ [token]\<rparr>)"

definition initWebSocket_resume :: "nat \<Rightarrow> jstring option \<Rightarrow> 'd pstate \<Rightarrow> 'd pstate" where
  "initWebSocket_resume token authError s0 =
     (let s = s0\<lparr>auth_waiting := remove1 token (auth_waiting s0)\<rparr> in
      if token \<noteq> initWebSocketToken s \<or> connectionRefCount s = 0
      then (if token = initWebSocketToken s then s\<lparr>isConnecting := False\<rparr> else s)
      else case authError of
        Some e \<Rightarrow> s\<lparr>shown_errors := shown_errors s @ [e], isConnecting := False\<rparr>
      | None \<Rightarrow> s\<lparr>websocket := Some (length (sockets s)), sockets := sockets s @ [CONNECTING]\<rparr>)"

definition ws_close :: "nat \<Rightarrow> 'd pstate \<Rightarrow> 'd pstate" where
  "ws_close i s =
     (if i < length (sockets s) \<and> sockets s ! i \<in> {CONNECTING, OPEN}
      then s\<lparr>sockets := (sockets s)[i := CLOSING]\<rparr> else s)"

definition closeWebSocket :: "'d pstate \<Rightarrow> 'd pstate" where
  "closeWebSocket s =
     (let s = stopPolling (s\<lparr>initWebSocketToken := Suc (initWebSocketToken s)\<rparr>);
          s = (case websocket s of None \<Rightarrow> s | Some i \<Rightarrow> (ws_close i s)\<lparr>websocket := None\<rparr>)
      in s\<lparr>isConnected := False, isConnecting := False\<rparr>)"

definition connect :: "'d pstate \<Rightarrow> 'd pstate" where
  "connect s =
     (let s = (clear_timer (disconnectTimer s) s)\<lparr>disconnectTimer := None\<rparr>;
          s = s\<lparr>connectionRefCount := Suc (connectionRefCount s)\<rparr>
      in if websocket s = None \<and> \<not> isConnecting s then initWebSocket s else s)"

definition disconnect :: "'d pstate \<Rightarrow> 'd pstate" where
  "disconnect s =
     (let s = s\<lparr>connectionRefCount := connectionRefCount s - 1\<rparr> in
      if connectionRefCount s = 0
      then (set_timer DisconnectCheck s)\<lparr>disconnectTimer := Some (next_timer s)\<rparr>
      else s)"

section \<open>Polling\<close>

definition scheduleInitialFetch :: "req \<Rightarrow> bool \<Rightarrow> 'd pstate \<Rightarrow> 'd pstate" where
  "scheduleInitialFetch ty delayed s =
     (if delayed then set_timer (SendInitial ty) s else sendMessage ty s)"

text \<open>\<open>delayed\<close> stands for \<open>initialDelay > 0\<close>.\<close>

definition startPolling :: "req \<Rightarrow> bool \<Rightarrow> 'd pstate \<Rightarrow> 'd pstate" where
  "startPolling ty delayed s =
     (let s = (stopPolling s)\<lparr>activePollingType := Some ty\<rparr>;
          s = (if isWsOpen s then scheduleInitialFetch ty delayed s
               else set_timer (StopCheck (next_timer s)) (set_timer (CheckConnection ty delayed) s))
      in (set_timer (PollTick ty) s)\<lparr>pollingTimer := Some (next_timer s)\<rparr>)"

text \<open>What a timer's callback does; a timeout is gone once it fires, an interval stays.\<close>

fun fire :: "nat \<Rightarrow> timer \<Rightarrow> 'd pstate \<Rightarrow> 'd pstate" where
  "fire i (PollTick ty) s = sendMessage ty s"
| "fire i DisconnectCheck s =
     (let s = clear_timer (Some i) s in if connectionRefCount s = 0 then closeWebSocket s else s)"
| "fire i (CheckConnection ty delayed) s =
     (if isWsOpen s then scheduleInitialFetch ty delayed (clear_timer (Some i) s) else s)"
| "fire i (StopCheck j) s = clear_timer (Some j) (clear_timer (Some i) s)"
| "fire i (SendInitial ty) s = sendMessage ty (clear_timer (Some i) s)"

section \<open>Search fields\<close>

text \<open>\<open>Object.assign\<close> with a partial record: the fields that are given.\<close>

definition updatePsSearch ::
  "num_field option \<Rightarrow> jstring option \<Rightarrow> jstring option \<Rightarrow> 'd pstate \<Rightarrow> 'd pstate" where
  "updatePsSearch p u n s =
     s\<lparr>psSearch := \<lparr>pid = (case p of None \<Rightarrow> pid (psSearch s) | Some v \<Rightarrow> v),
                    username = (case u of None \<Rightarrow> username (psSearch s) | Some v \<Rightarrow> v),
                    ps_name = (case n of None \<Rightarrow> ps_name (psSearch s) | Some v \<Rightarrow> v)\<rparr>\<rparr>"

definition updateNetSearch ::
  "num_field option \<Rightarrow> jstring option \<Rightarrow> num_field option \<Rightarrow> 'd pstate \<Rightarrow> 'd pstate" where
  "updateNetSearch p n q s =
     s\<lparr>netSearch := \<lparr>processID = (case p of None \<Rightarrow> processID (netSearch s) | Some v \<Rightarrow> v),
                     processName = (case n of None \<Rightarrow> processName (netSearch s) | Some v \<Rightarrow> v),
                     port = (case q of None \<Rightarrow> port (netSearch s) | Some v \<Rightarrow> v)\<rparr>\<rparr>"

definition resetPsSearch :: "'d pstate \<Rightarrow> 'd pstate" where
  "resetPsSearch s = s\<lparr>psSearch := empty_ps\<rparr>"

definition resetNetSearch :: "'d pstate \<Rightarrow> 'd pstate" where
  "resetNetSearch s = s\<lparr>netSearch := empty_net\<rparr>"

end
