(* ===== verification/ProcessSteps.thy ===== *)
theory ProcessSteps
  imports Process Prelude
begin

text \<open>
  The process store as a state machine: what the pages call and what the browser delivers are
  events, \<open>pstep\<close> is the step relation, \<open>preach\<close> the states it reaches.  \<open>pnext\<close> is the same
  relation as a function, for runs on concrete inputs.
\<close>

section \<open>Steps\<close>

datatype 'd event =
    Connect
  | Disconnect
  | InitWs
  | CloseWs
  | StartPolling req bool
  | StopPolling
  | Send req
  | UpdatePs "num_field option" "jstring option" "jstring option"
  | UpdateNet "num_field option" "jstring option" "num_field option"
  | ResetPs
  | ResetNet
  | Fire nat
  | AuthReply nat "jstring option"
  | SockOpen nat
  | SockMessage nat "'d payload"
  | SockError nat
  | SockClose nat

text \<open>The calls of the pages.\<close>

fun call :: "'d event \<Rightarrow> ('d pstate \<Rightarrow> 'd pstate) option" where
  "call Connect = Some connect"
| "call Disconnect = Some disconnect"
| "call InitWs = Some initWebSocket"
| "call CloseWs = Some closeWebSocket"
| "call (StartPolling ty delayed) = Some (startPolling ty delayed)"
| "call StopPolling = Some stopPolling"
| "call (Send ty) = Some (sendMessage ty)"
| "call (UpdatePs p u n) = Some (updatePsSearch p u n)"
| "call (UpdateNet p n q) = Some (updateNetSearch p n q)"
| "call ResetPs = Some resetPsSearch"
| "call ResetNet = Some resetNetSearch"
| "call _ = None"

definition sock_is :: "'d pstate \<Rightarrow> nat \<Rightarrow> ready_state list \<Rightarrow> bool" where
  "sock_is s i rs \<longleftrightarrow> i < length (sockets s) \<and> sockets s ! i \<in> set rs"

inductive pstep :: "'d pstate \<Rightarrow> 'd event \<Rightarrow> 'd pstate \<Rightarrow> bool" where
  call: "call e = Some f \<Longrightarrow> pstep s e (f s)"
| fire: "map_of (timers s) i = Some k \<Longrightarrow> pstep s (Fire i) (fire i k s)"
| auth: "t \<in> set (auth_waiting s) \<Longrightarrow> pstep s (AuthReply t err) (initWebSocket_resume t err s)"
| opened: "sock_is s i [CONNECTING] \<Longrightarrow>
    pstep s (SockOpen i) (onOpen (s\<lparr>sockets := (sockets s)[i := OPEN]\<rparr>))"
| message: "sock_is s i [OPEN, CLOSING] \<Longrightarrow> pstep s (SockMessage i p) (onMessage p s)"
| errored: "sock_is s i [CONNECTING, OPEN, CLOSING] \<Longrightarrow> pstep s (SockError i) s"
| closed: "sock_is s i [CONNECTING, OPEN, CLOSING] \<Longrightarrow>
    pstep s (SockClose i) (onClose (s\<lparr>sockets := (sockets s)[i := CLOSED]\<rparr>))"

inductive preach :: "'d pstate \<Rightarrow> bool" where
  init: "preach initial_process"
| step: "preach s \<Longrightarrow> pstep s e t \<Longrightarrow> preach t"

fun pnext :: "'d pstate \<Rightarrow> 'd event \<Rightarrow> 'd pstate option" where
  "pnext s (Fire i) = map_option (\<lambda>k. fire i k s) (map_of (timers s) i)"
| "pnext s (AuthReply t err) =
     (if t \<in> set (auth_waiting s) then Some (initWebSocket_resume t err s) else None)"
| "pnext s (SockOpen i) =
     (if sock_is s i [CONNECTING] then Some (onOpen (s\<lparr>sockets := (sockets s)[i := OPEN]\<rparr>)) else None)"
| "pnext s (SockMessage i p) = (if sock_is s i [OPEN, CLOSING] then Some (onMessage p s) else None)"
| "pnext s (SockError i) = (if sock_is s i [CONNECTING, OPEN, CLOSING] then Some s else None)"
| "pnext s (SockClose i) =
     (if sock_is s i [CONNECTING, OPEN, CLOSING]
      then Some (onClose (s\<lparr>sockets := (sockets s)[i := CLOSED]\<rparr>)) else None)"
| "pnext s e = map_option (\<lambda>f. f s) (call e)"

inductive_cases pstep_elim: "pstep s e t"

lemma pstep_iff_pnext: "pstep s e t \<longleftrightarrow> pnext s e = Some t"
proof
  show "pstep s e t \<Longrightarrow> pnext s e = Some t"
    by (induction rule: pstep.induct) (auto elim: call.elims)
next
  assume "pnext s e = Some t"
  then show "pstep s e t"
    by (cases e)
      (auto split: if_splits
        intro: pstep.fire pstep.auth pstep.opened pstep.message pstep.errored pstep.closed
          pstep.call [of _ connect] pstep.call [of _ disconnect] pstep.call [of _ initWebSocket]
          pstep.call [of _ closeWebSocket] pstep.call [of _ stopPolling]
          pstep.call [of _ "startPolling _ _"] pstep.call [of _ "sendMessage _"]
          pstep.call [of _ "updatePsSearch _ _ _"] pstep.call [of _ "updateNetSearch _ _ _"]
          pstep.call [of _ resetPsSearch] pstep.call [of _ resetNetSearch])
qed

fun prun :: "'d pstate \<Rightarrow> 'd event list \<Rightarrow> 'd pstate option" where
  "prun s [] = Some s"
| "prun s (e # es) = (case pnext s e of None \<Rightarrow> None | Some t \<Rightarrow> prun t es)"

lemma prun_preach: "preach s \<Longrightarrow> prun s es = Some t \<Longrightarrow> preach t"
  by (induction es arbitrary: s) (auto split: option.splits simp flip: pstep_iff_pnext intro: preach.step)

section \<open>What the handlers leave alone\<close>

lemma clear_timer_simps [simp]:
  "websocket (clear_timer t s) = websocket s" "sockets (clear_timer t s) = sockets s"
  "pendingRequestType (clear_timer t s) = pendingRequestType s"
  "queuedRequestType (clear_timer t s) = queuedRequestType s"
  "isPsFetching (clear_timer t s) = isPsFetching s" "isNetFetching (clear_timer t s) = isNetFetching s"
  "sent (clear_timer t s) = sent s" "connectionRefCount (clear_timer t s) = connectionRefCount s"
  "initWebSocketToken (clear_timer t s) = initWebSocketToken s"
  "auth_waiting (clear_timer t s) = auth_waiting s" "isConnecting (clear_timer t s) = isConnecting s"
  "isConnected (clear_timer t s) = isConnected s"
  "pollingTimer (clear_timer t s) = pollingTimer s" "next_timer (clear_timer t s) = next_timer s"
  "activePollingType (clear_timer t s) = activePollingType s"
  "disconnectTimer (clear_timer t s) = disconnectTimer s"
  by (cases t; simp add: clear_timer_def)+

lemma set_timer_simps [simp]:
  "websocket (set_timer k s) = websocket s" "sockets (set_timer k s) = sockets s"
  "pendingRequestType (set_timer k s) = pendingRequestType s"
  "queuedRequestType (set_timer k s) = queuedRequestType s"
  "isPsFetching (set_timer k s) = isPsFetching s" "isNetFetching (set_timer k s) = isNetFetching s"
  "sent (set_timer k s) = sent s" "connectionRefCount (set_timer k s) = connectionRefCount s"
  "initWebSocketToken (set_timer k s) = initWebSocketToken s"
  "auth_waiting (set_timer k s) = auth_waiting s" "isConnecting (set_timer k s) = isConnecting s"
  "isConnected (set_timer k s) = isConnected s"
  "pollingTimer (set_timer k s) = pollingTimer s" "next_timer (set_timer k s) = Suc (next_timer s)"
  "activePollingType (set_timer k s) = activePollingType s"
  "timers (set_timer k s) = timers s @ [(next_timer s, k)]"
  by (simp_all add: set_timer_def)

lemma ws_send_simps [simp]:
  "websocket (ws_send r s) = websocket s" "sockets (ws_send r s) = sockets s"
  "pendingRequestType (ws_send r s) = pendingRequestType s"
  "queuedRequestType (ws_send r s) = queuedRequestType s"
  "isPsFetching (ws_send r s) = isPsFetching s" "isNetFetching (ws_send r s) = isNetFetching s"
  "connectionRefCount (ws_send r s) = connectionRefCount s"
  "initWebSocketToken (ws_send r s) = initWebSocketToken s"
  "auth_waiting (ws_send r s) = auth_waiting s" "isConnecting (ws_send r s) = isConnecting s"
  "isConnected (ws_send r s) = isConnected s"
  "pollingTimer (ws_send r s) = pollingTimer s" "next_timer (ws_send r s) = next_timer s"
  "activePollingType (ws_send r s) = activePollingType s" "timers (ws_send r s) = timers s"
  "disconnectTimer (ws_send r s) = disconnectTimer s"
  by (simp_all add: ws_send_def split: option.splits)

section \<open>One request in flight\<close>

definition flight_ok :: "'d pstate \<Rightarrow> bool" where
  "flight_ok s \<longleftrightarrow> (isPsFetching s \<longleftrightarrow> pendingRequestType s = Some Ps) \<and>
     (isNetFetching s \<longleftrightarrow> pendingRequestType s = Some Net)"

named_theorems op_simps \<open>handlers that leave the request fields alone\<close>

lemma flight_clear [op_simps]: "flight_ok (clear_timer t s) = flight_ok s"
  by (simp add: flight_ok_def)

lemma flight_set [op_simps]: "flight_ok (set_timer k s) = flight_ok s"
  by (simp add: flight_ok_def)

lemma flight_doSend:
  "flight_ok s \<Longrightarrow> pendingRequestType s = None \<Longrightarrow> flight_ok (doSendMessage t s)"
  by (cases t) (simp_all add: flight_ok_def)

lemma flight_sendMessage: "flight_ok s \<Longrightarrow> flight_ok (sendMessage t s)"
  by (cases t)
    (auto simp: sendMessage_def sendPsMessage_def sendNetMessage_def intro: flight_doSend,
     auto simp: flight_ok_def)

lemma take_response_fields:
  "pendingRequestType (take_response v s) = None"
  "queuedRequestType (take_response v s) = queuedRequestType s"
  "isWsOpen (take_response v s) = isWsOpen s"
  "sent (take_response v s) = sent s"
  "websocket (take_response v s) = websocket s"
  "sockets (take_response v s) = sockets s"
  "timers (take_response v s) = timers s" "next_timer (take_response v s) = next_timer s"
  "pollingTimer (take_response v s) = pollingTimer s"
  "activePollingType (take_response v s) = activePollingType s"
  by (auto simp: take_response_def Let_def isWsOpen_def split: option.splits req.splits)

lemma flight_take_response: "flight_ok s \<Longrightarrow> flight_ok (take_response v s)"
  by (auto simp: take_response_def Let_def flight_ok_def split: option.splits req.splits)

lemma flight_onMessage:
  assumes "flight_ok s"
  shows "flight_ok (onMessage p s)"
proof (cases p)
  case (Parsed v)
  have t: "flight_ok (take_response v s)" by (rule flight_take_response) (rule assms)
  then have "flight_ok (doSendMessage q ((take_response v s)\<lparr>queuedRequestType := None\<rparr>))" for q
    by (intro flight_doSend) (simp_all add: flight_ok_def take_response_fields)
  with Parsed t show ?thesis by (simp add: onMessage_def Let_def split: option.splits)
qed (simp add: onMessage_def assms)

lemma flight_stopPolling [op_simps]: "flight_ok (stopPolling s) = flight_ok s"
  by (simp add: stopPolling_def flight_ok_def)

lemma flight_schedule: "flight_ok s \<Longrightarrow> flight_ok (scheduleInitialFetch ty d s)"
  by (simp add: scheduleInitialFetch_def flight_sendMessage op_simps)

lemma flight_upd [op_simps]:
  "flight_ok (s\<lparr>pollingTimer := x1\<rparr>) = flight_ok s"
  "flight_ok (s\<lparr>activePollingType := x2\<rparr>) = flight_ok s"
  "flight_ok (s\<lparr>isConnected := x3\<rparr>) = flight_ok s"
  "flight_ok (s\<lparr>isConnecting := x4\<rparr>) = flight_ok s"
  "flight_ok (s\<lparr>websocket := x5\<rparr>) = flight_ok s"
  "flight_ok (s\<lparr>sockets := x6\<rparr>) = flight_ok s"
  "flight_ok (s\<lparr>disconnectTimer := x7\<rparr>) = flight_ok s"
  "flight_ok (s\<lparr>connectionRefCount := x8\<rparr>) = flight_ok s"
  "flight_ok (s\<lparr>initWebSocketToken := x9\<rparr>) = flight_ok s"
  "flight_ok (s\<lparr>auth_waiting := y1\<rparr>) = flight_ok s"
  "flight_ok (s\<lparr>shown_errors := y2\<rparr>) = flight_ok s"
  "flight_ok (s\<lparr>psSearch := y3\<rparr>) = flight_ok s"
  "flight_ok (s\<lparr>netSearch := y4\<rparr>) = flight_ok s"
  by (simp_all add: flight_ok_def)

lemma flight_closeWebSocket [op_simps]: "flight_ok (closeWebSocket s) = flight_ok s"
  by (auto simp: closeWebSocket_def Let_def ws_close_def op_simps split: option.splits)

lemma flight_initWebSocket [op_simps]: "flight_ok (initWebSocket s) = flight_ok s"
  by (simp add: initWebSocket_def Let_def op_simps)

lemma flight_startPolling: "flight_ok s \<Longrightarrow> flight_ok (startPolling ty d s)"
  by (auto simp: startPolling_def Let_def op_simps intro!: flight_schedule)

lemma flight_fire: "flight_ok s \<Longrightarrow> flight_ok (fire i k s)"
  by (cases k) (auto simp: op_simps Let_def intro!: flight_sendMessage flight_schedule)

lemma flight_call: "call e = Some f \<Longrightarrow> flight_ok s \<Longrightarrow> flight_ok (f s)"
  by (cases e)
    (auto simp: connect_def disconnect_def Let_def updatePsSearch_def updateNetSearch_def
      resetPsSearch_def resetNetSearch_def op_simps flight_startPolling flight_sendMessage)

lemma flight_step: "pstep s e t \<Longrightarrow> flight_ok s \<Longrightarrow> flight_ok t"
  by (induction rule: pstep.induct)
    (auto simp: flight_call flight_fire flight_onMessage onOpen_def onClose_def
      initWebSocket_resume_def Let_def op_simps split: option.splits)

text \<open>C4: In every reachable state the two ``fetching'' flags say exactly which request is in
  flight: never both, and none when nothing is pending.\<close>

theorem process_one_in_flight:
  assumes "preach s"
  shows "(isPsFetching s \<longleftrightarrow> pendingRequestType s = Some Ps) \<and>
    (isNetFetching s \<longleftrightarrow> pendingRequestType s = Some Net)"
proof -
  from assms have "flight_ok s"
  proof (induction rule: preach.induct)
    case init
    show ?case by (simp add: flight_ok_def initial_process_def)
  next
    case (step s e t)
    then show ?case by (simp add: flight_step)
  qed
  then show ?thesis by (simp add: flight_ok_def)
qed

text \<open>A run on concrete inputs: connect, open, ask for the process list.\<close>

definition first_request :: "unit event list" where
  "first_request = [Connect, AuthReply 1 None, SockOpen 0, StartPolling Ps False]"

lemmas process_eval = connect_def disconnect_def initWebSocket_def initWebSocket_resume_def onOpen_def
  onMessage_def onClose_def closeWebSocket_def stopPolling_def startPolling_def
  scheduleInitialFetch_def sendMessage_def sendPsMessage_def sendNetMessage_def isWsOpen_def
  ws_send_def ws_close_def clear_timer_def set_timer_def sock_is_def take_response_def
  initial_process_def empty_ps_def empty_net_def Let_def

lemma first_request_run:
  "\<exists>t. prun initial_process first_request = Some t \<and> pendingRequestType t = Some Ps \<and>
     websocket t = Some 0 \<and> sockets t = [OPEN] \<and> length (sent t) = 1"
  by (simp add: first_request_def process_eval)

theorem process_one_in_flight_witness:
  "\<exists>t :: unit pstate. prun initial_process first_request = Some t \<and> isPsFetching t \<and> \<not> isNetFetching t"
proof -
  obtain t :: "unit pstate" where t: "prun initial_process first_request = Some t"
    "pendingRequestType t = Some Ps" using first_request_run by blast
  then have "preach t" using prun_preach preach.init by blast
  from process_one_in_flight [OF this] t show ?thesis by auto
qed

section \<open>One polling timer\<close>

definition polling_ok :: "'d pstate \<Rightarrow> bool" where
  "polling_ok s \<longleftrightarrow> distinct (map fst (timers s)) \<and> (\<forall>i \<in> fst ` set (timers s). i < next_timer s) \<and>
     (\<forall>i ty. (i, PollTick ty) \<in> set (timers s) \<longrightarrow>
        pollingTimer s = Some i \<and> activePollingType s = Some ty)"

lemma polling_cong:
  "timers t = timers s \<Longrightarrow> next_timer t = next_timer s \<Longrightarrow> pollingTimer t = pollingTimer s \<Longrightarrow>
   activePollingType t = activePollingType s \<Longrightarrow> polling_ok t = polling_ok s"
  by (simp add: polling_ok_def)

lemma timers_clear: "timers (clear_timer t s) = filter (\<lambda>(j, _). Some j \<noteq> t) (timers s)"
  by (cases t) (auto simp: clear_timer_def intro!: filter_cong)

lemma distinct_map_filter_fst: "distinct (map fst xs) \<Longrightarrow> distinct (map fst (filter P xs))"
  by (induction xs) auto

lemma polling_clear: "polling_ok s \<Longrightarrow> polling_ok (clear_timer t s)"
  by (auto simp: polling_ok_def timers_clear distinct_map_filter_fst)

lemma polling_set: "polling_ok s \<Longrightarrow> (\<forall>ty. k \<noteq> PollTick ty) \<Longrightarrow> polling_ok (set_timer k s)"
  by (auto simp: polling_ok_def less_Suc_eq)

lemma polling_stop: "polling_ok s \<Longrightarrow> polling_ok (stopPolling s)"
  by (auto simp: polling_ok_def stopPolling_def timers_clear distinct_map_filter_fst)

lemma no_poll_after_stop: "polling_ok s \<Longrightarrow> (i, PollTick ty) \<notin> set (timers (stopPolling s))"
  by (auto simp: polling_ok_def stopPolling_def timers_clear)

lemma doSend_timers [simp]:
  "timers (doSendMessage t s) = timers s" "next_timer (doSendMessage t s) = next_timer s"
  "pollingTimer (doSendMessage t s) = pollingTimer s"
  "activePollingType (doSendMessage t s) = activePollingType s"
  "websocket (doSendMessage t s) = websocket s" "sockets (doSendMessage t s) = sockets s"
  by (cases t; simp)+

lemma sendMessage_timers [simp]:
  "timers (sendMessage t s) = timers s" "next_timer (sendMessage t s) = next_timer s"
  "pollingTimer (sendMessage t s) = pollingTimer s"
  "activePollingType (sendMessage t s) = activePollingType s"
  "websocket (sendMessage t s) = websocket s" "sockets (sendMessage t s) = sockets s"
  by (cases t; simp add: sendMessage_def sendPsMessage_def sendNetMessage_def)+

lemma onMessage_timers [simp]:
  "timers (onMessage p s) = timers s" "next_timer (onMessage p s) = next_timer s"
  "pollingTimer (onMessage p s) = pollingTimer s"
  "activePollingType (onMessage p s) = activePollingType s"
  by (cases p; simp add: onMessage_def Let_def take_response_fields split: option.splits)+

lemma polling_sendMessage: "polling_ok (sendMessage t s) = polling_ok s"
  by (rule polling_cong) simp_all

lemma polling_schedule: "polling_ok s \<Longrightarrow> polling_ok (scheduleInitialFetch ty d s)"
  by (simp add: scheduleInitialFetch_def polling_sendMessage polling_set)

lemma polling_close: "polling_ok s \<Longrightarrow> polling_ok (closeWebSocket s)"
proof -
  assume "polling_ok s"
  then have "polling_ok (stopPolling (s\<lparr>initWebSocketToken := Suc (initWebSocketToken s)\<rparr>))"
    by (intro polling_stop) (simp add: polling_ok_def)
  then show ?thesis
    by (auto simp: closeWebSocket_def Let_def ws_close_def polling_ok_def split: option.splits)
qed

lemma schedule_no_poll:
  "(i, PollTick ty) \<in> set (timers (scheduleInitialFetch ty' d s)) \<Longrightarrow> (i, PollTick ty) \<in> set (timers s)"
  by (auto simp: scheduleInitialFetch_def split: if_splits)

lemma polling_add_poll:
  assumes "polling_ok s" "\<forall>i ty. (i, PollTick ty) \<notin> set (timers s)" "activePollingType s = Some ty"
  shows "polling_ok ((set_timer (PollTick ty) s)\<lparr>pollingTimer := Some (next_timer s)\<rparr>)"
  using assms by (auto simp: polling_ok_def less_Suc_eq)

lemma schedule_active [simp]: "activePollingType (scheduleInitialFetch ty d s) = activePollingType s"
  by (simp add: scheduleInitialFetch_def)

lemma polling_start:
  assumes "polling_ok s"
  shows "polling_ok (startPolling ty d s)"
proof -
  let ?a = "(stopPolling s)\<lparr>activePollingType := Some ty\<rparr>"
  have none: "(i, PollTick ty') \<notin> set (timers ?a)" for i ty'
    using no_poll_after_stop [OF assms] by simp
  have a: "polling_ok ?a" using polling_stop [OF assms] none by (auto simp: polling_ok_def)
  let ?b = "if isWsOpen ?a then scheduleInitialFetch ty d ?a
            else set_timer (StopCheck (next_timer ?a)) (set_timer (CheckConnection ty d) ?a)"
  have "polling_ok ?b" using a by (auto intro!: polling_schedule polling_set)
  moreover have "\<forall>i ty'. (i, PollTick ty') \<notin> set (timers ?b)"
    using none schedule_no_poll [of _ _ ty d ?a] by (auto split: if_splits)
  moreover have "activePollingType ?b = Some ty" by simp
  ultimately have "polling_ok ((set_timer (PollTick ty) ?b)\<lparr>pollingTimer := Some (next_timer ?b)\<rparr>)"
    by (rule polling_add_poll)
  then show ?thesis by (simp add: startPolling_def Let_def)
qed

lemma polling_fire: "polling_ok s \<Longrightarrow> polling_ok (fire i k s)"
  by (cases k)
    (auto simp: polling_sendMessage Let_def polling_clear polling_close intro!: polling_schedule)

lemma polling_connect: "polling_ok s \<Longrightarrow> polling_ok (connect s)"
proof -
  assume "polling_ok s"
  then have "polling_ok (clear_timer (disconnectTimer s) s)" by (rule polling_clear)
  then show ?thesis by (simp add: connect_def initWebSocket_def Let_def polling_ok_def)
qed

lemma polling_disconnect: "polling_ok s \<Longrightarrow> polling_ok (disconnect s)"
  by (auto simp: disconnect_def Let_def polling_ok_def less_Suc_eq)

lemma polling_call: "call e = Some f \<Longrightarrow> polling_ok s \<Longrightarrow> polling_ok (f s)"
  by (cases e)
    (auto simp: polling_connect polling_disconnect polling_start polling_stop polling_close
      polling_sendMessage,
     auto simp: polling_ok_def initWebSocket_def Let_def updatePsSearch_def updateNetSearch_def
      resetPsSearch_def resetNetSearch_def)

lemma polling_step: "pstep s e t \<Longrightarrow> polling_ok s \<Longrightarrow> polling_ok t"
proof (induction rule: pstep.induct)
  case (message s i p)
  then show ?case using polling_cong [of "onMessage p s" s] by simp
qed (auto simp: polling_call polling_fire,
     auto simp: polling_ok_def onOpen_def onClose_def initWebSocket_resume_def Let_def split: option.splits)

text \<open>C10: There is never more than one polling loop: in a reachable state all polling intervals are
  the one the store remembers, and it polls for the active type.  So switching pages cannot
  leave a second loop behind.\<close>

theorem process_single_poller:
  assumes "preach s"
  shows "length (filter (\<lambda>(_, k). \<exists>ty. k = PollTick ty) (timers s)) \<le> 1 \<and>
    (\<forall>(i, k) \<in> set (timers s). \<forall>ty. k = PollTick ty \<longrightarrow>
       pollingTimer s = Some i \<and> activePollingType s = Some ty)"
proof -
  from assms have ok: "polling_ok s"
  proof (induction rule: preach.induct)
    case init
    show ?case by (simp add: polling_ok_def initial_process_def)
  next
    case (step s e t)
    then show ?case by (simp add: polling_step)
  qed
  let ?l = "filter (\<lambda>(_, k). \<exists>ty. k = PollTick ty) (timers s)"
  have "set (map fst ?l) \<subseteq> set_option (pollingTimer s)"
    using ok by (auto simp: polling_ok_def)
  then have "card (set (map fst ?l)) \<le> 1"
    by (cases "pollingTimer s") (simp_all only: option.set subset_empty card.empty zero_le,
      metis card_mono card.empty card_insert_if empty_iff finite.emptyI finite_insert One_nat_def)
  moreover have "distinct (map fst ?l)" using ok by (auto simp: polling_ok_def distinct_map_filter_fst)
  then have "length ?l = card (set (map fst ?l))" using distinct_card [of "map fst ?l"] by simp
  ultimately show ?thesis using ok by (auto simp: polling_ok_def)
qed

theorem process_single_poller_witness:
  "\<exists>t :: unit pstate. prun initial_process first_request = Some t \<and>
     length (filter (\<lambda>(_, k). \<exists>ty. k = PollTick ty) (timers t)) \<le> 1"
proof -
  obtain t :: "unit pstate" where t: "prun initial_process first_request = Some t"
    using first_request_run by blast
  then have "preach t" using prun_preach preach.init by blast
  from process_single_poller [OF this] t show ?thesis by blast
qed

end
