(* ===== verification/ProcessProps.thy ===== *)
theory ProcessProps
  imports ProcessSteps
begin

text \<open>
  Safety of the process store's sends and closes, and the two ways in which it loses track of a
  connection: a request that was in flight when the socket closed, and the late close event
  of a socket it has already replaced.
\<close>

section \<open>Sends\<close>

definition extends_by :: "(nat \<times> request) list \<Rightarrow> (nat \<times> request) list \<Rightarrow> nat \<Rightarrow> bool" where
  "extends_by old new i \<longleftrightarrow> (\<exists>r. new = old @ [(i, r)])"

lemma isWsOpen_current:
  "isWsOpen s \<longleftrightarrow> (\<exists>i. websocket s = Some i \<and> i < length (sockets s) \<and> sockets s ! i = OPEN)"
  by (simp add: isWsOpen_def split: option.splits)

lemma sent_doSend:
  "isWsOpen s \<Longrightarrow> \<exists>i r. websocket s = Some i \<and> sent (doSendMessage t s) = sent s @ [(i, r)]"
  by (cases t) (auto simp: isWsOpen_current ws_send_def)

text \<open>A single send: nothing, or one request on the open current socket with none in flight.\<close>

definition good_send :: "'d pstate \<Rightarrow> 'd pstate \<Rightarrow> bool" where
  "good_send s t \<longleftrightarrow> sent t = sent s \<or>
     (\<exists>i. websocket s = Some i \<and> i < length (sockets s) \<and> sockets s ! i = OPEN \<and>
        pendingRequestType s = None \<and> extends_by (sent s) (sent t) i)"

lemma good_sendMessage: "good_send s (sendMessage ty s)"
  using sent_doSend [of s ty]
  by (cases ty)
    (auto simp: good_send_def sendMessage_def sendPsMessage_def sendNetMessage_def isWsOpen_current
      extends_by_def)

lemma good_cong:
  "sent u = sent s \<Longrightarrow> websocket u = websocket s \<Longrightarrow> sockets u = sockets s \<Longrightarrow>
   pendingRequestType u = pendingRequestType s \<Longrightarrow> good_send u t \<Longrightarrow> good_send s t"
  by (simp add: good_send_def)

lemma stop_fields [simp]:
  "sent (stopPolling s) = sent s" "websocket (stopPolling s) = websocket s"
  "sockets (stopPolling s) = sockets s" "pendingRequestType (stopPolling s) = pendingRequestType s"
  "connectionRefCount (stopPolling s) = connectionRefCount s" "pollingTimer (stopPolling s) = None"
  by (simp_all add: stopPolling_def)

lemma good_schedule: "good_send s (scheduleInitialFetch ty d s)"
  by (auto simp: scheduleInitialFetch_def good_sendMessage, simp add: good_send_def)

lemma good_startPolling: "good_send s (startPolling ty d s)"
proof -
  let ?a = "(stopPolling s)\<lparr>activePollingType := Some ty\<rparr>"
  have "good_send s (scheduleInitialFetch ty d ?a)"
    by (rule good_cong [of ?a]) (simp_all add: good_schedule)
  then show ?thesis by (auto simp: startPolling_def Let_def good_send_def)
qed

lemma good_fire: "good_send s (fire i k s)"
proof (cases k)
  case (CheckConnection ty d)
  have "good_send s (scheduleInitialFetch ty d (clear_timer (Some i) s))"
    by (rule good_cong [of "clear_timer (Some i) s"]) (simp_all add: good_schedule)
  with CheckConnection show ?thesis by (simp add: good_send_def)
next
  case (SendInitial ty)
  have "good_send s (sendMessage ty (clear_timer (Some i) s))"
    by (rule good_cong [of "clear_timer (Some i) s"]) (simp_all add: good_sendMessage)
  with SendInitial show ?thesis by simp
next
  case DisconnectCheck
  then show ?thesis
    by (auto simp: good_send_def Let_def closeWebSocket_def ws_close_def split: option.splits)
next
  case (PollTick ty)
  then show ?thesis by (simp add: good_sendMessage)
next
  case (StopCheck j)
  then show ?thesis by (simp add: good_send_def)
qed

lemma good_call: "call e = Some f \<Longrightarrow> good_send s (f s)"
  by (cases e)
    (auto simp: good_sendMessage good_startPolling,
     auto simp: good_send_def connect_def disconnect_def initWebSocket_def closeWebSocket_def
      ws_close_def Let_def updatePsSearch_def updateNetSearch_def resetPsSearch_def
      resetNetSearch_def split: option.splits)

definition parsed_message :: "'d event \<Rightarrow> bool" where
  "parsed_message e \<longleftrightarrow> (\<exists>i v. e = SockMessage i (Parsed v))"

lemma good_step:
  "pstep s e t \<Longrightarrow> \<not> parsed_message e \<Longrightarrow> good_send s t"
proof (induction rule: pstep.induct)
  case (message s i p)
  then show ?case by (cases p) (auto simp: parsed_message_def onMessage_def good_send_def)
qed (auto simp: good_call good_fire,
     auto simp: good_send_def onOpen_def onClose_def initWebSocket_resume_def Let_def split: option.splits)

lemma sent_onMessage:
  "sent (onMessage p s) = sent s \<or>
   (\<exists>i. websocket s = Some i \<and> i < length (sockets s) \<and> sockets s ! i = OPEN \<and>
        extends_by (sent s) (sent (onMessage p s)) i)"
proof (cases p)
  case (Parsed v)
  let ?t = "take_response v s"
  show ?thesis
  proof (cases "\<exists>q. queuedRequestType ?t = Some q \<and> isWsOpen ?t")
    case True
    then obtain q where q: "queuedRequestType ?t = Some q" "isWsOpen ?t" by blast
    then have "isWsOpen (?t\<lparr>queuedRequestType := None\<rparr>)" 
      by (simp add: isWsOpen_def split: option.splits)
    from sent_doSend [OF this, of q] obtain i r where
      "websocket s = Some i" "sent (doSendMessage q (?t\<lparr>queuedRequestType := None\<rparr>)) = sent s @ [(i, r)]"
      by (auto simp: take_response_fields)
    with Parsed q show ?thesis
      by (auto simp: onMessage_def Let_def extends_by_def take_response_fields isWsOpen_current)
  next
    case False
    with Parsed show ?thesis
      by (auto simp: onMessage_def Let_def take_response_fields split: option.splits)
  qed
qed (simp add: onMessage_def)

text \<open>Every step sends at most one request; it goes to the socket the store holds, which is
  open at that moment (so \<open>send\<close> cannot throw), and nothing is in flight when it is sent,
  unless the step is the response that ends the previous request.\<close>

theorem process_send_safe:
  assumes "pstep s e t"
  shows "sent t = sent s \<or>
    (\<exists>i r. sent t = sent s @ [(i, r)] \<and> websocket s = Some i \<and> i < length (sockets s) \<and>
       sockets s ! i = OPEN \<and>
       (pendingRequestType s = None \<or> (\<exists>j v. e = SockMessage j (Parsed v))))"
proof (cases "parsed_message e")
  case False
  with good_step [OF assms] show ?thesis by (auto simp: good_send_def extends_by_def)
next
  case True
  then obtain j v where e: "e = SockMessage j (Parsed v)" by (auto simp: parsed_message_def)
  with assms have "t = onMessage (Parsed v) s" by (auto simp: pstep_iff_pnext split: if_splits)
  with e sent_onMessage [of "Parsed v" s] show ?thesis by (auto simp: extends_by_def)
qed

definition opened_process :: "unit pstate" where
  "opened_process = initial_process\<lparr>websocket := Some 0, sockets := [OPEN]\<rparr>"

theorem process_send_safe_witness:
  "pstep opened_process (Send Net) (sendMessage Net opened_process) \<and>
   sent (sendMessage Net opened_process) \<noteq> sent opened_process \<and>
   (\<exists>i r. sent (sendMessage Net opened_process) = sent opened_process @ [(i, r)])"
proof -
  have "pstep opened_process (Send Net) (sendMessage Net opened_process)"
    by (simp add: pstep_iff_pnext)
  moreover have "sent (sendMessage Net opened_process) \<noteq> sent opened_process"
    by (simp add: opened_process_def process_eval)
  ultimately show ?thesis using process_send_safe by blast
qed

section \<open>A request that never gets its answer\<close>

text \<open>No handler but a parsed message takes a pending request back.\<close>

definition stuck_same :: "'d pstate \<Rightarrow> 'd pstate \<Rightarrow> bool" where
  "stuck_same s t \<longleftrightarrow> pendingRequestType t = pendingRequestType s \<and> sent t = sent s"

lemma stuck_sendMessage: "pendingRequestType s \<noteq> None \<Longrightarrow> stuck_same s (sendMessage ty s)"
  by (cases ty) (auto simp: stuck_same_def sendMessage_def sendPsMessage_def sendNetMessage_def)

lemma stuck_schedule: "pendingRequestType s \<noteq> None \<Longrightarrow> stuck_same s (scheduleInitialFetch ty d s)"
  using stuck_sendMessage [of s ty] by (simp add: scheduleInitialFetch_def stuck_same_def)

lemma stuck_startPolling: "pendingRequestType s \<noteq> None \<Longrightarrow> stuck_same s (startPolling ty d s)"
  using stuck_schedule [of "(stopPolling s)\<lparr>activePollingType := Some ty\<rparr>" ty d]
  by (auto simp: startPolling_def Let_def stuck_same_def)

lemma stuck_close: "stuck_same s (closeWebSocket s)"
  by (auto simp: stuck_same_def closeWebSocket_def ws_close_def Let_def split: option.splits)

lemma stuck_fire: "pendingRequestType s \<noteq> None \<Longrightarrow> stuck_same s (fire i k s)"
  using stuck_sendMessage [of s] stuck_sendMessage [of "clear_timer (Some i) s"]
    stuck_schedule [of "clear_timer (Some i) s"] stuck_close [of "clear_timer (Some i) s"]
  by (cases k) (auto simp: stuck_same_def Let_def)

lemma stuck_call: "call e = Some f \<Longrightarrow> pendingRequestType s \<noteq> None \<Longrightarrow> stuck_same s (f s)"
  by (cases e)
    (auto simp: stuck_sendMessage stuck_startPolling stuck_close,
     auto simp: stuck_same_def connect_def disconnect_def initWebSocket_def Let_def
      updatePsSearch_def updateNetSearch_def resetPsSearch_def resetNetSearch_def)

lemma stuck_step:
  "pstep s e t \<Longrightarrow> \<not> parsed_message e \<Longrightarrow> pendingRequestType s \<noteq> None \<Longrightarrow> stuck_same s t"
proof (induction rule: pstep.induct)
  case (message s i p)
  then show ?case by (cases p) (auto simp: parsed_message_def onMessage_def stuck_same_def)
qed (auto simp: stuck_call stuck_fire,
     auto simp: stuck_same_def onOpen_def onClose_def initWebSocket_resume_def Let_def split: option.splits)

text \<open>C27: Once a request is in flight, nothing but a well-formed answer lets the store send again:
  over any run without one (closing the socket, connecting anew, polling, timers) the pending
  request stays and nothing is sent.  The request is not forgotten when its socket closes.\<close>

theorem process_pending_blocks:
  assumes "pendingRequestType s \<noteq> None" "prun s es = Some t" "\<forall>e \<in> set es. \<not> parsed_message e"
  shows "pendingRequestType t = pendingRequestType s \<and> sent t = sent s"
  using assms
proof (induction es arbitrary: s)
  case (Cons e es)
  then obtain u where u: "pstep s e u" "prun u es = Some t"
    by (auto simp: pstep_iff_pnext split: option.splits)
  have *: "stuck_same s u" using stuck_step [OF u(1)] Cons.prems by simp
  then have "pendingRequestType t = pendingRequestType u \<and> sent t = sent u"
    using Cons.prems u(2) by (intro Cons.IH) (simp_all add: stuck_same_def)
  with * show ?case by (simp add: stuck_same_def)
qed simp

text \<open>The page is left while a request is in flight and entered again later: the new socket is
  open, polling runs, and no request goes out.\<close>

definition reconnect_run :: "unit event list" where
  "reconnect_run =
     [StopPolling, Disconnect, Fire 1, SockClose 0, Connect, AuthReply 3 None, SockOpen 1,
      StartPolling Ps False, Fire 2, Fire 2]"

theorem process_pending_blocks_witness:
  "\<exists>s t. preach s \<and> prun s reconnect_run = Some t \<and> isWsOpen t \<and> activePollingType t = Some Ps \<and>
     sent t = sent s"
proof -
  obtain s :: "unit pstate" where s: "prun initial_process first_request = Some s"
    "pendingRequestType s = Some Ps" "preach s"
    using first_request_run prun_preach preach.init by blast
  have "\<exists>t. prun s reconnect_run = Some t \<and> isWsOpen t \<and> activePollingType t = Some Ps"
    using s(1) by (auto simp: first_request_def reconnect_run_def process_eval)
  then obtain t where t: "prun s reconnect_run = Some t" "isWsOpen t" "activePollingType t = Some Ps"
    by blast
  have "\<forall>e \<in> set reconnect_run. \<not> parsed_message e"
    by (simp add: reconnect_run_def parsed_message_def)
  with process_pending_blocks [of s reconnect_run t] s t show ?thesis by auto
qed

section \<open>Closing\<close>

text \<open>The delayed close respects the pages that came back: the timer's callback closes the
  socket and ends the polling when no page is left, and only removes itself when one is.\<close>

theorem process_disconnect_check:
  "connectionRefCount (fire i DisconnectCheck s) = connectionRefCount s \<and>
   (if connectionRefCount s = 0
    then websocket (fire i DisconnectCheck s) = None \<and> pollingTimer (fire i DisconnectCheck s) = None \<and>
         \<not> isConnected (fire i DisconnectCheck s)
    else fire i DisconnectCheck s = clear_timer (Some i) s)"
  by (auto simp: Let_def closeWebSocket_def ws_close_def split: option.splits)

text \<open>An answer to an authorisation that was asked for before the last close, or after every page
  has left, makes no socket.\<close>

lemma stale_auth_no_socket:
  assumes "token \<noteq> initWebSocketToken s \<or> connectionRefCount s = 0"
  shows "sockets (initWebSocket_resume token err s) = sockets s \<and>
    websocket (initWebSocket_resume token err s) = websocket s"
  using assms by (auto simp: initWebSocket_resume_def Let_def)

text \<open>
  The close event of a socket that has been replaced: the handler does not ask whose event it
  is, so the store lets go of the new socket, which stays open, and reports no connection.
\<close>

definition late_close_run :: "unit event list" where
  "late_close_run =
     [Connect, AuthReply 1 None, SockOpen 0, Disconnect, Fire 0, Connect, AuthReply 3 None,
      SockOpen 1, SockClose 0]"

text \<open>A reachable state in which the store holds no socket and shows no connection although a
  page is connected and a socket is open: the late close event of the first socket has
  dropped the second one.\<close>

theorem process_late_close_orphans:
  "\<exists>s :: unit pstate. preach s \<and> connectionRefCount s = 1 \<and> websocket s = None \<and> \<not> isConnected s \<and>
     sockets s = [CLOSED, OPEN]"
proof -
  have "\<exists>s :: unit pstate. prun initial_process late_close_run = Some s \<and> connectionRefCount s = 1 \<and>
      websocket s = None \<and> \<not> isConnected s \<and> sockets s = [CLOSED, OPEN]"
    by (simp add: late_close_run_def process_eval)
  then show ?thesis using prun_preach preach.init by blast
qed

end
