(* ===== verification/PermissionCodes.thy ===== *)
theory PermissionCodes
  imports JsString
begin

text \<open>
  Permission codes, \<^verbatim>\<open>src/web/src/utils/permission-codes.ts\<close>: the module's two variables (the
  set of codes that only the master node may use, and the key of the list it was made from),
  and the passage from a \<open>_view\<close> code to its \<open>_manage\<close> code.
\<close>

record perm_codes =
  masterOnlyPermissionCodes :: "jstring set"
  masterOnlyPermissionCodesKey :: jstring

definition initial_codes :: perm_codes where
  "initial_codes = \<lparr>masterOnlyPermissionCodes = {}, masterOnlyPermissionCodesKey = []\<rparr>"

definition setMasterOnlyPermissionCodes :: "jstring list option \<Rightarrow> perm_codes \<Rightarrow> perm_codes" where
  "setMasterOnlyPermissionCodes permissions m =
     (let codes = filter (\<lambda>c. c \<noteq> []) (case permissions of None \<Rightarrow> [] | Some ps \<Rightarrow> ps);
          key = js_join [10] codes
      in if key = masterOnlyPermissionCodesKey m then m
         else \<lparr>masterOnlyPermissionCodes = set codes, masterOnlyPermissionCodesKey = key\<rparr>)"

text \<open>\<open>permission.replace(/_view$/, '_manage')\<close> under the test that it ends so.\<close>

definition toManageCode :: "jstring \<Rightarrow> jstring" where
  "toManageCode permission =
     (if permission = [] then []
      else if endsWith permission (lit ''_view'')
        then take (length permission - 5) permission @ lit ''_manage''
        else [])"

definition normalizeToManageCode :: "jstring \<Rightarrow> jstring" where
  "normalizeToManageCode permission =
     (if permission = [] then []
      else if toManageCode permission \<noteq> [] then toManageCode permission else permission)"

definition isMasterOnlyPermissionCode :: "perm_codes \<Rightarrow> jstring \<Rightarrow> bool" where
  "isMasterOnlyPermissionCode m permission \<longleftrightarrow> permission \<in> masterOnlyPermissionCodes m"

section \<open>Codes\<close>

lemma toManageCode_view: "toManageCode (base @ lit ''_view'') = base @ lit ''_manage''"
proof -
  have "endsWith (base @ lit ''_view'') (lit ''_view'')" by (auto simp: endsWith_iff simp del: lit_simps)
  then show ?thesis by (simp add: toManageCode_def)
qed

lemma toManageCode_Nil_iff: "toManageCode p = [] \<longleftrightarrow> \<not> (\<exists>base. p = base @ lit ''_view'')"
  by (auto simp: toManageCode_def endsWith_iff)

lemma toManageCode_cases:
  obtains (view) base where "p = base @ lit ''_view''" "toManageCode p = base @ lit ''_manage''"
    | (other) "toManageCode p = []"
  using toManageCode_Nil_iff toManageCode_view by blast

lemma manage_not_view: "toManageCode (base @ lit ''_manage'') = []"
proof -
  have "base @ lit ''_manage'' \<noteq> b @ lit ''_view''" for b
    by (auto dest: arg_cong [where f = last])
  then show ?thesis by (auto simp: toManageCode_Nil_iff)
qed

lemma toManageCode_idem: "toManageCode (toManageCode p) = []"
  by (cases p rule: toManageCode_cases) (simp_all only: manage_not_view, simp add: toManageCode_def)

lemma normalize_idem: "normalizeToManageCode (normalizeToManageCode p) = normalizeToManageCode p"
  by (auto simp: normalizeToManageCode_def toManageCode_idem)

lemma normalize_Nil_iff [simp]: "normalizeToManageCode p = [] \<longleftrightarrow> p = []"
  by (simp add: normalizeToManageCode_def)

text \<open>\<open>trim\<close> and the passage to manage codes.\<close>

lemma toManageCode_ne_start: "toManageCode p \<noteq> [] \<Longrightarrow> p \<noteq> []"
  by (auto simp: toManageCode_def)

section \<open>The cached set\<close>

definition codes_of :: "jstring list option \<Rightarrow> jstring list" where
  "codes_of permissions = filter (\<lambda>c. c \<noteq> []) (case permissions of None \<Rightarrow> [] | Some ps \<Rightarrow> ps)"

text \<open>Codes are single lines; then the joined key determines them.\<close>

definition single_lines :: "jstring list option \<Rightarrow> bool" where
  "single_lines permissions \<longleftrightarrow> (\<forall>c \<in> set (codes_of permissions). 10 \<notin> set c)"

lemma codes_key_inj:
  assumes "single_lines ps" "single_lines qs" "js_join [10] (codes_of ps) = js_join [10] (codes_of qs)"
  shows "codes_of ps = codes_of qs"
proof (cases "codes_of ps = [] \<or> codes_of qs = []")
  case True
  have "js_join [10] ws = [] \<Longrightarrow> \<forall>w \<in> set ws. w \<noteq> [] \<Longrightarrow> ws = []" for ws :: "jstring list"
    by (induction "[10 :: nat]" ws rule: js_join.induct) auto
  moreover have "\<forall>w \<in> set (codes_of xs). w \<noteq> []" for xs by (simp add: codes_of_def)
  ultimately show ?thesis using True assms(3) by (metis js_join.simps(1))
next
  case False
  then have "split_unit 10 (js_join [10] (codes_of ps)) = codes_of ps"
    "split_unit 10 (js_join [10] (codes_of qs)) = codes_of qs"
    using assms(1,2) split_join_unit [of "codes_of ps" 10] split_join_unit [of "codes_of qs" 10]
    by (simp_all add: single_lines_def)
  with assms(3) show ?thesis by metis
qed

text \<open>The module's variables belong together: the set is the one of a list with that key.\<close>

definition codes_inv :: "perm_codes \<Rightarrow> bool" where
  "codes_inv m \<longleftrightarrow> (\<exists>ps. single_lines ps \<and> masterOnlyPermissionCodes m = set (codes_of ps) \<and>
     masterOnlyPermissionCodesKey m = js_join [10] (codes_of ps))"

lemma initial_codes_inv: "codes_inv initial_codes"
  by (auto simp: codes_inv_def initial_codes_def single_lines_def codes_of_def intro!: exI [of _ None])

lemma set_codes_exact:
  assumes "codes_inv m" "single_lines ps"
  shows "masterOnlyPermissionCodes (setMasterOnlyPermissionCodes ps m) = set (codes_of ps) \<and>
    codes_inv (setMasterOnlyPermissionCodes ps m)"
proof (cases "js_join [10] (codes_of ps) = masterOnlyPermissionCodesKey m")
  case True
  from assms(1) obtain qs where qs: "single_lines qs" "masterOnlyPermissionCodes m = set (codes_of qs)"
    "masterOnlyPermissionCodesKey m = js_join [10] (codes_of qs)" by (auto simp: codes_inv_def)
  then have "codes_of ps = codes_of qs" using True assms(2) codes_key_inj by simp
  with True qs assms(1) show ?thesis
    by (simp add: setMasterOnlyPermissionCodes_def codes_of_def Let_def)
next
  case False
  then show ?thesis
    using assms(2) by (auto simp: setMasterOnlyPermissionCodes_def codes_of_def Let_def codes_inv_def)
qed

end
