(* ===== verification/GlobalStore.thy ===== *)
theory GlobalStore
  imports PermissionCodes
begin

text \<open>
  The global store, \<^verbatim>\<open>src/web/src/store/modules/global.ts\<close> with the types of
  \<^verbatim>\<open>src/web/src/store/interface/index.ts\<close>, and the page-state cache of
  \<^verbatim>\<open>src/web/src/utils/page-state-cache.ts\<close> that signing out clears.  An application state
  holds the store, the variables of the permission-codes module and the cache; objects of the
  cache are references (numbers).
\<close>

section \<open>State\<close>

datatype DeviceType = Mobile | Desktop

record theme_config =
  panelName :: jstring
  primary :: jstring
  theme :: jstring
  footer :: bool
  themeColor :: jstring
  title :: jstring
  logo :: jstring
  logoWithText :: jstring
  favicon :: jstring
  loginImage :: jstring
  loginBackground :: jstring
  loginBgType :: jstring
  loginBtnLinkColor :: jstring

record watermark_config =
  lightColor :: jstring
  darkColor :: jstring
  wm_fontSize :: int
  content :: jstring
  rotate_deg :: int
  gap :: int

record node_role =
  nodeId :: int
  nodeName :: jstring
  roleId :: int
  roleName :: jstring

record global_state =
  language :: jstring
  device :: DeviceType
  themeConfig :: theme_config
  isFullScreen :: bool
  openMenuTabs :: bool
  menuAccordion :: bool
  watermark :: "watermark_config option"
  watermarkShow :: bool
  isLoading :: bool
  loadingText :: jstring
  csrfToken :: jstring
  ignoreCaptcha :: bool
  agreeLicense :: bool
  isLogin :: bool
  entrance :: jstring
  hasNewVersion :: bool
  lastFilePath :: jstring
  currentDB :: jstring
  currentPgDB :: jstring
  currentRedisDB :: jstring
  currentMongodbDB :: jstring
  showEntranceWarn :: bool
  defaultNetwork :: jstring
  defaultIO :: jstring
  isOnRestart :: bool
  isAdmin :: bool
  permissions :: "jstring list"
  masterOnlyPermissions :: "jstring list"
  nodeRoles :: "node_role list"
  isEnterprise :: bool
  isIntl :: bool
  docWithRegion :: bool
  isFxplay :: bool
  isOffline :: bool
  isProductPro :: bool
  masterAlias :: jstring
  currentNode :: jstring
  currentNodeAddr :: jstring
  currentNodeRole :: jstring

definition initial_theme :: theme_config where
  "initial_theme =
     \<lparr>panelName = [], primary = lit ''#005eeb'', theme = lit ''auto'', footer = True, themeColor = [],
      title = [], logo = [], logoWithText = [], favicon = [], loginImage = [], loginBackground = [],
      loginBgType = [], loginBtnLinkColor = []\<rparr>"

definition initial_global :: "jstring \<Rightarrow> global_state" where
  "initial_global lang =
     \<lparr>language = lang, device = Desktop, themeConfig = initial_theme,
      isFullScreen = False, openMenuTabs = False, menuAccordion = False, watermark = None,
      watermarkShow = False, isLoading = False, loadingText = [], csrfToken = [],
      ignoreCaptcha = True, agreeLicense = False, isLogin = False, entrance = [],
      hasNewVersion = False, lastFilePath = [], currentDB = [], currentPgDB = [],
      currentRedisDB = [], currentMongodbDB = [], showEntranceWarn = True,
      defaultNetwork = lit ''all'', defaultIO = lit ''all'', isOnRestart = False,
      isAdmin = False, permissions = [], masterOnlyPermissions = [], nodeRoles = [],
      isEnterprise = False, isIntl = False, docWithRegion = True, isFxplay = False,
      isOffline = False, isProductPro = False, masterAlias = [], currentNode = lit ''local'',
      currentNodeAddr = [], currentNodeRole = []\<rparr>"

record app =
  gs :: global_state
  codes :: perm_codes
  pageStateCache :: "jstring \<rightharpoonup> nat"

section \<open>Page-state cache\<close>

text \<open>\<open>getPageState\<close> with the object the factory makes; it returns the cached object if any.\<close>

definition getPageState :: "jstring \<Rightarrow> nat \<Rightarrow> app \<Rightarrow> nat \<times> app" where
  "getPageState key made a =
     (case pageStateCache a key of
        Some st \<Rightarrow> (st, a)
      | None \<Rightarrow> (made, a\<lparr>pageStateCache := (pageStateCache a)(key \<mapsto> made)\<rparr>))"

definition clearPageStateCache :: "app \<Rightarrow> app" where
  "clearPageStateCache a = a\<lparr>pageStateCache := Map.empty\<rparr>"

section \<open>Getters\<close>

definition isDarkTheme :: "bool \<Rightarrow> global_state \<Rightarrow> bool" where
  "isDarkTheme prefersDark g \<longleftrightarrow>
     theme (themeConfig g) = lit ''dark'' \<or> (theme (themeConfig g) = lit ''auto'' \<and> prefersDark)"

definition isDarkGoldTheme :: "global_state \<Rightarrow> bool" where
  "isDarkGoldTheme g \<longleftrightarrow> primary (themeConfig g) = lit ''#F0BE96'' \<and> isProductPro g"

definition isNodeAdmin :: "global_state \<Rightarrow> bool" where
  "isNodeAdmin g \<longleftrightarrow>
     list_ex (\<lambda>item. nodeName item = currentNode g \<and> roleName item = lit ''Node Admin'') (nodeRoles g)"

definition isAdminOrNodeAdmin :: "global_state \<Rightarrow> bool" where
  "isAdminOrNodeAdmin g \<longleftrightarrow> isAdmin g \<or>
     list_ex (\<lambda>item. nodeName item = currentNode g \<and> roleName item = lit ''Node Admin'') (nodeRoles g)"

definition CN_DOCS_URL :: jstring where "CN_DOCS_URL = lit ''https://www.zoomtk.com/docs''"
definition INTL_DOCS_URL :: jstring where "INTL_DOCS_URL = lit ''https://www.zoomtk.com/docs''"

definition docsUrl :: "global_state \<Rightarrow> jstring" where
  "docsUrl g =
     (if docWithRegion g then (if isIntl g then INTL_DOCS_URL else CN_DOCS_URL)
      else if toLowerCase (language g) = lit ''zh'' then CN_DOCS_URL else INTL_DOCS_URL)"

definition isMaster :: "global_state \<Rightarrow> bool" where
  "isMaster g \<longleftrightarrow>
     (if currentNodeRole g \<noteq> [] then currentNodeRole g = lit ''primary'' else currentNode g = lit ''local'')"

definition isMobile :: "global_state \<Rightarrow> bool" where
  "isMobile g \<longleftrightarrow> device g = Mobile"

definition isXpackOrEE :: "global_state \<Rightarrow> bool" where
  "isXpackOrEE g \<longleftrightarrow> isEnterprise g \<or> isProductPro g"

definition isEE :: "global_state \<Rightarrow> bool" where
  "isEE g \<longleftrightarrow> isEnterprise g"

section \<open>Actions\<close>

definition setScreenFull :: "app \<Rightarrow> app" where
  "setScreenFull a = a\<lparr>gs := (gs a)\<lparr>isFullScreen := \<not> isFullScreen (gs a)\<rparr>\<rparr>"

definition setLogStatus :: "bool \<Rightarrow> app \<Rightarrow> app" where
  "setLogStatus login a = a\<lparr>gs := (gs a)\<lparr>isLogin := login\<rparr>\<rparr>"

record auth_payload =
  au_isAdmin :: bool
  au_permissions :: "jstring list option"
  au_masterOnly :: "jstring list option"
  au_nodeRoles :: "node_role list option"

definition or_nil :: "'a list option \<Rightarrow> 'a list" where
  "or_nil v = (case v of None \<Rightarrow> [] | Some xs \<Rightarrow> xs)"

definition setAuthInfo :: "auth_payload \<Rightarrow> app \<Rightarrow> app" where
  "setAuthInfo payload a =
     (let g = (gs a)\<lparr>isAdmin := au_isAdmin payload, permissions := or_nil (au_permissions payload),
                     masterOnlyPermissions := or_nil (au_masterOnly payload),
                     nodeRoles := or_nil (au_nodeRoles payload)\<rparr>
      in a\<lparr>gs := g, codes := setMasterOnlyPermissionCodes (Some (masterOnlyPermissions g)) (codes a)\<rparr>)"

definition clearAuthInfo :: "app \<Rightarrow> app" where
  "clearAuthInfo a0 =
     (let a = clearPageStateCache a0 in
      a\<lparr>gs := (gs a)\<lparr>permissions := [], masterOnlyPermissions := [], nodeRoles := [], isAdmin := False\<rparr>,
        codes := setMasterOnlyPermissionCodes (Some []) (codes a)\<rparr>)"

text \<open>The answer and the state after the module's set has been brought up to date.\<close>

definition hasPermission :: "jstring \<Rightarrow> app \<Rightarrow> bool \<times> app" where
  "hasPermission permission a =
     (let g = gs a;
          m = setMasterOnlyPermissionCodes (Some (masterOnlyPermissions g)) (codes a);
          normalizedPermission = trim permission;
          managePermission = toManageCode normalizedPermission;
          answer =
            (if normalizedPermission = [] then False
             else if \<not> isMaster g \<and> isMasterOnlyPermissionCode m normalizedPermission then False
             else if isAdmin g then True
             else if normalizedPermission \<in> set (permissions g) then True
             else if managePermission = [] then False
             else if \<not> isMaster g \<and> isMasterOnlyPermissionCode m managePermission then False
             else managePermission \<in> set (permissions g))
      in (answer, a\<lparr>codes := m\<rparr>))"

definition updateLanguage :: "(jstring \<Rightarrow> jstring) \<Rightarrow> jstring \<Rightarrow> app \<Rightarrow> jstring \<times> app" where
  "updateLanguage setActiveLocale lang a =
     (let activeLocale = setActiveLocale lang in (activeLocale, a\<lparr>gs := (gs a)\<lparr>language := activeLocale\<rparr>\<rparr>))"

definition toggleDevice :: "DeviceType \<Rightarrow> app \<Rightarrow> app" where
  "toggleDevice value a = a\<lparr>gs := (gs a)\<lparr>device := value\<rparr>\<rparr>"

definition getMasterAlias :: "jstring \<Rightarrow> app \<Rightarrow> jstring" where
  "getMasterAlias translated a = (if masterAlias (gs a) \<noteq> [] then masterAlias (gs a) else translated)"

end
