(* ===== verification/Permission.thy ===== *)
theory Permission
  imports GlobalStore Prelude
begin

text \<open>
  Access checks: \<^verbatim>\<open>src/web/src/utils/rbac.ts\<close>, \<^verbatim>\<open>src/web/src/utils/permission.ts\<close> and
  \<^verbatim>\<open>src/web/src/composables/useMenuManagePermission.ts\<close>.  \<open>hasPermission\<close> of the store brings
  the permission-codes module up to date on every call, so a check returns its answer with the
  application state, and \<open>some\<close> and \<open>every\<close> stop at the first answer that settles them.
\<close>

section \<open>Stateful queries\<close>

type_synonym 'q query = "'q \<Rightarrow> app \<Rightarrow> bool \<times> app"

fun some_st :: "('q \<Rightarrow> 's \<Rightarrow> bool \<times> 's) \<Rightarrow> 'q list \<Rightarrow> 's \<Rightarrow> bool \<times> 's" where
  "some_st ask [] s = (False, s)"
| "some_st ask (q # qs) s = (let (b, t) = ask q s in if b then (True, t) else some_st ask qs t)"

fun every_st :: "('q \<Rightarrow> 's \<Rightarrow> bool \<times> 's) \<Rightarrow> 'q list \<Rightarrow> 's \<Rightarrow> bool \<times> 's" where
  "every_st ask [] s = (True, s)"
| "every_st ask (q # qs) s = (let (b, t) = ask q s in if b then every_st ask qs t else (False, t))"

text \<open>
  What a caller relies on: the answer is a function of the part of the state that queries do not
  change, as long as an invariant holds, which queries keep.
\<close>

locale pure_query =
  fixes ask :: "'q \<Rightarrow> 's \<Rightarrow> bool \<times> 's" and inv :: "'s \<Rightarrow> bool"
    and view :: "'s \<Rightarrow> 'v" and ans :: "'q \<Rightarrow> 'v \<Rightarrow> bool"
  assumes ask_ans: "inv s \<Longrightarrow> fst (ask q s) = ans q (view s)"
    and ask_view: "inv s \<Longrightarrow> view (snd (ask q s)) = view s"
    and ask_inv: "inv s \<Longrightarrow> inv (snd (ask q s))"
begin

lemma some_query:
  "inv s \<Longrightarrow> fst (some_st ask qs s) = (\<exists>q \<in> set qs. ans q (view s)) \<and>
     view (snd (some_st ask qs s)) = view s \<and> inv (snd (some_st ask qs s))"
proof (induction qs arbitrary: s)
  case (Cons q qs)
  obtain b t where t: "ask q s = (b, t)" by fastforce
  with Cons.prems have "b = ans q (view s)" "view t = view s" "inv t"
    using ask_ans [of s q] ask_view [of s q] ask_inv [of s q] by simp_all
  with t Cons.IH [of t] show ?case by auto
qed simp

lemma every_query:
  "inv s \<Longrightarrow> fst (every_st ask qs s) = (\<forall>q \<in> set qs. ans q (view s)) \<and>
     view (snd (every_st ask qs s)) = view s \<and> inv (snd (every_st ask qs s))"
proof (induction qs arbitrary: s)
  case (Cons q qs)
  obtain b t where t: "ask q s = (b, t)" by fastforce
  with Cons.prems have "b = ans q (view s)" "view t = view s" "inv t"
    using ask_ans [of s q] ask_view [of s q] ask_inv [of s q] by simp_all
  with t Cons.IH [of t] show ?case by auto
qed simp

end

section \<open>Routes\<close>

datatype perm_value = PStr jstring | PArr "jstring list"

text \<open>The fields of a route's \<open>meta\<close> that the code reads, and a resolved route.  A query key
  without a value is \<open>null\<close>, \<open>None\<close> here.\<close>

record route_meta =
  adminOnly :: bool
  protectedRoleOnly :: bool
  permission :: "perm_value option"
  activeMenu :: jstring
  ignoreTab :: bool

record route_record =
  rec_path :: jstring
  rec_meta :: "route_meta option"

record route =
  rt_name :: "jstring option"
  rt_path :: jstring
  rt_meta :: route_meta
  matched :: "route_record list"
  rt_hash :: jstring
  query :: "(jstring \<times> jstring option) list"
  code_param :: "jstring option"

definition empty_meta :: route_meta where
  "empty_meta = \<lparr>adminOnly = False, protectedRoleOnly = False, permission = None, activeMenu = [],
     ignoreTab = False\<rparr>"

section \<open>rbac.ts\<close>

record user_info =
  role :: jstring
  ui_permissions :: "jstring list option"
  ui_masterOnly :: "jstring list option"
  ui_nodeRoles :: "node_role list option"

text \<open>The answers of the two endpoints are arguments; the enterprise one is asked for a node.\<close>

definition syncAuthInfo ::
  "user_info \<Rightarrow> (jstring \<Rightarrow> user_info) \<Rightarrow> jstring option \<Rightarrow> app \<Rightarrow> user_info \<times> app" where
  "syncAuthInfo getUserInfo getEnterpriseUserInfo node a =
     (let storeCurrentNode = currentNode (gs a);
          res = (if \<not> isEnterprise (gs a) then getUserInfo
                 else getEnterpriseUserInfo (case node of None \<Rightarrow> storeCurrentNode | Some n \<Rightarrow> n))
      in (res, setAuthInfo
            \<lparr>au_isAdmin = (role res = lit ''ADMIN''), au_permissions = Some (or_nil (ui_permissions res)),
             au_masterOnly = Some (or_nil (ui_masterOnly res)),
             au_nodeRoles = Some (or_nil (ui_nodeRoles res))\<rparr> a))"

definition hasPermissionMetaAccess :: "perm_value option \<Rightarrow> app \<Rightarrow> bool \<times> app" where
  "hasPermissionMetaAccess p a =
     (case p of
        None \<Rightarrow> (True, a)
      | Some (PArr ps) \<Rightarrow>
          (let permissions = filter (\<lambda>x. x \<noteq> []) ps in
           if permissions = [] then (True, a) else some_st hasPermission permissions a)
      | Some (PStr s) \<Rightarrow> if s = [] then (True, a) else hasPermission s a)"

definition hasRouteRoleAccess :: "route_meta option \<Rightarrow> global_state \<Rightarrow> bool" where
  "hasRouteRoleAccess meta g =
     (case meta of
        None \<Rightarrow> True
      | Some m \<Rightarrow>
          if isAdmin g then True
          else if adminOnly m \<and> \<not> isAdmin g then False
          else if protectedRoleOnly m then isNodeAdmin g
          else True)"

definition meta_permission :: "route_record \<Rightarrow> perm_value option" where
  "meta_permission r = (case rec_meta r of None \<Rightarrow> None | Some m \<Rightarrow> permission m)"

definition hasRoutePermissionAccess :: "route \<Rightarrow> app \<Rightarrow> bool \<times> app" where
  "hasRoutePermissionAccess r a =
     every_st (\<lambda>record. hasPermissionMetaAccess (meta_permission record)) (matched r) a"

definition hasRouteAccess :: "route \<Rightarrow> app \<Rightarrow> bool \<times> app" where
  "hasRouteAccess r a =
     (if list_all (\<lambda>record. hasRouteRoleAccess (rec_meta record) (gs a)) (matched r)
      then hasRoutePermissionAccess r a else (False, a))"

section \<open>permission.ts\<close>

text \<open>A permission that settles the search: a non-empty string, or any list.\<close>

definition settles :: "perm_value option \<Rightarrow> bool" where
  "settles p = (case p of None \<Rightarrow> False | Some (PStr s) \<Rightarrow> s \<noteq> [] | Some (PArr _) \<Rightarrow> True)"

definition getRoutePermission :: "route \<Rightarrow> perm_value" where
  "getRoutePermission r =
     (if settles (permission (rt_meta r)) then the (permission (rt_meta r))
      else case find (\<lambda>record. settles (meta_permission record)) (rev (matched r)) of
        Some record \<Rightarrow> the (meta_permission record)
      | None \<Rightarrow> PStr [])"

definition toPermissionList :: "route \<Rightarrow> perm_value option \<Rightarrow> jstring list" where
  "toPermissionList r value =
     (case value of
        Some (PArr ps) \<Rightarrow> filter (\<lambda>p. trim p \<noteq> []) ps
      | _ \<Rightarrow>
        (let routePermission = (case getRoutePermission r of
               PArr ps \<Rightarrow> ps
             | PStr s \<Rightarrow> if s \<noteq> [] then [s] else [])
         in case value of
              Some (PStr s) \<Rightarrow> if trim s \<noteq> [] then [s] else routePermission
            | _ \<Rightarrow> routePermission))"

datatype permission_mode = Manage | View

definition hasPermissionAccessByMode ::
  "permission_mode \<Rightarrow> route \<Rightarrow> perm_value option \<Rightarrow> bool \<Rightarrow> app \<Rightarrow> bool \<times> app" where
  "hasPermissionAccessByMode mode r value nodeAdmin a =
     (if nodeAdmin \<and> isNodeAdmin (gs a) then (True, a)
      else
        let ps = toPermissionList r value;
            normalizedPermissions =
              (if mode = Manage then filter (\<lambda>p. p \<noteq> []) (map normalizeToManageCode ps) else ps)
        in if normalizedPermissions = [] then (isAdmin (gs a), a)
           else some_st hasPermission normalizedPermissions a)"

definition hasManagePermissionAccess :: "route \<Rightarrow> perm_value option \<Rightarrow> bool \<Rightarrow> app \<Rightarrow> bool \<times> app" where
  "hasManagePermissionAccess = hasPermissionAccessByMode Manage"

definition hasPermissionAccess :: "route \<Rightarrow> perm_value option \<Rightarrow> bool \<Rightarrow> app \<Rightarrow> bool \<times> app" where
  "hasPermissionAccess = hasPermissionAccessByMode View"

section \<open>useMenuManagePermission.ts\<close>

text \<open>The composable has its own copy of the route search.\<close>

definition menu_getRoutePermission :: "route \<Rightarrow> perm_value" where
  "menu_getRoutePermission r =
     (if settles (permission (rt_meta r)) then the (permission (rt_meta r))
      else case find (\<lambda>record. settles (meta_permission record)) (rev (matched r)) of
        Some record \<Rightarrow> the (meta_permission record)
      | None \<Rightarrow> PStr [])"

definition toManagePermissionValue :: "perm_value \<Rightarrow> perm_value" where
  "toManagePermissionValue p =
     (case p of
        PArr ps \<Rightarrow> PArr (filter (\<lambda>x. x \<noteq> []) (map normalizeToManageCode ps))
      | PStr s \<Rightarrow> PStr (normalizeToManageCode s))"

text \<open>\<open>value || []\<close>: the empty string becomes the empty list.\<close>

definition or_list :: "perm_value \<Rightarrow> perm_value" where
  "or_list p = (case p of PStr s \<Rightarrow> if s = [] then PArr [] else p | PArr _ \<Rightarrow> p)"

definition sourcePermission :: "route \<Rightarrow> perm_value option \<Rightarrow> perm_value" where
  "sourcePermission r p =
     (case p of
        None \<Rightarrow> menu_getRoutePermission r
      | Some (PStr s) \<Rightarrow> if s = [] then menu_getRoutePermission r else PStr s
      | Some (PArr ps) \<Rightarrow> PArr ps)"

record menu_permission =
  managePermission :: perm_value
  hasAdminManagePermission :: bool
  mp_hasPermission :: bool
  hasManagePermission :: bool

definition useMenuManagePermission :: "route \<Rightarrow> perm_value option \<Rightarrow> app \<Rightarrow> menu_permission" where
  "useMenuManagePermission r p a =
     (let source = sourcePermission r p; manage = toManagePermissionValue source in
      \<lparr>managePermission = manage,
       hasAdminManagePermission = isAdmin (gs a) \<or> isNodeAdmin (gs a),
       mp_hasPermission = fst (hasPermissionAccess r (Some (or_list source)) False a),
       hasManagePermission = fst (hasManagePermissionAccess r (Some (or_list manage)) False a)\<rparr>)"

definition useCan :: "route \<Rightarrow> perm_value option \<Rightarrow> app \<Rightarrow> bool" where
  "useCan r p a = mp_hasPermission (useMenuManagePermission r p a)"

end
