(* ===== verification/Nodes.thy ===== *)
theory Nodes
  imports GlobalStore
begin

text \<open>
  The node that the panel works on: \<^verbatim>\<open>src/web/src/utils/node.ts\<close>, and the two pages that
  switch it, \<^verbatim>\<open>views/advanced/multi-node/index.vue\<close> and \<^verbatim>\<open>views/home/index.vue\<close>.  Answers of
  the node endpoints are arguments.
\<close>

section \<open>node.ts\<close>

text \<open>The fields of a node that switching reads; \<open>undefined\<close> and other falsy roles are the empty text.\<close>

record node_item =
  ni_name :: jstring
  ni_addr :: jstring
  ni_role :: jstring

definition normalizeNodeRole :: "jstring \<Rightarrow> jstring" where
  "normalizeNodeRole v =
     (let role = toLowerCase (trim v) in
      if role = lit ''primary'' \<or> role = lit ''secondary'' then role else [])"

text \<open>The endpoint fails (\<open>None\<close>), or answers with data or without.\<close>

definition listNodes :: "node_item list option option \<Rightarrow> node_item list" where
  "listNodes res = (case res of None \<Rightarrow> [] | Some data \<Rightarrow> (case data of None \<Rightarrow> [] | Some ns \<Rightarrow> ns))"

definition set_node :: "jstring \<Rightarrow> jstring \<Rightarrow> jstring \<Rightarrow> app \<Rightarrow> app" where
  "set_node node address nrole a =
     a\<lparr>gs := (gs a)\<lparr>currentNode := node, currentNodeAddr := address, currentNodeRole := nrole\<rparr>\<rparr>"

definition setDefaultNodeInfo :: "app \<Rightarrow> app" where
  "setDefaultNodeInfo a = set_node (lit ''local'') (lit ''127.0.0.1'') [] a"

definition changeToLocal :: "node_item list option option \<Rightarrow> app \<Rightarrow> app" where
  "changeToLocal res a =
     (let nodes = listNodes res in
      case nodes of
        [] \<Rightarrow> setDefaultNodeInfo a
      | first # _ \<Rightarrow>
          (case (if isAdmin (gs a) then find (\<lambda>item. ni_name item = lit ''local'') nodes else None) of
             Some item \<Rightarrow> set_node (lit ''local'') (ni_addr item) (normalizeNodeRole (ni_role item)) a
           | None \<Rightarrow> set_node (ni_name first) (ni_addr first) (normalizeNodeRole (ni_role first)) a))"

text \<open>The role endpoint fails (\<open>None\<close>), or answers with a role and a node id, each possibly empty.\<close>

definition loadCurrentNodeRole :: "(jstring \<times> jstring) option \<Rightarrow> app \<Rightarrow> jstring \<times> app" where
  "loadCurrentNodeRole res a =
     (case res of
        None \<Rightarrow> (currentNodeRole (gs a), a)
      | Some (r, i) \<Rightarrow>
          (let role = normalizeNodeRole r; nodeID = trim i;
               a = (if role \<noteq> [] then a\<lparr>gs := (gs a)\<lparr>currentNodeRole := role\<rparr>\<rparr> else a);
               a = (if nodeID \<noteq> [] \<and> currentNode (gs a) = lit ''local''
                    then a\<lparr>gs := (gs a)\<lparr>currentNodeRole := role\<rparr>\<rparr> else a)
           in (role, a)))"

section \<open>The pages that switch nodes\<close>

definition selectNode :: "node_item \<Rightarrow> app \<Rightarrow> app" where
  "selectNode node a = set_node (ni_name node) (ni_addr node) (normalizeNodeRole (ni_role node)) a"

text \<open>A row's \<open>nodeId\<close>, \<open>id\<close> and \<open>name\<close>, empty if missing.  The role is left as it was.\<close>

definition jumpPanel :: "jstring \<Rightarrow> jstring \<Rightarrow> jstring \<Rightarrow> app \<Rightarrow> app" where
  "jumpPanel row_nodeId row_id row_name a =
     (let targetNode = trim (if row_nodeId \<noteq> [] then row_nodeId else if row_id \<noteq> [] then row_id else row_name)
      in if targetNode = [] then a
         else a\<lparr>gs := (gs a)\<lparr>currentNode := targetNode, currentNodeAddr := []\<rparr>\<rparr>)"

section \<open>Lemmas\<close>

text \<open>Switching nodes leaves the rights alone.\<close>

definition same_rights :: "app \<Rightarrow> app \<Rightarrow> bool" where
  "same_rights a b \<longleftrightarrow> codes b = codes a \<and> permissions (gs b) = permissions (gs a) \<and>
     masterOnlyPermissions (gs b) = masterOnlyPermissions (gs a) \<and> isAdmin (gs b) = isAdmin (gs a)"

lemma set_node_rights [simp]: "same_rights a (set_node n d r a)"
  by (simp add: same_rights_def set_node_def)

lemma changeToLocal_rights [simp]: "same_rights a (changeToLocal res a)"
  by (auto simp: changeToLocal_def setDefaultNodeInfo_def Let_def split: list.splits option.splits)

lemma loadCurrentNodeRole_rights [simp]: "same_rights a (snd (loadCurrentNodeRole res a))"
  by (auto simp: loadCurrentNodeRole_def same_rights_def Let_def split: option.splits)

lemma selectNode_rights [simp]: "same_rights a (selectNode node a)"
  by (simp add: selectNode_def)

lemma jumpPanel_rights [simp]: "same_rights a (jumpPanel i j n a)"
  by (simp add: jumpPanel_def same_rights_def Let_def)

text \<open>After a fall-back to the local node, the node and its address are the local ones or those of
  a listed node.\<close>

lemma changeToLocal_listed:
  "(currentNode (gs (changeToLocal res a)), currentNodeAddr (gs (changeToLocal res a))) \<in>
     insert (lit ''local'', lit ''127.0.0.1'') ((\<lambda>n. (ni_name n, ni_addr n)) ` set (listNodes res))"
proof (cases "listNodes res")
  case Nil
  then show ?thesis by (simp add: changeToLocal_def setDefaultNodeInfo_def set_node_def)
next
  case (Cons n ns)
  show ?thesis
  proof (cases "if isAdmin (gs a) then find (\<lambda>item. ni_name item = lit ''local'') (n # ns) else None")
    case None
    with Cons show ?thesis by (simp add: changeToLocal_def set_node_def)
  next
    case (Some m)
    then have m: "m \<in> set (n # ns)" "ni_name m = lit ''local''"
      by (auto simp: find_Some_iff split: if_splits simp del: lit_simps)
    have "(lit ''local'', ni_addr m) \<in> (\<lambda>n. (ni_name n, ni_addr n)) ` set (n # ns)"
      by (rule image_eqI [OF _ m(1)]) (simp only: m(2))
    with Some Cons show ?thesis
      by (simp add: changeToLocal_def set_node_def del: lit_simps)
  qed
qed

end
