(* ===== verification/PermissionProps.thy ===== *)
theory PermissionProps
  imports Permission Nodes
begin

text \<open>
  Access control of the front end: what a permission check answers as a function of the signed-in
  state alone, the precedence of the master-only restriction, the relation of \<open>_view\<close> and
  \<open>_manage\<close> codes, and the access to a route as a conjunction over its records.
\<close>

section \<open>The answer of a check\<close>

definition restricted :: "jstring \<Rightarrow> global_state \<Rightarrow> bool" where
  "restricted code g \<longleftrightarrow> \<not> isMaster g \<and> code \<in> set (masterOnlyPermissions g)"

definition permitted :: "jstring \<Rightarrow> global_state \<Rightarrow> bool" where
  "permitted p g \<longleftrightarrow>
     (let code = trim p; manage = toManageCode code in
      code \<noteq> [] \<and> \<not> restricted code g \<and>
      (isAdmin g \<or> code \<in> set (permissions g) \<or>
       (manage \<noteq> [] \<and> \<not> restricted manage g \<and> manage \<in> set (permissions g))))"

text \<open>Master-only codes are single lines, and the module's variables fit together.\<close>

definition app_inv :: "app \<Rightarrow> bool" where
  "app_inv a \<longleftrightarrow> codes_inv (codes a) \<and> (\<forall>c \<in> set (masterOnlyPermissions (gs a)). 10 \<notin> set c)"

lemma app_inv_single: "app_inv a \<Longrightarrow> single_lines (Some (masterOnlyPermissions (gs a)))"
  by (auto simp: app_inv_def single_lines_def codes_of_def)

lemma restricted_codes:
  assumes "app_inv a" "code \<noteq> []"
  shows "\<not> isMaster (gs a) \<and>
      isMasterOnlyPermissionCode (setMasterOnlyPermissionCodes (Some (masterOnlyPermissions (gs a))) (codes a)) code
    \<longleftrightarrow> restricted code (gs a)"
proof -
  have "masterOnlyPermissionCodes (setMasterOnlyPermissionCodes (Some (masterOnlyPermissions (gs a))) (codes a))
      = set (codes_of (Some (masterOnlyPermissions (gs a))))"
    using set_codes_exact [OF _ app_inv_single [OF assms(1)]] assms(1) by (simp add: app_inv_def)
  with assms(2) show ?thesis
    by (auto simp: isMasterOnlyPermissionCode_def restricted_def codes_of_def)
qed

lemma hasPermission_ans: "app_inv a \<Longrightarrow> fst (hasPermission p a) = permitted p (gs a)"
  using restricted_codes [of a "trim p"] restricted_codes [of a "toManageCode (trim p)"]
  by (auto simp: hasPermission_def permitted_def Let_def)

lemma hasPermission_gs [simp]: "gs (snd (hasPermission p a)) = gs a"
  by (simp add: hasPermission_def Let_def)

lemma hasPermission_inv: "app_inv a \<Longrightarrow> app_inv (snd (hasPermission p a))"
  using set_codes_exact [OF _ app_inv_single, of "codes a" a]
  by (simp add: hasPermission_def Let_def app_inv_def)

interpretation perm: pure_query hasPermission app_inv gs permitted
  by unfold_locales (simp_all add: hasPermission_ans hasPermission_inv)

section \<open>Reachable application states\<close>

text \<open>The events that change the store: the actions of the store itself, a check, the pages that switch
  the node, and a page load.  The side bar's node menu (\<^verbatim>\<open>Collapse.vue\<close>) assigns the same three
  fields as \<open>SelectNode\<close>, falls back by \<open>ChangeToLocal\<close>, asks for the role by \<open>NodeRole\<close> and signs
  the user in again for the new node by \<open>SetAuth\<close>.\<close>

datatype app_event =
    SetAuth auth_payload
  | ClearAuth
  | LogStatus bool
  | Screen
  | Toggle DeviceType
  | PageState jstring nat
  | Ask jstring
  | Language jstring
  | SelectNode node_item
  | JumpPanel jstring jstring jstring
  | ChangeToLocal "node_item list option option"
  | NodeRole "(jstring \<times> jstring) option"
  | ReloadPage global_state

text \<open>Payloads of the server and the store that a page load finds in the browser's storage: their
  master-only codes are single lines.\<close>

fun sane_event :: "app_event \<Rightarrow> bool" where
  "sane_event (SetAuth p) = (\<forall>c \<in> set (or_nil (au_masterOnly p)). 10 \<notin> set c)"
| "sane_event (ReloadPage g) = (\<forall>c \<in> set (masterOnlyPermissions g). 10 \<notin> set c)"
| "sane_event _ = True"

text \<open>A page load: the store is persisted (\<^verbatim>\<open>config/pinia-persist.ts\<close>) and comes back as it was
  written last, by this page or by another one of the same browser; the variables of the
  permission-codes module and the page-state cache start anew.\<close>

definition load_page :: "global_state \<Rightarrow> app" where
  "load_page g = \<lparr>gs = g, codes = initial_codes, pageStateCache = Map.empty\<rparr>"

fun app_step :: "app \<Rightarrow> app_event \<Rightarrow> app" where
  "app_step a (SetAuth p) = setAuthInfo p a"
| "app_step a ClearAuth = clearAuthInfo a"
| "app_step a (LogStatus b) = setLogStatus b a"
| "app_step a Screen = setScreenFull a"
| "app_step a (Toggle d) = toggleDevice d a"
| "app_step a (PageState k n) = snd (getPageState k n a)"
| "app_step a (Ask p) = snd (hasPermission p a)"
| "app_step a (Language l) = snd (updateLanguage id l a)"
| "app_step a (SelectNode node) = selectNode node a"
| "app_step a (JumpPanel i j n) = jumpPanel i j n a"
| "app_step a (ChangeToLocal res) = changeToLocal res a"
| "app_step a (NodeRole res) = snd (loadCurrentNodeRole res a)"
| "app_step a (ReloadPage g) = load_page g"

definition initial_app :: app where
  "initial_app = \<lparr>gs = initial_global (lit ''en''), codes = initial_codes, pageStateCache = Map.empty\<rparr>"

lemma same_rights_inv: "same_rights a b \<Longrightarrow> app_inv a \<Longrightarrow> app_inv b"
  by (simp add: same_rights_def app_inv_def)

lemma app_step_inv: "app_inv a \<Longrightarrow> sane_event e \<Longrightarrow> app_inv (app_step a e)"
proof (cases e)
  case (SetAuth p)
  assume "app_inv a" "sane_event e"
  moreover from this SetAuth have "single_lines (Some (or_nil (au_masterOnly p)))"
    by (auto simp: single_lines_def codes_of_def)
  ultimately show ?thesis
    using SetAuth set_codes_exact [of "codes a"] by (auto simp: setAuthInfo_def Let_def app_inv_def)
next
  case ClearAuth
  assume "app_inv a"
  moreover have "single_lines (Some [])" by (simp add: single_lines_def codes_of_def)
  ultimately show ?thesis
    using ClearAuth set_codes_exact [of "codes a"]
    by (auto simp: clearAuthInfo_def clearPageStateCache_def Let_def app_inv_def)
next
  case (Ask p)
  then show "app_inv a \<Longrightarrow> ?thesis" by (simp add: hasPermission_inv)
next
  case (ReloadPage g)
  moreover assume "sane_event e"
  ultimately show ?thesis by (simp add: app_inv_def load_page_def initial_codes_inv)
next
  case (SelectNode node)
  then show "app_inv a \<Longrightarrow> ?thesis" by (simp add: same_rights_inv [OF selectNode_rights])
next
  case (JumpPanel i j n)
  then show "app_inv a \<Longrightarrow> ?thesis" by (simp add: same_rights_inv [OF jumpPanel_rights])
next
  case (ChangeToLocal res)
  then show "app_inv a \<Longrightarrow> ?thesis" by (simp add: same_rights_inv [OF changeToLocal_rights])
next
  case (NodeRole res)
  then show "app_inv a \<Longrightarrow> ?thesis" by (simp add: same_rights_inv [OF loadCurrentNodeRole_rights])
qed (auto simp: app_inv_def setLogStatus_def setScreenFull_def toggleDevice_def getPageState_def
    updateLanguage_def split: option.splits)

definition sane_step :: "app \<Rightarrow> app_event \<Rightarrow> app" where
  "sane_step a e = (if sane_event e then app_step a e else a)"

interpretation app_sys: step_system sane_step app_inv
  by unfold_locales (simp add: sane_step_def app_step_inv)

text \<open>C2: Whatever sign-ins, sign-outs, checks, switches of the node, changes of its role and page
  loads came before (a page load brings the stored rights back and forgets the cached set of
  master-only codes), the answer of \<open>hasPermission\<close> is the one the signed-in state gives
  (\<open>permitted\<close>): the cached set is never stale, and on every node but the master a reserved
  code is refused, as long as the master-only codes of the server and of the storage are single
  lines.\<close>

theorem permission_answer_fresh:
  "fst (hasPermission p (foldl sane_step initial_app es)) =
     permitted p (gs (foldl sane_step initial_app es))"
proof -
  have "app_inv initial_app"
    by (simp add: app_inv_def initial_app_def initial_codes_inv initial_global_def)
  then have "app_inv (foldl sane_step initial_app es)" by (rule app_sys.run_inv)
  then show ?thesis by (rule perm.ask_ans)
qed

text \<open>An administrator who is served the reserved codes, switches to a secondary node and loads the
  page anew, with an empty set of cached codes: the code is refused.\<close>

definition secondary_events :: "app_event list" where
  "secondary_events =
     [SetAuth \<lparr>au_isAdmin = True, au_permissions = None, au_masterOnly = Some [lit ''license_manage''],
        au_nodeRoles = None\<rparr>,
      SelectNode \<lparr>ni_name = lit ''node2'', ni_addr = lit ''10.0.0.2'', ni_role = lit ''Secondary''\<rparr>]"

definition reloaded_events :: "app_event list" where
  "reloaded_events = secondary_events @ [ReloadPage (gs (foldl sane_step initial_app secondary_events))]"

lemma secondary_role: "normalizeNodeRole (lit ''Secondary'') = lit ''secondary''"
proof -
  have "trim (lit ''Secondary'') = lit ''Secondary''" by (rule trim_no_space) (simp add: is_space_def)
  moreover have "toLowerCase (lit ''Secondary'') = lit ''secondary''" by code_simp
  ultimately show ?thesis by (simp add: normalizeNodeRole_def Let_def del: lit_simps)
qed

theorem permission_answer_fresh_witness:
  "\<not> fst (hasPermission (lit ''license_manage'') (foldl sane_step initial_app reloaded_events)) \<and>
   isAdmin (gs (foldl sane_step initial_app reloaded_events))"
proof -
  let ?a = "foldl sane_step initial_app reloaded_events"
  have line: "10 \<notin> set (lit ''license_manage'')" by simp
  have g: "isAdmin (gs ?a) \<and> currentNodeRole (gs ?a) = lit ''secondary'' \<and>
      masterOnlyPermissions (gs ?a) = [lit ''license_manage'']"
    using line by (simp add: reloaded_events_def secondary_events_def sane_step_def load_page_def
        setAuthInfo_def selectNode_def set_node_def secondary_role or_nil_def del: lit_simps)
  have "trim (lit ''license_manage'') = lit ''license_manage''"
    by (rule trim_no_space) (simp add: is_space_def)
  then have "\<not> permitted (lit ''license_manage'') (gs ?a)"
    using g by (simp add: permitted_def restricted_def isMaster_def)
  then show ?thesis using g permission_answer_fresh [of "lit ''license_manage''" reloaded_events] by simp
qed

text \<open>A code that is reserved for the master node is refused on every other node, to
  administrators too, and a right to manage does not bring it in.\<close>

theorem master_only_refused:
  assumes "app_inv a" "\<not> isMaster (gs a)" "trim p \<in> set (masterOnlyPermissions (gs a))"
  shows "\<not> fst (hasPermission p a)"
  using assms by (auto simp: hasPermission_ans permitted_def restricted_def Let_def)

definition slave_admin :: app where
  "slave_admin = initial_app\<lparr>gs := (gs initial_app)\<lparr>isAdmin := True, currentNode := lit ''node2'',
     masterOnlyPermissions := [lit ''license_manage'']\<rparr>\<rparr>"

theorem master_only_refused_witness:
  "isAdmin (gs slave_admin) \<and> \<not> fst (hasPermission (lit ''license_manage'') slave_admin)"
proof -
  have inv: "app_inv slave_admin"
    by (simp add: app_inv_def slave_admin_def initial_app_def initial_codes_inv)
  have "trim (lit ''license_manage'') = lit ''license_manage''"
    by (rule trim_no_space) (simp add: is_space_def)
  then show ?thesis
    using master_only_refused [OF inv, of "lit ''license_manage''"]
    by (simp add: slave_admin_def initial_app_def isMaster_def initial_global_def)
qed

lemma manage_gives_view:
  assumes "permitted (base @ lit ''_manage'') g" "trim base = base" "base \<noteq> []"
    "\<not> restricted (base @ lit ''_view'') g"
  shows "permitted (base @ lit ''_view'') g"
proof -
  have t: "trim (base @ lit w) = base @ lit w" if "w \<noteq> []" "\<not> is_space (last (lit w))" for w
  proof -
    have "\<not> is_space (hd base)" using assms(2,3) hd_trim by metis
    then show ?thesis using that assms(3) by (intro trim_fixed) (auto simp: last_append lit_def)
  qed
  have "\<not> is_space (last (lit ''_view''))" "\<not> is_space (last (lit ''_manage''))"
    by (simp_all add: is_space_def)
  then have "trim (base @ lit ''_view'') = base @ lit ''_view''"
    "trim (base @ lit ''_manage'') = base @ lit ''_manage''" using t by blast+
  with assms show ?thesis
    unfolding permitted_def Let_def by (simp only: toManageCode_view manage_not_view) auto
qed

text \<open>Nothing is left after signing out: from any state, \<open>clearAuthInfo\<close> makes every check fail
  and empties the page-state cache.\<close>

theorem sign_out_denies_all:
  "\<not> fst (hasPermission p (clearAuthInfo a)) \<and> pageStateCache (clearAuthInfo a) = Map.empty"
  by (simp add: hasPermission_def clearAuthInfo_def clearPageStateCache_def Let_def)

section \<open>Routes\<close>

definition meta_permitted :: "perm_value option \<Rightarrow> global_state \<Rightarrow> bool" where
  "meta_permitted p g =
     (case p of
        None \<Rightarrow> True
      | Some (PStr s) \<Rightarrow> s = [] \<or> permitted s g
      | Some (PArr ps) \<Rightarrow> (\<forall>x \<in> set ps. x = []) \<or> (\<exists>x \<in> set ps. x \<noteq> [] \<and> permitted x g))"

lemma meta_query:
  assumes "app_inv a"
  shows "fst (hasPermissionMetaAccess p a) = meta_permitted p (gs a) \<and>
    gs (snd (hasPermissionMetaAccess p a)) = gs a \<and> app_inv (snd (hasPermissionMetaAccess p a))"
proof (cases p)
  case (Some v)
  show ?thesis
  proof (cases v)
    case (PArr ps)
    have "filter (\<lambda>x. x \<noteq> []) ps = [] \<longleftrightarrow> (\<forall>x \<in> set ps. x = [])" by (simp add: filter_empty_conv)
    moreover note perm.some_query [OF assms, of "filter (\<lambda>x. x \<noteq> []) ps"]
    ultimately show ?thesis
      using Some PArr assms by (auto simp: hasPermissionMetaAccess_def meta_permitted_def Let_def)
  next
    case (PStr s)
    then show ?thesis
      using Some assms hasPermission_ans [OF assms] hasPermission_inv [OF assms]
      by (simp add: hasPermissionMetaAccess_def meta_permitted_def)
  qed
qed (simp add: hasPermissionMetaAccess_def meta_permitted_def assms)

interpretation meta: pure_query "\<lambda>r. hasPermissionMetaAccess (meta_permission r)" app_inv gs
  "\<lambda>r. meta_permitted (meta_permission r)"
  by unfold_locales (simp_all add: meta_query)

lemma route_access_query:
  assumes "app_inv a"
  shows "fst (hasRouteAccess r a) =
      (\<forall>x \<in> set (matched r). hasRouteRoleAccess (rec_meta x) (gs a) \<and> meta_permitted (meta_permission x) (gs a)) \<and>
    gs (snd (hasRouteAccess r a)) = gs a \<and> app_inv (snd (hasRouteAccess r a))"
  using meta.every_query [OF assms, of "matched r"] assms
  by (auto simp: hasRouteAccess_def hasRoutePermissionAccess_def list_all_iff)

text \<open>A route is open exactly if every one of its records admits the user: an administrator by
  role, others unless the record is for administrators only, or for node administrators and
  the user is none; and by permission if the record names none or one the user has.\<close>

theorem route_access_all_records:
  assumes "app_inv a"
  shows "fst (hasRouteAccess r a) \<longleftrightarrow>
    (\<forall>x \<in> set (matched r).
       (case rec_meta x of None \<Rightarrow> True
        | Some m \<Rightarrow>
            (isAdmin (gs a) \<or> (\<not> adminOnly m \<and> (protectedRoleOnly m \<longrightarrow> isNodeAdmin (gs a)))) \<and>
            (case permission m of None \<Rightarrow> True
             | Some (PStr s) \<Rightarrow> s = [] \<or> permitted s (gs a)
             | Some (PArr ps) \<Rightarrow> (\<forall>p \<in> set ps. p = []) \<or> (\<exists>p \<in> set ps. p \<noteq> [] \<and> permitted p (gs a)))))"
proof -
  have "hasRouteRoleAccess (rec_meta x) (gs a) \<and> meta_permitted (meta_permission x) (gs a) \<longleftrightarrow>
      (case rec_meta x of None \<Rightarrow> True
        | Some m \<Rightarrow>
            (isAdmin (gs a) \<or> (\<not> adminOnly m \<and> (protectedRoleOnly m \<longrightarrow> isNodeAdmin (gs a)))) \<and>
            meta_permitted (permission m) (gs a))" for x
    by (auto simp: hasRouteRoleAccess_def meta_permission_def meta_permitted_def split: option.splits)
  then show ?thesis
    unfolding meta_permitted_def [symmetric] using route_access_query [OF assms, of r] by simp
qed

definition demo_route :: route where
  "demo_route = \<lparr>rt_name = Some (lit ''Users''), rt_path = lit ''/users'', rt_meta = empty_meta,
     matched = [\<lparr>rec_path = lit ''/users'', rec_meta = Some (empty_meta\<lparr>adminOnly := True\<rparr>)\<rparr>],
     rt_hash = [], query = [], code_param = None\<rparr>"

lemma initial_app_inv: "app_inv initial_app"
  by (simp add: app_inv_def initial_app_def initial_codes_inv initial_global_def)

theorem route_access_all_records_witness: "\<not> fst (hasRouteAccess demo_route initial_app)"
  using route_access_all_records [OF initial_app_inv, of demo_route]
  by (simp add: demo_route_def empty_meta_def initial_app_def initial_global_def)

section \<open>The menu composable\<close>

lemma menu_route_same: "menu_getRoutePermission r = getRoutePermission r"
  by (simp add: menu_getRoutePermission_def getRoutePermission_def)

lemma some_normalized_twice:
  "filter (\<lambda>p. p \<noteq> []) (map normalizeToManageCode (filter (\<lambda>p. p \<noteq> []) (map normalizeToManageCode ps))) =
   filter (\<lambda>p. p \<noteq> []) (map normalizeToManageCode ps)"
  by (induction ps) (simp_all add: normalize_idem)

lemma toManageCode_trim_Nil: "trim p \<noteq> [] \<Longrightarrow> trim (normalizeToManageCode p) \<noteq> []"
proof -
  assume t: "trim p \<noteq> []"
  show ?thesis
  proof (cases p rule: toManageCode_cases)
    case (view base)
    then have "normalizeToManageCode p = base @ lit ''_manage''" by (auto simp: normalizeToManageCode_def)
    then show ?thesis by (auto simp: trim_eq_Nil_iff is_space_def)
  next
    case other
    with t show ?thesis by (auto simp: normalizeToManageCode_def)
  qed
qed

lemma toManageCode_trim_Nil': "trim p = [] \<Longrightarrow> normalizeToManageCode p = p"
proof (cases p rule: toManageCode_cases)
  case (view base)
  moreover assume "trim p = []"
  ultimately show ?thesis by (auto simp: trim_eq_Nil_iff is_space_def)
qed (auto simp: normalizeToManageCode_def)

lemma blank_normalized: "trim (normalizeToManageCode p) = [] \<longleftrightarrow> trim p = []"
  using toManageCode_trim_Nil toManageCode_trim_Nil' by metis

text \<open>Every code that a route names is non-blank.\<close>

definition sane_codes :: "perm_value \<Rightarrow> bool" where
  "sane_codes v = (case v of PStr s \<Rightarrow> s = [] \<or> trim s \<noteq> [] | PArr ps \<Rightarrow> (\<forall>p \<in> set ps. trim p \<noteq> []))"

definition manage_list :: "route \<Rightarrow> perm_value option \<Rightarrow> jstring list" where
  "manage_list r v = filter (\<lambda>p. p \<noteq> []) (map normalizeToManageCode (toPermissionList r v))"

lemma manage_access_list:
  "hasManagePermissionAccess r v False a =
     (if manage_list r v = [] then (isAdmin (gs a), a) else some_st hasPermission (manage_list r v) a)"
  by (simp add: hasManagePermissionAccess_def hasPermissionAccessByMode_def manage_list_def Let_def)

lemma manage_list_arr:
  "manage_list r (Some (PArr (filter (\<lambda>x. x \<noteq> []) (map normalizeToManageCode ps)))) =
   manage_list r (Some (PArr ps))"
  by (induction ps) (auto simp: manage_list_def toPermissionList_def blank_normalized normalize_idem)

lemma toPermissionList_arr_sane:
  "\<forall>p \<in> set ps. trim p \<noteq> [] \<Longrightarrow> toPermissionList r (Some (PArr ps)) = ps"
  by (simp add: toPermissionList_def)

lemma manage_list_str:
  "trim s \<noteq> [] \<Longrightarrow> manage_list r (Some (PStr (normalizeToManageCode s))) = manage_list r (Some (PStr s))"
  by (simp add: manage_list_def toPermissionList_def blank_normalized normalize_idem)

lemma menu_manage_list:
  assumes "sane_codes (getRoutePermission r)"
  shows "manage_list r (Some (or_list (toManagePermissionValue (sourcePermission r p)))) = manage_list r p"
proof -
  have route: "manage_list r (Some (or_list (toManagePermissionValue (getRoutePermission r)))) = manage_list r None"
  proof (cases "getRoutePermission r")
    case (PStr s)
    show ?thesis
    proof (cases "s = []")
      case True
      with PStr show ?thesis
        by (simp add: manage_list_def toManagePermissionValue_def or_list_def toPermissionList_def)
    next
      case False
      with PStr assms have "trim s \<noteq> []" by (simp add: sane_codes_def)
      then show ?thesis
        using PStr False manage_list_str [of s r]
        by (simp add: manage_list_def toManagePermissionValue_def or_list_def toPermissionList_def)
    qed
  next
    case (PArr ps)
    with assms have "toPermissionList r (Some (PArr ps)) = toPermissionList r None"
      by (simp add: sane_codes_def toPermissionList_def)
    then have "manage_list r (Some (PArr ps)) = manage_list r None" by (simp add: manage_list_def)
    with PArr show ?thesis by (simp add: toManagePermissionValue_def or_list_def manage_list_arr)
  qed
  show ?thesis
  proof (cases p)
    case None
    with route show ?thesis by (simp add: sourcePermission_def menu_route_same)
  next
    case (Some v)
    show ?thesis
    proof (cases v)
      case (PArr ps)
      with Some show ?thesis
        by (simp add: sourcePermission_def toManagePermissionValue_def or_list_def manage_list_arr)
    next
      case (PStr s)
      have none: "manage_list r (Some (PStr s)) = manage_list r None" if "trim s = []" for s
        using that by (simp add: manage_list_def toPermissionList_def)
      consider "s = []" | "s \<noteq> []" "trim s = []" | "trim s \<noteq> []" by auto
      then show ?thesis
      proof cases
        case 1
        with Some PStr route none show ?thesis by (simp add: sourcePermission_def menu_route_same)
      next
        case 2
        with Some PStr none show ?thesis
          by (simp add: sourcePermission_def toManagePermissionValue_def or_list_def
              toManageCode_trim_Nil')
      next
        case 3
        then have "s \<noteq> []" by auto
        with 3 Some PStr show ?thesis
          by (simp add: sourcePermission_def toManagePermissionValue_def or_list_def manage_list_str)
      qed
    qed
  qed
qed

text \<open>The composable and the function it wraps agree: with route permissions that are non-blank
  codes, \<open>useMenuManagePermission\<close> lets a user manage exactly when
  \<open>hasManagePermissionAccess\<close> does for the same argument, although it searches the route by
  its own copy and turns codes into manage codes twice.\<close>

theorem menu_composable_agrees:
  assumes "sane_codes (getRoutePermission r)"
  shows "hasManagePermission (useMenuManagePermission r p a) = fst (hasManagePermissionAccess r p False a)"
  using menu_manage_list [OF assms, of p]
  by (simp add: useMenuManagePermission_def Let_def manage_access_list)

theorem menu_composable_agrees_witness:
  "hasManagePermission (useMenuManagePermission demo_route (Some (PStr (lit ''app_view''))) slave_admin) =
   fst (hasManagePermissionAccess demo_route (Some (PStr (lit ''app_view''))) False slave_admin)"
  by (rule menu_composable_agrees)
    (simp add: sane_codes_def getRoutePermission_def demo_route_def settles_def empty_meta_def
      meta_permission_def)

end
