(* ===== verification/RouteGuard.thy ===== *)
theory RouteGuard
  imports PermissionProps
begin

text \<open>
  The navigation guards of \<^verbatim>\<open>src/web/src/routers/index.ts\<close>: what happens before and after a
  change of page.  Parameters are the answer of the gateway status endpoint, the router's
  \<open>resolve\<close>, and what other code does to the state while the guard waits for the endpoint.
  The progress bar and the cancelling of pending requests are left out.
\<close>

section \<open>State\<close>

text \<open>The application, the browser's local storage, the module variable \<open>isRedirecting\<close> and the
  error messages shown.\<close>

record nav_state =
  nav_app :: app
  localStorage :: "jstring \<rightharpoonup> jstring"
  isRedirecting :: bool
  shown_errors :: "string list"

datatype nav_result =
    Allow
  | Refuse
  | ToName string "jstring option"
  | ToLocation jstring "(jstring \<times> jstring option) list" jstring
  | ToCached jstring

definition noLoginWhiteList :: "jstring list" where
  "noLoginWhiteList = [lit ''entrance'', lit ''login'', lit ''file-share'', lit ''404'', lit ''Expired'']"

definition clearLoginStatus :: "nav_state \<Rightarrow> nav_state" where
  "clearLoginStatus s = s\<lparr>nav_app := clearAuthInfo (setLogStatus False (nav_app s))\<rparr>"

record gateway_error =
  err_status :: "nat option"
  errCode :: "jstring option"

definition isLocalAuthRequired :: "gateway_error \<Rightarrow> bool" where
  "isLocalAuthRequired e \<longleftrightarrow> err_status e = Some 401 \<or> errCode e = Some (lit ''LOCAL_AUTH_REQUIRED'')"

datatype gateway = Status "bool option" bool | GatewayFails gateway_error

text \<open>\<open>String(to.name)\<close>\<close>

definition name_text :: "route \<Rightarrow> jstring" where
  "name_text r = (case rt_name r of None \<Rightarrow> lit ''undefined'' | Some n \<Rightarrow> n)"

section \<open>Before a navigation\<close>

definition logged_in :: "nav_state \<Rightarrow> bool" where
  "logged_in s \<longleftrightarrow> isLogin (gs (nav_app s))"

definition entrance_code :: "nav_state \<Rightarrow> jstring" where
  "entrance_code s = entrance (gs (nav_app s))"

definition guard_login :: "route \<Rightarrow> nav_state \<Rightarrow> nav_result option \<times> nav_state" where
  "guard_login to s0 =
     (let s = (if \<not> logged_in s0 then clearLoginStatus s0 else s0) in
      if \<not> logged_in s \<and> name_text to \<notin> set noLoginWhiteList
      then (Some (if entrance_code s \<noteq> [] then ToName ''entrance'' (Some (entrance_code s))
                  else ToName ''login'' None), s)
      else (None, s))"

definition asks_gateway :: "route \<Rightarrow> nav_state \<Rightarrow> bool" where
  "asks_gateway to s \<longleftrightarrow> logged_in s \<and>
     name_text to \<notin> set [lit ''entrance'', lit ''file-share'', lit ''404'', lit ''Expired'']"

text \<open>\<open>gatewayConfigured\<close> after the \<open>try\<close>, or the redirection of its \<open>catch\<close>.\<close>

definition gateway_check :: "gateway \<Rightarrow> nav_state \<Rightarrow> (nav_result + bool) \<times> nav_state" where
  "gateway_check gw s =
     (case gw of
        Status bindingRequired configured \<Rightarrow>
          (let required = (bindingRequired \<noteq> Some False) in (Inr (\<not> required \<or> configured), s))
      | GatewayFails e \<Rightarrow>
          if isLocalAuthRequired e then (Inl (ToName ''login'' None), clearLoginStatus s)
          else (Inr False, s))"

definition guard_gate :: "bool \<Rightarrow> route \<Rightarrow> nav_state \<Rightarrow> nav_result option" where
  "guard_gate gatewayConfigured to s =
     (if rt_name to = Some (lit ''login'') \<and> \<not> logged_in s \<and> entrance_code s \<noteq> []
        then Some (ToName ''entrance'' (Some (entrance_code s)))
      else if rt_name to = Some (lit ''login'') \<and> logged_in s
        then Some (ToName (if gatewayConfigured then ''home'' else ''GatewayBind'') None)
      else if logged_in s \<and> \<not> gatewayConfigured \<and> name_text to \<noteq> lit ''GatewayBind''
        then Some (ToName ''GatewayBind'' None)
      else if logged_in s \<and> gatewayConfigured \<and> name_text to = lit ''GatewayBind''
        then Some (ToName ''home'' None)
      else if rt_name to = Some (lit ''entrance'') \<and> logged_in s
        then Some (ToName (if code_param to = Some (entrance_code s) then ''home'' else ''404'') None)
      else None)"

definition compatPath :: "jstring \<Rightarrow> jstring" where
  "compatPath originalPath =
     (if startsWith originalPath (lit ''/xpack/monitor'')
        then lit ''/advanced/website-monitor'' @ drop (length (lit ''/xpack/monitor'')) originalPath
      else if startsWith originalPath (lit ''/xpack/waf'') then lit ''/advanced/waf''
      else if startsWith originalPath (lit ''/xpack/node'') then lit ''/advanced/multi-node''
      else originalPath)"

definition has_query :: "string \<Rightarrow> route \<Rightarrow> bool" where
  "has_query k to \<longleftrightarrow> list_ex (\<lambda>(key, v). key = lit k \<and> v \<noteq> None) (query to)"

definition activeMenuKey :: "route \<Rightarrow> jstring" where
  "activeMenuKey to = lit ''cachedRoute'' @ activeMenu (rt_meta to)"

text \<open>The last part: an access check of the target.\<close>

definition guard_access :: "route \<Rightarrow> nav_state \<Rightarrow> nav_result \<times> nav_state" where
  "guard_access to s =
     (let (ok, a) = hasRouteAccess to (nav_app s); s = s\<lparr>nav_app := a\<rparr> in
      if \<not> ok then (Refuse, s\<lparr>shown_errors := shown_errors s @ [''commons.res.forbidden'']\<rparr>)
      else (Allow, s))"

text \<open>The remembered page of another menu entry: taken if it can be opened, forgotten if not.\<close>

definition use_remembered ::
  "(jstring \<Rightarrow> route) \<Rightarrow> route \<Rightarrow> route \<Rightarrow> nav_state \<Rightarrow> nav_result option \<times> nav_state" where
  "use_remembered resolve to from s =
     (case localStorage s (activeMenuKey to) of
        None \<Rightarrow> (None, s)
      | Some cachedRoute \<Rightarrow>
          if activeMenu (rt_meta to) \<noteq> [] \<and> activeMenu (rt_meta to) \<noteq> activeMenu (rt_meta from)
             \<and> cachedRoute \<noteq> [] \<and> cachedRoute \<noteq> rt_path to \<and> \<not> isRedirecting s
          then
            let cachedRouteInfo = resolve cachedRoute;
                (ok, a) = (if matched cachedRouteInfo \<noteq> [] then hasRouteAccess cachedRouteInfo (nav_app s)
                           else (False, nav_app s));
                s = s\<lparr>nav_app := a\<rparr>
            in if ok then (Some (ToCached cachedRoute), s\<lparr>isRedirecting := True\<rparr>)
               else (None, s\<lparr>localStorage := (localStorage s)(activeMenuKey to := None)\<rparr>)
          else (None, s))"

definition guard_path :: "(jstring \<Rightarrow> route) \<Rightarrow> route \<Rightarrow> route \<Rightarrow> nav_state \<Rightarrow> nav_result \<times> nav_state" where
  "guard_path resolve to from s =
     (if compatPath (rt_path to) \<noteq> rt_path to
        then (ToLocation (compatPath (rt_path to)) (query to) (rt_hash to), s)
      else if rt_path to = lit ''/apps/all'' \<and> has_query ''install'' to then (Allow, s)
      else if rt_name to = Some (lit ''Expired'') then (Allow, s)
      else if has_query ''uncached'' to
        then (ToLocation (rt_path to) (filter (\<lambda>(key, v). key \<noteq> lit ''uncached'') (query to)) [],
              s\<lparr>localStorage := (localStorage s)(activeMenuKey to := None)\<rparr>)
      else
        case use_remembered resolve to from s of
          (Some r, s) \<Rightarrow> (r, s)
        | (None, s) \<Rightarrow> guard_access to s)"

text \<open>After the wait for the gateway, \<open>isLogin\<close> and \<open>entrance\<close> are read again.\<close>

definition guard_rest :: "(jstring \<Rightarrow> route) \<Rightarrow> bool \<Rightarrow> route \<Rightarrow> route \<Rightarrow> nav_state \<Rightarrow> nav_result \<times> nav_state" where
  "guard_rest resolve gatewayConfigured to from s =
     (case guard_gate gatewayConfigured to s of
        Some r \<Rightarrow> (r, s)
      | None \<Rightarrow> guard_path resolve to from s)"

definition beforeEach ::
  "gateway \<Rightarrow> (nav_state \<Rightarrow> nav_state) \<Rightarrow> (jstring \<Rightarrow> route) \<Rightarrow> route \<Rightarrow> route \<Rightarrow> nav_state \<Rightarrow> nav_result \<times> nav_state" where
  "beforeEach gw meanwhile resolve to from s0 =
     (case guard_login to s0 of
        (Some r, s) \<Rightarrow> (r, s)
      | (None, s) \<Rightarrow>
          if asks_gateway to s then
            (case gateway_check gw (meanwhile s) of
               (Inl r, s) \<Rightarrow> (r, s)
             | (Inr gatewayConfigured, s) \<Rightarrow> guard_rest resolve gatewayConfigured to from s)
          else guard_rest resolve True to from s)"

section \<open>After a navigation\<close>

definition remembered_path :: "route \<Rightarrow> jstring" where
  "remembered_path to =
     (let menu = activeMenu (rt_meta to) in
      if menu = lit ''/cronjobs'' \<and> rt_path to = lit ''/cronjobs/cronjob/operate'' then lit ''/cronjobs/cronjob''
      else if menu = lit ''/containers'' \<and> rt_path to = lit ''/containers/container/operate''
        then lit ''/containers/container''
      else if menu = lit ''/toolbox'' \<and> rt_path to = lit ''/toolbox/clam/setting'' then lit ''/toolbox/clam''
      else rt_path to)"

definition afterEach :: "route \<Rightarrow> nav_state \<Rightarrow> nav_state" where
  "afterEach to s =
     (let s =
        (if activeMenu (rt_meta to) \<noteq> [] \<and> \<not> ignoreTab (rt_meta to) \<and> \<not> isRedirecting s
           \<and> \<not> list_ex (\<lambda>record. str_includes (rec_path record) (lit '':'')) (matched to)
         then s\<lparr>localStorage := (localStorage s)(activeMenuKey to \<mapsto> remembered_path to)\<rparr>
         else s)
      in s\<lparr>isRedirecting := False\<rparr>)"

section \<open>What a navigation needs\<close>

definition route_open :: "route \<Rightarrow> global_state \<Rightarrow> bool" where
  "route_open r g \<longleftrightarrow>
     (\<forall>x \<in> set (matched r). hasRouteRoleAccess (rec_meta x) g \<and> meta_permitted (meta_permission x) g)"

definition gateway_open :: "gateway \<Rightarrow> bool" where
  "gateway_open gw \<longleftrightarrow> (case gw of Status b c \<Rightarrow> b = Some False \<or> c | GatewayFails e \<Rightarrow> False)"

text \<open>The two targets that are let through before the access check.\<close>

definition let_through :: "route \<Rightarrow> bool" where
  "let_through to \<longleftrightarrow> (rt_path to = lit ''/apps/all'' \<and> has_query ''install'' to) \<or> rt_name to = Some (lit ''Expired'')"

lemma access_query:
  assumes "app_inv a"
  shows "fst (hasRouteAccess r a) = route_open r (gs a)"
    and "gs (snd (hasRouteAccess r a)) = gs a" and "app_inv (snd (hasRouteAccess r a))"
  using route_access_query [OF assms, of r] by (simp_all add: route_open_def)

lemma guard_access_cases:
  assumes "app_inv (nav_app s)" "guard_access to s = (r, s')"
  shows "(r = Allow \<and> route_open to (gs (nav_app s')) \<or> r = Refuse \<and> \<not> route_open to (gs (nav_app s')))
    \<and> gs (nav_app s') = gs (nav_app s) \<and> app_inv (nav_app s') \<and> isRedirecting s' = isRedirecting s"
  using assms access_query [OF assms(1), of to]
  by (auto simp: guard_access_def Let_def split: prod.splits if_splits)

lemma use_remembered_cases:
  assumes "app_inv (nav_app s)" "use_remembered resolve to from s = (r, s')"
  shows "gs (nav_app s') = gs (nav_app s) \<and> app_inv (nav_app s') \<and>
    (case r of
       None \<Rightarrow> isRedirecting s' = isRedirecting s
     | Some q \<Rightarrow> \<exists>p. q = ToCached p \<and> \<not> isRedirecting s \<and> isRedirecting s'
         \<and> matched (resolve p) \<noteq> [] \<and> route_open (resolve p) (gs (nav_app s))
         \<and> localStorage s (activeMenuKey to) = Some p \<and> activeMenu (rt_meta to) \<noteq> activeMenu (rt_meta from))"
proof (cases "localStorage s (activeMenuKey to)")
  case None
  with assms show ?thesis by (auto simp: use_remembered_def)
next
  case (Some p)
  obtain ok a where q: "hasRouteAccess (resolve p) (nav_app s) = (ok, a)" by fastforce
  with access_query [OF assms(1), of "resolve p"]
  have "ok = route_open (resolve p) (gs (nav_app s))" "gs a = gs (nav_app s)" "app_inv a" by auto
  with assms Some q show ?thesis
    by (cases "matched (resolve p) = []") (auto simp: use_remembered_def split: if_splits)
qed

text \<open>The guard's part on paths: the branch of the remembered page apart, it allows, refuses or
  rewrites the location.\<close>

lemma guard_path_cases:
  assumes "app_inv (nav_app s)" "guard_path resolve to from s = (r, s')"
  shows "gs (nav_app s') = gs (nav_app s) \<and>
    (case r of
       Allow \<Rightarrow> let_through to \<or> route_open to (gs (nav_app s'))
     | Refuse \<Rightarrow> \<not> route_open to (gs (nav_app s'))
     | ToName n c \<Rightarrow> False
     | ToLocation p q h \<Rightarrow> compatPath (rt_path to) \<noteq> rt_path to \<or> has_query ''uncached'' to
     | ToCached p \<Rightarrow> \<not> isRedirecting s \<and> isRedirecting s' \<and> route_open (resolve p) (gs (nav_app s'))
         \<and> localStorage s (activeMenuKey to) = Some p \<and> activeMenu (rt_meta to) \<noteq> activeMenu (rt_meta from))"
proof -
  consider (moved) "compatPath (rt_path to) \<noteq> rt_path to"
    | (free) "compatPath (rt_path to) = rt_path to" "let_through to"
    | (cleared) "compatPath (rt_path to) = rt_path to" "\<not> let_through to" "has_query ''uncached'' to"
    | (other) "compatPath (rt_path to) = rt_path to" "\<not> let_through to" "\<not> has_query ''uncached'' to"
    by blast
  then show ?thesis
  proof cases
    case other
    obtain c t where t: "use_remembered resolve to from s = (c, t)" by fastforce
    from other have "guard_path resolve to from s = (case c of Some r \<Rightarrow> (r, t) | None \<Rightarrow> guard_access to t)"
      by (auto simp: guard_path_def let_through_def t)
    with assms(2) have g: "(case c of Some r \<Rightarrow> (r, t) | None \<Rightarrow> guard_access to t) = (r, s')" by simp
    note u = use_remembered_cases [OF assms(1) t]
    show ?thesis
    proof (cases c)
      case None
      with g have "guard_access to t = (r, s')" by simp
      with guard_access_cases [OF _ this] u show ?thesis by auto
    next
      case (Some q)
      with g u show ?thesis by auto
    qed
  qed (use assms(2) in \<open>auto simp: guard_path_def let_through_def split: if_splits simp del: lit_simps\<close>)
qed

section \<open>Safety of the guard\<close>

lemma clearLoginStatus_inv: "app_inv (nav_app s) \<Longrightarrow> app_inv (nav_app (clearLoginStatus s))"
  using app_step_inv [OF app_step_inv [of "nav_app s" "LogStatus False"], of ClearAuth]
  by (simp add: clearLoginStatus_def)

lemma clearLoginStatus_out [simp]:
  "\<not> logged_in (clearLoginStatus s)" "entrance_code (clearLoginStatus s) = entrance_code s"
  by (simp_all add: clearLoginStatus_def logged_in_def entrance_code_def clearAuthInfo_def setLogStatus_def
      clearPageStateCache_def)

lemma guard_login_cases:
  assumes "guard_login to s0 = (r, s)"
  shows "logged_in s = logged_in s0"
    and "r = None \<Longrightarrow> logged_in s0 \<or> name_text to \<in> set noLoginWhiteList"
    and "app_inv (nav_app s0) \<Longrightarrow> app_inv (nav_app s)"
    and "\<not> logged_in s0 \<Longrightarrow> s = clearLoginStatus s0"
    and "\<not> logged_in s0 \<Longrightarrow> name_text to \<notin> set noLoginWhiteList \<Longrightarrow>
      r = Some (if entrance_code s0 \<noteq> [] then ToName ''entrance'' (Some (entrance_code s0)) else ToName ''login'' None)"
  using assms by (auto simp: guard_login_def Let_def clearLoginStatus_inv split: if_splits simp del: lit_simps)

text \<open>A navigation without a login reaches only the pages of the white list: every other target
  is answered by the login page, or by the entrance page with the configured code, and whatever the
  target all permissions of an earlier user are dropped first.\<close>

theorem navigation_needs_login:
  assumes "\<not> logged_in s" and "name_text to \<notin> set noLoginWhiteList"
    and "beforeEach gw meanwhile resolve to from s = (r, s')"
  shows "r = (if entrance_code s \<noteq> [] then ToName ''entrance'' (Some (entrance_code s)) else ToName ''login'' None)
    \<and> \<not> logged_in s' \<and> permissions (gs (nav_app s')) = [] \<and> nodeRoles (gs (nav_app s')) = []
    \<and> \<not> isAdmin (gs (nav_app s')) \<and> pageStateCache (nav_app s') = Map.empty"
proof (intro conjI)
  obtain q t where g: "guard_login to s = (q, t)" by fastforce
  from guard_login_cases(4,5) [OF g] assms have out: "s' = clearLoginStatus s"
    "r = (if entrance_code s \<noteq> [] then ToName ''entrance'' (Some (entrance_code s)) else ToName ''login'' None)"
    by (auto simp: beforeEach_def g simp del: lit_simps)
  then show "r = (if entrance_code s \<noteq> [] then ToName ''entrance'' (Some (entrance_code s)) else ToName ''login'' None)"
    by simp
  show "\<not> logged_in s'" "permissions (gs (nav_app s')) = []" "nodeRoles (gs (nav_app s')) = []"
    "\<not> isAdmin (gs (nav_app s'))" "pageStateCache (nav_app s') = Map.empty"
    unfolding out(1)
    by (simp_all add: clearLoginStatus_def clearAuthInfo_def setLogStatus_def clearPageStateCache_def logged_in_def)
qed

theorem navigation_needs_login_witness:
  "fst (beforeEach (Status None True) (\<lambda>t. t) (\<lambda>p. demo_route) demo_route demo_route
     \<lparr>nav_app = initial_app, localStorage = Map.empty, isRedirecting = False, shown_errors = []\<rparr>) = ToName ''login'' None"
proof -
  let ?s = "\<lparr>nav_app = initial_app, localStorage = Map.empty, isRedirecting = False, shown_errors = []\<rparr> :: nav_state"
  obtain r s' where b: "beforeEach (Status None True) (\<lambda>t. t) (\<lambda>p. demo_route) demo_route demo_route ?s = (r, s')" by fastforce
  have l: "\<not> logged_in ?s" "name_text demo_route \<notin> set noLoginWhiteList" and e: "entrance_code ?s = []"
    by (simp_all add: logged_in_def entrance_code_def initial_app_def initial_global_def demo_route_def
        name_text_def noLoginWhiteList_def)
  from navigation_needs_login [OF l b] b e show ?thesis by simp
qed

lemma guard_rest_allows:
  assumes "app_inv (nav_app s)" "guard_rest resolve c to from s = (Allow, s')"
  shows "let_through to \<or> route_open to (gs (nav_app s'))" and "guard_gate c to s = None"
    and "gs (nav_app s') = gs (nav_app s)"
proof -
  have g: "guard_gate c to s \<noteq> Some Allow"
    by (simp add: guard_gate_def del: lit_simps)
  with assms(2) show n: "guard_gate c to s = None"
    by (auto simp: guard_rest_def split: option.splits)
  with assms(2) have "guard_path resolve to from s = (Allow, s')" by (simp add: guard_rest_def)
  from guard_path_cases [OF assms(1) this]
  show "let_through to \<or> route_open to (gs (nav_app s'))" "gs (nav_app s') = gs (nav_app s)" by auto
qed

lemma gateway_check_cases:
  "gateway_check gw v = (Inr (gateway_open gw), v)
     \<or> gateway_check gw v = (Inl (ToName ''login'' None), clearLoginStatus v)"
proof (cases gw)
  case (Status b c)
  then show ?thesis by (cases "b = Some False"; cases c) (simp_all add: gateway_check_def gateway_open_def)
next
  case (GatewayFails e)
  then show ?thesis by (simp add: gateway_check_def gateway_open_def del: lit_simps)
qed

lemma beforeEach_allows:
  assumes "app_inv (nav_app s)" "\<And>t. app_inv (nav_app t) \<Longrightarrow> app_inv (nav_app (meanwhile t))"
    and "beforeEach gw meanwhile resolve to from s = (Allow, s')"
  shows "(logged_in s \<or> name_text to \<in> set noLoginWhiteList)
    \<and> (let_through to \<or> route_open to (gs (nav_app s')))
    \<and> (asks_gateway to s \<and> logged_in s' \<longrightarrow> (name_text to = lit ''GatewayBind'' \<longleftrightarrow> \<not> gateway_open gw))"
proof -
  obtain r t where g: "guard_login to s = (r, t)" by fastforce
  have r: "r = None"
    using assms(3) g by (auto simp: beforeEach_def guard_login_def Let_def split: if_splits option.splits)
  note l = guard_login_cases [OF g]
  have t: "app_inv (nav_app t)" and asks: "asks_gateway to t = asks_gateway to s"
    using l(1,3) assms(1) by (auto simp: asks_gateway_def)
  show ?thesis
  proof (cases "asks_gateway to s")
    case False
    with assms(3) g r asks have "guard_rest resolve True to from t = (Allow, s')" by (simp add: beforeEach_def)
    from guard_rest_allows [OF t this] l(2) [OF r] False show ?thesis by blast
  next
    case True
    obtain d u where u: "gateway_check gw (meanwhile t) = (d, u)" by fastforce
    with True assms(3) g r asks gateway_check_cases [of gw "meanwhile t"]
    have d: "d = Inr (gateway_open gw)" "u = meanwhile t"
      by (auto simp: beforeEach_def)
    with u True assms(3) g r asks have rest: "guard_rest resolve (gateway_open gw) to from u = (Allow, s')"
      by (simp add: beforeEach_def)
    have "app_inv (nav_app u)" using d(2) assms(2) t by blast
    note a = guard_rest_allows [OF this rest]
    have "logged_in s' = logged_in u" using a(3) by (simp add: logged_in_def)
    with a(2) have "logged_in s' \<Longrightarrow> name_text to = lit ''GatewayBind'' \<longleftrightarrow> \<not> gateway_open gw"
      by (auto simp: guard_gate_def split: if_splits simp del: lit_simps)
    with a(1) l(2) [OF r] show ?thesis by blast
  qed
qed

text \<open>C3: Whatever happens while the guard waits for the gateway, a navigation it allows was begun with
  a login or to a page of the white list; its target is open to the user of that moment, record by
  record, unless it is the page of expired licences or the app store with an application to
  install, which are let through unchecked; and where the gateway was asked and the user is still
  logged in, the target is the binding page exactly if the gateway still has to be bound.  The gateway is
  asked for a user who is logged in when the navigation begins, and for every page but \<open>entrance\<close>,
  \<open>file-share\<close>, \<open>404\<close> and \<open>Expired\<close>: these four, and every page of the white list before a login, are
  allowed although the gateway is unbound.  The cached master-only codes fit the state before, and
  whatever happens meanwhile keeps them so (\<open>app_inv\<close>).\<close>

theorem navigation_allowed:
  assumes "app_inv (nav_app s)" "\<And>t. app_inv (nav_app t) \<Longrightarrow> app_inv (nav_app (meanwhile t))"
    and "beforeEach gw meanwhile resolve to from s = (Allow, s')"
  shows "(logged_in s \<or> name_text to \<in> set noLoginWhiteList)
    \<and> (let_through to \<or> route_open to (gs (nav_app s')))
    \<and> (asks_gateway to s \<and> logged_in s' \<longrightarrow> (name_text to = lit ''GatewayBind'' \<longleftrightarrow> \<not> gateway_open gw))"
  by (rule beforeEach_allows [OF assms])

definition open_page :: route where
  "open_page = demo_route\<lparr>matched := [], rt_name := Some (lit ''home'')\<rparr>"

definition signed_in :: nav_state where
  "signed_in = \<lparr>nav_app = setLogStatus True initial_app, localStorage = Map.empty, isRedirecting = False,
     shown_errors = []\<rparr>"

theorem navigation_allowed_witness:
  "\<exists>s'. beforeEach (Status None True) (\<lambda>t. t) (\<lambda>p. open_page) open_page open_page signed_in = (Allow, s')
     \<and> (let_through open_page \<or> route_open open_page (gs (nav_app s')))"
proof -
  have inv: "app_inv (nav_app signed_in)"
    using app_step_inv [OF initial_app_inv, of "LogStatus True"] by (simp add: signed_in_def)
  obtain r s' where b: "beforeEach (Status None True) (\<lambda>t. t) (\<lambda>p. open_page) open_page open_page signed_in = (r, s')"
    by fastforce
  have "fst (beforeEach (Status None True) (\<lambda>t. t) (\<lambda>p. open_page) open_page open_page signed_in) = Allow"
    by (simp add: beforeEach_def guard_login_def logged_in_def signed_in_def setLogStatus_def asks_gateway_def
        open_page_def demo_route_def name_text_def gateway_check_def guard_rest_def guard_gate_def guard_path_def
        compatPath_def startsWith_def has_query_def use_remembered_def guard_access_def hasRouteAccess_def
        hasRoutePermissionAccess_def)
  with b have "r = Allow" by simp
  with b navigation_allowed [OF inv, of "\<lambda>t. t" "Status None True" "\<lambda>p. open_page" open_page open_page s']
  show ?thesis by blast
qed

section \<open>Redirections settle\<close>

text \<open>The value of \<open>gatewayConfigured\<close> a navigation is judged by.\<close>

definition gate_value :: "gateway \<Rightarrow> route \<Rightarrow> nav_state \<Rightarrow> bool" where
  "gate_value gw to s = (if asks_gateway to s then gateway_open gw else True)"

definition gate :: "gateway \<Rightarrow> route \<Rightarrow> nav_state \<Rightarrow> nav_result option" where
  "gate gw to s = guard_gate (gate_value gw to s) to s"

definition named :: "route \<Rightarrow> nav_result \<Rightarrow> bool" where
  "named r t \<longleftrightarrow> (case t of ToName n c \<Rightarrow> rt_name r = Some (lit n) \<and> code_param r = c | _ \<Rightarrow> False)"

lemmas gate_defs = gate_def gate_value_def guard_gate_def asks_gateway_def name_text_def named_def

text \<open>The redirections by login and gateway settle: the page a navigation is sent to is accepted by
  the same test, or the test sends on from \<open>home\<close> to the binding page, which it then accepts.  So with
  the state and the gateway unchanged there are at most two of them in a row.\<close>

theorem gate_redirects_settle:
  assumes "gate gw to s = Some r1" and "named to1 r1"
  shows "gate gw to1 s = None
    \<or> (rt_name to = Some (lit ''entrance'') \<and> r1 = ToName ''home'' None \<and> gate gw to1 s = Some (ToName ''GatewayBind'' None)
       \<and> (\<forall>to2. named to2 (ToName ''GatewayBind'' None) \<longrightarrow> gate gw to2 s = None))"
  using assms by (auto simp: gate_defs split: if_splits)

theorem gate_redirects_settle_witness:
  "gate (Status None False) (demo_route\<lparr>rt_name := Some (lit ''GatewayBind'')\<rparr>) signed_in = None"
proof -
  have "gate (Status None False) demo_route signed_in = Some (ToName ''GatewayBind'' None)"
    by (simp add: gate_defs signed_in_def logged_in_def setLogStatus_def demo_route_def gateway_open_def)
  from gate_redirects_settle [OF this, of "demo_route\<lparr>rt_name := Some (lit ''GatewayBind'')\<rparr>"]
  show ?thesis by (simp add: named_def demo_route_def)
qed

text \<open>A rewritten location is not rewritten again.\<close>

lemma compatPath_idem: "compatPath (compatPath p) = compatPath p"
  by (auto simp: compatPath_def startsWith_def)

lemma uncached_once: "\<not> has_query ''uncached'' (r\<lparr>query := filter (\<lambda>(key, v). key \<noteq> lit ''uncached'') q\<rparr>)"
  by (auto simp: has_query_def list_ex_iff)

end
