(* ===== verification/Directive.thy ===== *)
theory Directive
  imports Permission
begin

text \<open>
  The directive that greys out what the user may not do,
  \<^verbatim>\<open>src/web/src/directives/modules/permission.ts\<close>.  An element of the page has its attributes,
  the property \<open>disabled\<close> of the four native controls, the inline style \<open>pointer-events\<close> and its
  classes; a controlled element is a root with the native controls inside it.  The previous values
  are saved in \<open>data-permission\<close> attributes, so that a later change of the permissions can
  restore them.
\<close>

section \<open>Elements\<close>

record element =
  is_native :: bool
  attrs :: "string \<rightharpoonup> jstring"
  el_disabled :: bool
  pointerEvents :: jstring
  classList :: "string set"

record control =
  root :: element
  inner :: "element list"

definition PERMISSION_DISABLED_ATTR :: string where "PERMISSION_DISABLED_ATTR = ''data-permission-disabled''"
definition PERMISSION_POINTER_EVENTS_ATTR :: string where
  "PERMISSION_POINTER_EVENTS_ATTR = ''data-permission-pointer-events''"
definition PERMISSION_NATIVE_DISABLED_ATTR :: string where
  "PERMISSION_NATIVE_DISABLED_ATTR = ''data-permission-native-disabled''"
definition PERMISSION_TABINDEX_ATTR :: string where "PERMISSION_TABINDEX_ATTR = ''data-permission-tabindex''"
definition NODE_ADMIN_PERMISSION_ATTR :: string where "NODE_ADMIN_PERMISSION_ATTR = ''data-node-admin-permission''"

lemmas attr_names = PERMISSION_DISABLED_ATTR_def PERMISSION_POINTER_EVENTS_ATTR_def
  PERMISSION_NATIVE_DISABLED_ATTR_def PERMISSION_TABINDEX_ATTR_def NODE_ADMIN_PERMISSION_ATTR_def

definition hasAttribute :: "element \<Rightarrow> string \<Rightarrow> bool" where
  "hasAttribute e a \<longleftrightarrow> attrs e a \<noteq> None"

definition setAttribute :: "string \<Rightarrow> jstring \<Rightarrow> element \<Rightarrow> element" where
  "setAttribute a v e = e\<lparr>attrs := (attrs e)(a \<mapsto> v)\<rparr>"

definition removeAttribute :: "string \<Rightarrow> element \<Rightarrow> element" where
  "removeAttribute a e = e\<lparr>attrs := (attrs e)(a := None)\<rparr>"

section \<open>Native controls\<close>

text \<open>The root and the native controls inside: the targets of both functions.\<close>

definition map_targets :: "(element \<Rightarrow> element) \<Rightarrow> control \<Rightarrow> control" where
  "map_targets f c = \<lparr>root = f (root c), inner = map f (inner c)\<rparr>"

definition disable_target :: "element \<Rightarrow> element" where
  "disable_target e =
     (if is_native e then
        (if \<not> hasAttribute e PERMISSION_NATIVE_DISABLED_ATTR
         then setAttribute PERMISSION_NATIVE_DISABLED_ATTR (if el_disabled e then lit ''true'' else lit ''false'') e
         else e)\<lparr>el_disabled := True\<rparr>
      else
        setAttribute ''tabindex'' (lit ''-1'')
          (if \<not> hasAttribute e PERMISSION_TABINDEX_ATTR
           then setAttribute PERMISSION_TABINDEX_ATTR
                  (case attrs e ''tabindex'' of None \<Rightarrow> [] | Some t \<Rightarrow> t) e
           else e))"

definition disableNativeControls :: "control \<Rightarrow> control" where
  "disableNativeControls c = map_targets disable_target c"

definition enable_target :: "element \<Rightarrow> element" where
  "enable_target e =
     (if is_native e then
        (case attrs e PERMISSION_NATIVE_DISABLED_ATTR of
           None \<Rightarrow> e
         | Some previousDisabled \<Rightarrow>
             removeAttribute PERMISSION_NATIVE_DISABLED_ATTR (e\<lparr>el_disabled := (previousDisabled = lit ''true'')\<rparr>))
      else
        (case attrs e PERMISSION_TABINDEX_ATTR of
           None \<Rightarrow> e
         | Some previousTabindex \<Rightarrow>
             removeAttribute PERMISSION_TABINDEX_ATTR
               (if previousTabindex = [] then removeAttribute ''tabindex'' e
                else setAttribute ''tabindex'' previousTabindex e)))"

definition enableNativeControls :: "control \<Rightarrow> control" where
  "enableNativeControls c = map_targets enable_target c"

section \<open>The controlled element\<close>

definition on_root :: "(element \<Rightarrow> element) \<Rightarrow> control \<Rightarrow> control" where
  "on_root f c = c\<lparr>root := f (root c)\<rparr>"

definition mark_root :: "element \<Rightarrow> element" where
  "mark_root e =
     (let e = (if \<not> hasAttribute e PERMISSION_POINTER_EVENTS_ATTR
               then setAttribute PERMISSION_POINTER_EVENTS_ATTR (pointerEvents e) e else e);
          e = setAttribute ''aria-disabled'' (lit ''true'') (e\<lparr>pointerEvents := lit ''none''\<rparr>);
          e = setAttribute PERMISSION_DISABLED_ATTR (lit ''true'') e
      in e\<lparr>classList := insert ''is-disabled'' (classList e)\<rparr>)"

definition disableElement :: "control \<Rightarrow> control" where
  "disableElement c = disableNativeControls (on_root mark_root c)"

definition unmark_root :: "element \<Rightarrow> element" where
  "unmark_root e =
     (let e = e\<lparr>pointerEvents := (case attrs e PERMISSION_POINTER_EVENTS_ATTR of None \<Rightarrow> [] | Some p \<Rightarrow> p)\<rparr>;
          e = removeAttribute PERMISSION_POINTER_EVENTS_ATTR
                (removeAttribute PERMISSION_DISABLED_ATTR (removeAttribute ''aria-disabled'' e))
      in e\<lparr>classList := classList e - {''is-disabled''}\<rparr>)"

definition enableElement :: "control \<Rightarrow> control" where
  "enableElement c =
     (if \<not> hasAttribute (root c) PERMISSION_DISABLED_ATTR then c
      else enableNativeControls (on_root unmark_root c))"

section \<open>The directives\<close>

text \<open>A binding has its argument and value; the component behind the element may have a
  \<open>setPermissionDisabled\<close> of its own, called with the answer.\<close>

definition getPermissionMode :: "string option \<Rightarrow> permission_mode" where
  "getPermissionMode arg = (if arg = Some ''view'' then View else Manage)"

definition hasNodeAdminDirective :: "element \<Rightarrow> bool \<Rightarrow> bool" where
  "hasNodeAdminDirective e node_admin_dir \<longleftrightarrow> hasAttribute e NODE_ADMIN_PERMISSION_ATTR \<or> node_admin_dir"

definition permission_disabled ::
  "route \<Rightarrow> string option \<Rightarrow> perm_value option \<Rightarrow> bool \<Rightarrow> element \<Rightarrow> app \<Rightarrow> bool \<times> app" where
  "permission_disabled r arg v node_admin_dir e a =
     (let nodeAdmin = hasNodeAdminDirective e node_admin_dir;
          (ok, a) = (if getPermissionMode arg = View then hasPermissionAccess r v nodeAdmin a
                     else hasManagePermissionAccess r v nodeAdmin a)
      in (\<not> ok, a))"

text \<open>The controller's new flag (\<open>None\<close> if it is not called), the element and the state.\<close>

definition applyPermission ::
  "route \<Rightarrow> string option \<Rightarrow> perm_value option \<Rightarrow> bool \<Rightarrow> bool \<Rightarrow> control \<Rightarrow> app \<Rightarrow> bool option \<times> control \<times> app" where
  "applyPermission r arg v node_admin_dir has_controller c a =
     (let (disabled, a) = permission_disabled r arg v node_admin_dir (root c) a in
      if has_controller then (Some disabled, c, a)
      else if disabled then (None, disableElement c, a)
      else (None, enableElement c, a))"

definition nodeAdmin_mounted :: "control \<Rightarrow> control" where
  "nodeAdmin_mounted c = on_root (setAttribute NODE_ADMIN_PERMISSION_ATTR (lit ''true'')) c"

definition nodeAdmin_unmounted :: "control \<Rightarrow> control" where
  "nodeAdmin_unmounted c = on_root (removeAttribute NODE_ADMIN_PERMISSION_ATTR) c"

section \<open>Restoring\<close>

text \<open>An element that the directive has not marked: none of the saved values.\<close>

definition unmarked :: "element \<Rightarrow> bool" where
  "unmarked e \<longleftrightarrow> (\<forall>a \<in> {PERMISSION_DISABLED_ATTR, PERMISSION_POINTER_EVENTS_ATTR,
       PERMISSION_NATIVE_DISABLED_ATTR, PERMISSION_TABINDEX_ATTR}. attrs e a = None)"

text \<open>What is not restored: an empty \<open>tabindex\<close> (it comes back as none), and the root's own
  \<open>aria-disabled\<close> and \<open>is-disabled\<close>.\<close>

definition without_tabindex :: "element \<Rightarrow> element" where
  "without_tabindex e = (if \<not> is_native e \<and> attrs e ''tabindex'' = Some [] then removeAttribute ''tabindex'' e else e)"

definition without_disabled :: "element \<Rightarrow> element" where
  "without_disabled e = (removeAttribute ''aria-disabled'' e)\<lparr>classList := classList e - {''is-disabled''}\<rparr>"

definition forgetful :: "control \<Rightarrow> control" where
  "forgetful c = map_targets without_tabindex (on_root without_disabled c)"

text \<open>An element that carries none of this.\<close>

definition untouched :: "control \<Rightarrow> bool" where
  "untouched c \<longleftrightarrow> list_all unmarked (root c # inner c)
     \<and> list_all (\<lambda>e. is_native e \<or> attrs e ''tabindex'' \<noteq> Some []) (root c # inner c)
     \<and> attrs (root c) ''aria-disabled'' = None \<and> ''is-disabled'' \<notin> classList (root c)"

lemma lit_true_false [simp]: "lit ''false'' \<noteq> lit ''true''"
  by simp

lemma attr_distinct [simp]:
  "PERMISSION_DISABLED_ATTR \<noteq> PERMISSION_POINTER_EVENTS_ATTR"
  "PERMISSION_DISABLED_ATTR \<noteq> PERMISSION_NATIVE_DISABLED_ATTR"
  "PERMISSION_DISABLED_ATTR \<noteq> PERMISSION_TABINDEX_ATTR"
  "PERMISSION_DISABLED_ATTR \<noteq> ''tabindex''"
  "PERMISSION_DISABLED_ATTR \<noteq> ''aria-disabled''"
  "PERMISSION_POINTER_EVENTS_ATTR \<noteq> PERMISSION_DISABLED_ATTR"
  "PERMISSION_POINTER_EVENTS_ATTR \<noteq> PERMISSION_NATIVE_DISABLED_ATTR"
  "PERMISSION_POINTER_EVENTS_ATTR \<noteq> PERMISSION_TABINDEX_ATTR"
  "PERMISSION_POINTER_EVENTS_ATTR \<noteq> ''tabindex''"
  "PERMISSION_POINTER_EVENTS_ATTR \<noteq> ''aria-disabled''"
  "PERMISSION_NATIVE_DISABLED_ATTR \<noteq> PERMISSION_DISABLED_ATTR"
  "PERMISSION_NATIVE_DISABLED_ATTR \<noteq> PERMISSION_POINTER_EVENTS_ATTR"
  "PERMISSION_NATIVE_DISABLED_ATTR \<noteq> PERMISSION_TABINDEX_ATTR"
  "PERMISSION_NATIVE_DISABLED_ATTR \<noteq> ''tabindex''"
  "PERMISSION_NATIVE_DISABLED_ATTR \<noteq> ''aria-disabled''"
  "PERMISSION_TABINDEX_ATTR \<noteq> PERMISSION_DISABLED_ATTR"
  "PERMISSION_TABINDEX_ATTR \<noteq> PERMISSION_POINTER_EVENTS_ATTR"
  "PERMISSION_TABINDEX_ATTR \<noteq> PERMISSION_NATIVE_DISABLED_ATTR"
  "PERMISSION_TABINDEX_ATTR \<noteq> ''tabindex''"
  "PERMISSION_TABINDEX_ATTR \<noteq> ''aria-disabled''"
  "''tabindex'' \<noteq> PERMISSION_DISABLED_ATTR"
  "''tabindex'' \<noteq> PERMISSION_POINTER_EVENTS_ATTR"
  "''tabindex'' \<noteq> PERMISSION_NATIVE_DISABLED_ATTR"
  "''tabindex'' \<noteq> PERMISSION_TABINDEX_ATTR"
  "''aria-disabled'' \<noteq> PERMISSION_DISABLED_ATTR"
  "''aria-disabled'' \<noteq> PERMISSION_POINTER_EVENTS_ATTR"
  "''aria-disabled'' \<noteq> PERMISSION_NATIVE_DISABLED_ATTR"
  "''aria-disabled'' \<noteq> PERMISSION_TABINDEX_ATTR"
  by (simp_all add: attr_names)

lemmas element_ops = hasAttribute_def setAttribute_def removeAttribute_def

text \<open>Attributes set and removed again, for any names.\<close>

lemma restore_saved:
  "k \<noteq> h \<Longrightarrow> m k = None \<Longrightarrow> m h = Some v \<Longrightarrow> (m(k \<mapsto> x, h \<mapsto> y))(h \<mapsto> v, k := None) = m"
  "k \<noteq> h \<Longrightarrow> m k = None \<Longrightarrow> m h = None \<Longrightarrow> (m(k \<mapsto> x, h \<mapsto> y))(h := None, k := None) = m"
  by (auto simp: fun_eq_iff)

lemma enable_disable_target:
  assumes "unmarked e"
  shows "enable_target (disable_target e) = without_tabindex e"
proof (cases "is_native e")
  case True
  have "attrs e PERMISSION_NATIVE_DISABLED_ATTR = None" using assms by (simp add: unmarked_def)
  with True show ?thesis
    by (cases e) (simp add: enable_target_def disable_target_def without_tabindex_def element_ops fun_upd_idem del: lit_simps)
next
  case False
  have "attrs e PERMISSION_TABINDEX_ATTR = None" using assms by (simp add: unmarked_def)
  then have "(attrs e)(''tabindex'' := None, PERMISSION_TABINDEX_ATTR := None) = (attrs e)(''tabindex'' := None)"
    by (auto simp: fun_eq_iff)
  with False assms show ?thesis
    by (cases "attrs e ''tabindex''")
      (auto simp: enable_target_def disable_target_def without_tabindex_def unmarked_def element_ops restore_saved
        fun_upd_idem fun_upd_twist simp del: lit_simps)
qed

lemma disable_target_idem: "disable_target (disable_target e) = disable_target e"
  by (simp add: disable_target_def element_ops map_upd_triv del: lit_simps)

text \<open>The two parts of greying out work on different attributes.\<close>

lemma mark_disable_commute: "disable_target (mark_root e) = mark_root (disable_target e)"
  by (simp add: disable_target_def mark_root_def Let_def element_ops fun_upd_twist del: lit_simps)

lemma unmark_disable_commute: "unmark_root (disable_target e) = disable_target (unmark_root e)"
  by (simp add: disable_target_def unmark_root_def Let_def element_ops fun_upd_twist del: lit_simps)

lemma mark_root_idem: "mark_root (mark_root e) = mark_root e"
  by (cases "attrs e PERMISSION_POINTER_EVENTS_ATTR")
    (simp_all add: mark_root_def Let_def element_ops map_upd_triv insert_absorb del: lit_simps)

lemma unmark_mark_root:
  assumes "unmarked e"
  shows "unmark_root (mark_root e) = without_disabled e"
proof -
  have "attrs e PERMISSION_POINTER_EVENTS_ATTR = None" "attrs e PERMISSION_DISABLED_ATTR = None"
    using assms by (simp_all add: unmarked_def)
  then have "(attrs e)(''aria-disabled'' := None, PERMISSION_DISABLED_ATTR := None, PERMISSION_POINTER_EVENTS_ATTR := None) =
      (attrs e)(''aria-disabled'' := None)" by (auto simp: fun_eq_iff)
  then show ?thesis using assms
    by (cases e) (simp add: unmark_root_def mark_root_def without_disabled_def unmarked_def Let_def element_ops
        fun_upd_idem fun_upd_twist del: lit_simps)
qed

lemma unmarked_without: "unmarked e \<Longrightarrow> unmarked (without_disabled e)"
  by (auto simp: unmarked_def without_disabled_def removeAttribute_def)

lemma disable_mark_idem: "disable_target (mark_root (disable_target (mark_root e))) = disable_target (mark_root e)"
  by (simp add: mark_disable_commute mark_root_idem disable_target_idem)

lemma unmark_disable:
  "unmarked e \<Longrightarrow> enable_target (unmark_root (disable_target (mark_root e))) = without_tabindex (without_disabled e)"
  by (simp add: unmark_disable_commute unmark_mark_root enable_disable_target unmarked_without)

lemma marked: "hasAttribute (disable_target (mark_root e)) PERMISSION_DISABLED_ATTR"
  by (simp add: disable_target_def mark_root_def Let_def element_ops)

lemma disableElement_idem: "disableElement (disableElement c) = disableElement c"
  by (simp add: disableElement_def disableNativeControls_def map_targets_def on_root_def disable_mark_idem
      disable_target_idem)

lemma disableElement_funpow: "0 < n \<Longrightarrow> (disableElement ^^ n) c = disableElement c"
proof (induction n)
  case (Suc n)
  then show ?case by (cases n) (simp_all add: disableElement_idem)
qed simp

lemma enable_disableElement:
  assumes "unmarked (root c)" "list_all unmarked (inner c)"
  shows "enableElement (disableElement c) = forgetful c"
proof -
  have "map (enable_target \<circ> disable_target) (inner c) = map without_tabindex (inner c)"
    using assms(2) by (auto simp: list_all_iff enable_disable_target)
  then show ?thesis
    using assms(1) marked [of "root c"]
    by (simp add: enableElement_def disableElement_def disableNativeControls_def enableNativeControls_def
        map_targets_def on_root_def unmark_disable forgetful_def)
qed

lemma forgetful_untouched: "untouched c \<Longrightarrow> forgetful c = c"
proof -
  assume u: "untouched c"
  then have "without_disabled (root c) = root c"
    by (cases "root c") (auto simp: untouched_def without_disabled_def element_ops fun_upd_idem)
  moreover have "without_tabindex e = e" if "e \<in> set (root c # inner c)" for e
    using u that by (auto simp: untouched_def without_tabindex_def list_all_iff)
  then have "without_tabindex (root c) = root c" "map without_tabindex (inner c) = inner c"
    by (simp_all add: map_idI)
  ultimately show ?thesis by (cases c) (simp add: forgetful_def map_targets_def on_root_def)
qed

text \<open>C6: Greying out and enabling again: however often the directive has run while the permission was
  missing, an element that it had not marked before is as it was once the permission is there,
  with its own \<open>disabled\<close> flags, \<open>tabindex\<close> and style, but for three things that are not
  restored: an own \<open>aria-disabled\<close> and \<open>is-disabled\<close> of the root, and an empty \<open>tabindex\<close> of an
  element that is no native control, are gone.  An element that has none of these is exactly as it was.
  While it is greyed out the root takes no pointer events and all its native controls are disabled.\<close>

theorem permission_disable_reversible:
  assumes "unmarked (root c)" "list_all unmarked (inner c)" "0 < n"
  shows "enableElement ((disableElement ^^ n) c) = forgetful c
    \<and> (untouched c \<longrightarrow> enableElement ((disableElement ^^ n) c) = c)
    \<and> pointerEvents (root ((disableElement ^^ n) c)) = lit ''none''
    \<and> list_all (\<lambda>e. is_native e \<longrightarrow> el_disabled e)
      (root ((disableElement ^^ n) c) # inner ((disableElement ^^ n) c))"
proof (intro conjI impI)
  note n = disableElement_funpow [OF assms(3), of c]
  show r: "enableElement ((disableElement ^^ n) c) = forgetful c"
    unfolding n by (rule enable_disableElement [OF assms(1,2)])
  show "enableElement ((disableElement ^^ n) c) = c" if "untouched c"
    unfolding r by (rule forgetful_untouched [OF that])
  show "pointerEvents (root ((disableElement ^^ n) c)) = lit ''none''"
    unfolding n by (simp add: disableElement_def disableNativeControls_def map_targets_def on_root_def
        disable_target_def mark_root_def Let_def element_ops)
  show "list_all (\<lambda>e. is_native e \<longrightarrow> el_disabled e)
      (root ((disableElement ^^ n) c) # inner ((disableElement ^^ n) c))"
    unfolding n by (auto simp: disableElement_def disableNativeControls_def map_targets_def on_root_def
        disable_target_def mark_root_def Let_def element_ops list_all_iff)
qed

text \<open>A button that its component disabled.\<close>

definition a_button :: control where
  "a_button = \<lparr>root = \<lparr>is_native = True, attrs = [''aria-disabled'' \<mapsto> lit ''true''], el_disabled = True, pointerEvents = [],
     classList = {''el-button'', ''is-disabled''}\<rparr>, inner = []\<rparr>"

theorem permission_disable_reversible_witness:
  "let c = enableElement ((disableElement ^^ 2) a_button) in
     el_disabled (root c) \<and> classList (root c) = {''el-button''} \<and> attrs (root c) = Map.empty"
proof -
  have "enableElement ((disableElement ^^ 2) a_button) = forgetful a_button"
    using permission_disable_reversible [of a_button 2] by (simp add: unmarked_def a_button_def attr_names)
  then show ?thesis
    by (auto simp: a_button_def forgetful_def map_targets_def on_root_def without_tabindex_def without_disabled_def
        removeAttribute_def Let_def simp del: lit_simps)
qed

end
