(* ===== verification/Stepper.thy ===== *)
theory Stepper
  imports JsNumber Prelude
begin

text \<open>
  The wizard's stepper, \<^verbatim>\<open>src/web/src/components/fu/steps/Stepper.ts\<close> with the option types of
  \<^verbatim>\<open>types.ts\<close> and the footer's decisions of \<^verbatim>\<open>FuStepsFooter.ts\<close>.  A hook is a function of the
  step it is called for (\<open>None\<close> for \<open>undefined\<close>) and the direction; of its answer only
  ``is it \<open>false\<close>'' and ``did it reject'' matter.  The two \<open>await\<close>s of \<open>active\<close> split it in
  three: calls in progress wait in \<open>running\<close>, and their hooks may answer in any order.
\<close>

section \<open>Steps and options\<close>

datatype hook_answer = IsFalse | Proceeds | Rejects

record step_info =
  st_id :: "jstring option"
  st_index :: int
  st_title :: "jstring option"
  st_description :: "jstring option"
  st_icon :: "jstring option"
  st_status :: "jstring option"

type_synonym hook = "step_info option \<Rightarrow> bool \<Rightarrow> hook_answer"

record step = step_info +
  st_beforeActive :: "hook option"
  st_beforeLeave :: "hook option"

record step_options =
  so_id :: "jstring option"
  so_index :: int
  so_beforeActive :: "hook option"
  so_beforeLeave :: "hook option"
  so_title :: "jstring option"
  so_description :: "jstring option"
  so_icon :: "jstring option"
  so_status :: "jstring option"

definition default_step_options :: step_options where
  "default_step_options = \<lparr>so_id = None, so_index = 0, so_beforeActive = None, so_beforeLeave = None,
     so_title = None, so_description = None, so_icon = None, so_status = None\<rparr>"

definition new_step :: "step_options option \<Rightarrow> step" where
  "new_step options =
     (let o' = (case options of None \<Rightarrow> default_step_options | Some opts \<Rightarrow> opts) in
      \<lparr>st_id = so_id o', st_index = so_index o', st_title = so_title o',
       st_description = so_description o', st_icon = so_icon o', st_status = so_status o',
       st_beforeActive = so_beforeActive o', st_beforeLeave = so_beforeLeave o'\<rparr>)"

datatype height = HStr jstring | HNum rat

record stepper_options =
  op_steps :: "step_options list option"
  op_index :: "int option"
  op_isLoading :: "bool option"
  op_onCancelButtonText :: "jstring option"
  op_onFinishButtonText :: "jstring option"
  op_prevButtonText :: "jstring option"
  op_nextButtonText :: "jstring option"
  op_buttonSize :: "jstring option"
  op_footerAlign :: "jstring option"
  op_showCancel :: "bool option"
  op_beforeActive :: "hook option"
  op_beforeLeave :: "hook option"
  op_height :: "height option"

text \<open>Which \<open>await\<close> a call of \<open>active\<close> is at.\<close>

datatype stage = AtLeave | AtActive

record stepper =
  steps :: "step list"
  index :: int
  activeSet :: "int set"
  isLoading :: bool
  onCancelButtonText :: jstring
  onFinishButtonText :: jstring
  prevButtonText :: jstring
  nextButtonText :: jstring
  buttonSize :: jstring
  footerAlign :: jstring
  showCancel :: bool
  beforeActive :: "hook option"
  beforeLeave :: "hook option"
  sheight :: "height option"
  running :: "(stage \<times> int \<times> bool \<times> hook_answer) list"

definition or_else :: "'a option \<Rightarrow> 'a \<Rightarrow> 'a" where
  "or_else v d = (case v of None \<Rightarrow> d | Some x \<Rightarrow> x)"

text \<open>The constructor; \<open>t\<close> translates a key.\<close>

definition new_stepper :: "(string \<Rightarrow> jstring) \<Rightarrow> stepper_options \<Rightarrow> stepper" where
  "new_stepper t opts =
     \<lparr>steps = map (\<lambda>s. new_step (Some s)) (or_else (op_steps opts) []),
      index = or_else (op_index opts) 0, activeSet = {},
      isLoading = or_else (op_isLoading opts) False,
      onCancelButtonText = or_else (op_onCancelButtonText opts) (t ''fu.steps.cancel''),
      onFinishButtonText = or_else (op_onFinishButtonText opts) (t ''fu.steps.finish''),
      prevButtonText = or_else (op_prevButtonText opts) (t ''fu.steps.prev''),
      nextButtonText = or_else (op_nextButtonText opts) (t ''fu.steps.next''),
      buttonSize = or_else (op_buttonSize opts) (lit ''default''),
      footerAlign = or_else (op_footerAlign opts) (lit ''flex''),
      showCancel = or_else (op_showCancel opts) False,
      beforeActive = op_beforeActive opts, beforeLeave = op_beforeLeave opts,
      sheight = op_height opts, running = []\<rparr>"

section \<open>Queries\<close>

definition isFirst :: "int \<Rightarrow> bool" where "isFirst i \<longleftrightarrow> i = 0"

definition isLast :: "stepper \<Rightarrow> int \<Rightarrow> bool" where
  "isLast s i \<longleftrightarrow> i = int (length (steps s)) - 1"

definition isActive :: "stepper \<Rightarrow> int \<Rightarrow> bool" where
  "isActive s i \<longleftrightarrow> i \<in> activeSet s"

definition isCurrent :: "stepper \<Rightarrow> int \<Rightarrow> bool" where
  "isCurrent s i \<longleftrightarrow> index s = i"

text \<open>\<open>this.steps[index]\<close>: \<open>undefined\<close> outside the array.\<close>

definition getStep :: "stepper \<Rightarrow> int \<Rightarrow> step option" where
  "getStep s i = (if 0 \<le> i \<and> i < int (length (steps s)) then Some (steps s ! nat i) else None)"

definition info :: "step \<Rightarrow> step_info" where
  "info st = step_info.truncate st"

definition executeBeforeLeave :: "stepper \<Rightarrow> int \<Rightarrow> bool \<Rightarrow> hook_answer" where
  "executeBeforeLeave s i forward =
     (let st = getStep s i in
      case Option.bind st st_beforeLeave of
        Some h \<Rightarrow> h (map_option info st) forward
      | None \<Rightarrow> (case beforeLeave s of Some h \<Rightarrow> h (map_option info st) forward | None \<Rightarrow> Proceeds))"

definition executeBeforeActive :: "stepper \<Rightarrow> int \<Rightarrow> bool \<Rightarrow> hook_answer" where
  "executeBeforeActive s i forward =
     (let st = getStep s i in
      case Option.bind st st_beforeActive of
        Some h \<Rightarrow> h (map_option info st) forward
      | None \<Rightarrow> (case beforeActive s of Some h \<Rightarrow> h (map_option info st) forward | None \<Rightarrow> Proceeds))"

section \<open>Moving\<close>

text \<open>\<open>active\<close> up to its first \<open>await\<close>; a call goes to the end of \<open>running\<close>.\<close>

definition active :: "int \<Rightarrow> stepper \<Rightarrow> stepper" where
  "active i s =
     (let isValid = (i \<ge> 0 \<and> i < int (length (steps s)) \<and> index s \<noteq> i);
          forward = i > index s
      in if \<not> isValid then s
         else s\<lparr>running := running s @ [(AtLeave, i, forward, executeBeforeLeave s (index s) forward)]\<rparr>)"

definition next_step :: "stepper \<Rightarrow> stepper" where
  "next_step s = (if \<not> isLast s (index s) then active (index s + 1) s else s)"

definition prev_step :: "stepper \<Rightarrow> stepper" where
  "prev_step s = (if \<not> isFirst (index s) then active (index s - 1) s else s)"

text \<open>The promise of the \<open>k\<close>-th call settles.\<close>

definition resume :: "nat \<Rightarrow> stepper \<Rightarrow> stepper" where
  "resume k s =
     (if k < length (running s) then
        (case running s ! k of (stage, i, forward, answer) \<Rightarrow>
           let rest = s\<lparr>running := remove_nth k (running s)\<rparr> in
           if answer = IsFalse \<or> answer = Rejects then rest
           else case stage of
             AtLeave \<Rightarrow> s\<lparr>running := (running s)[k := (AtActive, i, forward, executeBeforeActive s i forward)]\<rparr>
           | AtActive \<Rightarrow> rest\<lparr>index := i, activeSet := insert i (activeSet s)\<rparr>)
      else s)"

datatype stepper_event = Active int | Next | Prev | Resume nat

fun stepper_step :: "stepper \<Rightarrow> stepper_event \<Rightarrow> stepper" where
  "stepper_step s (Active i) = active i s"
| "stepper_step s Next = next_step s"
| "stepper_step s Prev = prev_step s"
| "stepper_step s (Resume k) = resume k s"

text \<open>The navigation enables the steps that have been active.\<close>

definition disable :: "stepper \<Rightarrow> int \<Rightarrow> bool" where
  "disable s i \<longleftrightarrow> \<not> isActive s i"

section \<open>Footer\<close>

text \<open>The buttons the footer shows for a stepper (\<open>None\<close>: no stepper was provided).\<close>

definition footer_buttons :: "stepper option \<Rightarrow> string list" where
  "footer_buttons st =
     (let isF = (case st of None \<Rightarrow> True | Some s \<Rightarrow> isFirst (index s));
          isL = (case st of None \<Rightarrow> True | Some s \<Rightarrow> isLast s (index s));
          cancel = (case st of None \<Rightarrow> True | Some s \<Rightarrow> showCancel s \<noteq> False)
      in if st = None then []
         else (if cancel then [''onCancel''] else []) @ (if \<not> isF then [''prev''] else []) @
              (if isL then [''onFinish''] else [''next'']))"

definition footer_disabled :: "stepper option \<Rightarrow> bool \<Rightarrow> bool" where
  "footer_disabled st disabledButton \<longleftrightarrow>
     (case st of None \<Rightarrow> False | Some s \<Rightarrow> isLoading s) \<or> disabledButton"

section \<open>Invariant\<close>

text \<open>
  The current step exists and has been active, and every call in progress has a target that
  exists.  The step array is not changed by the stepper itself.
\<close>

definition stepper_inv :: "stepper \<Rightarrow> bool" where
  "stepper_inv s \<longleftrightarrow> 0 \<le> index s \<and> index s < int (length (steps s)) \<and> index s \<in> activeSet s \<and>
     (\<forall>i \<in> activeSet s. 0 \<le> i \<and> i < int (length (steps s))) \<and>
     (\<forall>r \<in> set (running s). 0 \<le> fst (snd r) \<and> fst (snd r) < int (length (steps s)))"

lemma active_inv: "stepper_inv s \<Longrightarrow> stepper_inv (active i s)"
  by (auto simp: active_def stepper_inv_def Let_def)

lemma resume_inv:
  assumes "stepper_inv s"
  shows "stepper_inv (resume k s)"
proof (cases "k < length (running s)")
  case True
  obtain st i f a where r: "running s ! k = (st, i, f, a)" by (cases "running s ! k") auto
  then have i: "0 \<le> i" "i < int (length (steps s))"
    using assms True nth_mem [OF True] by (auto simp: stepper_inv_def)
  let ?ok = "\<lambda>r. 0 \<le> fst (snd r) \<and> fst (snd r) < int (length (steps s))"
  have all: "\<forall>r \<in> set (running s). ?ok r" using assms by (simp add: stepper_inv_def)
  then have rest: "\<forall>r \<in> set (remove_nth k (running s)). ?ok r"
    using set_remove_nth_subset [of k "running s"] by (meson subsetD)
  have upd: "\<forall>r \<in> set ((running s)[k := (AtActive, i, f, b)]). ?ok r" for b
  proof
    fix q
    assume "q \<in> set ((running s)[k := (AtActive, i, f, b)])"
    then have "q = (AtActive, i, f, b) \<or> q \<in> set (running s)"
      using set_update_subset_insert [of "running s" k "(AtActive, i, f, b)"] by blast
    then show "?ok q" using all i by (elim disjE) simp_all
  qed
  consider "a \<noteq> Proceeds" | "a = Proceeds" "st = AtLeave" | "a = Proceeds" "st = AtActive"
    by (cases st) auto
  then show ?thesis
  proof cases
    case 1
    then have "a = IsFalse \<or> a = Rejects" by (cases a) auto
    then have "resume k s = s\<lparr>running := remove_nth k (running s)\<rparr>"
      using True by (auto simp: resume_def r Let_def)
    with rest assms show ?thesis by (simp add: stepper_inv_def)
  next
    case 2
    then have "resume k s = s\<lparr>running := (running s)[k := (AtActive, i, f, executeBeforeActive s i f)]\<rparr>"
      using True by (simp add: resume_def r Let_def)
    with upd assms show ?thesis by (simp add: stepper_inv_def)
  next
    case 3
    then have "resume k s = s\<lparr>running := remove_nth k (running s), index := i,
        activeSet := insert i (activeSet s)\<rparr>"
      using True by (simp add: resume_def r Let_def)
    with rest assms i show ?thesis by (simp add: stepper_inv_def)
  qed
qed (simp add: resume_def assms)

lemma stepper_step_inv: "stepper_inv s \<Longrightarrow> stepper_inv (stepper_step s e)"
  by (cases e) (auto simp: active_inv resume_inv next_step_def prev_step_def)

interpretation stepper_sys: step_system stepper_step stepper_inv
  by unfold_locales (rule stepper_step_inv)

text \<open>However the calls of \<open>active\<close>, \<open>next\<close> and \<open>prev\<close> and the answers of their hooks
  interleave, the current step stays a step of the array that the navigation has enabled.\<close>

theorem stepper_stays_valid:
  assumes "stepper_inv s"
  shows "0 \<le> index (foldl stepper_step s es) \<and>
    index (foldl stepper_step s es) < int (length (steps (foldl stepper_step s es))) \<and>
    \<not> disable (foldl stepper_step s es) (index (foldl stepper_step s es))"
  using stepper_sys.run_inv [OF assms, of es] by (simp add: stepper_inv_def disable_def isActive_def)

text \<open>One uninterrupted call of \<open>active\<close>: the step becomes the current one exactly if it exists, is
  not the current one, and neither the leave hook of the old step nor the enter hook of the
  new one answers \<open>false\<close> or rejects; otherwise the stepper is as before.\<close>

theorem stepper_active_outcome:
  assumes "running s = []"
  shows "foldl stepper_step s [Active i, Resume 0, Resume 0] =
    (if 0 \<le> i \<and> i < int (length (steps s)) \<and> index s \<noteq> i \<and>
        executeBeforeLeave s (index s) (index s < i) = Proceeds \<and>
        executeBeforeActive s i (index s < i) = Proceeds
     then s\<lparr>index := i, activeSet := insert i (activeSet s)\<rparr> else s)"
proof -
  have same: "executeBeforeActive (s\<lparr>running := xs\<rparr>) i f = executeBeforeActive s i f" for xs i f
    
  proof -
    have "getStep (s\<lparr>running := xs\<rparr>) i = getStep s i" by (simp add: getStep_def)
    then show ?thesis by (simp add: executeBeforeActive_def Let_def cong: option.case_cong)
  qed
  have idle: "s\<lparr>running := []\<rparr> = s" using assms by simp
  show ?thesis
    using assms idle hook_answer.exhaust [of "executeBeforeLeave s (index s) (index s < i)"]
      hook_answer.exhaust [of "executeBeforeActive s i (index s < i)"]
    by (auto simp: active_def resume_def remove_nth_def Let_def same)
qed

definition two_steps :: stepper where
  "two_steps = (new_stepper (\<lambda>_. []) \<lparr>op_steps = Some [default_step_options, default_step_options],
     op_index = None, op_isLoading = None, op_onCancelButtonText = None, op_onFinishButtonText = None,
     op_prevButtonText = None, op_nextButtonText = None, op_buttonSize = None, op_footerAlign = None,
     op_showCancel = None, op_beforeActive = None, op_beforeLeave = None, op_height = None\<rparr>)
     \<lparr>activeSet := {0}\<rparr>"

theorem stepper_active_outcome_witness:
  "index (foldl stepper_step two_steps [Active 1, Resume 0, Resume 0]) = 1"
proof -
  have "running two_steps = []" by (simp add: two_steps_def new_stepper_def)
  from stepper_active_outcome [OF this, of 1] show ?thesis
    by (simp add: two_steps_def new_stepper_def or_else_def executeBeforeLeave_def
        executeBeforeActive_def getStep_def new_step_def default_step_options_def)
qed

theorem stepper_stays_valid_witness:
  "index (foldl stepper_step two_steps [Next, Next, Resume 0, Prev]) < 2"
proof -
  have "stepper_inv two_steps"
    by (simp add: stepper_inv_def two_steps_def new_stepper_def or_else_def)
  from stepper_stays_valid [OF this, of "[Next, Next, Resume 0, Prev]"]
  have "index (foldl stepper_step two_steps [Next, Next, Resume 0, Prev]) <
      int (length (steps (foldl stepper_step two_steps [Next, Next, Resume 0, Prev])))" by blast
  moreover have "steps (stepper_step u e) = steps u" for u e
    by (cases e) (auto simp: active_def next_step_def prev_step_def resume_def Let_def
        split: prod.splits stage.splits)
  then have "steps (foldl stepper_step u es) = steps u" for u es
    by (induction es arbitrary: u) auto
  then have "length (steps (foldl stepper_step two_steps [Next, Next, Resume 0, Prev])) = 2"
    by (simp add: two_steps_def new_stepper_def or_else_def del: foldl.simps)
  ultimately show ?thesis by simp
qed

end
