(* ===== verification/Selection.thy ===== *)
theory Selection
  imports Prelude
begin

text \<open>
  Row selection of the complex table, \<^verbatim>\<open>src/web/src/components/table/complex/useTableSelection.ts\<close>:
  selected rows across pages, shift ranges, and the synchronisation with the table component.
  Rows are compared by identity.  The table component is its own list of selected rows
  (\<open>None\<close> while it is not mounted); its selection-change events that the code itself causes
  come while the syncing flag is up, so their handler returns at once.
\<close>

section \<open>State\<close>

record 'r selection =
  selectedRows :: "'r list"
  shiftPressed :: bool
  lastSelectedRow :: "'r option"
  rangeBaseRows :: "'r list"
  isSyncingTableSelection :: bool
  skipNextSelectionChange :: bool
  table :: "'r list option"
  tableData :: "'r list"
  selectable :: "'r \<Rightarrow> bool"
  emitted :: "'r list list"

definition setSelectedRows :: "'r list \<Rightarrow> 'r selection \<Rightarrow> 'r selection" where
  "setSelectedRows rows s = s\<lparr>selectedRows := rows, emitted := emitted s @ [rows]\<rparr>"

definition syncTableSelection :: "'r selection \<Rightarrow> 'r selection" where
  "syncTableSelection s =
     (case table s of
        None \<Rightarrow> s
      | Some _ \<Rightarrow> s\<lparr>table := Some (filter (\<lambda>row. row \<in> set (tableData s) \<and> selectable s row) (selectedRows s)),
                   isSyncingTableSelection := False\<rparr>)"

section \<open>Operations\<close>

text \<open>\<open>selectRow (row, selected)\<close>; without the second argument the row is toggled.\<close>

definition selectRow :: "'r \<Rightarrow> bool option \<Rightarrow> 'r selection \<Rightarrow> 'r selection" where
  "selectRow row sel s =
     (let selected = (case sel of None \<Rightarrow> row \<notin> set (selectedRows s) | Some b \<Rightarrow> b) in
      if \<not> selectable s row then s
      else
        let nextRows = (if selected
              then (if row \<in> set (selectedRows s) then selectedRows s else selectedRows s @ [row])
              else filter (\<lambda>item. item \<noteq> row) (selectedRows s))
        in syncTableSelection (setSelectedRows nextRows s))"

definition push_missing :: "'r list \<Rightarrow> 'r list \<Rightarrow> 'r list" where
  "push_missing base rows = foldl (\<lambda>acc row. if row \<in> set acc then acc else acc @ [row]) base rows"

text \<open>The answer is the returned boolean.\<close>

definition applyRangeSelection :: "'r \<Rightarrow> 'r selection \<Rightarrow> bool \<times> 'r selection" where
  "applyRangeSelection targetRow s =
     (case lastSelectedRow s of
        None \<Rightarrow> (False, s)
      | Some lastRow \<Rightarrow>
          (case (find_index (\<lambda>r. r = lastRow) (tableData s), find_index (\<lambda>r. r = targetRow) (tableData s)) of
             (Some startIndex, Some endIndex) \<Rightarrow>
               let a = min startIndex endIndex; b = max startIndex endIndex;
                   rangeRows = filter (selectable s) (drop a (take (b + 1) (tableData s)));
                   nextRows = push_missing (rangeBaseRows s) rangeRows
               in (True, syncTableSelection (setSelectedRows nextRows s))
           | _ \<Rightarrow> (False, s)))"

definition handleSelectionChange :: "'r list \<Rightarrow> 'r selection \<Rightarrow> 'r selection" where
  "handleSelectionChange rows s =
     (if isSyncingTableSelection s then s
      else if skipNextSelectionChange s then syncTableSelection (s\<lparr>skipNextSelectionChange := False\<rparr>)
      else
        let s = setSelectedRows rows s in
        if rows = [] then s\<lparr>lastSelectedRow := None, rangeBaseRows := []\<rparr> else s)"

definition handleSelect :: "'r list \<Rightarrow> 'r \<Rightarrow> 'r selection \<Rightarrow> 'r selection" where
  "handleSelect selection row s =
     (let (applied, t) = (if shiftPressed s then applyRangeSelection row s else (False, s)) in
      if applied then t\<lparr>skipNextSelectionChange := True\<rparr>
      else t\<lparr>lastSelectedRow := Some row, rangeBaseRows := filter (\<lambda>item. item \<noteq> row) selection\<rparr>)"

definition clearSelects :: "'r selection \<Rightarrow> 'r selection" where
  "clearSelects s = (syncTableSelection (setSelectedRows [] s))\<lparr>lastSelectedRow := None, rangeBaseRows := []\<rparr>"

definition pruneSelection :: "'r selection \<Rightarrow> 'r selection" where
  "pruneSelection s =
     (let nextRows = filter (\<lambda>row. row \<in> set (tableData s)) (selectedRows s);
          s = (if length nextRows \<noteq> length (selectedRows s) then setSelectedRows nextRows s else s);
          s = (case lastSelectedRow s of
                 None \<Rightarrow> s
               | Some row \<Rightarrow> if row \<notin> set nextRows then s\<lparr>lastSelectedRow := None, rangeBaseRows := []\<rparr> else s)
      in syncTableSelection s)"

definition toggleSelection :: "'r selection \<Rightarrow> 'r selection" where
  "toggleSelection s =
     (let selectableRows = filter (selectable s) (tableData s);
          allSelected = (selectableRows \<noteq> [] \<and> list_all (\<lambda>row. row \<in> set (selectedRows s)) selectableRows);
          nextRows = (if allSelected
            then filter (\<lambda>row. row \<notin> set selectableRows) (selectedRows s)
            else selectedRows s @ filter (\<lambda>row. row \<notin> set (selectedRows s)) selectableRows)
      in syncTableSelection (setSelectedRows nextRows s))"

text \<open>A click: whether it hit an interactive element, the shift key, a text selection on the page.\<close>

definition handleRowClick :: "'r \<Rightarrow> bool \<Rightarrow> bool \<Rightarrow> bool \<Rightarrow> 'r selection \<Rightarrow> 'r selection" where
  "handleRowClick row interactive shiftKey hasActiveTextSelection s =
     (if \<not> selectable s row \<or> (hasActiveTextSelection \<and> \<not> shiftKey) then s
      else if interactive then s
      else
        let (applied, t) = (if shiftKey then applyRangeSelection row s else (False, s)) in
        if applied then t
        else
          let selected = row \<notin> set (selectedRows t);
              u = selectRow row (Some selected) t
          in u\<lparr>lastSelectedRow := Some row,
               rangeBaseRows := (if selected then filter (\<lambda>item. item \<noteq> row) (selectedRows u)
                                 else selectedRows u)\<rparr>)"

definition handleKey :: "bool \<Rightarrow> bool \<Rightarrow> 'r selection \<Rightarrow> 'r selection" where
  "handleKey isShift down s = (if isShift then s\<lparr>shiftPressed := down\<rparr> else s)"

section \<open>Invariant\<close>

text \<open>The events of the table and the page; the rows the table reports are distinct.\<close>

datatype 'r sel_event =
    Click 'r bool bool bool
  | Select "'r list" 'r
  | SelectionChange "'r list"
  | Key bool bool
  | Clear
  | Prune
  | ToggleAll
  | SelectRow 'r "bool option"
  | Data "'r list"

fun sel_step :: "'r selection \<Rightarrow> 'r sel_event \<Rightarrow> 'r selection" where
  "sel_step s (Click r i k t) = handleRowClick r i k t s"
| "sel_step s (Select rows r) = (if distinct rows then handleSelect rows r s else s)"
| "sel_step s (SelectionChange rows) = (if distinct rows then handleSelectionChange rows s else s)"
| "sel_step s (Key b d) = handleKey b d s"
| "sel_step s Clear = clearSelects s"
| "sel_step s Prune = pruneSelection s"
| "sel_step s ToggleAll = toggleSelection s"
| "sel_step s (SelectRow r b) = selectRow r b s"
| "sel_step s (Data rows) = (if distinct rows then s\<lparr>tableData := rows\<rparr> else s)"

definition sel_inv :: "'r selection \<Rightarrow> bool" where
  "sel_inv s \<longleftrightarrow> distinct (selectedRows s) \<and> distinct (rangeBaseRows s) \<and> distinct (tableData s) \<and>
     \<not> isSyncingTableSelection s"

lemma push_missing_set: "set (push_missing base rows) = set base \<union> set rows"
  unfolding push_missing_def by (induction rows arbitrary: base) auto

lemma push_missing_distinct: "distinct base \<Longrightarrow> distinct (push_missing base rows)"
  unfolding push_missing_def by (induction rows arbitrary: base) auto

lemma sync_fields [simp]:
  "selectedRows (syncTableSelection s) = selectedRows s" "tableData (syncTableSelection s) = tableData s"
  "rangeBaseRows (syncTableSelection s) = rangeBaseRows s" "selectable (syncTableSelection s) = selectable s"
  "lastSelectedRow (syncTableSelection s) = lastSelectedRow s"
  "isSyncingTableSelection (syncTableSelection s) \<Longrightarrow> isSyncingTableSelection s"
  by (auto simp: syncTableSelection_def split: option.splits)

lemma sync_inv: "sel_inv s \<Longrightarrow> sel_inv (syncTableSelection s)"
  by (auto simp: sel_inv_def)

lemma set_inv: "sel_inv s \<Longrightarrow> distinct rows \<Longrightarrow> sel_inv (setSelectedRows rows s)"
  by (simp add: sel_inv_def setSelectedRows_def)

lemma sync_set_inv: "sel_inv s \<Longrightarrow> distinct rows \<Longrightarrow> sel_inv (syncTableSelection (setSelectedRows rows s))"
  by (intro sync_inv set_inv)

lemma inv_upd:
  "sel_inv s \<Longrightarrow> distinct xs \<Longrightarrow> sel_inv (s\<lparr>lastSelectedRow := r, rangeBaseRows := xs\<rparr>)"
  "sel_inv s \<Longrightarrow> sel_inv (s\<lparr>skipNextSelectionChange := b\<rparr>)"
  "sel_inv s \<Longrightarrow> sel_inv (s\<lparr>shiftPressed := b\<rparr>)"
  by (simp_all add: sel_inv_def)

lemma selectRow_inv:
  assumes "sel_inv s"
  shows "sel_inv (selectRow row b s)"
proof -
  have d: "distinct (selectedRows s)" using assms by (simp add: sel_inv_def)
  show ?thesis
    unfolding selectRow_def Let_def
    by (cases "selectable s row"; cases "row \<in> set (selectedRows s)"; cases b)
      (simp_all add: assms d sync_set_inv)
qed

definition range_rows :: "'r selection \<Rightarrow> nat \<Rightarrow> nat \<Rightarrow> 'r list" where
  "range_rows s i j = filter (selectable s) (drop (min i j) (take (max i j + 1) (tableData s)))"

lemma applyRange_eq:
  "applyRangeSelection row s =
     (case Option.bind (lastSelectedRow s) (\<lambda>l. find_index (\<lambda>r. r = l) (tableData s)) of
        None \<Rightarrow> (False, s)
      | Some i \<Rightarrow>
          (case find_index (\<lambda>r. r = row) (tableData s) of
             None \<Rightarrow> (False, s)
           | Some j \<Rightarrow> (True, syncTableSelection
               (setSelectedRows (push_missing (rangeBaseRows s) (range_rows s i j)) s))))"
  by (simp add: applyRangeSelection_def range_rows_def Let_def split: option.splits)

lemma range_inv:
  assumes "sel_inv s"
  shows "sel_inv (snd (applyRangeSelection row s))"
proof -
  have "distinct (push_missing (rangeBaseRows s) rows)" for rows
    using assms by (intro push_missing_distinct) (simp add: sel_inv_def)
  then have "sel_inv (syncTableSelection (setSelectedRows (push_missing (rangeBaseRows s) rows) s))" for rows
    using assms by (intro sync_set_inv)
  with assms show ?thesis by (simp add: applyRange_eq split: option.splits)
qed

lemma toggle_inv: "sel_inv s \<Longrightarrow> sel_inv (toggleSelection s)"
proof -
  assume "sel_inv s"
  moreover from this have "distinct (selectedRows s)" "distinct (tableData s)" by (simp_all add: sel_inv_def)
  ultimately show ?thesis unfolding toggleSelection_def Let_def by (intro sync_set_inv) auto
qed

lemma clear_inv: "sel_inv s \<Longrightarrow> sel_inv (clearSelects s)"
  unfolding clearSelects_def by (intro inv_upd sync_set_inv) auto

lemma prune_inv:
  assumes "sel_inv s"
  shows "sel_inv (pruneSelection s)"
proof -
  let ?n = "filter (\<lambda>row. row \<in> set (tableData s)) (selectedRows s)"
  define t where "t = (if length ?n \<noteq> length (selectedRows s) then setSelectedRows ?n s else s)"
  have "distinct ?n" using assms by (simp add: sel_inv_def)
  then have t: "sel_inv t" using assms set_inv [OF assms] by (simp add: t_def)
  have "sel_inv (case lastSelectedRow t of None \<Rightarrow> t
      | Some row \<Rightarrow> if row \<notin> set ?n then t\<lparr>lastSelectedRow := None, rangeBaseRows := []\<rparr> else t)"
    by (simp add: inv_upd t split: option.split)
  then show ?thesis unfolding pruneSelection_def Let_def t_def by (rule sync_inv)
qed

lemma change_inv:
  assumes "sel_inv s" "distinct rows"
  shows "sel_inv (handleSelectionChange rows s)"
proof -
  have a: "sel_inv (syncTableSelection (s\<lparr>skipNextSelectionChange := False\<rparr>))"
    using assms(1) by (intro sync_inv inv_upd)
  have b: "sel_inv (setSelectedRows rows s)" using assms by (rule set_inv)
  then have c: "sel_inv ((setSelectedRows rows s)\<lparr>lastSelectedRow := None, rangeBaseRows := []\<rparr>)"
    by (intro inv_upd) simp_all
  show ?thesis unfolding handleSelectionChange_def Let_def using assms(1) a b c by presburger
qed

lemma range_or_not_inv:
  assumes "sel_inv s" "(if k then applyRangeSelection row s else (False, s)) = (b, t)"
  shows "sel_inv t"
  using range_inv [OF assms(1), of row] assms by (cases k) auto

lemma select_inv:
  assumes "sel_inv s" "distinct rows"
  shows "sel_inv (handleSelect rows row s)"
proof -
  obtain b t where t: "(if shiftPressed s then applyRangeSelection row s else (False, s)) = (b, t)"
    by fastforce
  have "sel_inv t" using range_or_not_inv [OF assms(1) t] .
  then show ?thesis using assms(2) by (simp add: handleSelect_def t inv_upd)
qed

lemma click_inv:
  assumes "sel_inv s"
  shows "sel_inv (handleRowClick row i k x s)"
proof -
  obtain b t where t: "(if k then applyRangeSelection row s else (False, s)) = (b, t)" by fastforce
  have inv: "sel_inv t" using range_or_not_inv [OF assms t] .
  then have u: "sel_inv (selectRow row (Some c) t)" for c by (rule selectRow_inv)
  then have d: "distinct (selectedRows (selectRow row (Some c) t))" for c by (simp add: sel_inv_def)
  show ?thesis
    by (simp only: handleRowClick_def t Let_def prod.case) (simp add: assms inv u d inv_upd(1))
qed

lemma sel_step_inv: "sel_inv s \<Longrightarrow> sel_inv (sel_step s e)"
proof (cases e)
  case (Data rows)
  then show "sel_inv s \<Longrightarrow> ?thesis" by (simp add: sel_inv_def)
qed (simp_all add: click_inv select_inv change_inv clear_inv prune_inv toggle_inv selectRow_inv
    handleKey_def inv_upd)

interpretation selection_sys: step_system sel_step sel_inv
  by unfold_locales (rule sel_step_inv)

section \<open>What the operations select\<close>

text \<open>No row is ever selected twice, and the flag that silences the table's own events is down
  between handlers, whatever the user and the table do.\<close>

theorem selection_distinct:
  assumes "sel_inv s"
  shows "distinct (selectedRows (foldl sel_step s es)) \<and> \<not> isSyncingTableSelection (foldl sel_step s es)"
  using selection_sys.run_inv [OF assms, of es] by (simp add: sel_inv_def)

definition page :: "nat selection" where
  "page = \<lparr>selectedRows = [9], shiftPressed = False, lastSelectedRow = None, rangeBaseRows = [],
     isSyncingTableSelection = False, skipNextSelectionChange = False, table = Some [],
     tableData = [1, 2, 3, 4], selectable = (\<lambda>r. r \<noteq> 3), emitted = []\<rparr>"

theorem selection_distinct_witness:
  "distinct (selectedRows (foldl sel_step page [ToggleAll, SelectRow 2 (Some True), ToggleAll]))"
proof -
  have "sel_inv page" by (simp add: sel_inv_def page_def)
  from selection_distinct [OF this] show ?thesis by blast
qed

definition page_rows :: "'r selection \<Rightarrow> 'r set" where
  "page_rows s = {r \<in> set (tableData s). selectable s r}"

text \<open>``Select all'' works on the current page only: rows selected on other pages stay; if every
  selectable row of the page is selected they are all dropped, otherwise they are all
  selected; and the table then shows exactly the selectable selected rows of the page.\<close>

theorem toggleSelection_page:
  "set (selectedRows (toggleSelection s)) =
      (if page_rows s \<noteq> {} \<and> page_rows s \<subseteq> set (selectedRows s) then set (selectedRows s) - page_rows s
       else set (selectedRows s) \<union> page_rows s) \<and>
   (table s \<noteq> None \<longrightarrow>
      set (the (table (toggleSelection s))) = set (selectedRows (toggleSelection s)) \<inter> page_rows s)"
proof -
  let ?rows = "page_rows s"
  let ?rs = "filter (selectable s) (tableData s)"
  have all: "(?rs \<noteq> [] \<and> list_all (\<lambda>row. row \<in> set (selectedRows s)) ?rs) \<longleftrightarrow>
      ?rows \<noteq> {} \<and> ?rows \<subseteq> set (selectedRows s)"
    by (auto simp: page_rows_def list_all_iff filter_empty_conv)
  have "set (selectedRows (toggleSelection s)) =
      (if ?rows \<noteq> {} \<and> ?rows \<subseteq> set (selectedRows s) then set (selectedRows s) - ?rows
       else set (selectedRows s) \<union> ?rows)"
    unfolding toggleSelection_def Let_def all by (auto simp: setSelectedRows_def page_rows_def)
  moreover have "table s \<noteq> None \<Longrightarrow> set (the (table (toggleSelection s))) =
      set (selectedRows (toggleSelection s)) \<inter> ?rows"
    by (auto simp: toggleSelection_def Let_def syncTableSelection_def setSelectedRows_def page_rows_def)
  ultimately show ?thesis by blast
qed

theorem toggleSelection_page_witness:
  "table page \<noteq> None \<and> set (the (table (toggleSelection page))) = {1, 2, 4}"
proof -
  have "page_rows page = {1, 2, 4}" "selectedRows page = [9]" "table page \<noteq> None"
    by (auto simp: page_rows_def page_def)
  with toggleSelection_page [of page] show ?thesis by auto
qed

lemma nth_in_drop_take: "x \<in> set (drop a (take b xs)) \<longleftrightarrow> (\<exists>k. a \<le> k \<and> k < b \<and> k < length xs \<and> xs ! k = x)"
proof
  assume "x \<in> set (drop a (take b xs))"
  then obtain m where "m < length (drop a (take b xs))" "drop a (take b xs) ! m = x"
    by (auto simp: in_set_conv_nth)
  moreover from this have "a \<le> length (take b xs)" by (auto simp: min_def split: if_splits)
  ultimately show "\<exists>k. a \<le> k \<and> k < b \<and> k < length xs \<and> xs ! k = x"
    by (intro exI [of _ "a + m"]) auto
next
  assume "\<exists>k. a \<le> k \<and> k < b \<and> k < length xs \<and> xs ! k = x"
  then obtain k where "a \<le> k" "k < b" "k < length xs" "xs ! k = x" by blast
  then have "k - a < length (drop a (take b xs))" "drop a (take b xs) ! (k - a) = x" by auto
  then show "x \<in> set (drop a (take b xs))" using nth_mem by blast
qed

lemma find_index_distinct:
  "distinct xs \<Longrightarrow> i < length xs \<Longrightarrow> find_index (\<lambda>r. r = xs ! i) xs = Some i"
proof (cases xs "\<lambda>r. r = xs ! i" rule: find_index_cases)
  case none
  then show "i < length xs \<Longrightarrow> ?thesis" using nth_mem by blast
next
  case (some k)
  moreover assume "distinct xs" "i < length xs"
  ultimately show ?thesis by (simp add: nth_eq_iff_index_eq)
qed

text \<open>A shift click selects the rows of the base selection and every selectable row between the
  last selected row and the clicked one, in either direction.\<close>

theorem range_selection_rows:
  assumes "distinct (tableData s)" "i < length (tableData s)" "j < length (tableData s)"
    "lastSelectedRow s = Some (tableData s ! i)"
  shows "fst (applyRangeSelection (tableData s ! j) s) \<and>
    set (selectedRows (snd (applyRangeSelection (tableData s ! j) s))) =
      set (rangeBaseRows s) \<union>
      {tableData s ! k | k. min i j \<le> k \<and> k \<le> max i j \<and> selectable s (tableData s ! k)}"
proof -
  have "applyRangeSelection (tableData s ! j) s =
      (True, syncTableSelection (setSelectedRows (push_missing (rangeBaseRows s) (range_rows s i j)) s))"
    using find_index_distinct [OF assms(1,2)] find_index_distinct [OF assms(1,3)] assms(4)
    by (simp add: applyRange_eq)
  moreover have "set (range_rows s i j) =
      {tableData s ! k | k. min i j \<le> k \<and> k \<le> max i j \<and> selectable s (tableData s ! k)}"
    using assms(2,3) by (auto simp: range_rows_def nth_in_drop_take less_Suc_eq_le)
  ultimately show ?thesis by (simp add: push_missing_set setSelectedRows_def)
qed

lemma setcompr_filter: "{f k | k. k \<in> set ks \<and> P (f k)} = set (filter P (map f ks))"
  by auto

theorem range_selection_rows_witness:
  "set (selectedRows (snd (applyRangeSelection 1 (page\<lparr>lastSelectedRow := Some 4\<rparr>)))) = {1, 2, 4}"
proof -
  let ?s = "page\<lparr>lastSelectedRow := Some 4\<rparr>"
  have "set (selectedRows (snd (applyRangeSelection (tableData ?s ! 0) ?s))) =
      set (rangeBaseRows ?s) \<union>
      {tableData ?s ! k | k. min 3 0 \<le> k \<and> k \<le> max 3 0 \<and> selectable ?s (tableData ?s ! k)}"
    by (rule conjunct2 [OF range_selection_rows]) (simp_all add: page_def)
  also have "\<dots> = {tableData ?s ! k | k. k \<in> set [0, 1, 2, 3] \<and> selectable ?s (tableData ?s ! k)}"
    by (auto simp: page_def le_Suc_eq numeral_3_eq_3)
  also have "\<dots> = set (filter (selectable ?s) (map (\<lambda>k. tableData ?s ! k) [0, 1, 2, 3]))"
    by (rule setcompr_filter)
  also have "\<dots> = {1, 2, 4}" by (simp add: page_def)
  finally show ?thesis by (simp add: page_def)
qed

end
