(* ===== verification/Cron.thy ===== *)
theory Cron
  imports JsNumber
begin

text \<open>
  Schedules of the cron jobs, \<^verbatim>\<open>src/web/src/views/cronjob/cronjob/helper.ts\<close>: the eight kinds of
  schedule, their specification strings and back, the default schedules and their texts.
  Translations are the key with its arguments.
\<close>

section \<open>Tables\<close>

datatype label = Key string

definition specOptions :: "(label \<times> string) list" where
  "specOptions =
     [(Key ''cronjob.perMonth'', ''perMonth''), (Key ''cronjob.perWeek'', ''perWeek''),
      (Key ''cronjob.perDay'', ''perDay''), (Key ''cronjob.perHour'', ''perHour''),
      (Key ''cronjob.perNDay'', ''perNDay''), (Key ''cronjob.perNHour'', ''perNHour''),
      (Key ''cronjob.perNMinute'', ''perNMinute''), (Key ''cronjob.perNSecond'', ''perNSecond'')]"

definition weekOptions :: "(label \<times> rat) list" where
  "weekOptions =
     [(Key ''cronjob.monday'', 1), (Key ''cronjob.tuesday'', 2), (Key ''cronjob.wednesday'', 3),
      (Key ''cronjob.thursday'', 4), (Key ''cronjob.friday'', 5), (Key ''cronjob.saturday'', 6),
      (Key ''cronjob.sunday'', 0)]"

record mysql_arg =
  arg :: string
  description :: label
  supportedTypes :: "string list option"

definition mysqlArgs :: "mysql_arg list" where
  "mysqlArgs =
     [\<lparr>arg = ''--single-transaction'', description = Key ''cronjob.singleTransaction'', supportedTypes = None\<rparr>,
      \<lparr>arg = ''--quick'', description = Key ''cronjob.quick'', supportedTypes = None\<rparr>,
      \<lparr>arg = ''--skip-lock-tables'', description = Key ''cronjob.skipLockTables'', supportedTypes = None\<rparr>,
      \<lparr>arg = ''--set-gtid-purged=OFF'', description = Key ''cronjob.setGtidPurgedOff'',
       supportedTypes = Some [''mysql'', ''mysql-cluster'']\<rparr>]"

definition loadMysqlArgs :: "string \<Rightarrow> mysql_arg list" where
  "loadMysqlArgs dbType =
     filter (\<lambda>item. case supportedTypes item of None \<Rightarrow> True | Some ts \<Rightarrow> dbType \<in> set ts) mysqlArgs"

definition loadWeek :: "jsnum \<Rightarrow> label option" where
  "loadWeek i = map_option fst (find (\<lambda>week. Fin (snd week) = i) weekOptions)"

section \<open>Defaults\<close>

record spec_obj =
  specType :: string
  week :: jsnum
  day :: jsnum
  hour :: jsnum
  minute :: jsnum
  second :: jsnum

text \<open>\<open>{} as SpecObj\<close> with the five numbers: \<open>specType\<close> stays \<open>undefined\<close> (the empty string
  here) for a type that no case names.\<close>

definition loadDefaultSpec :: "string \<Rightarrow> spec_obj" where
  "loadDefaultSpec ty =
     (let item = \<lparr>specType = '''', week = Fin 0, day = Fin 0, hour = Fin 0, minute = Fin 0, second = Fin 0\<rparr> in
      if ty \<in> {''shell'', ''clean'', ''website'', ''log'', ''snapshot'', ''curl''}
        then item\<lparr>specType := ''perWeek'', week := Fin 1, hour := Fin 1, minute := Fin 30\<rparr>
      else if ty \<in> {''app'', ''database''}
        then item\<lparr>specType := ''perDay'', hour := Fin 2, minute := Fin 30\<rparr>
      else if ty \<in> {''directory'', ''cutWebsiteLog'', ''cleanLog'', ''syncIpGroup'', ''ntp''}
        then item\<lparr>specType := ''perDay'', hour := Fin 1, minute := Fin 30\<rparr>
      else item)"

definition loadDefaultSpecCustom :: "string \<Rightarrow> jstring" where
  "loadDefaultSpecCustom ty =
     (if ty \<in> {''shell'', ''clean'', ''website'', ''log'', ''snapshot'', ''curl''} then lit ''30 1 * * 1''
      else if ty \<in> {''app'', ''database''} then lit ''30 2 * * *''
      else if ty \<in> {''directory'', ''cutWebsiteLog'', ''ntp'', ''syncIpGroup''} then lit ''30 1 * * *''
      else lit ''30 1 * * 1'')"

section \<open>Specification strings\<close>

text \<open>The numbers of the form are natural numbers, inserted as decimals.\<close>

definition transObjToSpec :: "string \<Rightarrow> nat \<Rightarrow> nat \<Rightarrow> nat \<Rightarrow> nat \<Rightarrow> nat \<Rightarrow> jstring" where
  "transObjToSpec ty w d h m s =
     (let w = digits_of_nat w; d = digits_of_nat d; h = digits_of_nat h; m = digits_of_nat m;
          s = digits_of_nat s; sp = lit '' ''; st = lit ''*''
      in
      if ty = ''perMonth'' then m @ sp @ h @ sp @ d @ sp @ st @ sp @ st
      else if ty = ''perWeek'' then m @ sp @ h @ sp @ st @ sp @ st @ sp @ w
      else if ty = ''perNDay'' then m @ sp @ h @ sp @ lit ''*/'' @ d @ sp @ st @ sp @ st
      else if ty = ''perDay'' then m @ sp @ h @ sp @ st @ sp @ st @ sp @ st
      else if ty = ''perNHour'' then m @ sp @ lit ''*/'' @ h @ sp @ st @ sp @ st @ sp @ st
      else if ty = ''perHour'' then m @ sp @ st @ sp @ st @ sp @ st @ sp @ st
      else if ty = ''perNMinute'' then lit ''@every '' @ m @ lit ''m''
      else if ty = ''perNSecond'' then lit ''@every '' @ s @ lit ''s''
      else [])"

definition spec_item :: spec_obj where
  "spec_item = \<lparr>specType = ''perNMinute'', week = Fin 0, day = Fin 0, hour = Fin 0, minute = Fin 0,
     second = Fin 0\<rparr>"

definition transSpecToObj :: "jstring \<Rightarrow> spec_obj option" where
  "transSpecToObj spec =
     (let specs = js_split (lit '' '') spec; it = spec_item in
      if length specs = 2 then
        (if str_includes (specs ! 1) (lit ''m'')
         then Some (it\<lparr>specType := ''perNMinute'', minute := js_Number (replaceAll (specs ! 1) (lit ''m'') [])\<rparr>)
         else Some (it\<lparr>specType := ''perNSecond'', second := js_Number (replaceAll (specs ! 1) (lit ''s'') [])\<rparr>))
      else if length specs \<noteq> 5 \<or> specs ! 0 = lit ''*'' then None
      else
        let it = it\<lparr>minute := js_Number (specs ! 0)\<rparr> in
        if specs ! 1 = lit ''*'' then Some (it\<lparr>specType := ''perHour''\<rparr>)
        else if str_includes (specs ! 1) (lit ''*/'')
          then Some (it\<lparr>specType := ''perNHour'', hour := js_Number (replaceAll (specs ! 1) (lit ''*/'') [])\<rparr>)
        else
          let it = it\<lparr>hour := js_Number (specs ! 1)\<rparr> in
          if str_includes (specs ! 2) (lit ''*/'')
            then Some (it\<lparr>specType := ''perNDay'', day := js_Number (replaceAll (specs ! 2) (lit ''*/'') [])\<rparr>)
          else if specs ! 2 \<noteq> lit ''*''
            then Some (it\<lparr>specType := ''perMonth'', day := js_Number (specs ! 2)\<rparr>)
          else if specs ! 4 \<noteq> lit ''*''
            then Some (it\<lparr>specType := ''perWeek'', week := js_Number (specs ! 4)\<rparr>)
          else Some (it\<lparr>specType := ''perDay''\<rparr>))"

text \<open>\<open>loadZero\<close> of \<^verbatim>\<open>utils/date.ts\<close>: a leading zero below ten; the value is kept as a number.\<close>

datatype text_arg = ANumber jsnum | AZero bool jsnum | ALabel "label option"

definition loadZero :: "jsnum \<Rightarrow> text_arg" where
  "loadZero i = AZero (num_less i 10) i"

text \<open>The text, \<open>undefined\<close> as \<open>Inr None\<close>; \<open>Inl ()\<close> is the \<open>TypeError\<close> for a \<open>null\<close> object.\<close>

definition transSpecToStr :: "jstring \<Rightarrow> unit + (string \<times> text_arg list) option" where
  "transSpecToStr spec =
     (case transSpecToObj spec of
        None \<Rightarrow> Inl ()
      | Some o' \<Rightarrow> Inr
          (let ty = specType o' in
           if ty = ''perMonth''
             then Some (''cronjob.perMonthHelper'', [ANumber (day o'), ANumber (hour o'), loadZero (minute o')])
           else if ty = ''perWeek''
             then Some (''cronjob.perWeekHelper'', [ALabel (loadWeek (week o')), ANumber (hour o'), loadZero (minute o')])
           else if ty = ''perDay'' then Some (''cronjob.perDayHelper'', [ANumber (hour o'), loadZero (minute o')])
           else if ty = ''perHour'' then Some (''cronjob.perHourHelper'', [loadZero (minute o')])
           else if ty = ''perNDay''
             then Some (''cronjob.perNDayHelper'', [ANumber (day o'), ANumber (hour o'), loadZero (minute o')])
           else if ty = ''perNHour'' then Some (''cronjob.perNHourHelper'', [ANumber (hour o'), loadZero (minute o')])
           else if ty = ''perNMinute'' then Some (''cronjob.perNMinuteHelper'', [loadZero (minute o')])
           else if ty = ''perNSecond'' then Some (''cronjob.perNSecondHelper'', [loadZero (second o')])
           else None))"

definition hasBackup :: "string \<Rightarrow> bool" where
  "hasBackup ty \<longleftrightarrow> ty = ''app'' \<or> ty = ''website'' \<or> ty = ''database'' \<or> ty = ''directory'' \<or>
     ty = ''snapshot'' \<or> ty = ''log'' \<or> ty = ''cutWebsiteLog''"

definition cronjobTypes :: "(string \<times> label) list" where
  "cronjobTypes =
     [(''shell'', Key ''cronjob.shell''), (''app'', Key ''cronjob.app''), (''website'', Key ''cronjob.website''),
      (''database'', Key ''cronjob.database''), (''directory'', Key ''cronjob.directory''),
      (''log'', Key ''cronjob.log''), (''curl'', Key ''cronjob.curl''),
      (''cutWebsiteLog'', Key ''cronjob.cutWebsiteLog''), (''clean'', Key ''setting.diskClean''),
      (''snapshot'', Key ''cronjob.snapshot''), (''ntp'', Key ''cronjob.ntp''),
      (''syncIpGroup'', Key ''cronjob.syncIpGroup''), (''cleanLog'', Key ''cronjob.cleanLog'')]"

section \<open>Round trip\<close>

lemma digits_no: "\<not> is_digit c \<Longrightarrow> c \<notin> set (digits_of_nat n)"
  using digits_of_nat_digits by blast

lemma split_five:
  assumes "\<forall>w \<in> {a, b, c, d, e}. 32 \<notin> set w"
  shows "js_split [32] (a @ 32 # b @ 32 # c @ 32 # d @ 32 # e) = [a, b, c, d, e]"
  using assms by (simp add: js_split_unit split_unit_append_sep split_unit_fresh)

lemma digits_not_star [simp]: "digits_of_nat n \<noteq> [42]" "\<not> str_includes (digits_of_nat n) [42, 47]"
proof -
  have "42 \<notin> set (digits_of_nat n)" by (rule digits_no) (simp add: is_digit_def)
  then show "digits_of_nat n \<noteq> [42]" "\<not> str_includes (digits_of_nat n) [42, 47]"
    by (auto simp: str_includes_iff)
qed

lemma no_space_digits [simp]: "32 \<notin> set (digits_of_nat n)"
  by (rule digits_no) (simp add: is_digit_def)

lemma star_slash: "replaceAll (42 # 47 # digits_of_nat n) [42, 47] [] = digits_of_nat n"
  using replaceAll_prefix_once [of "[42, 47]" "[]" "digits_of_nat n" "[]"] by (simp add: startsWith_def)

lemma star_slash_includes [simp]: "str_includes (42 # 47 # s) [42, 47]"
  by (simp add: str_includes_def startsWith_def)

lemma star_not_includes [simp]: "\<not> str_includes [42] [42, 47]"
  by (simp add: str_includes_def startsWith_def)

lemma every_split:
  "32 \<notin> set w \<Longrightarrow> js_split [32] (lit ''@every '' @ w) = [lit ''@every'', w]"
  using split_unit_append_sep [of 32 "lit ''@every''" w]
  by (simp add: js_split_unit split_unit_fresh)

lemma unit_suffix: "replaceAll (digits_of_nat n @ [c]) [c] [] = digits_of_nat n" if "\<not> is_digit c"
proof -
  have "\<forall>d \<in> set (digits_of_nat n). d \<noteq> c" using digits_of_nat_digits that by blast
  then show ?thesis by (simp add: replaceAll_unit)
qed

text \<open>The object a schedule stands for: the numbers its kind uses, and zeros.\<close>

definition spec_of :: "string \<Rightarrow> nat \<Rightarrow> nat \<Rightarrow> nat \<Rightarrow> nat \<Rightarrow> nat \<Rightarrow> spec_obj" where
  "spec_of ty w d h m s =
     \<lparr>specType = ty,
      week = Fin (if ty = ''perWeek'' then of_nat w else 0),
      day = Fin (if ty \<in> {''perMonth'', ''perNDay''} then of_nat d else 0),
      hour = Fin (if ty \<in> {''perMonth'', ''perWeek'', ''perNDay'', ''perDay'', ''perNHour''} then of_nat h else 0),
      minute = Fin (if ty = ''perNSecond'' then 0 else of_nat m),
      second = Fin (if ty = ''perNSecond'' then of_nat s else 0)\<rparr>"

lemma transSpecToObj_five:
  assumes "\<forall>w \<in> {a, b, c, d, e}. 32 \<notin> set w" and "a \<noteq> [42]"
  shows "transSpecToObj (a @ [32] @ b @ [32] @ c @ [32] @ d @ [32] @ e) = Some
     (let it = spec_item\<lparr>minute := js_Number a\<rparr> in
      if b = [42] then it\<lparr>specType := ''perHour''\<rparr>
      else if str_includes b [42, 47] then it\<lparr>specType := ''perNHour'', hour := js_Number (replaceAll b [42, 47] [])\<rparr>
      else let it = it\<lparr>hour := js_Number b\<rparr> in
        if str_includes c [42, 47] then it\<lparr>specType := ''perNDay'', day := js_Number (replaceAll c [42, 47] [])\<rparr>
        else if c \<noteq> [42] then it\<lparr>specType := ''perMonth'', day := js_Number c\<rparr>
        else if e \<noteq> [42] then it\<lparr>specType := ''perWeek'', week := js_Number e\<rparr>
        else it\<lparr>specType := ''perDay''\<rparr>)"
proof -
  have "js_split [32] (a @ [32] @ b @ [32] @ c @ [32] @ d @ [32] @ e) = [a, b, c, d, e]"
    using split_five [OF assms(1)] by simp
  then show ?thesis
    using assms(2) by (simp add: transSpecToObj_def Let_def)
qed

text \<open>The five words of each kind of schedule that is written as a crontab line.\<close>

definition cron_words :: "string \<Rightarrow> nat \<Rightarrow> nat \<Rightarrow> nat \<Rightarrow> nat \<Rightarrow> (jstring \<times> jstring \<times> jstring \<times> jstring) option" where
  "cron_words ty w d h m =
     (let w = digits_of_nat w; d = digits_of_nat d; h = digits_of_nat h in
      if ty = ''perMonth'' then Some (h, d, [42], [42])
      else if ty = ''perWeek'' then Some (h, [42], [42], w)
      else if ty = ''perNDay'' then Some (h, 42 # 47 # d, [42], [42])
      else if ty = ''perDay'' then Some (h, [42], [42], [42])
      else if ty = ''perNHour'' then Some (42 # 47 # h, [42], [42], [42])
      else if ty = ''perHour'' then Some ([42], [42], [42], [42])
      else None)"

lemma transObjToSpec_words:
  assumes "cron_words ty w d h m = Some (b, c, e, f)"
  shows "transObjToSpec ty w d h m s = digits_of_nat m @ [32] @ b @ [32] @ c @ [32] @ e @ [32] @ f"
  using assms by (auto simp: cron_words_def transObjToSpec_def Let_def split: if_splits)

lemma cron_words_no_space:
  assumes "cron_words ty w d h m = Some (b, c, e, f)"
  shows "\<forall>x \<in> {digits_of_nat m, b, c, e, f}. 32 \<notin> set x"
  using assms by (auto simp: cron_words_def Let_def split: if_splits)

lemma words_round_trip:
  assumes "cron_words ty w d h m = Some (b, c, e, f)"
  shows "transSpecToObj (transObjToSpec ty w d h m s) = Some (spec_of ty w d h m s)"
proof -
  have ty: "ty \<in> {''perMonth'', ''perWeek'', ''perNDay'', ''perDay'', ''perNHour'', ''perHour''}"
    using assms by (auto simp: cron_words_def Let_def split: if_splits)
  note eq = transObjToSpec_words [OF assms]
    transSpecToObj_five [OF cron_words_no_space [OF assms] digits_not_star(1)]
  from ty consider "ty = ''perMonth''" | "ty = ''perWeek''" | "ty = ''perNDay''" | "ty = ''perDay''"
    | "ty = ''perNHour''" | "ty = ''perHour''" by (elim insertE emptyE) iprover+
  then show ?thesis
  proof cases
    case 1
    then have "b = digits_of_nat h" "c = digits_of_nat d" "e = [42]" "f = [42]"
      using assms by (auto simp: cron_words_def Let_def)
    then show ?thesis unfolding eq by (simp add: 1 spec_of_def spec_item_def)
  next
    case 2
    then have "b = digits_of_nat h" "c = [42]" "e = [42]" "f = digits_of_nat w"
      using assms by (auto simp: cron_words_def Let_def)
    then show ?thesis unfolding eq by (simp add: 2 spec_of_def spec_item_def)
  next
    case 3
    then have "b = digits_of_nat h" "c = 42 # 47 # digits_of_nat d" "e = [42]" "f = [42]"
      using assms by (auto simp: cron_words_def Let_def)
    then show ?thesis unfolding eq by (simp add: 3 spec_of_def spec_item_def star_slash)
  next
    case 4
    then have "b = digits_of_nat h" "c = [42]" "e = [42]" "f = [42]"
      using assms by (auto simp: cron_words_def Let_def)
    then show ?thesis unfolding eq by (simp add: 4 spec_of_def spec_item_def)
  next
    case 5
    then have "b = 42 # 47 # digits_of_nat h" "c = [42]" "e = [42]" "f = [42]"
      using assms by (auto simp: cron_words_def Let_def)
    then show ?thesis unfolding eq by (simp add: 5 spec_of_def spec_item_def star_slash)
  next
    case 6
    then have "b = [42]" "c = [42]" "e = [42]" "f = [42]"
      using assms by (auto simp: cron_words_def Let_def)
    then show ?thesis unfolding eq by (simp add: 6 spec_of_def spec_item_def)
  qed
qed

lemma words_round_trip_ex:
  assumes "cron_words ty w d h m \<noteq> None"
  shows "transSpecToObj (transObjToSpec ty w d h m s) = Some (spec_of ty w d h m s)"
  using assms words_round_trip by (cases "cron_words ty w d h m") auto

lemma crontab_kinds [simp]: "cron_words ''perWeek'' w d h m \<noteq> None" "cron_words ''perDay'' w d h m \<noteq> None"
  by (simp_all add: cron_words_def Let_def)

text \<open>C26: Reading back what was written: for each of the eight kinds of schedule and any numbers,
  \<open>transSpecToObj\<close> of the string that \<open>transObjToSpec\<close> makes has the same kind and the
  numbers that kind uses.\<close>

theorem cron_spec_round_trip:
  assumes "ty \<in> set (map snd specOptions)"
  shows "transSpecToObj (transObjToSpec ty w d h m s) = Some (spec_of ty w d h m s)"
proof (cases "cron_words ty w d h m")
  case (Some q)
  then show ?thesis by (cases q) (auto intro: words_round_trip)
next
  case None
  then have "ty \<notin> {''perMonth'', ''perWeek'', ''perNDay'', ''perDay'', ''perNHour'', ''perHour''}"
    by (auto simp: cron_words_def Let_def)
  with assms have "ty \<in> {''perNMinute'', ''perNSecond''}" by (simp add: specOptions_def)
  then consider "ty = ''perNMinute''" | "ty = ''perNSecond''" by (elim insertE emptyE) iprover+
  then show ?thesis
  proof cases
    case 1
    have "32 \<notin> set (digits_of_nat m @ lit ''m'')" by simp
    from every_split [OF this] show ?thesis
      using unit_suffix [of 109 m] 1
      by (simp add: transObjToSpec_def transSpecToObj_def spec_of_def spec_item_def is_digit_def)
  next
    case 2
    have "32 \<notin> set (digits_of_nat s @ lit ''s'')" by simp
    from every_split [OF this] have "js_split [32] (lit ''@every '' @ digits_of_nat s @ lit ''s'') =
        [lit ''@every'', digits_of_nat s @ lit ''s'']" .
    moreover have "109 \<notin> set (digits_of_nat s)" by (rule digits_no) (simp add: is_digit_def)
    ultimately show ?thesis
      using unit_suffix [of 115 s] 2
      by (simp add: transObjToSpec_def transSpecToObj_def spec_of_def spec_item_def is_digit_def)
  qed
qed

theorem cron_spec_round_trip_witness:
  "transSpecToObj (transObjToSpec ''perWeek'' 3 0 4 5 0) = Some (spec_of ''perWeek'' 3 0 4 5 0)"
  by (rule cron_spec_round_trip) (simp add: specOptions_def)

section \<open>The two defaults\<close>

lemma default_lines:
  "transSpecToObj (lit ''30 1 * * 1'') = Some (spec_of ''perWeek'' 1 0 1 30 0)"
  "transSpecToObj (lit ''30 2 * * *'') = Some (spec_of ''perDay'' 0 0 2 30 0)"
  "transSpecToObj (lit ''30 1 * * *'') = Some (spec_of ''perDay'' 0 0 1 30 0)"
proof -
  have n: "digits_of_nat 30 = [51, 48]" "digits_of_nat (Suc 0) = [49]" "digits_of_nat 2 = [50]"
    by (simp_all add: digits_of_nat.simps)
  have "transObjToSpec ''perWeek'' 1 0 1 30 0 = lit ''30 1 * * 1''"
    "transObjToSpec ''perDay'' 0 0 2 30 0 = lit ''30 2 * * *''"
    "transObjToSpec ''perDay'' 0 0 1 30 0 = lit ''30 1 * * *''"
    by (simp_all add: transObjToSpec_def n of_char_def)
  then show "transSpecToObj (lit ''30 1 * * 1'') = Some (spec_of ''perWeek'' 1 0 1 30 0)"
    "transSpecToObj (lit ''30 2 * * *'') = Some (spec_of ''perDay'' 0 0 2 30 0)"
    "transSpecToObj (lit ''30 1 * * *'') = Some (spec_of ''perDay'' 0 0 1 30 0)"
    by (metis words_round_trip_ex crontab_kinds)+
qed

text \<open>The two tables of defaults, \<open>loadDefaultSpec\<close> for the form and
  \<open>loadDefaultSpecCustom\<close> for the free text, describe the same schedule for every type of job
  offered by \<open>cronjobTypes\<close> but one: for \<open>cleanLog\<close> the form starts with every day at 1:30
  and the text with every Monday at 1:30.\<close>

theorem cron_defaults_agree:
  "filter (\<lambda>ty. transSpecToObj (loadDefaultSpecCustom ty) \<noteq> Some (loadDefaultSpec ty)) (map fst cronjobTypes) =
     [''cleanLog'']
   \<and> specType (loadDefaultSpec ''cleanLog'') = ''perDay''
   \<and> map_option specType (transSpecToObj (loadDefaultSpecCustom ''cleanLog'')) = Some ''perWeek''"
  by (simp add: cronjobTypes_def loadDefaultSpecCustom_def loadDefaultSpec_def default_lines spec_of_def del: lit_simps)

text \<open>A text that is not a schedule has no object, and the functions that show one then read
  a field of \<open>null\<close>.\<close>

lemma transSpecToStr_raises: "transSpecToStr spec = Inl () \<longleftrightarrow> transSpecToObj spec = None"
  by (simp add: transSpecToStr_def split: option.splits)

end
