(* ===== verification/Version.thy ===== *)
theory Version
  imports JsNumber
begin

text \<open>
  Version numbers, \<^verbatim>\<open>src/web/src/utils/version.ts\<close>: the decimal runs of a text, and the
  comparison that decides which features of an installed application the pages offer.
  \<open>parseInt\<close> of a run of digits is its exact value (the code's doubles are exact below
  $2^{53}$).  The comparison is shown to be a total preorder, and the type class
  \<open>preorder\<close> is instantiated for texts read as versions.
\<close>

section \<open>The code\<close>

definition isDigit :: "nat \<Rightarrow> bool" where
  "isDigit char \<longleftrightarrow> is_digit char"

text \<open>The loop of \<open>extractNumbers\<close> at index \<open>i\<close>, with the index the current run started at
  (\<open>-1\<close> is \<open>None\<close>); \<open>u\<close> is the rest of the text from \<open>i\<close> on.\<close>

fun extract_loop :: "jstring \<Rightarrow> nat \<Rightarrow> nat option \<Rightarrow> jstring list \<Rightarrow> jstring \<Rightarrow> jstring list \<times> nat option" where
  "extract_loop version i start numbers [] = (numbers, start)"
| "extract_loop version i start numbers (c # u) =
     (if isDigit c then
        (case start of
           None \<Rightarrow> extract_loop version (Suc i) (Some i) numbers u
         | Some s \<Rightarrow> extract_loop version (Suc i) (Some s) numbers u)
      else
        (case start of
           None \<Rightarrow> extract_loop version (Suc i) None numbers u
         | Some s \<Rightarrow> extract_loop version (Suc i) None (numbers @ [take (i - s) (drop s version)]) u))"

definition extractNumbers :: "jstring \<Rightarrow> jstring list" where
  "extractNumbers version =
     (case extract_loop version 0 None [] version of
        (numbers, None) \<Rightarrow> numbers
      | (numbers, Some start) \<Rightarrow> numbers @ [drop start version])"

text \<open>The loop of \<open>compareVersion\<close> over the two padded arrays.\<close>

fun compare_loop :: "jstring list \<Rightarrow> jstring list \<Rightarrow> bool" where
  "compare_loop (a # as) (b # bs) =
     (let v1 = nat_of_digits a; v2 = nat_of_digits b in
      if v1 \<noteq> v2 then v1 > v2 else compare_loop as bs)"
| "compare_loop as bs = True"

definition compareVersion :: "jstring \<Rightarrow> jstring \<Rightarrow> bool" where
  "compareVersion version1 version2 =
     (let v1s = extractNumbers version1; v2s = extractNumbers version2;
          maxLen = max (length v1s) (length v2s);
          v1s = v1s @ replicate (maxLen - length v1s) (lit ''0'');
          v2s = v2s @ replicate (maxLen - length v2s) (lit ''0'')
      in compare_loop v1s v2s)"

section \<open>The decimal runs\<close>

text \<open>The runs by structural recursion: \<open>cur\<close> is the run being read.\<close>

fun runs :: "jstring \<Rightarrow> jstring \<Rightarrow> jstring list" where
  "runs cur [] = (if cur = [] then [] else [cur])"
| "runs cur (c # u) =
     (if is_digit c then runs (cur @ [c]) u
      else if cur = [] then runs [] u else cur # runs [] u)"

lemma extract_loop_runs:
  assumes "version = p @ cur @ u" "i = length p + length cur" "\<forall>c \<in> set cur. is_digit c"
    "start = (if cur = [] then None else Some (length p))"
  shows "(case extract_loop version i start numbers u of
            (ns, None) \<Rightarrow> ns | (ns, Some s) \<Rightarrow> ns @ [drop s version]) = numbers @ runs cur u"
  using assms
proof (induction u arbitrary: p cur i start numbers)
  case Nil
  then show ?case by simp
next
  case (Cons c u)
  show ?case
  proof (cases "is_digit c")
    case True
    have "(case extract_loop version (Suc i) (Some (length p)) numbers u of
            (ns, None) \<Rightarrow> ns | (ns, Some s) \<Rightarrow> ns @ [drop s version]) = numbers @ runs (cur @ [c]) u"
      by (rule Cons.IH [of p "cur @ [c]"]) (use Cons.prems True in auto)
    with True Cons.prems show ?thesis by (cases "cur = []") (simp_all add: isDigit_def)
  next
    case False
    have "(case extract_loop version (Suc i) None ns' u of
            (ns, None) \<Rightarrow> ns | (ns, Some s) \<Rightarrow> ns @ [drop s version]) = ns' @ runs [] u" for ns'
      by (rule Cons.IH [of "p @ cur @ [c]" "[]"]) (use Cons.prems in auto)
    with False Cons.prems show ?thesis by (cases "cur = []") (simp_all add: isDigit_def)
  qed
qed

lemma extractNumbers_runs: "extractNumbers version = runs [] version"
  using extract_loop_runs [of version "[]" "[]" version 0 None "[]"]
  by (simp add: extractNumbers_def)

lemma runs_digits: "\<forall>c \<in> set d. is_digit c \<Longrightarrow> runs cur (d @ u) = runs (cur @ d) u"
  by (induction d arbitrary: cur) auto

lemma runs_number:
  "\<forall>c \<in> set d. is_digit c \<Longrightarrow> d \<noteq> [] \<Longrightarrow> \<not> is_digit c \<Longrightarrow> runs [] (d @ c # u) = d # runs [] u"
  by (simp add: runs_digits)

text \<open>A dotted version is read as its numbers.\<close>

definition version_text :: "nat list \<Rightarrow> jstring" where
  "version_text ns = js_join (lit ''.'') (map digits_of_nat ns)"

lemma extractNumbers_version_text: "extractNumbers (version_text ns) = map digits_of_nat ns"
proof -
  have "runs [] (js_join [46] (map digits_of_nat ns)) = map digits_of_nat ns"
  proof (induction ns)
    case (Cons n ns)
    show ?case
    proof (cases ns)
      case Nil
      have "runs [] (digits_of_nat n @ []) = [digits_of_nat n]"
        unfolding runs_digits [OF digits_of_nat_digits] by simp
      with Nil show ?thesis by simp
    next
      case (Cons m ms)
      then have "map digits_of_nat ns \<noteq> []" by simp
      then show ?thesis
        using Cons.IH digits_of_nat_digits [of n]
        by (simp add: js_join_Cons runs_number is_digit_def)
    qed
  qed simp
  then show ?thesis by (simp add: extractNumbers_runs version_text_def)
qed

section \<open>The order\<close>

text \<open>A version as the sequence of its numbers, followed by zeros; and the order on
  sequences the comparison decides.\<close>

definition component :: "jstring \<Rightarrow> nat \<Rightarrow> nat" where
  "component version i = (if i < length (extractNumbers version)
     then nat_of_digits (extractNumbers version ! i) else 0)"

definition at_least :: "(nat \<Rightarrow> nat) \<Rightarrow> (nat \<Rightarrow> nat) \<Rightarrow> bool" where
  "at_least f g \<longleftrightarrow> f = g \<or> (\<exists>i. f i > g i \<and> (\<forall>j < i. f j = g j))"

lemma at_least_refl [simp]: "at_least f f"
  by (simp add: at_least_def)

lemma at_least_trans:
  assumes "at_least f g" "at_least g h"
  shows "at_least f h"
proof (cases "f = g \<or> g = h")
  case False
  with assms obtain i k where i: "f i > g i" "\<forall>j < i. f j = g j" and k: "g k > h k" "\<forall>j < k. g j = h j"
    by (auto simp: at_least_def)
  consider "i < k" | "i = k" | "k < i" by linarith
  then have "f (min i k) > h (min i k)"
    by cases (use i k in \<open>auto simp: min_def intro: less_trans\<close>)
  moreover have "\<forall>j < min i k. f j = h j" using i k by simp
  ultimately show ?thesis unfolding at_least_def by blast
qed (use assms in auto)

lemma at_least_total: "at_least f g \<or> at_least g f"
proof (cases "f = g")
  case False
  define i where "i = (LEAST i. f i \<noteq> g i)"
  from False have "\<exists>i. f i \<noteq> g i" by auto
  then have "f i \<noteq> g i" unfolding i_def by (rule LeastI_ex)
  moreover have "\<forall>j < i. f j = g j" unfolding i_def using not_less_Least by blast
  ultimately show ?thesis unfolding at_least_def by (metis linorder_neqE_nat)
qed simp

lemma at_least_antisym:
  assumes "at_least f g" "at_least g f"
  shows "f = g"
proof (rule ccontr)
  assume "f \<noteq> g"
  with assms obtain i k where i: "f i > g i" "\<forall>j < i. f j = g j" and k: "g k > f k" "\<forall>j < k. g j = f j"
    by (auto simp: at_least_def)
  consider "i < k" | "i = k" | "k < i" by linarith
  then show False using i k by cases auto
qed

lemma at_least_shift:
  assumes "f 0 = g 0"
  shows "at_least f g \<longleftrightarrow> at_least (\<lambda>i. f (Suc i)) (\<lambda>i. g (Suc i))" (is "?a \<longleftrightarrow> ?b")
proof
  assume ?a
  then show ?b
  proof (cases "f = g")
    case False
    with \<open>?a\<close> obtain i where i: "f i > g i" "\<forall>j < i. f j = g j" by (auto simp: at_least_def)
    with assms obtain k where "i = Suc k" by (cases i) auto
    with i show ?thesis unfolding at_least_def by (metis Suc_mono)
  qed simp
next
  assume ?b
  show ?a
  proof (cases "(\<lambda>i. f (Suc i)) = (\<lambda>i. g (Suc i))")
    case True
    have "f = g"
    proof
      fix i show "f i = g i" using True assms by (cases i) (auto dest: fun_cong)
    qed
    then show ?thesis by simp
  next
    case False
    with \<open>?b\<close> obtain i where i: "f (Suc i) > g (Suc i)" "\<forall>j < i. f (Suc j) = g (Suc j)"
      by (auto simp: at_least_def)
    have "\<forall>j < Suc i. f j = g j"
    proof (intro allI impI)
      fix j assume "j < Suc i"
      then show "f j = g j" using i(2) assms by (cases j) auto
    qed
    with i(1) show ?thesis unfolding at_least_def by blast
  qed
qed

definition padded :: "jstring list \<Rightarrow> nat \<Rightarrow> nat" where
  "padded ns i = (if i < length ns then nat_of_digits (ns ! i) else 0)"

lemma padded_simps [simp]:
  "padded [] = (\<lambda>i. 0)" "padded (a # as) 0 = nat_of_digits a" "padded (a # as) (Suc i) = padded as i"
  by (auto simp: padded_def)

lemma padded_zeros: "padded (ns @ replicate k [48]) = padded ns"
  by (rule ext) (auto simp: padded_def nth_append nat_of_digits_Cons)

lemma compare_loop_at_least:
  "length as = length bs \<Longrightarrow> compare_loop as bs \<longleftrightarrow> at_least (padded as) (padded bs)"
proof (induction as bs rule: compare_loop.induct)
  case (1 a as b bs)
  show ?case
  proof (cases "nat_of_digits a = nat_of_digits b")
    case True
    with 1 have "compare_loop as bs \<longleftrightarrow> at_least (padded as) (padded bs)" by simp
    with True show ?thesis using at_least_shift [of "padded (a # as)" "padded (b # bs)"] by simp
  next
    case False
    have "at_least (padded (a # as)) (padded (b # bs)) \<longleftrightarrow> nat_of_digits a > nat_of_digits b"
    proof
      assume "at_least (padded (a # as)) (padded (b # bs))"
      then consider "padded (a # as) = padded (b # bs)"
        | i where "padded (a # as) i > padded (b # bs) i" "\<forall>j < i. padded (a # as) j = padded (b # bs) j"
        by (auto simp: at_least_def)
      then show "nat_of_digits a > nat_of_digits b"
      proof cases
        case 1
        then have "padded (a # as) 0 = padded (b # bs) 0" by simp
        with False show ?thesis by simp
      next
        case (2 i)
        with False show ?thesis by (cases i) auto
      qed
    next
      assume "nat_of_digits a > nat_of_digits b"
      then have "padded (a # as) 0 > padded (b # bs) 0" by simp
      then show "at_least (padded (a # as)) (padded (b # bs))" unfolding at_least_def by blast
    qed
    with False show ?thesis by simp
  qed
qed auto

lemma component_padded: "component version = padded (extractNumbers version)"
  by (rule ext) (simp add: component_def padded_def)

lemma compareVersion_at_least: "compareVersion v w \<longleftrightarrow> at_least (component v) (component w)"
  unfolding compareVersion_def Let_def component_padded
  by (subst compare_loop_at_least) (auto simp: padded_zeros)

text \<open>\<open>compareVersion v w\<close> says that the numbers of \<open>v\<close>, with zeros for the missing
  ones, are those of \<open>w\<close> or greater at the first place where they differ; so it is reflexive,
  transitive and total, and both ways at once means the same numbers up to trailing zeros.\<close>

theorem compareVersion_order:
  "(compareVersion v w \<longleftrightarrow> component v = component w
     \<or> (\<exists>i. component v i > component w i \<and> (\<forall>j < i. component v j = component w j)))
   \<and> compareVersion v v
   \<and> (compareVersion u v \<and> compareVersion v w \<longrightarrow> compareVersion u w)
   \<and> (compareVersion v w \<or> compareVersion w v)
   \<and> (compareVersion v w \<and> compareVersion w v \<longleftrightarrow> component v = component w)"
proof (intro conjI)
  show "compareVersion v w \<longleftrightarrow> component v = component w
     \<or> (\<exists>i. component v i > component w i \<and> (\<forall>j < i. component v j = component w j))"
    by (simp only: compareVersion_at_least at_least_def)
  show "compareVersion v v" by (simp add: compareVersion_at_least)
  show "compareVersion u v \<and> compareVersion v w \<longrightarrow> compareVersion u w"
    unfolding compareVersion_at_least by (blast intro: at_least_trans)
  show "compareVersion v w \<or> compareVersion w v"
    unfolding compareVersion_at_least by (rule at_least_total)
  show "compareVersion v w \<and> compareVersion w v \<longleftrightarrow> component v = component w"
    unfolding compareVersion_at_least by (metis at_least_antisym at_least_refl)
qed

theorem compareVersion_order_witness:
  "compareVersion (version_text [2, 1]) (version_text [2]) \<and> compareVersion (version_text [2]) (version_text [1, 9])
     \<and> compareVersion (version_text [2, 1]) (version_text [1, 9])"
  using compareVersion_order [where u = "version_text [2, 1]" and v = "version_text [2]" and w = "version_text [1, 9]"]
  by (simp add: compareVersion_def extractNumbers_version_text nat_of_digits_Cons Let_def)

section \<open>Versions as a preorder\<close>

datatype version = Version (version_of: jstring)

instantiation version :: preorder
begin

definition less_eq_version :: "version \<Rightarrow> version \<Rightarrow> bool" where
  "less_eq_version a b \<longleftrightarrow> compareVersion (version_of b) (version_of a)"

definition less_version :: "version \<Rightarrow> version \<Rightarrow> bool" where
  "less_version (a :: version) b \<longleftrightarrow> a \<le> b \<and> \<not> b \<le> a"

instance
  by standard (auto simp: less_eq_version_def less_version_def compareVersion_at_least intro: at_least_trans)

end

lemma version_total: "(a :: version) \<le> b \<or> b \<le> a"
  by (simp add: less_eq_version_def compareVersion_at_least at_least_total)

lemma version_not_le: "\<not> (a :: version) \<le> b \<longleftrightarrow> b < a"
  using version_total [of a b] by (auto simp: less_version_def)

lemma component_version_text: "component (version_text ns) i = (if i < length ns then ns ! i else 0)"
  by (simp add: component_def extractNumbers_version_text)

end
