(* ===== verification/Agent.thy ===== *)
theory Agent
  imports Version
begin

text \<open>
  The agent pages' decisions, \<^verbatim>\<open>src/web/src/utils/agent.ts\<close>: which features an agent type
  has, which scheme the OpenClaw versions are served with, and the list of allowed origins.
  The browser's URL parser (\<open>new URL\<close>) is a parameter \<open>url_parse\<close>: \<open>None\<close> where the
  constructor throws.  A translated text is its key.
\<close>

section \<open>Agent types and versions\<close>

definition openclawHTTPSVersion :: jstring where "openclawHTTPSVersion = lit ''2026.3.13''"
definition openclawHTTPVersion :: jstring where "openclawHTTPVersion = lit ''2026.3.23''"
definition openclawDefaultAccessHost :: jstring where "openclawDefaultAccessHost = lit ''127.0.0.1''"

datatype shown = Text jstring | Translated string

definition getAgentProviderDisplayName :: "jstring \<Rightarrow> jstring option \<Rightarrow> shown" where
  "getAgentProviderDisplayName provider displayName =
     (if provider = lit ''custom'' \<or> displayName = Some (lit ''Custom'') then Translated ''container.custom''
      else if provider = lit ''vllm'' \<or> displayName = Some (lit ''vLLM'') then Text (lit ''vLLM'')
      else case displayName of
          None \<Rightarrow> Text provider
        | Some d \<Rightarrow> Text (if d = [] then provider else d))"

definition isAgentAccountVerificationSkipped :: "jstring option \<Rightarrow> bool" where
  "isAgentAccountVerificationSkipped provider \<longleftrightarrow>
     toLowerCase (case provider of None \<Rightarrow> [] | Some p \<Rightarrow> p)
       \<in> set [lit ''vllm'', lit ''ollama'', lit ''kimi-coding'']"

definition supportsAgentModelConfig :: "jstring \<Rightarrow> bool" where
  "supportsAgentModelConfig agentType \<longleftrightarrow> agentType = lit ''openclaw'' \<or> agentType = lit ''hermes-agent''"

definition supportsAgentToken :: "jstring \<Rightarrow> bool" where
  "supportsAgentToken agentType \<longleftrightarrow> agentType = lit ''openclaw''"

definition supportsAgentDashboardAuth :: "jstring \<Rightarrow> bool" where
  "supportsAgentDashboardAuth agentType \<longleftrightarrow> agentType = lit ''hermes-agent'' \<or> agentType = lit ''copaw''"

definition isOpenclawHTTPSWindowVersion :: "jstring \<Rightarrow> bool" where
  "isOpenclawHTTPSWindowVersion version \<longleftrightarrow>
     compareVersion version openclawHTTPSVersion \<and> \<not> compareVersion version openclawHTTPVersion"

definition isOpenclawCurrentHTTPVersion :: "jstring \<Rightarrow> bool" where
  "isOpenclawCurrentHTTPVersion version \<longleftrightarrow> compareVersion version openclawHTTPVersion"

definition getOpenclawAccessScheme :: "jstring \<Rightarrow> jstring" where
  "getOpenclawAccessScheme version =
     (if isOpenclawHTTPSWindowVersion version then lit ''https'' else lit ''http'')"

section \<open>Origins\<close>

text \<open>A port given as a number or as a text; \<open>0\<close> and the empty text count as no port.\<close>

datatype port = PortNumber nat | PortText jstring

fun port_text :: "port \<Rightarrow> jstring" where
  "port_text (PortNumber n) = digits_of_nat n"
| "port_text (PortText s) = s"

definition no_port :: "port option \<Rightarrow> bool" where
  "no_port p \<longleftrightarrow> p = None \<or> p = Some (PortNumber 0) \<or> p = Some (PortText [])"

definition buildDefaultAllowedOrigin :: "jstring \<Rightarrow> port option \<Rightarrow> jstring option \<Rightarrow> jstring" where
  "buildDefaultAllowedOrigin systemIP p version =
     (let target = (if trim systemIP = [] then openclawDefaultAccessHost else trim systemIP) in
      if no_port p then []
      else
        let host = (if str_includes target (lit '':'') \<and> \<not> startsWith target (lit ''['') \<and> \<not> endsWith target (lit '']'')
                    then lit ''['' @ target @ lit '']'' else target)
        in getOpenclawAccessScheme (case version of None \<Rightarrow> [] | Some v \<Rightarrow> v)
             @ lit ''://'' @ host @ lit '':'' @ port_text (the p))"

record url =
  protocol :: jstring
  username :: jstring
  password :: jstring
  search :: jstring
  hash :: jstring
  pathname :: jstring
  host :: jstring

datatype agent_error = Error string

definition normalizeAllowedOrigin :: "(jstring \<Rightarrow> url option) \<Rightarrow> jstring \<Rightarrow> agent_error + jstring" where
  "normalizeAllowedOrigin url_parse value =
     (let target = trim value; invalid = Inl (Error ''aiTools.agents.allowedOriginsInvalid'') in
      if target = [] then invalid
      else case url_parse target of
          None \<Rightarrow> invalid
        | Some parsed \<Rightarrow>
            if protocol parsed \<noteq> lit ''http:'' \<and> protocol parsed \<noteq> lit ''https:'' then invalid
            else if username parsed \<noteq> [] \<or> password parsed \<noteq> [] \<or> search parsed \<noteq> [] \<or> hash parsed \<noteq> [] then invalid
            else if pathname parsed \<noteq> [] \<and> pathname parsed \<noteq> lit ''/'' then invalid
            else if host parsed = [] then invalid
            else Inr (protocol parsed @ lit ''//'' @ host parsed))"

text \<open>\<^verbatim>\<open>split(/\r?\n/)\<close>: the fields between line feeds, each without the one carriage return
  that precedes its line feed.\<close>

definition chop_return :: "jstring \<Rightarrow> jstring" where
  "chop_return s = (if s \<noteq> [] \<and> last s = 13 then butlast s else s)"

definition split_lines :: "jstring \<Rightarrow> jstring list" where
  "split_lines s = (let ws = split_unit 10 s in map chop_return (butlast ws) @ [last ws])"

fun origins_loop :: "(jstring \<Rightarrow> url option) \<Rightarrow> jstring set \<Rightarrow> jstring list \<Rightarrow> jstring list \<Rightarrow> agent_error + jstring list" where
  "origins_loop url_parse seen result [] = Inr result"
| "origins_loop url_parse seen result (line # ls) =
     (let target = trim line in
      if target = [] then origins_loop url_parse seen result ls
      else case normalizeAllowedOrigin url_parse target of
          Inl e \<Rightarrow> Inl e
        | Inr normalized \<Rightarrow>
            if normalized \<in> seen then origins_loop url_parse seen result ls
            else origins_loop url_parse (insert normalized seen) (result @ [normalized]) ls)"

definition parseAllowedOriginsInput :: "(jstring \<Rightarrow> url option) \<Rightarrow> jstring \<Rightarrow> agent_error + jstring list" where
  "parseAllowedOriginsInput url_parse value = origins_loop url_parse {} [] (split_lines value)"

text \<open>The message key, empty when the input is fine.\<close>

definition validateAllowedOriginsInput :: "(jstring \<Rightarrow> url option) \<Rightarrow> jstring \<Rightarrow> string" where
  "validateAllowedOriginsInput url_parse value =
     (case parseAllowedOriginsInput url_parse value of
        Inl (Error message) \<Rightarrow> message
      | Inr parsed \<Rightarrow> if length parsed = 0 then ''aiTools.agents.allowedOriginsRequired'' else '''')"

section \<open>The version window\<close>

lemma openclaw_versions:
  "openclawHTTPSVersion = version_text [2026, 3, 13]" "openclawHTTPVersion = version_text [2026, 3, 23]"
  by (simp_all add: openclawHTTPSVersion_def openclawHTTPVersion_def version_text_def digits_of_nat.simps)

text \<open>The dashboard of an OpenClaw version is served over \<open>https\<close> exactly from
  2026.3.13 up to, but without, 2026.3.23, in the order of versions; and along growing versions
  the scheme never goes back to \<open>https\<close> once 2026.3.23 is reached.\<close>

theorem openclaw_scheme_window:
  "getOpenclawAccessScheme v =
     (if Version (version_text [2026, 3, 13]) \<le> Version v \<and> Version v < Version (version_text [2026, 3, 23])
      then lit ''https'' else lit ''http'')
   \<and> (isOpenclawCurrentHTTPVersion v \<longrightarrow> Version v \<le> Version w \<longrightarrow> getOpenclawAccessScheme w = lit ''http'')"
proof (rule conjI)
  have low: "compareVersion u (version_text ns) \<longleftrightarrow> Version (version_text ns) \<le> Version u" for u ns
    by (simp add: less_eq_version_def)
  show "getOpenclawAccessScheme v =
     (if Version (version_text [2026, 3, 13]) \<le> Version v \<and> Version v < Version (version_text [2026, 3, 23])
      then lit ''https'' else lit ''http'')"
    by (simp only: getOpenclawAccessScheme_def isOpenclawHTTPSWindowVersion_def openclaw_versions low
        version_not_le)
  show "isOpenclawCurrentHTTPVersion v \<longrightarrow> Version v \<le> Version w \<longrightarrow> getOpenclawAccessScheme w = lit ''http''"
    unfolding isOpenclawCurrentHTTPVersion_def getOpenclawAccessScheme_def isOpenclawHTTPSWindowVersion_def
      openclaw_versions low
    by (metis order_trans)
qed

theorem openclaw_scheme_window_witness:
  "getOpenclawAccessScheme (version_text [2026, 4]) = lit ''http''"
  by (rule openclaw_scheme_window [THEN conjunct2, THEN mp, THEN mp, of "version_text [2026, 3, 23]"])
    (simp_all add: isOpenclawCurrentHTTPVersion_def openclaw_versions less_eq_version_def compareVersion_def
      extractNumbers_version_text Let_def)

section \<open>The list of origins\<close>

interpretation origins: keyed_loop "\<lambda>x :: jstring. x" "\<lambda>x. True"
  by unfold_locales

text \<open>The lines that count, and what each becomes.\<close>

definition origin_lines :: "jstring \<Rightarrow> jstring list" where
  "origin_lines value = filter (\<lambda>s. s \<noteq> []) (map trim (split_lines value))"

fun collect :: "('a \<Rightarrow> 'e + 'b) \<Rightarrow> 'a list \<Rightarrow> 'e + 'b list" where
  "collect f [] = Inr []"
| "collect f (x # xs) =
     (case f x of Inl e \<Rightarrow> Inl e
      | Inr y \<Rightarrow> (case collect f xs of Inl e \<Rightarrow> Inl e | Inr ys \<Rightarrow> Inr (y # ys)))"

lemma collect_Inr_iff: "(\<exists>ys. collect f xs = Inr ys) \<longleftrightarrow> (\<forall>x \<in> set xs. \<exists>y. f x = Inr y)"
  by (induction xs) (auto split: sum.splits)

lemma collect_set: "collect f xs = Inr ys \<Longrightarrow> y \<in> set ys \<longleftrightarrow> (\<exists>x \<in> set xs. f x = Inr y)"
  by (induction xs arbitrary: ys) (auto split: sum.splits)

lemma collect_map: "(\<And>x. x \<in> set xs \<Longrightarrow> f x = Inr (g x)) \<Longrightarrow> collect f xs = Inr (map g xs)"
  by (induction xs) auto

lemma origins_loop_collect:
  "origins_loop url_parse seen result ls =
     (case collect (normalizeAllowedOrigin url_parse) (filter (\<lambda>s. s \<noteq> []) (map trim ls)) of
        Inl e \<Rightarrow> Inl e | Inr ys \<Rightarrow> Inr (seen_loop (\<lambda>x. x) seen result ys))"
  by (induction ls arbitrary: seen result) (auto simp: Let_def split: sum.splits)

lemma parse_collect:
  "parseAllowedOriginsInput url_parse value =
     (case collect (normalizeAllowedOrigin url_parse) (origin_lines value) of
        Inl e \<Rightarrow> Inl e | Inr ys \<Rightarrow> Inr (seen_dedup (\<lambda>x. x) ys))"
  unfolding parseAllowedOriginsInput_def origins_loop_collect origin_lines_def seen_dedup_def ..

lemma normalize_error:
  "normalizeAllowedOrigin url_parse s = Inl e \<Longrightarrow> e = Error ''aiTools.agents.allowedOriginsInvalid''"
  by (auto simp: normalizeAllowedOrigin_def Let_def split: if_splits option.splits)

lemma collect_error: "collect f xs = Inl e \<Longrightarrow> \<exists>x \<in> set xs. f x = Inl e"
  by (induction xs) (auto split: sum.splits)

text \<open>Whatever the URL parser, the input is accepted exactly when every line that is not
  blank is an origin; the result then holds the normal form of each line once, and
  \<open>validateAllowedOriginsInput\<close> is silent exactly when the result is not empty.\<close>

theorem allowed_origins_parse:
  "case parseAllowedOriginsInput url_parse value of
     Inl e \<Rightarrow> e = Error ''aiTools.agents.allowedOriginsInvalid''
       \<and> (\<exists>s \<in> set (origin_lines value). normalizeAllowedOrigin url_parse s = Inl e)
   | Inr os \<Rightarrow> distinct os
       \<and> set os = {r. \<exists>s \<in> set (origin_lines value). normalizeAllowedOrigin url_parse s = Inr r}
       \<and> (\<forall>s \<in> set (origin_lines value). \<exists>r. normalizeAllowedOrigin url_parse s = Inr r)
       \<and> (validateAllowedOriginsInput url_parse value = '''' \<longleftrightarrow> origin_lines value \<noteq> [])"
proof (cases "collect (normalizeAllowedOrigin url_parse) (origin_lines value)")
  case (Inl e)
  with collect_error [OF Inl] show ?thesis
    by (auto simp: parse_collect dest: normalize_error)
next
  case (Inr ys)
  have s: "set (seen_dedup (\<lambda>x. x) ys) = set ys"
    by (rule origins.seen_dedup_set) simp
  have all: "\<forall>s \<in> set (origin_lines value). \<exists>r. normalizeAllowedOrigin url_parse s = Inr r"
    using Inr collect_Inr_iff [of "normalizeAllowedOrigin url_parse" "origin_lines value"] by blast
  have ys: "set ys = {r. \<exists>s \<in> set (origin_lines value). normalizeAllowedOrigin url_parse s = Inr r}"
    using collect_set [OF Inr] by blast
  have "seen_dedup (\<lambda>x. x) ys = [] \<longleftrightarrow> origin_lines value = []"
    using s ys all by (metis (mono_tags, lifting) Inr collect.simps(1) empty_Collect_eq list.set_sel(1) set_empty sum.inject(2))
  then show ?thesis
    using s ys all by (simp add: parse_collect Inr validateAllowedOriginsInput_def seen_dedup_distinct)
qed

definition one_site :: "jstring \<Rightarrow> url option" where
  "one_site s = (if s = lit ''http://a/'' \<or> s = lit ''http://a''
     then Some \<lparr>protocol = lit ''http:'', username = [], password = [], search = [], hash = [],
                pathname = lit ''/'', host = lit ''a''\<rparr> else None)"

theorem allowed_origins_parse_witness:
  "set [lit ''http://a''] =
     {r. \<exists>s \<in> set (origin_lines (lit ''http://a/'' @ [13, 10] @ lit ''http://a'')).
            normalizeAllowedOrigin one_site s = Inr r}"
proof -
  have "parseAllowedOriginsInput one_site (lit ''http://a/'' @ [13, 10] @ lit ''http://a'') = Inr [lit ''http://a'']"
    by (simp add: parseAllowedOriginsInput_def split_lines_def chop_return_def normalizeAllowedOrigin_def
        one_site_def trim_def trim_start_def trim_end_def is_space_def Let_def)
  then show ?thesis
    using allowed_origins_parse [of "lit ''http://a/'' @ [13, 10] @ lit ''http://a''" one_site] by (simp del: lit_simps)
qed

end
