(* ===== verification/Validate.thy ===== *)
theory Validate
  imports Dotted
begin

text \<open>
  The older validators and converters, \<^verbatim>\<open>src/web/src/utils/validate.ts\<close>.  The checks answer
  \<open>True\<close> for a value they reject; names that the form rules use too carry the suffix
  \<open>_util\<close>.  Where a pattern is the one of the form rules it is the same definition.  Durations are
  a number and a unit letter.  \<open>tr\<close> is the translation function.
\<close>

section \<open>Addresses, domains, ports\<close>

definition checkIp_util :: "jstring \<Rightarrow> bool" where
  "checkIp_util v = (if v = [] then True else \<not> rmatch regIP v \<and> v \<noteq> [])"

definition checkDomain_util :: "jstring \<Rightarrow> bool" where
  "checkDomain_util v = (if v = [] then True else \<not> regHost v \<and> v \<noteq> [])"

text \<open>\<^verbatim>\<open>^(?:[a-z0-9](?:[a-z0-9-]{0,61}[a-z0-9])?\.)+[a-z0-9][a-z0-9-]{0,61}[a-z0-9]$\<close>, flag
  \<open>i\<close>\<close>

definition domain_i :: rx where
  "domain_i = rseqs
    [rplus (rseqs [RCls alnum, ropt (RSeq (RRep 0 61 (RCls lower_alnum_i_dash)) (RCls alnum)), rdot]),
     RCls alnum, RRep 0 61 (RCls lower_alnum_i_dash), RCls alnum]"

definition isDomain :: "jstring \<Rightarrow> bool" where
  "isDomain v = (if v = [] then True else v \<noteq> [] \<and> rmatch domain_i v)"

definition checkIpV4V6 :: "jstring \<Rightarrow> bool" where
  "checkIpV4V6 v = (if v = [] then True
     else \<not> rmatch IPv4AddressFormat v \<and> \<not> rmatch IPv6AddressRegExp v \<and> v \<noteq> [])"

definition checkIpV6_util :: "jstring option \<Rightarrow> bool" where
  "checkIpV6_util v = (if blank v then True else \<not> rmatch IPv6AddressRegExp (the v) \<and> the v \<noteq> [])"

definition cidr_reg :: rx where
  "cidr_reg = rseqs
    [rtimes 3 (RSeq octet_z3 rdot), octet_z3,
     ropt (RSeq (runit CHR ''/'')
       (ralts [dig, RSeq (RCls (rng CHR ''1'' CHR ''2'')) dig,
               RSeq (runit CHR ''3'') (RCls (rng CHR ''0'' CHR ''2''))]))]"

definition checkCidr :: "jstring \<Rightarrow> bool" where
  "checkCidr v = (if v = [] then True else \<not> rmatch cidr_reg v \<and> v \<noteq> [])"

definition prefix128 :: rx where
  "prefix128 = ralts
    [dig, RSeq (RCls (rng CHR ''1'' CHR ''9'')) dig,
     rseqs [runit CHR ''1'', RCls (rng CHR ''0'' CHR ''1''), dig],
     rseqs [runit CHR ''1'', runit CHR ''2'', RCls (rng CHR ''0'' CHR ''8'')]]"

text \<open>\<open>RegExp.test\<close> of a missing second field tests the text \<open>undefined\<close>.\<close>

definition checkCidrV6 :: "jstring \<Rightarrow> bool" where
  "checkCidrV6 v =
     (if v = [] then True
      else
        let fields = js_split (lit ''/'') v in
        if checkIpV6_util (Some (fields ! 0)) then True
        else \<not> rmatch prefix128 (if 1 < length fields then fields ! 1 else lit ''undefined''))"

definition checkPort_util :: "jstring \<Rightarrow> bool" where
  "checkPort_util v = (if num_le (js_Number v) 0 then True else \<not> rmatch port_reg v \<and> v \<noteq> [])"

section \<open>Durations\<close>

definition unit_value :: "jstring \<Rightarrow> char \<Rightarrow> jsnum" where
  "unit_value item c = js_Number (replaceAll item [of_char c] [])"

definition transferTimeToSecond :: "jstring \<Rightarrow> jsnum" where
  "transferTimeToSecond item =
     (if str_includes item (lit ''s'') then unit_value item CHR ''s''
      else if str_includes item (lit ''m'') then num_times (unit_value item CHR ''m'') 60
      else if str_includes item (lit ''h'') then num_times (num_times (unit_value item CHR ''h'') 60) 60
      else if str_includes item (lit ''d'')
        then num_times (num_times (num_times (unit_value item CHR ''d'') 60) 60) 24
      else js_Number item)"

definition splitTime :: "jstring \<Rightarrow> jsnum \<times> char" where
  "splitTime item =
     (if str_includes item (lit ''s'') then (unit_value item CHR ''s'', CHR ''s'')
      else if str_includes item (lit ''m'') then (unit_value item CHR ''m'', CHR ''m'')
      else if str_includes item (lit ''h'') then (unit_value item CHR ''h'', CHR ''h'')
      else if str_includes item (lit ''d'') then (unit_value item CHR ''d'', CHR ''d'')
      else if str_includes item (lit ''y'') then (unit_value item CHR ''y'', CHR ''y'')
      else (js_Number item, CHR ''s''))"

definition transTimeUnit :: "(string \<Rightarrow> jstring) \<Rightarrow> jstring \<Rightarrow> jstring" where
  "transTimeUnit tr val =
     (if str_includes val (lit ''s'') then replaceAll val (lit ''s'') (tr ''commons.units.second'')
      else if str_includes val (lit ''m'') then replaceAll val (lit ''m'') (tr ''commons.units.minute'')
      else if str_includes val (lit ''h'') then replaceAll val (lit ''h'') (tr ''commons.units.hour'')
      else if str_includes val (lit ''d'') then replaceAll val (lit ''d'') (tr ''commons.units.day'')
      else if str_includes val (lit ''y'') then replaceAll val (lit ''y'') (tr ''commons.units.year'')
      else val @ tr ''commons.units.second'')"

text \<open>The seconds the server keeps are whole and not negative.\<close>

definition splitTimeFromSecond :: "nat \<Rightarrow> nat \<times> char" where
  "splitTimeFromSecond item =
     (if 3600 \<le> item \<and> item mod 3600 = 0 then (item div 3600, CHR ''h'')
      else if 60 \<le> item \<and> item mod 60 = 0 then (item div 60, CHR ''m'')
      else (item, CHR ''s''))"

section \<open>Addresses with a scheme, blank lines\<close>

definition splitHttp :: "jstring \<Rightarrow> jstring \<times> jstring" where
  "splitHttp url =
     (if str_includes url (lit ''https://'') then (lit ''https'', replaceAll url (lit ''https://'') [])
      else if str_includes url (lit ''http://'') then (lit ''http'', replaceAll url (lit ''http://'') [])
      else ([], url))"

definition spliceHttp :: "jstring \<Rightarrow> jstring \<Rightarrow> jstring" where
  "spliceHttp proto url =
     proto @ lit ''://'' @ replaceAll (replaceAll url (lit ''https://'') []) (lit ''http://'') []"

definition emptyLineFilter :: "jstring \<Rightarrow> jstring \<Rightarrow> jstring" where
  "emptyLineFilter str spilt = js_join spilt (filter (\<lambda>l. trim l \<noteq> []) (js_split spilt str))"

section \<open>Lemmas\<close>

text \<open>The check behind the port fields and the form rule accept the same values.\<close>

lemma js_Number_Nil [simp]: "js_Number [] = Fin 0"
  by (simp add: js_Number_def)

lemma checkPort_util_iff: "\<not> checkPort_util s \<longleftrightarrow> checkPort (Some s) = Pass"
proof -
  have "\<not> num_le (js_Number s) 0" if r: "rmatch port_reg s"
  proof -
    from r have "digits_of_nat (nat_of_digits s) = s" "1 \<le> nat_of_digits s"
      by (simp_all add: port_reg_iff canonical_iff)
    then show ?thesis using js_Number_of_nat [of "nat_of_digits s"] by simp
  qed
  then show ?thesis
    by (cases "s = []") (auto simp: checkPort_util_def checkPort_def required_rule_def pattern_rule_def)
qed

lemma checkCidrV6_no_slash:
  assumes "47 \<notin> set v"
  shows "checkCidrV6 v"
proof -
  have "js_split [47] v = [v]" using assms by (simp add: js_split_unit split_unit_fresh)
  then show ?thesis
    by (simp add: checkCidrV6_def prefix128_def rx_eval runit_def dig_def rng_def is_digit_def)
qed

lemma filter_unit_digits: "\<not> is_digit c \<Longrightarrow> replaceAll (digits_of_nat n @ [c]) [c] [] = digits_of_nat n"
  using digits_of_nat_digits [of n] by (auto simp: replaceAll_unit intro!: filter_True)

lemma unit_not_in_digits: "\<not> is_digit c \<Longrightarrow> c \<notin> set (digits_of_nat n)"
  using digits_of_nat_digits by blast

definition seconds_of :: "nat \<times> char \<Rightarrow> nat" where
  "seconds_of tu = fst tu * (if snd tu = CHR ''h'' then 3600 else if snd tu = CHR ''m'' then 60
     else if snd tu = CHR ''d'' then 86400 else 1)"

definition time_text :: "nat \<times> char \<Rightarrow> jstring" where
  "time_text tu = digits_of_nat (fst tu) @ [of_char (snd tu)]"

lemma time_text_read:
  assumes "c \<in> {CHR ''s'', CHR ''m'', CHR ''h'', CHR ''d''}"
  shows "transferTimeToSecond (time_text (n, c)) = Fin (of_nat (seconds_of (n, c)))"
    and "splitTime (time_text (n, c)) = (Fin (of_nat n), c)"
proof -
  have d: "\<not> is_digit 115" "\<not> is_digit 109" "\<not> is_digit 104" "\<not> is_digit 100"
    by (simp_all add: is_digit_def)
  note f = d [THEN unit_not_in_digits [of _ n]] d [THEN filter_unit_digits [of _ n]]
  from assms consider "c = CHR ''s''" | "c = CHR ''m''" | "c = CHR ''h''" | "c = CHR ''d''" by blast
  then have "transferTimeToSecond (time_text (n, c)) = Fin (of_nat (seconds_of (n, c)))
    \<and> splitTime (time_text (n, c)) = (Fin (of_nat n), c)"
    by cases (simp_all add: transferTimeToSecond_def splitTime_def time_text_def seconds_of_def
        unit_value_def f)
  then show "transferTimeToSecond (time_text (n, c)) = Fin (of_nat (seconds_of (n, c)))"
    "splitTime (time_text (n, c)) = (Fin (of_nat n), c)" by auto
qed

lemma splitHttp_spliceHttp:
  assumes "\<not> str_includes url (lit ''https://'')" "\<not> str_includes url (lit ''http://'')"
    and "proto = lit ''http'' \<or> proto = lit ''https''"
  shows "splitHttp (spliceHttp proto url) = (proto, url)"
proof -
  have url: "replaceAll (replaceAll url (lit ''https://'') []) (lit ''http://'') [] = url"
    using assms(1,2) by (simp add: replaceAll_absent)
  have s: "startsWith (lit ''https://'' @ url) (lit ''https://'')" "startsWith (lit ''http://'' @ url) (lit ''http://'')"
    by (simp_all only: startsWith_iff) auto
  have "replaceAll (lit ''https://'' @ url) (lit ''https://'') [] = url"
    "replaceAll (lit ''http://'' @ url) (lit ''http://'') [] = url"
    using replaceAll_prefix_once [of "lit ''https://''" "[]" url "[]"]
      replaceAll_prefix_once [of "lit ''http://''" "[]" url "[]"] assms s
    by (simp_all add: startsWith_def)
  moreover have "\<not> str_includes (lit ''http://'' @ url) (lit ''https://'')"
    using assms(1) by (simp add: str_includes_def startsWith_def)
  moreover have "str_includes (lit ''https://'' @ url) (lit ''https://'')"
    "str_includes (lit ''http://'' @ url) (lit ''http://'')"
    by (simp_all add: str_includes_def startsWith_def)
  ultimately show ?thesis
    using assms(3) url by (auto simp: splitHttp_def spliceHttp_def)
qed

text \<open>Durations: the pair \<open>splitTimeFromSecond\<close> shows for a number of seconds, written as
  number and unit letter, is read back by \<open>transferTimeToSecond\<close> as that number of seconds and by
  \<open>splitTime\<close> as that pair, and no larger unit of the form would do without a fraction.\<close>

theorem duration_round_trip:
  "transferTimeToSecond (time_text (splitTimeFromSecond n)) = Fin (of_nat n)
   \<and> (case splitTimeFromSecond n of (k, u) \<Rightarrow> splitTime (time_text (k, u)) = (Fin (of_nat k), u)
     \<and> (u = CHR ''s'' \<longrightarrow> n < 60 \<or> n mod 60 \<noteq> 0) \<and> (u = CHR ''m'' \<longrightarrow> n < 3600 \<or> n mod 3600 \<noteq> 0))"
proof (rule conjI)
  obtain k u where ku: "splitTimeFromSecond n = (k, u)" by fastforce
  have u: "u \<in> {CHR ''s'', CHR ''m'', CHR ''h'', CHR ''d''}" and k: "seconds_of (k, u) = n"
    using ku by (auto simp: splitTimeFromSecond_def seconds_of_def split: if_splits)
  show "transferTimeToSecond (time_text (splitTimeFromSecond n)) = Fin (of_nat n)"
    using time_text_read(1) [OF u, of k] by (simp add: ku k)
  show "(case splitTimeFromSecond n of (k, u) \<Rightarrow> splitTime (time_text (k, u)) = (Fin (of_nat k), u)
     \<and> (u = CHR ''s'' \<longrightarrow> n < 60 \<or> n mod 60 \<noteq> 0) \<and> (u = CHR ''m'' \<longrightarrow> n < 3600 \<or> n mod 3600 \<noteq> 0))"
    using time_text_read(2) [OF u, of k] ku
    by (auto simp: splitTimeFromSecond_def split: if_splits)
qed

theorem duration_round_trip_witness: "transferTimeToSecond (time_text (2, CHR ''h'')) = Fin (of_nat 7200)"
  using duration_round_trip [of 7200] by (simp add: splitTimeFromSecond_def)

end
