(* ===== verification/Uri.thy ===== *)
theory Uri
  imports JsNumber
begin

text \<open>
  \<open>encodeURIComponent\<close> of the standard library: UTF-8 octets of the code points, percent
  escapes for every octet that is not an unreserved character.  A lone surrogate is the
  \<open>URIError\<close> (\<open>None\<close>).
\<close>

definition uri_unreserved :: "nat \<Rightarrow> bool" where
  "uri_unreserved c \<longleftrightarrow> is_lower c \<or> is_upper c \<or> is_digit c \<or> c \<in> set (lit ''-_.!~*()'') \<or> c = 39"

definition hex_digit :: "nat \<Rightarrow> nat" where
  "hex_digit n = (if n < 10 then 48 + n else 55 + n)"

definition percent :: "nat \<Rightarrow> jstring" where
  "percent b = [37, hex_digit (b div 16), hex_digit (b mod 16)]"

definition utf8 :: "nat \<Rightarrow> nat list" where
  "utf8 p =
     (if p < 128 then [p]
      else if p < 2048 then [192 + p div 64, 128 + p mod 64]
      else if p < 65536 then [224 + p div 4096, 128 + p div 64 mod 64, 128 + p mod 64]
      else [240 + p div 262144, 128 + p div 4096 mod 64, 128 + p div 64 mod 64, 128 + p mod 64])"

definition high_surrogate :: "nat \<Rightarrow> bool" where
  "high_surrogate c \<longleftrightarrow> 55296 \<le> c \<and> c \<le> 56319"

definition low_surrogate :: "nat \<Rightarrow> bool" where
  "low_surrogate c \<longleftrightarrow> 56320 \<le> c \<and> c \<le> 57343"

definition pct_point :: "nat \<Rightarrow> jstring" where
  "pct_point p = concat (map percent (utf8 p))"

fun encodeURIComponent :: "jstring \<Rightarrow> jstring option" where
  "encodeURIComponent [] = Some []"
| "encodeURIComponent (c # s) =
     (if uri_unreserved c then map_option (\<lambda>r. c # r) (encodeURIComponent s)
      else if low_surrogate c then None
      else if high_surrogate c then
        (case s of
           d # t \<Rightarrow> if low_surrogate d
             then map_option (\<lambda>r. pct_point ((c - 55296) * 1024 + (d - 56320) + 65536) @ r)
                    (encodeURIComponent t)
             else None
         | [] \<Rightarrow> None)
      else map_option (\<lambda>r. pct_point c @ r) (encodeURIComponent s))"

lemma encodeURIComponent_unreserved:
  "\<forall>c \<in> set s. uri_unreserved c \<Longrightarrow> encodeURIComponent s = Some s"
  by (induction s) auto

text \<open>Escaped texts use only unreserved characters and \<open>%\<close>: a value cannot break out of a header
  line or of a query parameter.\<close>

lemma hex_digit_unreserved: "n < 16 \<Longrightarrow> uri_unreserved (hex_digit n)"
  by (auto simp: hex_digit_def uri_unreserved_def is_digit_def is_upper_def)

lemma percent_units: "b < 256 \<Longrightarrow> c \<in> set (percent b) \<Longrightarrow> uri_unreserved c \<or> c = 37"
  using hex_digit_unreserved [of "b div 16"] hex_digit_unreserved [of "b mod 16"]
  by (auto simp: percent_def)

lemma utf8_octets: "p < 1114112 \<Longrightarrow> b \<in> set (utf8 p) \<Longrightarrow> b < 256"
  by (auto simp: utf8_def split: if_splits)

lemma pct_point_units: "p < 1114112 \<Longrightarrow> c \<in> set (pct_point p) \<Longrightarrow> uri_unreserved c \<or> c = 37"
  using utf8_octets percent_units by (auto simp: pct_point_def)

lemma encodeURIComponent_units:
  "\<forall>c \<in> set s. c < 65536 \<Longrightarrow> encodeURIComponent s = Some r \<Longrightarrow> c \<in> set r \<Longrightarrow>
   uri_unreserved c \<or> c = 37"
proof (induction s arbitrary: r rule: encodeURIComponent.induct)
  case (2 c0 s)
  from "2.prems"(1) have c0: "c0 < 65536" and s: "\<forall>c \<in> set s. c < 65536" by auto
  consider "uri_unreserved c0" | "\<not> uri_unreserved c0" "low_surrogate c0"
    | "\<not> uri_unreserved c0" "\<not> low_surrogate c0" "high_surrogate c0"
    | "\<not> uri_unreserved c0" "\<not> low_surrogate c0" "\<not> high_surrogate c0" by blast
  then show ?case
  proof cases
    case 1
    with 2 s show ?thesis by auto
  next
    case 2
    with "2.prems" show ?thesis by auto
  next
    case 3
    with "2.prems"(2) obtain d t q where dt: "s = d # t" "low_surrogate d" "encodeURIComponent t = Some q"
      "r = pct_point ((c0 - 55296) * 1024 + (d - 56320) + 65536) @ q"
      by (auto split: list.splits if_splits)
    let ?p = "(c0 - 55296) * 1024 + (d - 56320) + 65536"
    have "?p < 1114112"
      using 3 dt(2) by (auto simp: high_surrogate_def low_surrogate_def)
    moreover have "c \<in> set q \<Longrightarrow> uri_unreserved c \<or> c = 37"
      using "2.IH"(2) 3 dt s by auto
    ultimately show ?thesis
      using dt(4) "2.prems"(3) pct_point_units [of ?p c] by (metis Un_iff set_append)
  next
    case 4
    with 2 s c0 show ?thesis using pct_point_units [of c0 c] by auto
  qed
qed simp

end
