(* ===== verification/Sse.thy ===== *)
theory Sse
  imports Uri
begin

text \<open>
  The incremental parser of server-sent events, \<^verbatim>\<open>src/web/src/utils/sse.ts\<close>, that the log
  viewer feeds with the chunks of a response body.  The state is the class's four fields; a
  method that pushes to its \<open>events\<close> argument returns the list extended.
\<close>

section \<open>Parser\<close>

record sse_event =
  ev_event :: jstring
  ev_data :: jstring
  ev_id :: "jstring option"

record sse_parser =
  buffer :: jstring
  event :: jstring
  data :: "jstring list"
  last_id :: "jstring option"

definition new_parser :: sse_parser where
  "new_parser = \<lparr>buffer = [], event = lit ''message'', data = [], last_id = None\<rparr>"

definition or_message :: "jstring \<Rightarrow> jstring" where
  "or_message v = (if v = [] then lit ''message'' else v)"

definition dispatch :: "sse_parser \<Rightarrow> sse_event list \<Rightarrow> sse_parser \<times> sse_event list" where
  "dispatch p events =
     (if data p = [] then (p\<lparr>event := lit ''message''\<rparr>, events)
      else (p\<lparr>event := lit ''message'', data := []\<rparr>,
            events @ [\<lparr>ev_event = or_message (event p), ev_data = js_join [10] (data p),
                       ev_id = last_id p\<rparr>]))"

definition split_field :: "jstring \<Rightarrow> jstring \<times> jstring" where
  "split_field line =
     (let separator = find_index (\<lambda>c. c = 58) line;
          field = (case separator of Some i \<Rightarrow> take i line | None \<Rightarrow> line);
          value = (case separator of Some i \<Rightarrow> drop (i + 1) line | None \<Rightarrow> [])
      in (field, if startsWith value (lit '' '') then drop 1 value else value))"

definition consumeLine ::
  "sse_parser \<Rightarrow> jstring \<Rightarrow> sse_event list \<Rightarrow> sse_parser \<times> sse_event list" where
  "consumeLine p line events =
     (if line = [] then dispatch p events
      else if startsWith line (lit '':'') then (p, events)
      else case split_field line of (field, value) \<Rightarrow>
        if field = lit ''event'' then (p\<lparr>event := or_message value\<rparr>, events)
        else if field = lit ''data'' then (p\<lparr>data := data p @ [value]\<rparr>, events)
        else if field = lit ''id'' then (p\<lparr>last_id := Some value\<rparr>, events)
        else (p, events))"

text \<open>\<open>rawLine.endsWith('\r') ? rawLine.slice(0, -1) : rawLine\<close>\<close>

definition chop_cr :: "jstring \<Rightarrow> jstring" where
  "chop_cr l = (if endsWith l [13] then butlast l else l)"

fun consume_lines :: "sse_parser \<Rightarrow> jstring list \<Rightarrow> sse_event list \<Rightarrow> sse_parser \<times> sse_event list" where
  "consume_lines p [] events = (p, events)"
| "consume_lines p (l # ls) events =
     (case consumeLine p (chop_cr l) events of (p', events') \<Rightarrow> consume_lines p' ls events')"

definition push :: "sse_parser \<Rightarrow> jstring \<Rightarrow> sse_parser \<times> sse_event list" where
  "push p chunk =
     (let lines = split_unit 10 (buffer p @ chunk) in
      consume_lines (p\<lparr>buffer := last lines\<rparr>) (butlast lines) [])"

definition finish :: "sse_parser \<Rightarrow> sse_parser \<times> sse_event list" where
  "finish p =
     (let (p', events) =
        (if buffer p \<noteq> []
         then (let (q, evs) = consumeLine p (chop_cr (buffer p)) [] in (q\<lparr>buffer := []\<rparr>, evs))
         else (p, []))
      in dispatch p' events)"

text \<open>A response body in chunks: what the log viewer does with a reader.\<close>

fun push_all :: "sse_parser \<Rightarrow> jstring list \<Rightarrow> sse_parser \<times> sse_event list" where
  "push_all p [] = (p, [])"
| "push_all p (c # cs) =
     (let (q, evs) = push p c; (r, evs') = push_all q cs in (r, evs @ evs'))"

section \<open>Request headers\<close>

definition is_safe_integer :: "jsnum \<Rightarrow> bool" where
  "is_safe_integer n = (case n of Fin r \<Rightarrow> r = of_int \<lfloor>r\<rfloor> \<and> \<bar>r\<bar> \<le> 9007199254740991 | _ \<Rightarrow> False)"

text \<open>The object of headers as the list of its entries; \<open>None\<close> is the \<open>URIError\<close>.\<close>

definition buildSseRequestHeaders :: "jstring \<Rightarrow> jsnum \<Rightarrow> (string \<times> jstring) list option" where
  "buildSseRequestHeaders currentNode lastEventId =
     (case encodeURIComponent currentNode of
        None \<Rightarrow> None
      | Some node \<Rightarrow> Some
          ([(''Accept'', lit ''text/event-stream''), (''Cache-Control'', lit ''no-cache''),
            (''CurrentNode'', node)] @
           (if is_safe_integer lastEventId \<and> num_greater lastEventId 0
            then (case lastEventId of
                    Fin r \<Rightarrow> [(''Last-Event-ID'', digits_of_nat (nat \<lfloor>r\<rfloor>))]
                  | _ \<Rightarrow> [])
            else [])))"

section \<open>Chunking does not matter\<close>

lemma consumeLine_events:
  "consumeLine p l (es @ fs) = (let (q, gs) = consumeLine p l fs in (q, es @ gs))"
  by (simp add: consumeLine_def dispatch_def Let_def split: prod.splits)

lemma consumeLine_prefix: "consumeLine p l es = (let (q, gs) = consumeLine p l [] in (q, es @ gs))"
  using consumeLine_events [of p l es "[]"] by simp

lemma consume_lines_prefix:
  "consume_lines p ls es = (let (q, gs) = consume_lines p ls [] in (q, es @ gs))"
proof (induction ls arbitrary: p es)
  case (Cons l ls)
  obtain q fs where q: "consumeLine p (chop_cr l) [] = (q, fs)" by fastforce
  then have "consumeLine p (chop_cr l) es = (q, es @ fs)" by (subst consumeLine_prefix) simp
  with q Cons [of q "es @ fs"] Cons [of q fs] show ?case by (simp add: Let_def split: prod.splits)
qed simp

lemma consume_lines_append:
  "consume_lines p (ls @ ms) es = (let (q, fs) = consume_lines p ls es in consume_lines q ms fs)"
  by (induction ls arbitrary: p es) (auto simp: Let_def split: prod.splits)

lemma consumeLine_buffer:
  "consumeLine (p\<lparr>buffer := b\<rparr>) l es = (let (q, fs) = consumeLine p l es in (q\<lparr>buffer := b\<rparr>, fs))"
  by (auto simp: consumeLine_def dispatch_def Let_def split: prod.splits)

lemma consume_lines_buffer:
  "consume_lines (p\<lparr>buffer := b\<rparr>) ls es =
     (let (q, fs) = consume_lines p ls es in (q\<lparr>buffer := b\<rparr>, fs))"
  by (induction ls arbitrary: p es)
    (auto simp: consumeLine_buffer Let_def split: prod.splits)

lemma buffer_consumeLine: "buffer (fst (consumeLine p l es)) = buffer p"
  by (auto simp: consumeLine_def dispatch_def split: prod.splits)

lemma buffer_consume_lines: "buffer (fst (consume_lines p ls es)) = buffer p"
proof (induction ls arbitrary: p es)
  case (Cons l ls)
  then show ?case using buffer_consumeLine [of p "chop_cr l" es] by (auto split: prod.splits)
qed simp

lemma buffer_push: "buffer (fst (push p c)) = last (split_unit 10 (buffer p @ c))"
  by (simp add: push_def Let_def buffer_consume_lines)

lemma push_alt:
  "push p c =
     (let lines = split_unit 10 (buffer p @ c); (q, es) = consume_lines p (butlast lines) []
      in (q\<lparr>buffer := last lines\<rparr>, es))"
  by (simp add: push_def Let_def consume_lines_buffer)

text \<open>Splitting a text in two steps: the last line of the first part goes before the second.\<close>

lemma split_unit_two:
  "split_unit c (s @ t) = butlast (split_unit c s) @ split_unit c (last (split_unit c s) @ t)"
proof -
  let ?w = "last (split_unit c s)"
  have "c \<notin> set ?w" by (rule split_unit_no_sep) (rule last_in_set, simp)
  then have "split_unit c ?w = [?w]" by (rule split_unit_fresh)
  then have "split_unit c (?w @ t) = (?w @ hd (split_unit c t)) # tl (split_unit c t)"
    using split_unit_append [of c ?w t] by simp
  then show ?thesis by (simp add: split_unit_append [of c s t])
qed

lemma push_two:
  "push p (c @ d) = (let (q, es) = push p c; (r, fs) = push q d in (r, es @ fs))"
proof -
  define L where "L = split_unit 10 (buffer p @ c)"
  define M where "M = split_unit 10 (last L @ d)"
  have two: "split_unit 10 (buffer p @ c @ d) = butlast L @ M"
    unfolding L_def M_def using split_unit_two [of 10 "buffer p @ c" d] by simp
  have ne: "M \<noteq> []" by (simp add: M_def)
  obtain q es where q: "consume_lines p (butlast L) [] = (q, es)" by fastforce
  obtain r fs where r: "consume_lines q (butlast M) [] = (r, fs)" by fastforce
  have "push p (c @ d) = (r\<lparr>buffer := last M\<rparr>, es @ fs)"
    using ne q r consume_lines_prefix [of q "butlast M" es]
    by (simp add: push_alt two butlast_append consume_lines_append Let_def)
  moreover have "push p c = (q\<lparr>buffer := last L\<rparr>, es)"
    using q by (simp add: push_alt L_def Let_def)
  moreover have "push (q\<lparr>buffer := last L\<rparr>) d = (r\<lparr>buffer := last M\<rparr>, fs)"
    using r by (simp add: push_def M_def consume_lines_buffer Let_def)
  ultimately show ?thesis by simp
qed

lemma push_Nil: "10 \<notin> set (buffer p) \<Longrightarrow> push p [] = (p, [])"
  by (simp add: push_def split_unit_fresh)

lemma push_buffer_no_newline: "10 \<notin> set (buffer (fst (push p c)))"
  unfolding buffer_push by (rule split_unit_no_sep) (rule last_in_set, simp)

lemma push_all_concat:
  assumes "10 \<notin> set (buffer p)"
  shows "push_all p chunks = push p (concat chunks)"
  using assms
proof (induction chunks arbitrary: p)
  case Nil
  then show ?case by (simp add: push_Nil)
next
  case (Cons c cs)
  obtain q es where q: "push p c = (q, es)" by fastforce
  then have "push_all q cs = push q (concat cs)"
    using push_buffer_no_newline [of p c] by (intro Cons.IH) simp
  with q show ?case by (simp add: push_two)
qed

text \<open>Chunk boundaries do not matter: a parser whose buffer holds an incomplete line gives the
  same events and ends in the same state whether a body arrives as one string or in any
  division into chunks, also inside a line, a field name or a CRLF.\<close>

theorem sse_chunk_invariance:
  assumes "10 \<notin> set (buffer p)"
  shows "push_all p chunks = push p (concat chunks)"
  using assms by (rule push_all_concat)

theorem sse_chunk_invariance_witness:
  "push_all new_parser [lit ''da'', lit ''ta: x'', [13], [10, 10]] =
   push new_parser (concat [lit ''da'', lit ''ta: x'', [13], [10, 10]])"
  by (rule sse_chunk_invariance) (simp add: new_parser_def)

section \<open>Round trip\<close>

text \<open>
  The reference writer: one \<open>event\<close> line, one \<open>data\<close> line per line of the data, a blank line.
  It writes events whose name is a non-empty single line; the data may be any text without
  carriage returns.
\<close>

definition field_line :: "string \<Rightarrow> jstring \<Rightarrow> jstring" where
  "field_line f v = lit f @ lit '': '' @ v"

definition event_lines :: "jstring \<times> jstring \<Rightarrow> jstring list" where
  "event_lines e = field_line ''event'' (fst e) # map (field_line ''data'') (split_unit 10 (snd e)) @ [[]]"

definition write_lines :: "jstring list \<Rightarrow> jstring" where
  "write_lines ls = concat (map (\<lambda>l. l @ [10]) ls)"

definition write_events :: "(jstring \<times> jstring) list \<Rightarrow> jstring" where
  "write_events es = write_lines (concat (map event_lines es))"

definition writable :: "jstring \<times> jstring \<Rightarrow> bool" where
  "writable e \<longleftrightarrow> fst e \<noteq> [] \<and> 10 \<notin> set (fst e) \<and> 13 \<notin> set (fst e) \<and> 13 \<notin> set (snd e)"

lemma split_write_lines:
  "\<forall>l \<in> set ls. 10 \<notin> set l \<Longrightarrow> split_unit 10 (write_lines ls) = ls @ [[]]"
  by (induction ls) (auto simp: write_lines_def split_unit_append_sep)

lemma chop_cr_no: "13 \<notin> set l \<Longrightarrow> chop_cr l = l"
  by (auto simp: chop_cr_def endsWith_iff)

lemma split_field_line:
  "58 \<notin> set (lit f) \<Longrightarrow> split_field (field_line f v) = (lit f, v)"
proof -
  assume f: "58 \<notin> set (lit f)"
  have "field_line f v = lit f @ 58 # 32 # v" by (simp add: field_line_def)
  moreover have "find_index (\<lambda>c. c = 58) (lit f @ 58 # 32 # v) = Some (length (lit f))"
    using f by (induction f) (auto simp: lit_def)
  ultimately show ?thesis by (simp add: split_field_def Let_def startsWith_def)
qed

lemma consume_event_line:
  "v \<noteq> [] \<Longrightarrow> consumeLine p (field_line ''event'' v) es = (p\<lparr>event := v\<rparr>, es)"
  using split_field_line [of "''event''" v]
  by (simp add: consumeLine_def field_line_def startsWith_def or_message_def)

lemma consume_data_line:
  "consumeLine p (field_line ''data'' v) es = (p\<lparr>data := data p @ [v]\<rparr>, es)"
  using split_field_line [of "''data''" v]
  by (simp add: consumeLine_def field_line_def startsWith_def)

lemma consume_data_lines:
  "\<forall>v \<in> set vs. 13 \<notin> set v \<Longrightarrow>
   consume_lines p (map (field_line ''data'') vs) es = (p\<lparr>data := data p @ vs\<rparr>, es)"
proof (induction vs arbitrary: p)
  case (Cons v vs)
  have "13 \<notin> set (field_line ''data'' v)" using Cons.prems by (simp add: field_line_def)
  with Cons show ?case by (simp add: consume_data_line chop_cr_no)
qed simp

definition read_event :: "jstring option \<Rightarrow> jstring \<times> jstring \<Rightarrow> sse_event" where
  "read_event i e = \<lparr>ev_event = fst e, ev_data = snd e, ev_id = i\<rparr>"

lemma consume_event_lines:
  assumes "writable e" "data p = []" "event p = lit ''message''"
  shows "consume_lines p (event_lines e) es = (p, es @ [read_event (last_id p) e])"
proof -
  let ?q = "p\<lparr>event := fst e, data := split_unit 10 (snd e)\<rparr>"
  have lines: "13 \<notin> set v" if "v \<in> set (split_unit 10 (snd e))" for v
    using that assms(1) set_split_unit_subset by (auto simp: writable_def)
  have "13 \<notin> set (field_line ''event'' (fst e))"
    using assms(1) by (simp add: field_line_def writable_def)
  then have "consume_lines p (event_lines e) es = consume_lines ?q [[]] es"
    using assms lines consume_event_line [of "fst e" p es]
      consume_data_lines [of "split_unit 10 (snd e)" "p\<lparr>event := fst e\<rparr>" es]
    by (simp add: event_lines_def chop_cr_no writable_def consume_lines_append)
  also have "\<dots> = (p, es @ [read_event (last_id p) e])"
    using assms by (simp add: chop_cr_def endsWith_def consumeLine_def dispatch_def read_event_def
        or_message_def writable_def)
  finally show ?thesis .
qed

lemma consume_all_event_lines:
  assumes "\<forall>e \<in> set es. writable e" "data p = []" "event p = lit ''message''"
  shows "consume_lines p (concat (map event_lines es)) fs = (p, fs @ map (read_event (last_id p)) es)"
  using assms
  by (induction es arbitrary: fs) (simp_all add: consume_lines_append consume_event_lines)

lemma event_lines_no_newline:
  "writable e \<Longrightarrow> l \<in> set (event_lines e) \<Longrightarrow> 10 \<notin> set l"
  using split_unit_no_sep by (fastforce simp: event_lines_def field_line_def writable_def)

text \<open>C1: Round trip: a body that the reference writer made from a list of events, cut into any
  chunks, gives back exactly these events in order, data with line breaks included, and leaves
  the parser as it was: nothing stays in the buffer, so \<open>finish\<close> has nothing to add.\<close>

theorem sse_round_trip:
  assumes "\<forall>e \<in> set es. writable e" "concat chunks = write_events es"
  shows "push_all new_parser chunks = (new_parser, map (read_event None) es) \<and>
    finish new_parser = (new_parser, [])"
proof -
  have np: "buffer new_parser = []" "data new_parser = []" "event new_parser = lit ''message''"
    "last_id new_parser = None" and same: "new_parser\<lparr>buffer := []\<rparr> = new_parser"
    by (simp_all add: new_parser_def)
  have "\<forall>l \<in> set (concat (map event_lines es)). 10 \<notin> set l"
    using assms(1) event_lines_no_newline by auto
  then have "push new_parser (write_events es) =
      consume_lines (new_parser\<lparr>buffer := []\<rparr>) (concat (map event_lines es)) []"
    by (simp add: push_def write_events_def split_write_lines np)
  also have "\<dots> = (new_parser, map (read_event None) es)"
    using consume_all_event_lines [OF assms(1), of new_parser "[]"] np
    by (simp only: refl same append_Nil)
  finally have "push_all new_parser chunks = (new_parser, map (read_event None) es)"
    using assms(2) push_all_concat [of new_parser chunks] np by simp
  moreover have "finish new_parser = (new_parser, [])"
    by (simp add: finish_def dispatch_def new_parser_def)
  ultimately show ?thesis by simp
qed

theorem sse_round_trip_witness:
  "push_all new_parser [write_events [(lit ''log'', lit ''a'')]] =
     (new_parser, map (read_event None) [(lit ''log'', lit ''a'')]) \<and>
   finish new_parser = (new_parser, [])"
  by (rule sse_round_trip) (simp_all add: writable_def)

lemma headers_node_safe:
  assumes "\<forall>c \<in> set node. c < 65536" "buildSseRequestHeaders node n = Some hs"
    "(''CurrentNode'', v) \<in> set hs" "c \<in> set v"
  shows "uri_unreserved c \<or> c = 37"
proof -
  from assms(2) obtain e where e: "encodeURIComponent node = Some e"
    by (auto simp: buildSseRequestHeaders_def split: option.splits)
  with assms have "v = e"
    by (auto simp: buildSseRequestHeaders_def split: option.splits if_splits jsnum.splits)
  with e assms encodeURIComponent_units show ?thesis by blast
qed

end
