(* ===== verification/Http.thy ===== *)
theory Http
  imports PermissionProps Uri
begin

text \<open>
  The HTTP client of the front end: the interceptors of \<^verbatim>\<open>src/web/src/api/index.ts\<close> with
  \<^verbatim>\<open>utils/auth-response.ts\<close>, \<^verbatim>\<open>api/helper/check-status.ts\<close>, \<^verbatim>\<open>api/helper/axios-cancel.ts\<close>,
  \<^verbatim>\<open>utils/operate-node.ts\<close> and \<^verbatim>\<open>utils/stream-auth.ts\<close>: what every request
  carries, and what every answer does to the session.  The base64 encoder of the js-base64 package
  is a parameter, as are cookies, answers of endpoints and the current route.  What reaches the
  outside is a list of effects.
\<close>

section \<open>Result codes\<close>

datatype ResultEnum =
    SUCCESS | ERR_IP | ERR_DOMAIN | UNSAFETY | EXPIRED | ERROR | OVERDUE | FORBIDDEN | NOTFOUND
  | ERR_AUTH | ERR_GLOBAL_LOADING | ERR_XPACK | NODE_UNBIND | ERR_RBAC | ERR_ENTERPRISE | TIMEOUT

fun result_code :: "ResultEnum \<Rightarrow> nat" where
  "result_code SUCCESS = 200"
| "result_code ERR_IP = 310"
| "result_code ERR_DOMAIN = 311"
| "result_code UNSAFETY = 312"
| "result_code EXPIRED = 313"
| "result_code ERROR = 500"
| "result_code OVERDUE = 401"
| "result_code FORBIDDEN = 403"
| "result_code NOTFOUND = 404"
| "result_code ERR_AUTH = 406"
| "result_code ERR_GLOBAL_LOADING = 407"
| "result_code ERR_XPACK = 410"
| "result_code NODE_UNBIND = 411"
| "result_code ERR_RBAC = 412"
| "result_code ERR_ENTERPRISE = 413"
| "result_code TIMEOUT = 20000"

section \<open>State and effects\<close>

datatype shown_text = FromServer jstring | Tr string

datatype effect =
    Push string "jstring option"
  | Replace string "jstring option"
  | ReplacePath string
  | ShowError shown_text
  | StartChangeToLocal
  | Reload

record http_state =
  h_app :: app
  operateNodeOverride :: jstring
  effects :: "effect list"

definition emit :: "effect \<Rightarrow> http_state \<Rightarrow> http_state" where
  "emit e s = s\<lparr>effects := effects s @ [e]\<rparr>"

definition on_store :: "(global_state \<Rightarrow> global_state) \<Rightarrow> http_state \<Rightarrow> http_state" where
  "on_store f s = s\<lparr>h_app := (h_app s)\<lparr>gs := f (gs (h_app s))\<rparr>\<rparr>"

abbreviation store :: "http_state \<Rightarrow> global_state" where
  "store s \<equiv> gs (h_app s)"

text \<open>\<open>setLogStatus(false)\<close> and \<open>clearAuthInfo()\<close>, in this order everywhere.\<close>

definition end_session :: "http_state \<Rightarrow> http_state" where
  "end_session s = s\<lparr>h_app := clearAuthInfo (setLogStatus False (h_app s))\<rparr>"

section \<open>Operated node\<close>

definition setOperateNodeOverride :: "jstring option \<Rightarrow> http_state \<Rightarrow> http_state" where
  "setOperateNodeOverride node s = s\<lparr>operateNodeOverride := (case node of None \<Rightarrow> [] | Some n \<Rightarrow> n)\<rparr>"

definition getOperateNodeOverride :: "http_state \<Rightarrow> jstring" where
  "getOperateNodeOverride s = operateNodeOverride s"

definition clearOperateNodeOverride :: "jstring option \<Rightarrow> http_state \<Rightarrow> http_state" where
  "clearOperateNodeOverride node s =
     (if node = None \<or> node = Some [] \<or> Some (operateNodeOverride s) = node
      then s\<lparr>operateNodeOverride := []\<rparr> else s)"

section \<open>Requests\<close>

text \<open>A method in either case of letters is its constructor.\<close>

datatype http_method = GET | HEAD | OPTIONS | TRACE | POST | PUT | PATCH | DELETE

record request_config =
  c_url :: jstring
  c_method :: "http_method option"
  c_AcceptLanguage :: "jstring option"
  c_CurrentNode :: "jstring option"

record request_headers =
  AcceptLanguage :: jstring
  CurrentNode :: jstring
  EntranceCode :: "jstring option"
  XCSRFToken :: "jstring option"

definition entrance_urls :: "jstring list" where
  "entrance_urls =
     [lit ''/core/auth/login'', lit ''/core/auth/mfalogin'', lit ''/core/auth/passkey/begin'',
      lit ''/core/auth/passkey/finish'', lit ''/core/auth/oidc/begin'', lit ''/core/auth/oidc/finish'',
      lit ''/core/auth/saml2/begin'', lit ''/core/auth/saml2/finish'']"

definition requested_node :: "request_config \<Rightarrow> http_state \<Rightarrow> jstring" where
  "requested_node c s =
     (case c_CurrentNode c of
        None \<Rightarrow> (if getOperateNodeOverride s \<noteq> [] then getOperateNodeOverride s else currentNode (store s))
      | Some n \<Rightarrow> n)"

text \<open>\<open>cookie\<close> is \<open>getCookie('pcsrftoken')\<close>.\<close>

definition csrf_token :: "jstring option \<Rightarrow> request_config \<Rightarrow> jstring option" where
  "csrf_token cookie c =
     (let meth = (case c_method c of None \<Rightarrow> GET | Some m \<Rightarrow> m);
          requiresToken = (meth \<notin> {GET, HEAD, OPTIONS, TRACE})
      in if requiresToken \<and> cookie \<noteq> Some [] then cookie else None)"

text \<open>\<open>None\<close> is the \<open>URIError\<close> of a node name that is not well-formed UTF-16.\<close>

definition onRequest ::
  "(jstring \<Rightarrow> jstring) \<Rightarrow> jstring option \<Rightarrow> request_config \<Rightarrow> http_state \<Rightarrow> (request_headers \<times> http_state) option" where
  "onRequest encodeBase64 cookie c s =
     (case encodeURIComponent (requested_node c s) of
        None \<Rightarrow> None
      | Some node \<Rightarrow>
          let lang = (case c_AcceptLanguage c of None \<Rightarrow> language (store s) | Some l \<Rightarrow> l);
              code = (if c_url c \<in> set entrance_urls then Some (encodeBase64 (entrance (store s))) else None);
              token = csrf_token cookie c
          in Some (\<lparr>AcceptLanguage = lang, CurrentNode = node, EntranceCode = code, XCSRFToken = token\<rparr>,
                   case token of None \<Rightarrow> s | Some t \<Rightarrow> on_store (\<lambda>g. g\<lparr>csrfToken := t\<rparr>) s))"

section \<open>Authentication codes\<close>

datatype auth_action = RejectIt | ReturnIt

record auth_result =
  handled :: bool
  action :: "auth_action option"
  auth_message :: "shown_text option"

text \<open>The body of an answer: its code and message, each possibly missing.\<close>

record response_data =
  rd_code :: "nat option"
  rd_message :: "jstring option"

definition forbiddenMessage :: shown_text where
  "forbiddenMessage = Tr ''commons.res.forbidden''"

definition redirectToEntrance :: "http_state \<Rightarrow> http_state" where
  "redirectToEntrance s =
     (let t = end_session s in emit (Push ''entrance'' (Some (entrance (store t)))) t)"

definition redirectToExpired :: "http_state \<Rightarrow> http_state" where
  "redirectToExpired s = emit (Push ''Expired'' None) s"

definition body_message :: "response_data option \<Rightarrow> shown_text" where
  "body_message d =
     (case Option.bind d rd_message of
        None \<Rightarrow> forbiddenMessage
      | Some m \<Rightarrow> if m = [] then forbiddenMessage else FromServer m)"

definition handleAuthResponseCode ::
  "response_data option \<Rightarrow> bool \<Rightarrow> http_state \<Rightarrow> auth_result \<times> http_state" where
  "handleAuthResponseCode d showRBACMessage s =
     (let msg = body_message d; code = Option.bind d rd_code in
      if code = Some (result_code OVERDUE) \<or> code = Some (result_code FORBIDDEN) then
        (\<lparr>handled = True, action = Some RejectIt, auth_message = Some msg\<rparr>, redirectToEntrance s)
      else if code = Some (result_code ERR_RBAC) then
        (\<lparr>handled = True, action = Some RejectIt, auth_message = Some msg\<rparr>,
         if showRBACMessage then emit (ShowError msg) s else s)
      else if code = Some (result_code EXPIRED) then
        (\<lparr>handled = True, action = Some ReturnIt, auth_message = Some msg\<rparr>, redirectToExpired s)
      else (\<lparr>handled = False, action = None, auth_message = None\<rparr>, s))"

definition handleAuthResponseStatus :: "nat \<Rightarrow> http_state \<Rightarrow> auth_result \<times> http_state" where
  "handleAuthResponseStatus status s =
     (if status = result_code OVERDUE \<or> status = result_code FORBIDDEN then
        (\<lparr>handled = True, action = Some RejectIt, auth_message = Some forbiddenMessage\<rparr>, redirectToEntrance s)
      else if status = result_code EXPIRED then
        (\<lparr>handled = True, action = Some ReturnIt, auth_message = Some forbiddenMessage\<rparr>, redirectToExpired s)
      else (\<lparr>handled = False, action = None, auth_message = None\<rparr>, s))"

section \<open>Answers\<close>

text \<open>What the interceptor makes of an answer: the data, \<open>undefined\<close>, a rejection with the data, or
  a \<open>TypeError\<close> of its own.\<close>

datatype http_outcome = Data response_data | Undefined | Rejects "response_data option" | TypeErr

definition onFulfilled ::
  "response_data option \<Rightarrow> bool \<Rightarrow> http_state \<Rightarrow> http_outcome \<times> http_state" where
  "onFulfilled d skipErrorMessage s =
     (let (auth, s) = handleAuthResponseCode d True s in
      if handled auth then (if action auth = Some ReturnIt then (Undefined, s) else (Rejects d, s))
      else case d of
          None \<Rightarrow> (TypeErr, s)
        | Some r \<Rightarrow>
            if rd_code r = Some (result_code ERR_XPACK) then (Rejects d, s)
            else if rd_code r = Some (result_code ERR_ENTERPRISE) then (Rejects d, s)
            else if rd_code r = Some (result_code NODE_UNBIND) then (Undefined, emit Reload (emit StartChangeToLocal s))
            else if rd_code r = Some (result_code ERR_GLOBAL_LOADING) then
              (Undefined, on_store (\<lambda>g. g\<lparr>isLoading := True,
                 loadingText := (case rd_message r of None \<Rightarrow> [] | Some m \<Rightarrow> m)\<rparr>) s)
            else
              let s = (if isLoading (store s) then on_store (\<lambda>g. g\<lparr>isLoading := False\<rparr>) s else s) in
              if rd_code r = Some (result_code ERR_AUTH) then (Data r, s)
              else if rd_code r \<notin> {None, Some 0, Some (result_code SUCCESS)} then
                (case rd_message r of
                   None \<Rightarrow> (TypeErr, s)
                 | Some m \<Rightarrow>
                     if str_includes (toLowerCase m) (lit ''operation not permitted'')
                     then (Rejects d, emit (ShowError (Tr ''license.tamperHelper'')) s)
                     else (Rejects d, if skipErrorMessage then s else emit (ShowError (FromServer m)) s))
              else (Data r, s))"

section \<open>Errors\<close>

record error_body =
  eb_message :: "jstring option"
  eb_errCode :: "jstring option"

record error_response =
  er_status :: nat
  er_data :: "error_body option"
  er_url :: jstring

record http_error =
  e_message :: jstring
  e_response :: "error_response option"

definition has_text :: "jstring option \<Rightarrow> bool" where
  "has_text m \<longleftrightarrow> m \<noteq> None \<and> m \<noteq> Some []"

definition er_message :: "error_response \<Rightarrow> jstring option" where
  "er_message r = Option.bind (er_data r) eb_message"

definition isCsrfForbidden :: "error_response \<Rightarrow> bool" where
  "isCsrfForbidden r =
     (case er_message r of None \<Rightarrow> False | Some m \<Rightarrow> str_includes (toLowerCase m) (lit ''csrf token invalid''))"

definition checkStatus :: "nat \<Rightarrow> jstring \<Rightarrow> http_state \<Rightarrow> http_state" where
  "checkStatus status msg s =
     (let say = (\<lambda>key. ShowError (if msg \<noteq> [] then FromServer msg else Tr key)) in
      if status = 400 then emit (say ''commons.res.paramError'') s
      else if status = 404 then emit (say ''commons.res.notFound'') s
      else if status = 403 then
        (let t = end_session s in
         emit (say ''commons.res.forbidden'') (emit (Replace ''entrance'' (Some (entrance (store t)))) t))
      else if status = 500 then emit (say ''commons.res.serverError'') s
      else emit (say ''commons.res.commonError'') s)"

definition localAuthRequired :: "error_response option \<Rightarrow> bool" where
  "localAuthRequired r \<longleftrightarrow>
     map_option er_status r = Some 401 \<or>
     Option.bind (Option.bind r er_data) eb_errCode = Some (lit ''LOCAL_AUTH_REQUIRED'')"

text \<open>The promise is resolved with \<open>undefined\<close> (\<open>True\<close>) for an expired licence, rejected otherwise.\<close>

definition onRejected :: "jstring option \<Rightarrow> bool \<Rightarrow> http_error \<Rightarrow> http_state \<Rightarrow> bool \<times> http_state" where
  "onRejected currentRoute onLine e s0 =
     (let response = e_response e;
          s = (if localAuthRequired response \<and>
                  \<not> str_includes (case response of None \<Rightarrow> [] | Some r \<Rightarrow> er_url r) (lit ''/core/auth/login'')
               then let t = end_session s0 in
                    if currentRoute \<noteq> Some (lit ''login'') \<and> currentRoute \<noteq> Some (lit ''entrance'')
                    then emit (Replace ''login'' None) t else t
               else s0);
          s = (if str_includes (e_message e) (lit ''timeout'')
               then emit (ShowError (Tr ''commons.msg.requestTimeout'')) s else s)
      in case response of
           None \<Rightarrow> (False, if \<not> onLine then emit (ReplacePath ''/500'') s else s)
         | Some r \<Rightarrow>
             if er_status r = 313 then (True, emit (Push ''Expired'' None) s)
             else if er_status r = 403 then
               (False,
                if isCsrfForbidden r then s
                else if has_text (er_message r) then emit (ShowError (FromServer (the (er_message r)))) s
                else emit (ShowError (Tr ''commons.res.forbidden'')) s)
             else if er_status r \<in> {500, 502, 524, 407} then
               (False, checkStatus (er_status r) (if has_text (er_message r) then the (er_message r) else []) s)
             else (False, s))"

section \<open>Pending requests\<close>

text \<open>\<open>pendingMap\<close> from the identification of a request (\<open>getPendingUrl\<close> of the configuration, made by
  the qs package) to its canceler; cancelers are numbered, and those that have been called are listed.\<close>

record canceler =
  pendingMap :: "(jstring \<times> nat) list"
  cancelled :: "nat list"

definition removePending :: "jstring \<Rightarrow> canceler \<Rightarrow> canceler" where
  "removePending url p =
     (case map_of (pendingMap p) url of
        None \<Rightarrow> p
      | Some cancel \<Rightarrow> p\<lparr>cancelled := cancelled p @ [cancel], pendingMap := filter (\<lambda>(u, c). u \<noteq> url) (pendingMap p)\<rparr>)"

text \<open>A configuration with a token of its own is not entered.\<close>

definition addPending :: "jstring \<Rightarrow> bool \<Rightarrow> nat \<Rightarrow> canceler \<Rightarrow> canceler" where
  "addPending url has_token cancel p =
     (let p = removePending url p in
      if has_token then p
      else if map_of (pendingMap p) url = None then p\<lparr>pendingMap := pendingMap p @ [(url, cancel)]\<rparr>
      else p)"

definition removeAllPending :: "canceler \<Rightarrow> canceler" where
  "removeAllPending p = \<lparr>pendingMap = [], cancelled = cancelled p @ map snd (pendingMap p)\<rparr>"

definition reset :: "canceler \<Rightarrow> canceler" where
  "reset p = p\<lparr>pendingMap := []\<rparr>"

section \<open>Streams\<close>

text \<open>The probe before a stream is opened: it fails or times out, or answers with a status, a content
  type and, if the body is JSON, its data (\<open>None\<close>: not JSON after all).\<close>

datatype probe = NoAnswer | Answer nat jstring "response_data option"

definition checkStreamAuth :: "probe \<Rightarrow> http_state \<Rightarrow> shown_text option \<times> http_state" where
  "checkStreamAuth res s =
     (case res of
        NoAnswer \<Rightarrow> (None, s)
      | Answer status contentType body \<Rightarrow>
          (let (statusResult, s) = handleAuthResponseStatus status s in
           if handled statusResult then (auth_message statusResult, s)
           else if \<not> str_includes contentType (lit ''application/json'') then (None, s)
           else case body of
               None \<Rightarrow> (None, s)
             | Some d \<Rightarrow>
                 (let (codeResult, s) = handleAuthResponseCode (Some d) False s in
                  if handled codeResult then (auth_message codeResult, s) else (None, s))))"

end
