(* ===== verification/HttpProps.thy ===== *)
theory HttpProps
  imports Http
begin

text \<open>
  What the interceptors do to the session: exactly which answers end it, and that nothing of it is
  left then; what the headers of a request can hold; and the bookkeeping of pending requests.
\<close>

section \<open>Ending the session\<close>

definition signed_out :: "http_state \<Rightarrow> bool" where
  "signed_out s \<longleftrightarrow> \<not> isLogin (store s) \<and> permissions (store s) = [] \<and> masterOnlyPermissions (store s) = []
     \<and> nodeRoles (store s) = [] \<and> \<not> isAdmin (store s) \<and> pageStateCache (h_app s) = Map.empty"

lemma end_session_signed_out: "signed_out (end_session s)"
  by (simp add: signed_out_def end_session_def clearAuthInfo_def setLogStatus_def clearPageStateCache_def)

lemma emit_app [simp]: "h_app (emit e s) = h_app s"
  by (simp add: emit_def)

lemma signed_out_emit [simp]: "signed_out (emit e s) = signed_out s"
  by (simp add: signed_out_def)

lemma end_session_login [simp]: "\<not> isLogin (store (end_session s))"
  using end_session_signed_out [of s] by (simp add: signed_out_def)

lemma on_store_login: "(\<And>g. isLogin (f g) = isLogin g) \<Longrightarrow> isLogin (store (on_store f s)) = isLogin (store s)"
  by (simp add: on_store_def)

text \<open>The conditions under which the code ends the session.\<close>

definition auth_code :: "response_data option \<Rightarrow> bool" where
  "auth_code d \<longleftrightarrow> Option.bind d rd_code \<in> {Some 401, Some 403}"

lemma code_keeps_session:
  assumes "handleAuthResponseCode d b s = (r, t)"
  shows "if auth_code d then signed_out t \<and> handled r \<and> action r = Some RejectIt else h_app t = h_app s"
  using assms end_session_signed_out [of s]
  by (auto simp: handleAuthResponseCode_def auth_code_def redirectToEntrance_def redirectToExpired_def Let_def
      split: if_splits)

lemma fulfilled_session:
  assumes "onFulfilled d skip s = (r, t)"
  shows "if auth_code d then signed_out t else isLogin (store t) = isLogin (store s)"
proof -
  obtain a u where h: "handleAuthResponseCode d True s = (a, u)" by fastforce
  note c = code_keeps_session [OF h]
  show ?thesis
  proof (cases "auth_code d")
    case True
    with assms c h show ?thesis by (auto simp: onFulfilled_def)
  next
    case False
    with c have "h_app u = h_app s" by simp
    with assms h False show ?thesis
      by (auto simp: onFulfilled_def on_store_def Let_def split: if_splits option.splits)
  qed
qed

lemma checkStatus_session: "status \<noteq> 403 \<Longrightarrow> h_app (checkStatus status m s) = h_app s"
  by (simp add: checkStatus_def Let_def)

definition login_call :: "error_response option \<Rightarrow> bool" where
  "login_call r \<longleftrightarrow> str_includes (case r of None \<Rightarrow> [] | Some r \<Rightarrow> er_url r) (lit ''/core/auth/login'')"

lemma rejected_session:
  assumes "onRejected cur onLine e s = (b, t)"
  shows "if localAuthRequired (e_response e) \<and> \<not> login_call (e_response e)
     then signed_out t else h_app t = h_app s"
proof -
  let ?over = "localAuthRequired (e_response e) \<and> \<not> login_call (e_response e)"
  have "h_app t = h_app (if ?over then end_session s else s)"
    using assms checkStatus_session
    by (cases "e_response e")
      (auto simp: onRejected_def login_call_def Let_def split: if_splits simp del: lit_simps)
  then show ?thesis using end_session_signed_out [of s] by (auto simp: signed_out_def)
qed

text \<open>After a refused answer no check of the user's permissions succeeds.\<close>

lemma signed_out_refused: "signed_out s \<Longrightarrow> \<not> fst (hasPermission p (h_app s))"
  by (auto simp: hasPermission_def signed_out_def Let_def)

text \<open>C5: The interceptors end the session exactly on the answers that say it is over: a body with
  code 401 or 403, or an error with status 401 or the code \<open>LOCAL_AUTH_REQUIRED\<close> from
  any call but the login itself; then no permission, role or cached page state of the user is left.
  Every other answer leaves the login as it was.\<close>

theorem http_session_end:
  "(if auth_code d then signed_out (snd (onFulfilled d skip s))
    else isLogin (store (snd (onFulfilled d skip s))) = isLogin (store s))
   \<and> (if localAuthRequired (e_response e) \<and> \<not> login_call (e_response e)
      then signed_out (snd (onRejected cur onLine e s))
      else isLogin (store (snd (onRejected cur onLine e s))) = isLogin (store s))"
  using fulfilled_session [of d skip s] rejected_session [of cur onLine e s]
  by (metis prod.collapse)

theorem http_session_end_witness:
  "signed_out (snd (onFulfilled (Some \<lparr>rd_code = Some 401, rd_message = None\<rparr>) False
     \<lparr>h_app = setLogStatus True initial_app, operateNodeOverride = [], effects = []\<rparr>))"
  using http_session_end [of "Some \<lparr>rd_code = Some 401, rd_message = None\<rparr>" False
      "\<lparr>h_app = setLogStatus True initial_app, operateNodeOverride = [], effects = []\<rparr>"]
  by (simp add: auth_code_def)

text \<open>The stream probe ends the session on the same codes.\<close>

lemma stream_session:
  assumes "checkStreamAuth (Answer status ct body) s = (m, t)"
  shows "if status \<in> {401, 403} \<or> (status \<noteq> 313 \<and> str_includes ct (lit ''application/json'') \<and> body \<noteq> None \<and> auth_code body)
     then signed_out t else h_app t = h_app s"
proof (cases "status \<in> {401, 403, 313}")
  case True
  with assms end_session_signed_out [of s] show ?thesis
    by (auto simp: checkStreamAuth_def handleAuthResponseStatus_def redirectToEntrance_def redirectToExpired_def Let_def)
next
  case False
  then have st: "handleAuthResponseStatus status s = (\<lparr>handled = False, action = None, auth_message = None\<rparr>, s)"
    by (simp add: handleAuthResponseStatus_def)
  show ?thesis
  proof (cases "str_includes ct (lit ''application/json'')")
    case js: True
    show ?thesis
    proof (cases body)
      case None
      with assms st js False show ?thesis by (simp add: checkStreamAuth_def)
    next
      case (Some d)
      obtain r u where h: "handleAuthResponseCode (Some d) False s = (r, u)" by fastforce
      with assms st js Some have "t = u" by (auto simp: checkStreamAuth_def split: if_splits)
      with code_keeps_session [OF h] js Some False show ?thesis by auto
    qed
  qed (use assms st False in \<open>auto simp: checkStreamAuth_def\<close>)
qed

section \<open>Requests\<close>

text \<open>What a request carries: the node's name is escaped, so that the header holds only unreserved
  characters and percent signs; the entrance code goes only to the calls of the login; the CSRF
  token only to calls that change something, and it is the cookie's, which the store keeps.\<close>

theorem request_headers_safe:
  assumes "onRequest encodeBase64 cookie c s = Some (h, t)"
    and "\<forall>x \<in> set (currentNode (store s)). x < 65536" "\<forall>x \<in> set (operateNodeOverride s). x < 65536"
    and "\<forall>n. c_CurrentNode c = Some n \<longrightarrow> (\<forall>x \<in> set n. x < 65536)"
  shows "(\<forall>x \<in> set (CurrentNode h). uri_unreserved x \<or> x = 37)
    \<and> (EntranceCode h \<noteq> None \<longleftrightarrow> c_url c \<in> set entrance_urls)
    \<and> (\<forall>v. XCSRFToken h = Some v \<longrightarrow> cookie = Some v \<and> csrfToken (store t) = v
          \<and> c_method c \<in> Some ` {POST, PUT, PATCH, DELETE})"
proof -
  obtain n where n: "encodeURIComponent (requested_node c s) = Some n"
    using assms(1) by (auto simp: onRequest_def split: option.splits)
  then have h: "h = \<lparr>AcceptLanguage = (case c_AcceptLanguage c of None \<Rightarrow> language (store s) | Some l \<Rightarrow> l),
      CurrentNode = n,
      EntranceCode = (if c_url c \<in> set entrance_urls then Some (encodeBase64 (entrance (store s))) else None),
      XCSRFToken = csrf_token cookie c\<rparr>"
    and t: "t = (case csrf_token cookie c of None \<Rightarrow> s | Some t \<Rightarrow> on_store (\<lambda>g. g\<lparr>csrfToken := t\<rparr>) s)"
    using assms(1) by (simp_all add: onRequest_def Let_def)
  have units: "\<forall>x \<in> set (requested_node c s). x < 65536"
    using assms(2-4) by (auto simp: requested_node_def getOperateNodeOverride_def split: option.splits)
  have code: "EntranceCode h \<noteq> None \<longleftrightarrow> c_url c \<in> set entrance_urls"
    and tok: "XCSRFToken h = csrf_token cookie c"
    and keep: "\<And>v. csrf_token cookie c = Some v \<Longrightarrow> csrfToken (store t) = v"
    by (simp_all add: h t on_store_def)
  have "cookie = Some v \<and> c_method c \<in> Some ` {POST, PUT, PATCH, DELETE}" if "csrf_token cookie c = Some v" for v
  proof (cases "c_method c")
    case None
    with that show ?thesis by (simp add: csrf_token_def)
  next
    case (Some m)
    with that show ?thesis by (cases m) (auto simp: csrf_token_def split: if_splits)
  qed
  with code tok keep encodeURIComponent_units [OF units n] h show ?thesis by auto
qed

definition idle :: http_state where
  "idle = \<lparr>h_app = initial_app, operateNodeOverride = [], effects = []\<rparr>"

theorem request_headers_safe_witness:
  "(\<exists>h t. onRequest (\<lambda>s. s) (Some (lit ''x''))
      \<lparr>c_url = lit ''/users'', c_method = Some POST, c_AcceptLanguage = None, c_CurrentNode = None\<rparr> idle = Some (h, t)
    \<and> csrfToken (store t) = lit ''x'')"
proof -
  let ?c = "\<lparr>c_url = lit ''/users'', c_method = Some POST, c_AcceptLanguage = None, c_CurrentNode = None\<rparr>"
  have e: "encodeURIComponent (requested_node ?c idle) = Some (lit ''local'')"
    by (simp add: requested_node_def getOperateNodeOverride_def idle_def initial_app_def initial_global_def
        uri_unreserved_def is_lower_def)
  then obtain h t where o: "onRequest (\<lambda>s. s) (Some (lit ''x'')) ?c idle = Some (h, t)"
    and x: "XCSRFToken h = Some (lit ''x'')"
    by (auto simp: onRequest_def csrf_token_def Let_def)
  from request_headers_safe [OF o] x have "csrfToken (store t) = lit ''x''"
    by (simp add: idle_def initial_app_def initial_global_def)
  with o show ?thesis by blast
qed

section \<open>Pending requests\<close>

text \<open>Identifications are pending once; a request that comes again cancels the earlier one.\<close>

definition canceler_inv :: "canceler \<Rightarrow> bool" where
  "canceler_inv p \<longleftrightarrow> distinct (map fst (pendingMap p))"

lemma removePending_inv: "canceler_inv p \<Longrightarrow> canceler_inv (removePending url p)"
  by (auto simp: canceler_inv_def removePending_def distinct_map_filter split: option.splits)

lemma removePending_gone: "map_of (pendingMap (removePending url p)) url = None"
  by (auto simp: removePending_def map_of_eq_None_iff split: option.splits)

lemma addPending_inv: "canceler_inv p \<Longrightarrow> canceler_inv (addPending url b c p)"
  using removePending_inv [of p url] removePending_gone [of url p]
  by (auto simp: addPending_def canceler_inv_def Let_def map_of_eq_None_iff)

lemma addPending_replaces:
  assumes "map_of (pendingMap p) url = Some old"
  shows "old \<in> set (cancelled (addPending url False new p))"
    and "map_of (pendingMap (addPending url False new p)) url = Some new"
  using assms removePending_gone [of url p]
  by (simp_all add: addPending_def removePending_def Let_def map_of_append map_add_Some_iff)

end
