(* ===== verification/Table.thy ===== *)
theory Table
  imports JsNumber
begin

text \<open>
  The columns of the tables: \<^verbatim>\<open>src/web/src/components/table/Table.ts\<close> and \<^verbatim>\<open>shared.ts\<close>, the
  cards of \<^verbatim>\<open>complex/useCardColumns.ts\<close>, and the flattening of slots in
  \<^verbatim>\<open>components/shared/vnode.ts\<close>.  A virtual node is its type, its properties as far as the code
  reads them, and its children; a configuration is what the user has chosen per column.
\<close>

section \<open>Virtual nodes\<close>

text \<open>A component may carry a \<open>name\<close> or a \<open>__name\<close>.\<close>

datatype vtype = Fragment | Comment | TextNode | Tag jstring | Component "jstring option" "jstring option"

datatype fixed = FixedBool bool | FixedSide jstring

record vprops =
  vp_label :: "jstring option"
  vp_prop :: "jstring option"
  vp_columnKey :: "jstring option"
  vp_type :: "jstring option"
  vp_fixed :: "fixed option"
  vp_fix :: "fixed option"
  vp_cardType :: "jstring option"

text \<open>\<open>null\<close> nodes, arrays of nodes and nodes; \<open>None\<close> for missing children.\<close>

datatype vnode =
    NullNode
  | Array "vnode list"
  | Node (vtype_of: vtype) (props_of: "vprops option") (key_of: "jstring option") (kids: "vnode list option")

fun flattenVNodes :: "vnode list \<Rightarrow> vnode list" where
  "flattenVNodes [] = []"
| "flattenVNodes (NullNode # ns) = flattenVNodes ns"
| "flattenVNodes (Array xs # ns) = flattenVNodes xs @ flattenVNodes ns"
| "flattenVNodes (Node ty p k ch # ns) =
     (if ty = Fragment then (case ch of None \<Rightarrow> [] | Some xs \<Rightarrow> flattenVNodes xs) @ flattenVNodes ns
      else if ty = Comment \<or> ty = TextNode then flattenVNodes ns
      else Node ty p k ch # flattenVNodes ns)"

text \<open>\<open>type?.name || type?.__name || type\<close>: a name, or the type itself.\<close>

definition first_text :: "jstring option list \<Rightarrow> jstring option" where
  "first_text vs = (case find (\<lambda>v. v \<noteq> None \<and> v \<noteq> Some []) vs of None \<Rightarrow> None | Some v \<Rightarrow> v)"

definition getVNodeComponentName :: "vnode \<Rightarrow> jstring + vtype" where
  "getVNodeComponentName n =
     (case vtype_of n of
        Component name name' \<Rightarrow>
          (case first_text [name, name'] of Some t \<Rightarrow> Inl t | None \<Rightarrow> Inr (vtype_of n))
      | Tag t \<Rightarrow> Inl t
      | ty \<Rightarrow> Inr ty)"

section \<open>Columns\<close>

definition props :: "vnode \<Rightarrow> vprops" where
  "props n = (case props_of n of None \<Rightarrow>
       \<lparr>vp_label = None, vp_prop = None, vp_columnKey = None, vp_type = None, vp_fixed = None, vp_fix = None,
        vp_cardType = None\<rparr>
     | Some p \<Rightarrow> p)"

definition isElTableColumnVNode :: "vnode \<Rightarrow> bool" where
  "isElTableColumnVNode n =
     (case vtype_of n of
        Tag t \<Rightarrow> t = lit ''el-table-column''
      | Component name name' \<Rightarrow> name = Some (lit ''ElTableColumn'') \<or> name' = Some (lit ''ElTableColumn'')
      | _ \<Rightarrow> False)"

definition or_text :: "jstring option \<Rightarrow> jstring \<Rightarrow> jstring" where
  "or_text v d = (case v of None \<Rightarrow> d | Some t \<Rightarrow> if t = [] then d else t)"

definition getTableColumnKey :: "vnode \<Rightarrow> jstring" where
  "getTableColumnKey n =
     or_text (vp_columnKey (props n)) (or_text (vp_prop (props n)) (or_text (key_of n) (or_text (vp_label (props n)) [])))"

record column_config =
  key :: jstring
  label :: jstring
  column_prop :: "jstring option"
  shown :: bool
  fixed_at :: "fixed option"

definition column_number :: "nat \<Rightarrow> jstring" where
  "column_number i = lit ''column-'' @ digits_of_nat i"

definition buildColumnKey :: "vnode \<Rightarrow> nat \<Rightarrow> jstring" where
  "buildColumnKey n i = or_text (Some (getTableColumnKey n)) (column_number i)"

definition or_else :: "'a option \<Rightarrow> 'a option \<Rightarrow> 'a option" where
  "or_else a b = (case a of None \<Rightarrow> b | Some x \<Rightarrow> Some x)"

definition buildColumnConfig :: "vnode \<Rightarrow> nat \<Rightarrow> column_config" where
  "buildColumnConfig n i =
     \<lparr>key = buildColumnKey n i,
      label = or_text (vp_label (props n)) (or_text (vp_prop (props n)) (column_number i)),
      column_prop = vp_prop (props n), shown = True, fixed_at = or_else (vp_fixed (props n)) (vp_fix (props n))\<rparr>"

definition isConfigurableColumn :: "vnode \<Rightarrow> bool" where
  "isConfigurableColumn n \<longleftrightarrow>
     isElTableColumnVNode n \<and>
     vp_type (props n) \<notin> set [Some (lit ''selection''), Some (lit ''index''), Some (lit ''expand'')] \<and>
     or_text (vp_label (props n)) (or_text (vp_prop (props n)) []) \<noteq> []"

definition slotColumns :: "vnode list \<Rightarrow> column_config list" where
  "slotColumns slotChildren =
     map (\<lambda>(i, n). buildColumnConfig n i) (enumerate 0 (filter isConfigurableColumn slotChildren))"

section \<open>Merging with the stored configuration\<close>

text \<open>\<open>new Map (entries)\<close>: of equal keys the last entry counts.\<close>

definition sourceByKey :: "column_config list \<Rightarrow> jstring \<Rightarrow> column_config option" where
  "sourceByKey source k = map_of (rev (map (\<lambda>c. (key c, c)) source)) k"

definition sourceOrder :: "column_config list \<Rightarrow> jstring \<Rightarrow> nat option" where
  "sourceOrder source k = map_of (rev (map (\<lambda>(i, c). (key c, i)) (enumerate 0 source))) k"

text \<open>The sort is stable, by the numbers \<open>__order\<close>.\<close>

definition order_of :: "column_config list \<Rightarrow> nat \<times> column_config \<Rightarrow> nat" where
  "order_of source = (\<lambda>(i, c). case sourceOrder source (key c) of None \<Rightarrow> i | Some o' \<Rightarrow> o')"

definition merge_column :: "column_config list \<Rightarrow> column_config \<Rightarrow> column_config" where
  "merge_column source c =
     (case sourceByKey source (key c) of
        None \<Rightarrow> c\<lparr>shown := True\<rparr>
      | Some s \<Rightarrow> c\<lparr>shown := shown s, fixed_at := or_else (fixed_at s) (fixed_at c)\<rparr>)"

definition mergedColumns :: "column_config list \<Rightarrow> column_config list \<Rightarrow> column_config list" where
  "mergedColumns source next =
     map (\<lambda>(i, c). merge_column source c) (sort_key (order_of source) (enumerate 0 next))"

text \<open>\<open>columns\<close> is the property of the table (\<open>None\<close> if it has none), \<open>stored\<close> what local storage had.\<close>

definition syncColumns :: "column_config list option \<Rightarrow> column_config list \<Rightarrow> column_config list \<Rightarrow> column_config list option" where
  "syncColumns columns stored next =
     (case columns of
        None \<Rightarrow> None
      | Some current \<Rightarrow> Some (mergedColumns (if length current > 0 then current else stored) next))"

definition show_merge :: "column_config list \<Rightarrow> column_config \<Rightarrow> column_config" where
  "show_merge source c =
     c\<lparr>shown := (case sourceByKey source (key c) of None \<Rightarrow> True | Some s \<Rightarrow> shown s)\<rparr>"

definition resolvedColumns :: "column_config list option \<Rightarrow> column_config list \<Rightarrow> column_config list \<Rightarrow> column_config list" where
  "resolvedColumns columns stored slotCols =
     (case columns of
        Some (c # cs) \<Rightarrow> c # cs
      | _ \<Rightarrow>
          if length stored > 0
          then map (\<lambda>(i, c). show_merge stored c) (sort_key (order_of stored) (enumerate 0 slotCols))
          else slotCols)"

section \<open>Children\<close>

text \<open>The clone of a column's node gets the key of its configuration and one \<open>fixed\<close> property.\<close>

definition truthy_fixed :: "fixed option \<Rightarrow> fixed option" where
  "truthy_fixed f = (case f of Some (FixedBool False) \<Rightarrow> None | Some (FixedSide []) \<Rightarrow> None | _ \<Rightarrow> f)"

definition clone_column :: "vnode \<Rightarrow> jstring \<Rightarrow> vnode" where
  "clone_column n k =
     Node (vtype_of n)
       (Some ((props n)\<lparr>vp_fixed := or_else (vp_fixed (props n)) (truthy_fixed (vp_fix (props n)))\<rparr>)) (Some k) (kids n)"

definition columnNodeMap :: "vnode list \<Rightarrow> jstring \<Rightarrow> vnode option" where
  "columnNodeMap slotChildren k =
     map_of (rev (map (\<lambda>(i, n). (buildColumnKey n i, n)) (enumerate 0 (filter isConfigurableColumn slotChildren)))) k"

definition orderedConfigurableChildren :: "column_config list \<Rightarrow> vnode list \<Rightarrow> vnode list" where
  "orderedConfigurableChildren resolved slotChildren =
     List.map_filter (\<lambda>c. map_option (\<lambda>n. clone_column n (key c)) (columnNodeMap slotChildren (key c)))
       (filter shown resolved)"

fun render_loop :: "vnode list \<Rightarrow> bool \<Rightarrow> vnode list \<Rightarrow> vnode list" where
  "render_loop ordered inserted [] = []"
| "render_loop ordered inserted (child # ns) =
     (if isConfigurableColumn child
      then (if \<not> inserted then ordered else []) @ render_loop ordered True ns
      else child # render_loop ordered inserted ns)"

definition renderedChildren :: "column_config list \<Rightarrow> vnode list \<Rightarrow> vnode list" where
  "renderedChildren resolved slotChildren =
     (if length (slotColumns slotChildren) = 0 then slotChildren
      else render_loop (orderedConfigurableChildren resolved slotChildren) False slotChildren)"

section \<open>Cards\<close>

definition cardTypes :: "jstring list" where
  "cardTypes = [lit ''name'', lit ''status'', lit ''content'', lit ''content-full'', lit ''description'', lit ''button'']"

text \<open>The component itself or its names.\<close>

definition isOperationsColumn :: "vnode \<Rightarrow> bool" where
  "isOperationsColumn n =
     (case vtype_of n of
        Component name name' \<Rightarrow> name = Some (lit ''FuTableOperations'') \<or> name' = Some (lit ''FuTableOperations'')
      | Tag t \<Rightarrow> t = lit ''fu-table-operations'' \<or> t = lit ''FuTableOperations''
      | _ \<Rightarrow> False)"

definition isVisible :: "column_config list option \<Rightarrow> vnode \<Rightarrow> bool" where
  "isVisible columns n =
     (if isOperationsColumn n then True
      else case columns of
          None \<Rightarrow> True
        | Some cs \<Rightarrow> if cs = [] then True
            else case find (\<lambda>c. key c = getTableColumnKey n) cs of None \<Rightarrow> True | Some c \<Rightarrow> shown c)"

definition cardColumns :: "column_config list option \<Rightarrow> vnode list \<Rightarrow> (jstring \<times> vnode list) list" where
  "cardColumns columns nodes =
     map (\<lambda>ty. (ty, filter (\<lambda>n. (isElTableColumnVNode n \<or> isOperationsColumn n) \<and>
                             vp_cardType (props n) = Some ty \<and> isVisible columns n) nodes)) cardTypes"

end
