(* ===== verification/TableProps.thy ===== *)
theory TableProps
  imports Table "HOL-Library.Multiset"
begin

text \<open>
  The user's columns: flattened slots hold only component nodes, a configuration keeps the order and the
  visibility the user has chosen, and merging again changes nothing, so that the watcher which
  merges on every change comes to rest.
\<close>

section \<open>Flattened slots\<close>

fun plain :: "vnode \<Rightarrow> bool" where
  "plain (Node ty p k ch) \<longleftrightarrow> ty \<noteq> Fragment \<and> ty \<noteq> Comment \<and> ty \<noteq> TextNode"
| "plain n \<longleftrightarrow> False"

lemma flatten_plain: "n \<in> set (flattenVNodes ns) \<Longrightarrow> plain n"
  by (induction ns rule: flattenVNodes.induct) (auto split: if_splits option.splits)

lemma flatten_fixed: "\<forall>n \<in> set ns. plain n \<Longrightarrow> flattenVNodes ns = ns"
  by (induction ns rule: flattenVNodes.induct) auto

lemma flatten_append: "flattenVNodes (xs @ ys) = flattenVNodes xs @ flattenVNodes ys"
  by (induction xs rule: flattenVNodes.induct) auto

text \<open>However slots are nested in arrays and fragments, \<open>flattenVNodes\<close> gives a list of component
  and element nodes only, without empty nodes, fragments, comments and texts; such a list it leaves
  as it is, and it respects concatenation.\<close>

theorem flatten_plain_nodes:
  "list_all plain (flattenVNodes ns)
   \<and> (list_all plain ms \<longrightarrow> flattenVNodes ms = ms)
   \<and> flattenVNodes (flattenVNodes ns) = flattenVNodes ns
   \<and> flattenVNodes (ns @ ms) = flattenVNodes ns @ flattenVNodes ms"
  using flatten_plain flatten_fixed [of ms] flatten_fixed [of "flattenVNodes ns"]
  by (auto simp: list_all_iff flatten_append)

theorem flatten_plain_nodes_witness:
  "flattenVNodes [Node (Tag (lit ''a'')) None None None] = [Node (Tag (lit ''a'')) None None None]"
  using flatten_plain_nodes [of "[]" "[Node (Tag (lit ''a'')) None None None]"] by simp

section \<open>Stored positions\<close>

lemma map_enumerate_snd: "map (\<lambda>p. f (snd p)) (enumerate n xs) = map f xs"
  by (induction xs arbitrary: n) simp_all

lemma map_of_enumerate:
  assumes "distinct (map f xs)" "i < length xs"
  shows "map_of (rev (map (\<lambda>(i, x). (f x, i)) (enumerate n xs))) (f (xs ! i)) = Some (n + i)"
proof -
  have "map fst (map (\<lambda>(i, x). (f x, i)) (enumerate n xs)) = map f xs"
    using map_enumerate_snd [of f n xs] by (simp add: comp_def split_def)
  then have d: "distinct (map fst (rev (map (\<lambda>(i, x). (f x, i)) (enumerate n xs))))"
    using assms(1) by (simp add: rev_map [symmetric])
  have "(n + i, xs ! i) \<in> set (enumerate n xs)"
    using assms(2) by (force simp: in_set_enumerate_eq)
  then have "(f (xs ! i), n + i) \<in> set (rev (map (\<lambda>(i, x). (f x, i)) (enumerate n xs)))"
    by force
  with d show ?thesis by (simp add: map_of_eq_Some_iff)
qed

lemma sourceOrder_nth:
  "distinct (map key src) \<Longrightarrow> i < length src \<Longrightarrow> sourceOrder src (key (src ! i)) = Some i"
  using map_of_enumerate [of key src i 0] by (simp add: sourceOrder_def)

lemma sourceByKey_Some:
  assumes "distinct (map key src)" "c \<in> set src"
  shows "sourceByKey src (key c) = Some c"
proof -
  have "distinct (map fst (rev (map (\<lambda>c. (key c, c)) src)))"
    using assms(1) by (simp add: comp_def rev_map [symmetric])
  moreover have "(key c, c) \<in> set (rev (map (\<lambda>c. (key c, c)) src))" using assms(2) by auto
  ultimately show ?thesis by (simp add: sourceByKey_def map_of_eq_Some_iff)
qed

lemma merge_column_key [simp]: "key (merge_column src c) = key c"
  by (simp add: merge_column_def split: option.splits)

lemma set_mergedColumns: "set (mergedColumns src new) = merge_column src ` set new"
proof -
  have "set (mergedColumns src new) = merge_column src ` snd ` set (enumerate 0 new)"
    by (force simp: mergedColumns_def)
  also have "snd ` set (enumerate 0 new) = set new"
    by (metis list.set_map map_snd_enumerate)
  finally show ?thesis .
qed

lemma mergedColumns_keys:
  "map key (mergedColumns src new) = map (\<lambda>(i, c). key c) (sort_key (order_of src) (enumerate 0 new))"
  by (simp add: mergedColumns_def comp_def split_def)

lemma mset_mergedColumns: "mset (map key (mergedColumns src new)) = mset (map key new)"
proof -
  have "mset (map key (mergedColumns src new)) = image_mset (\<lambda>(i, c). key c) (mset (enumerate 0 new))"
    by (simp add: mergedColumns_keys)
  also have "\<dots> = mset (map (\<lambda>p. key (snd p)) (enumerate 0 new))"
    by (simp add: split_def)
  also have "\<dots> = mset (map key new)" by (simp only: map_enumerate_snd)
  finally show ?thesis .
qed

lemma distinct_mergedColumns: "distinct (map key new) \<Longrightarrow> distinct (map key (mergedColumns src new))"
  using mset_mergedColumns [of src new] by (metis mset_eq_imp_distinct_iff)

section \<open>Order\<close>

text \<open>A position function that grows along a list determines the list.\<close>

lemma sorted_by_position_unique:
  fixes pos :: "'a \<Rightarrow> nat"
  assumes "inj_on pos (set xs)" "set xs = set ys" "distinct xs" "distinct ys"
    "sorted (map pos xs)" "sorted (map pos ys)"
  shows "xs = ys"
proof -
  have "distinct (map pos xs)" "distinct (map pos ys)"
    using assms(1-4) by (simp_all add: distinct_map)
  then have "map pos xs = map pos ys"
    using assms by (intro sorted_distinct_set_unique) auto
  with assms(1,2) show ?thesis
    by (metis map_inj_on sup.idem)
qed

lemma position_sorted:
  assumes "distinct (map key src)"
  shows "sorted (map (the \<circ> sourceOrder src) (map key src))"
proof -
  have "map (the \<circ> sourceOrder src) (map key src) = [0..<length src]"
    by (rule nth_equalityI) (simp_all add: sourceOrder_nth [OF assms])
  then show ?thesis by simp
qed

lemma position_inj:
  assumes "distinct (map key src)"
  shows "inj_on (the \<circ> sourceOrder src) (set (map key src))"
proof (rule inj_onI)
  fix a b assume "a \<in> set (map key src)" "b \<in> set (map key src)"
  then obtain i j where "i < length src" "a = key (src ! i)" "j < length src" "b = key (src ! j)"
    by (auto simp: in_set_conv_nth)
  moreover assume "(the \<circ> sourceOrder src) a = (the \<circ> sourceOrder src) b"
  ultimately show "a = b" by (simp add: sourceOrder_nth [OF assms])
qed

lemma merged_positions:
  assumes "\<forall>c \<in> set new. key c \<in> set (map key src)" "distinct (map key src)"
  shows "sorted (map (the \<circ> sourceOrder src) (map key (mergedColumns src new)))"
proof -
  have "sourceOrder src (key c) \<noteq> None" if "c \<in> set new" for c
  proof -
    from assms(1) that have "key c \<in> set (map key src)" by blast
    then obtain i where "i < length src" "key c = key (src ! i)" by (auto simp: in_set_conv_nth)
    with sourceOrder_nth [OF assms(2)] show ?thesis by simp
  qed
  moreover have "c \<in> set new" if "(i, c) \<in> set (enumerate 0 new)" for i c
    using that by (auto simp: in_set_enumerate_eq)
  ultimately have "(the \<circ> sourceOrder src) (key c) = order_of src (i, c)" if "(i, c) \<in> set (enumerate 0 new)" for i c
    using that by (fastforce simp: order_of_def split: option.splits)
  then have "map (the \<circ> sourceOrder src) (map key (mergedColumns src new))
      = map (order_of src) (sort_key (order_of src) (enumerate 0 new))"
    unfolding mergedColumns_keys by (auto simp: comp_def split_def)
  then show ?thesis by simp
qed

lemma merged_order:
  assumes "distinct (map key src)" "distinct (map key new)" "\<forall>c \<in> set new. key c \<in> set (map key src)"
  shows "map key (mergedColumns src new) = filter (\<lambda>k. k \<in> set (map key new)) (map key src)"
proof (rule sorted_by_position_unique [of "the \<circ> sourceOrder src"])
  have s: "set (map key (mergedColumns src new)) = set (map key new)"
    using mset_mergedColumns [of src new] by (metis mset_eq_setD)
  show "inj_on (the \<circ> sourceOrder src) (set (map key (mergedColumns src new)))"
    unfolding s using assms(3) by (intro inj_on_subset [OF position_inj [OF assms(1)]]) auto
  show "set (map key (mergedColumns src new)) = set (filter (\<lambda>k. k \<in> set (map key new)) (map key src))"
    unfolding s using assms(3) by auto
  show "distinct (map key (mergedColumns src new))" by (rule distinct_mergedColumns) fact
  show "distinct (filter (\<lambda>k. k \<in> set (map key new)) (map key src))" using assms(1) by simp
  show "sorted (map (the \<circ> sourceOrder src) (map key (mergedColumns src new)))"
    by (rule merged_positions) (use assms in auto)
  show "sorted (map (the \<circ> sourceOrder src) (filter (\<lambda>k. k \<in> set (map key new)) (map key src)))"
    by (intro sorted_filter position_sorted assms(1))
qed

text \<open>The user's configuration is kept: if every column of the slots is among the configured ones, the
  merged columns are in the configured order, each as visible as configured; and merging
  the result again changes nothing.\<close>

theorem columns_keep_user_choice:
  assumes "distinct (map key src)" "distinct (map key new)" "\<forall>c \<in> set new. key c \<in> set (map key src)"
    and "new \<noteq> []" "src \<noteq> []"
  shows "map_option (map key) (syncColumns (Some src) stored new) =
      Some (filter (\<lambda>k. k \<in> set (map key new)) (map key src))
    \<and> (\<forall>c s. c \<in> set (the (syncColumns (Some src) stored new)) \<longrightarrow> s \<in> set src \<longrightarrow> key s = key c \<longrightarrow> shown c = shown s)
    \<and> syncColumns (syncColumns (Some src) stored new) stored new = syncColumns (Some src) stored new"
proof -
  let ?m = "mergedColumns src new"
  have sync: "syncColumns (Some src) stored new = Some ?m" using assms(5) by (simp add: syncColumns_def)
  have dm: "distinct (map key ?m)" by (rule distinct_mergedColumns) fact
  have keys: "set (map key ?m) = set (map key new)"
    using mset_mergedColumns [of src new] by (metis mset_eq_setD)
  have ne: "?m \<noteq> []" using keys assms(4) by auto
  have shown: "shown c = shown s" if "c \<in> set ?m" "s \<in> set src" "key s = key c" for c s
  proof -
    from that(1) obtain d where d: "d \<in> set new" "c = merge_column src d" by (auto simp: set_mergedColumns)
    with that(3) have "key s = key d" by simp
    with sourceByKey_Some [OF assms(1) that(2)] have "sourceByKey src (key d) = Some s" by simp
    with d show ?thesis by (simp add: merge_column_def)
  qed
  have "mergedColumns ?m new = ?m"
  proof (rule nth_equalityI)
    have order: "map key (mergedColumns ?m new) = map key ?m"
      using merged_order [of ?m new] dm assms(2) keys by (simp add: filter_id_conv)
    then show len: "length (mergedColumns ?m new) = length ?m" by (metis length_map)
    fix i assume i: "i < length (mergedColumns ?m new)"
    then obtain c where c: "c \<in> set new" "mergedColumns ?m new ! i = merge_column ?m c"
      using nth_mem [OF i] by (auto simp: set_mergedColumns)
    from i len obtain d where d: "d \<in> set new" "?m ! i = merge_column src d"
      using nth_mem [of i ?m] by (auto simp: set_mergedColumns)
    have "key (mergedColumns ?m new ! i) = key (?m ! i)"
      using order i len by (metis nth_map)
    with c d have "key c = key d" by simp
    then have "c = d" by (rule distinct_map_inj [OF assms(2) c(1) d(1)])
    moreover have "sourceByKey ?m (key d) = Some (merge_column src d)"
      using sourceByKey_Some [OF dm, of "merge_column src d"] d(1) by (simp add: set_mergedColumns)
    ultimately show "mergedColumns ?m new ! i = ?m ! i"
      using c d by (auto simp: merge_column_def or_else_def split: option.splits)
  qed
  then show ?thesis
    using merged_order [OF assms(1-3)] shown ne sync by (simp add: syncColumns_def)
qed

definition col :: "jstring \<Rightarrow> bool \<Rightarrow> column_config" where
  "col k b = \<lparr>key = k, label = k, column_prop = None, shown = b, fixed_at = None\<rparr>"

theorem columns_keep_user_choice_witness:
  "map_option (map key) (syncColumns (Some [col [98] False, col [97] True]) [] [col [97] True, col [98] True]) =
     Some [[98], [97]]"
  using columns_keep_user_choice [of "[col [98] False, col [97] True]" "[col [97] True, col [98] True]" "[]"]
  by (simp add: col_def)

end
