(* ===== verification/RouteTable.thy ===== *)
theory RouteTable
  imports Permission Complex_Main
begin

text \<open>
  The pages of the application: \<^verbatim>\<open>src/web/src/routers/modules/*.ts\<close>, module by module and field
  by field.  A page has the attributes of a \<open>RouteRecordRaw\<close> and its children; a component is named
  by the file it is loaded from.
\<close>

section \<open>Route records\<close>

text \<open>\<open>permission\<close> is one code or a list of them.\<close>

datatype permission_code = Code string | Codes "string list"

definition perm_of :: "permission_code \<Rightarrow> perm_value" where
  "perm_of c = (case c of Code s \<Rightarrow> PStr (lit s) | Codes ss \<Rightarrow> PArr (map lit ss))"

record page_meta =
  m_title :: "string option"
  m_icon :: "string option"
  m_detail :: "string option"
  m_parent :: "string option"
  m_key :: "string option"
  m_activeMenu :: "string option"
  m_permission :: "permission_code option"
  m_adminOnly :: "bool option"
  m_protectedRoleOnly :: "bool option"
  m_ignoreTab :: "bool option"
  m_keepAlive :: "bool option"
  m_hideInSidebar :: "bool option"
  m_alwaysVisible :: "bool option"
  m_requiresAuth :: "bool option"
  m_parentRouteName :: "string option"
  m_insertAfter :: "string option"

definition no_meta :: page_meta where
  "no_meta = \<lparr>m_title = None, m_icon = None, m_detail = None, m_parent = None, m_key = None,
     m_activeMenu = None, m_permission = None, m_adminOnly = None, m_protectedRoleOnly = None,
     m_ignoreTab = None, m_keepAlive = None, m_hideInSidebar = None, m_alwaysVisible = None,
     m_requiresAuth = None, m_parentRouteName = None, m_insertAfter = None\<rparr>"

text \<open>A redirection is a path, or one of the two functions the code uses.\<close>

datatype redirect = Redirect string | RedirectName string | AvailableSetting

record page_attrs =
  r_path :: string
  r_name :: "string option"
  r_sort :: "rat option"
  r_component :: "string option"
  r_redirect :: "redirect option"
  r_hidden :: "bool option"
  r_props :: "bool option"
  r_meta :: "page_meta option"

definition page_at :: "string \<Rightarrow> page_attrs" where
  "page_at p = \<lparr>r_path = p, r_name = None, r_sort = None, r_component = None, r_redirect = None,
     r_hidden = None, r_props = None, r_meta = None\<rparr>"

datatype page = Page (attrs: page_attrs) (subpages: "page list option")

text \<open>\<open>redirectToAvailableSetting\<close> asks the store for the permissions one after another.\<close>

definition settingPermissions :: permission_code where
  "settingPermissions = Codes [''alert_view'', ''backup_view'']"

definition redirectToAvailableSetting :: "app \<Rightarrow> string \<times> app" where
  "redirectToAvailableSetting a =
     (if isAdmin (gs a) then (''/settings/panel'', a)
      else case hasPermission (lit ''alert_view'') a of
        (True, a) \<Rightarrow> (''/settings/alert'', a)
      | (False, a) \<Rightarrow>
          (case hasPermission (lit ''backup_view'') a of
             (True, a) \<Rightarrow> (''/settings/backupaccount'', a)
           | (False, a) \<Rightarrow> (''/settings/panel'', a)))"

section \<open>The modules\<close>

definition advancedRouter :: page where
  "advancedRouter =
     Page (page_at ''/advanced''\<lparr>r_sort := Some (91 / 10), r_name := Some ''Advanced-Menu'',
        r_component := Some ''Layout'',
        r_redirect := Some (Redirect ''/advanced/website-monitor/dashboard''),
        r_meta := Some (no_meta\<lparr>m_icon := Some ''p-toolbox'', m_title := Some ''menu.advanced'',
        m_alwaysVisible := Some True\<rparr>)\<rparr>)
       (Some [
         Page (page_at ''/advanced/website-monitor''\<lparr>r_name := Some ''AdvancedWebsiteMonitor'',
            r_component := Some ''@/views/advanced/website-monitor/index.vue'',
            r_redirect := Some (Redirect ''/advanced/website-monitor/dashboard''),
            r_meta := Some (no_meta\<lparr>m_icon := Some ''p-system-monitor-menu'',
            m_title := Some ''menu.websiteMonitor'', m_alwaysVisible := Some True\<rparr>)\<rparr>)
           (Some [
             Page (page_at ''dashboard''\<lparr>r_name := Some ''AdvancedWebsiteMonitorDashboard'',
                r_component := Some ''@/views/advanced/website-monitor/dashboard/index.vue'',
                r_meta := Some (no_meta\<lparr>m_activeMenu := Some ''/advanced/website-monitor'',
                m_hideInSidebar := Some True\<rparr>)\<rparr>) None,
             Page (page_at ''rank''\<lparr>r_name := Some ''AdvancedWebsiteMonitorRank'',
                r_component := Some ''@/views/advanced/website-monitor/rank/index.vue'',
                r_meta := Some (no_meta\<lparr>m_activeMenu := Some ''/advanced/website-monitor'',
                m_hideInSidebar := Some True\<rparr>)\<rparr>) None,
             Page (page_at ''trend''\<lparr>r_name := Some ''AdvancedWebsiteMonitorTrend'',
                r_component := Some ''@/views/advanced/website-monitor/trend/index.vue'',
                r_meta := Some (no_meta\<lparr>m_activeMenu := Some ''/advanced/website-monitor'',
                m_hideInSidebar := Some True\<rparr>)\<rparr>) None,
             Page (page_at ''log''\<lparr>r_name := Some ''AdvancedWebsiteMonitorLog'',
                r_component := Some ''@/views/advanced/website-monitor/log/index.vue'',
                r_meta := Some (no_meta\<lparr>m_activeMenu := Some ''/advanced/website-monitor'',
                m_hideInSidebar := Some True\<rparr>)\<rparr>) None,
             Page (page_at ''websites''\<lparr>r_name := Some ''AdvancedWebsiteMonitorWebsites'',
                r_component := Some ''@/views/advanced/website-monitor/websites/index.vue'',
                r_meta := Some (no_meta\<lparr>m_activeMenu := Some ''/advanced/website-monitor'',
                m_hideInSidebar := Some True\<rparr>)\<rparr>) None,
             Page (page_at ''setting''\<lparr>r_name := Some ''AdvancedWebsiteMonitorSetting'',
                r_component := Some ''@/views/advanced/website-monitor/setting/index.vue'',
                r_meta := Some (no_meta\<lparr>m_activeMenu := Some ''/advanced/website-monitor'',
                m_hideInSidebar := Some True\<rparr>)\<rparr>) None]),
         Page (page_at ''/advanced/waf''\<lparr>r_name := Some ''AdvancedWaf'',
            r_component := Some ''@/views/advanced/waf/index.vue'',
            r_redirect := Some (Redirect ''/advanced/waf/overview''),
            r_meta := Some (no_meta\<lparr>m_icon := Some ''p-firewalld-menu'',
            m_title := Some ''menu.waf'', m_alwaysVisible := Some True\<rparr>)\<rparr>)
           (Some [
             Page (page_at ''overview''\<lparr>r_name := Some ''AdvancedWafOverview'',
                r_component := Some ''@/views/advanced/waf/overview/index.vue'',
                r_meta := Some (no_meta\<lparr>m_activeMenu := Some ''/advanced/waf'',
                m_hideInSidebar := Some True\<rparr>)\<rparr>) None,
             Page (page_at ''attack''\<lparr>r_name := Some ''AdvancedWafAttack'',
                r_component := Some ''@/views/advanced/waf/attack/index.vue'',
                r_meta := Some (no_meta\<lparr>m_activeMenu := Some ''/advanced/waf'',
                m_hideInSidebar := Some True\<rparr>)\<rparr>) None,
             Page (page_at ''intercept''\<lparr>r_name := Some ''AdvancedWafIntercept'',
                r_component := Some ''@/views/advanced/waf/intercept/index.vue'',
                r_meta := Some (no_meta\<lparr>m_activeMenu := Some ''/advanced/waf'',
                m_hideInSidebar := Some True\<rparr>)\<rparr>) None,
             Page (page_at ''block''\<lparr>r_name := Some ''AdvancedWafBlock'',
                r_component := Some ''@/views/advanced/waf/block/index.vue'',
                r_meta := Some (no_meta\<lparr>m_activeMenu := Some ''/advanced/waf'',
                m_hideInSidebar := Some True\<rparr>)\<rparr>) None,
             Page (page_at ''blackwhite''\<lparr>r_name := Some ''AdvancedWafBlackWhite'',
                r_component := Some ''@/views/advanced/waf/blackwhite/index.vue'',
                r_meta := Some (no_meta\<lparr>m_activeMenu := Some ''/advanced/waf'',
                m_hideInSidebar := Some True\<rparr>)\<rparr>) None,
             Page (page_at ''websites''\<lparr>r_name := Some ''AdvancedWafWebsites'',
                r_component := Some ''@/views/advanced/waf/websites/index.vue'',
                r_meta := Some (no_meta\<lparr>m_activeMenu := Some ''/advanced/waf'',
                m_hideInSidebar := Some True\<rparr>)\<rparr>) None,
             Page (page_at ''global''\<lparr>r_name := Some ''AdvancedWafGlobal'',
                r_component := Some ''@/views/advanced/waf/global/index.vue'',
                r_meta := Some (no_meta\<lparr>m_activeMenu := Some ''/advanced/waf'',
                m_hideInSidebar := Some True\<rparr>)\<rparr>) None]),
         Page (page_at ''/advanced/multi-node''\<lparr>r_name := Some ''AdvancedMultiNode'',
            r_component := Some ''@/views/advanced/multi-node/index.vue'',
            r_meta := Some (no_meta\<lparr>m_icon := Some ''p-host'', m_title := Some ''menu.multiNode'',
            m_alwaysVisible := Some True\<rparr>)\<rparr>) None])"

definition aiRouter :: page where
  "aiRouter =
     Page (page_at ''/ai''\<lparr>r_sort := Some 4, r_name := Some ''AI-Menu'',
        r_component := Some ''Layout'', r_redirect := Some (Redirect ''/ai/model/account''),
        r_meta := Some (no_meta\<lparr>m_icon := Some ''p-jiqiren2'',
        m_title := Some ''menu.aiTools''\<rparr>)\<rparr>)
       (Some [
         Page (page_at ''/ai/agents/agent''\<lparr>r_name := Some ''Agents'',
            r_component := Some ''@/views/ai/agents/agent/index.vue'',
            r_meta := Some (no_meta\<lparr>m_icon := Some ''p-jiqiren2'',
            m_title := Some ''aiTools.agents.agent'',
            m_permission := Some (Code ''ai_agent_view'')\<rparr>)\<rparr>) None,
         Page (page_at ''/ai/model/account''\<lparr>r_name := Some ''AIModel'',
            r_component := Some ''@/views/ai/model/index.vue'',
            r_meta := Some (no_meta\<lparr>m_icon := Some ''p-moxing-menu'',
            m_title := Some ''aiTools.model.model'',
            m_permission := Some (Code ''ai_model_view'')\<rparr>)\<rparr>) None,
         Page (page_at ''/ai/model/local''\<lparr>r_hidden := Some True, r_name := Some ''LocalModel'',
            r_component := Some ''@/views/ai/model/index.vue'',
            r_meta := Some (no_meta\<lparr>m_title := Some ''aiTools.model.localModel'',
            m_activeMenu := Some ''/ai/model/account'',
            m_permission := Some (Code ''ai_model_view'')\<rparr>)\<rparr>) None,
         Page (page_at ''/ai/mcp''\<lparr>r_name := Some ''MCPServer'',
            r_component := Some ''@/views/ai/mcp/server/index.vue'',
            r_meta := Some (no_meta\<lparr>m_icon := Some ''p-mcp-menu'', m_title := Some ''menu.mcp'',
            m_permission := Some (Code ''ai_mcp_view'')\<rparr>)\<rparr>) None,
         Page (page_at ''/ai/gpu/current''\<lparr>r_name := Some ''GPU'',
            r_component := Some ''@/views/ai/gpu/current/index.vue'',
            r_meta := Some (no_meta\<lparr>m_icon := Some ''p-gpu-menu'',
            m_title := Some ''aiTools.gpu.gpu'', m_activeMenu := Some ''/ai/gpu/current'',
            m_permission := Some (Code ''ai_gpu_view'')\<rparr>)\<rparr>) None,
         Page (page_at ''/ai/gpu/history''\<lparr>r_name := Some ''GPUHistory'',
            r_component := Some ''@/views/ai/gpu/history/index.vue'', r_hidden := Some True,
            r_meta := Some (no_meta\<lparr>m_title := Some ''aiTools.gpu.history'',
            m_activeMenu := Some ''/ai/gpu/current'',
            m_permission := Some (Code ''ai_gpu_view'')\<rparr>)\<rparr>) None])"

definition appStoreRouter :: page where
  "appStoreRouter =
     Page (page_at ''/apps''\<lparr>r_sort := Some 2, r_name := Some ''App-Menu'',
        r_component := Some ''Layout'', r_redirect := Some (Redirect ''/apps/all''),
        r_meta := Some (no_meta\<lparr>m_icon := Some ''p-appstore'', m_title := Some ''menu.apps'',
        m_permission := Some (Code ''app_view'')\<rparr>)\<rparr>)
       (Some [
         Page (page_at ''/apps''\<lparr>r_name := Some ''App'', r_redirect := Some (Redirect ''/apps/all''),
            r_component := Some ''@/views/app-store/index.vue'',
            r_meta := Some (no_meta\<lparr>m_permission := Some (Code ''app_view'')\<rparr>)\<rparr>)
           (Some [
             Page (page_at ''all''\<lparr>r_name := Some ''AppAll'',
                r_component := Some ''@/views/app-store/apps/index.vue'', r_props := Some True,
                r_hidden := Some True, r_meta := Some (no_meta\<lparr>m_activeMenu := Some ''/apps'',
                m_parent := Some ''menu.app'', m_title := Some ''app.all'',
                m_permission := Some (Code ''app_view'')\<rparr>)\<rparr>) None,
             Page (page_at ''installed''\<lparr>r_name := Some ''AppInstalled'',
                r_component := Some ''@/views/app-store/installed/index.vue'', r_props := Some True,
                r_hidden := Some True, r_meta := Some (no_meta\<lparr>m_activeMenu := Some ''/apps'',
                m_parent := Some ''menu.app'', m_title := Some ''app.installed'',
                m_permission := Some (Code ''app_view'')\<rparr>)\<rparr>) None,
             Page (page_at ''upgrade''\<lparr>r_name := Some ''AppUpgrade'',
                r_component := Some ''@/views/app-store/installed/index.vue'', r_props := Some True,
                r_hidden := Some True, r_meta := Some (no_meta\<lparr>m_activeMenu := Some ''/apps'',
                m_parent := Some ''menu.app'', m_title := Some ''app.canUpgrade'',
                m_permission := Some (Code ''app_view'')\<rparr>)\<rparr>) None,
             Page (page_at ''setting''\<lparr>r_name := Some ''AppStoreSetting'',
                r_component := Some ''@/views/app-store/setting/index.vue'', r_props := Some True,
                r_hidden := Some True, r_meta := Some (no_meta\<lparr>m_activeMenu := Some ''/apps'',
                m_parent := Some ''menu.app'', m_title := Some ''commons.button.set'',
                m_permission := Some (Code ''app_view'')\<rparr>)\<rparr>) None])])"

definition containerRouter :: page where
  "containerRouter =
     Page (page_at ''/containers''\<lparr>r_sort := Some 6, r_name := Some ''Container-Menu'',
        r_component := Some ''Layout'', r_redirect := Some (Redirect ''/containers/container''),
        r_meta := Some (no_meta\<lparr>m_icon := Some ''p-docker1'', m_title := Some ''menu.container'',
        m_permission := Some (Code ''container_view'')\<rparr>)\<rparr>)
       (Some [
         Page (page_at ''/containers''\<lparr>r_name := Some ''Container'',
            r_redirect := Some (Redirect ''/containers/dashboard''),
            r_component := Some ''@/views/container/index.vue'', r_meta := Some (no_meta)\<rparr>)
           (Some [
             Page (page_at ''dashboard''\<lparr>r_name := Some ''ContainerDashboard'',
                r_component := Some ''@/views/container/dashboard/index.vue'', r_props := Some True,
                r_hidden := Some True, r_meta := Some (no_meta\<lparr>m_activeMenu := Some ''/containers'',
                m_parent := Some ''menu.container'', m_title := Some ''menu.home'',
                m_permission := Some (Code ''container_view'')\<rparr>)\<rparr>) None,
             Page (page_at ''container''\<lparr>r_name := Some ''ContainerItem'',
                r_component := Some ''@/views/container/container/index.vue'', r_props := Some True,
                r_hidden := Some True, r_meta := Some (no_meta\<lparr>m_activeMenu := Some ''/containers'',
                m_parent := Some ''menu.container'', m_title := Some ''menu.container'',
                m_permission := Some (Code ''container_view'')\<rparr>)\<rparr>) None,
             Page (page_at ''container/operate''\<lparr>r_name := Some ''ContainerCreate'',
                r_component := Some ''@/views/container/container/operate/index.vue'', r_props := Some True,
                r_hidden := Some True, r_meta := Some (no_meta\<lparr>m_activeMenu := Some ''/containers'',
                m_ignoreTab := Some True, m_permission := Some (Code ''container_view'')\<rparr>)\<rparr>) None,
             Page (page_at ''image''\<lparr>r_name := Some ''Image'',
                r_component := Some ''@/views/container/image/index.vue'', r_hidden := Some True,
                r_meta := Some (no_meta\<lparr>m_activeMenu := Some ''/containers'',
                m_parent := Some ''menu.container'', m_title := Some ''container.image'',
                m_permission := Some (Code ''container_view'')\<rparr>)\<rparr>) None,
             Page (page_at ''network''\<lparr>r_name := Some ''Network'',
                r_component := Some ''@/views/container/network/index.vue'', r_hidden := Some True,
                r_meta := Some (no_meta\<lparr>m_activeMenu := Some ''/containers'',
                m_parent := Some ''menu.container'', m_title := Some ''container.network'',
                m_permission := Some (Code ''container_view'')\<rparr>)\<rparr>) None,
             Page (page_at ''volume''\<lparr>r_name := Some ''Volume'',
                r_component := Some ''@/views/container/volume/index.vue'', r_hidden := Some True,
                r_meta := Some (no_meta\<lparr>m_activeMenu := Some ''/containers'',
                m_parent := Some ''menu.container'', m_title := Some ''container.volume'',
                m_permission := Some (Code ''container_view'')\<rparr>)\<rparr>) None,
             Page (page_at ''repo''\<lparr>r_name := Some ''Repo'',
                r_component := Some ''@/views/container/repo/index.vue'', r_hidden := Some True,
                r_meta := Some (no_meta\<lparr>m_activeMenu := Some ''/containers'',
                m_parent := Some ''menu.container'', m_title := Some ''container.repo'',
                m_permission := Some (Code ''container_view'')\<rparr>)\<rparr>) None,
             Page (page_at ''compose''\<lparr>r_name := Some ''Compose'',
                r_component := Some ''@/views/container/compose/index.vue'', r_hidden := Some True,
                r_meta := Some (no_meta\<lparr>m_activeMenu := Some ''/containers'',
                m_parent := Some ''menu.container'', m_title := Some ''container.compose'',
                m_permission := Some (Code ''container_view'')\<rparr>)\<rparr>) None,
             Page (page_at ''template''\<lparr>r_name := Some ''ComposeTemplate'',
                r_component := Some ''@/views/container/template/index.vue'', r_hidden := Some True,
                r_meta := Some (no_meta\<lparr>m_activeMenu := Some ''/containers'',
                m_parent := Some ''menu.container'', m_title := Some ''container.composeTemplate'',
                m_permission := Some (Code ''container_view'')\<rparr>)\<rparr>) None,
             Page (page_at ''setting''\<lparr>r_name := Some ''ContainerSetting'',
                r_component := Some ''@/views/container/setting/index.vue'', r_hidden := Some True,
                r_meta := Some (no_meta\<lparr>m_activeMenu := Some ''/containers'',
                m_parent := Some ''menu.container'', m_title := Some ''container.setting'',
                m_permission := Some (Code ''container_view'')\<rparr>)\<rparr>) None])])"

definition cronRouter :: page where
  "cronRouter =
     Page (page_at ''/cronjobs''\<lparr>r_sort := Some 9, r_name := Some ''Cronjob-Menu'',
        r_component := Some ''Layout'', r_redirect := Some (Redirect ''/cronjobs/cronjob''),
        r_meta := Some (no_meta\<lparr>m_icon := Some ''p-plan'', m_title := Some ''menu.cronjob'',
        m_permission := Some (Code ''cronjob_view'')\<rparr>)\<rparr>)
       (Some [
         Page (page_at ''/cronjobs''\<lparr>r_name := Some ''Cronjob'',
            r_redirect := Some (Redirect ''/cronjobs/cronjob''),
            r_component := Some ''@/views/cronjob/index.vue'', r_meta := Some (no_meta)\<rparr>)
           (Some [
             Page (page_at ''cronjob''\<lparr>r_name := Some ''CronjobItem'',
                r_component := Some ''@/views/cronjob/cronjob/index.vue'', r_hidden := Some True,
                r_meta := Some (no_meta\<lparr>m_activeMenu := Some ''/cronjobs'',
                m_title := Some ''menu.cronjob'',
                m_permission := Some (Code ''cronjob_view'')\<rparr>)\<rparr>) None,
             Page (page_at ''cronjob/operate''\<lparr>r_name := Some ''CronjobOperate'',
                r_component := Some ''@/views/cronjob/cronjob/operate/index.vue'', r_hidden := Some True,
                r_meta := Some (no_meta\<lparr>m_activeMenu := Some ''/cronjobs'', m_ignoreTab := Some True,
                m_permission := Some (Code ''cronjob_view'')\<rparr>)\<rparr>) None,
             Page (page_at ''library''\<lparr>r_name := Some ''Library'',
                r_component := Some ''@/views/cronjob/library/index.vue'', r_hidden := Some True,
                r_meta := Some (no_meta\<lparr>m_activeMenu := Some ''/cronjobs'',
                m_title := Some ''cronjob.library.library'',
                m_permission := Some (Code ''cronjob_view'')\<rparr>)\<rparr>) None])])"

definition databaseRouter :: page where
  "databaseRouter =
     Page (page_at ''/databases''\<lparr>r_sort := Some 5, r_name := Some ''Database-Menu'',
        r_component := Some ''Layout'', r_redirect := Some (Redirect ''/databases/mysql''),
        r_meta := Some (no_meta\<lparr>m_icon := Some ''p-database'', m_title := Some ''menu.database'',
        m_permission := Some (Code ''database_view'')\<rparr>)\<rparr>)
       (Some [
         Page (page_at ''/databases''\<lparr>r_name := Some ''Database'',
            r_redirect := Some (Redirect ''/databases/mysql''),
            r_component := Some ''@/views/database/index.vue'', r_meta := Some (no_meta)\<rparr>)
           (Some [
             Page (page_at ''mysql''\<lparr>r_name := Some ''MySQL'',
                r_component := Some ''@/views/database/mysql/index.vue'', r_hidden := Some True,
                r_meta := Some (no_meta\<lparr>m_activeMenu := Some ''/databases'',
                m_parent := Some ''menu.database'', m_title := Some ''MySQL'',
                m_permission := Some (Code ''database_view'')\<rparr>)\<rparr>) None,
             Page (page_at ''mysql/setting/:type/:database''\<lparr>r_name := Some ''MySQL-Setting'',
                r_component := Some ''@/views/database/mysql/setting/index.vue'', r_props := Some True,
                r_hidden := Some True, r_meta := Some (no_meta\<lparr>m_activeMenu := Some ''/databases'',
                m_ignoreTab := Some True, m_permission := Some (Code ''database_view'')\<rparr>)\<rparr>) None,
             Page (page_at ''mysql/remote''\<lparr>r_name := Some ''MySQL-Remote'',
                r_component := Some ''@/views/database/mysql/remote/index.vue'', r_hidden := Some True,
                r_meta := Some (no_meta\<lparr>m_activeMenu := Some ''/databases'',
                m_parent := Some ''menu.database'', m_title := Some ''MySQL'',
                m_detail := Some ''database.remote'',
                m_permission := Some (Code ''database_view'')\<rparr>)\<rparr>) None,
             Page (page_at ''postgresql''\<lparr>r_name := Some ''PostgreSQL'',
                r_component := Some ''@/views/database/postgresql/index.vue'', r_hidden := Some True,
                r_meta := Some (no_meta\<lparr>m_activeMenu := Some ''/databases'',
                m_parent := Some ''menu.database'', m_title := Some ''PostgreSQL'',
                m_permission := Some (Code ''database_view'')\<rparr>)\<rparr>) None,
             Page (page_at ''postgresql/remote''\<lparr>r_name := Some ''PostgreSQL-Remote'',
                r_component := Some ''@/views/database/postgresql/remote/index.vue'', r_hidden := Some True,
                r_meta := Some (no_meta\<lparr>m_activeMenu := Some ''/databases'',
                m_parent := Some ''menu.database'', m_title := Some ''PostgreSQL'',
                m_detail := Some ''database.remote'',
                m_permission := Some (Code ''database_view'')\<rparr>)\<rparr>) None,
             Page (page_at ''postgresql/setting/:type/:database''\<lparr>r_name := Some ''PostgreSQL-Setting'',
                r_component := Some ''@/views/database/postgresql/setting/index.vue'', r_props := Some True,
                r_hidden := Some True, r_meta := Some (no_meta\<lparr>m_activeMenu := Some ''/databases'',
                m_ignoreTab := Some True, m_permission := Some (Code ''database_view'')\<rparr>)\<rparr>) None,
             Page (page_at ''redis''\<lparr>r_name := Some ''Redis'',
                r_component := Some ''@/views/database/redis/index.vue'', r_hidden := Some True,
                r_meta := Some (no_meta\<lparr>m_activeMenu := Some ''/databases'',
                m_parent := Some ''menu.database'', m_title := Some ''Redis'',
                m_permission := Some (Code ''database_view'')\<rparr>)\<rparr>) None,
             Page (page_at ''redis/remote''\<lparr>r_name := Some ''Redis-Remote'',
                r_component := Some ''@/views/database/redis/remote/index.vue'', r_hidden := Some True,
                r_meta := Some (no_meta\<lparr>m_activeMenu := Some ''/databases'',
                m_parent := Some ''menu.database'', m_title := Some ''Redis'',
                m_detail := Some ''database.remote'',
                m_permission := Some (Code ''database_view'')\<rparr>)\<rparr>) None,
             Page (page_at ''mongodb''\<lparr>r_name := Some ''MongoDB'',
                r_component := Some ''@/views/database/mongodb/index.vue'', r_hidden := Some True,
                r_meta := Some (no_meta\<lparr>m_activeMenu := Some ''/databases'',
                m_requiresAuth := Some False, m_parent := Some ''menu.database'',
                m_title := Some ''MongoDB'', m_permission := Some (Code ''database_view'')\<rparr>)\<rparr>) None,
             Page (page_at ''mongodb/remote''\<lparr>r_name := Some ''MongoDB-Remote'',
                r_component := Some ''@/views/database/mongodb/remote/index.vue'', r_hidden := Some True,
                r_meta := Some (no_meta\<lparr>m_activeMenu := Some ''/databases'',
                m_requiresAuth := Some False, m_parent := Some ''menu.database'',
                m_title := Some ''MongoDB'', m_detail := Some ''database.remote'',
                m_permission := Some (Code ''database_view'')\<rparr>)\<rparr>) None])])"

definition errorRouter :: page where
  "errorRouter =
     Page (page_at ''/error''\<lparr>r_component := Some ''Layout''\<rparr>)
       (Some [
         Page (page_at ''404''\<lparr>r_name := Some ''404'', r_hidden := Some True,
            r_component := Some ''@/components/error-message/404.vue'',
            r_meta := Some (no_meta\<lparr>m_title := Some ''commons.msg.notFound'',
            m_key := Some ''404''\<rparr>)\<rparr>) None])"

definition hostRouter_children :: "page list" where
  "hostRouter_children = [
     Page (page_at ''/hosts/files''\<lparr>r_name := Some ''File'', r_props := Some True,
        r_component := Some ''@/views/host/file-management/index.vue'',
        r_meta := Some (no_meta\<lparr>m_icon := Some ''p-file-menu'', m_title := Some ''menu.files'',
        m_permission := Some (Code ''host_file_view'')\<rparr>)\<rparr>) None,
     Page (page_at ''/hosts/monitor/monitor''\<lparr>r_name := Some ''Monitorx'',
        r_component := Some ''@/views/host/monitor/monitor/index.vue'',
        r_meta := Some (no_meta\<lparr>m_icon := Some ''p-system-monitor-menu'',
        m_title := Some ''menu.monitor'',
        m_permission := Some (Code ''host_monitor_view'')\<rparr>)\<rparr>) None,
     Page (page_at ''/hosts/monitor/setting''\<lparr>r_name := Some ''HostMonitorSetting'',
        r_component := Some ''@/views/host/monitor/setting/index.vue'', r_hidden := Some True,
        r_meta := Some (no_meta\<lparr>m_activeMenu := Some ''/hosts/monitor/monitor'',
        m_title := Some ''menu.monitor'', m_detail := Some ''commons.button.set'',
        m_permission := Some (Code ''host_monitor_view'')\<rparr>)\<rparr>) None,
     Page (page_at ''/hosts/firewall/rules''\<lparr>r_name := Some ''FirewallPort'',
        r_component := Some ''@/views/host/firewall/rule/index.vue'',
        r_meta := Some (no_meta\<lparr>m_icon := Some ''p-firewalld-menu'',
        m_activeMenu := Some ''/hosts/firewall/rules'', m_title := Some ''menu.firewall'',
        m_permission := Some (Code ''host_firewall_view'')\<rparr>)\<rparr>) None,
     Page (page_at ''/hosts/firewall/docker''\<lparr>r_name := Some ''FirewallDockerGuard'',
        r_component := Some ''@/views/host/firewall/docker/index.vue'', r_hidden := Some True,
        r_meta := Some (no_meta\<lparr>m_activeMenu := Some ''/hosts/firewall/rules'',
        m_parent := Some ''menu.firewall'', m_title := Some ''firewall.dockerGuard'',
        m_permission := Some (Code ''host_firewall_view'')\<rparr>)\<rparr>) None,
     Page (page_at ''/hosts/firewall/forward''\<lparr>r_name := Some ''FirewallForward'',
        r_component := Some ''@/views/host/firewall/forward/index.vue'', r_hidden := Some True,
        r_meta := Some (no_meta\<lparr>m_activeMenu := Some ''/hosts/firewall/rules'',
        m_parent := Some ''menu.firewall'', m_title := Some ''firewall.forwardRule'',
        m_permission := Some (Code ''host_firewall_view'')\<rparr>)\<rparr>) None,
     Page (page_at ''/hosts/firewall/setting''\<lparr>r_name := Some ''FirewallSetting'',
        r_component := Some ''@/views/host/firewall/setting/index.vue'', r_hidden := Some True,
        r_meta := Some (no_meta\<lparr>m_activeMenu := Some ''/hosts/firewall/rules'',
        m_parent := Some ''menu.firewall'', m_title := Some ''commons.button.set'',
        m_permission := Some (Code ''host_firewall_view'')\<rparr>)\<rparr>) None,
     Page (page_at ''/hosts/disk''\<lparr>r_name := Some ''Disk'', r_props := Some True,
        r_component := Some ''@/views/host/disk-management/disk/index.vue'',
        r_meta := Some (no_meta\<lparr>m_icon := Some ''p-disk-menu'', m_title := Some ''menu.disk'',
        m_permission := Some (Code ''host_disk_view'')\<rparr>)\<rparr>) None,
     Page (page_at ''/hosts/process/process''\<lparr>r_name := Some ''Process'',
        r_component := Some ''@/views/host/process/process/index.vue'',
        r_meta := Some (no_meta\<lparr>m_icon := Some ''p-process-menu'',
        m_title := Some ''menu.processManage'', m_detail := Some ''menu.process'',
        m_activeMenu := Some ''/hosts/process/process'', m_keepAlive := Some True,
        m_permission := Some (Code ''host_process_view'')\<rparr>)\<rparr>) None,
     Page (page_at ''/hosts/process/network''\<lparr>r_name := Some ''ProcessNetwork'',
        r_hidden := Some True, r_component := Some ''@/views/host/process/network/index.vue'',
        r_meta := Some (no_meta\<lparr>m_parent := Some ''menu.processManage'',
        m_title := Some ''menu.network'', m_activeMenu := Some ''/hosts/process/process'',
        m_permission := Some (Code ''host_process_view'')\<rparr>)\<rparr>) None,
     Page (page_at ''/hosts/ssh/ssh''\<lparr>r_name := Some ''SSH'',
        r_component := Some ''@/views/host/ssh/ssh/index.vue'',
        r_meta := Some (no_meta\<lparr>m_icon := Some ''p-ssh-menu'', m_title := Some ''menu.ssh'',
        m_detail := Some ''menu.config'', m_activeMenu := Some ''/hosts/ssh/ssh'', m_keepAlive := Some True,
        m_permission := Some (Code ''host_ssh_view'')\<rparr>)\<rparr>) None,
     Page (page_at ''/hosts/ssh/log''\<lparr>r_name := Some ''SSHLog'',
        r_component := Some ''@/views/host/ssh/log/index.vue'', r_hidden := Some True,
        r_meta := Some (no_meta\<lparr>m_parent := Some ''menu.ssh'', m_title := Some ''ssh.loginLogs'',
        m_activeMenu := Some ''/hosts/ssh/ssh'',
        m_permission := Some (Code ''host_ssh_view'')\<rparr>)\<rparr>) None,
     Page (page_at ''/hosts/ssh/session''\<lparr>r_name := Some ''SSHSession'',
        r_component := Some ''@/views/host/ssh/session/index.vue'', r_hidden := Some True,
        r_meta := Some (no_meta\<lparr>m_parent := Some ''menu.ssh'', m_title := Some ''ssh.session'',
        m_activeMenu := Some ''/hosts/ssh/ssh'',
        m_permission := Some (Code ''host_ssh_view'')\<rparr>)\<rparr>) None]"

definition hostRouter :: page where
  "hostRouter =
     Page (page_at ''/hosts''\<lparr>r_sort := Some 7, r_name := Some ''System-Menu'',
        r_component := Some ''Layout'', r_redirect := Some (Redirect ''/hosts/security''),
        r_meta := Some (no_meta\<lparr>m_icon := Some ''p-host'',
        m_title := Some ''menu.system''\<rparr>)\<rparr>)
       (Some hostRouter_children)"

definition logsRouter :: page where
  "logsRouter =
     Page (page_at ''/logs''\<lparr>r_sort := Some 11, r_name := Some ''Log-Menu'',
        r_component := Some ''Layout'', r_redirect := Some (Redirect ''/logs/operation''),
        r_meta := Some (no_meta\<lparr>m_title := Some ''menu.logs'', m_icon := Some ''p-log'',
        m_permission := Some (Code ''log_view'')\<rparr>)\<rparr>)
       (Some [
         Page (page_at ''/logs''\<lparr>r_name := Some ''Log'',
            r_redirect := Some (Redirect ''/logs/operation''),
            r_component := Some ''@/views/log/index.vue'', r_meta := Some (no_meta)\<rparr>)
           (Some [
             Page (page_at ''operation''\<lparr>r_name := Some ''OperationLog'',
                r_component := Some ''@/views/log/operation/index.vue'', r_hidden := Some True,
                r_meta := Some (no_meta\<lparr>m_parent := Some ''menu.logs'',
                m_title := Some ''logs.operation'', m_activeMenu := Some ''/logs'',
                m_permission := Some (Code ''log_view'')\<rparr>)\<rparr>) None,
             Page (page_at ''login''\<lparr>r_name := Some ''LoginLog'',
                r_component := Some ''@/views/log/login/index.vue'', r_hidden := Some True,
                r_meta := Some (no_meta\<lparr>m_parent := Some ''menu.logs'',
                m_title := Some ''logs.login'', m_activeMenu := Some ''/logs'',
                m_permission := Some (Code ''log_view'')\<rparr>)\<rparr>) None,
             Page (page_at ''website''\<lparr>r_name := Some ''WebsiteLog'',
                r_component := Some ''@/views/log/website/index.vue'', r_hidden := Some True,
                r_meta := Some (no_meta\<lparr>m_parent := Some ''menu.logs'',
                m_title := Some ''logs.websiteLog'', m_activeMenu := Some ''/logs'',
                m_permission := Some (Code ''log_view'')\<rparr>)\<rparr>) None,
             Page (page_at ''system''\<lparr>r_name := Some ''SystemLog'',
                r_component := Some ''@/views/log/system/index.vue'', r_hidden := Some True,
                r_meta := Some (no_meta\<lparr>m_parent := Some ''menu.logs'',
                m_title := Some ''logs.system'', m_activeMenu := Some ''/logs'',
                m_permission := Some (Code ''log_view'')\<rparr>)\<rparr>) None,
             Page (page_at ''host''\<lparr>r_name := Some ''HostSystemLog'',
                r_component := Some ''@/views/log/host-system/index.vue'', r_hidden := Some True,
                r_meta := Some (no_meta\<lparr>m_parent := Some ''menu.logs'',
                m_title := Some ''logs.hostSystem'', m_activeMenu := Some ''/logs'',
                m_permission := Some (Code ''log_view'')\<rparr>)\<rparr>) None,
             Page (page_at ''ssh''\<lparr>r_name := Some ''SSHLog2'',
                r_component := Some ''@/views/host/ssh/log/log.vue'', r_hidden := Some True,
                r_meta := Some (no_meta\<lparr>m_parent := Some ''menu.logs'',
                m_title := Some ''ssh.loginLogs'', m_activeMenu := Some ''/logs'',
                m_permission := Some (Code ''log_view'')\<rparr>)\<rparr>) None,
             Page (page_at ''task''\<lparr>r_name := Some ''Task'',
                r_component := Some ''@/views/log/task/index.vue'', r_hidden := Some True,
                r_meta := Some (no_meta\<lparr>m_parent := Some ''menu.logs'',
                m_title := Some ''logs.task'', m_activeMenu := Some ''/logs'',
                m_permission := Some (Code ''log_view'')\<rparr>)\<rparr>) None])])"

definition settingRouter :: page where
  "settingRouter =
     Page (page_at ''/settings''\<lparr>r_sort := Some 12, r_name := Some ''Setting-Menu'',
        r_component := Some ''Layout'', r_redirect := Some AvailableSetting,
        r_meta := Some (no_meta\<lparr>m_title := Some ''menu.settings'', m_icon := Some ''p-config'',
        m_permission := Some settingPermissions\<rparr>)\<rparr>)
       (Some [
         Page (page_at ''/settings''\<lparr>r_name := Some ''Setting'', r_redirect := Some AvailableSetting,
            r_component := Some ''@/views/setting/index.vue'',
            r_meta := Some (no_meta\<lparr>m_permission := Some settingPermissions\<rparr>)\<rparr>)
           (Some [
             Page (page_at ''panel''\<lparr>r_name := Some ''Panel'',
                r_component := Some ''@/views/setting/panel/index.vue'', r_hidden := Some True,
                r_meta := Some (no_meta\<lparr>m_parent := Some ''menu.settings'',
                m_title := Some ''setting.panel'', m_activeMenu := Some ''/settings'',
                m_adminOnly := Some True\<rparr>)\<rparr>) None,
             Page (page_at ''bind''\<lparr>r_name := Some ''GatewayBind'',
                r_component := Some ''@/views/setting/bind/index.vue'', r_hidden := Some True,
                r_meta := Some (no_meta\<lparr>m_parent := Some ''menu.settings'',
                m_title := Some ''serverPages.gateway.bindRoute'', m_ignoreTab := Some True,
                m_adminOnly := Some True\<rparr>)\<rparr>) None,
             Page (page_at ''alert''\<lparr>r_name := Some ''Alert'',
                r_component := Some ''@/views/setting/alert/index.vue'', r_hidden := Some True,
                r_meta := Some (no_meta\<lparr>m_parent := Some ''menu.settings'',
                m_title := Some ''xpack.alert.alertNotice'', m_activeMenu := Some ''/settings'',
                m_permission := Some (Code ''alert_view'')\<rparr>)\<rparr>) None,
             Page (page_at ''backupaccount''\<lparr>r_name := Some ''BackupAccount'',
                r_component := Some ''@/views/setting/backup-account/index.vue'', r_hidden := Some True,
                r_meta := Some (no_meta\<lparr>m_parent := Some ''menu.settings'',
                m_title := Some ''setting.backupAccount'', m_activeMenu := Some ''/settings'',
                m_permission := Some (Code ''backup_view'')\<rparr>)\<rparr>) None,
             Page (page_at ''about''\<lparr>r_name := Some ''About'',
                r_component := Some ''@/views/setting/about/index.vue'', r_hidden := Some True,
                r_meta := Some (no_meta\<lparr>m_parent := Some ''menu.settings'',
                m_title := Some ''setting.about'', m_activeMenu := Some ''/settings'',
                m_adminOnly := Some True\<rparr>)\<rparr>) None,
             Page (page_at ''safe''\<lparr>r_name := Some ''Safe'',
                r_component := Some ''@/views/setting/safe/index.vue'', r_hidden := Some True,
                r_meta := Some (no_meta\<lparr>m_parent := Some ''menu.settings'',
                m_title := Some ''setting.safe'', m_activeMenu := Some ''/settings'',
                m_adminOnly := Some True\<rparr>)\<rparr>) None,
             Page (page_at ''snapshot''\<lparr>r_name := Some ''Snapshot'', r_hidden := Some True,
                r_component := Some ''@/views/setting/snapshot/index.vue'',
                r_meta := Some (no_meta\<lparr>m_parent := Some ''menu.settings'',
                m_title := Some ''setting.snapshot'', m_activeMenu := Some ''/settings'',
                m_adminOnly := Some True\<rparr>)\<rparr>) None,
             Page (page_at ''expired''\<lparr>r_name := Some ''Expired'', r_hidden := Some True,
                r_component := Some ''@/views/setting/expired.vue'',
                r_meta := Some (no_meta\<lparr>m_activeMenu := Some ''/settings'',
                m_ignoreTab := Some True\<rparr>)\<rparr>) None])])"

definition terminalRouter :: page where
  "terminalRouter =
     Page (page_at ''/terminal''\<lparr>r_sort := Some 8, r_name := Some ''Terminal-Menu'',
        r_component := Some ''Layout'', r_redirect := Some (Redirect ''/terminal''),
        r_meta := Some (no_meta\<lparr>m_title := Some ''menu.terminal'', m_icon := Some ''p-terminal2'',
        m_protectedRoleOnly := Some True\<rparr>)\<rparr>)
       (Some [
         Page (page_at ''/terminal''\<lparr>r_name := Some ''Terminal'', r_props := Some True,
            r_component := Some ''@/views/terminal/index.vue'',
            r_meta := Some (no_meta\<lparr>m_keepAlive := Some True,
            m_protectedRoleOnly := Some True\<rparr>)\<rparr>) None])"

definition toolboxRouter :: page where
  "toolboxRouter =
     Page (page_at ''/toolbox''\<lparr>r_sort := Some 9, r_name := Some ''Toolbox-Menu'',
        r_component := Some ''Layout'', r_redirect := Some (Redirect ''/toolbox/supervisor''),
        r_meta := Some (no_meta\<lparr>m_title := Some ''menu.toolbox'', m_icon := Some ''p-toolbox'',
        m_permission := Some (Code ''toolbox_view'')\<rparr>)\<rparr>)
       (Some [
         Page (page_at ''/toolbox''\<lparr>r_name := Some ''Toolbox'',
            r_redirect := Some (Redirect ''/toolbox/device''),
            r_component := Some ''@/views/toolbox/index.vue'', r_meta := Some (no_meta)\<rparr>)
           (Some [
             Page (page_at ''device''\<lparr>r_name := Some ''Device'',
                r_component := Some ''@/views/toolbox/device/index.vue'', r_hidden := Some True,
                r_meta := Some (no_meta\<lparr>m_parent := Some ''menu.toolbox'',
                m_title := Some ''toolbox.device.toolbox'', m_activeMenu := Some ''/toolbox'',
                m_permission := Some (Code ''toolbox_view'')\<rparr>)\<rparr>) None,
             Page (page_at ''supervisor''\<lparr>r_name := Some ''Supervisor'',
                r_component := Some ''@/views/toolbox/supervisor/index.vue'', r_hidden := Some True,
                r_meta := Some (no_meta\<lparr>m_parent := Some ''menu.toolbox'',
                m_title := Some ''menu.supervisor'', m_activeMenu := Some ''/toolbox'',
                m_permission := Some (Code ''toolbox_view'')\<rparr>)\<rparr>) None,
             Page (page_at ''clam''\<lparr>r_name := Some ''Clam'',
                r_component := Some ''@/views/toolbox/clam/index.vue'', r_hidden := Some True,
                r_meta := Some (no_meta\<lparr>m_parent := Some ''menu.toolbox'',
                m_title := Some ''toolbox.clam.clam'', m_activeMenu := Some ''/toolbox'',
                m_permission := Some (Code ''toolbox_view'')\<rparr>)\<rparr>) None,
             Page (page_at ''clam/setting''\<lparr>r_name := Some ''Clam-Setting'',
                r_component := Some ''@/views/toolbox/clam/setting/index.vue'', r_hidden := Some True,
                r_meta := Some (no_meta\<lparr>m_ignoreTab := Some True, m_activeMenu := Some ''/toolbox'',
                m_permission := Some (Code ''toolbox_view'')\<rparr>)\<rparr>) None,
             Page (page_at ''ftp''\<lparr>r_name := Some ''FTP'',
                r_component := Some ''@/views/toolbox/ftp/index.vue'', r_hidden := Some True,
                r_meta := Some (no_meta\<lparr>m_parent := Some ''menu.toolbox'', m_title := Some ''FTP'',
                m_activeMenu := Some ''/toolbox'',
                m_permission := Some (Code ''toolbox_view'')\<rparr>)\<rparr>) None,
             Page (page_at ''fail2ban''\<lparr>r_name := Some ''Fail2ban'',
                r_component := Some ''@/views/toolbox/fail2ban/index.vue'', r_hidden := Some True,
                r_meta := Some (no_meta\<lparr>m_parent := Some ''menu.toolbox'',
                m_title := Some ''Fail2Ban'', m_activeMenu := Some ''/toolbox'',
                m_permission := Some (Code ''toolbox_view'')\<rparr>)\<rparr>) None,
             Page (page_at ''clean''\<lparr>r_name := Some ''Clean'',
                r_component := Some ''@/views/toolbox/clean/index.vue'', r_hidden := Some True,
                r_meta := Some (no_meta\<lparr>m_parent := Some ''menu.toolbox'',
                m_title := Some ''setting.diskClean'', m_activeMenu := Some ''/toolbox'',
                m_permission := Some (Code ''toolbox_view'')\<rparr>)\<rparr>) None])])"

definition webSiteRouter :: page where
  "webSiteRouter =
     Page (page_at ''/websites''\<lparr>r_sort := Some 3, r_name := Some ''Website-Menu'',
        r_component := Some ''Layout'', r_redirect := Some (Redirect ''/websites''),
        r_meta := Some (no_meta\<lparr>m_icon := Some ''p-website'',
        m_title := Some ''menu.website''\<rparr>)\<rparr>)
       (Some [
         Page (page_at ''/websites''\<lparr>r_name := Some ''Website'',
            r_component := Some ''@/views/website/website/index.vue'',
            r_meta := Some (no_meta\<lparr>m_icon := Some ''p-website'', m_title := Some ''menu.website'',
            m_permission := Some (Code ''website_view'')\<rparr>)\<rparr>) None,
         Page (page_at ''/websites/:id/config/:tab''\<lparr>r_name := Some ''WebsiteConfig'',
            r_component := Some ''@/views/website/website/config/index.vue'', r_hidden := Some True,
            r_props := Some True, r_meta := Some (no_meta\<lparr>m_activeMenu := Some ''/websites'',
            m_ignoreTab := Some True, m_permission := Some (Code ''website_view'')\<rparr>)\<rparr>) None,
         Page (page_at ''/websites/ssl''\<lparr>r_name := Some ''SSL'',
            r_component := Some ''@/views/website/ssl/index.vue'',
            r_meta := Some (no_meta\<lparr>m_icon := Some ''p-ssl-menu'', m_title := Some ''menu.ssl'',
            m_permission := Some (Code ''website_cert_view'')\<rparr>)\<rparr>) None,
         Page (page_at ''/websites/templates''\<lparr>r_name := Some ''WebsiteTemplate'',
            r_component := Some ''@/views/website/template/index.vue'',
            r_meta := Some (no_meta\<lparr>m_icon := Some ''p-file-html'',
            m_title := Some ''menu.template'',
            m_permission := Some (Code ''website_view'')\<rparr>)\<rparr>) None,
         Page (page_at ''/websites/runtimes/php''\<lparr>r_name := Some ''PHP'',
            r_component := Some ''@/views/website/runtime/php/index.vue'',
            r_meta := Some (no_meta\<lparr>m_icon := Some ''p-run-menu'', m_title := Some ''menu.runtime'',
            m_detail := Some ''PHP'', m_activeMenu := Some ''/websites/runtimes/php'',
            m_permission := Some (Code ''website_runtime_view'')\<rparr>)\<rparr>) None,
         Page (page_at ''/websites/runtimes/node''\<lparr>r_name := Some ''node'', r_hidden := Some True,
            r_component := Some ''@/views/website/runtime/node/index.vue'',
            r_meta := Some (no_meta\<lparr>m_title := Some ''menu.runtime'', m_detail := Some ''Node'',
            m_activeMenu := Some ''/websites/runtimes/php'',
            m_permission := Some (Code ''website_runtime_view'')\<rparr>)\<rparr>) None,
         Page (page_at ''/websites/runtimes/java''\<lparr>r_name := Some ''java'', r_hidden := Some True,
            r_component := Some ''@/views/website/runtime/java/index.vue'',
            r_meta := Some (no_meta\<lparr>m_title := Some ''menu.runtime'', m_detail := Some ''Java'',
            m_activeMenu := Some ''/websites/runtimes/php'',
            m_permission := Some (Code ''website_runtime_view'')\<rparr>)\<rparr>) None,
         Page (page_at ''/websites/runtimes/go''\<lparr>r_name := Some ''go'', r_hidden := Some True,
            r_component := Some ''@/views/website/runtime/go/index.vue'',
            r_meta := Some (no_meta\<lparr>m_title := Some ''menu.runtime'', m_detail := Some ''Go'',
            m_activeMenu := Some ''/websites/runtimes/php'',
            m_permission := Some (Code ''website_runtime_view'')\<rparr>)\<rparr>) None,
         Page (page_at ''/websites/runtimes/python''\<lparr>r_name := Some ''python'',
            r_hidden := Some True, r_component := Some ''@/views/website/runtime/python/index.vue'',
            r_meta := Some (no_meta\<lparr>m_title := Some ''menu.runtime'', m_detail := Some ''Python'',
            m_activeMenu := Some ''/websites/runtimes/php'',
            m_permission := Some (Code ''website_runtime_view'')\<rparr>)\<rparr>) None,
         Page (page_at ''/websites/runtimes/dotnet''\<lparr>r_name := Some ''dotNet'',
            r_hidden := Some True, r_component := Some ''@/views/website/runtime/dotnet/index.vue'',
            r_meta := Some (no_meta\<lparr>m_title := Some ''menu.runtime'', m_detail := Some ''.Net'',
            m_activeMenu := Some ''/websites/runtimes/php'',
            m_permission := Some (Code ''website_runtime_view'')\<rparr>)\<rparr>) None])"

end
