(* ===== verification/Router.thy ===== *)
theory Router
  imports RouteTable "HOL-Library.AList"
begin

text \<open>
  The route table: \<^verbatim>\<open>src/web/src/routers/router.ts\<close>, \<^verbatim>\<open>src/web/src/routers/cache-router.ts\<close> and
  \<^verbatim>\<open>src/web/src/extensions/routes.ts\<close>.  The merge of the extension modules mutates the exported
  route objects, which several places then share, so these objects live in a store: a list
  indexed by address.  The extension modules themselves are not part of the repository and are
  arguments.
\<close>

section \<open>Modules and their route objects\<close>

text \<open>A glob import: the default export of every file, under the file's key.\<close>

type_synonym 'a modules = "(string \<times> 'a option) list"

definition base_modules :: "page modules" where
  "base_modules =
     [(''./modules/advanced.ts'', Some advancedRouter), (''./modules/ai.ts'', Some aiRouter),
      (''./modules/app-store.ts'', Some appStoreRouter), (''./modules/container.ts'', Some containerRouter),
      (''./modules/cronjob.ts'', Some cronRouter), (''./modules/database.ts'', Some databaseRouter),
      (''./modules/error.ts'', Some errorRouter), (''./modules/host.ts'', Some hostRouter),
      (''./modules/log.ts'', Some logsRouter), (''./modules/setting.ts'', Some settingRouter),
      (''./modules/terminal.ts'', Some terminalRouter), (''./modules/toolbox.ts'', Some toolboxRouter),
      (''./modules/website.ts'', Some webSiteRouter)]"

text \<open>A child is a plain page of its module or a reference to a merged route object.\<close>

datatype kid = Own page | Ref nat

record node =
  nd_attrs :: page_attrs
  nd_kids :: "kid list option"

type_synonym store = "node list"

definition node_of :: "page \<Rightarrow> node" where
  "node_of p = \<lparr>nd_attrs = attrs p, nd_kids = map_option (map Own) (subpages p)\<rparr>"

text \<open>\<open>Object.keys(modules).map((key) => modules[key]['default']).filter(Boolean)\<close>\<close>

definition default_exports :: "'a modules \<Rightarrow> 'a list" where
  "default_exports ms = List.map_filter snd ms"

text \<open>Loading a glob allocates its default exports, from a given address on.\<close>

fun load :: "nat \<Rightarrow> page modules \<Rightarrow> nat modules" where
  "load n [] = []"
| "load n ((key, None) # ms) = (key, None) # load n ms"
| "load n ((key, Some p) # ms) = (key, Some n) # load (Suc n) ms"

text \<open>\<open>{ ...a, ...b }\<close>\<close>

definition spread :: "'a modules \<Rightarrow> 'a modules \<Rightarrow> 'a modules" where
  "spread a b = foldl (\<lambda>m (key, v). AList.update key v m) a b"

section \<open>Sorting by the field sort\<close>

definition MAX_VALUE :: rat where
  "MAX_VALUE = 2 ^ 1024 - 2 ^ 971"

definition sort_value :: "page_attrs \<Rightarrow> rat" where
  "sort_value a = (case r_sort a of None \<Rightarrow> MAX_VALUE | Some s \<Rightarrow> s)"

text \<open>The comparison writes the default into the records it compares; a list of one is never
  compared.\<close>

definition put_sort :: "store \<Rightarrow> nat \<Rightarrow> store" where
  "put_sort st i =
     st[i := (st ! i)\<lparr>nd_attrs := (nd_attrs (st ! i))\<lparr>r_sort := Some (sort_value (nd_attrs (st ! i)))\<rparr>\<rparr>]"

definition sort_routes :: "store \<Rightarrow> nat list \<Rightarrow> nat list \<times> store" where
  "sort_routes st rs =
     (sort_key (\<lambda>i. sort_value (nd_attrs (st ! i))) rs,
      if length rs < 2 then st else foldl put_sort st rs)"

section \<open>Merging the extension routes\<close>

definition truthy :: "string option \<Rightarrow> string option" where
  "truthy s = (if s = Some [] then None else s)"

definition node_name :: "store \<Rightarrow> nat \<Rightarrow> string option" where
  "node_name st i = r_name (nd_attrs (st ! i))"

definition meta_field :: "(page_meta \<Rightarrow> string option) \<Rightarrow> page_attrs \<Rightarrow> string option" where
  "meta_field f a = (case r_meta a of None \<Rightarrow> None | Some m \<Rightarrow> truthy (f m))"

definition kid_name :: "store \<Rightarrow> kid \<Rightarrow> string option" where
  "kid_name st k = (case k of Own p \<Rightarrow> r_name (attrs p) | Ref i \<Rightarrow> node_name st i)"

definition kids :: "node \<Rightarrow> kid list" where
  "kids nd = (case nd_kids nd of None \<Rightarrow> [] | Some ks \<Rightarrow> ks)"

definition routeMap :: "store \<Rightarrow> nat list \<Rightarrow> string \<rightharpoonup> nat" where
  "routeMap st rs =
     foldl (\<lambda>m i. case truthy (node_name st i) of None \<Rightarrow> m | Some n \<Rightarrow> m(n \<mapsto> i)) Map.empty rs"

definition insert_kid :: "store \<Rightarrow> string option \<Rightarrow> kid \<Rightarrow> kid list \<Rightarrow> kid list" where
  "insert_kid st insertAfter k parentChildren =
     (case insertAfter of
        None \<Rightarrow> parentChildren @ [k]
      | Some name \<Rightarrow>
          (case find_index (\<lambda>item. kid_name st item = Some name) parentChildren of
             None \<Rightarrow> parentChildren @ [k]
           | Some n \<Rightarrow> take (Suc n) parentChildren @ [k] @ drop (Suc n) parentChildren))"

definition merge_route :: "(string \<rightharpoonup> nat) \<Rightarrow> store \<times> string option list \<Rightarrow> nat \<Rightarrow> store \<times> string option list" where
  "merge_route rm s i =
     (let (st, mergedRouteNames) = s; route = nd_attrs (st ! i) in
      case meta_field m_parentRouteName route of
        None \<Rightarrow> (st, mergedRouteNames)
      | Some parentRouteName \<Rightarrow>
          (case rm parentRouteName of
             None \<Rightarrow> (st, mergedRouteNames)
           | Some j \<Rightarrow>
               let children = insert_kid st (meta_field m_insertAfter route) (Ref i) (kids (st ! j))
               in (st[j := (st ! j)\<lparr>nd_kids := Some children\<rparr>], mergedRouteNames @ [r_name route])))"

definition export_name :: "store \<Rightarrow> nat option \<Rightarrow> string option" where
  "export_name st d = (case d of None \<Rightarrow> None | Some i \<Rightarrow> node_name st i)"

definition getXpackRoutes :: "nat modules \<Rightarrow> nat modules \<Rightarrow> nat modules \<Rightarrow> store \<Rightarrow> nat modules \<times> store" where
  "getXpackRoutes xpackRoutes enterpriseRoutes baseModules st0 =
     (let routes = spread xpackRoutes enterpriseRoutes;
          (rawRoutes, st) = sort_routes st0 (default_exports routes);
          rm = routeMap st (default_exports baseModules @ rawRoutes);
          (st, mergedRouteNames) = foldl (merge_route rm) (st, []) rawRoutes
      in (filter (\<lambda>(key, d). export_name st d \<notin> set mergedRouteNames) routes, st))"

section \<open>router.ts\<close>

definition homeRouter :: page where
  "homeRouter =
     Page (page_at ''/''\<lparr>r_name := Some ''Home-Menu'', r_component := Some ''Layout'',
        r_redirect := Some (Redirect ''/''),
        r_meta := Some (no_meta\<lparr>m_title := Some ''menu.home'', m_icon := Some ''p-home''\<rparr>)\<rparr>)
       (Some [
         Page (page_at ''/''\<lparr>r_name := Some ''home'', r_component := Some ''@/views/home/index.vue'',
           r_meta := Some (no_meta\<lparr>m_keepAlive := Some True\<rparr>)\<rparr>) None])"

text \<open>The route objects once all modules are merged, and \<open>rolesRoutes\<close>, whose elements
  \<open>routerArray\<close> takes over one by one.\<close>

definition rolesRoutes :: "page modules \<Rightarrow> page modules \<Rightarrow> nat list \<times> store" where
  "rolesRoutes xpack enterprise =
     (let base = load 0 base_modules;
          nb = length (default_exports base_modules);
          nx = nb + length (default_exports xpack);
          st = map node_of (default_exports base_modules @ default_exports xpack @ default_exports enterprise);
          (xpackModules, st) = getXpackRoutes (load nb xpack) (load nx enterprise) base st
      in sort_routes st (default_exports (spread base xpackModules)))"

text \<open>The tree below an address.  Route objects that contain each other have none: then no amount of
  fuel is enough.\<close>

primrec unfold_route :: "nat \<Rightarrow> store \<Rightarrow> nat \<Rightarrow> page option" where
  "unfold_route 0 st i = None"
| "unfold_route (Suc fuel) st i =
     (case nd_kids (st ! i) of
        None \<Rightarrow> Some (Page (nd_attrs (st ! i)) None)
      | Some ks \<Rightarrow>
          map_option (\<lambda>cs. Page (nd_attrs (st ! i)) (Some cs))
            (those (map (\<lambda>k. case k of Own p \<Rightarrow> Some p | Ref j \<Rightarrow> unfold_route fuel st j) ks)))"

definition routerArray :: "page modules \<Rightarrow> page modules \<Rightarrow> page list option" where
  "routerArray xpack enterprise =
     (let (rs, st) = rolesRoutes xpack enterprise in those (map (unfold_route (Suc (length st)) st) rs))"

text \<open>\<open>JSON.parse(JSON.stringify(item))\<close> drops the functions.\<close>

definition json_attrs :: "page_attrs \<Rightarrow> page_attrs" where
  "json_attrs a = a\<lparr>r_component := None,
     r_redirect := (if r_redirect a = Some AvailableSetting then None else r_redirect a)\<rparr>"

primrec json_copy :: "page \<Rightarrow> page" where
  "json_copy (Page a cs) = Page (json_attrs a) (map_option (map json_copy) cs)"

definition shown :: "page \<Rightarrow> bool" where
  "shown child \<longleftrightarrow> r_hidden (attrs child) = None \<or> r_hidden (attrs child) = Some False"

definition menu_item :: "page \<Rightarrow> page option" where
  "menu_item item =
     (let menuItem = json_copy item in
      case subpages menuItem of
        None \<Rightarrow> None
      | Some children \<Rightarrow> Some (Page (attrs menuItem) (Some (filter shown children))))"

definition menuList :: "page list \<Rightarrow> page list" where
  "menuList roles = homeRouter # List.map_filter menu_item roles"

definition login_page :: page where
  "login_page = Page (page_at ''/login''\<lparr>r_name := Some ''login'', r_props := Some True,
     r_component := Some ''@/views/login/index.vue'', r_meta := Some (no_meta\<lparr>m_key := Some ''login''\<rparr>)\<rparr>) None"

definition share_page :: page where
  "share_page = Page (page_at ''/s/:code''\<lparr>r_name := Some ''file-share'',
     r_component := Some ''@/views/share/index.vue'', r_meta := Some no_meta\<rparr>) None"

definition entrance_page :: page where
  "entrance_page = Page (page_at ''/:code?''\<lparr>r_name := Some ''entrance'',
     r_component := Some ''@/views/login/index.vue'', r_props := Some True\<rparr>) None"

definition unknown_page :: page where
  "unknown_page = Page (page_at ''/:pathMatch(.*)''\<lparr>r_redirect := Some (RedirectName ''404'')\<rparr>) None"

definition routes :: "page list \<Rightarrow> page list" where
  "routes array = [homeRouter, login_page, share_page, entrance_page] @ array @ [unknown_page]"

section \<open>cache-router.ts\<close>

fun filterKeepAlive :: "page \<Rightarrow> string list \<Rightarrow> string list" where
  "filterKeepAlive (Page a cs) cache =
     (let cache = (case r_meta a of
            Some m \<Rightarrow> if m_keepAlive m = Some True then cache @ case_option [] (\<lambda>n. [n]) (truthy (r_name a)) else cache
          | None \<Rightarrow> cache)
      in case cs of None \<Rightarrow> cache | Some cs \<Rightarrow> fold filterKeepAlive cs cache)"

definition cacheRouter :: "page list \<Rightarrow> string list" where
  "cacheRouter array = fold filterKeepAlive array []"

end
