(* ===== verification/RouteMap.thy ===== *)
theory RouteMap
  imports Router
begin

text \<open>
  The route table without extensions: its order, the chains of records the router matches, and
  the site map they make up, evaluated once and checked.
\<close>

section \<open>The built-in table\<close>

lemma module_fields [simp]:
  "r_sort (attrs advancedRouter) = Some (91 / 10)" "r_name (attrs advancedRouter) = Some ''Advanced-Menu''"
  "r_sort (attrs aiRouter) = Some 4" "r_name (attrs aiRouter) = Some ''AI-Menu''"
  "r_sort (attrs appStoreRouter) = Some 2" "r_name (attrs appStoreRouter) = Some ''App-Menu''"
  "r_sort (attrs containerRouter) = Some 6" "r_name (attrs containerRouter) = Some ''Container-Menu''"
  "r_sort (attrs cronRouter) = Some 9" "r_name (attrs cronRouter) = Some ''Cronjob-Menu''"
  "r_sort (attrs databaseRouter) = Some 5" "r_name (attrs databaseRouter) = Some ''Database-Menu''"
  "r_sort (attrs errorRouter) = None" "r_name (attrs errorRouter) = None"
  "r_sort (attrs hostRouter) = Some 7" "r_name (attrs hostRouter) = Some ''System-Menu''"
  "r_sort (attrs logsRouter) = Some 11" "r_name (attrs logsRouter) = Some ''Log-Menu''"
  "r_sort (attrs settingRouter) = Some 12" "r_name (attrs settingRouter) = Some ''Setting-Menu''"
  "r_sort (attrs terminalRouter) = Some 8" "r_name (attrs terminalRouter) = Some ''Terminal-Menu''"
  "r_sort (attrs toolboxRouter) = Some 9" "r_name (attrs toolboxRouter) = Some ''Toolbox-Menu''"
  "r_sort (attrs webSiteRouter) = Some 3" "r_name (attrs webSiteRouter) = Some ''Website-Menu''"
  by (simp_all add: advancedRouter_def aiRouter_def appStoreRouter_def containerRouter_def cronRouter_def
    databaseRouter_def errorRouter_def hostRouter_def logsRouter_def settingRouter_def terminalRouter_def
    toolboxRouter_def webSiteRouter_def page_at_def)

text \<open>The modules in the order of the table; the records carry the defaulted \<open>sort\<close>.\<close>

definition sorted_page :: "page \<Rightarrow> page" where
  "sorted_page p = Page ((attrs p)\<lparr>r_sort := Some (sort_value (attrs p))\<rparr>) (subpages p)"

definition raw_table :: "page list" where
  "raw_table =
     [appStoreRouter, webSiteRouter, aiRouter, databaseRouter, containerRouter, hostRouter, terminalRouter,
      cronRouter, toolboxRouter, advancedRouter, logsRouter, settingRouter, errorRouter]"

definition builtin :: "page list" where
  "builtin = map sorted_page raw_table"

lemma those_Own: "those (map (\<lambda>k. case k of Own p \<Rightarrow> Some p | Ref j \<Rightarrow> f j) (map Own ps)) = Some ps"
  by (induction ps) auto

lemma unfold_node_of:
  "st ! i = (node_of p)\<lparr>nd_attrs := a\<rparr> \<Longrightarrow> unfold_route (Suc fuel) st i = Some (Page a (subpages p))"
  by (cases "subpages p") (simp_all add: node_of_def those_Own del: map_map)

lemma sort_value_fields [simp]:
  "r_sort a = Some s \<Longrightarrow> sort_value a = s" "r_sort a = None \<Longrightarrow> sort_value a = MAX_VALUE"
  by (simp_all add: sort_value_def)

lemma node_of_fields [simp]: "nd_attrs (node_of p) = attrs p" "kids (node_of p) = map Own (case_option [] id (subpages p))"
  by (simp_all add: node_of_def kids_def split: option.splits)

lemma advanced_sort [simp]: "sort_value (attrs advancedRouter) = 91 / 10"
  by (simp add: sort_value_def)

lemma MAX_VALUE_large: "13 < MAX_VALUE"
  by (simp add: MAX_VALUE_def)

lemma base_exports:
  "default_exports base_modules =
     [advancedRouter, aiRouter, appStoreRouter, containerRouter, cronRouter, databaseRouter, errorRouter,
      hostRouter, logsRouter, settingRouter, terminalRouter, toolboxRouter, webSiteRouter]"
  by (simp add: default_exports_def base_modules_def map_filter_simps)

lemma base_load: "default_exports (load 0 base_modules) = [0, 1, 2, 3, 4, 5, 6, 7, 8, 9, 10, 11, 12]"
  by (simp add: default_exports_def base_modules_def map_filter_simps)

lemma exports_Nil [simp]: "default_exports [] = []"
  by (simp add: default_exports_def map_filter_simps)

lemma no_extensions: "getXpackRoutes [] [] base st = ([], st)"
  by (simp add: getXpackRoutes_def spread_def sort_routes_def default_exports_def map_filter_simps)

text \<open>Defaulting the field \<open>sort\<close> changes nothing else.\<close>

definition sorted_node :: "node \<Rightarrow> node" where
  "sorted_node nd = nd\<lparr>nd_attrs := (nd_attrs nd)\<lparr>r_sort := Some (sort_value (nd_attrs nd))\<rparr>\<rparr>"

lemma sorted_node_idem [simp]: "sorted_node (sorted_node nd) = sorted_node nd"
  by (simp add: sorted_node_def)

lemma put_sort_node: "put_sort st i = st[i := sorted_node (st ! i)]"
  by (simp add: put_sort_def sorted_node_def)

lemma put_sorts:
  "length (foldl put_sort st rs) = length st \<and>
   (\<forall>i < length st. foldl put_sort st rs ! i = (if i \<in> set rs then sorted_node (st ! i) else st ! i))"
proof (induction rs arbitrary: st)
  case (Cons i rs)
  have n: "length (put_sort st i) = length st" by (simp add: put_sort_node)
  have "put_sort st i ! k = (if k = i then sorted_node (st ! k) else st ! k)" if "k < length st" for k
    using that by (simp add: put_sort_node nth_list_update)
  with n Cons [of "put_sort st i"] show ?case by auto
qed simp

lemma base_range: "[0, 1, 2, 3, 4, 5, 6, 7, 8, 9, 10, 11, 12] = [0..<length (default_exports base_modules)]"
  by (simp add: base_exports upt_rec)

lemma base_sorted:
  "sort_key (\<lambda>i. sort_value (nd_attrs (map node_of (default_exports base_modules) ! i)))
     [0, 1, 2, 3, 4, 5, 6, 7, 8, 9, 10, 11, 12] = [2, 12, 1, 5, 3, 7, 10, 4, 11, 0, 8, 9, 6]"
  using MAX_VALUE_large by (simp add: base_exports)

lemma put_all_sorts: "foldl put_sort st [0..<length st] = map sorted_node st"
  using put_sorts [of st "[0..<length st]"] by (intro nth_equalityI) auto

lemma rolesRoutes_builtin:
  "rolesRoutes [] [] =
     ([2, 12, 1, 5, 3, 7, 10, 4, 11, 0, 8, 9, 6],
      map (\<lambda>p. sorted_node (node_of p)) (default_exports base_modules))"
proof -
  let ?st = "map node_of (default_exports base_modules)"
  have "rolesRoutes [] [] = sort_routes ?st [0, 1, 2, 3, 4, 5, 6, 7, 8, 9, 10, 11, 12]"
    by (simp only: rolesRoutes_def no_extensions spread_def base_load exports_Nil append_Nil2 Let_def split
        load.simps foldl_Nil list.map foldl.simps)
  moreover have "foldl put_sort ?st [0, 1, 2, 3, 4, 5, 6, 7, 8, 9, 10, 11, 12] = map sorted_node ?st"
    unfolding base_range using put_all_sorts [of ?st] by (simp only: length_map)
  moreover have "map sorted_node ?st = map (\<lambda>p. sorted_node (node_of p)) (default_exports base_modules)"
    by simp
  ultimately show ?thesis by (simp only: sort_routes_def base_sorted list.size) simp
qed

lemma unfold_sorted:
  assumes "set rs \<subseteq> {..<length ps}"
  shows "those (map (unfold_route (Suc f) (map (\<lambda>p. sorted_node (node_of p)) ps)) rs)
    = Some (map (\<lambda>i. sorted_page (ps ! i)) rs)"
proof -
  have "unfold_route (Suc f) (map (\<lambda>p. sorted_node (node_of p)) ps) i = Some (sorted_page (ps ! i))"
    if "i < length ps" for i
    using unfold_node_of [of "map (\<lambda>p. sorted_node (node_of p)) ps" i] that
    by (simp add: sorted_node_def sorted_page_def)
  with assms show ?thesis by (induction rs) auto
qed

theorem routerArray_builtin: "routerArray [] [] = Some builtin"
proof -
  have "set [2, 12, 1, 5, 3, 7, 10, 4, 11, 0, 8, 9, 6] \<subseteq> {..<length (default_exports base_modules)}"
    by (simp add: base_exports)
  from unfold_sorted [OF this] show ?thesis
    unfolding routerArray_def rolesRoutes_builtin split Let_def
    by (simp only: length_map) (simp add: base_exports builtin_def raw_table_def)
qed

section \<open>Resolved routes\<close>

text \<open>
  What the router library documents: a location is matched by a chain of nested records, the
  paths of children that do not start with a slash continue their parent's, and the route's
  \<open>meta\<close> is the merge of the chain's, a child's fields before its parent's.
\<close>

type_synonym chain = "(string \<times> page_attrs) list"

definition full_path :: "string \<Rightarrow> string \<Rightarrow> string" where
  "full_path base p =
     (if p = [] then base
      else if hd p = CHR ''/'' then p
      else if base \<noteq> [] \<and> last base = CHR ''/'' then base @ p
      else base @ ''/'' @ p)"

fun page_chains :: "string \<Rightarrow> page \<Rightarrow> chain list" where
  "page_chains base (Page a cs) =
     (let p = full_path base (r_path a) in
      [(p, a)] # map (Cons (p, a)) (concat (map (page_chains p) (case cs of None \<Rightarrow> [] | Some cs \<Rightarrow> cs))))"

definition table_chains :: "page list \<Rightarrow> chain list" where
  "table_chains table = concat (map (page_chains []) table)"

definition needs_rights :: "page_attrs \<Rightarrow> bool" where
  "needs_rights a =
     (case r_meta a of None \<Rightarrow> False
      | Some m \<Rightarrow> m_adminOnly m = Some True \<or> m_protectedRoleOnly m = Some True \<or>
          (case m_permission m of None \<Rightarrow> False
           | Some (Code s) \<Rightarrow> s \<noteq> [] | Some (Codes ps) \<Rightarrow> filter (\<lambda>x. x \<noteq> []) ps \<noteq> []))"

lemmas meta_simps = page_at_def no_meta_def full_path_def needs_rights_def

definition leaf :: "chain \<Rightarrow> string \<times> string option" where
  "leaf c = (fst (last c), r_name (snd (last c)))"

definition free_chain :: "chain \<Rightarrow> bool" where
  "free_chain c = list_all (\<lambda>(p, a). \<not> needs_rights a) c"

definition chain_meta :: "chain \<Rightarrow> (page_meta \<Rightarrow> 'a option) \<Rightarrow> 'a option" where
  "chain_meta c f =
     foldl (\<lambda>v (p, a). case r_meta a of None \<Rightarrow> v | Some m \<Rightarrow> (case f m of None \<Rightarrow> v | Some x \<Rightarrow> Some x)) None c"

definition chain_view :: "chain \<Rightarrow> string \<times> string option \<times> bool \<times> redirect option \<times> string \<times> bool \<times> bool" where
  "chain_view c =
     (let (p, a) = last c in
      (p, r_name a, free_chain c, r_redirect a,
       case chain_meta c m_activeMenu of None \<Rightarrow> [] | Some m \<Rightarrow> m, chain_meta c m_ignoreTab = Some True,
       list_ex (\<lambda>(p, a). case r_meta a of None \<Rightarrow> False | Some m \<Rightarrow> m_adminOnly m = Some True) c))"

text \<open>The site map: path, name, whether no record of the chain asks for a right, redirection, menu
  entry, \<open>ignoreTab\<close>, and whether a record of the chain is reserved for administrators.\<close>

lemma raw_views:
  "map chain_view (table_chains (routes raw_table)) =
     [(''/'', Some ''Home-Menu'', True, Some (Redirect ''/''), '''', False, False),
      (''/'', Some ''home'', True, None, '''', False, False),
      (''/login'', Some ''login'', True, None, '''', False, False),
      (''/s/:code'', Some ''file-share'', True, None, '''', False, False),
      (''/:code?'', Some ''entrance'', True, None, '''', False, False),
      (''/apps'', Some ''App-Menu'', False, Some (Redirect ''/apps/all''), '''', False, False),
      (''/apps'', Some ''App'', False, Some (Redirect ''/apps/all''), '''', False, False),
      (''/apps/all'', Some ''AppAll'', False, None, ''/apps'', False, False),
      (''/apps/installed'', Some ''AppInstalled'', False, None, ''/apps'', False, False),
      (''/apps/upgrade'', Some ''AppUpgrade'', False, None, ''/apps'', False, False),
      (''/apps/setting'', Some ''AppStoreSetting'', False, None, ''/apps'', False, False),
      (''/websites'', Some ''Website-Menu'', True, Some (Redirect ''/websites''), '''', False, False),
      (''/websites'', Some ''Website'', False, None, '''', False, False),
      (''/websites/:id/config/:tab'', Some ''WebsiteConfig'', False, None, ''/websites'', True, False),
      (''/websites/ssl'', Some ''SSL'', False, None, '''', False, False),
      (''/websites/templates'', Some ''WebsiteTemplate'', False, None, '''', False, False),
      (''/websites/runtimes/php'', Some ''PHP'', False, None, ''/websites/runtimes/php'', False, False),
      (''/websites/runtimes/node'', Some ''node'', False, None, ''/websites/runtimes/php'', False, False),
      (''/websites/runtimes/java'', Some ''java'', False, None, ''/websites/runtimes/php'', False, False),
      (''/websites/runtimes/go'', Some ''go'', False, None, ''/websites/runtimes/php'', False, False),
      (''/websites/runtimes/python'', Some ''python'', False, None, ''/websites/runtimes/php'', False, False),
      (''/websites/runtimes/dotnet'', Some ''dotNet'', False, None, ''/websites/runtimes/php'', False, False),
      (''/ai'', Some ''AI-Menu'', True, Some (Redirect ''/ai/model/account''), '''', False, False),
      (''/ai/agents/agent'', Some ''Agents'', False, None, '''', False, False),
      (''/ai/model/account'', Some ''AIModel'', False, None, '''', False, False),
      (''/ai/model/local'', Some ''LocalModel'', False, None, ''/ai/model/account'', False, False),
      (''/ai/mcp'', Some ''MCPServer'', False, None, '''', False, False),
      (''/ai/gpu/current'', Some ''GPU'', False, None, ''/ai/gpu/current'', False, False),
      (''/ai/gpu/history'', Some ''GPUHistory'', False, None, ''/ai/gpu/current'', False, False),
      (''/databases'', Some ''Database-Menu'', False, Some (Redirect ''/databases/mysql''), '''', False, False),
      (''/databases'', Some ''Database'', False, Some (Redirect ''/databases/mysql''), '''', False, False),
      (''/databases/mysql'', Some ''MySQL'', False, None, ''/databases'', False, False),
      (''/databases/mysql/setting/:type/:database'', Some ''MySQL-Setting'', False, None, ''/databases'', True, False),
      (''/databases/mysql/remote'', Some ''MySQL-Remote'', False, None, ''/databases'', False, False),
      (''/databases/postgresql'', Some ''PostgreSQL'', False, None, ''/databases'', False, False),
      (''/databases/postgresql/remote'', Some ''PostgreSQL-Remote'', False, None, ''/databases'', False, False),
      (''/databases/postgresql/setting/:type/:database'', Some ''PostgreSQL-Setting'', False, None, ''/databases'', True, False),
      (''/databases/redis'', Some ''Redis'', False, None, ''/databases'', False, False),
      (''/databases/redis/remote'', Some ''Redis-Remote'', False, None, ''/databases'', False, False),
      (''/databases/mongodb'', Some ''MongoDB'', False, None, ''/databases'', False, False),
      (''/databases/mongodb/remote'', Some ''MongoDB-Remote'', False, None, ''/databases'', False, False),
      (''/containers'', Some ''Container-Menu'', False, Some (Redirect ''/containers/container''), '''', False, False),
      (''/containers'', Some ''Container'', False, Some (Redirect ''/containers/dashboard''), '''', False, False),
      (''/containers/dashboard'', Some ''ContainerDashboard'', False, None, ''/containers'', False, False),
      (''/containers/container'', Some ''ContainerItem'', False, None, ''/containers'', False, False),
      (''/containers/container/operate'', Some ''ContainerCreate'', False, None, ''/containers'', True, False),
      (''/containers/image'', Some ''Image'', False, None, ''/containers'', False, False),
      (''/containers/network'', Some ''Network'', False, None, ''/containers'', False, False),
      (''/containers/volume'', Some ''Volume'', False, None, ''/containers'', False, False),
      (''/containers/repo'', Some ''Repo'', False, None, ''/containers'', False, False),
      (''/containers/compose'', Some ''Compose'', False, None, ''/containers'', False, False),
      (''/containers/template'', Some ''ComposeTemplate'', False, None, ''/containers'', False, False),
      (''/containers/setting'', Some ''ContainerSetting'', False, None, ''/containers'', False, False),
      (''/hosts'', Some ''System-Menu'', True, Some (Redirect ''/hosts/security''), '''', False, False),
      (''/hosts/files'', Some ''File'', False, None, '''', False, False),
      (''/hosts/monitor/monitor'', Some ''Monitorx'', False, None, '''', False, False),
      (''/hosts/monitor/setting'', Some ''HostMonitorSetting'', False, None, ''/hosts/monitor/monitor'', False, False),
      (''/hosts/firewall/rules'', Some ''FirewallPort'', False, None, ''/hosts/firewall/rules'', False, False),
      (''/hosts/firewall/docker'', Some ''FirewallDockerGuard'', False, None, ''/hosts/firewall/rules'', False, False),
      (''/hosts/firewall/forward'', Some ''FirewallForward'', False, None, ''/hosts/firewall/rules'', False, False),
      (''/hosts/firewall/setting'', Some ''FirewallSetting'', False, None, ''/hosts/firewall/rules'', False, False),
      (''/hosts/disk'', Some ''Disk'', False, None, '''', False, False),
      (''/hosts/process/process'', Some ''Process'', False, None, ''/hosts/process/process'', False, False),
      (''/hosts/process/network'', Some ''ProcessNetwork'', False, None, ''/hosts/process/process'', False, False),
      (''/hosts/ssh/ssh'', Some ''SSH'', False, None, ''/hosts/ssh/ssh'', False, False),
      (''/hosts/ssh/log'', Some ''SSHLog'', False, None, ''/hosts/ssh/ssh'', False, False),
      (''/hosts/ssh/session'', Some ''SSHSession'', False, None, ''/hosts/ssh/ssh'', False, False),
      (''/terminal'', Some ''Terminal-Menu'', False, Some (Redirect ''/terminal''), '''', False, False),
      (''/terminal'', Some ''Terminal'', False, None, '''', False, False),
      (''/cronjobs'', Some ''Cronjob-Menu'', False, Some (Redirect ''/cronjobs/cronjob''), '''', False, False),
      (''/cronjobs'', Some ''Cronjob'', False, Some (Redirect ''/cronjobs/cronjob''), '''', False, False),
      (''/cronjobs/cronjob'', Some ''CronjobItem'', False, None, ''/cronjobs'', False, False),
      (''/cronjobs/cronjob/operate'', Some ''CronjobOperate'', False, None, ''/cronjobs'', True, False),
      (''/cronjobs/library'', Some ''Library'', False, None, ''/cronjobs'', False, False),
      (''/toolbox'', Some ''Toolbox-Menu'', False, Some (Redirect ''/toolbox/supervisor''), '''', False, False),
      (''/toolbox'', Some ''Toolbox'', False, Some (Redirect ''/toolbox/device''), '''', False, False),
      (''/toolbox/device'', Some ''Device'', False, None, ''/toolbox'', False, False),
      (''/toolbox/supervisor'', Some ''Supervisor'', False, None, ''/toolbox'', False, False),
      (''/toolbox/clam'', Some ''Clam'', False, None, ''/toolbox'', False, False),
      (''/toolbox/clam/setting'', Some ''Clam-Setting'', False, None, ''/toolbox'', True, False),
      (''/toolbox/ftp'', Some ''FTP'', False, None, ''/toolbox'', False, False),
      (''/toolbox/fail2ban'', Some ''Fail2ban'', False, None, ''/toolbox'', False, False),
      (''/toolbox/clean'', Some ''Clean'', False, None, ''/toolbox'', False, False),
      (''/advanced'', Some ''Advanced-Menu'', True, Some (Redirect ''/advanced/website-monitor/dashboard''), '''', False, False),
      (''/advanced/website-monitor'', Some ''AdvancedWebsiteMonitor'', True, Some (Redirect ''/advanced/website-monitor/dashboard''), '''', False, False),
      (''/advanced/website-monitor/dashboard'', Some ''AdvancedWebsiteMonitorDashboard'', True, None, ''/advanced/website-monitor'', False, False),
      (''/advanced/website-monitor/rank'', Some ''AdvancedWebsiteMonitorRank'', True, None, ''/advanced/website-monitor'', False, False),
      (''/advanced/website-monitor/trend'', Some ''AdvancedWebsiteMonitorTrend'', True, None, ''/advanced/website-monitor'', False, False),
      (''/advanced/website-monitor/log'', Some ''AdvancedWebsiteMonitorLog'', True, None, ''/advanced/website-monitor'', False, False),
      (''/advanced/website-monitor/websites'', Some ''AdvancedWebsiteMonitorWebsites'', True, None, ''/advanced/website-monitor'', False, False),
      (''/advanced/website-monitor/setting'', Some ''AdvancedWebsiteMonitorSetting'', True, None, ''/advanced/website-monitor'', False, False),
      (''/advanced/waf'', Some ''AdvancedWaf'', True, Some (Redirect ''/advanced/waf/overview''), '''', False, False),
      (''/advanced/waf/overview'', Some ''AdvancedWafOverview'', True, None, ''/advanced/waf'', False, False),
      (''/advanced/waf/attack'', Some ''AdvancedWafAttack'', True, None, ''/advanced/waf'', False, False),
      (''/advanced/waf/intercept'', Some ''AdvancedWafIntercept'', True, None, ''/advanced/waf'', False, False),
      (''/advanced/waf/block'', Some ''AdvancedWafBlock'', True, None, ''/advanced/waf'', False, False),
      (''/advanced/waf/blackwhite'', Some ''AdvancedWafBlackWhite'', True, None, ''/advanced/waf'', False, False),
      (''/advanced/waf/websites'', Some ''AdvancedWafWebsites'', True, None, ''/advanced/waf'', False, False),
      (''/advanced/waf/global'', Some ''AdvancedWafGlobal'', True, None, ''/advanced/waf'', False, False),
      (''/advanced/multi-node'', Some ''AdvancedMultiNode'', True, None, '''', False, False),
      (''/logs'', Some ''Log-Menu'', False, Some (Redirect ''/logs/operation''), '''', False, False),
      (''/logs'', Some ''Log'', False, Some (Redirect ''/logs/operation''), '''', False, False),
      (''/logs/operation'', Some ''OperationLog'', False, None, ''/logs'', False, False),
      (''/logs/login'', Some ''LoginLog'', False, None, ''/logs'', False, False),
      (''/logs/website'', Some ''WebsiteLog'', False, None, ''/logs'', False, False),
      (''/logs/system'', Some ''SystemLog'', False, None, ''/logs'', False, False),
      (''/logs/host'', Some ''HostSystemLog'', False, None, ''/logs'', False, False),
      (''/logs/ssh'', Some ''SSHLog2'', False, None, ''/logs'', False, False),
      (''/logs/task'', Some ''Task'', False, None, ''/logs'', False, False),
      (''/settings'', Some ''Setting-Menu'', False, Some AvailableSetting, '''', False, False),
      (''/settings'', Some ''Setting'', False, Some AvailableSetting, '''', False, False),
      (''/settings/panel'', Some ''Panel'', False, None, ''/settings'', False, True),
      (''/settings/bind'', Some ''GatewayBind'', False, None, '''', True, True),
      (''/settings/alert'', Some ''Alert'', False, None, ''/settings'', False, False),
      (''/settings/backupaccount'', Some ''BackupAccount'', False, None, ''/settings'', False, False),
      (''/settings/about'', Some ''About'', False, None, ''/settings'', False, True),
      (''/settings/safe'', Some ''Safe'', False, None, ''/settings'', False, True),
      (''/settings/snapshot'', Some ''Snapshot'', False, None, ''/settings'', False, True),
      (''/settings/expired'', Some ''Expired'', False, None, ''/settings'', True, False),
      (''/error'', None, True, None, '''', False, False),
      (''/error/404'', Some ''404'', True, None, '''', False, False),
      (''/:pathMatch(.*)'', None, True, Some (RedirectName ''404''), '''', False, False)]"
  by code_simp

lemma chain_view_sort: "chain_view ((p, a\<lparr>r_sort := s\<rparr>) # c) = chain_view ((p, a) # c)"
  by (cases c) (simp_all add: chain_view_def chain_meta_def free_chain_def needs_rights_def cong: option.case_cong)

lemma sorted_views: "map chain_view (page_chains b (sorted_page p)) = map chain_view (page_chains b p)"
  by (cases p) (simp add: sorted_page_def Let_def chain_view_sort o_def)

lemma map_table_chains:
  "(\<And>p. p \<in> set ps \<Longrightarrow> map f (page_chains [] (g p)) = map f (page_chains [] p)) \<Longrightarrow>
     map f (table_chains (map g ps)) = map f (table_chains ps)"
  by (induction ps) (simp_all add: table_chains_def)

lemma table_chains_append: "table_chains (ps @ qs) = table_chains ps @ table_chains qs"
  by (simp add: table_chains_def)

lemma views_builtin: "map chain_view (table_chains (routes builtin)) = map chain_view (table_chains (routes raw_table))"
  by (simp only: routes_def table_chains_append map_append builtin_def map_table_chains sorted_views)

lemmas builtin_views = raw_views [folded views_builtin]

text \<open>A check of every chain is a check of the site map.\<close>

lemma builtin_all:
  "list_all P (map chain_view (table_chains (routes builtin))) \<Longrightarrow> c \<in> set (table_chains (routes builtin)) \<Longrightarrow>
     P (chain_view c)"
  by (simp add: list_all_iff)

definition view_paths :: "page list \<Rightarrow> string list" where
  "view_paths table = map (\<lambda>c. fst (last c)) (table_chains table)"

lemma fst_chain_view: "fst (chain_view c) = fst (last c)"
  by (simp add: chain_view_def split: prod.splits)

lemma view_paths_alt: "view_paths table = map fst (map chain_view (table_chains table))"
  by (simp add: view_paths_def fst_chain_view)

definition table_names :: "page list \<Rightarrow> string list" where
  "table_names table = List.map_filter (\<lambda>c. r_name (snd (last c))) (table_chains table)"

definition table_menus :: "page list \<Rightarrow> string list" where
  "table_menus table = List.map_filter (\<lambda>c. truthy (chain_meta c m_activeMenu)) (table_chains table)"

lemma map_filter_map: "List.map_filter f (map g xs) = List.map_filter (f \<circ> g) xs"
  by (induction xs) (simp_all add: map_filter_simps split: option.splits)

lemma tables_by_view:
  "table_names table = List.map_filter (\<lambda>(p, n, x). n) (map chain_view (table_chains table))"
  "table_menus table =
     List.map_filter (\<lambda>(p, n, e, r, m, x). truthy (Some m)) (map chain_view (table_chains table))"
  unfolding table_names_def table_menus_def map_filter_map
  by (rule arg_cong [where f = "\<lambda>f. List.map_filter f (table_chains table)"],
      auto simp: fun_eq_iff chain_view_def truthy_def split: prod.splits option.splits)+

lemma names_distinct: "distinct (table_names (routes builtin))"
  unfolding tables_by_view builtin_views by code_simp

lemma menus_listed: "list_all (\<lambda>m. m \<in> set (view_paths (routes builtin))) (remdups (table_menus (routes builtin)))"
  unfolding tables_by_view view_paths_alt builtin_views by code_simp

text \<open>Where a redirection leads: to a page by its path, by its name, or by the path that
  \<open>redirectToAvailableSetting\<close> chooses in the state of the application.\<close>

definition leads_to :: "app \<Rightarrow> redirect \<Rightarrow> chain \<Rightarrow> bool" where
  "leads_to a r c =
     (case r of
        Redirect p \<Rightarrow> fst (last c) = p
      | RedirectName n \<Rightarrow> r_name (snd (last c)) = Some n
      | AvailableSetting \<Rightarrow> fst (last c) = fst (redirectToAvailableSetting a))"

definition redirect_of :: "chain \<Rightarrow> redirect option" where
  "redirect_of c = r_redirect (snd (last c))"

definition setting_targets :: "string list" where
  "setting_targets = [''/settings/panel'', ''/settings/alert'', ''/settings/backupaccount'']"

lemma setting_target: "fst (redirectToAvailableSetting a) \<in> set setting_targets"
  by (auto simp: redirectToAvailableSetting_def setting_targets_def split: prod.splits bool.splits)

lemma redirect_targets:
  "list_all (\<lambda>(p, n, e, r, x). case r of
       None \<Rightarrow> True
     | Some (Redirect q) \<Rightarrow> q = ''/hosts/security'' \<or> q \<in> set (view_paths (routes builtin))
     | Some (RedirectName q) \<Rightarrow> q \<in> set (table_names (routes builtin))
     | Some AvailableSetting \<Rightarrow> list_all (\<lambda>q. q \<in> set (view_paths (routes builtin))) setting_targets)
     (map chain_view (table_chains (routes builtin)))
   \<and> ''/hosts/security'' \<notin> set (view_paths (routes builtin))"
  unfolding tables_by_view view_paths_alt builtin_views by code_simp

lemma view_path_chain: "p \<in> set (view_paths table) \<longleftrightarrow> (\<exists>c \<in> set (table_chains table). fst (last c) = p)"
  by (auto simp: view_paths_def)

lemma table_name_chain: "n \<in> set (table_names table) \<longleftrightarrow> (\<exists>c \<in> set (table_chains table). r_name (snd (last c)) = Some n)"
  by (force simp: table_names_def List.map_filter_def)

lemma redirects_lead:
  assumes "c \<in> set (table_chains (routes builtin))" "redirect_of c = Some r" "r \<noteq> Redirect ''/hosts/security''"
  shows "\<exists>d \<in> set (table_chains (routes builtin)). leads_to a r d"
proof -
  have "r_redirect (snd (last c)) = Some r" using assms(2) by (simp add: redirect_of_def)
  with builtin_all [OF conjunct1 [OF redirect_targets] assms(1)] assms(3) setting_target [of a]
  show ?thesis
    by (cases r) (auto simp: chain_view_def leads_to_def view_path_chain table_name_chain list_all_iff
        simp del: map_map split: prod.splits)
qed

section \<open>What the records ask for\<close>

type_synonym asked = "(bool option \<times> bool option \<times> permission_code option) option"

definition access_view :: "chain \<Rightarrow> string \<times> redirect option \<times> asked list" where
  "access_view c =
     (fst (last c), redirect_of c,
      map (\<lambda>(p, a). map_option (\<lambda>m. (m_adminOnly m, m_protectedRoleOnly m, m_permission m)) (r_meta a)) c)"

lemma access_view_sort: "access_view ((p, a\<lparr>r_sort := s\<rparr>) # c) = access_view ((p, a) # c)"
  by (cases c) (simp_all add: access_view_def redirect_of_def)

lemma sorted_access: "map access_view (page_chains b (sorted_page p)) = map access_view (page_chains b p)"
  by (cases p) (simp add: sorted_page_def Let_def access_view_sort o_def)

lemma access_builtin: "map access_view (table_chains (routes builtin)) = map access_view (table_chains (routes raw_table))"
  by (simp only: routes_def table_chains_append map_append builtin_def map_table_chains sorted_access)

definition asks_settings :: asked where
  "asks_settings = Some (None, None, Some settingPermissions)"

lemma setting_access:
  "list_all (\<lambda>(p, r, fs).
      (r = Some AvailableSetting \<longrightarrow> fs \<noteq> [] \<and> list_all (\<lambda>f. f = asks_settings) fs) \<and>
      (p = ''/settings/panel'' \<longrightarrow> fs = [asks_settings, asks_settings, Some (Some True, None, None)]) \<and>
      (p = ''/settings/alert'' \<longrightarrow> fs = [asks_settings, asks_settings, Some (None, None, Some (Code ''alert_view''))]) \<and>
      (p = ''/settings/backupaccount'' \<longrightarrow>
         fs = [asks_settings, asks_settings, Some (None, None, Some (Code ''backup_view''))]))
     (map access_view (table_chains (routes builtin)))"
  unfolding access_builtin by code_simp

lemma access_all:
  "list_all P (map access_view (table_chains (routes builtin))) \<Longrightarrow> c \<in> set (table_chains (routes builtin)) \<Longrightarrow>
     P (access_view c)"
  by (simp add: list_all_iff)

end
