(* ===== verification/Extension.thy ===== *)
theory Extension
  imports RouteMap "HOL-Library.Multiset" "HOL-Library.Sublist"
begin

text \<open>
  What the merge of extension modules keeps: every route object ends up in exactly one place, and
  the pages of the built-in modules stay where they are.
\<close>

section \<open>Loading\<close>

lemma exports_simps [simp]:
  "default_exports ((k, None) # ms) = default_exports ms"
  "default_exports ((k, Some x) # ms) = x # default_exports ms"
  by (simp_all add: default_exports_def map_filter_simps)

lemma exports_append [simp]: "default_exports (ms @ ms') = default_exports ms @ default_exports ms'"
  by (induction ms) (auto simp: default_exports_def map_filter_simps split: option.splits)

lemma load_keys [simp]: "map fst (load n ms) = map fst ms"
  by (induction n ms rule: load.induct) simp_all

lemma load_exports: "default_exports (load n ms) = [n..<n + length (default_exports ms)]"
  by (induction n ms rule: load.induct) (simp_all add: upt_conv_Cons del: upt_Suc)

lemma update_fresh: "k \<notin> fst ` set m \<Longrightarrow> AList.update k v m = m @ [(k, v)]"
  by (induction m) auto

lemma spread_append: "distinct (map fst (a @ b)) \<Longrightarrow> spread a b = a @ b"
  unfolding spread_def
proof (induction b arbitrary: a)
  case (Cons kv b)
  obtain k v where kv: "kv = (k, v)" by fastforce
  with Cons.prems have "AList.update k v a = a @ [(k, v)]" by (intro update_fresh) auto
  with Cons.IH [of "a @ [(k, v)]"] Cons.prems kv show ?case by auto
qed simp

section \<open>One merge\<close>

definition own_kids :: "kid list \<Rightarrow> page list" where
  "own_kids ks = List.map_filter (\<lambda>k. case k of Own p \<Rightarrow> Some p | Ref i \<Rightarrow> None) ks"

lemma own_kids_simps [simp]:
  "own_kids [] = []" "own_kids (Own p # ks) = p # own_kids ks" "own_kids (Ref i # ks) = own_kids ks"
  by (simp_all add: own_kids_def map_filter_simps)

lemma own_kids_append [simp]: "own_kids (ks @ ks') = own_kids ks @ own_kids ks'"
  by (induction ks) (auto simp: own_kids_def map_filter_simps split: kid.splits)

lemma own_kids_Own [simp]: "own_kids (map Own ps) = ps"
  by (induction ps) simp_all

lemma insert_kid_split: "\<exists>us vs. ks = us @ vs \<and> insert_kid st x k ks = us @ [k] @ vs"
proof (cases x)
  case None
  then show ?thesis by (intro exI [of _ ks] exI [of _ "[]"]) (simp add: insert_kid_def)
next
  case (Some name)
  show ?thesis
  proof (cases "find_index (\<lambda>item. kid_name st item = Some name) ks")
    case None
    with Some show ?thesis by (intro exI [of _ ks] exI [of _ "[]"]) (simp add: insert_kid_def)
  next
    case (Some n)
    with \<open>x = Some name\<close> show ?thesis
      by (intro exI [of _ "take (Suc n) ks"] exI [of _ "drop (Suc n) ks"]) (simp add: insert_kid_def)
  qed
qed

lemma insert_kid_own [simp]: "own_kids (insert_kid st x (Ref i) ks) = own_kids ks"
  using insert_kid_split [of ks st x "Ref i"] by auto

lemma insert_kid_count: "count_list (insert_kid st x k ks) k' = count_list ks k' + (if k' = k then 1 else 0)"
  using insert_kid_split [of ks st x k] by auto

lemma insert_kid_set: "set (insert_kid st x k ks) = insert k (set ks)"
  using insert_kid_split [of ks st x k] by auto

text \<open>The number of places that refer to a route object.\<close>

definition refs :: "store \<Rightarrow> nat \<Rightarrow> nat" where
  "refs st i = (\<Sum>nd \<leftarrow> st. count_list (kids nd) (Ref i))"

lemma refs_update:
  "j < length st \<Longrightarrow> refs (st[j := nd]) i + count_list (kids (st ! j)) (Ref i) = refs st i + count_list (kids nd) (Ref i)"
proof (induction st arbitrary: j)
  case (Cons x st)
  then show ?case by (cases j) (auto simp: refs_def)
qed simp

definition parent_of :: "(string \<rightharpoonup> nat) \<Rightarrow> page_attrs \<Rightarrow> nat option" where
  "parent_of rm a = (case meta_field m_parentRouteName a of None \<Rightarrow> None | Some p \<Rightarrow> rm p)"

lemma merge_route_alt:
  "merge_route rm (st, names) i =
     (case parent_of rm (nd_attrs (st ! i)) of
        None \<Rightarrow> (st, names)
      | Some j \<Rightarrow>
          (st[j := (st ! j)\<lparr>nd_kids := Some (insert_kid st (meta_field m_insertAfter (nd_attrs (st ! i))) (Ref i) (kids (st ! j)))\<rparr>],
           names @ [node_name st i]))"
  by (simp add: merge_route_def parent_of_def node_name_def Let_def split: option.splits)

lemma kids_some [simp]: "kids (nd\<lparr>nd_kids := Some ks\<rparr>) = ks"
  by (simp add: kids_def)

text \<open>The merge changes no attribute and none of the plain children.\<close>

definition keeps :: "store \<Rightarrow> store \<times> string option list \<Rightarrow> bool" where
  "keeps st0 s \<longleftrightarrow> length (fst s) = length st0 \<and>
     (\<forall>j < length st0. nd_attrs (fst s ! j) = nd_attrs (st0 ! j) \<and>
        own_kids (kids (fst s ! j)) = own_kids (kids (st0 ! j)) \<and>
        (nd_kids (st0 ! j) \<noteq> None \<longrightarrow> nd_kids (fst s ! j) \<noteq> None))"

lemma merge_keeps_step: "keeps st0 s \<Longrightarrow> keeps st0 (merge_route rm s i)"
proof -
  assume k: "keeps st0 s"
  obtain st names where s: "s = (st, names)" by fastforce
  show ?thesis
  proof (cases "parent_of rm (nd_attrs (st ! i))")
    case (Some j)
    with k s show ?thesis
      by (cases "j < length st") (auto simp: merge_route_alt keeps_def nth_list_update)
  qed (use k s in \<open>simp add: merge_route_alt\<close>)
qed

interpretation merge_keeps: step_system "merge_route rm" "keeps st0" for rm st0
  by unfold_locales (rule merge_keeps_step)

text \<open>Each merged object gets one more place, and its name is recorded.\<close>

lemma merge_all:
  assumes "keeps st0 (st, names)" "\<forall>p j. rm p = Some j \<longrightarrow> j < length st0" "set rs \<subseteq> {..<length st0}"
    and "foldl (merge_route rm) (st, names) rs = (st', names')"
  shows "refs st' i = refs st i + count_list (filter (\<lambda>i. parent_of rm (nd_attrs (st0 ! i)) \<noteq> None) rs) i
    \<and> names' = names @ map (node_name st0) (filter (\<lambda>i. parent_of rm (nd_attrs (st0 ! i)) \<noteq> None) rs)"
  using assms(1,3,4)
proof (induction rs arbitrary: st names)
  case (Cons k rs)
  obtain st1 names1 where s1: "merge_route rm (st, names) k = (st1, names1)" by fastforce
  with merge_keeps_step [OF Cons.prems(1), of rm k] have k1: "keeps st0 (st1, names1)" by simp
  from Cons.prems have n: "k < length st0" "length st = length st0" "nd_attrs (st ! k) = nd_attrs (st0 ! k)"
    by (auto simp: keeps_def)
  have step: "refs st1 i = refs st i + (if parent_of rm (nd_attrs (st0 ! k)) \<noteq> None \<and> k = i then 1 else 0) \<and>
    names1 = names @ (if parent_of rm (nd_attrs (st0 ! k)) \<noteq> None then [node_name st0 k] else [])"
  proof (cases "parent_of rm (nd_attrs (st0 ! k))")
    case None
    with s1 n show ?thesis by (simp add: merge_route_alt)
  next
    case (Some j)
    with assms(2) have "j < length st" using n by (auto simp: parent_of_def split: option.splits)
    with s1 n Some show ?thesis
      using refs_update [of j st "(st ! j)\<lparr>nd_kids := Some (insert_kid st (meta_field m_insertAfter (nd_attrs (st ! k)))
        (Ref k) (kids (st ! j)))\<rparr>" i]
      by (auto simp: merge_route_alt insert_kid_count node_name_def)
  qed
  from Cons.prems s1 have "foldl (merge_route rm) (st1, names1) rs = (st', names')" by simp
  from Cons.IH [OF k1 _ this] Cons.prems(2) step show ?case by auto
qed simp

section \<open>The merge of all extension modules\<close>

lemma put_keeps:
  assumes "foldl put_sort st rs = st'"
  shows "length st' = length st" and "\<And>i. i < length st \<Longrightarrow> st' ! i = st ! i \<or> st' ! i = sorted_node (st ! i)"
  using put_sorts [of st rs] assms by auto

lemma sorted_node_fields [simp]: "kids (sorted_node nd) = kids nd" "nd_kids (sorted_node nd) = nd_kids nd"
  "r_name (nd_attrs (sorted_node nd)) = r_name (nd_attrs nd)" "r_meta (nd_attrs (sorted_node nd)) = r_meta (nd_attrs nd)"
  by (simp_all add: sorted_node_def kids_def)

text \<open>Up to the default of \<open>sort\<close>.\<close>

definition like :: "node \<Rightarrow> node \<Rightarrow> bool" where
  "like nd nd' \<longleftrightarrow> (nd_attrs nd = nd_attrs nd' \<or> nd_attrs nd = (nd_attrs nd')\<lparr>r_sort := Some (sort_value (nd_attrs nd'))\<rparr>)"

lemma like_refl [simp]: "like nd nd"
  by (simp add: like_def)

lemma like_sorted [simp]: "like (sorted_node nd) nd"
  by (simp add: like_def sorted_node_def)

lemma like_fields: "like nd nd' \<Longrightarrow> r_name (nd_attrs nd) = r_name (nd_attrs nd') \<and> r_meta (nd_attrs nd) = r_meta (nd_attrs nd')"
  by (auto simp: like_def)

lemma like_trans: "like a b \<Longrightarrow> like b c \<Longrightarrow> like a c"
  by (auto simp: like_def sort_value_def)

lemma sort_routes_keeps:
  assumes "sort_routes st rs = (rs', st')"
  shows "set rs' = set rs \<and> distinct rs' = distinct rs \<and> length st' = length st \<and>
    (\<forall>i < length st. like (st' ! i) (st ! i) \<and> nd_kids (st' ! i) = nd_kids (st ! i))"
proof -
  have "length (foldl put_sort st rs) = length st \<and>
    (\<forall>i < length st. like (foldl put_sort st rs ! i) (st ! i) \<and> nd_kids (foldl put_sort st rs ! i) = nd_kids (st ! i))"
    using put_sorts [of st rs] by simp
  with assms show ?thesis by (auto simp: sort_routes_def)
qed

lemma routeMap_range: "routeMap st rs p = Some j \<Longrightarrow> j \<in> set rs"
proof -
  have "(\<forall>j p. m p = Some j \<longrightarrow> j \<in> A) \<Longrightarrow> set rs \<subseteq> A \<Longrightarrow>
     foldl (\<lambda>m i. case truthy (node_name st i) of None \<Rightarrow> m | Some n \<Rightarrow> m(n \<mapsto> i)) m rs p = Some j \<Longrightarrow> j \<in> A" for m A
  proof (induction rs arbitrary: m)
    case (Cons i rs)
    show ?case
      by (rule Cons.IH [OF _ _ Cons.prems(3) [simplified]])
        (use Cons.prems in \<open>auto split: option.splits\<close>)
  qed auto
  from this [of Map.empty "set rs"] show "routeMap st rs p = Some j \<Longrightarrow> j \<in> set rs"
    by (simp add: routeMap_def)
qed

lemma count_distinct: "distinct xs \<Longrightarrow> count_list xs x = (if x \<in> set xs then 1 else 0)"
  by (induction xs) auto

lemma refs_cong:
  "length st = length st' \<Longrightarrow> (\<And>i. i < length st \<Longrightarrow> nd_kids (st ! i) = nd_kids (st' ! i)) \<Longrightarrow> refs st k = refs st' k"
  unfolding refs_def by (rule arg_cong [where f = sum_list], rule nth_equalityI) (auto simp: kids_def)

lemma exports_filter:
  "default_exports (filter (\<lambda>(key, d). P d) ms) = filter (\<lambda>i. P (Some i)) (default_exports ms)"
proof (induction ms)
  case (Cons kd ms)
  then show ?case by (cases kd; cases "snd kd") auto
qed simp

text \<open>The result of a merge: which routes found a parent, and what became of the store.\<close>

definition merge_result ::
  "nat \<Rightarrow> store \<Rightarrow> nat modules \<Rightarrow> nat modules \<Rightarrow> store \<Rightarrow> (nat \<Rightarrow> bool) \<Rightarrow> bool" where
  "merge_result nb st0 globs merged st Q \<longleftrightarrow>
     (\<exists>P. merged = filter P globs) \<and> default_exports merged = filter (\<lambda>i. \<not> Q i) [nb..<length st0]
     \<and> (\<forall>i. refs st i = refs st0 i + (if i \<in> {nb..<length st0} \<and> Q i then 1 else 0))
     \<and> length st = length st0
     \<and> (\<forall>j < length st0. like (st ! j) (st0 ! j) \<and> own_kids (kids (st ! j)) = own_kids (kids (st0 ! j))
          \<and> (nd_kids (st0 ! j) \<noteq> None \<longrightarrow> nd_kids (st ! j) \<noteq> None))"

text \<open>The extension routes of the store, from \<open>nb\<close> on, that found a parent.\<close>

lemma getXpackRoutes_spec:
  assumes "default_exports (spread x e) = [nb..<length st0]" "default_exports base = [0..<nb]" "nb \<le> length st0"
    and names: "\<forall>i \<in> {nb..<length st0}. node_name st0 i \<noteq> None" "inj_on (node_name st0) {nb..<length st0}"
    and "getXpackRoutes x e base st0 = (merged, st)"
  shows "\<exists>Q. merge_result nb st0 (spread x e) merged st Q"
proof -
  let ?routes = "spread x e"
  obtain raw st1 where sort: "sort_routes st0 (default_exports ?routes) = (raw, st1)" by fastforce
  note s1 = sort_routes_keeps [OF sort]
  let ?rm = "routeMap st1 (default_exports base @ raw)"
  obtain st' names where fold: "foldl (merge_route ?rm) (st1, []) raw = (st', names)" by fastforce
  define Q where "Q i \<longleftrightarrow> parent_of ?rm (nd_attrs (st1 ! i)) \<noteq> None" for i
  have raw: "set raw = {nb..<length st0}" "distinct raw"
    using s1 assms(1) by auto
  have st: "st = st'" "merged = filter (\<lambda>(key, d). export_name st' d \<notin> set names) ?routes"
    using assms(6) by (auto simp: getXpackRoutes_def sort fold)
  have k0: "keeps st1 (st1, [])" by (simp add: keeps_def)
  have k: "keeps st1 (st', names)" using merge_keeps.run_inv [OF k0, of ?rm raw] fold by simp
  have "j < length st1" if "?rm p = Some j" for p j
  proof -
    from routeMap_range [OF that] have "j \<in> {0..<nb} \<union> {nb..<length st0}"
      using assms(2) raw(1) by simp
    with assms(3) s1 show ?thesis by auto
  qed
  then have rm: "\<forall>p j. ?rm p = Some j \<longrightarrow> j < length st1" by blast
  have count: "count_list (filter Q raw) i = (if i \<in> {nb..<length st0} \<and> Q i then 1 else 0)" for i
    using count_distinct [of "filter Q raw"] raw by auto
  note m = merge_all [OF k0 rm _ fold, folded Q_def]
  have in_range: "set raw \<subseteq> {..<length st1}" using raw(1) s1 by auto
  have name1: "node_name st1 i = node_name st0 i" and name': "node_name st' i = node_name st0 i"
    if "i < length st0" for i
    using that s1 k like_fields [of "st1 ! i" "st0 ! i"] by (auto simp: node_name_def keeps_def)
  have refs: "refs st' i = refs st0 i + (if i \<in> {nb..<length st0} \<and> Q i then 1 else 0)" for i
    using m [of i, OF in_range] count [of i] refs_cong [of st1 st0 i] s1 by simp
  have nm: "names = map (node_name st1) (filter Q raw)" using m [of 0, OF in_range] by simp
  have listed: "node_name st' i \<notin> set names \<longleftrightarrow> \<not> Q i" if i: "i \<in> {nb..<length st0}" for i
  proof -
    let ?M = "set (filter Q raw)"
    have e: "node_name st' i = node_name st0 i" using i name' by auto
    have s: "set names = node_name st0 ` ?M" unfolding nm set_map
    proof (rule image_cong [OF refl])
      fix k assume "k \<in> ?M"
      then have "k < length st0" using raw(1) by auto
      then show "node_name st1 k = node_name st0 k" by (rule name1)
    qed
    have "?M \<subseteq> {nb..<length st0}" unfolding raw(1) [symmetric] by (rule filter_is_subset)
    from inj_on_image_mem_iff [OF names(2) i this] have "node_name st' i \<in> set names \<longleftrightarrow> i \<in> ?M"
      unfolding e s .
    moreover have "i \<in> ?M \<longleftrightarrow> Q i" using i unfolding raw(1) [symmetric] by simp
    ultimately show ?thesis by blast
  qed
  have "default_exports merged = filter (\<lambda>i. \<not> Q i) [nb..<length st0]"
    unfolding st(2) exports_filter [where P = "\<lambda>d. export_name st' d \<notin> set names"] assms(1)
    by (rule filter_cong) (use listed in \<open>auto simp: export_name_def\<close>)
  moreover have "length st' = length st0 \<and> (\<forall>j < length st0. like (st' ! j) (st0 ! j) \<and>
      own_kids (kids (st' ! j)) = own_kids (kids (st0 ! j)) \<and> (nd_kids (st0 ! j) \<noteq> None \<longrightarrow> nd_kids (st' ! j) \<noteq> None))"
    using k s1 by (auto simp: keeps_def like_def kids_def)
  ultimately show ?thesis using refs unfolding merge_result_def st(1) st(2) by blast
qed

section \<open>The merged table\<close>

definition base_count :: nat where
  "base_count = length (default_exports base_modules)"

definition extensions_ok :: "page modules \<Rightarrow> page modules \<Rightarrow> bool" where
  "extensions_ok x e \<longleftrightarrow> distinct (map fst (base_modules @ x @ e)) \<and>
     (\<forall>p \<in> set (default_exports (x @ e)). r_name (attrs p) \<noteq> None) \<and>
     distinct (map (\<lambda>p. r_name (attrs p)) (default_exports (x @ e)))"

abbreviation loaded :: "page modules \<Rightarrow> page modules \<Rightarrow> page list" where
  "loaded x e \<equiv> default_exports (base_modules @ x @ e)"

definition children :: "page \<Rightarrow> page list" where
  "children p = (case subpages p of None \<Rightarrow> [] | Some cs \<Rightarrow> cs)"

lemma refs_loaded: "refs (map node_of ps) i = 0"
proof (induction ps)
  case (Cons p ps)
  have "count_list (map Own qs) (Ref i) = 0" for qs by (induction qs) auto
  with Cons show ?case by (simp add: refs_def node_of_def kids_def split: option.splits)
qed (simp add: refs_def)

lemma node_of_kids: "own_kids (kids (node_of p)) = children p" "nd_kids (node_of p) = None \<longleftrightarrow> subpages p = None"
  by (cases "subpages p"; simp add: node_of_def kids_def children_def)+

lemma distinct_keys_filter: "distinct (map fst (a @ b)) \<Longrightarrow> distinct (map fst (a @ filter P b))"
  by (auto simp: distinct_map_filter)

lemma rolesRoutes_spec:
  assumes "extensions_ok x e" "rolesRoutes x e = (rs, st)"
  shows "distinct rs \<and> length st = length (loaded x e) \<and> {..<base_count} \<subseteq> set rs \<and> set rs \<subseteq> {..<length st}
    \<and> (\<forall>j < length st. like (st ! j) (node_of (loaded x e ! j)) \<and> own_kids (kids (st ! j)) = children (loaded x e ! j)
        \<and> (subpages (loaded x e ! j) \<noteq> None \<longrightarrow> nd_kids (st ! j) \<noteq> None)
        \<and> refs st j = (if j \<in> set rs then 0 else 1))
    \<and> (\<forall>j. length st \<le> j \<longrightarrow> refs st j = 0)"
proof -
  let ?st0 = "map node_of (loaded x e)"
  let ?nb = "length (default_exports base_modules)" and ?nx = "length (default_exports base_modules) + length (default_exports x)"
  let ?base = "load 0 base_modules" and ?x = "load ?nb x" and ?e = "load ?nx e"
  have keys: "distinct (map fst (base_modules @ x @ e))" using assms(1) by (simp add: extensions_ok_def)
  have xe: "spread ?x ?e = ?x @ ?e" using keys by (intro spread_append) (simp del: set_map)
  have N: "length ?st0 = ?nx + length (default_exports e)" by simp
  have x: "default_exports (spread ?x ?e) = [?nb..<length ?st0]"
    unfolding xe N using upt_add_eq_append [of ?nb ?nx "length (default_exports e)"]
    by (simp add: load_exports)
  have b: "default_exports ?base = [0..<?nb]" by (simp add: load_exports)
  have nodes: "node_name ?st0 i = r_name (attrs (default_exports (x @ e) ! (i - ?nb)))" if "i \<in> {?nb..<length ?st0}" for i
  proof -
    from that have "i < length (loaded x e)" by simp
    then have "node_name ?st0 i = r_name (attrs (loaded x e ! i))" by (simp only: node_name_def nth_map node_of_fields)
    with that show ?thesis by (simp add: nth_append)
  qed
  have named: "\<forall>i \<in> {?nb..<length ?st0}. node_name ?st0 i \<noteq> None"
  proof
    fix i assume i: "i \<in> {?nb..<length ?st0}"
    then have "default_exports (x @ e) ! (i - ?nb) \<in> set (default_exports (x @ e))" by (intro nth_mem) auto
    with assms(1) nodes [OF i] show "node_name ?st0 i \<noteq> None" by (auto simp: extensions_ok_def simp del: exports_append)
  qed
  have inj: "inj_on (node_name ?st0) {?nb..<length ?st0}"
  proof (rule inj_onI)
    fix i j assume ij: "i \<in> {?nb..<length ?st0}" "j \<in> {?nb..<length ?st0}" "node_name ?st0 i = node_name ?st0 j"
    let ?ns = "map (\<lambda>p. r_name (attrs p)) (default_exports (x @ e))"
    from ij have l: "i - ?nb < length (default_exports (x @ e))" "j - ?nb < length (default_exports (x @ e))" by auto
    then have "?ns ! (i - ?nb) = ?ns ! (j - ?nb)" "i - ?nb < length ?ns" "j - ?nb < length ?ns"
      using nodes [OF ij(1)] nodes [OF ij(2)] ij(3) by (simp_all only: nth_map length_map)
    moreover have "distinct ?ns" using assms(1) unfolding extensions_ok_def by blast
    ultimately have "i - ?nb = j - ?nb" using nth_eq_iff_index_eq by blast
    with ij show "i = j" by auto
  qed
  obtain merged st1 where g: "getXpackRoutes ?x ?e ?base ?st0 = (merged, st1)" by fastforce
  from getXpackRoutes_spec [OF x b _ named inj g]
  obtain Q where q: "merge_result ?nb ?st0 (spread ?x ?e) merged st1 Q" by auto
  then obtain P where P: "merged = filter P (spread ?x ?e)" by (auto simp: merge_result_def)
  have q: "default_exports merged = filter (\<lambda>i. \<not> Q i) [?nb..<length ?st0]"
    "\<forall>i. refs st1 i = 0 + (if i \<in> {?nb..<length ?st0} \<and> Q i then 1 else 0)" "length st1 = length ?st0"
    "\<forall>j < length ?st0. like (st1 ! j) (?st0 ! j) \<and> own_kids (kids (st1 ! j)) = own_kids (kids (?st0 ! j))
         \<and> (nd_kids (?st0 ! j) \<noteq> None \<longrightarrow> nd_kids (st1 ! j) \<noteq> None)"
    using q unfolding merge_result_def refs_loaded by blast+
  have "spread ?base merged = ?base @ merged"
    unfolding P xe by (intro spread_append distinct_keys_filter) (use keys in simp)
  then have exports: "default_exports (spread ?base merged) = [0..<?nb] @ filter (\<lambda>i. \<not> Q i) [?nb..<length ?st0]"
    using q(1) b by simp
  have s: "sort_routes st1 ([0..<?nb] @ filter (\<lambda>i. \<not> Q i) [?nb..<length ?st0]) = (rs, st)"
    using assms(2) g exports by (simp add: rolesRoutes_def Let_def)
  note s' = sort_routes_keeps [OF s]
  have set: "set rs = {..<?nb} \<union> {i \<in> {?nb..<length ?st0}. \<not> Q i}" and "distinct rs" "length st = length ?st0"
    using s' q(3) by auto
  moreover have "refs st j = (if j \<in> set rs then 0 else 1)" if "j < length ?st0" for j
    using that q(2) [THEN spec, of j] refs_cong [of st st1 j] s' q(3) by (auto simp: set)
  moreover have "like (st ! j) (node_of (loaded x e ! j)) \<and> own_kids (kids (st ! j)) = children (loaded x e ! j)
      \<and> (subpages (loaded x e ! j) \<noteq> None \<longrightarrow> nd_kids (st ! j) \<noteq> None)" if "j < length ?st0" for j
  proof -
    from that s' q(3) have l: "like (st ! j) (st1 ! j)" "nd_kids (st ! j) = nd_kids (st1 ! j)" by auto
    have e: "?st0 ! j = node_of (loaded x e ! j)" using that by (simp only: nth_map length_map)
    have "kids (st ! j) = kids (st1 ! j)" using l(2) by (simp add: kids_def)
    with l q(4) [rule_format, OF that, unfolded e] show ?thesis
      by (simp add: node_of_kids like_trans [of "st ! j" "st1 ! j"] del: node_of_fields(2))
  qed
  moreover have "refs st j = 0" if "length ?st0 \<le> j" for j
    using that q(2) [THEN spec, of j] refs_cong [of st st1 j] s' q(3) by simp
  ultimately show ?thesis by (auto simp: base_count_def)
qed

text \<open>C31: The merge of the extension modules loses nothing and doubles nothing, provided that every file has its
  own key, every extension page has a name, and no two have the same (pages are dropped from the table by
  name, so one without a name, or with that of a page that was merged, would be lost).  Then each route object of a module either is an
  entry of the table or the child of exactly one menu, the built-in modules stay entries with
  all their own pages in the old order, and no attribute but a missing \<open>sort\<close> changes.\<close>

theorem extensions_placed_once:
  assumes "extensions_ok x e" "rolesRoutes x e = (rs, st)"
  shows "distinct rs \<and> length st = length (loaded x e) \<and> {..<base_count} \<subseteq> set rs
    \<and> (\<forall>j < length st. like (st ! j) (node_of (loaded x e ! j)) \<and> own_kids (kids (st ! j)) = children (loaded x e ! j)
        \<and> refs st j = (if j \<in> set rs then 0 else 1))"
  using rolesRoutes_spec [OF assms] by blast

text \<open>A page unfolds with its plain children in order.\<close>

lemma unfold_pages:
  assumes "unfold_route (Suc f) st i = Some q"
  shows "attrs q = nd_attrs (st ! i) \<and> subseq (own_kids (kids (st ! i))) (children q)"
proof -
  have "those (map (\<lambda>k. case k of Own p \<Rightarrow> Some p | Ref j \<Rightarrow> g j) ks) = Some cs \<Longrightarrow> subseq (own_kids ks) cs"
    for g :: "nat \<Rightarrow> page option" and ks cs
    by (induction ks arbitrary: cs) (auto split: kid.splits option.splits)
  with assms show ?thesis
    by (auto simp: kids_def children_def split: option.splits)
qed

text \<open>Whatever the extension modules are, as long as their files have their own keys and their pages
  their own names, a table they are merged into still has every built-in page where it was: each module is
  there with its attributes, and its own pages are among its children in the old order.\<close>

theorem extensions_keep_pages:
  assumes "extensions_ok x e" "routerArray x e = Some table" "p \<in> set (default_exports base_modules)"
  shows "\<exists>q \<in> set table. (attrs q = attrs p \<or> attrs q = attrs (sorted_page p)) \<and> subseq (children p) (children q)"
proof -
  obtain rs st where r: "rolesRoutes x e = (rs, st)" by fastforce
  note spec = rolesRoutes_spec [OF assms(1) r]
  from assms(3) obtain i where i: "i < base_count" "default_exports base_modules ! i = p"
    unfolding base_count_def by (meson in_set_conv_nth)
  then have l: "loaded x e ! i = p" "i < length st" using spec by (auto simp: base_count_def nth_append)
  with spec have n: "like (st ! i) (node_of p)" "own_kids (kids (st ! i)) = children p" "i \<in> set rs"
    using i by auto
  from assms(2) r have t: "those (map (unfold_route (Suc (length st)) st) rs) = Some table"
    by (simp add: routerArray_def del: unfold_route.simps)
  have "those xs = Some ys \<Longrightarrow> xs = map Some ys" for xs :: "page option list" and ys
    by (induction xs arbitrary: ys) (auto split: option.splits)
  from this [OF t] have m: "map (unfold_route (Suc (length st)) st) rs = map Some table" .
  with n(3) have "unfold_route (Suc (length st)) st i \<in> Some ` set table"
    by (metis image_eqI image_set)
  then obtain q where q: "q \<in> set table" "unfold_route (Suc (length st)) st i = Some q" by auto
  from unfold_pages [OF q(2)] n have "attrs q = nd_attrs (st ! i)" "subseq (children p) (children q)" by auto
  with n(1) q(1) show ?thesis by (auto simp: like_def sorted_page_def)
qed

section \<open>Enough fuel\<close>

lemma those_map_mono:
  "those (map f xs) = Some ys \<Longrightarrow> (\<And>x y. x \<in> set xs \<Longrightarrow> f x = Some y \<Longrightarrow> g x = Some y) \<Longrightarrow> those (map g xs) = Some ys"
proof (induction xs arbitrary: ys)
  case (Cons x xs)
  from Cons.prems(1) obtain z zs where z: "f x = Some z" "those (map f xs) = Some zs" "ys = z # zs"
    by (auto split: option.splits)
  from Cons.IH [OF z(2)] Cons.prems(2) have "those (map g xs) = Some zs" by auto
  with z Cons.prems(2) [of x z] show ?case by simp
qed simp

lemma unfold_Suc: "unfold_route f st i = Some q \<Longrightarrow> unfold_route (Suc f) st i = Some q"
proof (induction f arbitrary: i q)
  case (Suc f)
  show ?case
  proof (cases "nd_kids (st ! i)")
    case None
    with Suc.prems show ?thesis by simp
  next
    case (Some ks)
    let ?u = "\<lambda>f k. case k of Own p \<Rightarrow> Some p | Ref j \<Rightarrow> unfold_route f st j"
    from Suc.prems Some obtain cs where cs: "those (map (?u f) ks) = Some cs" "q = Page (nd_attrs (st ! i)) (Some cs)"
      by auto
    have "those (map (?u (Suc f)) ks) = Some cs"
      by (rule those_map_mono [OF cs(1)]) (use Suc.IH in \<open>auto split: kid.splits\<close>)
    with Some cs(2) show ?thesis by (subst unfold_route.simps(2)) simp
  qed
qed simp

lemma unfold_more: "unfold_route f st i = Some q \<Longrightarrow> f \<le> f' \<Longrightarrow> unfold_route f' st i = Some q"
  by (induction f') (auto simp: le_Suc_eq simp del: unfold_route.simps intro: unfold_Suc)

lemma those_None: "those xs = None \<longleftrightarrow> None \<in> set xs"
  by (induction xs) (auto split: option.splits)

lemma unfold_None:
  "unfold_route (Suc f) st i = None \<longleftrightarrow> (\<exists>j. Ref j \<in> set (kids (st ! i)) \<and> unfold_route f st j = None)"
proof (cases "nd_kids (st ! i)")
  case (Some ks)
  let ?u = "\<lambda>k. case k of Own p \<Rightarrow> Some p | Ref j \<Rightarrow> unfold_route f st j"
  have "None \<in> set (map ?u ks) \<longleftrightarrow> (\<exists>j. Ref j \<in> set ks \<and> unfold_route f st j = None)"
  proof
    assume "None \<in> set (map ?u ks)"
    then obtain k where "k \<in> set ks" "?u k = None" by (auto simp: image_iff)
    then show "\<exists>j. Ref j \<in> set ks \<and> unfold_route f st j = None" by (cases k rule: kid.exhaust) auto
  next
    assume "\<exists>j. Ref j \<in> set ks \<and> unfold_route f st j = None"
    then show "None \<in> set (map ?u ks)" by (force simp: image_iff)
  qed
  with Some show ?thesis by (simp add: kids_def those_None)
qed (simp add: kids_def)

definition in_range :: "store \<Rightarrow> bool" where
  "in_range st \<longleftrightarrow> (\<forall>i j. i < length st \<longrightarrow> Ref j \<in> set (kids (st ! i)) \<longrightarrow> j < length st)"

text \<open>The least fuel of a node that unfolds; some child needs exactly one less.\<close>

definition needs :: "store \<Rightarrow> nat \<Rightarrow> nat \<Rightarrow> bool" where
  "needs st i h \<longleftrightarrow> unfold_route (Suc h) st i \<noteq> None \<and> unfold_route h st i = None"

lemma needs_ex: "unfold_route f st i \<noteq> None \<Longrightarrow> \<exists>h < f. needs st i h"
proof (induction f)
  case (Suc f)
  then show ?case unfolding needs_def by (cases "unfold_route f st i = None") (auto intro: less_SucI simp del: unfold_route.simps)
qed simp

lemma needs_child:
  assumes "in_range st" "i < length st" "needs st i (Suc h)"
  shows "\<exists>j < length st. needs st j h"
proof -
  from assms(3) have n: "unfold_route (Suc h) st i = None" "unfold_route (Suc (Suc h)) st i \<noteq> None"
    by (simp_all add: needs_def del: unfold_route.simps)
  from n(1) obtain j where j: "Ref j \<in> set (kids (st ! i))" "unfold_route h st j = None"
    unfolding unfold_None by blast
  moreover have "unfold_route (Suc h) st j \<noteq> None"
    using n(2) j(1) unfold_None [of "Suc h" st i] by (auto simp del: unfold_route.simps)
  ultimately have "needs st j h" "Ref j \<in> set (kids (st ! i))" by (simp_all add: needs_def del: unfold_route.simps)
  with assms(1,2) show ?thesis by (auto simp: in_range_def)
qed

lemma needs_unique: "needs st i h \<Longrightarrow> needs st i h' \<Longrightarrow> h = h'"
proof -
  have "needs st i h \<Longrightarrow> needs st i h' \<Longrightarrow> h < h' \<Longrightarrow> False" for h h'
    unfolding needs_def using unfold_more [of "Suc h" st i _ h'] by (auto simp del: unfold_route.simps)
  then show "needs st i h \<Longrightarrow> needs st i h' \<Longrightarrow> h = h'" by (metis linorder_neqE_nat)
qed

lemma needs_all_below:
  assumes "in_range st" "i < length st" "needs st i h" "k \<le> h"
  shows "\<exists>j < length st. needs st j k"
  using assms(3,2,4)
proof (induction h arbitrary: i)
  case (Suc h)
  show ?case
  proof (cases "k = Suc h")
    case False
    from needs_child [OF assms(1) Suc.prems(2,1)] obtain j where "j < length st" "needs st j h" by blast
    with Suc.IH [of j] Suc.prems(3) False show ?thesis by simp
  qed (use Suc.prems in blast)
qed auto

lemma unfold_fuel_enough:
  assumes "in_range st" "i < length st" "unfold_route f st i = Some q"
  shows "unfold_route (length st) st i = Some q"
proof -
  from assms(3) obtain h where h: "needs st i h" using needs_ex by (metis option.distinct(1))
  have "\<forall>k \<in> {..h}. \<exists>j. j < length st \<and> needs st j k"
    using needs_all_below [OF assms(1,2) h] by auto
  then obtain g where g: "\<forall>k \<in> {..h}. g k < length st \<and> needs st (g k) k" by metis
  have "inj_on g {..h}" by (rule inj_onI) (metis g needs_unique)
  moreover have "g ` {..h} \<subseteq> {..<length st}" using g by auto
  ultimately have "card {..h} \<le> card {..<length st}" by (intro card_inj_on_le) auto
  then have "Suc h \<le> length st" by simp
  moreover obtain q' where "unfold_route (Suc h) st i = Some q'" using h unfolding needs_def by blast
  moreover have "q' = q"
    using unfold_more [OF assms(3), of "max f (Suc h)"] unfold_more [OF calculation(2), of "max f (Suc h)"] by simp
  ultimately show ?thesis using unfold_more by metis
qed

lemma refs_pos: "i < length st \<Longrightarrow> Ref j \<in> set (kids (st ! i)) \<Longrightarrow> refs st j \<noteq> 0"
proof -
  assume i: "i < length st" "Ref j \<in> set (kids (st ! i))"
  then have "count_list (kids (st ! i)) (Ref j) \<noteq> 0" by (simp add: count_list_0_iff)
  moreover from i(1) have "count_list (kids (st ! i)) (Ref j) \<in> set (map (\<lambda>nd. count_list (kids nd) (Ref j)) st)"
    unfolding set_map by (intro image_eqI [OF refl] nth_mem)
  ultimately show ?thesis by (auto simp: refs_def)
qed

text \<open>The fuel of the table is enough: a route object that unfolds with any fuel unfolds, to the same
  tree, with as much as there are objects; so the table is only undefined when route objects
  contain each other, which no serialisation or route matching survives either.\<close>

theorem router_table_fuel:
  assumes "extensions_ok x e" "rolesRoutes x e = (rs, st)" "i \<in> set rs" "unfold_route f st i = Some q"
  shows "unfold_route (Suc (length st)) st i = Some q"
proof -
  note spec = rolesRoutes_spec [OF assms(1,2)]
  have "j < length st" if "i < length st" "Ref j \<in> set (kids (st ! i))" for i j
    using refs_pos [OF that] spec by (metis linorder_not_less)
  then have "in_range st" by (simp add: in_range_def)
  moreover have "i < length st" using spec assms(3) by auto
  ultimately show ?thesis using unfold_fuel_enough assms(4) unfold_Suc by blast
qed

definition demo_extension :: "page modules" where
  "demo_extension = [(''@/xpack/routers/demo.ts'',
     Some (Page (page_at ''/xpack/demo''\<lparr>r_name := Some ''Demo'',
       r_meta := Some (no_meta\<lparr>m_parentRouteName := Some ''Log-Menu''\<rparr>)\<rparr>) None))]"

lemma demo_ok: "extensions_ok demo_extension []" "extensions_ok [] []"
  by (simp_all add: extensions_ok_def demo_extension_def base_modules_def page_at_def)

theorem extensions_placed_once_witness:
  "let (rs, st) = rolesRoutes demo_extension [] in distinct rs \<and> length st = 14 \<and> {..<base_count} \<subseteq> set rs"
proof -
  obtain rs st where r: "rolesRoutes demo_extension [] = (rs, st)" by fastforce
  have "length (loaded demo_extension []) = 14"
    by (simp add: base_exports demo_extension_def)
  with extensions_placed_once [OF demo_ok(1) r] r show ?thesis by simp
qed

theorem extensions_keep_pages_witness:
  "\<exists>q \<in> set builtin. (attrs q = attrs logsRouter \<or> attrs q = attrs (sorted_page logsRouter))
     \<and> subseq (children logsRouter) (children q)"
  by (rule extensions_keep_pages [OF demo_ok(2) routerArray_builtin]) (simp add: base_exports)

theorem router_table_fuel_witness:
  "let (rs, st) = rolesRoutes [] [] in unfold_route (Suc (length st)) st 2 = Some (sorted_page appStoreRouter)"
proof -
  obtain rs st where r: "rolesRoutes [] [] = (rs, st)" by fastforce
  then have rs: "2 \<in> set rs" "st = map (\<lambda>p. sorted_node (node_of p)) (default_exports base_modules)"
    by (auto simp: rolesRoutes_builtin)
  have "unfold_route (Suc 0) st 2 = Some (sorted_page appStoreRouter)"
    using unfold_sorted [of "[2]" "default_exports base_modules" 0] rs(2) by (simp add: base_exports split: option.splits)
  from router_table_fuel [OF demo_ok(2) r rs(1) this] r show ?thesis by simp
qed

end
