(* ===== verification/RouterProps.thy ===== *)
theory RouterProps
  imports RouteMap RouteGuard
begin

text \<open>
  What the route table means for the navigation guard, and what the merge of extension modules
  keeps.
\<close>

section \<open>Navigation through the built-in table\<close>

text \<open>What the access checks read of a chain's merged \<open>meta\<close> and of its records.\<close>

definition record_of :: "string \<times> page_attrs \<Rightarrow> route_record" where
  "record_of pa = (let (p, a) = pa in
     \<lparr>rec_path = lit p,
      rec_meta = map_option (\<lambda>m. \<lparr>adminOnly = (m_adminOnly m = Some True),
         protectedRoleOnly = (m_protectedRoleOnly m = Some True), permission = map_option perm_of (m_permission m),
         activeMenu = lit (case m_activeMenu m of None \<Rightarrow> [] | Some s \<Rightarrow> s),
         ignoreTab = (m_ignoreTab m = Some True)\<rparr>) (r_meta a)\<rparr>)"

definition meta_of :: "chain \<Rightarrow> route_meta" where
  "meta_of c =
     \<lparr>adminOnly = (chain_meta c m_adminOnly = Some True),
      protectedRoleOnly = (chain_meta c m_protectedRoleOnly = Some True),
      permission = map_option perm_of (chain_meta c m_permission),
      activeMenu = lit (case chain_meta c m_activeMenu of None \<Rightarrow> [] | Some s \<Rightarrow> s),
      ignoreTab = (chain_meta c m_ignoreTab = Some True)\<rparr>"

text \<open>A location resolved by the router: a chain of the table matched it, and a path that the table
  spells out leads to the page of that path.\<close>

definition routed :: "page list \<Rightarrow> route \<Rightarrow> bool" where
  "routed table to \<longleftrightarrow>
     (\<exists>c \<in> set (table_chains table).
        matched to = map record_of c \<and> rt_meta to = meta_of c \<and> rt_name to = map_option lit (r_name (snd (last c)))
        \<and> (\<forall>p \<in> set (view_paths table). rt_path to = lit p \<longrightarrow> fst (last c) = p))"

text \<open>A user without rights on the current node.\<close>

definition no_rights :: "global_state \<Rightarrow> bool" where
  "no_rights g \<longleftrightarrow> \<not> isAdmin g \<and> \<not> isNodeAdmin g \<and> permissions g = []"

lemma lit_eq_iff [simp]: "lit s = lit t \<longleftrightarrow> s = t"
  by (simp add: lit_def inj_map_eq_map [OF inj_of_char])

lemma lit_Nil_iff [simp]: "lit s = [] \<longleftrightarrow> s = []" "[] = lit s \<longleftrightarrow> s = []"
  by (simp_all add: lit_def)

lemma no_rights_permitted: "no_rights g \<Longrightarrow> \<not> permitted p g"
  by (simp add: no_rights_def permitted_def Let_def)

lemma no_rights_record:
  assumes "no_rights g"
  shows "hasRouteRoleAccess (rec_meta (record_of (p, a))) g \<and> meta_permitted (meta_permission (record_of (p, a))) g
    \<longleftrightarrow> \<not> needs_rights a"
  using assms no_rights_permitted [OF assms]
  by (auto simp: record_of_def hasRouteRoleAccess_def meta_permission_def meta_permitted_def needs_rights_def
      no_rights_def perm_of_def filter_empty_conv split: option.splits permission_code.splits)

lemma no_rights_open:
  assumes "no_rights g" "matched to = map record_of c"
  shows "route_open to g \<longleftrightarrow> free_chain c"
  using no_rights_record [OF assms(1)] assms(2)
  by (fastforce simp: route_open_def free_chain_def list_all_iff)

text \<open>The pages of the built-in table that ask for no right at all.\<close>

definition free_pages :: "string list" where
  "free_pages =
     [''Home-Menu'', ''home'', ''login'', ''file-share'', ''entrance'', ''404'',
      ''Website-Menu'', ''AI-Menu'', ''System-Menu'', ''Advanced-Menu'',
      ''AdvancedWebsiteMonitor'', ''AdvancedWebsiteMonitorDashboard'', ''AdvancedWebsiteMonitorRank'',
      ''AdvancedWebsiteMonitorTrend'', ''AdvancedWebsiteMonitorLog'', ''AdvancedWebsiteMonitorWebsites'',
      ''AdvancedWebsiteMonitorSetting'',
      ''AdvancedWaf'', ''AdvancedWafOverview'', ''AdvancedWafAttack'', ''AdvancedWafIntercept'',
      ''AdvancedWafBlock'', ''AdvancedWafBlackWhite'', ''AdvancedWafWebsites'', ''AdvancedWafGlobal'',
      ''AdvancedMultiNode'']"

lemma free_views:
  "list_all (\<lambda>(p, n, e, x). e \<longleftrightarrow> (case n of None \<Rightarrow> True | Some n \<Rightarrow> n \<in> set free_pages))
     (map chain_view (table_chains (routes builtin)))"
  unfolding builtin_views free_pages_def by code_simp

definition free_name :: "jstring option \<Rightarrow> bool" where
  "free_name n \<longleftrightarrow> (case n of None \<Rightarrow> True | Some n \<Rightarrow> n \<in> lit ` set free_pages)"

lemma free_chain_name:
  assumes "c \<in> set (table_chains (routes builtin))"
  shows "free_chain c \<longleftrightarrow> free_name (map_option lit (r_name (snd (last c))))"
  using builtin_all [OF free_views assms]
  by (auto simp: chain_view_def free_name_def split: prod.splits option.splits)

definition home_chain :: chain where
  "home_chain = [(''/'', attrs homeRouter), (''/'', attrs (hd (the (subpages homeRouter))))]"

definition home_route :: route where
  "home_route = \<lparr>rt_name = Some (lit ''home''), rt_path = lit ''/'', rt_meta = meta_of home_chain,
     matched = map record_of home_chain, rt_hash = [], query = [], code_param = None\<rparr>"

lemma home_routed: "routed (routes array) home_route"
proof -
  have "home_chain \<in> set (page_chains [] homeRouter)"
    by (simp add: home_chain_def homeRouter_def page_at_def full_path_def Let_def)
  then have "home_chain \<in> set (table_chains (routes array))"
    by (simp add: table_chains_def routes_def)
  then show ?thesis
    unfolding routed_def
    by (rule bexI [rotated]) (simp_all add: home_route_def home_chain_def homeRouter_def page_at_def del: lit_simps)
qed

lemma home_allowed:
  "fst (beforeEach (Status None True) (\<lambda>t. t) (\<lambda>p. home_route) home_route home_route signed_in) = Allow"
  by (simp add: beforeEach_def guard_login_def logged_in_def signed_in_def setLogStatus_def asks_gateway_def
      home_route_def name_text_def gateway_check_def guard_rest_def guard_gate_def guard_path_def
      compatPath_def startsWith_def has_query_def use_remembered_def guard_access_def hasRouteAccess_def
      hasRoutePermissionAccess_def home_chain_def homeRouter_def page_at_def no_meta_def record_of_def meta_of_def
      chain_meta_def hasRouteRoleAccess_def meta_permission_def hasPermissionMetaAccess_def)

lemma signed_in_inv: "app_inv (nav_app signed_in)"
  using app_step_inv [OF initial_app_inv, of "LogStatus True"] by (simp add: signed_in_def)

lemma beforeEach_gs:
  assumes "app_inv (nav_app s)" "logged_in s" "beforeEach gw (\<lambda>t. t) resolve to from s = (Allow, s')"
  shows "gs (nav_app s') = gs (nav_app s)"
proof -
  have g: "guard_login to s = (None, s)" using assms(2) by (simp add: guard_login_def)
  show ?thesis
  proof (cases "asks_gateway to s")
    case True
    with assms g gateway_check_cases [of gw s] show ?thesis
      by (auto simp: beforeEach_def dest: guard_rest_allows(3) [OF assms(1)])
  next
    case False
    with assms g show ?thesis by (auto simp: beforeEach_def dest: guard_rest_allows(3) [OF assms(1)])
  qed
qed

text \<open>Whatever happens while the guard waits for the gateway, a navigation that it allows to a user without
  rights is to a free page or to one of the two targets that are let through unchecked.\<close>

lemma pages_without_rights_safe:
  assumes "app_inv (nav_app s)" "\<And>t. app_inv (nav_app t) \<Longrightarrow> app_inv (nav_app (meanwhile t))"
    and "beforeEach gw meanwhile resolve to from s = (Allow, s')"
    and "routed (routes builtin) to" "no_rights (gs (nav_app s'))"
  shows "(route_open to (gs (nav_app s')) \<longleftrightarrow> free_name (rt_name to)) \<and> (let_through to \<or> free_name (rt_name to))"
proof -
  from assms(4) obtain c where c: "c \<in> set (table_chains (routes builtin))" "matched to = map record_of c"
    "rt_name to = map_option lit (r_name (snd (last c)))"
    by (auto simp: routed_def)
  have "route_open to (gs (nav_app s')) \<longleftrightarrow> free_name (rt_name to)"
    unfolding no_rights_open [OF assms(5) c(2)] c(3) by (rule free_chain_name [OF c(1)])
  moreover have "let_through to \<or> route_open to (gs (nav_app s'))"
    using beforeEach_allows [OF assms(1,2,3)] by blast
  ultimately show ?thesis by blast
qed

lemma no_rights_route:
  assumes "routed (routes builtin) to" "no_rights g"
  shows "route_open to g \<longleftrightarrow> free_name (rt_name to)"
proof -
  from assms(1) obtain c where c: "c \<in> set (table_chains (routes builtin))" "matched to = map record_of c"
    "rt_name to = map_option lit (r_name (snd (last c)))"
    by (auto simp: routed_def)
  show ?thesis unfolding no_rights_open [OF assms(2) c(2)] c(3) by (rule free_chain_name [OF c(1)])
qed

lemma signed_in_guard:
  assumes "logged_in s" "gateway_open gw"
  shows "beforeEach gw (\<lambda>t. t) resolve to from s = guard_rest resolve True to from s"
proof -
  have "guard_login to s = (None, s)" using assms(1) by (simp add: guard_login_def)
  moreover have "gateway_check gw s = (Inr True, s)"
    using assms(2) by (auto simp: gateway_check_def gateway_open_def split: gateway.splits)
  ultimately show ?thesis by (simp add: beforeEach_def)
qed

text \<open>Nothing is remembered under the menu entry of the target that the guard would go to instead.\<close>

definition nothing_remembered :: "route \<Rightarrow> route \<Rightarrow> nav_state \<Rightarrow> bool" where
  "nothing_remembered to from s \<longleftrightarrow> localStorage s (activeMenuKey to) = None \<or> isRedirecting s \<or>
     activeMenu (rt_meta to) = activeMenu (rt_meta from)"

lemma guard_path_plain:
  assumes "app_inv (nav_app s)" "compatPath (rt_path to) = rt_path to" "\<not> has_query ''uncached'' to"
    and "nothing_remembered to from s"
  shows "fst (guard_path resolve to from s) = (if let_through to \<or> route_open to (gs (nav_app s)) then Allow else Refuse)"
proof (cases "let_through to")
  case True
  with assms(2) show ?thesis by (auto simp: guard_path_def let_through_def simp del: lit_simps)
next
  case False
  have u: "use_remembered resolve to from s = (None, s)"
    using assms(4) by (auto simp: use_remembered_def nothing_remembered_def split: option.splits)
  have "guard_path resolve to from s = guard_access to s"
    using False assms(2,3) by (auto simp: guard_path_def let_through_def u simp del: lit_simps)
  moreover obtain r s' where g: "guard_access to s = (r, s')" by fastforce
  ultimately show ?thesis using guard_access_cases [OF assms(1) g] False by auto
qed

text \<open>C30: What the guard answers to a signed-in user without rights on the current node, for a page of the
  built-in table, once the gateway is bound: \<open>login\<close> and the binding page send on to \<open>home\<close>, the
  entrance page to \<open>home\<close> or to \<open>404\<close> by its code; of the other pages exactly those of
  \<open>free_pages\<close> (and the nameless layout and fallback records) are opened, with the two targets that
  are let through unchecked; all others are refused.  The location is not one of the old paths that
  are rewritten, nor marked \<open>uncached\<close>, and no page is remembered under its menu entry.\<close>

theorem pages_without_rights:
  assumes "app_inv (nav_app s)" "logged_in s" "no_rights (gs (nav_app s))" "gateway_open gw"
    and "routed (routes builtin) to" "compatPath (rt_path to) = rt_path to" "\<not> has_query ''uncached'' to"
    and "nothing_remembered to from s"
  shows "fst (beforeEach gw (\<lambda>t. t) resolve to from s) =
    (if rt_name to = Some (lit ''login'') \<or> rt_name to = Some (lit ''GatewayBind'') then ToName ''home'' None
     else if rt_name to = Some (lit ''entrance'')
       then ToName (if code_param to = Some (entrance (gs (nav_app s))) then ''home'' else ''404'') None
     else if let_through to \<or> free_name (rt_name to) then Allow else Refuse)"
proof -
  have bind: "name_text to = lit ''GatewayBind'' \<longleftrightarrow> rt_name to = Some (lit ''GatewayBind'')"
    by (auto simp: name_text_def split: option.splits)
  show ?thesis
    unfolding signed_in_guard [OF assms(2,4)] guard_rest_def guard_gate_def bind
    using assms(2) guard_path_plain [OF assms(1,6-8), of resolve] no_rights_route [OF assms(5,3)]
    by (simp add: entrance_code_def del: lit_simps)
qed

theorem pages_without_rights_witness:
  "fst (beforeEach (Status None True) (\<lambda>t. t) (\<lambda>p. home_route) home_route home_route signed_in) = Allow"
proof -
  have "no_rights (gs (nav_app signed_in))" "logged_in signed_in" "gateway_open (Status None True)"
    by (simp_all add: no_rights_def signed_in_def setLogStatus_def initial_app_def initial_global_def isNodeAdmin_def
        logged_in_def gateway_open_def)
  moreover have "compatPath (rt_path home_route) = rt_path home_route" "\<not> has_query ''uncached'' home_route"
    "nothing_remembered home_route home_route signed_in" "rt_name home_route = Some (lit ''home'')"
    by (simp_all add: home_route_def compatPath_def startsWith_def has_query_def nothing_remembered_def)
  moreover have "free_name (Some (lit ''home''))" by (simp add: free_name_def free_pages_def del: lit_simps)
  ultimately show ?thesis
    using pages_without_rights [OF signed_in_inv _ _ _ home_routed, of "Status None True" home_route "\<lambda>p. home_route"]
    by (simp del: lit_simps)
qed

lemma remembered_views:
  "list_all (\<lambda>(p, n, e, r, m, i, d).
      (p = ''/cronjobs/cronjob/operate'' \<or> p = ''/containers/container/operate'' \<or> p = ''/toolbox/clam/setting'' \<longrightarrow> i)
      \<and> (n = Some ''GatewayBind'' \<longrightarrow> d \<and> p = ''/settings/bind''))
     (map chain_view (table_chains (routes builtin)))"
  unfolding builtin_views by code_simp

lemma some_paths:
  "list_all (\<lambda>p. p \<in> set (view_paths (routes builtin)))
     [''/cronjobs/cronjob/operate'', ''/containers/container/operate'', ''/toolbox/clam/setting'', ''/apps/all'']"
  unfolding view_paths_alt builtin_views by code_simp

lemma admin_record:
  "r_meta a = Some m \<Longrightarrow> m_adminOnly m = Some True \<Longrightarrow> hasRouteRoleAccess (rec_meta (record_of (p, a))) g = isAdmin g"
  by (simp add: record_of_def hasRouteRoleAccess_def)

text \<open>While the gateway still has to be bound, the pages that ask for it are closed to everybody but
  administrators: the guard allows the binding page only, and that to administrators only.\<close>

theorem unbound_needs_admin:
  assumes "app_inv (nav_app s)" "\<And>t. app_inv (nav_app t) \<Longrightarrow> app_inv (nav_app (meanwhile t))"
    and "beforeEach gw meanwhile resolve to from s = (Allow, s')"
    and "routed (routes builtin) to" "asks_gateway to s" "logged_in s'" "\<not> gateway_open gw"
  shows "rt_name to = Some (lit ''GatewayBind'') \<and> isAdmin (gs (nav_app s'))"
proof -
  note allowed = beforeEach_allows [OF assms(1-3)]
  with assms(5-7) have "name_text to = lit ''GatewayBind''" by blast
  then have n: "rt_name to = Some (lit ''GatewayBind'')"
    by (simp add: name_text_def split: option.splits)
  from assms(4) obtain c where c: "c \<in> set (table_chains (routes builtin))" "matched to = map record_of c"
    "rt_name to = map_option lit (r_name (snd (last c)))"
    "\<forall>p \<in> set (view_paths (routes builtin)). rt_path to = lit p \<longrightarrow> fst (last c) = p"
    by (auto simp: routed_def)
  from n c(3) have "r_name (snd (last c)) = Some ''GatewayBind''" by (auto simp del: lit_simps)
  with builtin_all [OF remembered_views c(1)]
  have admin: "list_ex (\<lambda>(p, a). case r_meta a of None \<Rightarrow> False | Some m \<Rightarrow> m_adminOnly m = Some True) c"
    and "fst (last c) = ''/settings/bind''"
    by (auto simp: chain_view_def split: prod.splits)
  with c(4) some_paths have "rt_path to \<noteq> lit ''/apps/all''" by (auto simp del: lit_simps)
  with n have "\<not> let_through to" by (simp add: let_through_def del: lit_simps)
  with allowed have "route_open to (gs (nav_app s'))" by blast
  moreover from admin obtain p a m where "(p, a) \<in> set c" "r_meta a = Some m" "m_adminOnly m = Some True"
    by (auto simp: list_ex_iff split: option.splits)
  ultimately have "isAdmin (gs (nav_app s'))"
    using c(2) admin_record [of a m p "gs (nav_app s')"] by (force simp: route_open_def)
  with n show ?thesis by simp
qed

definition bind_chain :: chain where
  "bind_chain = page_chains [] (sorted_page settingRouter) ! 3"

definition bind_route :: route where
  "bind_route = \<lparr>rt_name = Some (lit ''GatewayBind''), rt_path = lit ''/settings/bind'', rt_meta = meta_of bind_chain,
     matched = map record_of bind_chain, rt_hash = [], query = [], code_param = None\<rparr>"

definition admin_in :: nav_state where
  "admin_in = signed_in\<lparr>nav_app := (nav_app signed_in)\<lparr>gs := (gs (nav_app signed_in))\<lparr>isAdmin := True\<rparr>\<rparr>\<rparr>"

lemma bind_records:
  "map record_of bind_chain =
     [record_of (''/settings'', attrs settingRouter), record_of (''/settings'', attrs (hd (the (subpages settingRouter)))),
      record_of (''/settings/bind'', attrs (the (subpages (hd (the (subpages settingRouter)))) ! 1))]"
  by (simp add: bind_chain_def settingRouter_def sorted_page_def page_at_def full_path_def Let_def record_of_def)

lemma bind_last: "last bind_chain = (''/settings/bind'', attrs (the (subpages (hd (the (subpages settingRouter)))) ! 1))"
  by (simp add: bind_chain_def settingRouter_def sorted_page_def page_at_def full_path_def Let_def)

lemma bind_routed: "routed (routes builtin) bind_route"
proof -
  have "length (page_chains [] (sorted_page settingRouter)) = 10"
    by (simp add: settingRouter_def sorted_page_def Let_def)
  then have "bind_chain \<in> set (page_chains [] (sorted_page settingRouter))"
    by (simp add: bind_chain_def)
  then have "bind_chain \<in> set (table_chains (routes builtin))"
    by (simp add: table_chains_def routes_def builtin_def raw_table_def)
  then show ?thesis
    unfolding routed_def
    by (rule bexI [rotated])
      (simp_all add: bind_route_def bind_last settingRouter_def page_at_def del: lit_simps)
qed

lemma admin_in_inv: "app_inv (nav_app admin_in)"
  using signed_in_inv by (simp add: admin_in_def app_inv_def)

lemma bind_open: "route_open bind_route (gs (nav_app admin_in))"
proof -
  have a: "isAdmin (gs (nav_app admin_in))" "masterOnlyPermissions (gs (nav_app admin_in)) = []"
    by (simp_all add: admin_in_def signed_in_def setLogStatus_def initial_app_def initial_global_def)
  then have "permitted (lit ''alert_view'') (gs (nav_app admin_in))"
    by (simp add: permitted_def restricted_def Let_def trim_eq_Nil_iff is_space_def)
  then show ?thesis
    unfolding route_open_def bind_route_def route.simps bind_records using a
    by (simp add: record_of_def hasRouteRoleAccess_def settingRouter_def settingPermissions_def perm_of_def
        page_at_def no_meta_def meta_permission_def meta_permitted_def del: lit_simps)
qed

lemma bind_allowed:
  "fst (beforeEach (Status None False) (\<lambda>t. t) (\<lambda>p. bind_route) bind_route bind_route admin_in) = Allow"
proof -
  obtain a where "hasRouteAccess bind_route (nav_app admin_in) = (True, a)"
    using access_query(1) [OF admin_in_inv, of bind_route] bind_open by (metis prod.collapse)
  moreover have "activeMenu (rt_meta bind_route) = []"
    by (simp add: bind_route_def meta_of_def bind_chain_def settingRouter_def sorted_page_def page_at_def
        chain_meta_def Let_def no_meta_def)
  moreover have "logged_in admin_in" "localStorage admin_in = Map.empty" "rt_name bind_route = Some (lit ''GatewayBind'')"
    "rt_path bind_route = lit ''/settings/bind''" "query bind_route = []"
    by (simp_all add: admin_in_def signed_in_def logged_in_def setLogStatus_def bind_route_def del: lit_simps)
  ultimately show ?thesis
    by (simp add: beforeEach_def guard_login_def asks_gateway_def name_text_def gateway_check_def guard_rest_def
        guard_gate_def guard_path_def compatPath_def startsWith_def has_query_def use_remembered_def
        guard_access_def Let_def split: prod.splits)
qed

theorem unbound_needs_admin_witness:
  "rt_name bind_route = Some (lit ''GatewayBind'') \<and> isAdmin (gs (nav_app admin_in))"
proof -
  let ?gw = "Status None False"
  obtain r s' where b: "beforeEach ?gw (\<lambda>t. t) (\<lambda>p. bind_route) bind_route bind_route admin_in = (r, s')"
    by fastforce
  with bind_allowed have r: "r = Allow" by simp
  have l: "logged_in admin_in" "asks_gateway bind_route admin_in" "\<not> gateway_open ?gw"
    by (simp_all add: admin_in_def signed_in_def logged_in_def setLogStatus_def asks_gateway_def name_text_def
        bind_route_def gateway_open_def)
  from beforeEach_gs [OF admin_in_inv l(1)] b r have g: "gs (nav_app s') = gs (nav_app admin_in)" by blast
  with l(1) have "logged_in s'" by (simp add: logged_in_def)
  from unbound_needs_admin [OF admin_in_inv _ _ bind_routed l(2) this l(3), of "\<lambda>t. t"] b r g
  show ?thesis by simp
qed

section \<open>Redirections\<close>










text \<open>A page of the built-in table is remembered under its menu entry by its own path: the three
  special cases of the hook are never taken, since the pages they name are not remembered at all.\<close>

theorem afterEach_own_path:
  assumes "routed (routes builtin) to"
  shows "afterEach to s = s\<lparr>isRedirecting := False, localStorage :=
     (if activeMenu (rt_meta to) \<noteq> [] \<and> \<not> ignoreTab (rt_meta to) \<and> \<not> isRedirecting s
        \<and> \<not> list_ex (\<lambda>record. str_includes (rec_path record) (lit '':'')) (matched to)
      then (localStorage s)(activeMenuKey to \<mapsto> rt_path to) else localStorage s)\<rparr>"
proof -
  from assms obtain c where c: "c \<in> set (table_chains (routes builtin))" "rt_meta to = meta_of c"
    "\<forall>p \<in> set (view_paths (routes builtin)). rt_path to = lit p \<longrightarrow> fst (last c) = p"
    by (auto simp: routed_def)
  have "ignoreTab (rt_meta to)" if "rt_path to = lit p"
    "p \<in> {''/cronjobs/cronjob/operate'', ''/containers/container/operate'', ''/toolbox/clam/setting''}" for p
  proof -
    from that(2) some_paths have "p \<in> set (view_paths (routes builtin))" by auto
    with c(3) that(1) have "fst (last c) = p" by blast
    with builtin_all [OF remembered_views c(1)] that(2) show ?thesis
      by (auto simp: chain_view_def c(2) meta_of_def split: prod.splits)
  qed
  then have "remembered_path to = rt_path to" if "\<not> ignoreTab (rt_meta to)"
    using that by (auto simp: remembered_path_def Let_def simp del: lit_simps)
  then show ?thesis by (simp add: afterEach_def Let_def del: lit_simps)
qed

definition guard_chain :: chain where
  "guard_chain = page_chains [] (sorted_page hostRouter) ! 5"

definition guard_route :: route where
  "guard_route = \<lparr>rt_name = Some (lit ''FirewallDockerGuard''), rt_path = lit ''/hosts/firewall/docker'',
     rt_meta = meta_of guard_chain, matched = map record_of guard_chain, rt_hash = [], query = [], code_param = None\<rparr>"

lemma guard_chain_eq:
  "guard_chain = [(''/hosts'', attrs (sorted_page hostRouter)), (''/hosts/firewall/docker'', attrs (hostRouter_children ! 4))]"
  by (simp add: guard_chain_def hostRouter_def hostRouter_children_def sorted_page_def page_at_def full_path_def Let_def)

lemma guard_routed: "routed (routes builtin) guard_route"
proof -
  have "length (page_chains [] (sorted_page hostRouter)) = 14"
    by (simp add: hostRouter_def hostRouter_children_def sorted_page_def Let_def)
  then have "guard_chain \<in> set (page_chains [] (sorted_page hostRouter))"
    by (simp add: guard_chain_def)
  then have "guard_chain \<in> set (table_chains (routes builtin))"
    by (simp add: table_chains_def routes_def builtin_def raw_table_def)
  then show ?thesis
    unfolding routed_def
    by (rule bexI [rotated])
      (simp_all add: guard_route_def guard_chain_eq hostRouter_children_def page_at_def del: lit_simps)
qed

theorem afterEach_own_path_witness:
  "localStorage (afterEach guard_route signed_in) (lit ''cachedRoute/hosts/firewall/rules'')
    = Some (lit ''/hosts/firewall/docker'')"
  unfolding afterEach_own_path [OF guard_routed]
  by (simp add: guard_route_def guard_chain_eq hostRouter_children_def hostRouter_def sorted_page_def page_at_def
      no_meta_def meta_of_def chain_meta_def record_of_def signed_in_def activeMenuKey_def str_includes_single)

section \<open>Pages kept alive\<close>

fun pages_of :: "page \<Rightarrow> page_attrs list" where
  "pages_of (Page a cs) = a # concat (map pages_of (case cs of None \<Rightarrow> [] | Some cs \<Rightarrow> cs))"

definition cached_name :: "page_attrs \<Rightarrow> string option" where
  "cached_name a = (case r_meta a of None \<Rightarrow> None
     | Some m \<Rightarrow> if m_keepAlive m = Some True then truthy (r_name a) else None)"

lemma fold_append: "(\<And>x c. x \<in> set xs \<Longrightarrow> f x c = c @ g x) \<Longrightarrow> fold f xs c = c @ concat (map g xs)"
  by (induction xs arbitrary: c) simp_all

lemma map_filter_append: "List.map_filter f (xs @ ys) = List.map_filter f xs @ List.map_filter f ys"
  by (induction xs) (simp_all add: map_filter_simps split: option.splits)

lemma map_filter_concat:
  "List.map_filter f (concat (map g xs)) = concat (map (\<lambda>x. List.map_filter f (g x)) xs)"
  by (induction xs) (simp_all add: map_filter_append map_filter_simps(2))

lemma filterKeepAlive_eq: "filterKeepAlive p cache = cache @ List.map_filter cached_name (pages_of p)"
proof (induction p arbitrary: cache rule: pages_of.induct)
  case (1 a cs)
  have own: "(case r_meta a of
        Some m \<Rightarrow> if m_keepAlive m = Some True then cache @ case_option [] (\<lambda>n. [n]) (truthy (r_name a)) else cache
      | None \<Rightarrow> cache) = cache @ List.map_filter cached_name [a]"
    by (simp add: cached_name_def map_filter_simps split: option.splits)
  show ?case
  proof (cases cs)
    case None
    with own show ?thesis by (simp add: map_filter_simps)
  next
    case (Some ps)
    with 1 have "fold filterKeepAlive ps c = c @ concat (map (\<lambda>p. List.map_filter cached_name (pages_of p)) ps)" for c
      by (intro fold_append) simp
    with own Some show ?thesis
      by (simp add: Let_def map_filter_simps map_filter_concat split: option.splits)
  qed
qed

lemma cacheRouter_eq: "cacheRouter array = List.map_filter cached_name (concat (map pages_of array))"
  unfolding cacheRouter_def
  by (subst fold_append [where g = "\<lambda>p. List.map_filter cached_name (pages_of p)"])
    (simp_all add: filterKeepAlive_eq map_filter_concat)

lemma cached_sorted: "filterKeepAlive (sorted_page p) = filterKeepAlive p"
  by (rule ext, cases p) (simp add: sorted_page_def Let_def cong: option.case_cong if_cong)

lemma cached_builtin: "cacheRouter builtin = [''Process'', ''SSH'', ''Terminal'']"
proof -
  have "fold filterKeepAlive (map sorted_page ps) c = fold filterKeepAlive ps c" for ps c
    by (induction ps arbitrary: c) (simp_all add: cached_sorted)
  moreover have "cacheRouter raw_table = [''Process'', ''SSH'', ''Terminal'']"
    by code_simp
  ultimately show ?thesis by (simp only: cacheRouter_def builtin_def)
qed

text \<open>The pages kept alive are those marked so in the modules, in the order of the table, whatever
  their depth; with the built-in modules these are three, and \<open>home\<close>, marked as well, is not among
  them because its record is not part of the array.\<close>

theorem cacheRouter_marked:
  "cacheRouter array = List.map_filter cached_name (concat (map pages_of array))
   \<and> cacheRouter builtin = [''Process'', ''SSH'', ''Terminal'']"
  using cacheRouter_eq cached_builtin by simp

end
