(* ===== verification/Menu.thy ===== *)
theory Menu
  imports Extension PermissionProps
begin

text \<open>
  The side menu: \<^verbatim>\<open>src/web/src/layout/components/Sidebar/index.vue\<close> with
  \<^verbatim>\<open>Sidebar/components/SubItem.vue\<close> and \<^verbatim>\<open>src/web/src/store/modules/menu.ts\<close>.  Checks of
  permissions thread the application state; an assignment to a missing \<open>meta\<close> and the
  serialisation of a cyclic tree throw.  The answer of the settings endpoint and \<open>JSON.parse\<close> of the
  saved configuration are arguments.
\<close>

section \<open>Results that may throw\<close>

datatype 'a outcome = Throw | Ret 'a

fun on_ret :: "'a outcome \<Rightarrow> ('a \<Rightarrow> 'b outcome) \<Rightarrow> 'b outcome" where
  "on_ret Throw f = Throw"
| "on_ret (Ret x) f = f x"

text \<open>\<open>list.map(f).filter(Boolean)\<close>\<close>

fun each :: "('x \<Rightarrow> app \<Rightarrow> 'y option outcome \<times> app) \<Rightarrow> 'x list \<Rightarrow> app \<Rightarrow> 'y list outcome \<times> app" where
  "each f [] s = (Ret [], s)"
| "each f (x # xs) s =
     (case f x s of
        (Throw, s) \<Rightarrow> (Throw, s)
      | (Ret y, s) \<Rightarrow>
          (case each f xs s of
             (Throw, s) \<Rightarrow> (Throw, s)
           | (Ret ys, s) \<Rightarrow> (Ret (case y of None \<Rightarrow> ys | Some y \<Rightarrow> y # ys), s)))"

lemma each_cong [fundef_cong]:
  assumes "xs = ys" "s = t" "\<And>x s. x \<in> set ys \<Longrightarrow> f x s = g x s"
  shows "each f xs s = each g ys t"
  using assms(3) unfolding assms(1,2)
  by (induction ys arbitrary: t) (auto split: prod.splits outcome.splits)

section \<open>What a menu item asks for\<close>

definition access_meta :: "page_attrs \<Rightarrow> route_meta option" where
  "access_meta a = map_option (\<lambda>m. \<lparr>adminOnly = (m_adminOnly m = Some True),
     protectedRoleOnly = (m_protectedRoleOnly m = Some True), permission = map_option perm_of (m_permission m),
     activeMenu = lit (case m_activeMenu m of None \<Rightarrow> [] | Some s \<Rightarrow> s),
     ignoreTab = (m_ignoreTab m = Some True)\<rparr>) (r_meta a)"

definition allowMenuItem :: "page_attrs \<Rightarrow> app \<Rightarrow> bool \<times> app" where
  "allowMenuItem item s =
     (if \<not> hasRouteRoleAccess (access_meta item) (gs s) then (False, s)
      else hasPermissionMetaAccess (case access_meta item of None \<Rightarrow> None | Some m \<Rightarrow> permission m) s)"

text \<open>A menu with a single entry shows that entry's icon and title.\<close>

definition put_meta :: "(page_meta \<Rightarrow> page_meta) \<Rightarrow> page_attrs \<Rightarrow> page_attrs outcome" where
  "put_meta f a = (case r_meta a of None \<Rightarrow> Throw | Some m \<Rightarrow> Ret (a\<lparr>r_meta := Some (f m)\<rparr>))"

definition adopt_only_child :: "page list \<Rightarrow> page_attrs \<Rightarrow> page_attrs outcome" where
  "adopt_only_child cs a =
     (case cs of
        [onlyChild] \<Rightarrow>
          on_ret (case meta_field m_icon (attrs onlyChild) of None \<Rightarrow> Ret a
                  | Some i \<Rightarrow> put_meta (\<lambda>m. m\<lparr>m_icon := Some i\<rparr>) a)
            (\<lambda>a. case meta_field m_title (attrs onlyChild) of None \<Rightarrow> Ret a
                  | Some t \<Rightarrow> put_meta (\<lambda>m. m\<lparr>m_title := Some t\<rparr>) a)
      | _ \<Rightarrow> Ret a)"

definition finish_item :: "page_attrs \<Rightarrow> page list \<Rightarrow> page option outcome" where
  "finish_item a cs =
     (if cs = [] then Ret None
      else on_ret (adopt_only_child cs a)
        (\<lambda>a. on_ret (if r_name a = Some ''Xpack-Menu'' then put_meta (\<lambda>m. m\<lparr>m_hideInSidebar := Some False\<rparr>) a else Ret a)
          (\<lambda>a. Ret (Some (Page a (Some cs))))))"

section \<open>The default menu\<close>

text \<open>An item is copied by a JSON round trip before it is changed; a copy of a copy is the copy, so
  the recursion goes over the children of the original.\<close>

fun auth_item :: "page \<Rightarrow> app \<Rightarrow> page option outcome \<times> app" where
  "auth_item (Page a cs) s =
     (case allowMenuItem a s of
        (False, s) \<Rightarrow> (Ret None, s)
      | (True, s) \<Rightarrow>
          (case cs of
             None \<Rightarrow> (Ret (Some (Page (json_attrs a) None)), s)
           | Some [] \<Rightarrow> (Ret (Some (Page (json_attrs a) (Some []))), s)
           | Some (c # cs) \<Rightarrow>
               (case each auth_item (c # cs) s of
                  (Throw, s) \<Rightarrow> (Throw, s)
                | (Ret cs', s) \<Rightarrow> (finish_item (json_attrs a) cs', s))))"

definition buildAuthVisibleMenuList :: "page list \<Rightarrow> app \<Rightarrow> page list outcome \<times> app" where
  "buildAuthVisibleMenuList source s = each auth_item source s"

section \<open>The menu of the saved settings\<close>

text \<open>An entry of the saved configuration, as far as the menu reads it.\<close>

datatype menu_setting = Setting (st_label: "string option") (st_isShow: bool) (st_children: "menu_setting list option")

fun getCheckedLabels :: "menu_setting \<Rightarrow> string option list" where
  "getCheckedLabels (Setting label isShow cs) =
     (if isShow then [label] else []) @ concat (map getCheckedLabels (case cs of None \<Rightarrow> [] | Some cs \<Rightarrow> cs))"

fun getAlwaysVisibleNames :: "page \<Rightarrow> string option list" where
  "getAlwaysVisibleNames (Page a cs) =
     (case r_meta a of
        Some m \<Rightarrow> if m_alwaysVisible m = Some True \<and> truthy (r_name a) \<noteq> None then [r_name a] else []
      | None \<Rightarrow> []) @ concat (map getAlwaysVisibleNames (case cs of None \<Rightarrow> [] | Some cs \<Rightarrow> cs))"

text \<open>The item and its surroundings: \<open>isIntl\<close>, \<open>isEE\<close> and \<open>isAdmin\<close> of the store.\<close>

definition edition_hides :: "page_attrs \<Rightarrow> global_state \<Rightarrow> bool" where
  "edition_hides a g \<longleftrightarrow>
     r_name a = Some ''Upage'' \<and> (isIntl g \<or> (isEE g \<and> \<not> isAdmin g)) \<or> r_name a = Some ''XApp'' \<and> isIntl g"

fun visible_item :: "string option set \<Rightarrow> page \<Rightarrow> app \<Rightarrow> page option outcome \<times> app" where
  "visible_item showSet (Page a cs) s =
     (if truthy (r_name a) = None \<or> r_name a \<notin> showSet then (Ret None, s)
      else case allowMenuItem a s of
        (False, s) \<Rightarrow> (Ret None, s)
      | (True, s) \<Rightarrow>
          (case cs of
             None \<Rightarrow> (Ret (Some (Page (json_attrs a) None)), s)
           | Some [] \<Rightarrow> (Ret (Some (Page (json_attrs a) (Some []))), s)
           | Some (c # cs) \<Rightarrow>
               (case each (\<lambda>item s. if edition_hides (attrs item) (gs s) then (Ret None, s) else visible_item showSet item s)
                       (c # cs) s of
                  (Throw, s) \<Rightarrow> (Throw, s)
                | (Ret cs', s) \<Rightarrow> (finish_item (json_attrs a) cs', s))))"

text \<open>\<open>adjustAndCleanMenu\<close> rearranges the route objects of a copy: the menus and their entries are
  objects of a store, what lies below is plain.  \<open>itemMap\<close> finds an object by its name, the last of a name.\<close>

definition menu_node :: "nat \<Rightarrow> page \<Rightarrow> node list" where
  "menu_node n p =
     (case subpages p of
        None \<Rightarrow> [\<lparr>nd_attrs = attrs p, nd_kids = None\<rparr>]
      | Some cs \<Rightarrow> \<lparr>nd_attrs = attrs p, nd_kids = Some (map Ref [Suc n..<Suc n + length cs])\<rparr> # map node_of cs)"

fun menu_store :: "nat \<Rightarrow> page list \<Rightarrow> store" where
  "menu_store n [] = []"
| "menu_store n (p # ps) = menu_node n p @ menu_store (n + length (menu_node n p)) ps"

definition itemMap :: "store \<Rightarrow> string option \<rightharpoonup> nat" where
  "itemMap st = foldl (\<lambda>m i. m(node_name st i \<mapsto> i)) Map.empty [0..<length st]"

definition set_kids :: "store \<Rightarrow> nat \<Rightarrow> kid list option \<Rightarrow> store" where
  "set_kids st i ks = st[i := (st ! i)\<lparr>nd_kids := ks\<rparr>]"

fun buildTree :: "(string option \<rightharpoonup> nat) \<Rightarrow> menu_setting list \<Rightarrow> store \<Rightarrow> nat list \<times> store" where
  "buildTree im [] st = ([], st)"
| "buildTree im (Setting label isShow cs # rs) st =
     (case im label of
        None \<Rightarrow> buildTree im rs st
      | Some i \<Rightarrow>
          (case cs of
             Some (c # cs) \<Rightarrow>
               (case buildTree im (c # cs) st of
                  (ks, st) \<Rightarrow>
                    (case buildTree im rs (set_kids st i (Some (map Ref ks))) of (js, st) \<Rightarrow> (i # js, st)))
           | _ \<Rightarrow> (case buildTree im rs (set_kids st i None) of (js, st) \<Rightarrow> (i # js, st))))"

definition kid_attrs :: "store \<Rightarrow> kid \<Rightarrow> page_attrs" where
  "kid_attrs st k = (case k of Own p \<Rightarrow> attrs p | Ref i \<Rightarrow> nd_attrs (st ! i))"

definition adopt_in_store :: "nat \<Rightarrow> store outcome \<Rightarrow> store outcome" where
  "adopt_in_store i r =
     on_ret r (\<lambda>st. case kids (st ! i) of
        [k] \<Rightarrow> on_ret (adopt_only_child [Page (kid_attrs st k) None] (nd_attrs (st ! i)))
                (\<lambda>a. Ret (st[i := (st ! i)\<lparr>nd_attrs := a\<rparr>]))
      | _ \<Rightarrow> Ret st)"

text \<open>What follows reads the names of the result and serialises it, which throws on a cycle (no page).\<close>

definition adjustAndCleanMenu :: "menu_setting list \<Rightarrow> page list \<Rightarrow> (string option \<times> page option) list outcome" where
  "adjustAndCleanMenu menuItem source =
     (let st = menu_store 0 (map json_copy source);
          (newMenu, st) = buildTree (itemMap st) menuItem st
      in on_ret (fold adopt_in_store newMenu (Ret st))
           (\<lambda>st. Ret (map (\<lambda>i. (node_name st i, unfold_route (Suc (length st)) st i)) newMenu)))"

definition keep_always_visible ::
  "page \<Rightarrow> (string option \<times> page option) list \<Rightarrow> (string option \<times> page option) list" where
  "keep_always_visible item res =
     (if (case r_meta (attrs item) of None \<Rightarrow> False | Some m \<Rightarrow> m_alwaysVisible m = Some True)
      then case find_index (\<lambda>(n, menu). n = r_name (attrs item)) res of
             None \<Rightarrow> res @ [(r_name (attrs item), Some item)]
           | Some i \<Rightarrow> res[i := (r_name (attrs item), Some item)]
      else res)"

definition buildMenuListFromSettings ::
  "page list \<Rightarrow> menu_setting list option \<Rightarrow> app \<Rightarrow> page list outcome \<times> app" where
  "buildMenuListFromSettings source parsed s =
     (case parsed of
        None \<Rightarrow> (Throw, s)
      | Some hideMenu \<Rightarrow>
          (let showSet = set (concat (map getCheckedLabels hideMenu) @ concat (map getAlwaysVisibleNames source)) in
           case adjustAndCleanMenu hideMenu source of
             Throw \<Rightarrow> (Throw, s)
           | Ret res \<Rightarrow>
               each (\<lambda>(n, menu) s. case menu of None \<Rightarrow> (Throw, s) | Some menu \<Rightarrow> visible_item showSet menu s)
                 (fold keep_always_visible source res) s))"

section \<open>The menu store and its refresh\<close>

record menu_state =
  isCollapse :: bool
  menus :: "page list"
  withoutAnimation :: bool

definition setCollapse :: "menu_state \<Rightarrow> menu_state" where
  "setCollapse m = m\<lparr>isCollapse := \<not> isCollapse m, withoutAnimation := False\<rparr>"

definition closeSidebar :: "bool \<Rightarrow> menu_state \<Rightarrow> menu_state" where
  "closeSidebar b m = m\<lparr>isCollapse := True, withoutAnimation := b\<rparr>"

definition setMenuList :: "page list \<Rightarrow> menu_state \<Rightarrow> menu_state" where
  "setMenuList ps m = m\<lparr>menus := filter (\<lambda>item. r_path (attrs item) \<notin> {''/login'', ''/error''}) ps\<rparr>"

definition isSameMenuList :: "page list \<Rightarrow> page list \<Rightarrow> bool" where
  "isSameMenuList source target \<longleftrightarrow> map json_copy source = map json_copy target"

text \<open>The side bar: its store, the application, and the reference \<open>version\<close>; what the refresh
  could not catch is recorded.\<close>

record sidebar =
  sb_menu :: menu_state
  sb_app :: app
  sb_version :: jstring
  sb_uncaught :: bool

definition show_menus :: "page list \<Rightarrow> sidebar \<Rightarrow> sidebar" where
  "show_menus ps b = (if isSameMenuList (menus (sb_menu b)) ps then b else b\<lparr>sb_menu := setMenuList ps (sb_menu b)\<rparr>)"

definition setDefaultMenuList :: "page list \<Rightarrow> sidebar \<Rightarrow> sidebar" where
  "setDefaultMenuList source b =
     (case buildAuthVisibleMenuList source (sb_app b) of
        (Throw, s) \<Rightarrow> b\<lparr>sb_app := s, sb_uncaught := True\<rparr>
      | (Ret ps, s) \<Rightarrow> show_menus ps (b\<lparr>sb_app := s\<rparr>))"

record base_settings =
  systemVersion :: jstring
  hideMenu :: "jstring option"
  set_menuAccordion :: jstring

definition search ::
  "page list \<Rightarrow> base_settings option \<Rightarrow> (jstring \<Rightarrow> menu_setting list option) \<Rightarrow> sidebar \<Rightarrow> sidebar" where
  "search source answer parse b0 =
     (let b = (case answer of
            None \<Rightarrow> b0\<lparr>sb_version := []\<rparr>
          | Some r \<Rightarrow> b0\<lparr>sb_version := systemVersion r,
              sb_app := (sb_app b0)\<lparr>gs := (gs (sb_app b0))\<lparr>menuAccordion := (set_menuAccordion r = lit ''Enable'')\<rparr>\<rparr>\<rparr>)
      in case answer of
           None \<Rightarrow> setDefaultMenuList source b
         | Some r \<Rightarrow>
             (case hideMenu r of
                None \<Rightarrow> setDefaultMenuList source b
              | Some text \<Rightarrow>
                  if text = [] then setDefaultMenuList source b
                  else case buildMenuListFromSettings source (parse text) (sb_app b) of
                    (Throw, s) \<Rightarrow> setDefaultMenuList source (b\<lparr>sb_app := s\<rparr>)
                  | (Ret ps, s) \<Rightarrow> show_menus ps (b\<lparr>sb_app := s\<rparr>)))"

section \<open>SubItem.vue\<close>

definition getMenuTitle :: "(string \<Rightarrow> string) \<Rightarrow> page \<Rightarrow> string" where
  "getMenuTitle t item =
     (case meta_field m_title (attrs item) of
        Some k \<Rightarrow> t k
      | None \<Rightarrow>
          (case children item of
             c # _ \<Rightarrow> (case meta_field m_title (attrs c) of
                 Some k \<Rightarrow> t k
               | None \<Rightarrow> (case r_name (attrs item) of None \<Rightarrow> [] | Some n \<Rightarrow> n))
           | [] \<Rightarrow> (case r_name (attrs item) of None \<Rightarrow> [] | Some n \<Rightarrow> n)))"

definition visibleChildren :: "page \<Rightarrow> page list" where
  "visibleChildren item =
     filter (\<lambda>c. r_hidden (attrs c) \<noteq> Some True
       \<and> (case r_meta (attrs c) of None \<Rightarrow> True | Some m \<Rightarrow> m_hideInSidebar m \<noteq> Some True)) (children item)"

text \<open>What a click on an entry opens: a submenu, its only visible child, or the item itself.\<close>

datatype menu_entry = Submenu string | Opens string

definition menu_entry :: "page \<Rightarrow> menu_entry" where
  "menu_entry item =
     (case visibleChildren item of
        [] \<Rightarrow> Opens (r_path (attrs item))
      | [c] \<Rightarrow> Opens (r_path (attrs c))
      | _ \<Rightarrow> Submenu (r_path (attrs item)))"

end
