(* ===== verification/MenuProps.thy ===== *)
theory MenuProps
  imports Menu RouterProps
begin

text \<open>
  What the side menu offers: the default menu is the part of the route table that the user may
  open, the menu of the saved settings only offers such pages as well, and the subtrees that
  should survive old settings do not.
\<close>

section \<open>Checks\<close>

definition item_open :: "global_state \<Rightarrow> page_attrs \<Rightarrow> bool" where
  "item_open g a \<longleftrightarrow> hasRouteRoleAccess (access_meta a) g
     \<and> meta_permitted (case access_meta a of None \<Rightarrow> None | Some m \<Rightarrow> permission m) g"

lemma allow_query:
  assumes "app_inv s" "allowMenuItem a s = (ok, s')"
  shows "ok = item_open (gs s) a" "gs s' = gs s" "app_inv s'"
  using assms meta_query [OF assms(1), of "case access_meta a of None \<Rightarrow> None | Some m \<Rightarrow> permission m"]
  by (auto simp: allowMenuItem_def item_open_def split: if_splits)

lemma item_open_json [simp]: "item_open g (json_attrs a) = item_open g a"
  by (simp add: item_open_def access_meta_def json_attrs_def)

text \<open>An item is open exactly if the record the guard checks for it is.\<close>

lemma item_open_record:
  "item_open g a \<longleftrightarrow> hasRouteRoleAccess (rec_meta (record_of (p, a))) g
     \<and> meta_permitted (meta_permission (record_of (p, a))) g"
  by (simp add: item_open_def access_meta_def record_of_def meta_permission_def)

text \<open>The attributes but for icon, title, the side bar's own flag and what a copy drops.\<close>

definition blank :: "page_attrs \<Rightarrow> page_attrs" where
  "blank a = a\<lparr>r_component := None, r_redirect := None,
     r_meta := map_option (\<lambda>m. m\<lparr>m_icon := None, m_title := None, m_hideInSidebar := None\<rparr>) (r_meta a)\<rparr>"

lemma blank_json [simp]: "blank (json_attrs a) = blank a"
  by (simp add: blank_def json_attrs_def)

lemma item_open_blank: "blank a = blank b \<Longrightarrow> item_open g a = item_open g b"
proof -
  have "item_open g (blank c) = item_open g c" for c
    by (cases "r_meta c") (simp_all add: item_open_def access_meta_def blank_def)
  then show "blank a = blank b \<Longrightarrow> item_open g a = item_open g b" by metis
qed

lemma blank_name: "blank a = blank b \<Longrightarrow> r_name a = r_name b"
  by (metis blank_def page_attrs.select_convs(2) page_attrs.surjective page_attrs.update_convs(4,5,8))

lemma put_meta_blank:
  assumes "put_meta f a = Ret b"
    and "\<And>m. (f m)\<lparr>m_icon := None, m_title := None, m_hideInSidebar := None\<rparr>
      = m\<lparr>m_icon := None, m_title := None, m_hideInSidebar := None\<rparr>"
  shows "blank b = blank a"
  using assms by (auto simp: put_meta_def blank_def split: option.splits)

lemma on_ret_Ret: "on_ret x f = Ret y \<longleftrightarrow> (\<exists>z. x = Ret z \<and> f z = Ret y)"
  by (cases x) simp_all

lemma adopt_blank: "adopt_only_child cs a = Ret b \<Longrightarrow> blank b = blank a"
  by (auto simp: adopt_only_child_def on_ret_Ret split: list.splits option.splits dest!: put_meta_blank)

lemma finish_blank:
  assumes "finish_item a cs = Ret r"
  shows "case r of None \<Rightarrow> cs = [] | Some (Page b bs) \<Rightarrow> blank b = blank a \<and> bs = Some cs \<and> cs \<noteq> []"
  using assms
  by (auto simp: finish_item_def on_ret_Ret split: if_splits dest!: adopt_blank put_meta_blank)

lemma finish_returns: "r_meta a \<noteq> None \<Longrightarrow> finish_item a cs \<noteq> Throw"
  by (auto simp: finish_item_def adopt_only_child_def put_meta_def split: list.splits option.splits)

section \<open>The default menu\<close>

fun leaf_chains :: "page \<Rightarrow> page_attrs list list" where
  "leaf_chains (Page a cs) =
     (case cs of None \<Rightarrow> [[a]] | Some [] \<Rightarrow> [[a]] | Some (c # cs) \<Rightarrow> map (Cons a) (concat (map leaf_chains (c # cs))))"

definition menu_leaves :: "page list \<Rightarrow> page_attrs list list" where
  "menu_leaves ps = concat (map leaf_chains ps)"

definition view_chains :: "page_attrs list list \<Rightarrow> page_attrs list list" where
  "view_chains = map (map blank)"

definition open_leaves :: "global_state \<Rightarrow> page_attrs list list \<Rightarrow> page_attrs list list" where
  "open_leaves g = filter (list_all (item_open g))"

lemma view_chains_simps [simp]:
  "view_chains [] = []" "view_chains (xs @ ys) = view_chains xs @ view_chains ys"
  "view_chains (map (Cons a) xs) = map (Cons (blank a)) (view_chains xs)"
  by (simp_all add: view_chains_def)

lemma open_leaves_simps [simp]:
  "open_leaves g [] = []" "open_leaves g (xs @ ys) = open_leaves g xs @ open_leaves g ys"
  "open_leaves g (map (Cons a) xs) = (if item_open g a then map (Cons a) (open_leaves g xs) else [])"
  by (simp_all add: open_leaves_def filter_map o_def)

definition shows_leaves :: "app \<Rightarrow> page list \<Rightarrow> page list \<Rightarrow> bool" where
  "shows_leaves s ps qs \<longleftrightarrow> view_chains (menu_leaves qs) = view_chains (open_leaves (gs s) (menu_leaves ps))"

lemma menu_leaves_simps [simp]: "menu_leaves [] = []" "menu_leaves (p # ps) = leaf_chains p @ menu_leaves ps"
  by (simp_all add: menu_leaves_def)

lemma leaf_chains_ne: "leaf_chains p \<noteq> []"
  by (induction p rule: leaf_chains.induct) (simp split: option.splits list.splits)

lemma each_leaves:
  assumes "\<And>x s r s'. x \<in> set xs \<Longrightarrow> app_inv s \<Longrightarrow> f x s = (Ret r, s') \<Longrightarrow>
      gs s' = gs s \<and> app_inv s' \<and> shows_leaves s [x] (case_option [] (\<lambda>y. [y]) r)"
    and "app_inv s" "each f xs s = (Ret ys, s')"
  shows "gs s' = gs s \<and> app_inv s' \<and> shows_leaves s xs ys"
  using assms
proof (induction xs arbitrary: s ys)
  case (Cons x xs)
  from Cons.prems(3) obtain r t zs where r: "f x s = (Ret r, t)" "each f xs t = (Ret zs, s')"
    "ys = case_option zs (\<lambda>y. y # zs) r"
    by (auto split: prod.splits outcome.splits)
  from Cons.prems(1) [of x s r t] Cons.prems(2) r(1)
  have 1: "gs t = gs s" "app_inv t" "shows_leaves s [x] (case_option [] (\<lambda>y. [y]) r)" by auto
  with Cons.IH [OF _ 1(2) r(2)] Cons.prems(1)
  have 2: "gs s' = gs t" "app_inv s'" "shows_leaves t xs zs" by auto
  from 1 2 r(3) show ?case by (cases r) (auto simp: shows_leaves_def)
qed (simp add: shows_leaves_def)

lemma auth_item_leaves:
  "app_inv s \<Longrightarrow> auth_item p s = (Ret r, s') \<Longrightarrow>
     gs s' = gs s \<and> app_inv s' \<and> shows_leaves s [p] (case_option [] (\<lambda>y. [y]) r)"
proof (induction p s arbitrary: r s' rule: auth_item.induct)
  case (1 a cs s)
  obtain ok t where t: "allowMenuItem a s = (ok, t)" by fastforce
  note q = allow_query [OF 1(2) t]
  show ?case
  proof (cases "ok \<and> cs \<noteq> None \<and> cs \<noteq> Some []")
    case False
    with 1(3) q t show ?thesis
      by (auto simp: shows_leaves_def view_chains_def open_leaves_def split: option.splits list.splits if_splits)
  next
    case True
    then obtain c ds where cs: "cs = Some (c # ds)" by (cases cs; cases "the cs") auto
    from True t cs 1(3) obtain zs where z: "each auth_item (c # ds) t = (Ret zs, s')" "finish_item (json_attrs a) zs = Ret r"
      by (auto split: prod.splits outcome.splits)
    have e: "gs s' = gs t \<and> app_inv s' \<and> shows_leaves t (c # ds) zs"
    proof (rule each_leaves [OF _ q(3) z(1)])
      fix x u r u' assume "x \<in> set (c # ds)" "app_inv u" "auth_item x u = (Ret r, u')"
      with True t cs show "gs u' = gs u \<and> app_inv u' \<and> shows_leaves u [x] (case_option [] (\<lambda>y. [y]) r)"
        by (intro 1(1)) auto
    qed
    have o: "item_open (gs s) a" using True q(1) by simp
    have s: "shows_leaves s (c # ds) zs" using e q(2) by (simp add: shows_leaves_def)
    have l: "leaf_chains (Page a cs) = map (Cons a) (menu_leaves (c # ds))" by (simp add: cs menu_leaves_def)
    show ?thesis
    proof (cases r)
      case None
      with finish_blank [OF z(2)] have "zs = []" by simp
      with s o have "view_chains (open_leaves (gs s) (leaf_chains (Page a cs))) = []"
        unfolding l by (simp add: shows_leaves_def del: menu_leaves_simps) (simp add: view_chains_def)
      with e q(2) None show ?thesis by (simp add: shows_leaves_def)
    next
      case (Some p')
      with finish_blank [OF z(2)] obtain b where b: "p' = Page b (Some zs)" "blank b = blank a" "zs \<noteq> []"
        by (cases p') auto
      then have "leaf_chains p' = map (Cons b) (menu_leaves zs)" by (cases zs) (simp_all add: menu_leaves_def)
      then have "view_chains (leaf_chains p') = view_chains (open_leaves (gs s) (leaf_chains (Page a cs)))"
        unfolding l using s o b(2) by (simp add: shows_leaves_def del: menu_leaves_simps)
      with e q(2) Some show ?thesis by (simp add: shows_leaves_def)
    qed
  qed
qed

text \<open>Nothing throws where every menu with entries has a \<open>meta\<close>.\<close>

fun titled :: "page \<Rightarrow> bool" where
  "titled (Page a cs) =
     (case cs of None \<Rightarrow> True | Some [] \<Rightarrow> True | Some (c # cs) \<Rightarrow> r_meta a \<noteq> None \<and> list_all titled (c # cs))"

lemma each_returns:
  assumes "\<And>x s. x \<in> set xs \<Longrightarrow> fst (f x s) \<noteq> Throw"
  shows "fst (each f xs s) \<noteq> Throw"
  using assms
proof (induction xs arbitrary: s)
  case (Cons x xs)
  from Cons.prems [of x s] obtain r t where r: "f x s = (Ret r, t)"
    by (cases "f x s"; cases "fst (f x s)") auto
  from Cons.IH [of t] Cons.prems obtain ys u where "each f xs t = (Ret ys, u)"
    by (cases "each f xs t"; cases "fst (each f xs t)") auto
  with r show ?case by simp
qed simp

lemma auth_item_returns: "titled p \<Longrightarrow> fst (auth_item p s) \<noteq> Throw"
proof (induction p s rule: auth_item.induct)
  case (1 a cs s)
  obtain ok t where t: "allowMenuItem a s = (ok, t)" by fastforce
  show ?case
  proof (cases "ok \<and> cs \<noteq> None \<and> cs \<noteq> Some []")
    case False
    with t show ?thesis by (auto split: option.splits list.splits bool.splits)
  next
    case True
    then obtain c ds where cs: "cs = Some (c # ds)" by (cases cs; cases "the cs") auto
    have "fst (each auth_item (c # ds) t) \<noteq> Throw"
    proof (rule each_returns)
      fix x u assume "x \<in> set (c # ds)"
      with True t cs 1(2) show "fst (auth_item x u) \<noteq> Throw" by (intro 1(1)) (auto simp: list_all_iff)
    qed
    moreover have "r_meta (json_attrs a) \<noteq> None" using 1(2) cs by (simp add: json_attrs_def)
    ultimately show ?thesis
      using t True cs finish_returns by (auto split: prod.splits outcome.splits)
  qed
qed

text \<open>C29: The default menu is exact: where every menu with entries has a \<open>meta\<close>, it is built without an
  error, and its pages are, in order and each below the same menus, those of the route table whose
  records are all open to the user.\<close>

theorem default_menu_exact:
  assumes "app_inv s" "list_all titled source"
  shows "\<exists>ps. fst (buildAuthVisibleMenuList source s) = Ret ps
    \<and> view_chains (menu_leaves ps) = view_chains (open_leaves (gs s) (menu_leaves source))"
proof -
  have "fst (each auth_item source s) \<noteq> Throw"
    using assms(2) by (intro each_returns auth_item_returns) (simp add: list_all_iff)
  then obtain ps s' where r: "each auth_item source s = (Ret ps, s')"
    by (cases "each auth_item source s"; cases "fst (each auth_item source s)") auto
  from each_leaves [OF auth_item_leaves assms(1) r] show ?thesis
    by (simp add: buildAuthVisibleMenuList_def r shows_leaves_def)
qed

lemma titled_children: "r_meta a \<noteq> None \<or> cs = None \<or> cs = Some [] \<Longrightarrow>
    (\<And>c. c \<in> set (case cs of None \<Rightarrow> [] | Some cs \<Rightarrow> cs) \<Longrightarrow> titled c) \<Longrightarrow> titled (Page a cs)"
  by (auto simp: list_all_iff split: option.splits list.splits)

lemma titled_menu_raw: "list_all titled (menuList raw_table)"
  by code_simp

lemma menu_item_sorted:
  "map_option (\<lambda>q. titled q) (menu_item (sorted_page p)) = map_option (\<lambda>q. titled q) (menu_item p)"
  by (cases p) (simp add: sorted_page_def menu_item_def json_attrs_def Let_def split: option.splits list.splits)

lemma titled_menu_builtin: "list_all titled (menuList builtin)"
proof -
  have "list_all titled (List.map_filter menu_item (map sorted_page ps)) = list_all titled (List.map_filter menu_item ps)" for ps
  proof (induction ps)
    case (Cons p ps)
    with menu_item_sorted [of p] show ?case
      by (cases "menu_item p"; cases "menu_item (sorted_page p)") (simp_all add: map_filter_simps)
  qed simp
  with titled_menu_raw show ?thesis by (simp add: menuList_def builtin_def)
qed

theorem default_menu_exact_witness:
  "\<exists>ps. fst (buildAuthVisibleMenuList (menuList builtin) initial_app) = Ret ps
    \<and> view_chains (menu_leaves ps) = view_chains (open_leaves (gs initial_app) (menu_leaves (menuList builtin)))"
  by (rule default_menu_exact [OF initial_app_inv titled_menu_builtin])

section \<open>The menu of the saved settings\<close>

fun pages_all :: "(page_attrs \<Rightarrow> bool) \<Rightarrow> page \<Rightarrow> bool" where
  "pages_all P (Page a cs) = (P a \<and> list_all (pages_all P) (case cs of None \<Rightarrow> [] | Some cs \<Rightarrow> cs))"

lemma each_all:
  assumes "\<And>x s r s'. x \<in> set xs \<Longrightarrow> app_inv s \<Longrightarrow> gs s = g \<Longrightarrow> f x s = (r, s') \<Longrightarrow>
      gs s' = g \<and> app_inv s' \<and> (\<forall>y. r = Ret (Some y) \<longrightarrow> P y)"
    and "app_inv s" "gs s = g" "each f xs s = (r, s')"
  shows "gs s' = g \<and> app_inv s' \<and> (\<forall>ys. r = Ret ys \<longrightarrow> list_all P ys)"
  using assms
proof (induction xs arbitrary: s r s')
  case (Cons x xs)
  obtain r1 t where 1: "f x s = (r1, t)" by fastforce
  from Cons.prems(1) [OF _ Cons.prems(2,3) 1]
  have t: "gs t = g" "app_inv t" "\<forall>y. r1 = Ret (Some y) \<longrightarrow> P y" by auto
  obtain r2 u where 2: "each f xs t = (r2, u)" by fastforce
  have "gs u = g \<and> app_inv u \<and> (\<forall>ys. r2 = Ret ys \<longrightarrow> list_all P ys)"
    by (rule Cons.IH [OF _ t(2,1) 2], rule Cons.prems(1)) auto
  then have u: "gs u = g" "app_inv u" "\<forall>ys. r2 = Ret ys \<longrightarrow> list_all P ys" by auto
  show ?case
  proof (cases r1)
    case Throw
    with 1 t Cons.prems(4) show ?thesis by simp
  next
    case (Ret y)
    with 1 2 t u Cons.prems(4) show ?thesis
      by (cases r2; cases y) auto
  qed
qed auto

lemma pages_all_json [simp]: "(\<And>a. P (json_attrs a) = P a) \<Longrightarrow> pages_all P (json_copy p) = pages_all P p"
  by (induction p) (auto simp: list_all_iff split: option.splits)

text \<open>The rebuilt item satisfies what its attributes and its entries satisfy, whatever the icon and title.\<close>

lemma finish_all:
  assumes "finish_item (json_attrs a) cs = Ret r" "list_all (pages_all P) cs" "P a" "\<And>a b. blank a = blank b \<Longrightarrow> P a = P b"
  shows "\<forall>p. r = Some p \<longrightarrow> pages_all P p"
proof (intro allI impI)
  fix p assume "r = Some p"
  with finish_blank [OF assms(1)] obtain b where "p = Page b (Some cs)" "blank b = blank a"
    by (cases p) auto
  with assms(2,3) assms(4) [of b a] show "pages_all P p" by simp
qed

lemma finish_open:
  assumes "\<forall>zs. zr = Ret zs \<longrightarrow> list_all (pages_all (item_open g)) zs" "item_open g a"
    and "on_ret zr (finish_item (json_attrs a)) = Ret (Some q)"
  shows "pages_all (item_open g) q"
proof -
  from assms(3) obtain zs where z: "zr = Ret zs" "finish_item (json_attrs a) zs = Ret (Some q)"
    unfolding on_ret_Ret by blast
  then have "list_all (pages_all (item_open g)) zs" using assms(1) by blast
  from finish_all [OF z(2) this assms(2) item_open_blank] show ?thesis by blast
qed

lemma auth_item_all:
  "app_inv s \<Longrightarrow> gs s = g \<Longrightarrow> auth_item p s = (r, s') \<Longrightarrow>
     gs s' = g \<and> app_inv s' \<and> (\<forall>q. r = Ret (Some q) \<longrightarrow> pages_all (item_open g) q)"
proof (induction p s arbitrary: r s' rule: auth_item.induct)
  case (1 a cs s)
  obtain ok t where t: "allowMenuItem a s = (ok, t)" by fastforce
  note q = allow_query [OF 1(2) t]
  show ?case
  proof (cases "ok \<and> cs \<noteq> None \<and> cs \<noteq> Some []")
    case False
    with 1(3,4) q t show ?thesis by (auto split: option.splits list.splits bool.splits)
  next
    case True
    then obtain c ds where cs: "cs = Some (c # ds)" by (cases cs; cases "the cs") auto
    obtain zr where z: "each auth_item (c # ds) t = (zr, s')" "r = on_ret zr (finish_item (json_attrs a))"
      using True t cs 1(4) by (auto split: prod.splits outcome.splits)
    have e: "gs s' = g \<and> app_inv s' \<and> (\<forall>zs. zr = Ret zs \<longrightarrow> list_all (pages_all (item_open g)) zs)"
    proof (rule each_all [OF _ q(3) _ z(1)])
      fix x u r u' assume "x \<in> set (c # ds)" "app_inv u" "gs u = g" "auth_item x u = (r, u')"
      with True t cs show "gs u' = g \<and> app_inv u' \<and> (\<forall>y. r = Ret (Some y) \<longrightarrow> pages_all (item_open g) y)"
        by (intro 1(1)) auto
    qed (simp add: q 1(3))
    have o: "item_open g a" using True q(1) 1(3) by simp
    have "pages_all (item_open g) q" if "r = Ret (Some q)" for q
      by (rule finish_open [of zr g a]) (use e that z(2) o in simp_all)
    with e show ?thesis by blast
  qed
qed

lemma visible_item_all:
  "app_inv s \<Longrightarrow> gs s = g \<Longrightarrow> visible_item S p s = (r, s') \<Longrightarrow>
     gs s' = g \<and> app_inv s' \<and> (\<forall>q. r = Ret (Some q) \<longrightarrow> pages_all (item_open g) q)"
proof (induction S p s arbitrary: r s' rule: visible_item.induct)
  case (1 S a cs s)
  obtain ok t where t: "allowMenuItem a s = (ok, t)" by fastforce
  note q = allow_query [OF 1(2) t]
  show ?case
  proof (cases "truthy (r_name a) \<noteq> None \<and> r_name a \<in> S \<and> ok \<and> cs \<noteq> None \<and> cs \<noteq> Some []")
    case False
    with 1(2-4) q t show ?thesis by (auto split: option.splits list.splits bool.splits if_splits)
  next
    case True
    then obtain c ds where cs: "cs = Some (c # ds)" by (cases cs; cases "the cs") auto
    let ?f = "\<lambda>item s. if edition_hides (attrs item) (gs s) then (Ret None, s) else visible_item S item s"
    obtain zr where z: "each ?f (c # ds) t = (zr, s')" "r = on_ret zr (finish_item (json_attrs a))"
      using True t cs 1(4) by (auto split: prod.splits outcome.splits)
    have e: "gs s' = g \<and> app_inv s' \<and> (\<forall>zs. zr = Ret zs \<longrightarrow> list_all (pages_all (item_open g)) zs)"
    proof (rule each_all [OF _ q(3) _ z(1)])
      fix x u r u' assume x: "x \<in> set (c # ds)" "app_inv u" "gs u = g" "?f x u = (r, u')"
      show "gs u' = g \<and> app_inv u' \<and> (\<forall>y. r = Ret (Some y) \<longrightarrow> pages_all (item_open g) y)"
      proof (cases "edition_hides (attrs x) (gs u)")
        case False
        with x True t cs show ?thesis by (intro 1(1)) auto
      qed (use x in auto)
    qed (simp add: q 1(3))
    have o: "item_open g a" using True q(1) 1(3) by simp
    have "pages_all (item_open g) q" if "r = Ret (Some q)" for q
      by (rule finish_open [of zr g a]) (use e that z(2) o in simp_all)
    with e show ?thesis by blast
  qed
qed

lemma item_open_accordion [simp]: "item_open (g\<lparr>menuAccordion := b\<rparr>) a = item_open g a"
proof -
  have p: "permitted p (g\<lparr>menuAccordion := b\<rparr>) = permitted p g" for p
    by (simp add: permitted_def restricted_def isMaster_def)
  have "hasRouteRoleAccess m (g\<lparr>menuAccordion := b\<rparr>) = hasRouteRoleAccess m g" for m
    by (cases m) (simp_all add: hasRouteRoleAccess_def isNodeAdmin_def)
  with p show ?thesis
    by (simp add: item_open_def meta_permitted_def cong: option.case_cong perm_value.case_cong)
qed

definition menus_open :: "sidebar \<Rightarrow> bool" where
  "menus_open b \<longleftrightarrow> list_all (pages_all (item_open (gs (sb_app b)))) (menus (sb_menu b))"

lemma show_menus_open:
  assumes "list_all (pages_all (item_open (gs (sb_app b)))) ps"
  shows "menus_open (show_menus ps b)"
proof (cases "isSameMenuList (menus (sb_menu b)) ps")
  case True
  let ?P = "pages_all (item_open (gs (sb_app b)))"
  have "list_all ?P (map json_copy qs) = list_all ?P qs" for qs by (simp add: list_all_iff)
  with assms True have "list_all ?P (menus (sb_menu b))"
    by (metis isSameMenuList_def)
  with True show ?thesis by (simp add: show_menus_def menus_open_def)
next
  case False
  with assms show ?thesis by (auto simp: show_menus_def menus_open_def setMenuList_def list_all_iff)
qed

lemma default_menus_open:
  assumes "app_inv (sb_app b)" "list_all titled source"
  shows "menus_open (setDefaultMenuList source b) \<and> sb_uncaught (setDefaultMenuList source b) = sb_uncaught b
    \<and> gs (sb_app (setDefaultMenuList source b)) = gs (sb_app b)"
proof -
  have "fst (each auth_item source (sb_app b)) \<noteq> Throw"
    using assms(2) by (intro each_returns auth_item_returns) (simp add: list_all_iff)
  then obtain ps s' where r: "each auth_item source (sb_app b) = (Ret ps, s')"
    by (cases "each auth_item source (sb_app b)"; cases "fst (each auth_item source (sb_app b))") auto
  from each_all [OF auth_item_all assms(1) refl r]
  have o: "gs s' = gs (sb_app b)" "list_all (pages_all (item_open (gs (sb_app b)))) ps" by auto
  then have "menus_open (show_menus ps (b\<lparr>sb_app := s'\<rparr>))" by (intro show_menus_open) simp
  with o r show ?thesis
    by (simp add: setDefaultMenuList_def buildAuthVisibleMenuList_def) (simp add: show_menus_def)
qed

lemma settings_menu_all:
  assumes "app_inv s" "buildMenuListFromSettings source parsed s = (r, s')"
  shows "gs s' = gs s \<and> app_inv s' \<and> (\<forall>ps. r = Ret ps \<longrightarrow> list_all (pages_all (item_open (gs s))) ps)"
proof (cases parsed)
  case None
  with assms show ?thesis by (auto simp: buildMenuListFromSettings_def)
next
  case (Some hideMenu)
  show ?thesis
  proof (cases "adjustAndCleanMenu hideMenu source")
    case Throw
    with Some assms show ?thesis by (auto simp: buildMenuListFromSettings_def Let_def)
  next
    case (Ret res)
    let ?S = "set (concat (map getCheckedLabels hideMenu) @ concat (map getAlwaysVisibleNames source))"
    let ?f = "\<lambda>(n, menu) s. case menu of None \<Rightarrow> (Throw, s) | Some menu \<Rightarrow> visible_item ?S menu s"
    have e: "each ?f (fold keep_always_visible source res) s = (r, s')"
      using assms(2) by (simp only: buildMenuListFromSettings_def Let_def Some Ret option.case outcome.case)
    show ?thesis
    proof (rule each_all [OF _ assms(1) refl e])
      fix x u r u' assume u: "app_inv u" "gs u = gs s" "?f x u = (r, u')"
      obtain n m where x: "x = (n, m)" by fastforce
      show "gs u' = gs s \<and> app_inv u' \<and> (\<forall>y. r = Ret (Some y) \<longrightarrow> pages_all (item_open (gs s)) y)"
      proof (cases m)
        case None
        with u x show ?thesis by auto
      next
        case (Some menu)
        with u(3) x have "visible_item ?S menu u = (r, u')" by (simp only: prod.case option.case)
        from visible_item_all [OF u(1,2) this] show ?thesis .
      qed
    qed
  qed
qed

text \<open>C28: After every refresh of the side bar, whatever the settings endpoint answers and whatever menu
  configuration is stored, nothing is thrown that the code does not catch, and every page in the menu, at any
  depth, is open to the signed-in user.\<close>

theorem sidebar_offers_open_pages:
  assumes "app_inv (sb_app b)" "list_all titled source"
  shows "menus_open (search source answer parse b) \<and> sb_uncaught (search source answer parse b) = sb_uncaught b"
proof (cases "\<exists>r saved. answer = Some r \<and> hideMenu r = Some saved \<and> saved \<noteq> []")
  case False
  let ?b = "case answer of None \<Rightarrow> b\<lparr>sb_version := []\<rparr> | Some r \<Rightarrow> b\<lparr>sb_version := systemVersion r,
    sb_app := (sb_app b)\<lparr>gs := (gs (sb_app b))\<lparr>menuAccordion := (set_menuAccordion r = lit ''Enable'')\<rparr>\<rparr>\<rparr>"
  have "search source answer parse b = setDefaultMenuList source ?b"
    using False by (auto simp: search_def Let_def split: option.splits simp del: lit_simps)
  moreover have "app_inv (sb_app ?b)" using assms(1) by (auto simp: app_inv_def split: option.splits)
  ultimately show ?thesis
    using default_menus_open [OF _ assms(2), of ?b] by (auto split: option.splits)
next
  case True
  then obtain r saved where r: "answer = Some r" "hideMenu r = Some saved" "saved \<noteq> []" by blast
  let ?b = "b\<lparr>sb_version := systemVersion r,
    sb_app := (sb_app b)\<lparr>gs := (gs (sb_app b))\<lparr>menuAccordion := (set_menuAccordion r = lit ''Enable'')\<rparr>\<rparr>\<rparr>"
  have inv: "app_inv (sb_app ?b)" using assms(1) by (simp add: app_inv_def)
  obtain o' s where m: "buildMenuListFromSettings source (parse saved) (sb_app ?b) = (o', s)" by fastforce
  note all = settings_menu_all [OF inv m]
  show ?thesis
  proof (cases o')
    case Throw
    with r m have "search source answer parse b = setDefaultMenuList source (?b\<lparr>sb_app := s\<rparr>)"
      by (simp add: search_def del: lit_simps)
    with default_menus_open [OF _ assms(2), of "?b\<lparr>sb_app := s\<rparr>"] all show ?thesis by simp
  next
    case (Ret ps)
    with r m have "search source answer parse b = show_menus ps (?b\<lparr>sb_app := s\<rparr>)"
      by (simp add: search_def del: lit_simps)
    moreover have "menus_open (show_menus ps (?b\<lparr>sb_app := s\<rparr>))"
      using all Ret by (intro show_menus_open) simp
    ultimately show ?thesis by (simp add: show_menus_def)
  qed
qed

theorem sidebar_offers_open_pages_witness:
  "let b = \<lparr>sb_menu = \<lparr>isCollapse = False, menus = [], withoutAnimation = False\<rparr>, sb_app = initial_app,
       sb_version = [], sb_uncaught = False\<rparr>
   in menus_open (search (menuList builtin) None (\<lambda>t. None) b)"
  using sidebar_offers_open_pages [of "\<lparr>sb_menu = \<lparr>isCollapse = False, menus = [], withoutAnimation = False\<rparr>,
      sb_app = initial_app, sb_version = [], sb_uncaught = False\<rparr>" "menuList builtin" None "\<lambda>t. None"]
    initial_app_inv titled_menu_builtin
  by simp

section \<open>Menus that should survive old settings\<close>

text \<open>The entry of the advanced features in the menu.\<close>

definition advanced_item :: page where
  "advanced_item = the (menu_item advancedRouter)"

definition inner_names :: "string set" where
  "inner_names = {''AdvancedWebsiteMonitorDashboard'', ''AdvancedWebsiteMonitorRank'', ''AdvancedWebsiteMonitorTrend'',
     ''AdvancedWebsiteMonitorLog'', ''AdvancedWebsiteMonitorWebsites'', ''AdvancedWebsiteMonitorSetting'',
     ''AdvancedWafOverview'', ''AdvancedWafAttack'', ''AdvancedWafIntercept'', ''AdvancedWafBlock'',
     ''AdvancedWafBlackWhite'', ''AdvancedWafWebsites'', ''AdvancedWafGlobal''}"

lemma advanced_visible_names:
  "getAlwaysVisibleNames advanced_item = [Some ''Advanced-Menu'', Some ''AdvancedWebsiteMonitor'', Some ''AdvancedWaf'',
     Some ''AdvancedMultiNode'']"
  by code_simp

lemma advanced_lost:
  assumes "showSet \<inter> Some ` inner_names = {}"
    and "set (getAlwaysVisibleNames advanced_item) \<subseteq> showSet"
  shows "\<exists>q. fst (visible_item showSet advanced_item s) = Ret (Some q)
     \<and> map (\<lambda>c. r_name (attrs c)) (children q) = [Some ''AdvancedMultiNode'']
     \<and> meta_field m_title (attrs q) = Some ''menu.multiNode''"
proof -
  have n: "Some n \<notin> showSet" if "n \<in> inner_names" for n using assms(1) that by auto
  have v: "Some ''Advanced-Menu'' \<in> showSet" "Some ''AdvancedWebsiteMonitor'' \<in> showSet" "Some ''AdvancedWaf'' \<in> showSet"
    "Some ''AdvancedMultiNode'' \<in> showSet"
    using assms(2) unfolding advanced_visible_names by simp_all
  show ?thesis
    using n by (simp add: v inner_names_def advanced_item_def menu_item_def advancedRouter_def page_at_def no_meta_def json_attrs_def
        shown_def allowMenuItem_def access_meta_def hasRouteRoleAccess_def hasPermissionMetaAccess_def truthy_def
        edition_hides_def finish_item_def adopt_only_child_def meta_field_def put_meta_def children_def)
qed

lemma always_names_raw:
  "concat (map getAlwaysVisibleNames (menuList raw_table)) = [Some ''Advanced-Menu'', Some ''AdvancedWebsiteMonitor'',
     Some ''AdvancedWaf'', Some ''AdvancedMultiNode'']"
  by code_simp

lemma always_names_builtin:
  "concat (map getAlwaysVisibleNames (menuList builtin)) = concat (map getAlwaysVisibleNames (menuList raw_table))"
proof -
  have 1: "map_option getAlwaysVisibleNames (menu_item (sorted_page p)) = map_option getAlwaysVisibleNames (menu_item p)" for p
    by (cases p; cases "subpages p") (simp_all add: sorted_page_def menu_item_def json_attrs_def Let_def cong: option.case_cong if_cong)
  have "concat (map getAlwaysVisibleNames (List.map_filter menu_item (map sorted_page ps)))
    = concat (map getAlwaysVisibleNames (List.map_filter menu_item ps))" for ps
  proof (induction ps)
    case (Cons p ps)
    with 1 [of p] show ?case
      by (cases "menu_item p"; cases "menu_item (sorted_page p)") (simp_all add: map_filter_simps)
  qed simp
  then show ?thesis by (simp add: menuList_def builtin_def)
qed

lemma advanced_listed: "advanced_item \<in> set (menuList builtin)"
proof -
  have "sorted_page advancedRouter = advancedRouter"
    by (simp add: sorted_page_def advancedRouter_def sort_value_def page_at_def)
  then have a: "advancedRouter \<in> set builtin" by (simp add: builtin_def raw_table_def)
  have "menu_item advancedRouter = Some advanced_item"
    by (simp add: advanced_item_def menu_item_def advancedRouter_def Let_def)
  with a show ?thesis by (force simp: menuList_def List.map_filter_def)
qed

text \<open>Saved menu settings that know nothing of the pages below the website monitor and the firewall
  swallow these two menus: although both are marked as always visible and are in the set of
  labels to show, their entry is rebuilt without them, with the multi-node page as its only child,
  whose title it takes over.\<close>

theorem old_settings_lose_menus:
  assumes "set (concat (map getCheckedLabels saved)) \<inter> Some ` inner_names = {}"
    and "showSet = set (concat (map getCheckedLabels saved) @ concat (map getAlwaysVisibleNames (menuList builtin)))"
  shows "advanced_item \<in> set (menuList builtin)
    \<and> {Some ''AdvancedWebsiteMonitor'', Some ''AdvancedWaf''} \<subseteq> showSet
    \<and> (\<exists>q. fst (visible_item showSet advanced_item s) = Ret (Some q)
        \<and> map (\<lambda>c. r_name (attrs c)) (children q) = [Some ''AdvancedMultiNode'']
        \<and> meta_field m_title (attrs q) = Some ''menu.multiNode'')"
proof -
  have s: "showSet = set (concat (map getCheckedLabels saved)) \<union> set (getAlwaysVisibleNames advanced_item)"
    unfolding assms(2) always_names_builtin always_names_raw advanced_visible_names by (simp only: set_append)
  have "set (getAlwaysVisibleNames advanced_item) \<inter> Some ` inner_names = {}"
    unfolding advanced_visible_names by (simp add: inner_names_def)
  with assms(1) s have "showSet \<inter> Some ` inner_names = {}" by (simp only: Int_Un_distrib2 Un_empty)
  moreover have "set (getAlwaysVisibleNames advanced_item) \<subseteq> showSet" using s by blast
  ultimately show ?thesis
    using advanced_lost advanced_listed s unfolding advanced_visible_names by auto
qed

theorem old_settings_lose_menus_witness:
  "{Some ''AdvancedWebsiteMonitor'', Some ''AdvancedWaf''}
     \<subseteq> set (concat (map getCheckedLabels [Setting (Some ''Log-Menu'') True None])
        @ concat (map getAlwaysVisibleNames (menuList builtin)))"
  using old_settings_lose_menus [of "[Setting (Some ''Log-Menu'') True None]" _ initial_app, OF _ refl]
  by (simp add: inner_names_def)

end
