(* ===== verification/MenuEditor.thy ===== *)
theory MenuEditor
  imports GlobalStore "HOL-Library.Sublist"
begin

text \<open>
  The editor of the side menu: \<^verbatim>\<open>src/web/src/views/setting/panel/hidemenu/index.vue\<close> with
  \<^verbatim>\<open>sortMenu\<close> of \<^verbatim>\<open>src/web/src/utils/misc.ts\<close>.  The tree widget moves a dragged entry itself; the
  handler then numbers the entries.  Dialogs, messages and the two requests that save are left out.
\<close>

section \<open>Entries\<close>

record entry_info =
  ei_id :: string
  ei_label :: string
  ei_isShow :: bool
  ei_sort :: int

datatype entry = Entry (info: entry_info) (subs: "entry list option")

abbreviation entry_label :: "entry \<Rightarrow> string" where
  "entry_label e \<equiv> ei_label (info e)"

definition isMenuVisible :: "global_state \<Rightarrow> string \<Rightarrow> bool" where
  "isMenuVisible g label =
     (if label = ''Upage'' then \<not> (isIntl g \<or> (isEE g \<and> \<not> isAdmin g))
      else if label = ''XApp'' then \<not> isIntl g
      else True)"

section \<open>Sorting\<close>

definition sort_children :: "entry \<Rightarrow> entry" where
  "sort_children item = Entry (info item) (map_option (sort_key (\<lambda>e. ei_sort (info e))) (subs item))"

definition sortMenu :: "entry list \<Rightarrow> entry list" where
  "sortMenu arr = sort_key (\<lambda>e. ei_sort (info e)) (map sort_children arr)"

section \<open>Dragging\<close>

text \<open>A node of the tree widget, as far as the tests read it.\<close>

record tree_node =
  tn_level :: nat
  tn_label :: string
  tn_siblings :: "nat option"
  tn_children :: nat

datatype drop_type = Prev | Next | Inner

definition allowDrag :: "tree_node \<Rightarrow> bool" where
  "allowDrag n \<longleftrightarrow> tn_level n < 3 \<and> \<not> list_ex (\<lambda>key. sublist key (tn_label n)) [''Home-Menu'']"

definition allowDrop :: "tree_node \<Rightarrow> tree_node \<Rightarrow> drop_type \<Rightarrow> bool" where
  "allowDrop drag to t =
     (if tn_label drag \<in> {''App-Menu'', ''Setting-Menu''} \<and> tn_level to = 2 then False
      else if tn_label to = ''Home-Menu'' then t \<noteq> Prev \<and> t \<noteq> Inner
      else if tn_siblings drag = Some 1 then False
      else if tn_level drag = 2 \<and> tn_level to = 1 \<or> tn_level drag = 1 \<and> tn_level to = 2 \<and> tn_children drag = 0
        then t = Prev \<or> t = Next
      else if tn_level to = 1 \<and> tn_level drag = 1 \<or> tn_level to = 2 \<and> tn_level drag = 2 then t = Prev \<or> t = Next
      else False)"

text \<open>The \<open>while\<close> loop that looks for the next number no hidden entry has.\<close>

function free_from :: "int list \<Rightarrow> int \<Rightarrow> int" where
  "free_from reservedSorts nextSort =
     (if nextSort \<in> set reservedSorts then free_from reservedSorts (nextSort + 100) else nextSort)"
  by pat_completeness auto

termination
proof (relation "measure (\<lambda>(rs, n). card (set rs \<inter> {n..}))")
  fix rs :: "int list" and n :: int
  assume "n \<in> set rs"
  then have "set rs \<inter> {n + 100..} \<subset> set rs \<inter> {n..}" by force
  then show "((rs, n + 100), (rs, n)) \<in> measure (\<lambda>(rs, n). card (set rs \<inter> {n..}))"
    by (simp add: psubset_card_mono)
qed simp

declare free_from.simps [simp del]

definition reserved :: "(string \<Rightarrow> bool) \<Rightarrow> entry list \<Rightarrow> int list" where
  "reserved vis nodes = map (\<lambda>e. ei_sort (info e)) (filter (\<lambda>e. \<not> vis (entry_label e)) nodes)"

fun number :: "(string \<Rightarrow> bool) \<Rightarrow> int list \<Rightarrow> int \<Rightarrow> entry list \<Rightarrow> entry list" where
  "number vis rs nextSort [] = []"
| "number vis rs nextSort (Entry e cs # nodes) =
     Entry (if vis (ei_label e) then e\<lparr>ei_sort := free_from rs nextSort\<rparr> else e)
       (case cs of Some (c # ds) \<Rightarrow> Some (number vis (reserved vis (c # ds)) 100 (c # ds)) | _ \<Rightarrow> cs)
     # number vis rs (if vis (ei_label e) then free_from rs nextSort + 100 else nextSort) nodes"

definition updateSort :: "(string \<Rightarrow> bool) \<Rightarrow> entry list \<Rightarrow> entry list" where
  "updateSort vis nodes = number vis (reserved vis nodes) 100 nodes"

definition handleDrop :: "global_state \<Rightarrow> entry list \<Rightarrow> entry list" where
  "handleDrop g siblingNodes = (if siblingNodes \<noteq> [] then updateSort (isMenuVisible g) siblingNodes else siblingNodes)"

section \<open>Switches\<close>

fun at_path :: "nat list \<Rightarrow> (entry \<Rightarrow> entry) \<Rightarrow> entry list \<Rightarrow> entry list" where
  "at_path [] f es = es"
| "at_path [i] f es = (if i < length es then es[i := f (es ! i)] else es)"
| "at_path (i # j # p) f es =
     (if i < length es
      then es[i := Entry (info (es ! i)) (map_option (at_path (j # p) f) (subs (es ! i)))] else es)"

fun entry_at :: "nat list \<Rightarrow> entry list \<Rightarrow> entry option" where
  "entry_at [] es = None"
| "entry_at [i] es = (if i < length es then Some (es ! i) else None)"
| "entry_at (i # j # p) es =
     (if i < length es then (case subs (es ! i) of None \<Rightarrow> None | Some cs \<Rightarrow> entry_at (j # p) cs) else None)"

definition set_show :: "bool \<Rightarrow> entry \<Rightarrow> entry" where
  "set_show b e = Entry ((info e)\<lparr>ei_isShow := b\<rparr>) (subs e)"

text \<open>The loop over a menu's entries: no result when it meets the row switched on, otherwise
  whether all are hidden.\<close>

fun scan_children :: "(string \<Rightarrow> bool) \<Rightarrow> string \<Rightarrow> bool \<Rightarrow> entry list \<Rightarrow> bool option" where
  "scan_children vis row allHide [] = Some allHide"
| "scan_children vis row allHide (item2 # cs) =
     (if \<not> vis (entry_label item2) then scan_children vis row allHide cs
      else if ei_id (info item2) = row \<and> ei_isShow (info item2) then None
      else scan_children vis row (if ei_isShow (info item2) then False else allHide) cs)"

fun adjust_parents :: "(string \<Rightarrow> bool) \<Rightarrow> string \<Rightarrow> entry list \<Rightarrow> entry list" where
  "adjust_parents vis row [] = []"
| "adjust_parents vis row (item # es) =
     (case subs item of
        None \<Rightarrow> item # adjust_parents vis row es
      | Some cs \<Rightarrow>
          (case scan_children vis row True cs of
             None \<Rightarrow> set_show True item # es
           | Some allHide \<Rightarrow> (if allHide then set_show False item else item) # adjust_parents vis row es))"

text \<open>The switch of the row at a path: the widget turns \<open>isShow\<close> round, then the handler runs.\<close>

definition onChangeShow :: "(string \<Rightarrow> bool) \<Rightarrow> nat list \<Rightarrow> entry list \<Rightarrow> entry list" where
  "onChangeShow vis path tree =
     (case entry_at path tree of
        None \<Rightarrow> tree
      | Some row0 \<Rightarrow>
          (let row = set_show (\<not> ei_isShow (info row0)) row0; tree = at_path path (\<lambda>_. row) tree in
           case subs row of
             Some cs \<Rightarrow>
               at_path path (\<lambda>_. Entry (info row)
                 (Some (map (\<lambda>item. if vis (entry_label item) then set_show (ei_isShow (info row)) item else item) cs))) tree
           | None \<Rightarrow> adjust_parents vis (ei_id (info row)) tree))"

section \<open>A dropped order is kept\<close>

lemma free_from_spec: "free_from rs n \<notin> set rs \<and> n \<le> free_from rs n"
proof (induction rs n rule: free_from.induct)
  case (1 rs n)
  then show ?case by (subst (1 2) free_from.simps) auto
qed

definition sorts :: "(string \<Rightarrow> bool) \<Rightarrow> entry list \<Rightarrow> int list" where
  "sorts vis es = map (\<lambda>e. ei_sort (info e)) (filter (\<lambda>e. vis (entry_label e)) es)"

lemma number_sorts:
  "sorted_wrt (<) (sorts vis (number vis rs n es)) \<and> (\<forall>x \<in> set (sorts vis (number vis rs n es)). n \<le> x \<and> x \<notin> set rs)"
proof (induction vis rs n es rule: number.induct)
  case (2 vis rs n e cs es)
  show ?case
  proof (cases "vis (ei_label e)")
    case True
    with 2(2) free_from_spec [of rs n] show ?thesis by (fastforce simp: sorts_def)
  next
    case False
    with 2(2) show ?thesis by (simp add: sorts_def)
  qed
qed (simp add: sorts_def)

text \<open>What the user sees of a menu: the visible entries in order, each with its visible children.\<close>

fun seen :: "(string \<Rightarrow> bool) \<Rightarrow> entry list \<Rightarrow> (string \<times> string list) list" where
  "seen vis [] = []"
| "seen vis (e # es) =
     (if vis (entry_label e)
      then (entry_label e, map entry_label (filter (\<lambda>c. vis (entry_label c)) (case subs e of None \<Rightarrow> [] | Some cs \<Rightarrow> cs)))
        # seen vis es
      else seen vis es)"

lemma seen_map: "seen vis es = map (\<lambda>e. (entry_label e,
    map entry_label (filter (\<lambda>c. vis (entry_label c)) (case subs e of None \<Rightarrow> [] | Some cs \<Rightarrow> cs))))
    (filter (\<lambda>e. vis (entry_label e)) es)"
  by (induction es) simp_all

lemma visible_sorted:
  assumes "sorted_wrt (<) (sorts vis es)"
  shows "filter (\<lambda>e. vis (entry_label e)) (sort_key (\<lambda>e. ei_sort (info e)) es) = filter (\<lambda>e. vis (entry_label e)) es"
proof -
  from assms have "sorted (map (\<lambda>e. ei_sort (info e)) (filter (\<lambda>e. vis (entry_label e)) es))"
    unfolding sorts_def by (rule strict_sorted_imp_sorted)
  then show ?thesis by (simp add: filter_sort sort_key_id_if_sorted)
qed

lemma number_labels: "map entry_label (number vis rs n es) = map entry_label es"
  by (induction vis rs n es rule: number.induct) simp_all

lemma visible_labels:
  "map entry_label es = map entry_label es' \<Longrightarrow>
     map entry_label (filter (\<lambda>e. vis (entry_label e)) es) = map entry_label (filter (\<lambda>e. vis (entry_label e)) es')"
proof -
  have "map entry_label (filter (\<lambda>e. vis (entry_label e)) es) = filter vis (map entry_label es)" for es
    by (simp add: filter_map o_def)
  then show "map entry_label es = map entry_label es' \<Longrightarrow> ?thesis" by metis
qed

lemma seen_number: "seen vis (number vis rs n es) = seen vis es"
proof (induction vis rs n es rule: number.induct)
  case (2 vis rs n e cs es)
  have "map entry_label (filter (\<lambda>c. vis (entry_label c)) (number vis (reserved vis ds) 100 ds))
     = map entry_label (filter (\<lambda>c. vis (entry_label c)) ds)" for ds
    by (intro visible_labels number_labels)
  then have "map entry_label (filter (\<lambda>c. vis (entry_label c))
      (case (case cs of Some (c # ds) \<Rightarrow> Some (number vis (reserved vis (c # ds)) 100 (c # ds)) | _ \<Rightarrow> cs) of
         None \<Rightarrow> [] | Some cs \<Rightarrow> cs))
    = map entry_label (filter (\<lambda>c. vis (entry_label c)) (case cs of None \<Rightarrow> [] | Some cs \<Rightarrow> cs))"
    by (simp del: number.simps split: option.splits list.splits)
  with "2.IH"(2) show ?case unfolding number.simps(2)
    by (cases "vis (ei_label e)") (simp_all del: number.simps)
qed simp

lemma number_children:
  assumes "x \<in> set (number vis rs n es)" "subs x = Some ks"
  shows "sorted_wrt (<) (sorts vis ks)"
  using assms
proof (induction vis rs n es rule: number.induct)
  case (2 vis rs n e cs es)
  let ?cs = "case cs of Some (c # ds) \<Rightarrow> Some (number vis (reserved vis (c # ds)) 100 (c # ds)) | _ \<Rightarrow> cs"
  from 2(3) consider "subs x = ?cs" | "x \<in> set (number vis rs (if vis (ei_label e) then free_from rs n + 100 else n) es)"
    unfolding number.simps(2) by auto
  then show ?case
  proof cases
    case 1
    with 2(4) have "ks = [] \<or> (\<exists>ds. ks = number vis (reserved vis ds) 100 ds)"
      by (cases cs; cases "the cs") (auto simp del: number.simps)
    with number_sorts show ?thesis by (auto simp: sorts_def)
  next
    case 2
    with "2.IH"(2) "2.prems"(2) show ?thesis by blast
  qed
qed simp

text \<open>A dropped order survives: once the entries are numbered, the next opening of the editor, which sorts
  by number, shows the same visible menus and entries in the same order, and no visible entry has the
  number of a hidden one beside it.\<close>

theorem dropped_order_kept:
  "seen (isMenuVisible g) (sortMenu (handleDrop g tree)) = seen (isMenuVisible g) tree
    \<and> set (sorts (isMenuVisible g) (handleDrop g tree)) \<inter> set (reserved (isMenuVisible g) tree) = {}"
proof (cases "tree = []")
  case False
  let ?vis = "isMenuVisible g" and ?new = "handleDrop g tree"
  have new: "?new = number ?vis (reserved ?vis tree) 100 tree" using False by (simp add: handleDrop_def updateSort_def)
  let ?sorted = "map sort_children ?new"
  have i: "info (sort_children e) = info e" for e by (simp add: sort_children_def)
  have sorted: "sorted_wrt (<) (sorts ?vis ?new)" using number_sorts [of ?vis "reserved ?vis tree" 100 tree] unfolding new by blast
  then have "sorted_wrt (<) (sorts ?vis ?sorted)" by (simp add: sorts_def filter_map o_def i)
  from visible_sorted [OF this] have "seen ?vis (sortMenu ?new) = seen ?vis ?sorted"
    by (simp add: seen_map sortMenu_def)
  also have "\<dots> = seen ?vis ?new"
  proof -
    have "filter (\<lambda>c. ?vis (entry_label c)) (case subs (sort_children e) of None \<Rightarrow> [] | Some cs \<Rightarrow> cs)
      = filter (\<lambda>c. ?vis (entry_label c)) (case subs e of None \<Rightarrow> [] | Some cs \<Rightarrow> cs)" if "e \<in> set ?new" for e
      using that number_children [of e ?vis "reserved ?vis tree" 100 tree] visible_sorted unfolding new
      by (auto simp: sort_children_def split: option.splits)
    then show ?thesis by (auto simp: seen_map filter_map o_def i intro!: map_cong)
  qed
  also have "\<dots> = seen ?vis tree" unfolding new by (rule seen_number)
  finally show ?thesis
    using number_sorts [of ?vis "reserved ?vis tree" 100 tree] unfolding new by blast
qed (simp add: handleDrop_def sortMenu_def sorts_def)

section \<open>Switches of menus and entries agree\<close>

definition shown_child :: "(string \<Rightarrow> bool) \<Rightarrow> entry list \<Rightarrow> bool" where
  "shown_child vis cs \<longleftrightarrow> (\<exists>c \<in> set cs. vis (entry_label c) \<and> ei_isShow (info c))"

definition agrees :: "(string \<Rightarrow> bool) \<Rightarrow> entry \<Rightarrow> bool" where
  "agrees vis item \<longleftrightarrow>
     (case subs item of None \<Rightarrow> True
      | Some cs \<Rightarrow> (\<exists>c \<in> set cs. vis (entry_label c)) \<longrightarrow> (ei_isShow (info item) \<longleftrightarrow> shown_child vis cs))"

text \<open>A menu of two levels whose second level has distinct identifiers.\<close>

definition two_levels :: "entry list \<Rightarrow> bool" where
  "two_levels tree \<longleftrightarrow> (\<forall>e \<in> set tree. \<forall>cs. subs e = Some cs \<longrightarrow> (\<forall>c \<in> set cs. subs c = None))"

lemma set_show_fields [simp]:
  "subs (set_show b e) = subs e" "ei_isShow (info (set_show b e)) = b" "entry_label (set_show b e) = entry_label e"
  "ei_id (info (set_show b e)) = ei_id (info e)"
  by (simp_all add: set_show_def)

lemma scan_Some:
  "scan_children vis row a cs = Some b \<Longrightarrow> b = (a \<and> \<not> shown_child vis cs)
     \<and> (\<forall>c \<in> set cs. vis (entry_label c) \<and> ei_id (info c) = row \<longrightarrow> \<not> ei_isShow (info c))"
proof (induction cs arbitrary: a)
  case (Cons c cs)
  have s: "shown_child vis (c # cs) \<longleftrightarrow> vis (entry_label c) \<and> ei_isShow (info c) \<or> shown_child vis cs"
    by (auto simp: shown_child_def)
  from Cons.prems Cons.IH [of a] Cons.IH [of False] show ?case
    unfolding s by (cases "vis (entry_label c)"; cases "ei_isShow (info c)") (auto split: if_splits)
qed (simp add: shown_child_def)

lemma scan_None:
  "scan_children vis row a cs = None \<Longrightarrow> \<exists>c \<in> set cs. vis (entry_label c) \<and> ei_id (info c) = row \<and> ei_isShow (info c)"
  by (induction vis row a cs rule: scan_children.induct) (auto split: if_splits)

text \<open>What the loop over the menus needs of each: it agrees already, or the row is one of its entries,
  visible and switched on, or nothing visible is shown in it, or something is and it is shown.\<close>

definition nearly :: "(string \<Rightarrow> bool) \<Rightarrow> string \<Rightarrow> entry \<Rightarrow> bool" where
  "nearly vis row item \<longleftrightarrow>
     (case subs item of None \<Rightarrow> True
      | Some cs \<Rightarrow> shown_child vis cs \<longrightarrow> ei_isShow (info item) \<or>
          (\<exists>c \<in> set cs. vis (entry_label c) \<and> ei_id (info c) = row \<and> ei_isShow (info c)))"

lemma agrees_nearly: "agrees vis item \<Longrightarrow> nearly vis row item"
  by (auto simp: agrees_def nearly_def shown_child_def split: option.splits)

text \<open>Menus after the one that holds the row switched on are not reached, so they must agree.\<close>

definition row_in :: "(string \<Rightarrow> bool) \<Rightarrow> string \<Rightarrow> entry \<Rightarrow> bool" where
  "row_in vis row item \<longleftrightarrow> (\<exists>cs. subs item = Some cs \<and>
     (\<exists>c \<in> set cs. vis (entry_label c) \<and> ei_id (info c) = row \<and> ei_isShow (info c)))"

lemma adjust_agrees:
  assumes "list_all (nearly vis row) es"
    and "\<And>us item vs. es = us @ item # vs \<Longrightarrow> row_in vis row item \<Longrightarrow> list_all (agrees vis) vs"
  shows "list_all (agrees vis) (adjust_parents vis row es)"
  using assms
proof (induction es)
  case (Cons item es)
  have rest: "list_all (agrees vis) (adjust_parents vis row es)"
  proof (rule Cons.IH)
    show "list_all (nearly vis row) es" using Cons.prems(1) by simp
    fix us x vs assume "es = us @ x # vs" "row_in vis row x"
    then show "list_all (agrees vis) vs" using Cons.prems(2) [of "item # us" x vs] by simp
  qed
  show ?case
  proof (cases "subs item")
    case None
    then have "agrees vis item" by (simp add: agrees_def)
    with rest None show ?thesis by simp
  next
    case (Some cs)
    show ?thesis
    proof (cases "scan_children vis row True cs")
      case None
      from scan_None [OF None] Some have r: "row_in vis row item" by (auto simp: row_in_def)
      then have "shown_child vis cs" using Some by (auto simp: row_in_def shown_child_def)
      then have "agrees vis (set_show True item)" using Some by (simp add: agrees_def)
      moreover have "list_all (agrees vis) es" using Cons.prems(2) [of "[]" item es] r by simp
      ultimately show ?thesis using Some None by simp
    next
      case (Some allHide)
      from scan_Some [OF this] have a: "allHide = (\<not> shown_child vis cs)"
        "\<not> (\<exists>c \<in> set cs. vis (entry_label c) \<and> ei_id (info c) = row \<and> ei_isShow (info c))" by auto
      have "agrees vis (if allHide then set_show False item else item)"
        using Cons.prems(1) \<open>subs item = Some cs\<close> a by (auto simp: agrees_def nearly_def)
      with rest Some \<open>subs item = Some cs\<close> show ?thesis by simp
    qed
  qed
qed simp

definition child_ids :: "entry \<Rightarrow> string set" where
  "child_ids e = (\<lambda>c. ei_id (info c)) ` set (case subs e of None \<Rightarrow> [] | Some cs \<Rightarrow> cs)"

definition own_ids :: "entry list \<Rightarrow> bool" where
  "own_ids tree \<longleftrightarrow> (\<forall>i < length tree. \<forall>j < length tree. i \<noteq> j \<longrightarrow> child_ids (tree ! i) \<inter> child_ids (tree ! j) = {})"

lemma list_all_update: "list_all P es \<Longrightarrow> P e \<Longrightarrow> list_all P (es[i := e])"
  by (auto simp: list_all_iff dest!: set_update_subset_insert [THEN subsetD])

text \<open>Switching a menu switches its visible entries.\<close>

lemma switch_menu_agrees:
  assumes "list_all (agrees vis) tree" "i < length tree" "subs (tree ! i) = Some cs"
  shows "list_all (agrees vis) (onChangeShow vis [i] tree)"
proof -
  let ?b = "\<not> ei_isShow (info (tree ! i))"
  let ?new = "Entry ((info (tree ! i))\<lparr>ei_isShow := ?b\<rparr>) (Some (map (\<lambda>c. if vis (entry_label c) then set_show ?b c else c) cs))"
  have "onChangeShow vis [i] tree = tree[i := ?new]"
    using assms(2,3) by (simp add: onChangeShow_def set_show_def cong: if_cong)
  moreover have "agrees vis ?new"
    by (auto simp: agrees_def shown_child_def)
  ultimately show ?thesis using assms(1) by (simp add: list_all_update)
qed

lemma switch_leaf_agrees:
  assumes "list_all (agrees vis) tree" "i < length tree" "subs (tree ! i) = None"
  shows "list_all (agrees vis) (onChangeShow vis [i] tree)"
proof -
  let ?row = "set_show (\<not> ei_isShow (info (tree ! i))) (tree ! i)"
  have t: "list_all (agrees vis) (tree[i := ?row])"
    using assms(1,3) by (intro list_all_update) (simp_all add: agrees_def)
  have "list_all (agrees vis) (adjust_parents vis (ei_id (info ?row)) (tree[i := ?row]))"
  proof (rule adjust_agrees)
    show "list_all (nearly vis (ei_id (info ?row))) (tree[i := ?row])"
      using t by (auto simp: list_all_iff intro: agrees_nearly)
    fix us item vs assume "tree[i := ?row] = us @ item # vs"
    with t show "list_all (agrees vis) vs" by simp
  qed
  with assms(2,3) show ?thesis by (simp add: onChangeShow_def Let_def)
qed

lemma switch_entry_agrees:
  assumes "list_all (agrees vis) tree" "own_ids tree" "i < length tree" "subs (tree ! i) = Some cs" "j < length cs"
    and "subs (cs ! j) = None"
  shows "list_all (agrees vis) (onChangeShow vis [i, j] tree)"
proof -
  let ?row = "set_show (\<not> ei_isShow (info (cs ! j))) (cs ! j)"
  let ?item = "Entry (info (tree ! i)) (Some (cs[j := ?row]))" and ?r = "ei_id (info ?row)"
  let ?tree = "tree[i := ?item]"
  have other: "agrees vis (?tree ! k)" if "k < length tree" "k \<noteq> i" for k
    using assms(1) that by (simp add: list_all_length)
  have "nearly vis ?r ?item"
  proof -
    have "ei_isShow (info (tree ! i)) \<or> (\<exists>c \<in> set (cs[j := ?row]). vis (entry_label c) \<and> ei_id (info c) = ?r \<and> ei_isShow (info c))"
      if shown: "c \<in> set (cs[j := ?row])" "vis (entry_label c)" "ei_isShow (info c)" for c
    proof (cases "c = ?row")
      case False
      with shown have "c \<in> set cs" using set_update_subset_insert by fastforce
      moreover have "agrees vis (tree ! i)" using assms(1,3) by (simp add: list_all_length)
      ultimately show ?thesis using shown(2,3) assms(4) by (auto simp: agrees_def shown_child_def)
    qed (use shown in blast)
    then show ?thesis by (auto simp: nearly_def shown_child_def)
  qed
  then have near: "list_all (nearly vis ?r) ?tree"
    using other assms(3) by (auto simp: list_all_length nth_list_update intro: agrees_nearly)
  have "list_all (agrees vis) (adjust_parents vis ?r ?tree)"
  proof (rule adjust_agrees [OF near])
    fix us item vs assume s: "?tree = us @ item # vs" "row_in vis ?r item"
    let ?k = "length us"
    have len: "length tree = length us + Suc (length vs)" using arg_cong [OF s(1), of length] by simp
    have k: "?tree ! ?k = item" "?k < length tree" using len by (simp_all add: s(1))
    have "i \<le> ?k"
    proof (rule ccontr)
      assume "\<not> i \<le> ?k"
      then have "item = tree ! ?k" using k by simp
      with s(2) have "?r \<in> child_ids (tree ! ?k)"
        by (auto simp: row_in_def child_ids_def image_iff intro: sym)
      moreover have "?r \<in> child_ids (tree ! i)" using assms(4,5) by (simp add: child_ids_def)
      ultimately show False using assms(2,3) k(2) \<open>\<not> i \<le> ?k\<close> unfolding own_ids_def by blast
    qed
    have "agrees vis (vs ! m)" if "m < length vs" for m
    proof -
      have "vs ! m = ?tree ! Suc (?k + m)" "Suc (?k + m) < length tree"
        using that len by (simp_all add: s(1) nth_append)
      with other \<open>i \<le> ?k\<close> show ?thesis by simp
    qed
    then show "list_all (agrees vis) vs" by (simp add: list_all_length)
  qed
  with assms(3-6) show ?thesis by (simp add: onChangeShow_def Let_def)
qed

text \<open>The switches of a menu of two levels stay in agreement: if every menu with a visible entry is shown
  exactly when one of these is, the same holds after any switch of the editor, of a menu, of an
  entry or of a page without entries.\<close>

theorem switches_agree:
  assumes "list_all (agrees vis) tree" "own_ids tree" "two_levels tree" "entry_at path tree = Some row"
  shows "list_all (agrees vis) (onChangeShow vis path tree)"
proof -
  from assms(4) obtain i p where path: "path = i # p" "i < length tree"
    by (cases path; cases "tl path") (auto split: if_splits)
  show ?thesis
  proof (cases p)
    case Nil
    then show ?thesis
      using switch_menu_agrees [OF assms(1) path(2)] switch_leaf_agrees [OF assms(1) path(2)] path
      by (cases "subs (tree ! i)") auto
  next
    case (Cons j q)
    with assms(4) path obtain cs where cs: "subs (tree ! i) = Some cs" "entry_at (j # q) cs = Some row"
      by (auto split: if_splits option.splits)
    then have leaf: "\<forall>c \<in> set cs. subs c = None"
      using assms(3) nth_mem [OF path(2)] unfolding two_levels_def by blast
    have j: "j < length cs" using cs(2) by (cases q) (auto split: if_splits)
    have "q = []" using cs(2) leaf j by (cases q) (auto split: option.splits if_splits)
    with Cons path switch_entry_agrees [OF assms(1,2) path(2) cs(1) j] leaf j show ?thesis by simp
  qed
qed

definition demo_menu :: "entry list" where
  "demo_menu =
     [Entry \<lparr>ei_id = ''1'', ei_label = ''Website-Menu'', ei_isShow = True, ei_sort = 100\<rparr>
        (Some [Entry \<lparr>ei_id = ''2'', ei_label = ''Website'', ei_isShow = True, ei_sort = 100\<rparr> None,
               Entry \<lparr>ei_id = ''3'', ei_label = ''SSL'', ei_isShow = False, ei_sort = 200\<rparr> None])]"

theorem switches_agree_witness:
  "list_all (agrees (\<lambda>l. True)) (onChangeShow (\<lambda>l. True) [0, 0] demo_menu)"
  by (rule switches_agree [where row = "Entry \<lparr>ei_id = ''2'', ei_label = ''Website'', ei_isShow = True, ei_sort = 100\<rparr> None"])
    (simp_all add: demo_menu_def agrees_def shown_child_def own_ids_def two_levels_def)

end
