(* ===== verification/FirewallPlans.thy ===== *)
theory FirewallPlans
  imports Firewall
begin

text \<open>
  What the pages of the firewall rules share: the back ends, and the plans the server answers
  when rules are checked before they are created
  (\<^verbatim>\<open>src/web/src/api/interface/firewall.ts\<close>).  The type of a rule is left open: the import
  handles rules as they come from a file, the form builds its own.
\<close>

datatype provider = Iptables | Nftables | Firewalld | Ufw

definition provider_name :: "provider \<Rightarrow> jstring" where
  "provider_name p = (case p of Iptables \<Rightarrow> lit ''iptables'' | Nftables \<Rightarrow> lit ''nftables''
     | Firewalld \<Rightarrow> lit ''firewalld'' | Ufw \<Rightarrow> lit ''ufw'')"

datatype check_decision = PlanReady | ConfirmationRequired | Blocked | NoChange
datatype check_class = NoMatch | ExactManaged | ExactExternal | Conflict | Unsupported | Protected
datatype check_action = Create | Adopt | SelectAdopt | Cancel

text \<open>A missing list of allowed actions or candidates is the empty one.\<close>

record 'r plan =
  decision :: check_decision
  classification :: check_class
  reason :: jstring
  requestedRule :: 'r
  candidates :: "jstring option list"
  allowedActions :: "check_action list"
  checkFlag :: jstring

record 'r create_item =
  item_rule :: 'r
  item_flag :: jstring
  item_action :: check_action
  adoptInstanceKey :: "jstring option"
  imported :: bool

record create_answer =
  succeeded :: nat
  answer_failed :: nat
  skipped :: nat

definition availableResolutions :: "'r plan \<Rightarrow> check_action list" where
  "availableResolutions p = filter (\<lambda>a. a \<noteq> Cancel) (allowedActions p)"

text \<open>Requests go out in batches of 256.\<close>

function batches :: "nat \<Rightarrow> 'a list \<Rightarrow> 'a list list" where
  "batches n xs = (if xs = [] \<or> n = 0 then [] else take n xs # batches n (drop n xs))"
  by pat_completeness auto
termination by (relation "measure (\<lambda>(n, xs). length xs)") auto

declare batches.simps [simp del]

lemma concat_batches: "0 < n \<Longrightarrow> concat (batches n xs) = xs"
proof (induction n xs rule: batches.induct)
  case (1 n xs)
  then show ?case by (cases "xs = []") (subst batches.simps, simp)+
qed

lemma length_batches_le: "b \<in> set (batches n xs) \<Longrightarrow> length b \<le> n"
proof (induction n xs rule: batches.induct)
  case (1 n xs)
  then show ?case unfolding batches.simps [of n xs] by (auto split: if_splits)
qed

end
