(* ===== verification/Json.thy ===== *)
theory Json
  imports JsNumber
begin

text \<open>
  \<open>JSON.parse\<close> and \<open>JSON.stringify\<close> of the language's library, as far as the front end uses them:
  values without \<open>toJSON\<close>, replacers or indentation.  A number is the exact rational of its
  numeral, before it is rounded to a double.  The text of a number is defined for
  integers below \<open>10^21\<close>, which \<open>Number.prototype.toString\<close> writes out digit by digit; a value
  with another number has no text here (\<open>None\<close>).  The own properties of an object come in the
  order of the language: array indices first, in ascending order, then the others as created.
\<close>

section \<open>Values and objects\<close>

datatype json =
    JNull
  | JBool bool
  | JNum rat
  | JStr jstring
  | JArr "json list"
  | JObj "(jstring \<times> json) list"

type_synonym members = "(jstring \<times> json) list"

definition index_key :: "jstring \<Rightarrow> bool" where
  "index_key k \<longleftrightarrow> all_digits k \<and> digits_of_nat (nat_of_digits k) = k \<and> nat_of_digits k < 2 ^ 32 - 1"

text \<open>Assigning a property: an existing one keeps its place.\<close>

definition comes_after :: "jstring \<Rightarrow> jstring \<Rightarrow> bool" where
  "comes_after k l \<longleftrightarrow> index_key l \<and> (index_key k \<longrightarrow> nat_of_digits l < nat_of_digits k)"

fun obj_insert :: "jstring \<Rightarrow> json \<Rightarrow> members \<Rightarrow> members" where
  "obj_insert k v [] = [(k, v)]"
| "obj_insert k v ((l, w) # ms) =
     (if comes_after k l \<or> \<not> index_key k then (l, w) # obj_insert k v ms else (k, v) # (l, w) # ms)"

definition obj_put :: "jstring \<Rightarrow> json \<Rightarrow> members \<Rightarrow> members" where
  "obj_put k v ms =
     (if k \<in> fst ` set ms then map (\<lambda>(l, w). if l = k then (l, v) else (l, w)) ms
      else obj_insert k v ms)"

definition obj_delete :: "jstring \<Rightarrow> members \<Rightarrow> members" where
  "obj_delete k ms = filter (\<lambda>(l, w). l \<noteq> k) ms"

text \<open>Objects the language can build: no key twice, in the order of the language.\<close>

fun ordered_keys :: "jstring list \<Rightarrow> bool" where
  "ordered_keys [] = True"
| "ordered_keys (k # ks) =
     (k \<notin> set ks \<and> (\<forall>l \<in> set ks. index_key l \<longrightarrow> comes_after l k) \<and> ordered_keys ks)"

fun json_wf :: "json \<Rightarrow> bool" where
  "json_wf (JArr vs) = (\<forall>v \<in> set vs. json_wf v)"
| "json_wf (JObj ms) = (ordered_keys (map fst ms) \<and> (\<forall>m \<in> set ms. json_wf (snd m)))"
| "json_wf _ = True"

section \<open>Parsing\<close>

definition json_space :: "nat \<Rightarrow> bool" where
  "json_space c \<longleftrightarrow> c = 9 \<or> c = 10 \<or> c = 13 \<or> c = 32"

definition skip_ws :: "jstring \<Rightarrow> jstring" where
  "skip_ws s = dropWhile json_space s"

definition unescape :: "nat \<Rightarrow> nat option" where
  "unescape e =
     (if e = 34 \<or> e = 92 \<or> e = 47 then Some e
      else if e = 98 then Some 8 else if e = 102 then Some 12 else if e = 110 then Some 10
      else if e = 114 then Some 13 else if e = 116 then Some 9 else None)"

text \<open>The rest of a string, after its opening quote.\<close>

fun parse_chars :: "jstring \<Rightarrow> (jstring \<times> jstring) option" where
  "parse_chars [] = None"
| "parse_chars (c # r) =
     (if c = 34 then Some ([], r)
      else if c = 92 then
        (case r of
           [] \<Rightarrow> None
         | e # r \<Rightarrow>
             (if e = 117 then
                (case r of
                   a # b # d # f # r \<Rightarrow>
                     (case radix_value 16 0 [a, b, d, f] of
                        None \<Rightarrow> None
                      | Some u \<Rightarrow> map_option (\<lambda>(w, r). (u # w, r)) (parse_chars r))
                 | _ \<Rightarrow> None)
              else
                (case unescape e of
                   None \<Rightarrow> None
                 | Some u \<Rightarrow> map_option (\<lambda>(w, r). (u # w, r)) (parse_chars r))))
      else if c < 32 then None
      else map_option (\<lambda>(w, r). (c # w, r)) (parse_chars r))"

definition parse_exponent :: "jstring \<Rightarrow> (int \<times> jstring) option" where
  "parse_exponent s =
     (case s of
        c # r \<Rightarrow>
          (if c = 101 \<or> c = 69 then
             let ds = (if r \<noteq> [] \<and> (hd r = 45 \<or> hd r = 43) then tl r else r);
                 e = takeWhile is_digit ds
             in if e = [] then None
                else Some (if r \<noteq> [] \<and> hd r = 45 then - int (nat_of_digits e) else int (nat_of_digits e),
                           dropWhile is_digit ds)
           else Some (0, s))
      | [] \<Rightarrow> Some (0, s))"

definition parse_fraction :: "jstring \<Rightarrow> (jstring \<times> jstring) option" where
  "parse_fraction s =
     (if s \<noteq> [] \<and> hd s = 46 then
        (let f = takeWhile is_digit (tl s) in if f = [] then None else Some (f, dropWhile is_digit (tl s)))
      else Some ([], s))"

text \<open>A numeral; one with a superfluous leading zero is an error in every context.\<close>

definition parse_number :: "jstring \<Rightarrow> (rat \<times> jstring) option" where
  "parse_number s =
     (let neg = (s \<noteq> [] \<and> hd s = 45); u = (if neg then tl s else s);
          ip = takeWhile is_digit u
      in if ip = [] \<or> hd ip = 48 \<and> length ip > 1 then None
         else case parse_fraction (dropWhile is_digit u) of
           None \<Rightarrow> None
         | Some (fp, r) \<Rightarrow>
             (case parse_exponent r of
                None \<Rightarrow> None
              | Some (e, r) \<Rightarrow>
                  let q = of_nat (nat_of_digits (ip @ fp)) * pow10 (e - int (length fp))
                  in Some (if neg then - q else q, r)))"

definition parse_word :: "jstring \<Rightarrow> json \<Rightarrow> jstring \<Rightarrow> (json \<times> jstring) option" where
  "parse_word w v s = (if startsWith s w then Some (v, drop (length w) s) else None)"

lemma skip_ws_shorter: "skip_ws s = c # r \<Longrightarrow> length r < length s"
  unfolding skip_ws_def by (metis Suc_le_lessD length_Cons length_dropWhile_le)

text \<open>
  Values, the elements of an array after its bracket or a comma, and the members of an object
  likewise.  Each reads a value and goes on behind it; the comparison of lengths only shows
  that this is shorter, and never fails (\<open>parse_shorter\<close>).
\<close>

function (sequential)
  parse_value :: "jstring \<Rightarrow> (json \<times> jstring) option" and
  parse_elements :: "jstring \<Rightarrow> (json list \<times> jstring) option" and
  parse_members :: "members \<Rightarrow> jstring \<Rightarrow> (members \<times> jstring) option"
where
  "parse_value s =
     (case skip_ws s of
        [] \<Rightarrow> None
      | c # r \<Rightarrow>
          (if c = 34 then map_option (\<lambda>(w, r). (JStr w, r)) (parse_chars r)
           else if c = 91 then
             (case skip_ws r of
                d # r' \<Rightarrow> if d = 93 then Some (JArr [], r')
                          else map_option (\<lambda>(vs, r). (JArr vs, r)) (parse_elements r)
              | [] \<Rightarrow> None)
           else if c = 123 then
             (case skip_ws r of
                d # r' \<Rightarrow> if d = 125 then Some (JObj [], r')
                          else map_option (\<lambda>(ms, r). (JObj ms, r)) (parse_members [] r)
              | [] \<Rightarrow> None)
           else if c = 116 then parse_word (lit ''true'') (JBool True) (c # r)
           else if c = 102 then parse_word (lit ''false'') (JBool False) (c # r)
           else if c = 110 then parse_word (lit ''null'') JNull (c # r)
           else map_option (\<lambda>(q, r). (JNum q, r)) (parse_number (c # r))))"
| "parse_elements s =
     (case parse_value s of
        None \<Rightarrow> None
      | Some (v, r) \<Rightarrow>
          (case skip_ws r of
             [] \<Rightarrow> None
           | c # r \<Rightarrow>
               (if c = 93 then Some ([v], r)
                else if c = 44 \<and> length r < length s
                then map_option (\<lambda>(vs, r). (v # vs, r)) (parse_elements r)
                else None)))"
| "parse_members ms s =
     (case skip_ws s of
        [] \<Rightarrow> None
      | c # r \<Rightarrow>
          (if c \<noteq> 34 then None
           else case parse_chars r of
             None \<Rightarrow> None
           | Some (k, r) \<Rightarrow>
               (case skip_ws r of
                  [] \<Rightarrow> None
                | c # r \<Rightarrow>
                    (if c = 58 \<and> length r < length s then
                       (case parse_value r of
                          None \<Rightarrow> None
                        | Some (v, r) \<Rightarrow>
                            (case skip_ws r of
                               [] \<Rightarrow> None
                             | c # r \<Rightarrow>
                                 (if c = 125 then Some (obj_put k v ms, r)
                                  else if c = 44 \<and> length r < length s
                                  then parse_members (obj_put k v ms) r
                                  else None)))
                     else None))))"
  by pat_completeness auto

termination
  by (relation "measure (\<lambda>x. case x of Inl s \<Rightarrow> 2 * length s | Inr (Inl s) \<Rightarrow> Suc (2 * length s)
        | Inr (Inr (ms, s)) \<Rightarrow> Suc (2 * length s))")
    (auto dest!: skip_ws_shorter)

declare parse_value.simps [simp del] parse_elements.simps [simp del] parse_members.simps [simp del]

definition JSON_parse :: "jstring \<Rightarrow> json option" where
  "JSON_parse s =
     (case parse_value s of
        None \<Rightarrow> None
      | Some (v, r) \<Rightarrow> if skip_ws r = [] then Some v else None)"

section \<open>Printing\<close>

definition hex_digit :: "nat \<Rightarrow> nat" where
  "hex_digit d = (if d < 10 then 48 + d else 87 + d)"

definition unicode_escape :: "nat \<Rightarrow> jstring" where
  "unicode_escape c =
     [92, 117, hex_digit (c div 4096 mod 16), hex_digit (c div 256 mod 16), hex_digit (c div 16 mod 16),
      hex_digit (c mod 16)]"

definition escape_unit :: "nat \<Rightarrow> jstring" where
  "escape_unit c =
     (if c = 8 then [92, 98] else if c = 9 then [92, 116] else if c = 10 then [92, 110]
      else if c = 12 then [92, 102] else if c = 13 then [92, 114]
      else if c = 34 then [92, 34] else if c = 92 then [92, 92]
      else if c < 32 then unicode_escape c else [c])"

definition high_surrogate :: "nat \<Rightarrow> bool" where
  "high_surrogate c \<longleftrightarrow> 55296 \<le> c \<and> c \<le> 56319"

definition low_surrogate :: "nat \<Rightarrow> bool" where
  "low_surrogate c \<longleftrightarrow> 56320 \<le> c \<and> c \<le> 57343"

text \<open>A surrogate without its partner is escaped.\<close>

fun quote_units :: "jstring \<Rightarrow> jstring" where
  "quote_units [] = []"
| "quote_units [c] =
     (if high_surrogate c \<or> low_surrogate c then unicode_escape c else escape_unit c)"
| "quote_units (c # d # s) =
     (if high_surrogate c \<and> low_surrogate d then c # d # quote_units s
      else (if high_surrogate c \<or> low_surrogate c then unicode_escape c else escape_unit c)
           @ quote_units (d # s))"

definition json_quote :: "jstring \<Rightarrow> jstring" where
  "json_quote s = 34 # quote_units s @ [34]"

definition number_text :: "rat \<Rightarrow> jstring option" where
  "number_text q =
     (if q = of_int \<lfloor>q\<rfloor> \<and> \<bar>q\<bar> < 10 ^ 21
      then Some ((if q < 0 then [45] else []) @ digits_of_nat (nat \<bar>\<lfloor>q\<rfloor>\<bar>)) else None)"

fun opt_list :: "'a option list \<Rightarrow> 'a list option" where
  "opt_list [] = Some []"
| "opt_list (x # xs) =
     (case x of None \<Rightarrow> None | Some y \<Rightarrow> map_option (\<lambda>ys. y # ys) (opt_list xs))"

fun json_text :: "json \<Rightarrow> jstring option" where
  "json_text JNull = Some (lit ''null'')"
| "json_text (JBool b) = Some (if b then lit ''true'' else lit ''false'')"
| "json_text (JNum q) = number_text q"
| "json_text (JStr s) = Some (json_quote s)"
| "json_text (JArr vs) =
     map_option (\<lambda>ts. lit ''['' @ js_join (lit '','') ts @ lit '']'') (opt_list (map json_text vs))"
| "json_text (JObj ms) =
     map_option (\<lambda>ts. lit ''{'' @ js_join (lit '','') ts @ lit ''}'')
       (opt_list (map (\<lambda>(k, v). map_option (\<lambda>t. json_quote k @ lit '':'' @ t) (json_text v)) ms))"

section \<open>Reading properties\<close>

text \<open>
  A property of a value that was parsed: \<open>undefined\<close> is \<open>None\<close>, reading from \<open>null\<close> throws (the
  outer \<open>None\<close>).  The names the code asks for are not methods of strings, numbers or arrays.
\<close>

fun get_prop :: "jstring \<Rightarrow> json \<Rightarrow> json option option" where
  "get_prop k JNull = None"
| "get_prop k (JObj ms) = Some (map_of ms k)"
| "get_prop k _ = Some None"

text \<open>\<open>Array.prototype.map\<close> with a callback that may throw: the first error ends it.\<close>

fun map_throw :: "('a \<Rightarrow> 'e + 'b) \<Rightarrow> 'a list \<Rightarrow> 'e + 'b list" where
  "map_throw f [] = Inr []"
| "map_throw f (x # xs) =
     (case f x of
        Inl e \<Rightarrow> Inl e
      | Inr y \<Rightarrow> (case map_throw f xs of Inl e \<Rightarrow> Inl e | Inr ys \<Rightarrow> Inr (y # ys)))"

lemma map_throw_Inr_iff: "map_throw f xs = Inr ys \<longleftrightarrow> list_all2 (\<lambda>x y. f x = Inr y) xs ys"
proof (induction xs arbitrary: ys)
  case (Cons x xs)
  then show ?case by (cases ys; cases "f x"; cases "map_throw f xs") auto
qed auto

lemma map_throw_set:
  "map_throw f xs = Inr ys \<Longrightarrow> y \<in> set ys \<Longrightarrow> \<exists>x \<in> set xs. f x = Inr y"
  by (induction xs arbitrary: ys) (auto split: sum.splits)

lemma map_throw_all: "(\<And>x. x \<in> set xs \<Longrightarrow> f x = Inr (g x)) \<Longrightarrow> map_throw f xs = Inr (map g xs)"
  by (induction xs) auto

end
