(* ===== verification/JsonProps.thy ===== *)
theory JsonProps
  imports Json
begin

text \<open>
  What is printed is read back: \<open>JSON_parse\<close> answers every value \<open>json_text\<close> has a text for.
\<close>

section \<open>Strings\<close>

lemma hex_value_digit: "d < 16 \<Longrightarrow> hex_value (hex_digit d) = Some d"
  by (auto simp: hex_value_def hex_digit_def is_digit_def)

lemma hex_four:
  assumes "c < 65536"
  shows "radix_value 16 0 [hex_digit (c div 4096), hex_digit (c div 256 mod 16),
           hex_digit (c div 16 mod 16), hex_digit (c mod 16)] = Some c"
proof -
  have d: "c div 256 = c div 16 div 16" "c div 4096 = c div 256 div 16"
    by (simp_all flip: div_mult2_eq)
  have "c div 4096 * 16 + c div 256 mod 16 = c div 256" unfolding d(2) by (rule div_mult_mod_eq)
  moreover have "c div 256 * 16 + c div 16 mod 16 = c div 16" unfolding d(1) by (rule div_mult_mod_eq)
  moreover have "c div 16 * 16 + c mod 16 = c" by (rule div_mult_mod_eq)
  moreover have "c div 4096 < 16" using assms by (simp add: less_mult_imp_div_less)
  ultimately show ?thesis by (simp add: hex_value_digit)
qed

lemma parse_unicode:
  assumes "c < 65536"
  shows "parse_chars (unicode_escape c @ t) = map_option (\<lambda>(w, r). (c # w, r)) (parse_chars t)"
proof -
  have "c div 4096 mod 16 = c div 4096" using assms by (simp add: less_mult_imp_div_less)
  then have "unicode_escape c @ t = 92 # 117 # hex_digit (c div 4096) # hex_digit (c div 256 mod 16) #
      hex_digit (c div 16 mod 16) # hex_digit (c mod 16) # t"
    by (simp only: unicode_escape_def append_Cons append_Nil)
  then show ?thesis using hex_four [OF assms] by (simp del: radix_value.simps)
qed

lemma parse_escape: "parse_chars (escape_unit c @ t) = map_option (\<lambda>(w, r). (c # w, r)) (parse_chars t)"
proof (cases "c < 32")
  case True
  then show ?thesis by (auto simp: escape_unit_def unescape_def parse_unicode)
next
  case False
  then show ?thesis by (auto simp: escape_unit_def unescape_def)
qed

lemma parse_quote_units: "parse_chars (quote_units s @ 34 # r) = Some (s, r)"
  by (induction s rule: quote_units.induct)
    (auto simp: parse_escape parse_unicode high_surrogate_def low_surrogate_def)

section \<open>Numbers\<close>

text \<open>What may follow a value inside a text.\<close>

definition stops :: "jstring \<Rightarrow> bool" where
  "stops r \<longleftrightarrow> r = [] \<or> hd r \<in> {44, 93, 125}"

lemma stops_simps [simp]: "stops []" "stops (c # r) \<longleftrightarrow> c \<in> {44, 93, 125}"
  by (auto simp: stops_def)

lemma stops_digits:
  assumes "stops r"
  shows "takeWhile is_digit (digits_of_nat n @ r) = digits_of_nat n"
    and "dropWhile is_digit (digits_of_nat n @ r) = r"
proof -
  have "\<not> (r \<noteq> [] \<and> is_digit (hd r))" using assms by (auto simp: stops_def is_digit_def)
  then have "takeWhile is_digit r = []" "dropWhile is_digit r = r" by (cases r; auto)+
  then show "takeWhile is_digit (digits_of_nat n @ r) = digits_of_nat n"
    "dropWhile is_digit (digits_of_nat n @ r) = r"
    using digits_of_nat_digits [of n] by (simp_all add: takeWhile_append2 dropWhile_append2)
qed

lemma no_leading_zero: "\<not> (hd (digits_of_nat n) = 48 \<and> length (digits_of_nat n) > 1)"
proof (cases "n < 10")
  case True
  then show ?thesis by (subst (2) digits_of_nat.simps) simp
next
  case False
  then show ?thesis using hd_digits_of_nat [of n] by simp
qed

lemma hd_digits_not_minus: "hd (digits_of_nat n) \<noteq> 45"
proof -
  have "is_digit (hd (digits_of_nat n))" using digits_of_nat_digits [of n] by (simp add: list.set_sel(1))
  then show ?thesis by (auto simp: is_digit_def)
qed

lemma parse_number_text:
  assumes "number_text q = Some t" "stops r"
  shows "parse_number (t @ r) = Some (q, r)"
proof -
  let ?ds = "digits_of_nat (nat \<bar>\<lfloor>q\<rfloor>\<bar>)"
  from assms(1) have t: "t = (if q < 0 then [45] else []) @ ?ds" and q: "q = of_int \<lfloor>q\<rfloor>"
    by (auto simp: number_text_def split: if_splits)
  have fr: "parse_fraction r = Some ([], r)" "parse_exponent r = Some (0, r)"
    using assms(2) by (cases r; auto simp: parse_fraction_def parse_exponent_def)+
  have neg: "hd (?ds @ r) \<noteq> 45" using hd_digits_not_minus by simp
  have val: "(if q < 0 then - of_nat (nat \<bar>\<lfloor>q\<rfloor>\<bar>) else of_nat (nat \<bar>\<lfloor>q\<rfloor>\<bar>)) = q"
    by (subst (4) q) auto
  show ?thesis
    using no_leading_zero [of "nat \<bar>\<lfloor>q\<rfloor>\<bar>"] neg val
    by (auto simp: parse_number_def t stops_digits [OF assms(2)] fr pow10_def Let_def)
qed

section \<open>Objects\<close>

lemma obj_insert_last:
  "ordered_keys (map fst ms @ [k]) \<Longrightarrow> obj_insert k v ms = ms @ [(k, v)]"
  by (induction ms) auto

lemma obj_put_last: "ordered_keys (map fst ms @ [k]) \<Longrightarrow> obj_put k v ms = ms @ [(k, v)]"
proof -
  assume o: "ordered_keys (map fst ms @ [k])"
  then have "k \<notin> set (map fst ms)" by (induction ms) auto
  with o show ?thesis by (auto simp: obj_put_def obj_insert_last)
qed

lemma ordered_keys_prefix: "ordered_keys (ks @ ls) \<Longrightarrow> ordered_keys ks"
  by (induction ks) auto

section \<open>Values\<close>

lemma skip_ws_fixed [simp]: "\<not> json_space c \<Longrightarrow> skip_ws (c # s) = c # s"
  by (simp add: skip_ws_def)

lemma not_json_space [simp]:
  "\<not> json_space 34" "\<not> json_space 44" "\<not> json_space 58" "\<not> json_space 91" "\<not> json_space 93"
  "\<not> json_space 123" "\<not> json_space 125" "\<not> json_space 116" "\<not> json_space 102" "\<not> json_space 110"
  by (simp_all add: json_space_def)

lemma number_text_hd:
  assumes "number_text q = Some t"
  shows "t \<noteq> [] \<and> (hd t = 45 \<or> is_digit (hd t))"
  using assms digits_of_nat_digits [of "nat \<bar>\<lfloor>q\<rfloor>\<bar>"] list.set_sel(1) [of "digits_of_nat (nat \<bar>\<lfloor>q\<rfloor>\<bar>)"]
  by (auto simp: number_text_def split: if_splits)

text \<open>The first unit of a text tells the parser which case applies.\<close>

lemma json_text_hd:
  assumes "json_text v = Some t"
  shows "t \<noteq> [] \<and> \<not> json_space (hd t) \<and> hd t \<noteq> 93"
  using assms
proof (cases v)
  case (JNum q)
  with assms number_text_hd [of q t] show ?thesis by (auto simp: json_space_def is_digit_def)
qed (auto simp: json_space_def json_quote_def split: if_splits)

lemma parse_number_value:
  assumes "number_text q = Some t" "stops r"
  shows "parse_value (t @ r) = Some (JNum q, r)"
proof -
  obtain c u where t: "t = c # u" "c = 45 \<or> is_digit c"
    using number_text_hd [OF assms(1)] by (cases t) auto
  have "c \<notin> {34, 91, 123, 116, 102, 110}" "\<not> json_space c"
    using t(2) by (auto simp: is_digit_def json_space_def)
  then show ?thesis
    using parse_number_text [OF assms] t by (subst parse_value.simps) simp
qed

text \<open>The texts of elements and members, as \<open>opt_list\<close> collects them.\<close>

lemma opt_list_Some: "opt_list xs = Some ys \<Longrightarrow> length ys = length xs \<and> (\<forall>i < length xs. xs ! i = Some (ys ! i))"
proof (induction xs arbitrary: ys)
  case (Cons x xs)
  then show ?case by (auto simp: nth_Cons split: option.splits nat.splits)
qed simp

lemma opt_list_map_ConsD:
  assumes "opt_list (map f (x # xs)) = Some ts"
  shows "\<exists>t us. ts = t # us \<and> f x = Some t \<and> opt_list (map f xs) = Some us"
  using assms by (auto split: option.splits)

lemma parse_elements_text:
  assumes "opt_list (map json_text (v # vs)) = Some ts"
    and "\<And>x t r. x \<in> set (v # vs) \<Longrightarrow> json_text x = Some t \<Longrightarrow> stops r \<Longrightarrow> parse_value (t @ r) = Some (x, r)"
  shows "parse_elements (js_join [44] ts @ 93 # r) = Some (v # vs, r)"
  using assms
proof (induction vs arbitrary: v ts)
  case Nil
  then obtain t where "ts = [t]" "json_text v = Some t" by (auto split: option.splits)
  with Nil.prems(2) show ?case by (subst parse_elements.simps) simp
next
  case (Cons w vs)
  from opt_list_map_ConsD [OF Cons.prems(1)] obtain t us
    where ts: "ts = t # us" "json_text v = Some t" "opt_list (map json_text (w # vs)) = Some us" by blast
  from opt_list_map_ConsD [OF ts(3)] have "us \<noteq> []" by auto
  then have j: "js_join [44] ts = t @ 44 # js_join [44] us" by (simp add: ts js_join_Cons)
  have "parse_elements (js_join [44] us @ 93 # r) = Some (w # vs, r)"
    by (rule Cons.IH [OF ts(3)]) (use Cons.prems(2) in auto)
  moreover have "parse_value (t @ 44 # js_join [44] us @ 93 # r) = Some (v, 44 # js_join [44] us @ 93 # r)"
    using Cons.prems(2) ts(2) by simp
  ultimately show ?case unfolding j by (subst parse_elements.simps) simp
qed

abbreviation member_text :: "jstring \<times> json \<Rightarrow> jstring option" where
  "member_text \<equiv> \<lambda>(k, v). map_option (\<lambda>t. json_quote k @ lit '':'' @ t) (json_text v)"

lemma parse_member_step:
  assumes "json_text v = Some t" "d = 44 \<or> d = 125"
    and "\<And>r. stops r \<Longrightarrow> parse_value (t @ r) = Some (v, r)"
  shows "parse_members ms (json_quote k @ 58 # t @ d # r) =
    (if d = 125 then Some (obj_put k v ms, r) else parse_members (obj_put k v ms) r)"
proof -
  have "parse_value (t @ d # r) = Some (v, d # r)" using assms by auto
  moreover have "parse_chars (quote_units k @ 34 # 58 # t @ d # r) = Some (k, 58 # t @ d # r)"
    by (rule parse_quote_units)
  ultimately show ?thesis
    using assms(2) by (subst parse_members.simps) (auto simp: json_quote_def)
qed

lemma parse_members_text:
  assumes "opt_list (map member_text (m # ms)) = Some ts"
    and "\<And>x t r. x \<in> set (m # ms) \<Longrightarrow> json_text (snd x) = Some t \<Longrightarrow> stops r \<Longrightarrow>
           parse_value (t @ r) = Some (snd x, r)"
    and "ordered_keys (map fst (acc @ m # ms))"
  shows "parse_members acc (js_join [44] ts @ 125 # r) = Some (acc @ m # ms, r)"
  using assms
proof (induction ms arbitrary: m ts acc)
  case Nil
  obtain k v where m: "m = (k, v)" by fastforce
  with Nil.prems(1) obtain t where t: "ts = [json_quote k @ 58 # t]" "json_text v = Some t"
    by (auto split: option.splits)
  have "parse_members acc (json_quote k @ 58 # t @ 125 # r) = Some (obj_put k v acc, r)"
    by (subst parse_member_step) (use t Nil.prems(2) [of m] m in auto)
  moreover have "obj_put k v acc = acc @ [m]" using Nil.prems(3) m by (simp add: obj_put_last)
  ultimately show ?case by (simp add: t)
next
  case (Cons n ms)
  obtain k v where m: "m = (k, v)" by fastforce
  from opt_list_map_ConsD [OF Cons.prems(1)] obtain t us
    where ts: "ts = (json_quote k @ 58 # t) # us" "json_text v = Some t"
      "opt_list (map member_text (n # ms)) = Some us" by (auto simp: m)
  from opt_list_map_ConsD [OF ts(3)] have "us \<noteq> []" by auto
  then have j: "js_join [44] ts = json_quote k @ 58 # t @ 44 # js_join [44] us"
    by (simp add: ts js_join_Cons)
  have p: "ordered_keys (map fst ((acc @ [m]) @ n # ms))" using Cons.prems(3) by simp
  then have "obj_put k v acc = acc @ [m]"
    using ordered_keys_prefix [of "map fst acc @ [k]" "map fst (n # ms)"]
    by (simp add: obj_put_last m)
  moreover have "parse_members (acc @ [m]) (js_join [44] us @ 125 # r) = Some ((acc @ [m]) @ n # ms, r)"
    by (rule Cons.IH [OF ts(3) _ p]) (use Cons.prems(2) in auto)
  moreover have "parse_members acc (json_quote k @ 58 # t @ 44 # js_join [44] us @ 125 # r) =
      parse_members (obj_put k v acc) (js_join [44] us @ 125 # r)"
    by (subst parse_member_step) (use ts(2) Cons.prems(2) [of m] m in auto)
  ultimately show ?case by (simp add: j)
qed

lemma parse_value_text:
  "json_text v = Some t \<Longrightarrow> json_wf v \<Longrightarrow> stops r \<Longrightarrow> parse_value (t @ r) = Some (v, r)"
proof (induction v arbitrary: t r)
  case JNull
  then show ?case by (subst parse_value.simps) (auto simp: parse_word_def startsWith_def)
next
  case (JBool b)
  then show ?case by (subst parse_value.simps) (auto simp: parse_word_def startsWith_def split: if_splits)
next
  case (JNum q)
  then show ?case by (simp add: parse_number_value)
next
  case (JStr s)
  then show ?case by (subst parse_value.simps) (auto simp: json_quote_def parse_quote_units)
next
  case (JArr vs)
  show ?case
  proof (cases vs)
    case Nil
    with JArr show ?thesis by (subst parse_value.simps) auto
  next
    case (Cons w ws)
    with JArr.prems obtain ts where ts: "opt_list (map json_text (w # ws)) = Some ts"
      "t = 91 # js_join [44] ts @ [93]" by auto
    have e: "parse_elements (js_join [44] ts @ 93 # r) = Some (w # ws, r)"
      by (rule parse_elements_text [OF ts(1)]) (use JArr Cons in auto)
    from opt_list_map_ConsD [OF ts(1)] obtain x us where "ts = x # us" "json_text w = Some x" by auto
    then have "js_join [44] ts \<noteq> [] \<and> hd (js_join [44] ts) = hd x" "hd x \<noteq> 93" "\<not> json_space (hd x)"
      using json_text_hd [of w x] by (cases us; auto)+
    then obtain u where "js_join [44] ts = hd x # u" "hd x \<noteq> 93" "\<not> json_space (hd x)"
      by (metis list.collapse)
    with e ts(2) Cons show ?thesis by (subst parse_value.simps) simp
  qed
next
  case (JObj ms)
  show ?case
  proof (cases ms)
    case Nil
    with JObj show ?thesis by (subst parse_value.simps) auto
  next
    case (Cons m ns)
    with JObj.prems obtain ts where ts: "opt_list (map member_text (m # ns)) = Some ts"
      "t = 123 # js_join [44] ts @ [125]" by auto
    have e: "parse_members [] (js_join [44] ts @ 125 # r) = Some ([] @ m # ns, r)"
    proof (rule parse_members_text [OF ts(1)])
      fix x t r
      assume x: "x \<in> set (m # ns)" "json_text (snd x) = Some t" "stops r"
      have "snd x \<in> Basic_BNFs.snds x" by (cases x) simp
      moreover have "json_wf (snd x)" using JObj.prems(2) x(1) Cons by auto
      ultimately show "parse_value (t @ r) = Some (snd x, r)"
        using JObj.IH [of x "snd x" t r] x Cons by simp
    qed (use JObj.prems(2) Cons in simp)
    from opt_list_map_ConsD [OF ts(1)] obtain x us where "ts = x # us" "member_text m = Some x" by auto
    then obtain u where "js_join [44] ts = 34 # u"
      by (cases m; cases us) (auto simp: json_quote_def)
    with e ts(2) Cons show ?thesis by (subst parse_value.simps) simp
  qed
qed

text \<open>What \<open>JSON.stringify\<close> writes, \<open>JSON.parse\<close> reads back as the same value, whatever the strings in it
  and however deep it is.\<close>

theorem json_round_trip:
  assumes "json_text v = Some t" "json_wf v"
  shows "JSON_parse t = Some v"
  using parse_value_text [OF assms, of "[]"] by (simp add: JSON_parse_def skip_ws_def)

section \<open>Objects\<close>

lemma map_of_obj_insert: "k \<notin> fst ` set ms \<Longrightarrow> map_of (obj_insert k v ms) = (map_of ms)(k \<mapsto> v)"
  by (induction ms) (auto simp: fun_eq_iff)

lemma map_of_obj_update:
  "map_of (map (\<lambda>(l, w). if l = k then (l, v) else (l, w)) ms) l =
     (if l = k \<and> map_of ms l \<noteq> None then Some v else map_of ms l)"
  by (induction ms) auto

lemma map_of_obj_put: "map_of (obj_put k v ms) = (map_of ms)(k \<mapsto> v)"
proof (cases "k \<in> fst ` set ms")
  case True
  then have "map_of ms k \<noteq> None" by (auto simp: map_of_eq_None_iff)
  with True show ?thesis by (auto simp: obj_put_def map_of_obj_update fun_eq_iff)
qed (simp add: obj_put_def map_of_obj_insert)

lemma set_obj_insert: "set (obj_insert k v ms) = insert (k, v) (set ms)"
  by (induction ms) (auto split: if_splits)

lemma index_key_inj: "index_key k \<Longrightarrow> index_key l \<Longrightarrow> nat_of_digits k = nat_of_digits l \<Longrightarrow> k = l"
  unfolding index_key_def by metis

lemma ordered_insert:
  assumes "ordered_keys (map fst ms)" "k \<notin> fst ` set ms"
  shows "ordered_keys (map fst (obj_insert k v ms))"
  using assms
proof (induction ms)
  case (Cons m ms)
  obtain l w where m: "m = (l, w)" by fastforce
  show ?case
  proof (cases "comes_after k l \<or> \<not> index_key k")
    case True
    with Cons show ?thesis by (auto simp: m set_obj_insert comes_after_def)
  next
    case False
    have "nat_of_digits k < nat_of_digits l" if "index_key l"
      using that False Cons.prems(2) index_key_inj [of k l] by (force simp: m comes_after_def)
    with False Cons.prems show ?thesis by (force simp: m comes_after_def)
  qed
qed simp

lemma obj_put_wf:
  assumes "json_wf (JObj ms)" "json_wf v"
  shows "json_wf (JObj (obj_put k v ms))"
proof (cases "k \<in> fst ` set ms")
  case True
  define put where "put = (\<lambda>m :: jstring \<times> json. if fst m = k then (fst m, v) else m)"
  have "obj_put k v ms = map put ms" using True by (simp add: obj_put_def put_def split_def)
  moreover have "map fst (map put ms) = map fst ms" by (simp add: put_def)
  moreover have "json_wf (snd (put m))" if "m \<in> set ms" for m using that assms by (simp add: put_def)
  ultimately show ?thesis using assms(1) by (simp del: map_map)
next
  case False
  with assms show ?thesis by (simp add: obj_put_def set_obj_insert ordered_insert)
qed

lemma ordered_filter: "ordered_keys (map fst ms) \<Longrightarrow> ordered_keys (map fst (filter P ms))"
  by (induction ms) auto

lemma filter_wf: "json_wf (JObj ms) \<Longrightarrow> json_wf (JObj (filter P ms))"
  by (simp add: ordered_filter)

lemma map_of_filter_keys: "map_of (filter (\<lambda>(k, v). P k) ms) k = (if P k then map_of ms k else None)"
  by (induction ms) auto

section \<open>The parser consumes its input\<close>

text \<open>The comparisons of lengths in the parser never fail.\<close>

lemma map_option_SomeD: "map_option f x = Some y \<Longrightarrow> \<exists>z. x = Some z \<and> y = f z"
  by (cases x) auto

lemma parse_chars_shorter: "parse_chars s = Some (w, r) \<Longrightarrow> length r < length s"
proof (induction s arbitrary: w r rule: parse_chars.induct)
  case (2 c s)
  consider (quote) "c = 34" | (plain) "c \<noteq> 34" "c \<noteq> 92"
    | (unicode) a b d f u where "c = 92" "s = 117 # a # b # d # f # u"
    | (escape) e u where "c = 92" "e \<noteq> 117" "s = e # u"
    using "2.prems" by (auto split: if_splits list.splits)
  then show ?case
  proof cases
    case plain
    with "2.prems" show ?thesis
      by (auto split: if_splits dest!: map_option_SomeD "2.IH"(3) [rotated -1])
  next
    case unicode
    with "2.prems" obtain n z where "radix_value 16 0 [a, b, d, f] = Some n" "parse_chars u = Some z" "r = snd z"
      by (auto split: option.splits simp del: radix_value.simps)
    with 2 unicode show ?thesis by (cases z) fastforce
  next
    case escape
    with "2.prems" obtain n z where "unescape e = Some n" "parse_chars u = Some z" "r = snd z"
      by (auto split: option.splits)
    with 2 escape show ?thesis by (cases z) fastforce
  qed (use "2.prems" in simp)
qed simp

lemma parse_number_shorter: "parse_number s = Some (q, r) \<Longrightarrow> length r < length s"
proof -
  assume p: "parse_number s = Some (q, r)"
  define u where "u = (if s \<noteq> [] \<and> hd s = 45 then tl s else s)"
  have drop: "length (dropWhile is_digit x) \<le> length x" for x by (rule length_dropWhile_le)
  from p obtain fp v e where d: "takeWhile is_digit u \<noteq> []"
    "parse_fraction (dropWhile is_digit u) = Some (fp, v)" "parse_exponent v = Some (e, r)"
    by (auto simp: parse_number_def Let_def u_def split: if_splits option.splits)
  have "length (dropWhile is_digit u) < length u"
    using d(1) drop [of "tl u"] by (cases u) (auto simp: le_imp_less_Suc split: if_splits)
  moreover have "length v \<le> length (dropWhile is_digit u)"
    using d(2) drop [of "tl (dropWhile is_digit u)"]
    by (auto simp: parse_fraction_def Let_def split: if_splits)
  moreover have "length r \<le> length v"
    using d(3) drop [of "tl v"] drop [of "tl (tl v)"]
    by (cases v) (auto simp: parse_exponent_def Let_def split: if_splits)
  moreover have "length u \<le> length s" by (simp add: u_def)
  ultimately show ?thesis by linarith
qed

lemma parse_word_shorter: "w \<noteq> [] \<Longrightarrow> parse_word w v s = Some (x, r) \<Longrightarrow> length r < length s"
  by (cases s) (auto simp: parse_word_def startsWith_def split: if_splits)

lemma parse_shorter:
  "parse_value s = Some (v, r) \<Longrightarrow> length r < length s"
  "parse_elements s = Some (vs, r) \<Longrightarrow> length r < length s"
  "parse_members ms s = Some (ns, r) \<Longrightarrow> length r < length s"
proof (induction s and s and ms s arbitrary: v r and vs r and ns r
    rule: parse_value_parse_elements_parse_members.induct)
  case (1 s)
  then show ?case unfolding parse_value.simps [of s]
    by
      (auto split: list.splits if_splits dest!: map_option_SomeD skip_ws_shorter parse_chars_shorter
        parse_word_shorter [rotated] parse_number_shorter; meson less_trans)
next
  case (2 s)
  then show ?case unfolding parse_elements.simps [of s]
    by
      (auto split: list.splits if_splits option.splits dest!: map_option_SomeD skip_ws_shorter;
        meson less_trans)
next
  case (3 ms s)
  obtain r1 k r2 r3 x r4 d r5
    where p: "skip_ws s = 34 # r1" "parse_chars r1 = Some (k, r2)" "skip_ws r2 = 58 # r3"
      "length r3 < length s" "parse_value r3 = Some (x, r4)" "skip_ws r4 = d # r5"
      "d = 125 \<and> r = r5 \<or> d = 44 \<and> length r5 < length s \<and> parse_members (obj_put k x ms) r5 = Some (ns, r)"
    using "3.prems" unfolding parse_members.simps [of ms s]
    by (auto split: list.splits if_splits option.splits)
  have "length r4 < length r3" using "3.IH"(1) p by simp
  moreover have "length r5 < length r4" using p(6) by (rule skip_ws_shorter)
  moreover have "d \<noteq> 125 \<Longrightarrow> length r < length r5" using "3.IH"(2) p by auto
  ultimately show ?case using p(4,7) by auto
qed

end
