(* ===== verification/WhiteList.thy ===== *)
theory WhiteList
  imports FirewallProps JsonProps
begin

text \<open>
  The white list of the firewall settings:
  \<^verbatim>\<open>src/web/src/views/host/firewall/setting/white-list/model.ts\<close>.  The list is stored as one
  string, in JSON or in the older form of words like \<^verbatim>\<open>ipv4/8080/tcp\<close>.  What the parser of JSON
  answers is not checked before the rules are normalised, so a rule is any value here; a rule
  that went through the normalisation is a record of the three strings.
\<close>

section \<open>Rules\<close>

record wl_rule =
  wl_family :: jstring
  wl_protocol :: jstring
  wl_port :: jstring

text \<open>\<open>x?.toLowerCase()\<close> of a property: only strings have the method.\<close>

fun lower_prop :: "json option \<Rightarrow> fw_error + jstring option" where
  "lower_prop None = Inr None"
| "lower_prop (Some JNull) = Inr None"
| "lower_prop (Some (JStr s)) = Inr (Some (toLowerCase s))"
| "lower_prop (Some _) = Inl NoProperty"

fun port_prop :: "json option \<Rightarrow> fw_error + jstring" where
  "port_prop (Some (JStr s)) = normalizePortRange s"
| "port_prop _ = Inl NoProperty"

definition normalizeWhiteListRule :: "json \<Rightarrow> fw_error + wl_rule" where
  "normalizeWhiteListRule rule =
     (case (get_prop (lit ''family'') rule, get_prop (lit ''protocol'') rule, get_prop (lit ''port'') rule) of
        (Some family, Some protocol, Some port) \<Rightarrow>
          (case lower_prop family of
             Inl e \<Rightarrow> Inl e
           | Inr family \<Rightarrow>
               (case lower_prop protocol of
                  Inl e \<Rightarrow> Inl e
                | Inr protocol \<Rightarrow>
                    (case (family, protocol) of
                       (Some f, Some p) \<Rightarrow>
                         (if f \<notin> {lit ''ipv4'', lit ''ipv6''} \<or> p \<notin> {lit ''tcp'', lit ''udp''}
                          then Inl InvalidWhitelistRule
                          else case port_prop port of
                            Inl e \<Rightarrow> Inl e
                          | Inr n \<Rightarrow> Inr \<lparr>wl_family = f, wl_protocol = p, wl_port = n\<rparr>)
                     | _ \<Rightarrow> Inl InvalidWhitelistRule)))
      | _ \<Rightarrow> Inl NoProperty)"

text \<open>The object \<open>{ family, protocol, port }\<close>.\<close>

definition rule_object :: "wl_rule \<Rightarrow> json" where
  "rule_object r =
     JObj [(lit ''family'', JStr (wl_family r)), (lit ''protocol'', JStr (wl_protocol r)), (lit ''port'', JStr (wl_port r))]"

definition whiteListRuleKey :: "json \<Rightarrow> fw_error + jstring" where
  "whiteListRuleKey rule =
     (case normalizeWhiteListRule rule of
        Inl e \<Rightarrow> Inl e
      | Inr n \<Rightarrow> Inr (wl_family n @ lit ''/'' @ wl_protocol n @ lit ''/'' @ wl_port n))"

section \<open>The stored string\<close>

definition word_rule :: "jstring \<Rightarrow> json" where
  "word_rule item =
     (let parts = js_split (lit ''/'') item in
      if length parts = 3 then
        JObj [(lit ''family'', JStr (parts ! 0)), (lit ''port'', JStr (parts ! 1)), (lit ''protocol'', JStr (parts ! 2))]
      else
        JObj [(lit ''family'', JStr (lit ''ipv4'')), (lit ''port'', JStr (parts ! 0)),
              (lit ''protocol'', JStr (if length parts > 1 \<and> parts ! 1 \<noteq> [] then parts ! 1 else lit ''tcp''))])"

definition list_sep :: "nat \<Rightarrow> bool" where
  "list_sep c \<longleftrightarrow> is_space c \<or> c = 44 \<or> c = 59"

definition stored_rules :: "jstring \<Rightarrow> fw_error + json list" where
  "stored_rules input =
     (if startsWith input (lit ''['') then
        (case JSON_parse input of
           None \<Rightarrow> Inl JsonError
         | Some (JArr rules) \<Rightarrow> Inr rules
         | Some _ \<Rightarrow> Inl NoProperty)
      else Inr (map word_rule (filter (\<lambda>w. w \<noteq> []) (split_runs list_sep input))))"

fun rules_loop :: "jstring set \<Rightarrow> wl_rule list \<Rightarrow> json list \<Rightarrow> fw_error + wl_rule list" where
  "rules_loop seen result [] = Inr result"
| "rules_loop seen result (item # items) =
     (case normalizeWhiteListRule item of
        Inl e \<Rightarrow> Inl e
      | Inr rule \<Rightarrow>
          (case whiteListRuleKey (rule_object rule) of
             Inl e \<Rightarrow> Inl e
           | Inr key \<Rightarrow>
               (if key \<in> seen then rules_loop seen result items
                else rules_loop (insert key seen) (result @ [rule]) items)))"

definition parseWhiteList :: "jstring option \<Rightarrow> fw_error + wl_rule list" where
  "parseWhiteList value =
     (let input = (case value of None \<Rightarrow> [] | Some v \<Rightarrow> trim v) in
      if input = [] then Inr []
      else case stored_rules input of Inl e \<Rightarrow> Inl e | Inr rules \<Rightarrow> rules_loop {} [] rules)"

definition serializeWhiteList :: "json list \<Rightarrow> fw_error + jstring" where
  "serializeWhiteList rules =
     (case map_throw normalizeWhiteListRule rules of
        Inl e \<Rightarrow> Inl e
      | Inr ns \<Rightarrow>
          (case json_text (JArr (map rule_object ns)) of None \<Rightarrow> Inl JsonError | Some t \<Rightarrow> Inr t))"

definition whiteListRuleCount :: "jstring option \<Rightarrow> nat" where
  "whiteListRuleCount value = (case parseWhiteList value of Inl _ \<Rightarrow> 0 | Inr rules \<Rightarrow> length rules)"

section \<open>Overlap\<close>

fun num_leq :: "jsnum \<Rightarrow> jsnum \<Rightarrow> bool" where
  "num_leq x NaN = False"
| "num_leq x (Fin q) = num_le x q"
| "num_leq x (Infinite neg) = (x \<noteq> NaN \<and> (neg \<longrightarrow> x = Infinite True))"

definition port_bounds :: "jstring \<Rightarrow> jsnum \<times> jsnum" where
  "port_bounds port =
     (let ns = map js_Number (js_split (lit ''-'') port); start = ns ! 0
      in (start, if length ns > 1 then ns ! 1 else start))"

definition whiteListRulesOverlap :: "json \<Rightarrow> json \<Rightarrow> fw_error + bool" where
  "whiteListRulesOverlap left right =
     (case normalizeWhiteListRule left of
        Inl e \<Rightarrow> Inl e
      | Inr first \<Rightarrow>
          (case normalizeWhiteListRule right of
             Inl e \<Rightarrow> Inl e
           | Inr second \<Rightarrow>
               (if wl_family first \<noteq> wl_family second \<or> wl_protocol first \<noteq> wl_protocol second then Inr False
                else
                  let l = port_bounds (wl_port first); r = port_bounds (wl_port second)
                  in Inr (num_leq (fst l) (snd r) \<and> num_leq (fst r) (snd l)))))"

section \<open>Normal rules\<close>

text \<open>What normalisation answers: one of the two families and protocols, and the text of a range.\<close>

definition range_form :: "jstring \<Rightarrow> bool" where
  "range_form s \<longleftrightarrow> (\<exists>a b. 1 \<le> a \<and> a \<le> b \<and> b \<le> 65535 \<and> s = range_text a b)"

definition normal_rule :: "wl_rule \<Rightarrow> bool" where
  "normal_rule r \<longleftrightarrow> wl_family r \<in> {lit ''ipv4'', lit ''ipv6''} \<and> wl_protocol r \<in> {lit ''tcp'', lit ''udp''} \<and> range_form (wl_port r)"

definition rule_key :: "wl_rule \<Rightarrow> jstring" where
  "rule_key r = wl_family r @ 47 # wl_protocol r @ 47 # wl_port r"

lemma port_prop_InrD:
  "port_prop p = Inr n \<Longrightarrow> range_form n"
  unfolding range_form_def by (induction p rule: port_prop.induct) (use normalizePortRange_InrD in fastforce)+

lemma normalize_normal:
  assumes "normalizeWhiteListRule rule = Inr n"
  shows "normal_rule n"
  using assms
  by (auto simp: normalizeWhiteListRule_def normal_rule_def simp del: lit_simps
      split: option.splits sum.splits if_splits dest: port_prop_InrD)

lemma rule_object_props [simp]:
  "get_prop (lit ''family'') (rule_object r) = Some (Some (JStr (wl_family r)))"
  "get_prop (lit ''protocol'') (rule_object r) = Some (Some (JStr (wl_protocol r)))"
  "get_prop (lit ''port'') (rule_object r) = Some (Some (JStr (wl_port r)))"
  by (simp_all add: rule_object_def)

lemma lower_names: "toLowerCase (lit ''ipv4'') = lit ''ipv4''" "toLowerCase (lit ''ipv6'') = lit ''ipv6''"
  "toLowerCase (lit ''tcp'') = lit ''tcp''" "toLowerCase (lit ''udp'') = lit ''udp''"
  by (simp_all add: lower_unit_def is_upper_def)

lemma normalize_object:
  assumes "normal_rule r"
  shows "normalizeWhiteListRule (rule_object r) = Inr r"
proof -
  obtain a b where ab: "1 \<le> a" "a \<le> b" "b \<le> 65535" "wl_port r = range_text a b"
    and f: "toLowerCase (wl_family r) = wl_family r" "wl_family r \<in> {lit ''ipv4'', lit ''ipv6''}"
    and p: "toLowerCase (wl_protocol r) = wl_protocol r" "wl_protocol r \<in> {lit ''tcp'', lit ''udp''}"
    using assms lower_names by (auto simp: normal_rule_def range_form_def simp del: lit_simps)
  have "normalizePortRange (wl_port r) = Inr (wl_port r)" using ab normalize_range_text by simp
  then show ?thesis
    using f p by (simp add: normalizeWhiteListRule_def del: lit_simps)
qed

lemma key_object: "normal_rule r \<Longrightarrow> whiteListRuleKey (rule_object r) = Inr (rule_key r)"
  by (simp add: whiteListRuleKey_def normalize_object rule_key_def)

lemma rules_loop_eq:
  "map_throw normalizeWhiteListRule items = Inr ns \<Longrightarrow> rules_loop seen result items = Inr (seen_loop rule_key seen result ns)"
proof (induction items arbitrary: ns seen result)
  case (Cons item items)
  then obtain n ms where n: "normalizeWhiteListRule item = Inr n" "map_throw normalizeWhiteListRule items = Inr ms" "ns = n # ms"
    by (auto split: sum.splits)
  with Cons.IH show ?case by (simp add: key_object normalize_normal)
qed simp

lemma rules_loop_InrD:
  "rules_loop seen result items = Inr rs \<Longrightarrow> \<exists>ns. map_throw normalizeWhiteListRule items = Inr ns"
proof (induction items arbitrary: seen result)
  case (Cons item items)
  then show ?case by (force split: sum.splits if_splits)
qed simp

interpretation wl: keyed_loop rule_key normal_rule
proof
  fix r s :: wl_rule
  assume n: "normal_rule r" "normal_rule s" and k: "rule_key r = rule_key s"
  have fresh: "47 \<notin> set (wl_family x) \<and> 47 \<notin> set (wl_protocol x)" if "normal_rule x" for x
    using that by (auto simp: normal_rule_def)
  from k have "wl_family r = wl_family s \<and> wl_protocol r = wl_protocol s \<and> wl_port r = wl_port s"
    unfolding rule_key_def by (simp add: append_Cons_fresh_eq fresh [OF n(1)] fresh [OF n(2)])
  then show "r = s" by simp
qed

section \<open>Saving keeps the list\<close>

lemma rule_text: "json_text (rule_object r) \<noteq> None"
  by (simp add: rule_object_def)

lemma opt_list_texts: "\<exists>ts. opt_list (map json_text (map rule_object rs)) = Some ts"
proof (induction rs)
  case (Cons r rs)
  then show ?case using rule_text [of r] by auto
qed simp

lemma object_keys: "ordered_keys [lit ''family'', lit ''protocol'', lit ''port'']"
  by (simp add: index_key_def all_digits_def is_digit_def)

lemma rules_wf: "json_wf (JArr (map rule_object rs))"
  using object_keys by (auto simp: rule_object_def simp del: lit_simps)

lemma serialize_objects:
  assumes "\<forall>r \<in> set rs. normal_rule r"
  obtains t where "serializeWhiteList (map rule_object rs) = Inr t" "json_text (JArr (map rule_object rs)) = Some t"
proof -
  have "map_throw normalizeWhiteListRule (map rule_object rs) = Inr rs"
    using assms by (auto simp: map_throw_Inr_iff list_all2_conv_all_nth normalize_object)
  moreover obtain ts where "opt_list (map json_text (map rule_object rs)) = Some ts"
    using opt_list_texts by blast
  ultimately show ?thesis using that by (simp add: serializeWhiteList_def)
qed

lemma parse_rule_texts:
  assumes "\<forall>r \<in> set rs. normal_rule r" "json_text (JArr (map rule_object rs)) = Some t"
  shows "parseWhiteList (Some t) = Inr (seen_dedup rule_key rs)"
proof -
  from assms(2) obtain u where t: "t = 91 # u @ [93]" by auto
  then have "trim t = t" by (intro trim_fixed) (auto simp: is_space_def)
  moreover have "JSON_parse t = Some (JArr (map rule_object rs))"
    using assms(2) rules_wf by (rule json_round_trip)
  moreover have "map_throw normalizeWhiteListRule (map rule_object rs) = Inr rs"
    using assms(1) by (auto simp: map_throw_Inr_iff list_all2_conv_all_nth normalize_object)
  ultimately show ?thesis
    using t by (simp add: parseWhiteList_def stored_rules_def startsWith_def rules_loop_eq seen_dedup_def)
qed

lemma parsed_rules:
  assumes "parseWhiteList v = Inr rs"
  shows "(\<forall>r \<in> set rs. normal_rule r) \<and> distinct (map rule_key rs)"
proof -
  from assms consider "rs = []" | items where "rules_loop {} [] items = Inr rs"
    unfolding parseWhiteList_def Let_def by (metis Inr_inject old.sum.exhaust sum.simps(5,6) Inl_Inr_False)
  then show ?thesis
  proof cases
    case 2
    then obtain ns where ns: "map_throw normalizeWhiteListRule items = Inr ns"
      using rules_loop_InrD by blast
    with 2 have rs: "rs = seen_dedup rule_key ns" by (simp add: rules_loop_eq seen_dedup_def)
    from ns have "\<forall>n \<in> set ns. normal_rule n"
      by (auto dest!: map_throw_set [OF ns] normalize_normal)
    then show ?thesis
      using rs seen_dedup_subset [of rule_key ns] seen_dedup_distinct_keys [of rule_key ns] by auto
  qed simp
qed

lemmas wl_eval = parseWhiteList_def stored_rules_def startsWith_def split_runs.simps list_sep_def is_space_def
  trim_def trim_end_def trim_start_def word_rule_def js_split_unit normalizeWhiteListRule_def lower_unit_def
  is_upper_def normalizePortRange_def match_range_def is_digit_def all_digits_def nat_of_digits_Cons
  whiteListRuleKey_def rule_object_def digits_of_nat.simps

lemma white_list_example:
  "parseWhiteList (Some (lit ''ipv6/53/UDP,80'')) =
    Inr [\<lparr>wl_family = lit ''ipv6'', wl_protocol = lit ''udp'', wl_port = lit ''53''\<rparr>,
         \<lparr>wl_family = lit ''ipv4'', wl_protocol = lit ''tcp'', wl_port = lit ''80''\<rparr>]"
  by (simp add: wl_eval)

text \<open>C36: Opening the white list and saving it unchanged keeps it, whichever of the two stored forms it had:
  the rules that were read are distinct and normal, they have a JSON text, and reading that text gives
  the same rules in the same order, which is also the count the settings page shows.\<close>

theorem white_list_round_trip:
  assumes "parseWhiteList v = Inr rs"
  shows "(\<forall>r \<in> set rs. normal_rule r) \<and> distinct rs \<and>
    (\<exists>t. serializeWhiteList (map rule_object rs) = Inr t \<and> parseWhiteList (Some t) = Inr rs \<and>
         whiteListRuleCount (Some t) = length rs)"
proof -
  note p = parsed_rules [OF assms]
  then obtain t where t: "serializeWhiteList (map rule_object rs) = Inr t" "json_text (JArr (map rule_object rs)) = Some t"
    using serialize_objects by blast
  have "parseWhiteList (Some t) = Inr rs"
    using parse_rule_texts [OF _ t(2)] p by (simp add: seen_dedup_fixed)
  with t p show ?thesis by (auto simp: whiteListRuleCount_def distinct_map)
qed

theorem white_list_round_trip_witness:
  "\<exists>rs t. parseWhiteList (Some (lit ''ipv6/53/UDP,80'')) = Inr rs \<and> length rs = 2 \<and>
    serializeWhiteList (map rule_object rs) = Inr t \<and> parseWhiteList (Some t) = Inr rs"
  using white_list_round_trip [OF white_list_example] white_list_example
  by (simp del: lit_simps list.map) blast

section \<open>Overlapping rules\<close>

text \<open>The ports of a rule, as a set.\<close>

definition ports_of :: "wl_rule \<Rightarrow> nat set" where
  "ports_of r = {p. \<exists>a b. wl_port r = range_text a b \<and> a \<le> p \<and> p \<le> b}"

lemma range_text_inject: "range_text a b = range_text c d \<longleftrightarrow> a = c \<and> b = d"
proof
  assume "range_text a b = range_text c d"
  then have "match_range (range_text a b) = match_range (range_text c d)" by simp
  then show "a = c \<and> b = d" unfolding match_range_text by (auto split: if_splits)
qed simp

lemma port_bounds_text: "port_bounds (range_text a b) = (Fin (of_nat a), Fin (of_nat b))"
proof -
  have "45 \<notin> set (digits_of_nat n)" for n using digits_units [of 45 n] by (auto simp: is_digit_def)
  then have "js_split [45] (range_text a b) = (if a = b then [digits_of_nat a] else [digits_of_nat a, digits_of_nat b])"
    by (simp add: js_split_unit range_text_def split_unit_append_sep split_unit_fresh)
  then show ?thesis by (auto simp: port_bounds_def Let_def)
qed

text \<open>Two rules overlap exactly when they have the same family and protocol and some port belongs to
  both; a rule that does not normalise makes the comparison throw, so it never answers wrongly.\<close>

theorem overlap_shares_port:
  assumes "normalizeWhiteListRule left = Inr l" "normalizeWhiteListRule right = Inr r"
  shows "whiteListRulesOverlap left right =
    Inr (wl_family l = wl_family r \<and> wl_protocol l = wl_protocol r \<and> ports_of l \<inter> ports_of r \<noteq> {})"
proof -
  obtain a b c d where ab: "wl_port l = range_text a b" "a \<le> b" and cd: "wl_port r = range_text c d" "c \<le> d"
    using assms [THEN normalize_normal] by (auto simp: normal_rule_def range_form_def simp del: lit_simps)
  have "ports_of l \<inter> ports_of r \<noteq> {} \<longleftrightarrow> a \<le> d \<and> c \<le> b"
  proof
    assume "a \<le> d \<and> c \<le> b"
    with ab cd have "max a c \<in> ports_of l \<inter> ports_of r" by (auto simp: ports_of_def range_text_inject)
    then show "ports_of l \<inter> ports_of r \<noteq> {}" by blast
  qed (auto simp: ports_of_def ab cd range_text_inject)
  then show ?thesis using assms by (auto simp: whiteListRulesOverlap_def ab cd port_bounds_text)
qed

theorem overlap_shares_port_witness:
  "whiteListRulesOverlap (word_rule (lit ''ipv4/80-90/tcp'')) (word_rule (lit ''85/TCP'')) = Inr True"
proof -
  let ?a = "word_rule (lit ''ipv4/80-90/tcp'')" and ?b = "word_rule (lit ''85/TCP'')"
  have "normalizeWhiteListRule ?a = Inr \<lparr>wl_family = lit ''ipv4'', wl_protocol = lit ''tcp'', wl_port = range_text 80 90\<rparr>"
    "normalizeWhiteListRule ?b = Inr \<lparr>wl_family = lit ''ipv4'', wl_protocol = lit ''tcp'', wl_port = range_text 85 85\<rparr>"
    by (simp_all add: wl_eval range_text_def)
  note e = overlap_shares_port [OF this]
  have "85 \<in> {p::nat. 80 \<le> p \<and> p \<le> 90} \<inter> {p. 85 \<le> p \<and> p \<le> 85}" by simp
  then have "{p::nat. 80 \<le> p \<and> p \<le> 90} \<inter> {p. 85 \<le> p \<and> p \<le> 85} \<noteq> {}" by blast
  with e show ?thesis by (simp add: ports_of_def range_text_inject del: lit_simps)
qed

end
