(* ===== verification/DockerGuard.thy ===== *)
theory DockerGuard
  imports WhiteList "HOL-Library.AList" "HOL-Library.Multiset"
begin

text \<open>
  Policies that guard the published ports of containers, and their import from a file:
  \<^verbatim>\<open>src/web/src/views/host/firewall/docker/model.ts\<close> and
  \<^verbatim>\<open>src/web/src/views/host/firewall/docker/import/index.vue\<close>.  A policy of the file is any value
  of JSON; the address family and the numbers of an accepted policy have been checked, while
  the protocol and the mode are kept as they came.  A \<open>Map\<close> is an association list
  (\<open>AList.update\<close> keeps the place of a key, as \<open>Map.set\<close> does).
\<close>

section \<open>Policies\<close>

record policy =
  dg_family :: family
  dg_hostIP :: jstring
  dg_hostPort :: nat
  dg_protocol :: json
  dg_mode :: json
  dg_sources :: "jstring list"
  dg_description :: jstring

text \<open>
  \<open>names.includes(String(x))\<close> for names without a comma that are the text of no other kind of
  value: an array of one element has the text of that element.
\<close>

fun named :: "jstring list \<Rightarrow> json \<Rightarrow> bool" where
  "named names (JStr s) = (s \<in> set names)"
| "named names (JArr [v]) = named names v"
| "named names _ = False"

fun name_of :: "json \<Rightarrow> jstring" where
  "name_of (JStr s) = s"
| "name_of (JArr [v]) = name_of v"
| "name_of _ = []"

definition named_prop :: "jstring list \<Rightarrow> json option \<Rightarrow> bool" where
  "named_prop names v = (case v of None \<Rightarrow> False | Some v \<Rightarrow> named names v)"

text \<open>The comparison with an inferred family is false for anything but the string.\<close>

definition family_name :: "family \<Rightarrow> jstring" where
  "family_name f = (case f of IPv4 \<Rightarrow> lit ''ipv4'' | IPv6 \<Rightarrow> lit ''ipv6'' | Inet \<Rightarrow> lit ''inet'')"

definition family_of :: "json \<Rightarrow> family option" where
  "family_of v =
     (if v = JStr (lit ''ipv4'') then Some IPv4 else if v = JStr (lit ''ipv6'') then Some IPv6 else None)"

definition isValidDockerGuardSource :: "family \<Rightarrow> jstring \<Rightarrow> bool" where
  "isValidDockerGuardSource family value = isValidAddressForFamily family value True"

fun string_list :: "json \<Rightarrow> jstring list option" where
  "string_list (JArr vs) = opt_list (map (\<lambda>v. case v of JStr s \<Rightarrow> Some s | _ \<Rightarrow> None) vs)"
| "string_list _ = None"

definition deny_all :: json where
  "deny_all = JStr (lit ''deny_all'')"

definition port_number :: "json option \<Rightarrow> nat option" where
  "port_number v =
     (case v of
        Some (JNum q) \<Rightarrow>
          if q \<noteq> of_int \<lfloor>q\<rfloor> then None else if q < 1 \<or> q > 65535 then None else Some (nat \<lfloor>q\<rfloor>)
      | _ \<Rightarrow> None)"

definition guard_sources :: "family \<Rightarrow> json \<Rightarrow> json option \<Rightarrow> jstring list option" where
  "guard_sources family mode v =
     (case v of
        None \<Rightarrow> None
      | Some v \<Rightarrow>
          (case string_list v of
             None \<Rightarrow> None
           | Some ss \<Rightarrow>
               (let sources = filter (\<lambda>s. s \<noteq> []) (map trim ss) in
                if mode \<noteq> deny_all \<and> sources = [] then None
                else if mode \<noteq> deny_all \<and> \<not> list_all (isValidDockerGuardSource family) sources then None
                else Some sources)))"

text \<open>A missing description is the empty string.\<close>

fun description_prop :: "json option \<Rightarrow> jstring option" where
  "description_prop None = Some []"
| "description_prop (Some (JStr s)) = Some (trim s)"
| "description_prop (Some _) = None"

fun normalizeDockerGuardPolicy :: "json \<Rightarrow> policy option" where
  "normalizeDockerGuardPolicy (JObj ms) =
     (let p = map_of ms in
      if \<not> named_prop [lit ''ipv4'', lit ''ipv6''] (p (lit ''family'')) then None
      else if \<not> named_prop [lit ''tcp'', lit ''udp''] (p (lit ''protocol'')) then None
      else if \<not> named_prop [lit ''deny_sources'', lit ''allow_sources'', lit ''deny_all''] (p (lit ''mode'')) then None
      else
        (case (p (lit ''hostIP''), port_number (p (lit ''hostPort'')), family_of (the (p (lit ''family'')))) of
           (Some (JStr hostIP), Some hostPort, Some family) \<Rightarrow>
             (if \<not> isValidAddressForFamily family hostIP False then None
              else
                (let mode = the (p (lit ''mode'')) in
                 case guard_sources family mode (p (lit ''sources'')) of
                   None \<Rightarrow> None
                 | Some sources \<Rightarrow>
                     (case description_prop (p (lit ''description'')) of
                        None \<Rightarrow> None
                      | Some description \<Rightarrow>
                          Some \<lparr>dg_family = family, dg_hostIP = hostIP, dg_hostPort = hostPort,
                                dg_protocol = the (p (lit ''protocol'')), dg_mode = mode,
                                dg_sources = (if mode = deny_all then [] else seen_dedup id sources),
                                dg_description = description\<rparr>)))
         | _ \<Rightarrow> None))"
| "normalizeDockerGuardPolicy _ = None"

definition dockerGuardEndpointKey :: "policy \<Rightarrow> jstring" where
  "dockerGuardEndpointKey e =
     family_name (dg_family e) @ lit ''|'' @ dg_hostIP e @ lit ''|'' @ digits_of_nat (dg_hostPort e) @ lit ''|'' @
     name_of (dg_protocol e)"

section \<open>Import\<close>

record import_state =
  policies :: "policy list"
  selects :: "policy list"

text \<open>A file was read: \<open>None\<close> is the message that its format is wrong.\<close>

definition importFile :: "jstring \<Rightarrow> policy list option" where
  "importFile content =
     (case JSON_parse content of
        Some (JArr parsed) \<Rightarrow>
          (case opt_list (map normalizeDockerGuardPolicy parsed) of
             None \<Rightarrow> None
           | Some normalized \<Rightarrow>
               Some (map snd (fold (\<lambda>policy. AList.update (dockerGuardEndpointKey policy) policy) normalized [])))
      | _ \<Rightarrow> None)"

definition fileOnChange :: "jstring \<Rightarrow> import_state \<Rightarrow> import_state" where
  "fileOnChange content st =
     (case importFile content of
        None \<Rightarrow> \<lparr>policies = [], selects = []\<rparr>
      | Some ps \<Rightarrow> \<lparr>policies = ps, selects = ps\<rparr>)"

text \<open>A request to the server; its policies carry the endpoints, the first one the rest.\<close>

record batch =
  endpoints :: "(family \<times> jstring \<times> nat \<times> json) list"
  batch_mode :: json
  batch_sources :: "jstring list"
  batch_description :: jstring

definition endpoint_of :: "policy \<Rightarrow> family \<times> jstring \<times> nat \<times> json" where
  "endpoint_of p = (dg_family p, dg_hostIP p, dg_hostPort p, dg_protocol p)"

definition group_value :: "policy \<Rightarrow> json" where
  "group_value p = JArr [dg_mode p, JArr (map JStr (dg_sources p)), JStr (dg_description p)]"

definition add_group :: "policy \<Rightarrow> (jstring option \<times> policy list) list \<Rightarrow> (jstring option \<times> policy list) list" where
  "add_group policy groups =
     (let key = json_text (group_value policy)
      in AList.update key ((case map_of groups key of None \<Rightarrow> [] | Some g \<Rightarrow> g) @ [policy]) groups)"

definition group_batch :: "policy list \<Rightarrow> batch" where
  "group_batch grp =
     \<lparr>endpoints = map endpoint_of grp, batch_mode = dg_mode (hd grp),
      batch_sources = dg_sources (hd grp), batch_description = dg_description (hd grp)\<rparr>"

text \<open>The requests, with the numbers of endpoints that were and were not accepted; \<open>upsert\<close> is
  whether the server accepts a request.\<close>

fun send_groups :: "(batch \<Rightarrow> bool) \<Rightarrow> policy list list \<Rightarrow> batch list \<times> nat \<times> nat" where
  "send_groups upsert [] = ([], 0, 0)"
| "send_groups upsert (grp # groups) =
     (let b = group_batch grp; (bs, success, failed) = send_groups upsert groups
      in if upsert b then (b # bs, length grp + success, failed)
         else (b # bs, success, length grp + failed))"

definition onImport :: "(batch \<Rightarrow> bool) \<Rightarrow> import_state \<Rightarrow> batch list \<times> nat \<times> nat" where
  "onImport upsert st = send_groups upsert (map snd (fold add_group (selects st) []))"

section \<open>Accepted policies\<close>

definition policy_ok :: "policy \<Rightarrow> bool" where
  "policy_ok p \<longleftrightarrow> dg_family p \<noteq> Inet \<and> isValidAddressForFamily (dg_family p) (dg_hostIP p) False \<and>
     1 \<le> dg_hostPort p \<and> dg_hostPort p \<le> 65535 \<and>
     named [lit ''tcp'', lit ''udp''] (dg_protocol p) \<and>
     named [lit ''deny_sources'', lit ''allow_sources'', lit ''deny_all''] (dg_mode p) \<and>
     distinct (dg_sources p) \<and>
     (if dg_mode p = deny_all then dg_sources p = []
      else dg_sources p \<noteq> [] \<and> list_all (isValidDockerGuardSource (dg_family p)) (dg_sources p))"

lemma port_number_SomeD: "port_number v = Some n \<Longrightarrow> 1 \<le> n \<and> n \<le> 65535"
proof -
  assume "port_number v = Some n"
  then obtain q where q: "q = rat_of_int \<lfloor>q\<rfloor>" "1 \<le> q" "q \<le> 65535" "n = nat \<lfloor>q\<rfloor>"
    by (auto simp: port_number_def split: option.splits json.splits if_splits)
  then have "1 \<le> \<lfloor>q\<rfloor>" "\<lfloor>q\<rfloor> \<le> 65535" by linarith+
  then show ?thesis unfolding q(4) by linarith
qed

lemma guard_sources_SomeD:
  assumes "guard_sources f mode v = Some ss" "mode \<noteq> deny_all"
  shows "ss \<noteq> [] \<and> list_all (isValidDockerGuardSource f) ss"
  using assms by (auto simp: guard_sources_def Let_def split: option.splits if_splits)

lemma seen_dedup_all: "list_all P xs \<Longrightarrow> list_all P (seen_dedup key xs)"
  using seen_dedup_subset [of key xs] by (auto simp: list_all_iff)

interpretation strings: keyed_loop "id :: jstring \<Rightarrow> jstring" "\<lambda>_. True"
  by unfold_locales simp

lemma seen_dedup_ne: "xs \<noteq> [] \<Longrightarrow> seen_dedup id xs \<noteq> ([] :: jstring list)"
  using strings.seen_dedup_set [of xs] by auto

lemma normalize_policy_ok: "normalizeDockerGuardPolicy v = Some p \<Longrightarrow> policy_ok p"
proof (induction v rule: normalizeDockerGuardPolicy.induct)
  case (1 ms)
  let ?m = "map_of ms"
  from 1 obtain ip n f ss d pr md where *:
    "named_prop [lit ''tcp'', lit ''udp''] (Some pr)"
    "named_prop [lit ''deny_sources'', lit ''allow_sources'', lit ''deny_all''] (Some md)"
    "port_number (?m (lit ''hostPort'')) = Some n" "family_of (the (?m (lit ''family''))) = Some f"
    "isValidAddressForFamily f ip False" "guard_sources f md (?m (lit ''sources'')) = Some ss"
    "p = \<lparr>dg_family = f, dg_hostIP = ip, dg_hostPort = n, dg_protocol = pr, dg_mode = md,
          dg_sources = (if md = deny_all then [] else seen_dedup id ss), dg_description = d\<rparr>"
    by (auto simp: Let_def named_prop_def split: if_splits option.splits json.splits simp del: lit_simps)
  have "f \<noteq> Inet" using *(4) by (auto simp: family_of_def split: if_splits)
  then show ?case
    using * port_number_SomeD [OF *(3)] guard_sources_SomeD [OF *(6)]
    by (auto simp: policy_ok_def named_prop_def seen_dedup_distinct seen_dedup_all seen_dedup_ne
        simp del: lit_simps)
qed auto

lemma opt_list_set: "opt_list (map f xs) = Some ys \<Longrightarrow> y \<in> set ys \<Longrightarrow> \<exists>x \<in> set xs. f x = Some y"
  by (induction xs arbitrary: ys) (auto split: option.splits)

lemma find_snoc: "find P (xs @ [x]) = (case find P xs of None \<Rightarrow> if P x then Some x else None | Some y \<Rightarrow> Some y)"
  by (induction xs) auto

text \<open>The last policy with a key wins.\<close>

lemma fold_update:
  "map_of (fold (\<lambda>p. AList.update (key p) p) ps al) =
     (\<lambda>k. case find (\<lambda>p. key p = k) (rev ps) of None \<Rightarrow> map_of al k | Some p \<Rightarrow> Some p)"
  by (induction ps arbitrary: al) (auto simp: update_conv find_snoc fun_eq_iff split: option.splits)

lemma fold_update_distinct:
  "distinct (map fst al) \<Longrightarrow> distinct (map fst (fold (\<lambda>p. AList.update (key p) p) ps al))"
  by (induction ps arbitrary: al) (auto simp: distinct_update)

lemma fold_update_key:
  assumes "\<forall>(k, p) \<in> set al. key p = k" "distinct (map fst al)"
    "(k, p) \<in> set (fold (\<lambda>p. AList.update (key p) p) ps al)"
  shows "key p = k"
  using assms
proof (induction ps arbitrary: al)
  case (Cons q ps)
  have "\<forall>(k, p) \<in> set (AList.update (key q) q al). key p = k"
  proof clarify
    fix k p assume "(k, p) \<in> set (AList.update (key q) q al)"
    then have "map_of (AList.update (key q) q al) k = Some p"
      using Cons.prems(2) by (simp add: distinct_update)
    then show "key p = k" using Cons.prems(1) by (auto simp: update_conv split: if_splits dest: map_of_SomeD)
  qed
  with Cons show ?case by (simp add: distinct_update)
qed auto

lemma docker_import_policies:
  assumes "importFile content = Some ps"
  shows "distinct (map dockerGuardEndpointKey ps) \<and> (\<forall>p \<in> set ps. policy_ok p)"
proof -
  let ?f = "\<lambda>qs. fold (\<lambda>p. AList.update (dockerGuardEndpointKey p) p) qs []"
  from assms obtain vs ns where ns: "opt_list (map normalizeDockerGuardPolicy vs) = Some ns" "ps = map snd (?f ns)"
    by (auto simp: importFile_def split: option.splits json.splits)
  have k: "(k, p) \<in> set (?f ns) \<Longrightarrow> dockerGuardEndpointKey p = k" for k p
    by (rule fold_update_key [of "[]"]) auto
  then have keys: "map dockerGuardEndpointKey ps = map fst (?f ns)" by (auto simp: ns(2))
  have d: "distinct (map fst (?f ns))" by (rule fold_update_distinct) simp
  have "p \<in> set ns" if "p \<in> set ps" for p
  proof -
    from that obtain k where "map_of (?f ns) k = Some p" using d by (auto simp: ns(2))
    then have "find (\<lambda>p. dockerGuardEndpointKey p = k) (rev ns) = Some p"
      by (auto simp: fold_update split: option.splits)
    then have "p \<in> set (rev ns)" by (auto simp: find_Some_iff in_set_conv_nth simp del: set_rev)
    then show ?thesis by simp
  qed
  then have "\<forall>p \<in> set ps. policy_ok p"
    using opt_list_set [OF ns(1)] normalize_policy_ok by blast
  with d keys show ?thesis by simp
qed

text \<open>What the import of a file offers: policies that passed every check, no two for the same endpoint.\<close>

theorem docker_import_valid:
  assumes "importFile content = Some ps"
  shows "distinct (map dockerGuardEndpointKey ps) \<and> (\<forall>p \<in> set ps. policy_ok p)"
  by (rule docker_import_policies [OF assms])

section \<open>The requests of an import\<close>

lemma named_text: "named names v \<Longrightarrow> json_wf v \<and> json_text v \<noteq> None"
  by (induction names v rule: named.induct) auto

lemma strings_text: "opt_list (map json_text (map JStr ss)) \<noteq> None"
  by (induction ss) auto

text \<open>Equal texts are texts of equal values, since they are read back.\<close>

lemma group_value_inj:
  assumes "policy_ok p" "policy_ok q" "json_text (group_value p) = json_text (group_value q)"
  shows "dg_mode p = dg_mode q \<and> dg_sources p = dg_sources q \<and> dg_description p = dg_description q"
proof -
  have wf: "json_wf (group_value r) \<and> json_text (group_value r) \<noteq> None" if "policy_ok r" for r
  proof -
    from that obtain m where "json_wf (dg_mode r)" "json_text (dg_mode r) = Some m"
      unfolding policy_ok_def using named_text by blast
    moreover obtain ts where "opt_list (map json_text (map JStr (dg_sources r))) = Some ts"
      using strings_text by blast
    ultimately show ?thesis by (auto simp: group_value_def)
  qed
  then obtain t where "json_text (group_value p) = Some t" "json_text (group_value q) = Some t"
    using assms by fastforce
  then have "Some (group_value p) = Some (group_value q)"
    using json_round_trip wf assms(1,2) by metis
  then show ?thesis by (auto simp: group_value_def inj_map_eq_map inj_def)
qed

lemma mset_update:
  assumes "distinct (map fst al)"
  shows "mset (concat (map snd (AList.update k ((case map_of al k of None \<Rightarrow> [] | Some g \<Rightarrow> g) @ [x]) al))) =
    add_mset x (mset (concat (map snd al)))"
  using assms
proof (induction al)
  case (Cons a al)
  obtain l g where a: "a = (l, g)" by fastforce
  show ?case
  proof (cases "l = k")
    case False
    with Cons show ?thesis by (auto simp: a)
  qed (simp add: a)
qed simp

lemma update_members:
  "(l, g) \<in> set (AList.update k h al) \<Longrightarrow> (l, g) \<in> set al \<or> l = k \<and> g = h"
  by (induction al) (auto split: if_splits)

definition groups_ok :: "(jstring option \<times> policy list) list \<Rightarrow> bool" where
  "groups_ok gs \<longleftrightarrow> distinct (map fst gs) \<and>
     (\<forall>(k, g) \<in> set gs. g \<noteq> [] \<and> (\<forall>p \<in> set g. json_text (group_value p) = k))"

lemma groups_ok_add: "groups_ok gs \<Longrightarrow> groups_ok (add_group p gs)"
  unfolding groups_ok_def add_group_def Let_def
  by (force simp: distinct_update dest!: update_members dest: map_of_SomeD split: option.splits)

lemma mset_add: "groups_ok gs \<Longrightarrow>
    mset (concat (map snd (add_group p gs))) = add_mset p (mset (concat (map snd gs)))"
  unfolding groups_ok_def add_group_def Let_def by (rule mset_update) simp

lemma groups_fold:
  "groups_ok gs \<Longrightarrow> groups_ok (fold add_group ps gs) \<and>
     mset (concat (map snd (fold add_group ps gs))) = mset ps + mset (concat (map snd gs))"
  by (induction ps arbitrary: gs) (auto simp: groups_ok_add mset_add)

lemma send_groups_batches: "fst (send_groups upsert gs) = map group_batch gs"
  by (induction gs) (auto simp: Let_def split: prod.splits)

lemma send_groups_total:
  "fst (snd (send_groups upsert gs)) + snd (snd (send_groups upsert gs)) = length (concat gs)"
  by (induction gs) (auto simp: Let_def split: prod.splits)

text \<open>C37: An import sends every selected policy exactly once, in a request that has its mode, sources and
  description; requests differ in these, and the two counts it reports add up to the number of policies.\<close>

theorem docker_import_requests:
  assumes "importFile content = Some ps" "set ss \<subseteq> set ps"
    and "onImport upsert \<lparr>policies = ps, selects = ss\<rparr> = (bs, success, failed)"
  shows "mset (concat (map endpoints bs)) = image_mset endpoint_of (mset ss) \<and>
    (\<forall>b \<in> set bs. \<forall>e \<in> set (endpoints b). \<exists>p \<in> set ss. endpoint_of p = e \<and> dg_mode p = batch_mode b \<and>
       dg_sources p = batch_sources b \<and> dg_description p = batch_description b) \<and>
    success + failed = length ss"
proof -
  define gs where "gs = fold add_group ss []"
  have ok: "groups_ok gs" and ms: "mset (concat (map snd gs)) = mset ss"
    using groups_fold [of "[]" ss] by (auto simp: gs_def groups_ok_def)
  have bs: "bs = map group_batch (map snd gs)" and total: "success + failed = length (concat (map snd gs))"
    using assms(3) send_groups_batches [of upsert "map snd gs"] send_groups_total [of upsert "map snd gs"]
    by (auto simp: onImport_def gs_def)
  have policies: "\<forall>p \<in> set ps. policy_ok p"
    using assms(1) docker_import_policies by blast
  have "concat (map endpoints bs) = map endpoint_of (concat (map snd gs))"
    by (simp add: bs group_batch_def map_concat comp_def)
  then have "mset (concat (map endpoints bs)) = image_mset endpoint_of (mset ss)" using ms by simp
  moreover have "length (concat (map snd gs)) = length ss" using ms by (metis size_mset)
  moreover have "\<exists>p \<in> set ss. endpoint_of p = e \<and> dg_mode p = batch_mode b \<and>
      dg_sources p = batch_sources b \<and> dg_description p = batch_description b"
    if b: "b \<in> set bs" "e \<in> set (endpoints b)" for b e
  proof -
    from b(1) obtain k g where g: "(k, g) \<in> set gs" "b = group_batch g" by (auto simp: bs)
    from b(2) g(2) obtain p where p: "p \<in> set g" "e = endpoint_of p" by (auto simp: group_batch_def)
    have ss: "set g \<subseteq> set ss"
      using g(1) ms by (metis UN_upper image_eqI set_concat set_map set_mset_mset snd_conv)
    have hd: "hd g \<in> set g" using p(1) by (cases g) auto
    have "json_text (group_value p) = json_text (group_value (hd g))"
      using ok g(1) p(1) hd by (auto simp: groups_ok_def)
    then have "dg_mode p = dg_mode (hd g) \<and> dg_sources p = dg_sources (hd g) \<and> dg_description p = dg_description (hd g)"
      using group_value_inj policies ss assms(2) p(1) hd by blast
    with p ss show ?thesis by (auto simp: g(2) group_batch_def)
  qed
  ultimately show ?thesis using total by auto
qed

section \<open>An imported file\<close>

definition sample_policy :: json where
  "sample_policy = JObj [(lit ''family'', JStr (lit ''ipv4'')), (lit ''hostIP'', JStr (lit ''10.0.0.1'')),
     (lit ''hostPort'', JNum 8080), (lit ''protocol'', JStr (lit ''tcp'')), (lit ''mode'', deny_all),
     (lit ''sources'', JArr [])]"

definition sample_file :: jstring where
  "sample_file = lit ''[{\"family\":\"ipv4\",\"hostIP\":\"10.0.0.1\",\"hostPort\":8080,\"protocol\":\"tcp\",\"mode\":\"deny_all\",\"sources\":[]}]''"

lemma sample_text: "json_text (JArr [sample_policy]) = Some sample_file"
  by (simp add: sample_policy_def sample_file_def deny_all_def json_quote_def escape_unit_def number_text_def
      high_surrogate_def low_surrogate_def digits_of_nat.simps)

lemma sample_wf: "json_wf (JArr [sample_policy])"
  by (simp add: sample_policy_def deny_all_def index_key_def all_digits_def is_digit_def)

lemma sample_address: "isValidAddressForFamily IPv4 (lit ''10.0.0.1'') False"
proof -
  have "isValidIPv4Address (lit ''10.0.0.1'')"
    by (simp add: isValidIPv4Address_def js_split_unit part_octet Let_def octet_def canonical_def
        all_digits_def is_digit_def nat_of_digits_Cons list_all_iff del: js_Number_digits)
  then show ?thesis
    by (simp add: isValidAddressForFamily_def cidr_none infer_IPv4 isValidIPv4_quad js_split_unit)
qed

lemma sample_import:
  "importFile sample_file = Some [\<lparr>dg_family = IPv4, dg_hostIP = lit ''10.0.0.1'', dg_hostPort = 8080,
     dg_protocol = JStr (lit ''tcp''), dg_mode = deny_all, dg_sources = [], dg_description = []\<rparr>]"
proof -
  have n: "normalizeDockerGuardPolicy sample_policy = Some \<lparr>dg_family = IPv4, dg_hostIP = lit ''10.0.0.1'',
      dg_hostPort = 8080, dg_protocol = JStr (lit ''tcp''), dg_mode = deny_all, dg_sources = [], dg_description = []\<rparr>"
    using sample_address
    by (simp add: sample_policy_def deny_all_def named_prop_def family_of_def port_number_def guard_sources_def)
  show ?thesis
    using json_round_trip [OF sample_text sample_wf] by (simp add: importFile_def n del: lit_simps)
qed

theorem docker_import_valid_witness: "policy_ok (hd (the (importFile sample_file)))"
  using docker_import_valid [OF sample_import] sample_import by simp

theorem docker_import_requests_witness:
  "case onImport (\<lambda>_. True) (fileOnChange sample_file \<lparr>policies = [], selects = []\<rparr>) of
     (bs, success, failed) \<Rightarrow> success + failed = 1"
proof -
  obtain bs success failed
    where r: "onImport (\<lambda>_. True) (fileOnChange sample_file \<lparr>policies = [], selects = []\<rparr>) = (bs, success, failed)"
    using prod_cases3 by blast
  then show ?thesis
    using docker_import_requests [OF sample_import subset_refl, of "\<lambda>_. True" bs success failed]
    by (simp add: fileOnChange_def sample_import)
qed

end
