(* ===== verification/FirewallImport.thy ===== *)
theory FirewallImport
  imports FirewallPlans DockerGuard
begin

text \<open>
  Importing firewall rules from a file:
  \<^verbatim>\<open>src/web/src/views/host/firewall/rule/import/index.vue\<close>.  The rules of the file are values of
  JSON, in the present form or in the one of older versions; the answers of the server and the
  order of \<open>localeCompare\<close> are arguments.
\<close>

section \<open>Reading a file\<close>

abbreviation prop_of :: "json \<Rightarrow> string \<Rightarrow> json option" where
  "prop_of v k \<equiv> (case v of JObj ms \<Rightarrow> map_of ms (lit k) | _ \<Rightarrow> None)"

fun truthy :: "json option \<Rightarrow> bool" where
  "truthy None = False"
| "truthy (Some JNull) = False"
| "truthy (Some (JBool b)) = b"
| "truthy (Some (JNum q)) = (q \<noteq> 0)"
| "truthy (Some (JStr s)) = (s \<noteq> [])"
| "truthy (Some _) = True"

fun is_string :: "json option \<Rightarrow> bool" where
  "is_string (Some (JStr _)) = True"
| "is_string _ = False"

definition isRule :: "json \<Rightarrow> bool" where
  "isRule v \<longleftrightarrow>
     truthy (prop_of v ''scope'') \<and>
     named_prop [lit ''iptables'', lit ''nftables'', lit ''firewalld'', lit ''ufw'']
       (prop_of (the (prop_of v ''scope'')) ''provider'') \<and>
     is_string (prop_of v ''protocol'') \<and>
     named_prop [lit ''accept'', lit ''drop'', lit ''reject''] (prop_of v ''action'')"

text \<open>The scope of a back end; \<open>None\<close> is a family that is \<open>undefined\<close>.\<close>

definition targetScope :: "provider \<Rightarrow> json option \<Rightarrow> json" where
  "targetScope prov family =
     JObj ([(lit ''provider'', JStr (provider_name prov))] @
       (case family of None \<Rightarrow> [] | Some f \<Rightarrow> [(lit ''family'', f)]) @
       (if prov = Iptables \<or> prov = Nftables then
          [(lit ''table'', JStr (lit ''filter'')), (lit ''chain'', JStr (lit ''WORKMESH_BASIC'')),
           (lit ''direction'', JStr (lit ''input''))]
        else if prov = Firewalld then
          [(lit ''zone'', JStr (lit ''public'')), (lit ''direction'', JStr (lit ''input''))]
        else [(lit ''chain'', JStr (lit ''incoming'')), (lit ''direction'', JStr (lit ''input''))]))"

definition string_of :: "json option \<Rightarrow> jstring" where
  "string_of v = (case v of Some (JStr s) \<Rightarrow> s | _ \<Rightarrow> [])"

text \<open>Rules of older versions; \<open>None\<close> is \<open>undefined\<close>.  A missing port is left out.\<close>

definition legacy_rule :: "provider \<Rightarrow> json \<Rightarrow> jstring \<Rightarrow> jstring \<Rightarrow> jstring \<Rightarrow> json \<Rightarrow> jstring \<Rightarrow> json" where
  "legacy_rule prov family protocol address port action description =
     JObj ([(lit ''scope'', targetScope prov (Some family)), (lit ''protocol'', JStr protocol),
            (lit ''sourceAddress'', JStr address)] @
           (if port = [] then [] else [(lit ''destinationPort'', JStr port)]) @
           [(lit ''action'', action), (lit ''description'', JStr description)])"

definition normalizeLegacyImportedRule :: "provider \<Rightarrow> json \<Rightarrow> json list option" where
  "normalizeLegacyImportedRule prov v =
     (if \<not> named_prop [lit ''accept'', lit ''drop''] (prop_of v ''strategy'') then None
      else if \<not> is_string (prop_of v ''address'') then None
      else if prop_of v ''description'' \<noteq> None \<and> \<not> is_string (prop_of v ''description'') then None
      else
        let address = string_of (prop_of v ''address'');
            family = (if named_prop [lit ''ipv4'', lit ''ipv6''] (prop_of v ''family'') then the (prop_of v ''family'')
                      else JStr (family_name (if trim address \<noteq> [] then inferAddressFamily (hd (js_split (lit ''/'') address))
                                              else IPv4)));
            port = trim (string_of (prop_of v ''port''));
            protocol = toLowerCase (trim (string_of (prop_of v ''protocol'')))
        in if port \<noteq> [] \<and> protocol \<notin> {lit ''tcp'', lit ''udp'', lit ''tcp/udp''} then None
           else if port = [] \<and> protocol \<noteq> [] \<and> protocol \<notin> {lit ''all'', lit ''any''} then None
           else
             let protocols = (if port \<noteq> [] then (if protocol = lit ''tcp/udp'' then [lit ''tcp'', lit ''udp''] else [protocol])
                              else [lit ''all''])
             in Some (map (\<lambda>item. legacy_rule prov family item address port (the (prop_of v ''strategy''))
                        (string_of (prop_of v ''description''))) protocols))"

text \<open>\<open>address.includes(':')\<close>: strings and arrays have the method, other truthy values throw.\<close>

fun has_colon :: "json \<Rightarrow> bool option" where
  "has_colon (JStr s) = Some (58 \<in> set s)"
| "has_colon (JArr vs) = Some (JStr [58] \<in> set vs)"
| "has_colon _ = None"

fun some_colon :: "json list \<Rightarrow> bool option" where
  "some_colon [] = Some False"
| "some_colon (v # vs) = (case has_colon v of None \<Rightarrow> None | Some True \<Rightarrow> Some True | Some False \<Rightarrow> some_colon vs)"

text \<open>\<open>{ ...rule, uuid: undefined, ..., scope }\<close>; the dropped properties are \<open>undefined\<close>.\<close>

definition retarget :: "provider \<Rightarrow> json option \<Rightarrow> members \<Rightarrow> json" where
  "retarget prov family ms =
     JObj (obj_put (lit ''scope'') (targetScope prov family)
       (fold obj_delete [lit ''uuid'', lit ''nativeKind'', lit ''priority'', lit ''orderIndex'', lit ''orderBucket''] ms))"

definition normalizeImportedRule :: "provider \<Rightarrow> json \<Rightarrow> json list option" where
  "normalizeImportedRule prov v =
     (let ms = (case v of JObj ms \<Rightarrow> ms | _ \<Rightarrow> []);
          family = prop_of (the (prop_of v ''scope'')) ''family'';
          splitInet = (family = Some (JStr (lit ''inet'')) \<and> prov \<noteq> Firewalld);
          addresses = map the (filter truthy [prop_of v ''sourceAddress'', prop_of v ''destinationAddress''])
      in if \<not> splitInet then Some [retarget prov family ms]
         else if addresses = [] then
           Some [retarget prov (Some (JStr (lit ''ipv4''))) ms, retarget prov (Some (JStr (lit ''ipv6''))) ms]
         else case some_colon addresses of
           None \<Rightarrow> None
         | Some b \<Rightarrow> Some [retarget prov (Some (JStr (if b then lit ''ipv6'' else lit ''ipv4''))) ms])"

datatype import_error = ImportFormat | ImportThrown

text \<open>A callback of the map; the outer \<open>None\<close> is a thrown error, the inner one \<open>undefined\<close>.\<close>

definition read_rule :: "provider \<Rightarrow> json \<Rightarrow> json list option option" where
  "read_rule prov v =
     (if isRule v then map_option Some (normalizeImportedRule prov v)
      else Some (normalizeLegacyImportedRule prov v))"

record rules_import =
  all_rules :: "json list"
  chosen :: "json list"

definition read_file :: "provider \<Rightarrow> jstring \<Rightarrow> import_error + json list" where
  "read_file prov content =
     (case JSON_parse content of
        None \<Rightarrow> Inl ImportThrown
      | Some (JArr parsed) \<Rightarrow>
          (case opt_list (map (read_rule prov) parsed) of
             None \<Rightarrow> Inl ImportThrown
           | Some groups \<Rightarrow>
               (case opt_list groups of
                  None \<Rightarrow> Inl ImportFormat
                | Some groups \<Rightarrow>
                    (let normalized = concat groups in
                     if normalized = [] \<or> \<not> list_all isRule normalized then Inl ImportFormat
                     else Inr normalized)))
      | Some _ \<Rightarrow> Inl ImportFormat)"

text \<open>A file that cannot be read leaves the rules of the one before, with a message.\<close>

definition rulesFileOnChange :: "provider \<Rightarrow> jstring \<Rightarrow> rules_import \<Rightarrow> rules_import \<times> import_error option" where
  "rulesFileOnChange prov content st =
     (case read_file prov content of
        Inl e \<Rightarrow> (st, Some e)
      | Inr rs \<Rightarrow> (\<lparr>all_rules = rs, chosen = rs\<rparr>, None))"

section \<open>Importing\<close>

datatype 'a outcome = Thrown | Nothing | Item 'a

definition importedCreateRequest :: "'r plan \<Rightarrow> 'r create_item outcome" where
  "importedCreateRequest p =
     (if decision p = NoChange then Nothing
      else if decision p = Blocked then Thrown
      else
        let allowed = availableResolutions p in
        if classification p = ExactExternal \<and> (length (candidates p) \<noteq> 1 \<or> Adopt \<notin> set allowed) then Thrown
        else
          let resolution = (if classification p = ExactExternal then Some Adopt
                            else case allowed of [] \<Rightarrow> None | a # _ \<Rightarrow> Some a)
          in case resolution of
               None \<Rightarrow> Thrown
             | Some a \<Rightarrow>
                 if a = SelectAdopt then Thrown
                 else Item \<lparr>item_rule = requestedRule p, item_flag = checkFlag p, item_action = a,
                       adoptInstanceKey = (if a = Adopt then (case candidates p of [] \<Rightarrow> None | c # _ \<Rightarrow> c) else None),
                       imported = True\<rparr>)"

text \<open>The server: the plans for a batch of rules and the counts for a batch of items; \<open>None\<close> when the
  request fails.\<close>

record 'r server =
  check :: "'r list \<Rightarrow> 'r plan list option"
  create :: "'r create_item list \<Rightarrow> create_answer option"

text \<open>The plans of all batches, unless one of the requests fails.\<close>

definition check_all :: "'r server \<Rightarrow> 'r list \<Rightarrow> 'r plan list option" where
  "check_all srv rs = map_option concat (opt_list (map (check srv) (batches 256 rs)))"

fun plan_items :: "'r plan list \<Rightarrow> 'r create_item list \<times> int \<times> int" where
  "plan_items [] = ([], 0, 0)"
| "plan_items (p # ps) =
     (let (is, success, failed) = plan_items ps in
      case importedCreateRequest p of
        Thrown \<Rightarrow> (is, success, failed + 1)
      | Nothing \<Rightarrow> (is, success + 1, failed)
      | Item i \<Rightarrow> (i # is, success, failed))"

text \<open>The batches of items: the counts so far, and whether a request failed.\<close>

fun create_all :: "'r server \<Rightarrow> 'r create_item list list \<Rightarrow> int \<times> int \<Rightarrow> (int \<times> int) \<times> bool" where
  "create_all srv [] n = (n, False)"
| "create_all srv (b # bs) (success, failed) =
     (case create srv b of
        None \<Rightarrow> ((success, failed), True)
      | Some a \<Rightarrow>
          create_all srv bs (success + int (succeeded a), failed + int (answer_failed a + skipped a)))"

text \<open>The two counts that are reported; \<open>sorted\<close> is the sort by the text of the scope.\<close>

definition importRules :: "('r create_item list \<Rightarrow> 'r create_item list) \<Rightarrow> 'r server \<Rightarrow> 'r list \<Rightarrow> int \<times> int" where
  "importRules sort_items srv picked =
     (case check_all srv picked of
        None \<Rightarrow> (0, int (length picked))
      | Some plans \<Rightarrow>
          (let (items, success, failed) = plan_items plans;
               ((success, failed), thrown) = create_all srv (batches 256 (sort_items items)) (success, failed)
           in if thrown then (success, failed + (int (length picked) - success - failed))
              else (success, failed)))"

text \<open>What is sent, for the properties.\<close>

definition sent_items :: "'r server \<Rightarrow> 'r list \<Rightarrow> 'r create_item list" where
  "sent_items srv picked = (case check_all srv picked of None \<Rightarrow> [] | Some plans \<Rightarrow> fst (plan_items plans))"

section \<open>Imported rules are rules of the picked back end\<close>

lemma prop_retarget:
  "prop_of (retarget prov f ms) k =
    (if lit k = lit ''scope'' then Some (targetScope prov f)
     else if lit k \<in> {lit ''uuid'', lit ''nativeKind'', lit ''priority'', lit ''orderIndex'', lit ''orderBucket''} then None
     else map_of ms (lit k))"
proof -
  have del: "map_of (obj_delete k ms) l = (if l = k then None else map_of ms l)" for k l ms
    by (induction ms) (auto simp: obj_delete_def)
  show ?thesis
    by (auto simp: retarget_def map_of_obj_put del simp del: lit_simps)
qed

definition scope_of :: "json \<Rightarrow> json option" where
  "scope_of v = prop_of v ''scope''"

definition aimed :: "provider \<Rightarrow> json \<Rightarrow> bool" where
  "aimed prov v \<longleftrightarrow> (\<exists>f. scope_of v = Some (targetScope prov f) \<and>
     (prov \<noteq> Firewalld \<longrightarrow> f \<noteq> Some (JStr (lit ''inet''))))"

lemma scope_retarget: "scope_of (retarget prov f ms) = Some (targetScope prov f)"
  unfolding scope_of_def prop_retarget by simp

lemma inet_not_ip: "JStr (lit ''ipv4'') \<noteq> JStr (lit ''inet'')" "JStr (lit ''ipv6'') \<noteq> JStr (lit ''inet'')"
  by simp_all

lemma aimed_retarget: "prov = Firewalld \<or> f \<noteq> Some (JStr (lit ''inet'')) \<Longrightarrow> aimed prov (retarget prov f ms)"
  unfolding aimed_def scope_retarget by blast

lemma imported_aimed:
  assumes "normalizeImportedRule prov v = Some rs" "r \<in> set rs"
  shows "aimed prov r"
  using assms inet_not_ip
  by (auto simp: normalizeImportedRule_def Let_def simp del: lit_simps intro!: aimed_retarget
      split: if_splits option.splits)

lemma named_inet: "named [lit ''ipv4'', lit ''ipv6''] v \<Longrightarrow> v \<noteq> JStr (lit ''inet'')"
  by auto

lemma scope_legacy: "scope_of (legacy_rule prov f p a po act d) = Some (targetScope prov (Some f))"
  by (simp add: scope_of_def legacy_rule_def)

lemma infer_not_inet: "family_name (inferAddressFamily a) \<noteq> lit ''inet'' \<and> family_name IPv4 \<noteq> lit ''inet''"
  by (simp add: inferAddressFamily_def family_name_def)

lemma legacy_aimed:
  assumes "normalizeLegacyImportedRule prov v = Some rs" "r \<in> set rs"
  shows "aimed prov r"
proof -
  let ?f = "if named_prop [lit ''ipv4'', lit ''ipv6''] (prop_of v ''family'') then the (prop_of v ''family'')
    else JStr (family_name (if trim (string_of (prop_of v ''address'')) \<noteq> []
      then inferAddressFamily (hd (js_split (lit ''/'') (string_of (prop_of v ''address'')))) else IPv4))"
  have "?f \<noteq> JStr (lit ''inet'')"
    using named_inet [of "the (prop_of v ''family'')"] infer_not_inet
    by (auto simp: named_prop_def simp del: lit_simps split: option.splits)
  moreover obtain p po act d where "r = legacy_rule prov ?f p (string_of (prop_of v ''address'')) po act d"
    using assms unfolding normalizeLegacyImportedRule_def Let_def
    by (auto simp del: lit_simps split: if_splits)
  ultimately show ?thesis unfolding aimed_def by (auto simp: scope_legacy simp del: lit_simps)
qed

text \<open>C35: Importing rules never carries a scope of the file over: whatever the file holds, each rule that is
  offered is well formed and is aimed at the chosen back end's own table, zone or chain, and no back end but
  firewalld is given the family of both protocols.\<close>

theorem imported_rules_aimed:
  assumes "read_file prov content = Inr rs"
  shows "rs \<noteq> [] \<and> (\<forall>r \<in> set rs. isRule r \<and>
    (\<exists>f. prop_of r ''scope'' = Some (targetScope prov f) \<and> (prov \<noteq> Firewalld \<longrightarrow> f \<noteq> Some (JStr (lit ''inet'')))))"
proof -
  from assms obtain vs gs hs where g: "opt_list (map (read_rule prov) vs) = Some gs" "opt_list gs = Some hs"
    "rs = concat hs" "rs \<noteq> []" "list_all isRule rs"
    by (auto simp: read_file_def Let_def split: option.splits json.splits if_splits)
  have "aimed prov r" if r: "r \<in> set rs" for r
  proof -
    from r g(3) obtain h where h: "h \<in> set hs" "r \<in> set h" by auto
    have "opt_list (map id gs) = Some hs" using g(2) by simp
    then have "Some h \<in> set gs" using opt_list_set [of id gs hs h] h(1) by auto
    then obtain v where v: "read_rule prov v = Some (Some h)" using opt_list_set [OF g(1)] by blast
    then consider "normalizeImportedRule prov v = Some h" | "normalizeLegacyImportedRule prov v = Some h"
      by (auto simp: read_rule_def split: if_splits)
    then show ?thesis using h(2) imported_aimed legacy_aimed by cases blast+
  qed
  with g(4,5) show ?thesis by (auto simp: aimed_def scope_of_def list_all_iff)
qed

definition old_rule :: json where
  "old_rule = JObj [(lit ''strategy'', JStr (lit ''accept'')), (lit ''address'', JStr []), (lit ''port'', JStr (lit ''80'')),
     (lit ''protocol'', JStr (lit ''tcp''))]"

definition old_file :: jstring where
  "old_file = lit ''[{\"strategy\":\"accept\",\"address\":\"\",\"port\":\"80\",\"protocol\":\"tcp\"}]''"

lemma old_import: "read_file Nftables old_file =
    Inr [legacy_rule Nftables (JStr (lit ''ipv4'')) (lit ''tcp'') [] (lit ''80'') (JStr (lit ''accept'')) []]"
proof -
  have "json_text (JArr [old_rule]) = Some old_file"
    by (simp add: old_rule_def old_file_def json_quote_def escape_unit_def high_surrogate_def low_surrogate_def)
  moreover have "json_wf (JArr [old_rule])"
    by (simp add: old_rule_def index_key_def all_digits_def is_digit_def)
  ultimately have "JSON_parse old_file = Some (JArr [old_rule])" by (rule json_round_trip)
  then show ?thesis
    by (simp add: read_file_def read_rule_def isRule_def normalizeLegacyImportedRule_def old_rule_def named_prop_def
        family_name_def string_of_def trim_def trim_end_def trim_start_def is_space_def lower_unit_def is_upper_def
        legacy_rule_def targetScope_def provider_name_def)
qed

theorem imported_rules_aimed_witness:
  "\<exists>f. prop_of (legacy_rule Nftables (JStr (lit ''ipv4'')) (lit ''tcp'') [] (lit ''80'') (JStr (lit ''accept'')) [])
     ''scope'' = Some (targetScope Nftables f) \<and> f \<noteq> Some (JStr (lit ''inet''))"
  using imported_rules_aimed [OF old_import] by simp

section \<open>The counts of an import\<close>

text \<open>A server that answers every request completely.\<close>

definition answers_all :: "'r server \<Rightarrow> bool" where
  "answers_all srv \<longleftrightarrow> (\<forall>rs ps. check srv rs = Some ps \<longrightarrow> length ps = length rs) \<and>
     (\<forall>is a. create srv is = Some a \<longrightarrow> succeeded a + answer_failed a + skipped a = length is)"

lemma length_check_all:
  assumes "answers_all srv" "check_all srv rs = Some ps"
  shows "length ps = length rs"
proof -
  have "length (concat yss) = length (concat xss)" if "opt_list (map (check srv) xss) = Some yss" for xss yss
    using that
  proof (induction xss arbitrary: yss)
    case (Cons xs xss)
    then obtain ys zss where "check srv xs = Some ys" "opt_list (map (check srv) xss) = Some zss" "yss = ys # zss"
      by (auto split: option.splits)
    with Cons.IH assms(1) show ?case by (auto simp: answers_all_def)
  qed simp
  with assms(2) show ?thesis by (auto simp: check_all_def concat_batches)
qed

lemma plan_items_count:
  "plan_items ps = (is, s, f) \<Longrightarrow> int (length is) + s + f = int (length ps)"
  by (induction ps arbitrary: "is" s f) (auto simp: Let_def split: prod.splits outcome.splits)

lemma create_all_count:
  "answers_all srv \<Longrightarrow> create_all srv bs (s, f) = ((s', f'), False) \<Longrightarrow>
    s' + f' = s + f + int (length (concat bs))"
proof (induction srv bs "(s, f)" arbitrary: s f rule: create_all.induct)
  case (2 srv b bs s f)
  then obtain a where a: "create srv b = Some a"
    "create_all srv bs (s + int (succeeded a), f + int (answer_failed a + skipped a)) = ((s', f'), False)"
    by (auto split: option.splits)
  with 2 have "s' + f' = s + int (succeeded a) + (f + int (answer_failed a + skipped a)) + int (length (concat bs))"
    by blast
  moreover have "succeeded a + answer_failed a + skipped a = length b"
    using 2(2) a(1) by (auto simp: answers_all_def)
  ultimately show ?case by simp
qed simp

text \<open>C34: The message at the end accounts for every selected rule: with a server that answers its requests
  completely, the successes and failures it reports add up to the number of rules, wherever a request fails
  and in whatever order the batches are sent.\<close>

theorem import_accounts_for_all:
  assumes "answers_all srv" "\<And>xs. length (sort_items xs) = length xs"
  shows "fst (importRules sort_items srv rs) + snd (importRules sort_items srv rs) = int (length rs)"
proof (cases "check_all srv rs")
  case (Some plans)
  obtain "is" s f where i: "plan_items plans = (is, s, f)" using prod_cases3 by blast
  obtain s' f' b where c: "create_all srv (batches 256 (sort_items is)) (s, f) = ((s', f'), b)"
    by (metis surj_pair)
  have "int (length is) + s + f = int (length rs)"
    using plan_items_count [OF i] length_check_all [OF assms(1) Some] by simp
  moreover have "\<not> b \<Longrightarrow> s' + f' = s + f + int (length is)"
    using create_all_count [OF assms(1), of "batches 256 (sort_items is)" s f s' f'] c assms(2)
    by (auto simp: concat_batches)
  ultimately show ?thesis using Some i c by (auto simp: importRules_def)
qed (simp add: importRules_def)

theorem import_accounts_for_all_witness:
  "let srv = \<lparr>check = (\<lambda>rs. Some (map (\<lambda>r. \<lparr>decision = PlanReady, classification = NoMatch, reason = [], requestedRule = r,
                candidates = [], allowedActions = [Cancel, Create], checkFlag = []\<rparr>) rs)),
              create = (\<lambda>is. None)\<rparr>
   in fst (importRules id srv [1, 2, 3 :: nat]) + snd (importRules id srv [1, 2, 3]) = 3"
  unfolding Let_def by (subst import_accounts_for_all) (auto simp: answers_all_def)

text \<open>Adopting is only asked for the one existing rule the server named.\<close>

theorem adopted_rule_named:
  assumes "importedCreateRequest p = Item i" "classification p = ExactExternal"
  shows "item_action i = Adopt \<and> [adoptInstanceKey i] = candidates p \<and> Adopt \<in> set (allowedActions p)"
  using assms
  by (cases "candidates p") (auto simp: importedCreateRequest_def Let_def availableResolutions_def split: if_splits)

end
