(* ===== verification/Upload.thy ===== *)
theory Upload
  imports JsString
begin

text \<open>
  Uploading files in the file manager: the script of
  \<^verbatim>\<open>src/web/src/views/host/file-management/upload/index.vue\<close>.  An upload is a sequence of
  requests with waiting in between, while the user may cancel.  The world outside is the
  argument \<open>world\<close>: how the server answers the n-th request and during which waits the user
  confirms to cancel.  The state keeps the variables of the script and a record of what was
  sent.  A file's content is the list of its bytes.
\<close>

section \<open>Requests and the world\<close>

datatype error_code = CodeText jstring | CodeNumber nat

record upload_error =
  err_code :: "error_code option"
  err_retryable :: "bool option"
  err_status :: "nat option"

record chunk_request =
  uploadID :: nat
  filename :: jstring
  upload_path :: jstring
  chunk :: "nat list"
  chunkIndex :: nat
  chunkCount :: nat
  offset :: nat
  fileSize :: nat
  overwrite :: bool

record world =
  answer :: "nat \<Rightarrow> upload_error option"
  cancels :: "nat \<Rightarrow> bool"

record up_file =
  fname :: jstring
  webkitRelativePath :: jstring
  raw :: "nat list"

datatype file_status = Ready | Success | Fail

record upload_state =
  now :: nat
  next_id :: nat
  aborted :: bool
  activeChunkUpload :: "nat option"
  requests :: "chunk_request list"
  accepted :: "chunk_request list"
  empty_sent :: "jstring list"
  stopped :: "nat list"

definition CHUNK_SIZE :: nat where "CHUNK_SIZE = 1024 * 1024 * 5"
definition MAX_CHUNK_RETRIES :: nat where "MAX_CHUNK_RETRIES = 3"

section \<open>Paths\<close>

definition getPathWithoutFilename :: "jstring \<Rightarrow> jstring" where
  "getPathWithoutFilename p = (if p = [] then p else js_join (lit ''/'') (butlast (js_split (lit ''/'') p)))"

definition getFilenameFromPath :: "jstring \<Rightarrow> jstring" where
  "getFilenameFromPath p = (if p = [] then p else last (js_split (lit ''/'') p))"

definition relative_name :: "up_file \<Rightarrow> jstring" where
  "relative_name f = (if webkitRelativePath f \<noteq> [] then webkitRelativePath f else fname f)"

definition getUploadPath :: "jstring \<Rightarrow> up_file \<Rightarrow> jstring" where
  "getUploadPath path f = path @ lit ''/'' @ getPathWithoutFilename (relative_name f)"

section \<open>Cancelling\<close>

definition cleanupActiveChunkUpload :: "upload_state \<Rightarrow> upload_state" where
  "cleanupActiveChunkUpload st =
     (case activeChunkUpload st of
        None \<Rightarrow> st
      | Some i \<Rightarrow> st\<lparr>activeChunkUpload := None, stopped := stopped st @ [i]\<rparr>)"

text \<open>The confirmed cancellation of \<open>handleClose\<close>.\<close>

definition cancel :: "upload_state \<Rightarrow> upload_state" where
  "cancel st = cleanupActiveChunkUpload (st\<lparr>aborted := True\<rparr>)"

text \<open>Waiting once: time passes, and the user may cancel meanwhile.\<close>

definition await :: "world \<Rightarrow> upload_state \<Rightarrow> upload_state" where
  "await w st =
     (let st' = st\<lparr>now := now st + 1\<rparr> in if cancels w (now st) \<and> \<not> aborted st then cancel st' else st')"

section \<open>A chunk, with retries\<close>

definition shouldRetryChunkUpload :: "upload_error \<Rightarrow> bool" where
  "shouldRetryChunkUpload e =
     (if err_code e = Some (CodeText (lit ''ERR_CANCELED'')) then False
      else case err_retryable e of
        Some b \<Rightarrow> b
      | None \<Rightarrow>
          (let status = (case err_status e of
                 Some s \<Rightarrow> s
               | None \<Rightarrow> (case err_code e of Some (CodeNumber n) \<Rightarrow> n | _ \<Rightarrow> 0))
           in status = 0 \<or> status = 408 \<or> status = 429 \<or> status \<ge> 500))"

function uploadChunkWithRetry ::
    "world \<Rightarrow> chunk_request \<Rightarrow> nat \<Rightarrow> upload_state \<Rightarrow> upload_state \<times> upload_error option" where
  "uploadChunkWithRetry w req retryCount st =
     (let res = answer w (now st); st' = await w (st\<lparr>requests := requests st @ [req]\<rparr>)
      in case res of
           None \<Rightarrow> (st'\<lparr>accepted := accepted st' @ [req]\<rparr>, None)
         | Some e \<Rightarrow>
             (if aborted st' \<or> retryCount \<ge> MAX_CHUNK_RETRIES \<or> \<not> shouldRetryChunkUpload e then (st', Some e)
              else uploadChunkWithRetry w req (retryCount + 1) (await w st')))"
  by pat_completeness auto
termination by (relation "measure (\<lambda>(w, req, retryCount, st). MAX_CHUNK_RETRIES - retryCount)") auto

declare uploadChunkWithRetry.simps [simp del]

section \<open>A file\<close>

definition chunk_count :: "nat \<Rightarrow> nat" where
  "chunk_count bytes = (bytes + CHUNK_SIZE - 1) div CHUNK_SIZE"

definition slice :: "nat list \<Rightarrow> nat \<Rightarrow> nat \<Rightarrow> nat list" where
  "slice bytes a b = take (b - a) (drop a bytes)"

definition chunk_req :: "jstring \<Rightarrow> up_file \<Rightarrow> nat \<Rightarrow> bool \<Rightarrow> nat \<Rightarrow> chunk_request" where
  "chunk_req path f i over c =
     (let start = c * CHUNK_SIZE; finish = min (start + CHUNK_SIZE) (length (raw f))
      in \<lparr>uploadID = i, filename = getFilenameFromPath (fname f), upload_path = getUploadPath path f,
          chunk = slice (raw f) start finish, chunkIndex = c, chunkCount = chunk_count (length (raw f)),
          offset = start, fileSize = length (raw f), overwrite = over\<rparr>)"

text \<open>The loop over the chunks from \<open>c\<close> on: an error, or whether all were uploaded.\<close>

function chunk_loop ::
    "world \<Rightarrow> jstring \<Rightarrow> up_file \<Rightarrow> nat \<Rightarrow> bool \<Rightarrow> nat \<Rightarrow> upload_state \<Rightarrow> upload_state \<times> (upload_error + bool)" where
  "chunk_loop w path f i over c st =
     (if c \<ge> chunk_count (length (raw f)) then (st, Inr True)
      else if aborted st then (st, Inr False)
      else case uploadChunkWithRetry w (chunk_req path f i over c) 0 st of
             (st', Some e) \<Rightarrow> (st', Inl e)
           | (st', None) \<Rightarrow> chunk_loop w path f i over (c + 1) st')"
  by pat_completeness auto
termination by (relation "measure (\<lambda>(w, path, f, i, over, c, st). chunk_count (length (raw f)) - c)") auto

declare chunk_loop.simps [simp del]

text \<open>The \<open>catch\<close> clause stops the upload on the server, the \<open>finally\<close> clause when it was cancelled.\<close>

definition uploadChunkedFile ::
    "world \<Rightarrow> jstring \<Rightarrow> up_file \<Rightarrow> bool \<Rightarrow> upload_state \<Rightarrow> upload_state \<times> (upload_error + bool)" where
  "uploadChunkedFile w path f over st =
     (let i = next_id st;
          (st', r) = chunk_loop w path f i over 0 (st\<lparr>next_id := i + 1, activeChunkUpload := Some i\<rparr>);
          st'' = (case r of Inl e \<Rightarrow> await w (cleanupActiveChunkUpload st') | Inr _ \<Rightarrow> st')
      in (if activeChunkUpload st'' = Some i then
            (if aborted st'' then await w (cleanupActiveChunkUpload st'') else st''\<lparr>activeChunkUpload := None\<rparr>)
          else st'', r))"

definition uploadEmptyFile ::
    "world \<Rightarrow> jstring \<Rightarrow> up_file \<Rightarrow> upload_state \<Rightarrow> upload_state \<times> (upload_error + bool)" where
  "uploadEmptyFile w path f st =
     (let res = answer w (now st); st' = await w (st\<lparr>empty_sent := empty_sent st @ [getUploadPath path f]\<rparr>)
      in (st', case res of None \<Rightarrow> Inr True | Some e \<Rightarrow> Inl e))"

section \<open>All files\<close>

definition upload_one ::
    "world \<Rightarrow> jstring \<Rightarrow> up_file \<Rightarrow> bool \<Rightarrow> upload_state \<Rightarrow> upload_state \<times> (upload_error + bool)" where
  "upload_one w path f over st =
     (if length (raw f) = 0 then uploadEmptyFile w path f st else uploadChunkedFile w path f over st)"

text \<open>The loop over the files, with the status each file gets; a cancelled loop leaves the others as
  they were.  An error is shown unless the upload was cancelled.\<close>

fun file_loop ::
    "world \<Rightarrow> jstring \<Rightarrow> bool \<Rightarrow> up_file list \<Rightarrow> upload_state \<Rightarrow>
     upload_state \<times> file_status list \<times> upload_error list" where
  "file_loop w path over [] st = (st, [], [])"
| "file_loop w path over (f # fs) st =
     (if aborted st then (st, map (\<lambda>_. Ready) (f # fs), [])
      else
        let (st', r) = upload_one w path f over st;
            shown = (case r of Inl e \<Rightarrow> if aborted st' then [] else [e] | Inr _ \<Rightarrow> []);
            (st'', ss, es) = file_loop w path over fs st'
        in (st'', (if r = Inr True then Success else Fail) # ss, shown @ es))"

record upload_result =
  statuses :: "file_status list"
  errors_shown :: "upload_error list"
  cleared :: bool
  success_shown :: bool

text \<open>Starting an upload makes a new abort controller.\<close>

definition uploadFile ::
    "world \<Rightarrow> jstring \<Rightarrow> up_file list \<Rightarrow> bool \<Rightarrow> upload_state \<Rightarrow> upload_state \<times> upload_result" where
  "uploadFile w path files over st =
     (if files = [] then (st, \<lparr>statuses = [], errors_shown = [], cleared = True, success_shown = False\<rparr>)
      else
        let (st', ss, es) = file_loop w path over files (st\<lparr>aborted := False\<rparr>);
            done = (length (filter (\<lambda>s. s = Success) ss) = length files \<and> \<not> aborted st')
        in (st', \<lparr>statuses = ss, errors_shown = es, cleared = done, success_shown = done\<rparr>))"

text \<open>The paths that are checked for existing files, and the answer to the dialog.\<close>

definition target_path :: "jstring \<Rightarrow> up_file \<Rightarrow> jstring" where
  "target_path path f = path @ lit ''/'' @ relative_name f"

definition fileNamesWithPath :: "jstring \<Rightarrow> up_file list \<Rightarrow> jstring list" where
  "fileNamesWithPath path files = fold (\<lambda>p ps. if p \<in> set ps then ps else ps @ [p]) (map (target_path path) files) []"

datatype exist_action = Skip "jstring list" | Overwrite

definition handleFileUpload ::
    "world \<Rightarrow> jstring \<Rightarrow> up_file list \<Rightarrow> exist_action \<Rightarrow> upload_state \<Rightarrow> upload_state \<times> upload_result" where
  "handleFileUpload w path files action st =
     (case action of
        Skip skipped \<Rightarrow> uploadFile w path (filter (\<lambda>f. target_path path f \<notin> set skipped) files) False st
      | Overwrite \<Rightarrow> uploadFile w path files True st)"

text \<open>\<open>None\<close> when files exist and the dialog opens instead.\<close>

definition submit ::
    "(jstring list \<Rightarrow> jstring list) \<Rightarrow> world \<Rightarrow> jstring \<Rightarrow> up_file list \<Rightarrow> upload_state \<Rightarrow>
     (upload_state \<times> upload_result) option" where
  "submit exist w path files st =
     (if exist (fileNamesWithPath path files) \<noteq> [] then None else Some (uploadFile w path files False st))"

section \<open>The chunks of a file\<close>

lemma CHUNK_pos [simp]: "0 < CHUNK_SIZE"
  by (simp add: CHUNK_SIZE_def)

lemma chunk_count_cover: "n \<le> chunk_count n * CHUNK_SIZE"
proof -
  have "CHUNK_SIZE * ((n + CHUNK_SIZE - 1) div CHUNK_SIZE) + (n + CHUNK_SIZE - 1) mod CHUNK_SIZE = n + CHUNK_SIZE - 1"
    by (rule mult_div_mod_eq)
  moreover have "(n + CHUNK_SIZE - 1) mod CHUNK_SIZE < CHUNK_SIZE" by simp
  moreover have "0 < CHUNK_SIZE" by simp
  ultimately have "n \<le> CHUNK_SIZE * ((n + CHUNK_SIZE - 1) div CHUNK_SIZE)" by linarith
  then show ?thesis unfolding chunk_count_def by (simp only: mult.commute)
qed

lemma chunk_count_tight: "c < chunk_count n \<Longrightarrow> c * CHUNK_SIZE < n"
proof -
  assume "c < chunk_count n"
  then have "Suc c * CHUNK_SIZE \<le> (n + CHUNK_SIZE - 1) div CHUNK_SIZE * CHUNK_SIZE"
    unfolding chunk_count_def by (intro mult_le_mono1) simp
  also have "\<dots> \<le> n + CHUNK_SIZE - 1" by (rule div_times_less_eq_dividend)
  finally have "CHUNK_SIZE + c * CHUNK_SIZE \<le> n + CHUNK_SIZE - 1" by simp
  with CHUNK_pos show ?thesis by linarith
qed

lemma slice_piece:
  assumes "a < length xs"
  shows "take a xs @ slice xs a (min (a + k) (length xs)) = take (a + k) xs"
  using assms by (simp add: slice_def take_add min_def)

lemma pieces_take:
  "n \<le> chunk_count (length xs) \<Longrightarrow>
    concat (map (\<lambda>c. slice xs (c * CHUNK_SIZE) (min (c * CHUNK_SIZE + CHUNK_SIZE) (length xs))) [0..<n]) =
    take (n * CHUNK_SIZE) xs"
proof (induction n)
  case (Suc n)
  then have "n * CHUNK_SIZE < length xs" by (intro chunk_count_tight) simp
  from slice_piece [OF this] Suc show ?case by (simp add: add.commute)
qed simp

abbreviation file_chunks :: "jstring \<Rightarrow> up_file \<Rightarrow> nat \<Rightarrow> bool \<Rightarrow> nat \<Rightarrow> chunk_request list" where
  "file_chunks path f i over n \<equiv> map (chunk_req path f i over) [0..<n]"

lemma file_chunks_bytes:
  "n \<le> chunk_count (length (raw f)) \<Longrightarrow>
    concat (map chunk (file_chunks path f i over n)) = take (n * CHUNK_SIZE) (raw f)"
  using pieces_take [of n "raw f"] by (simp add: chunk_req_def Let_def comp_def)

section \<open>What waiting changes\<close>

text \<open>Between two states of an upload at most one cancellation happened.\<close>

definition same_or_cancelled :: "upload_state \<Rightarrow> upload_state \<Rightarrow> bool" where
  "same_or_cancelled st st' \<longleftrightarrow>
     aborted st' = aborted st \<and> activeChunkUpload st' = activeChunkUpload st \<and> stopped st' = stopped st \<or>
     \<not> aborted st \<and> aborted st' \<and> activeChunkUpload st' = None \<and>
     stopped st' = stopped st @ (case activeChunkUpload st of None \<Rightarrow> [] | Some i \<Rightarrow> [i])"

lemma soc_refl: "same_or_cancelled st st"
  by (simp add: same_or_cancelled_def)

lemma soc_trans: "same_or_cancelled a b \<Longrightarrow> same_or_cancelled b c \<Longrightarrow> same_or_cancelled a c"
  by (auto simp: same_or_cancelled_def)

lemma await_soc:
  assumes "aborted st' = aborted st" "activeChunkUpload st' = activeChunkUpload st" "stopped st' = stopped st"
  shows "same_or_cancelled st (await w st')"
  using assms by (auto simp: same_or_cancelled_def await_def cancel_def cleanupActiveChunkUpload_def Let_def
      split: option.splits)

lemma await_logs [simp]:
  "requests (await w st) = requests st" "accepted (await w st) = accepted st"
  "next_id (await w st) = next_id st" "empty_sent (await w st) = empty_sent st"
  by (auto simp: await_def cancel_def cleanupActiveChunkUpload_def Let_def split: option.splits)

lemma cleanup_logs [simp]:
  "requests (cleanupActiveChunkUpload st) = requests st" "accepted (cleanupActiveChunkUpload st) = accepted st"
  "next_id (cleanupActiveChunkUpload st) = next_id st"
  by (auto simp: cleanupActiveChunkUpload_def split: option.splits)

lemma retry_effect:
  "uploadChunkWithRetry w req k st = (st', r) \<Longrightarrow> k \<le> MAX_CHUNK_RETRIES \<Longrightarrow>
    same_or_cancelled st st' \<and> next_id st' = next_id st \<and>
    accepted st' = accepted st @ (if r = None then [req] else []) \<and>
    (\<exists>n. 1 \<le> n \<and> n \<le> MAX_CHUNK_RETRIES + 1 - k \<and> requests st' = requests st @ replicate n req)"
proof (induction w req k st arbitrary: st' r rule: uploadChunkWithRetry.induct)
  case (1 w req k st)
  let ?a = "await w (st\<lparr>requests := requests st @ [req]\<rparr>)"
  have a: "same_or_cancelled st ?a" by (rule await_soc) simp_all
  note step = "1.prems"(1) [unfolded uploadChunkWithRetry.simps [of w req k st] Let_def]
  show ?case
  proof (cases "answer w (now st)")
    case None
    with step have "st' = ?a\<lparr>accepted := accepted ?a @ [req]\<rparr>" "r = None" by auto
    with a "1.prems"(2) show ?thesis by (auto simp: same_or_cancelled_def intro!: exI [of _ 1])
  next
    case (Some e)
    show ?thesis
    proof (cases "aborted ?a \<or> k \<ge> MAX_CHUNK_RETRIES \<or> \<not> shouldRetryChunkUpload e")
      case True
      with step Some have "st' = ?a" "r = Some e" by auto
      with a "1.prems"(2) show ?thesis by (auto intro!: exI [of _ 1])
    next
      case False
      with step Some have run: "uploadChunkWithRetry w req (k + 1) (await w ?a) = (st', r)" by auto
      from False have "k + 1 \<le> MAX_CHUNK_RETRIES" by simp
      with "1.IH" [OF refl refl Some False run] obtain n
        where n: "1 \<le> n" "n \<le> MAX_CHUNK_RETRIES + 1 - (k + 1)" "requests st' = requests st @ req # replicate n req"
          "same_or_cancelled (await w ?a) st'" "next_id st' = next_id st"
          "accepted st' = accepted st @ (if r = None then [req] else [])" by auto
      have "same_or_cancelled ?a (await w ?a)" by (rule await_soc) simp_all
      with a n(4) have "same_or_cancelled st st'" using soc_trans by blast
      with n show ?thesis by (auto intro!: exI [of _ "Suc n"])
    qed
  qed
qed

section \<open>The loops\<close>

text \<open>The requests of a loop: each chunk at most four times, one chunk after the other.\<close>

definition attempts :: "nat list \<Rightarrow> chunk_request list \<Rightarrow> chunk_request list" where
  "attempts ns reqs = concat (map2 replicate ns reqs)"

definition attempted :: "jstring \<Rightarrow> up_file \<Rightarrow> nat \<Rightarrow> bool \<Rightarrow> nat \<Rightarrow> chunk_request list \<Rightarrow> bool" where
  "attempted path f i over c reqs \<longleftrightarrow>
     (\<exists>ns. c + length ns \<le> chunk_count (length (raw f)) \<and> (\<forall>n \<in> set ns. 1 \<le> n \<and> n \<le> MAX_CHUNK_RETRIES + 1) \<and>
        reqs = attempts ns (map (chunk_req path f i over) [c..<c + length ns]))"

lemma attempted_Nil: "c \<le> chunk_count (length (raw f)) \<Longrightarrow> attempted path f i over c []"
  unfolding attempted_def by (rule exI [of _ "[]"]) (simp add: attempts_def)

lemma attempted_Cons:
  assumes "1 \<le> n" "n \<le> MAX_CHUNK_RETRIES + 1" "attempted path f i over (Suc c) reqs"
  shows "attempted path f i over c (replicate n (chunk_req path f i over c) @ reqs)"
proof -
  from assms(3) obtain ns where ns: "Suc c + length ns \<le> chunk_count (length (raw f))"
    "\<forall>n \<in> set ns. 1 \<le> n \<and> n \<le> MAX_CHUNK_RETRIES + 1"
    "reqs = attempts ns (map (chunk_req path f i over) [Suc c..<Suc c + length ns])"
    by (auto simp: attempted_def)
  have "[c..<c + length (n # ns)] = c # [Suc c..<Suc c + length ns]"
    using upt_conv_Cons [of c "c + length (n # ns)"] by simp
  with ns assms(1,2) show ?thesis
    unfolding attempted_def by (intro exI [of _ "n # ns"]) (simp add: attempts_def)
qed

lemma chunk_loop_effect:
  "chunk_loop w path f i over c st = (st', r) \<Longrightarrow> c \<le> chunk_count (length (raw f)) \<Longrightarrow>
    same_or_cancelled st st' \<and> next_id st' = next_id st \<and>
    (\<exists>c' \<ge> c. c' \<le> chunk_count (length (raw f)) \<and>
       accepted st' = accepted st @ map (chunk_req path f i over) [c..<c'] \<and>
       (r = Inr True \<longleftrightarrow> c' = chunk_count (length (raw f)))) \<and>
    (r = Inr False \<longrightarrow> aborted st') \<and>
    (\<exists>reqs. requests st' = requests st @ reqs \<and> attempted path f i over c reqs)"
proof (induction w path f i over c st arbitrary: st' r rule: chunk_loop.induct)
  case (1 w path f i over c st)
  let ?n = "chunk_count (length (raw f))"
  note step = "1.prems"(1) [unfolded chunk_loop.simps [of w path f i over c st]]
  consider (over) "c \<ge> ?n" | (abort) "c < ?n" "aborted st" | (go) "c < ?n" "\<not> aborted st" by linarith
  then show ?case
  proof cases
    case over
    with step "1.prems"(2) show ?thesis by (auto simp: soc_refl attempted_Nil intro!: exI [of _ c])
  next
    case abort
    with step show ?thesis by (auto simp: soc_refl attempted_Nil intro!: exI [of _ c])
  next
    case go
    obtain sm q where m: "uploadChunkWithRetry w (chunk_req path f i over c) 0 st = (sm, q)" by fastforce
    from retry_effect [OF m] obtain n
      where s: "same_or_cancelled st sm" "next_id sm = next_id st" "1 \<le> n" "n \<le> MAX_CHUNK_RETRIES + 1"
        "accepted sm = accepted st @ (if q = None then [chunk_req path f i over c] else [])"
        "requests sm = requests st @ replicate n (chunk_req path f i over c)" by auto
    show ?thesis
    proof (cases q)
      case (Some e)
      with step go m have "st' = sm" "r = Inl e" by auto
      moreover have "attempted path f i over c (replicate n (chunk_req path f i over c) @ [])"
        by (rule attempted_Cons [OF s(3,4)]) (use go in \<open>simp add: attempted_Nil\<close>)
      ultimately show ?thesis
        using s Some go by (auto intro!: exI [of _ c])
    next
      case None
      with step go m have run: "chunk_loop w path f i over (c + 1) sm = (st', r)" by auto
      from "1.IH" [OF _ _ m [symmetric] None run] go obtain c' reqs
        where ih: "same_or_cancelled sm st'" "next_id st' = next_id sm" "c + 1 \<le> c'" "c' \<le> ?n"
          "accepted st' = accepted sm @ map (chunk_req path f i over) [c + 1..<c']"
          "r = Inr True \<longleftrightarrow> c' = ?n" "r = Inr False \<longrightarrow> aborted st'"
          "requests st' = requests sm @ reqs" "attempted path f i over (Suc c) reqs" by auto
      have "accepted st' = accepted st @ map (chunk_req path f i over) [c..<c']"
        using ih(3,5) s(5) None by (simp add: upt_rec [of c])
      moreover have "requests st' = requests st @ (replicate n (chunk_req path f i over c) @ reqs)"
        using ih(8) s(6) by simp
      moreover note attempted_Cons [OF s(3,4) ih(9)]
      moreover have "same_or_cancelled st st'" using s(1) ih(1) soc_trans by blast
      ultimately show ?thesis using ih s(2) by (metis Suc_eq_plus1 Suc_leD)
    qed
  qed
qed

lemma uploadChunkedFile_effect:
  assumes "uploadChunkedFile w path f over st = (st', r)" "activeChunkUpload st = None" "raw f \<noteq> []"
  shows "activeChunkUpload st' = None \<and>
    stopped st' = stopped st @ (if r = Inr True \<and> \<not> aborted st' then [] else [next_id st]) \<and>
    (aborted st \<longrightarrow> aborted st') \<and>
    (\<exists>n \<le> chunk_count (length (raw f)). accepted st' = accepted st @ file_chunks path f (next_id st) over n \<and>
       (r = Inr True \<longleftrightarrow> n = chunk_count (length (raw f)))) \<and>
    (\<exists>reqs. requests st' = requests st @ reqs \<and> attempted path f (next_id st) over 0 reqs)"
proof -
  let ?i = "next_id st" and ?s0 = "st\<lparr>next_id := next_id st + 1, activeChunkUpload := Some (next_id st)\<rparr>"
  obtain sl where l: "chunk_loop w path f ?i over 0 ?s0 = (sl, r)"
    using assms(1) by (auto simp: uploadChunkedFile_def Let_def split: prod.splits)
  note e = chunk_loop_effect [OF l]
  define sc where "sc = (case r of Inl e \<Rightarrow> await w (cleanupActiveChunkUpload sl) | Inr _ \<Rightarrow> sl)"
  have st': "st' = (if activeChunkUpload sc = Some ?i then
      (if aborted sc then await w (cleanupActiveChunkUpload sc) else sc\<lparr>activeChunkUpload := None\<rparr>) else sc)"
    using assms(1) [symmetric] l by (simp add: uploadChunkedFile_def Let_def sc_def)
  have logs: "accepted st' = accepted sl" "requests st' = requests sl"
    by (auto simp: st' sc_def split: sum.splits)
  have c: "same_or_cancelled ?s0 sl" using e by simp
  have "activeChunkUpload st' = None \<and>
    stopped st' = stopped st @ (if r = Inr True \<and> \<not> aborted st' then [] else [?i]) \<and> (aborted st \<longrightarrow> aborted st')"
    using c e assms(2) unfolding st' sc_def
    by (cases r) (auto simp: same_or_cancelled_def cleanupActiveChunkUpload_def await_def cancel_def Let_def)
  with e logs show ?thesis by auto
qed

text \<open>C33: A file's upload leaves the server clean.  Whatever the server answers and whenever the user cancels, the
  bytes that were accepted are a prefix of the file, all of it exactly when the upload answers true; the
  requests sent are those of the first chunks in order, each between once and four times in a row, before
  any of the next chunk; and the server is told once to drop the upload exactly when it did not
  finish or was cancelled.\<close>

theorem chunked_upload_effect:
  assumes "uploadChunkedFile w path f over st = (st', r)" "activeChunkUpload st = None" "raw f \<noteq> []"
  shows "activeChunkUpload st' = None \<and>
    stopped st' = stopped st @ (if r = Inr True \<and> \<not> aborted st' then [] else [next_id st]) \<and>
    (\<exists>new. accepted st' = accepted st @ new \<and>
       (\<exists>k. concat (map chunk new) = take k (raw f)) \<and>
       (r = Inr True \<longleftrightarrow> concat (map chunk new) = raw f) \<and>
       (\<forall>q \<in> set new. q = chunk_req path f (next_id st) over (chunkIndex q))) \<and>
    (\<exists>ns. length ns \<le> chunk_count (length (raw f)) \<and> (\<forall>n \<in> set ns. 1 \<le> n \<and> n \<le> 4) \<and>
       requests st' = requests st @
         concat (map2 replicate ns (map (chunk_req path f (next_id st) over) [0..<length ns])))"
proof -
  let ?n = "chunk_count (length (raw f))"
  from uploadChunkedFile_effect [OF assms] obtain n where n: "n \<le> ?n"
    "accepted st' = accepted st @ file_chunks path f (next_id st) over n" "r = Inr True \<longleftrightarrow> n = ?n" by blast
  have bytes: "concat (map chunk (file_chunks path f (next_id st) over n)) = take (n * CHUNK_SIZE) (raw f)"
    by (rule file_chunks_bytes [OF n(1)])
  have "take (n * CHUNK_SIZE) (raw f) = raw f \<longleftrightarrow> n = ?n"
    using chunk_count_cover [of "length (raw f)"] chunk_count_tight [of n "length (raw f)"] n(1)
    by (auto simp: take_all_iff le_less)
  moreover have "q = chunk_req path f (next_id st) over (chunkIndex q)"
    if "q \<in> set (file_chunks path f (next_id st) over n)" for q
    using that by (auto simp: chunk_req_def Let_def)
  moreover have "\<exists>ns. length ns \<le> ?n \<and> (\<forall>n \<in> set ns. 1 \<le> n \<and> n \<le> 4) \<and> requests st' = requests st @
      concat (map2 replicate ns (map (chunk_req path f (next_id st) over) [0..<length ns]))"
    using uploadChunkedFile_effect [OF assms] unfolding attempted_def attempts_def MAX_CHUNK_RETRIES_def
    by (simp del: map_map) metis
  moreover have "activeChunkUpload st' = None"
    "stopped st' = stopped st @ (if r = Inr True \<and> \<not> aborted st' then [] else [next_id st])"
    using uploadChunkedFile_effect [OF assms] by blast+
  ultimately show ?thesis using n bytes by (auto simp del: map_map)
qed

text \<open>A file of three bytes whose request fails once before it is accepted.\<close>

theorem chunked_upload_effect_witness:
  "let w = \<lparr>answer = (\<lambda>n. if n = 0 then Some \<lparr>err_code = None, err_retryable = None, err_status = Some 503\<rparr> else None),
            cancels = (\<lambda>_. False)\<rparr>;
       f = \<lparr>fname = lit ''a.txt'', webkitRelativePath = [], raw = [1, 2, 3]\<rparr>;
       st = \<lparr>now = 0, next_id = 7, aborted = False, activeChunkUpload = None, requests = [], accepted = [],
             empty_sent = [], stopped = []\<rparr>
   in activeChunkUpload (fst (uploadChunkedFile w (lit ''/opt'') f False st)) = None"
  using chunked_upload_effect [OF prod.collapse [symmetric]] by (simp add: Let_def)

section \<open>All files of an upload\<close>

lemma upload_one_effect:
  assumes "upload_one w path f over st = (st', r)" "activeChunkUpload st = None"
  shows "activeChunkUpload st' = None \<and> (aborted st \<longrightarrow> aborted st') \<and>
    (r = Inr True \<and> \<not> aborted st' \<longrightarrow> stopped st' = stopped st \<and>
       (\<exists>new. accepted st' = accepted st @ new \<and> concat (map chunk new) = raw f))"
proof (cases "raw f = []")
  case True
  let ?a = "await w (st\<lparr>empty_sent := empty_sent st @ [getUploadPath path f]\<rparr>)"
  have "st' = ?a" using assms(1) True by (auto simp: upload_one_def uploadEmptyFile_def Let_def)
  moreover have "same_or_cancelled st ?a" by (rule await_soc) simp_all
  ultimately show ?thesis using assms(2) True by (auto simp: same_or_cancelled_def)
next
  case False
  with assms(1) have u: "uploadChunkedFile w path f over st = (st', r)" by (simp add: upload_one_def)
  from uploadChunkedFile_effect [OF u assms(2) False] obtain n where n: "n \<le> chunk_count (length (raw f))"
    "accepted st' = accepted st @ file_chunks path f (next_id st) over n"
    "r = Inr True \<longleftrightarrow> n = chunk_count (length (raw f))" by blast
  have all: "take (chunk_count (length (raw f)) * CHUNK_SIZE) (raw f) = raw f" using chunk_count_cover by simp
  have "r = Inr True \<longrightarrow> concat (map chunk (file_chunks path f (next_id st) over n)) = raw f"
    unfolding file_chunks_bytes [OF n(1)] using n(3) all by simp
  with uploadChunkedFile_effect [OF u assms(2) False] n(2) show ?thesis by (auto simp del: map_map)
qed

lemma file_loop_aborted: "aborted st \<Longrightarrow> fst (file_loop w path over fs st) = st"
  by (cases fs) auto

lemma file_loop_effect:
  "file_loop w path over fs st = (st', ss, es) \<Longrightarrow> activeChunkUpload st = None \<Longrightarrow>
    activeChunkUpload st' = None \<and> length ss = length fs \<and> (aborted st \<longrightarrow> aborted st') \<and>
    (\<not> aborted st' \<and> set ss \<subseteq> {Success} \<longrightarrow> stopped st' = stopped st \<and>
       (\<exists>new. accepted st' = accepted st @ new \<and> concat (map chunk new) = concat (map raw fs)))"
proof (induction fs arbitrary: st st' ss es)
  case (Cons f fs)
  show ?case
  proof (cases "aborted st")
    case False
    obtain sm r where u: "upload_one w path f over st = (sm, r)" by fastforce
    obtain sz ss' es' where l: "file_loop w path over fs sm = (sz, ss', es')" using prod_cases3 by blast
    note e = upload_one_effect [OF u Cons.prems(2)]
    note ih = Cons.IH [OF l]
    from Cons.prems(1) False u l have "st' = sz" "ss = (if r = Inr True then Success else Fail) # ss'"
      by (auto simp: Let_def)
    with e ih False show ?thesis by (auto split: if_splits)
  qed (use Cons.prems in auto)
qed auto

text \<open>C40: The success message is only shown when the server accepted every byte of every chosen file, in
  order, and was told to drop none of the uploads.\<close>

theorem upload_success_complete:
  assumes "uploadFile w path files over st = (st', res)" "activeChunkUpload st = None" "success_shown res"
  shows "activeChunkUpload st' = None \<and> stopped st' = stopped st \<and> statuses res = replicate (length files) Success \<and>
    (\<exists>new. accepted st' = accepted st @ new \<and> concat (map chunk new) = concat (map raw files))"
proof -
  have ne: "files \<noteq> []" using assms by (auto simp: uploadFile_def)
  obtain ss es where l: "file_loop w path over files (st\<lparr>aborted := False\<rparr>) = (st', ss, es)"
    and fin: "length (filter (\<lambda>s. s = Success) ss) = length files" "\<not> aborted st'" "statuses res = ss"
    using assms ne by (auto simp: uploadFile_def Let_def split: prod.splits)
  note e = file_loop_effect [OF l]
  then have len: "length ss = length files" using assms(2) by simp
  with fin(1) have "filter (\<lambda>s. s = Success) ss = ss"
    by (metis length_filter_less filter_True less_irrefl)
  then have "\<forall>s \<in> set ss. s = Success" by (simp add: filter_id_conv)
  moreover from this have "ss = replicate (length files) Success" by (metis len replicate_length_same)
  ultimately show ?thesis using e fin assms(2) by auto
qed

theorem upload_success_complete_witness:
  "let w = \<lparr>answer = (\<lambda>_. None), cancels = (\<lambda>_. False)\<rparr>;
       f = \<lparr>fname = lit ''a.txt'', webkitRelativePath = [], raw = [1, 2, 3]\<rparr>;
       st = \<lparr>now = 0, next_id = 7, aborted = False, activeChunkUpload = None, requests = [], accepted = [],
             empty_sent = [], stopped = []\<rparr>
   in \<exists>new. accepted (fst (uploadFile w (lit ''/opt'') [f] False st)) = new \<and> concat (map chunk new) = [1, 2, 3]"
proof -
  define w where "w = \<lparr>answer = (\<lambda>_. None), cancels = (\<lambda>_. False)\<rparr>"
  define f where "f = \<lparr>fname = lit ''a.txt'', webkitRelativePath = [], raw = [1, 2, 3]\<rparr>"
  define st where "st = \<lparr>now = 0, next_id = 7, aborted = False, activeChunkUpload = None, requests = [],
    accepted = [], empty_sent = [], stopped = []\<rparr>"
  have "success_shown (snd (uploadFile w (lit ''/opt'') [f] False st))"
    by (simp add: uploadFile_def upload_one_def uploadChunkedFile_def chunk_loop.simps chunk_count_def CHUNK_SIZE_def
        uploadChunkWithRetry.simps await_def w_def f_def st_def Let_def)
  then show ?thesis
    using upload_success_complete [OF prod.collapse [symmetric, of "uploadFile w (lit ''/opt'') [f] False st"]]
    by (simp add: w_def f_def st_def Let_def)
qed

end
