(* ===== verification/RegexExec.thy ===== *)
theory RegexExec
  imports Regex
begin

text \<open>
  Regular expressions that are searched for inside a string: \<open>RegExp.prototype.exec\<close> with the
  flag \<open>g\<close>.  Here the order in which a backtracking matcher tries its alternatives decides which
  match is found, so a pattern denotes the list of the ends of its matches from a position, in
  that order; the first one is the match.  The patterns have no back references, and a look
  behind only asks whether some match ends here, so captures need not be kept.
\<close>

section \<open>Patterns\<close>

datatype jre =
    JEps
  | JChr "nat \<Rightarrow> bool"
  | JSeq jre jre
  | JAlt jre jre
  | JRep nat "nat option" jre
  | JLook bool jre
  | JBack bool jre
  | JWordB
  | JStart
  | JEnd

fun jseqs :: "jre list \<Rightarrow> jre" where
  "jseqs [] = JEps"
| "jseqs [r] = r"
| "jseqs (r # s # rs) = JSeq r (jseqs (s # rs))"

fun jalts :: "jre list \<Rightarrow> jre" where
  "jalts [] = JLook False JEps"
| "jalts [r] = r"
| "jalts (r # s # rs) = JAlt r (jalts (s # rs))"

definition unit_is :: "char \<Rightarrow> nat \<Rightarrow> bool" where
  "unit_is c d \<longleftrightarrow> d = of_char c"

definition any_of :: "(nat \<Rightarrow> bool) list \<Rightarrow> nat \<Rightarrow> bool" where
  "any_of ps c \<longleftrightarrow> list_ex (\<lambda>p. p c) ps"

definition none_of :: "(nat \<Rightarrow> bool) list \<Rightarrow> nat \<Rightarrow> bool" where
  "none_of ps c \<longleftrightarrow> \<not> list_ex (\<lambda>p. p c) ps"

definition jch :: "char \<Rightarrow> jre" where "jch c = JChr (unit_is c)"
definition jword :: "string \<Rightarrow> jre" where "jword w = jseqs (map jch w)"
definition jstar :: "jre \<Rightarrow> jre" where "jstar r = JRep 0 None r"
definition jplus :: "jre \<Rightarrow> jre" where "jplus r = JRep 1 None r"
definition jopt :: "jre \<Rightarrow> jre" where "jopt r = JRep 0 (Some 1) r"
definition jtimes :: "nat \<Rightarrow> jre \<Rightarrow> jre" where "jtimes n r = JRep n (Some n) r"

text \<open>A word of capital letters under the flag \<open>i\<close>.\<close>

definition jch_i :: "char \<Rightarrow> jre" where
  "jch_i c = JChr (\<lambda>d. d = of_char c \<or> d = of_char c + 32)"

definition jword_i :: "string \<Rightarrow> jre" where "jword_i w = jseqs (map jch_i w)"

lemmas jre_defs = jch_def jword_def jstar_def jplus_def jopt_def jtimes_def jch_i_def jword_i_def

section \<open>Matching\<close>

definition word_at :: "jstring \<Rightarrow> nat \<Rightarrow> bool" where
  "word_at s i \<longleftrightarrow> i < length s \<and> word_unit (s ! i)"

text \<open>
  The ends of the matches from \<open>i\<close>.  A repetition takes as many rounds as it can; once its
  minimum is reached, a round that consumes nothing is a failure.  (A round never ends before
  its start or behind the string, which the guard repeats for the termination.)
\<close>

function ends :: "jre \<Rightarrow> jstring \<Rightarrow> nat \<Rightarrow> nat list" where
  "ends JEps s i = [i]"
| "ends (JChr p) s i = (if i < length s \<and> p (s ! i) then [i + 1] else [])"
| "ends (JSeq a b) s i = concat (map (\<lambda>j. ends b s j) (ends a s i))"
| "ends (JAlt a b) s i = ends a s i @ ends b s i"
| "ends (JRep m n r) s i =
     (if n = Some 0 then (if m = 0 then [i] else [])
      else
        concat (map (\<lambda>j. if m > 0 then ends (JRep (m - 1) (map_option (\<lambda>k. k - 1) n) r) s j
                         else if i < j \<and> j \<le> length s then ends (JRep 0 (map_option (\<lambda>k. k - 1) n) r) s j
                         else []) (ends r s i))
        @ (if m = 0 then [i] else []))"
| "ends (JLook b r) s i = (if (ends r s i \<noteq> []) = b then [i] else [])"
| "ends (JBack b r) s i = (if list_ex (\<lambda>k. i \<in> set (ends r s k)) [0..<Suc i] = b then [i] else [])"
| "ends JWordB s i = (if (0 < i \<and> word_at s (i - 1)) \<noteq> word_at s i then [i] else [])"
| "ends JStart s i = (if i = 0 then [i] else [])"
| "ends JEnd s i = (if i = length s then [i] else [])"
  by pat_completeness auto
termination
  by (relation "measures [\<lambda>(r, s, i). size r, \<lambda>(r, s, i). (case r of JRep m n q \<Rightarrow> m | _ \<Rightarrow> 0),
        \<lambda>(r, s, i). length s - i]") auto

declare ends.simps(5) [simp del]

lemma ends_rep:
  "j \<in> set (ends (JRep m n r) s i) \<longleftrightarrow>
     m = 0 \<and> j = i \<or>
     n \<noteq> Some 0 \<and> (\<exists>k \<in> set (ends r s i).
       (0 < m \<or> i < k \<and> k \<le> length s) \<and> j \<in> set (ends (JRep (m - 1) (map_option (\<lambda>k. k - 1) n) r) s k))"
  unfolding ends.simps(5) [of m n r s i] by (cases "m = 0") auto

lemma ends_bounds:
  "j \<in> set (ends r s i) \<Longrightarrow> i \<le> length s \<Longrightarrow> i \<le> j \<and> j \<le> length s"
proof (induction r s i arbitrary: j rule: ends.induct)
  case (3 a b s i)
  then obtain k where k: "k \<in> set (ends a s i)" "j \<in> set (ends b s k)" by auto
  with 3 show ?case by (meson order_trans)
next
  case (5 m n r s i)
  from "5.prems"(1) consider "j = i" | k where "n \<noteq> Some 0" "k \<in> set (ends r s i)" "0 < m \<or> i < k \<and> k \<le> length s"
      "j \<in> set (ends (JRep (m - 1) (map_option (\<lambda>k. k - 1) n) r) s k)"
    unfolding ends_rep [of j m n r s i] by blast
  then show ?case
  proof cases
    case (2 k)
    then have "i \<le> k \<and> k \<le> length s" using "5.IH"(1) "5.prems"(2) by blast
    moreover from this have "k \<le> j \<and> j \<le> length s"
      using 2 "5.IH"(2) [of k j] "5.IH"(3) [of k j] by (cases "m = 0") auto
    ultimately show ?thesis by linarith
  qed (use 5 in simp)
qed (auto split: if_splits)

text \<open>Patterns none of whose matches is empty.\<close>

fun consuming :: "jre \<Rightarrow> bool" where
  "consuming (JChr p) = True"
| "consuming (JSeq a b) = (consuming a \<or> consuming b)"
| "consuming (JAlt a b) = (consuming a \<and> consuming b)"
| "consuming (JRep m n r) = (0 < m \<and> consuming r)"
| "consuming _ = False"

lemma consuming_ends:
  "consuming r \<Longrightarrow> j \<in> set (ends r s i) \<Longrightarrow> i \<le> length s \<Longrightarrow> i < j"
proof (induction r s i arbitrary: j rule: ends.induct)
  case (3 a b s i)
  then obtain k where k: "k \<in> set (ends a s i)" "j \<in> set (ends b s k)" by auto
  with 3 ends_bounds [of k a s i] ends_bounds [of j b s k] show ?case
    by (metis consuming.simps(2) le_less_trans less_le_trans)
next
  case (5 m n r s i)
  then have m: "0 < m" "consuming r" by auto
  with "5.prems"(2) obtain k where k: "n \<noteq> Some 0" "k \<in> set (ends r s i)"
      "j \<in> set (ends (JRep (m - 1) (map_option (\<lambda>k. k - 1) n) r) s k)"
    unfolding ends_rep [of j m n r s i] by blast
  then have "i < k" using "5.IH"(1) m "5.prems"(3) by blast
  with k ends_bounds [OF k(2)] ends_bounds [OF k(3)] "5.prems"(3) show ?case by linarith
qed (auto split: if_splits)

section \<open>All matches\<close>

text \<open>
  \<^verbatim>\<open>while ((match = regex.exec(log)) !== null) matches.push(...)\<close>: each call goes on where the last
  match ended.  After an empty match it finds the same match again, so the loop does not end:
  \<open>None\<close>.
\<close>

definition exec_from :: "jre \<Rightarrow> jstring \<Rightarrow> nat \<Rightarrow> (nat \<times> nat) option" where
  "exec_from r s start =
     (case find (\<lambda>i. ends r s i \<noteq> []) [start..<Suc (length s)] of
        None \<Rightarrow> None
      | Some i \<Rightarrow> Some (i, hd (ends r s i)))"

lemma exec_from_SomeD:
  assumes "exec_from r s start = Some (i, j)"
  shows "start \<le> i \<and> i \<le> length s \<and> j \<in> set (ends r s i)"
proof -
  from assms have f: "find (\<lambda>i. ends r s i \<noteq> []) [start..<Suc (length s)] = Some i" "j = hd (ends r s i)"
    by (auto simp: exec_from_def simp del: upt_Suc split: option.splits)
  then have "i \<in> set [start..<Suc (length s)]" "ends r s i \<noteq> []"
    by (auto simp: find_Some_iff in_set_conv_nth simp del: upt_Suc)
  then show ?thesis using f(2) by auto
qed

function exec_all :: "jre \<Rightarrow> jstring \<Rightarrow> nat \<Rightarrow> (nat \<times> nat) list option" where
  "exec_all r s start =
     (case exec_from r s start of
        None \<Rightarrow> Some []
      | Some (i, j) \<Rightarrow>
          if j \<le> i then None else map_option (\<lambda>ms. (i, j) # ms) (exec_all r s j))"
  by pat_completeness auto
termination
  by (relation "measure (\<lambda>(r, s, start). Suc (length s) - start)") (auto dest!: exec_from_SomeD)

declare exec_all.simps [simp del]

text \<open>A consuming pattern always returns; its matches lie in the string and one behind the other.\<close>

fun in_order :: "nat \<Rightarrow> nat \<Rightarrow> (nat \<times> nat) list \<Rightarrow> bool" where
  "in_order start len [] = True"
| "in_order start len ((i, j) # ms) = (start \<le> i \<and> i < j \<and> j \<le> len \<and> in_order j len ms)"

lemma exec_all_consuming:
  assumes "consuming r"
  shows "\<exists>ms. exec_all r s start = Some ms \<and> in_order start (length s) ms"
proof (induction "length s - start" arbitrary: start rule: less_induct)
  case less
  show ?case
  proof (cases "exec_from r s start")
    case None
    then show ?thesis by (simp add: exec_all.simps [of r s start])
  next
    case (Some m)
    obtain i j where m: "m = (i, j)" by fastforce
    note b = exec_from_SomeD [OF Some [unfolded m]]
    then have j: "i < j" "j \<le> length s" using consuming_ends [OF assms] ends_bounds [of j r s i] by auto
    with b have "length s - j < length s - start" by linarith
    from less [OF this] obtain ms where "exec_all r s j = Some ms" "in_order j (length s) ms" by blast
    with Some m j b show ?thesis by (simp add: exec_all.simps [of r s start])
  qed
qed

end
