(* ===== verification/LogRules.thy ===== *)
theory LogRules
  imports RegexExec
begin

text \<open>
  The rules that colour log lines: the tables of
  \<^verbatim>\<open>src/web/src/components/log/custom-highlight/index.vue\<close>, each pattern written out from the
  literal of the source, and the choice of the tables for a kind of log.
\<close>

section \<open>Tables\<close>

record token_rule =
  rtype :: string
  color :: string
  pattern :: jre

definition digit :: jre where "digit = JChr is_digit"

definition hexch :: jre where
  "hexch = JChr (any_of [rng (CHR ''A'') (CHR ''F''), rng (CHR ''a'') (CHR ''f''), rng (CHR ''0'') (CHR ''9'')])"

definition nginxRules :: "token_rule list" where
  "nginxRules =
     [\<lparr>rtype = ''log-level-warn'', color = ''#F39C12'', pattern = jseqs [JWordB, jalts [jword
      ''warn'', jword ''warning'', jword ''NOTICE''], JWordB]\<rparr>,
      \<lparr>rtype = ''log-level-info'', color = ''#3498DB'', pattern = jseqs [JWordB, jalts [jword
      ''info'', jword ''debug''], JWordB]\<rparr>,
      \<lparr>rtype = ''log-level-error'', color = ''#E74C3C'', pattern = jseqs [jch (CHR ''[''), jalts
      [jword ''crit'', jword ''error''], jch (CHR '']'')]\<rparr>,
      \<lparr>rtype = ''path'', color = ''#B87A2B'', pattern = jseqs [JBack True (JChr (any_of [is_space,
      unit_is (CHR 0x22)])), jch (CHR ''/''), jstar (JChr (none_of [is_space, unit_is (CHR 0x22)]))]\<rparr>,
      \<lparr>rtype = ''http-method'', color = ''#27AE60'', pattern = jseqs [JWordB, jalts [jword ''GET'',
      jword ''POST'', jword ''PUT'', jword ''DELETE'', jword ''PATCH'', jword ''HEAD'', jword ''OPTIONS''],
      JWordB]\<rparr>,
      \<lparr>rtype = ''status-success'', color = ''#2ECC71'', pattern = jseqs [JBack True (jch (CHR 0x22)),
      JChr is_space, jseqs [jch (CHR ''2''), jtimes 2 digit], JWordB]\<rparr>,
      \<lparr>rtype = ''status-error'', color = ''#E74C3C'', pattern = jseqs [JBack True (jch (CHR 0x22)),
      JChr is_space, jseqs [JChr (any_of [unit_is (CHR ''4''), unit_is (CHR ''5'')]), jtimes 2 digit],
      JWordB]\<rparr>,
      \<lparr>rtype = ''status-redirect'', color = ''#F39C12'', pattern = jseqs [JBack True (jch (CHR
      0x22)), JChr is_space, jseqs [jch (CHR ''3''), jtimes 2 digit], JWordB]\<rparr>,
      \<lparr>rtype = ''status-info'', color = ''#268785'', pattern = jseqs [JBack True (jch (CHR 0x22)),
      JChr is_space, jseqs [jch (CHR ''1''), jtimes 2 digit], JWordB]\<rparr>,
      \<lparr>rtype = ''process-info'', color = ''#7F8C8D'', pattern = jseqs [jplus digit, jch (CHR ''#''),
      jplus digit]\<rparr>]"

definition systemRules :: "token_rule list" where
  "systemRules =
     [\<lparr>rtype = ''log-error'', color = ''#E74C3C'', pattern = jseqs [jch (CHR ''[''), jalts [jword
      ''ERROR'', jword ''WARN'', jword ''FATAL''], jch (CHR '']'')]\<rparr>,
      \<lparr>rtype = ''log-normal'', color = ''#8B8B8B'', pattern = jseqs [jch (CHR ''[''), jalts [jword
      ''INFO'', jword ''DEBUG''], jch (CHR '']'')]\<rparr>,
      \<lparr>rtype = ''timestamp'', color = ''#8B8B8B'', pattern = jseqs [jch (CHR ''[''), jtimes 4 digit,
      jch (CHR ''-''), jtimes 2 digit, jch (CHR ''-''), jtimes 2 digit, JChr is_space, jtimes 2 digit, jch
      (CHR '':''), jtimes 2 digit, jch (CHR '':''), jtimes 2 digit, jch (CHR '']'')]\<rparr>,
      \<lparr>rtype = ''bracket-text'', color = ''#B87A2B'', pattern = jseqs [jch (CHR ''[''), jplus (JChr
      (none_of [unit_is (CHR '']'')])), jch (CHR '']'')]\<rparr>,
      \<lparr>rtype = ''referrer-ua'', color = ''#786C88'', pattern = jseqs [jword ''http'', jopt (jch (CHR
      ''s'')), jword ''://'', jplus (jseqs [jplus (JChr (any_of [word_unit, unit_is (CHR ''-'')])), jch (CHR
      ''.'')]), jplus (JChr (any_of [word_unit, unit_is (CHR ''-'')])), jopt (jseqs [jch (CHR '':''), jplus
      digit]), jopt (jseqs [jch (CHR ''/''), jstar (JChr (none_of [is_space, unit_is (CHR '']''), unit_is
      (CHR '')''), unit_is (CHR 0x22)]))])]\<rparr>]"

definition taskRules :: "token_rule list" where
  "taskRules =
     [\<lparr>rtype = ''bracket-text'', color = ''#B87A2B'', pattern = jseqs [jch (CHR ''[''), JRep 0 (Some
      100) (jalts [JChr (none_of [unit_is (CHR ''[''), unit_is (CHR '']'')]), jseqs [jch (CHR ''[''), jstar
      (JChr (none_of [unit_is (CHR ''[''), unit_is (CHR '']'')])), jch (CHR '']'')]]), jch (CHR
      '']'')]\<rparr>]"

definition defaultRules :: "token_rule list" where
  "defaultRules =
     [\<lparr>rtype = ''timestamp'', color = ''#8B8B8B'', pattern = jalts [jseqs [jch (CHR ''[''), jtimes 2
      digit, jch (CHR ''/''), jtimes 3 (JChr word_unit), jch (CHR ''/''), jtimes 4 digit, jch (CHR '':''),
      jtimes 2 digit, jch (CHR '':''), jtimes 2 digit, jch (CHR '':''), jtimes 2 digit, JChr is_space, JChr
      (any_of [unit_is (CHR ''+''), unit_is (CHR ''-'')]), jtimes 4 digit, jch (CHR '']'')], jseqs [jtimes 4
      digit, JChr (any_of [unit_is (CHR ''-''), unit_is (CHR ''/'')]), jtimes 2 digit, JChr (any_of [unit_is
      (CHR ''-''), unit_is (CHR ''/'')]), jtimes 2 digit, JChr is_space, jtimes 2 digit, jch (CHR '':''),
      jtimes 2 digit, jch (CHR '':''), jtimes 2 digit]]\<rparr>,
      \<lparr>rtype = ''referrer-ua'', color = ''#786C88'', pattern = jseqs [jch (CHR 0x22), jalts [jseqs
      [jword ''http'', jopt (jch (CHR ''s'')), jword ''://'', jplus (JChr (none_of [unit_is (CHR 0x22)]))],
      jseqs [jword ''Mozilla'', jplus (JChr (none_of [unit_is (CHR 0x22)]))], jseqs [jword ''curl'', jplus
      (JChr (none_of [unit_is (CHR 0x22)]))]], jch (CHR 0x22)]\<rparr>,
      \<lparr>rtype = ''ip'', color = ''#4A90E2'', pattern = jseqs [JBack True (jalts [JStart, JChr
      is_space, jch (CHR 0x22)]), JRep 1 (Some 3) (digit), jch (CHR ''.''), JRep 1 (Some 3) (digit), jch
      (CHR ''.''), JRep 1 (Some 3) (digit), jch (CHR ''.''), JRep 1 (Some 3) (digit), JLook True (jalts
      [JChr is_space, jch (CHR 0x22), JEnd])]\<rparr>,
      \<lparr>rtype = ''ipv6'', color = ''#4A90E2'', pattern = jseqs [JBack False (digit), jalts [jseqs
      [jtimes 7 (jseqs [JRep 1 (Some 4) (hexch), jch (CHR '':'')]), JRep 1 (Some 4) (hexch)], jseqs [JRep 1
      (Some 7) (jseqs [JRep 1 (Some 4) (hexch), jch (CHR '':'')]), jch (CHR '':'')], jseqs [JRep 1 (Some 6)
      (jseqs [JRep 1 (Some 4) (hexch), jch (CHR '':'')]), jch (CHR '':''), JRep 1 (Some 4) (hexch)], jseqs
      [JRep 1 (Some 5) (jseqs [JRep 1 (Some 4) (hexch), jch (CHR '':'')]), JRep 1 (Some 2) (jseqs [jch (CHR
      '':''), JRep 1 (Some 4) (hexch)])], jseqs [JRep 1 (Some 4) (jseqs [JRep 1 (Some 4) (hexch), jch (CHR
      '':'')]), JRep 1 (Some 3) (jseqs [jch (CHR '':''), JRep 1 (Some 4) (hexch)])], jseqs [JRep 1 (Some 3)
      (jseqs [JRep 1 (Some 4) (hexch), jch (CHR '':'')]), JRep 1 (Some 4) (jseqs [jch (CHR '':''), JRep 1
      (Some 4) (hexch)])], jseqs [JRep 1 (Some 2) (jseqs [JRep 1 (Some 4) (hexch), jch (CHR '':'')]), JRep 1
      (Some 5) (jseqs [jch (CHR '':''), JRep 1 (Some 4) (hexch)])], jseqs [JRep 1 (Some 4) (hexch), jch (CHR
      '':''), JRep 1 (Some 6) (jseqs [jch (CHR '':''), JRep 1 (Some 4) (hexch)])], jseqs [jch (CHR '':''),
      jalts [JRep 1 (Some 7) (jseqs [jch (CHR '':''), JRep 1 (Some 4) (hexch)]), jch (CHR '':'')]], jseqs
      [jword ''fe80:'', JRep 0 (Some 4) (jseqs [jch (CHR '':''), JRep 0 (Some 4) (hexch)]), jch (CHR ''%''),
      jplus (JChr (any_of [rng (CHR ''0'') (CHR ''9''), rng (CHR ''a'') (CHR ''z''), rng (CHR ''A'') (CHR
      ''Z'')]))], jseqs [jword ''::'', jopt (jseqs [jword ''ffff'', jopt (jseqs [jch (CHR '':''), JRep 1
      (Some 4) (jch (CHR ''0''))]), jch (CHR '':'')]), jtimes 3 (jseqs [jalts [jseqs [jword ''25'', JChr
      (rng (CHR ''0'') (CHR ''5''))], jseqs [jopt (jalts [jseqs [jch (CHR ''2''), JChr (rng (CHR ''0'') (CHR
      ''4''))], jseqs [jopt (jch (CHR ''1'')), JChr (rng (CHR ''0'') (CHR ''9''))]]), JChr (rng (CHR ''0'')
      (CHR ''9''))]], jch (CHR ''.'')]), jalts [jseqs [jword ''25'', JChr (rng (CHR ''0'') (CHR ''5''))],
      jseqs [jopt (jalts [jseqs [jch (CHR ''2''), JChr (rng (CHR ''0'') (CHR ''4''))], jseqs [jopt (jch (CHR
      ''1'')), JChr (rng (CHR ''0'') (CHR ''9''))]]), JChr (rng (CHR ''0'') (CHR ''9''))]]], jseqs [JRep 1
      (Some 4) (jseqs [JRep 1 (Some 4) (hexch), jch (CHR '':'')]), jch (CHR '':''), jtimes 3 (jseqs [jalts
      [jseqs [jword ''25'', JChr (rng (CHR ''0'') (CHR ''5''))], jseqs [jopt (jalts [jseqs [jch (CHR ''2''),
      JChr (rng (CHR ''0'') (CHR ''4''))], jseqs [jopt (jch (CHR ''1'')), JChr (rng (CHR ''0'') (CHR
      ''9''))]]), JChr (rng (CHR ''0'') (CHR ''9''))]], jch (CHR ''.'')]), jalts [jseqs [jword ''25'', JChr
      (rng (CHR ''0'') (CHR ''5''))], jseqs [jopt (jalts [jseqs [jch (CHR ''2''), JChr (rng (CHR ''0'') (CHR
      ''4''))], jseqs [jopt (jch (CHR ''1'')), JChr (rng (CHR ''0'') (CHR ''9''))]]), JChr (rng (CHR ''0'')
      (CHR ''9''))]]]], JLook False (JChr (any_of [is_digit, rng (CHR ''a'') (CHR ''f''), rng (CHR ''A'')
      (CHR ''F'')])), JLook False (jseqs [jstar (JChr is_space), jch (CHR '':''), jstar (JChr is_space),
      jalts [jword ''tid'', jtimes 2 digit]])]\<rparr>,
      \<lparr>rtype = ''server-host'', color = ''#5D6D7E'', pattern = jseqs [jalts [jword ''server'', jword
      ''host''], jch (CHR '':''), jstar (JChr is_space), jplus (JChr (none_of [is_space, unit_is (CHR
      '','')]))]\<rparr>]"

definition commonContainerRules :: "token_rule list" where
  "commonContainerRules =
     [\<lparr>rtype = ''timestamp'', color = ''#8B8B8B'', pattern = jseqs [jtimes 4 digit, jch (CHR ''-''),
      jtimes 2 digit, jch (CHR ''-''), jtimes 2 digit, JChr is_space, jtimes 2 digit, jch (CHR '':''),
      jtimes 2 digit, jch (CHR '':''), jtimes 2 digit, jch (CHR ''+''), jtimes 2 digit, jch (CHR '':''),
      jtimes 2 digit]\<rparr>,
      \<lparr>rtype = ''path'', color = ''#9B59B6'', pattern = jseqs [JBack True (jalts [JChr (any_of
      [is_space, unit_is (CHR 0x22)]), JStart]), jch (CHR ''/''), jplus (JChr (none_of [is_space, unit_is
      (CHR 0x22)]))]\<rparr>,
      \<lparr>rtype = ''ip'', color = ''#4A90E2'', pattern = jseqs [JWordB, JBack False (jch (CHR ''['')),
      JRep 1 (Some 3) (digit), jch (CHR ''.''), JRep 1 (Some 3) (digit), jch (CHR ''.''), JRep 1 (Some 3)
      (digit), jch (CHR ''.''), JRep 1 (Some 3) (digit), JWordB, JLook False (jch (CHR '']''))]\<rparr>,
      \<lparr>rtype = ''ipv6'', color = ''#4A90E2'', pattern = jseqs [JWordB, jtimes 7 (jseqs [JRep 1 (Some
      4) (hexch), jch (CHR '':'')]), JRep 1 (Some 4) (hexch), JWordB]\<rparr>,
      \<lparr>rtype = ''log-level-warn'', color = ''#F39C12'', pattern = jseqs [JWordB, jalts [jword
      ''WARN'', jword ''WARNING'', jword ''NOTICE''], JWordB]\<rparr>,
      \<lparr>rtype = ''log-level-info'', color = ''#3498DB'', pattern = jseqs [JWordB, jalts [jword
      ''INFO'', jword ''DEBUG''], JWordB]\<rparr>,
      \<lparr>rtype = ''log-level-error'', color = ''#E74C3C'', pattern = jseqs [jch (CHR ''[''), jalts
      [jword ''CRIT'', jword ''ERROR''], jch (CHR '']'')]\<rparr>,
      \<lparr>rtype = ''url'', color = ''#786C88'', pattern = jseqs [jword ''http'', jopt (jch (CHR ''s'')),
      jword ''://'', jplus (jseqs [jplus (JChr (any_of [word_unit, unit_is (CHR ''-'')])), jch (CHR
      ''.'')]), jplus (JChr (any_of [word_unit, unit_is (CHR ''-'')])), jopt (jseqs [jch (CHR '':''), jplus
      digit]), jopt (jseqs [jch (CHR ''/''), jstar (JChr (none_of [is_space, unit_is (CHR '']''), unit_is
      (CHR '')''), unit_is (CHR 0x22)]))])]\<rparr>]"

definition mysqlContainerRules :: "token_rule list" where
  "mysqlContainerRules =
     [\<lparr>rtype = ''mysql-timestamp'', color = ''#8B8B8D'', pattern = jseqs [jtimes 4 digit, jch (CHR
      ''-''), jtimes 2 digit, jch (CHR ''-''), jtimes 2 digit, jch (CHR ''T''), jtimes 2 digit, jch (CHR
      '':''), jtimes 2 digit, jch (CHR '':''), jtimes 2 digit, jch (CHR ''.''), jtimes 6 digit, jch (CHR
      ''Z'')]\<rparr>,
      \<lparr>rtype = ''mysql-thread-id'', color = ''#7F8C8D'', pattern = jseqs [JBack True (jseqs [jch (CHR
      ''T''), jtimes 2 digit, jch (CHR '':''), jtimes 2 digit, jch (CHR '':''), jtimes 2 digit, jch (CHR
      ''.''), jtimes 6 digit, jch (CHR ''Z''), JChr is_space]), jplus digit, JLook True (JChr
      is_space)]\<rparr>,
      \<lparr>rtype = ''mysql-log-error'', color = ''#E74C3C'', pattern = jseqs [jch (CHR ''[''), jword
      ''Error'', jch (CHR '']'')]\<rparr>,
      \<lparr>rtype = ''mysql-log-warn'', color = ''#F39C12'', pattern = jseqs [jch (CHR ''[''), jword
      ''Warning'', jch (CHR '']'')]\<rparr>,
      \<lparr>rtype = ''mysql-log-info'', color = ''#3498DB'', pattern = jseqs [jch (CHR ''[''), jalts
      [jword ''System'', jword ''Note'', jword ''Entrypoint''], jch (CHR '']'')]\<rparr>,
      \<lparr>rtype = ''mysql-error-code'', color = ''#9B59B6'', pattern = jseqs [jword ''[MY-'', jtimes 6
      digit, jch (CHR '']'')]\<rparr>,
      \<lparr>rtype = ''mysql-component'', color = ''#3498DB'', pattern = jseqs [jch (CHR ''[''), jalts
      [jword ''Server'', jword ''Repl'', jword ''InnoDB'', jword ''Audit'', jword ''Query''], jch (CHR
      '']'')]\<rparr>]"

definition redisContainerRules :: "token_rule list" where
  "redisContainerRules =
     [\<lparr>rtype = ''redis-role'', color = ''#E67E22'', pattern = jseqs [JWordB, jalts [jword ''Master'',
      jword ''Slave'', jword ''Replica''], JWordB]\<rparr>,
      \<lparr>rtype = ''redis-signal'', color = ''#9B59B6'', pattern = jseqs [JWordB, jalts [jword
      ''SIGTERM'', jword ''SIGINT'', jword ''SIGHUP''], JWordB]\<rparr>,
      \<lparr>rtype = ''redis-memory'', color = ''#3498DB'', pattern = jseqs [jplus digit, jstar (JChr
      is_space), JChr (any_of [unit_is (CHR ''K''), unit_is (CHR ''M''), unit_is (CHR ''G'')]), jopt (jch
      (CHR ''B'')), JWordB]\<rparr>]"

definition postgresContainerRules :: "token_rule list" where
  "postgresContainerRules =
     [\<lparr>rtype = ''postgres-severity'', color = ''#E74C3C'', pattern = jseqs [JWordB, jalts [jword
      ''LOG'', jword ''INFO'', jword ''NOTICE'', jword ''WARNING'', jword ''ERROR'', jword ''FATAL'', jword
      ''PANIC''], JWordB]\<rparr>,
      \<lparr>rtype = ''postgres-process'', color = ''#7F8C8D'', pattern = jseqs [jch (CHR ''[''), jplus
      digit, jch (CHR '']'')]\<rparr>,
      \<lparr>rtype = ''postgres-statement'', color = ''#27AE60'', pattern = jseqs [JWordB, jalts [jword_i
      ''SELECT'', jword_i ''INSERT'', jword_i ''UPDATE'', jword_i ''DELETE'', jword_i ''CREATE'', jword_i
      ''DROP'', jword_i ''ALTER''], JWordB]\<rparr>]"

definition phpContainerRules :: "token_rule list" where
  "phpContainerRules =
     []"

section \<open>The rules of a log\<close>

text \<open>\<open>None\<close> is a container without a name.\<close>

definition getContainerRules :: "jstring option \<Rightarrow> token_rule list" where
  "getContainerRules containerName =
     (case containerName of
        None \<Rightarrow> commonContainerRules
      | Some containerName \<Rightarrow>
          if containerName = [] then commonContainerRules
          else
            let name = toLowerCase containerName;
                specificRules =
                  (if str_includes name (lit ''openresty'') \<or> str_includes name (lit ''nginx'') then nginxRules
                   else if str_includes name (lit ''mysql'') \<or> str_includes name (lit ''mariadb'') then mysqlContainerRules
                   else if str_includes name (lit ''redis'') then redisContainerRules
                   else if str_includes name (lit ''postgres'') \<or> str_includes name (lit ''postgresql'')
                        then postgresContainerRules
                   else if str_includes name (lit ''php'') then phpContainerRules
                   else [])
            in specificRules @ commonContainerRules)"

definition initRules :: "string \<Rightarrow> jstring option \<Rightarrow> token_rule list" where
  "initRules kind container =
     (if kind = ''nginx'' then nginxRules @ defaultRules
      else if kind = ''system'' then systemRules @ defaultRules
      else if kind = ''container'' then getContainerRules container @ defaultRules
      else if kind = ''task'' then taskRules @ defaultRules
      else defaultRules)"

text \<open>No pattern of the tables matches the empty string.\<close>

definition all_consuming :: "token_rule list \<Rightarrow> bool" where
  "all_consuming rs \<longleftrightarrow> list_all (\<lambda>r. consuming (pattern r)) rs"

lemma all_consuming_append [simp]: "all_consuming (rs @ qs) \<longleftrightarrow> all_consuming rs \<and> all_consuming qs"
  by (simp add: all_consuming_def)

lemmas consuming_eval = all_consuming_def jre_defs digit_def hexch_def

lemma tables_consuming [simp]:
  "all_consuming nginxRules" "all_consuming systemRules" "all_consuming taskRules" "all_consuming defaultRules"
  "all_consuming commonContainerRules" "all_consuming mysqlContainerRules" "all_consuming redisContainerRules"
  "all_consuming postgresContainerRules" "all_consuming phpContainerRules"
  by (simp_all add: consuming_eval nginxRules_def systemRules_def taskRules_def defaultRules_def
      commonContainerRules_def mysqlContainerRules_def redisContainerRules_def postgresContainerRules_def
      phpContainerRules_def)

lemma all_consuming_Nil [simp]: "all_consuming []"
  by (simp add: all_consuming_def)

lemma initRules_consuming: "all_consuming (initRules kind container)"
  by (auto simp: initRules_def getContainerRules_def Let_def split: option.splits)

end
