(* ===== verification/Highlight.thy ===== *)
theory Highlight
  imports LogRules "HOL-Library.Code_Target_Nat"
begin

text \<open>
  Colouring a log line: \<open>tokenizeLog\<close> of
  \<^verbatim>\<open>src/web/src/components/log/custom-highlight/index.vue\<close>.  The parser of terminal colours is a
  library of its own and an argument here.
\<close>

section \<open>Tokens\<close>

record token =
  ttext :: jstring
  ttype :: string
  tcolor :: string

definition plain :: "jstring \<Rightarrow> token" where
  "plain t = \<lparr>ttext = t, ttype = ''plain'', tcolor = ''#666666''\<rparr>"

definition html_marks :: "jstring list" where
  "html_marks = [lit ''<div'', lit ''<span'', lit ''<p>'', lit ''<img'', lit ''</div>'', lit ''</span>'', lit ''<script>'']"

record log_match =
  mindex :: nat
  mtext :: jstring
  mtype :: string
  mcolor :: string

definition mend :: "log_match \<Rightarrow> nat" where
  "mend m = mindex m + length (mtext m)"

text \<open>All matches of all rules; \<open>None\<close> when the search does not end.\<close>

definition rule_matches :: "jstring \<Rightarrow> token_rule \<Rightarrow> log_match list option" where
  "rule_matches line r =
     map_option (map (\<lambda>(i, j). \<lparr>mindex = i, mtext = take (j - i) (drop i line), mtype = rtype r, mcolor = color r\<rparr>))
       (exec_all (pattern r) line 0)"

fun all_matches :: "jstring \<Rightarrow> token_rule list \<Rightarrow> log_match list option" where
  "all_matches line [] = Some []"
| "all_matches line (r # rs) =
     (case rule_matches line r of
        None \<Rightarrow> None
      | Some ms \<Rightarrow> map_option (\<lambda>ns. ms @ ns) (all_matches line rs))"

text \<open>The filter compares with the match before it in the sorted list, kept or not.\<close>

fun kept_after :: "log_match \<Rightarrow> log_match list \<Rightarrow> log_match list" where
  "kept_after prev [] = []"
| "kept_after prev (m # ms) = (if mindex m \<ge> mend prev then [m] else []) @ kept_after m ms"

fun filteredMatches :: "log_match list \<Rightarrow> log_match list" where
  "filteredMatches [] = []"
| "filteredMatches (m # ms) = m # kept_after m ms"

text \<open>\<open>replace(/\n?$/, '\n')\<close>.\<close>

definition end_line :: "jstring \<Rightarrow> jstring" where
  "end_line t = (if t \<noteq> [] \<and> last t = 10 then t else t @ [10])"

fun emit :: "jstring \<Rightarrow> nat \<Rightarrow> log_match list \<Rightarrow> token list" where
  "emit line lastIndex [] = (if lastIndex < length line then [plain (end_line (drop lastIndex line))] else [])"
| "emit line lastIndex (m # ms) =
     (if mindex m > lastIndex then [plain (take (mindex m - lastIndex) (drop lastIndex line))] else []) @
     \<lparr>ttext = mtext m, ttype = mtype m, tcolor = mcolor m\<rparr> # emit line (mend m) ms"

definition tokenizeLog :: "(jstring \<Rightarrow> token list option) \<Rightarrow> token_rule list \<Rightarrow> jstring \<Rightarrow> token list option" where
  "tokenizeLog ansi rules line =
     (if list_ex (str_includes line) html_marks then Some [plain line]
      else if str_includes line (27 # lit ''['') then
        (case ansi line of None \<Rightarrow> Some [plain line] | Some ts \<Rightarrow> Some ts)
      else if length line > 5000 then Some [plain line]
      else
        (case all_matches line rules of
           None \<Rightarrow> None
         | Some matches \<Rightarrow> Some (emit line 0 (filteredMatches (sort_key mindex matches)))))"

definition shown :: "token list \<Rightarrow> jstring" where
  "shown ts = concat (map ttext ts)"

section \<open>The search ends\<close>

definition match_ok :: "jstring \<Rightarrow> log_match \<Rightarrow> bool" where
  "match_ok line m \<longleftrightarrow> mend m \<le> length line \<and> mtext m \<noteq> [] \<and> mtext m = take (length (mtext m)) (drop (mindex m) line)"

lemma rule_matches_some:
  assumes "consuming (pattern r)"
  shows "\<exists>ms. rule_matches line r = Some ms \<and> (\<forall>m \<in> set ms. match_ok line m)"
proof -
  from exec_all_consuming [OF assms, of line 0] obtain xs
    where xs: "exec_all (pattern r) line 0 = Some xs" "in_order 0 (length line) xs" by blast
  have b: "in_order k (length line) ys \<Longrightarrow> (i, j) \<in> set ys \<Longrightarrow> i < j \<and> j \<le> length line" for k ys i j
    by (induction k "length line" ys rule: in_order.induct) auto
  show ?thesis using xs b [OF xs(2)] by (fastforce simp: rule_matches_def match_ok_def mend_def)
qed

lemma all_matches_some:
  assumes "all_consuming rs"
  shows "\<exists>ms. all_matches line rs = Some ms \<and> (\<forall>m \<in> set ms. match_ok line m)"
  using assms
proof (induction rs)
  case (Cons r rs)
  then obtain ms ns where "rule_matches line r = Some ms" "\<forall>m \<in> set ms. match_ok line m"
    "all_matches line rs = Some ns" "\<forall>m \<in> set ns. match_ok line m"
    using rule_matches_some [of r line] by (auto simp: all_consuming_def)
  then show ?case by auto
qed simp

text \<open>C39: Colouring a line always returns: for every kind of log, every container and every line, the search loop
  of each rule ends, because no pattern of the tables matches the empty string.\<close>

theorem highlight_returns:
  "\<exists>ts. tokenizeLog ansi (initRules kind container) line = Some ts"
  using all_matches_some [OF initRules_consuming [of kind container], of line]
  by (auto simp: tokenizeLog_def split: option.splits)

section \<open>The text that is shown\<close>

lemma kept_after_subset: "set (kept_after p ms) \<subseteq> set ms"
  by (induction p ms rule: kept_after.induct) auto

lemma filtered_subset: "set (filteredMatches ms) \<subseteq> set ms"
  using kept_after_subset by (cases ms) fastforce+

lemma take_split: "a \<le> b \<Longrightarrow> take b xs = take a xs @ take (b - a) (drop a xs)"
  by (metis le_add_diff_inverse take_add)

lemma subseq_take: "a \<le> b \<Longrightarrow> subseq (take b xs) ys \<Longrightarrow> subseq (take a xs) ys"
  by (metis prefix_imp_subseq prefixI subseq_order.trans take_split)

lemma emit_keeps_text:
  assumes "\<forall>m \<in> set ms. match_ok line m" "last_index \<le> k" "k \<le> length line" "subseq (take k line) acc"
  shows "subseq line (acc @ shown (emit line last_index ms))"
  using assms
proof (induction ms arbitrary: last_index k acc)
  case Nil
  show ?case
  proof (cases "last_index < length line")
    case True
    have "subseq (take last_index line) acc" using Nil subseq_take by blast
    moreover have "subseq (drop last_index line) (end_line (drop last_index line))"
      by (auto simp: end_line_def)
    ultimately have "subseq (take last_index line @ drop last_index line) (acc @ end_line (drop last_index line))"
      by (rule list_emb_append_mono)
    with True show ?thesis by (simp add: shown_def plain_def)
  next
    case False
    with Nil show ?thesis by (simp add: shown_def)
  qed
next
  case (Cons m ms)
  then have m: "match_ok line m" by simp
  let ?s = "min (mindex m) last_index"
  let ?piece = "take (mend m - ?s) (drop ?s line)"
  let ?out = "(if mindex m > last_index then take (mindex m - last_index) (drop last_index line) else []) @ mtext m"
  have out: "?out = ?piece"
  proof (cases "mindex m > last_index")
    case True
    define d where "d = mindex m - last_index"
    from True have d: "mindex m = d + last_index" "mend m - last_index = d + length (mtext m)"
      by (simp_all add: d_def mend_def)
    have "mtext m = take (length (mtext m)) (drop d (drop last_index line))"
      using m by (simp add: match_ok_def d(1))
    then have "take (mend m - last_index) (drop last_index line) = take d (drop last_index line) @ mtext m"
      unfolding d(2) take_add by simp
    with True show ?thesis by (simp add: d(1))
  next
    case False
    with m show ?thesis by (simp add: match_ok_def mend_def min_def)
  qed
  have s: "?s \<le> mend m" "?s \<le> k" using Cons.prems(2) by (auto simp: mend_def)
  have "subseq (take ?s line) acc" using Cons.prems(4) s(2) subseq_take by blast
  then have e: "subseq (take (mend m) line) (acc @ ?piece)"
    unfolding take_split [OF s(1), of line] by (rule list_emb_append_mono) simp
  have a: "subseq (take k line) (acc @ ?piece)" using Cons.prems(4) by (rule subseq_rev_drop_many)
  have "subseq line ((acc @ ?piece) @ shown (emit line (mend m) ms))"
    by (rule Cons.IH [of "mend m" "max k (mend m)"]) (use Cons.prems m e a in \<open>auto simp: match_ok_def max_def\<close>)
  then show ?case by (auto simp: shown_def plain_def simp flip: out split: if_splits)
qed

lemma emit_exact:
  assumes "\<forall>m \<in> set ms. match_ok line m" "last_index \<le> length line"
    and "sorted_wrt (\<lambda>a b. mend a \<le> mindex b) ms" "\<forall>m \<in> set ms. last_index \<le> mindex m"
  shows "shown (emit line last_index ms) \<in> {drop last_index line, drop last_index line @ [10]}"
  using assms
proof (induction ms arbitrary: last_index)
  case Nil
  then show ?case by (auto simp: shown_def plain_def end_line_def)
next
  case (Cons m ms)
  then have m: "match_ok line m" and le: "last_index \<le> mindex m" by simp_all
  have ih: "shown (emit line (mend m) ms) \<in> {drop (mend m) line, drop (mend m) line @ [10]}"
    by (rule Cons.IH) (use Cons.prems m in \<open>auto simp: match_ok_def\<close>)
  have "drop last_index line = take (mindex m - last_index) (drop last_index line) @ drop (mindex m) line"
    using le by (metis append_take_drop_id drop_drop le_add_diff_inverse2)
  moreover have "drop (mindex m) line = mtext m @ drop (mend m) line"
    using m by (metis append_take_drop_id drop_drop match_ok_def mend_def add.commute)
  moreover have "shown (emit line last_index (m # ms)) =
      take (mindex m - last_index) (drop last_index line) @ mtext m @ shown (emit line (mend m) ms)"
    by (auto simp: shown_def plain_def)
  ultimately show ?case using ih by auto
qed

text \<open>C38: No text of a line without colour escapes of a terminal is lost (a line with one is left to another
  function): what is shown contains the line's characters in their order, and it is the line, or the line
  and one line break, when no two of the matches that are kept overlap.\<close>

theorem highlight_keeps_text:
  assumes "\<not> str_includes line (27 # lit ''['')"
    and "tokenizeLog ansi (initRules kind container) line = Some ts"
  shows "subseq line (shown ts) \<and>
    (\<forall>ms. all_matches line (initRules kind container) = Some ms \<longrightarrow>
       sorted_wrt (\<lambda>a b. mend a \<le> mindex b) (filteredMatches (sort_key mindex ms)) \<longrightarrow>
       shown ts = line \<or> shown ts = line @ [10])"
proof -
  obtain ms where ms: "all_matches line (initRules kind container) = Some ms" "\<forall>m \<in> set ms. match_ok line m"
    using all_matches_some [OF initRules_consuming [of kind container], of line] by blast
  let ?fs = "filteredMatches (sort_key mindex ms)"
  have ok: "\<forall>m \<in> set ?fs. match_ok line m" using ms(2) filtered_subset [of "sort_key mindex ms"] by auto
  from assms ms(1) consider "ts = [plain line]" | "ts = emit line 0 ?fs"
    by (auto simp: tokenizeLog_def split: if_splits)
  then show ?thesis
  proof cases
    case 1
    then show ?thesis by (simp add: shown_def plain_def)
  next
    case 2
    have "subseq line ([] @ shown (emit line 0 ?fs))"
      by (rule emit_keeps_text [OF ok, of 0 0]) simp_all
    moreover have "shown (emit line 0 ?fs) \<in> {line, line @ [10]}"
      if "sorted_wrt (\<lambda>a b. mend a \<le> mindex b) ?fs"
      using emit_exact [OF ok _ that, of 0] by simp
    ultimately show ?thesis using 2 ms(1) by auto
  qed
qed

text \<open>Overlaps do happen: the second address lies in the bracket that is already shown, but behind the first
  address, the only match it is compared with.  The line's end is shown twice.\<close>

lemma highlight_doubles_text:
  "map_option shown (tokenizeLog (\<lambda>_. None) (initRules ''task'' None) (lit ''[::1 ::2]'')) =
     Some (lit ''[::1 ::2]::2]'' @ [10])"
  by code_simp

theorem highlight_keeps_text_witness:
  "\<exists>ts. tokenizeLog (\<lambda>_. None) (initRules ''task'' None) (lit ''[::1 ::2]'') = Some ts \<and>
     subseq (lit ''[::1 ::2]'') (shown ts)"
proof -
  obtain ts where ts: "tokenizeLog (\<lambda>_. None) (initRules ''task'' None) (lit ''[::1 ::2]'') = Some ts"
    using highlight_doubles_text by (auto simp del: lit_simps)
  have "\<not> str_includes (lit ''[::1 ::2]'') (27 # lit ''['')" by (simp add: str_includes_def startsWith_def)
  from highlight_keeps_text [OF this ts] ts show ?thesis by blast
qed

end
