(* ===== verification/RuleForm.thy ===== *)
theory RuleForm
  imports FirewallPlans DockerGuard
begin

text \<open>
  The form that creates and edits firewall rules:
  \<^verbatim>\<open>src/web/src/views/host/firewall/rule/operate/index.vue\<close>.  Here are its values, its
  validators and how rules are built of them; \<open>RuleFormSteps\<close> has what happens between the
  clicks.  Texts shown to the user are their translation keys.  A priority is a whole number.
\<close>

section \<open>Rules and the form\<close>

datatype fw_action = Accept | Drop | Reject

record rule_scope =
  sc_provider :: provider
  sc_family :: family
  sc_table :: "jstring option"
  sc_zone :: "jstring option"
  sc_chain :: "jstring option"

record fw_rule =
  r_uuid :: "jstring option"
  r_scope :: rule_scope
  r_nativeKind :: "jstring option"
  r_protocol :: jstring
  r_sourceAddress :: "jstring option"
  r_sourcePort :: "jstring option"
  r_destinationAddress :: "jstring option"
  r_destinationPort :: "jstring option"
  r_interface :: "jstring option"
  r_connectionStates :: "jstring list option"
  r_action :: fw_action
  r_priority :: "int option"
  r_orderIndex :: "int option"
  r_orderBucket :: "jstring option"
  r_description :: "jstring option"

type_synonym source_item = "family \<times> jstring"

record rule_values =
  protocol :: jstring
  sourceAddresses :: "source_item list"
  sourcePort :: jstring
  destinationAddress :: jstring
  destinationPorts :: "jstring list"
  action :: fw_action
  priority :: "int option"
  description :: jstring

record plan_item =
  bp_rule :: fw_rule
  bp_plan :: "fw_rule plan"
  bp_resolution :: "check_action option"

record rule_form =
  provider :: provider
  edit_mode :: bool
  editingUUID :: jstring
  editingRule :: "fw_rule option"
  drawerVisible :: bool
  loading :: bool
  previewRules :: "fw_rule list"
  previewVisible :: bool
  checkCompleted :: bool
  positionRanges :: "family \<Rightarrow> (int \<times> int) option"
  firewalldPrioritySupported :: bool
  batchPlans :: "plan_item list"
  form :: rule_values
  messages :: "string list"

definition say :: "string \<Rightarrow> rule_form \<Rightarrow> rule_form" where
  "say m s = s\<lparr>messages := messages s @ [m]\<rparr>"

section \<open>Validators\<close>

definition hasRuleTarget :: "rule_values \<Rightarrow> bool" where
  "hasRuleTarget v \<longleftrightarrow> splitTagValues (map snd (sourceAddresses v)) \<noteq> [] \<or> destinationAddress v \<noteq> [] \<or>
     sourcePort v \<noteq> [] \<or> splitTagValues (destinationPorts v) \<noteq> []"

definition validateSourceAddresses :: "rule_form \<Rightarrow> string option" where
  "validateSourceAddresses s =
     (let addresses = splitTagValues (map snd (sourceAddresses (form s))) in
      if \<not> list_all isValidIPOrCIDR addresses then Some ''commons.rule.ip''
      else if edit_mode s \<and> length addresses > 1 then Some ''firewall.sourceIP''
      else if \<not> hasRuleTarget (form s) then Some ''firewall.ruleTargetRequired''
      else None)"

definition validateDestinationPorts :: "rule_form \<Rightarrow> string option" where
  "validateDestinationPorts s =
     (if \<not> list_all isValidPortRange (splitTagValues (destinationPorts (form s)))
      then Some ''commons.rule.port'' else None)"

text \<open>\<open>formRef.validate()\<close> with the table of rules; the action always has a value.\<close>

definition form_valid :: "rule_form \<Rightarrow> bool" where
  "form_valid s \<longleftrightarrow> protocol (form s) \<noteq> [] \<and> validateSourceAddresses s = None \<and>
     validateDestinationPorts s = None"

definition portProtocol :: "rule_values \<Rightarrow> bool" where
  "portProtocol v \<longleftrightarrow> protocol v \<in> {lit ''tcp'', lit ''udp'', lit ''tcp/udp''}"

section \<open>Priorities\<close>

definition showPriorityField :: "rule_form \<Rightarrow> bool" where
  "showPriorityField s =
     (if provider s = Ufw then edit_mode s
      else if provider s \<noteq> Firewalld then True
      else firewalldPrioritySupported s \<and>
        (\<not> edit_mode s \<or> (case editingRule s of None \<Rightarrow> False | Some r \<Rightarrow> r_nativeKind r = Some (lit ''rich_rule''))))"

definition selectedPositionRanges :: "rule_form \<Rightarrow> (int \<times> int) list" where
  "selectedPositionRanges s =
     (let families = seen_dedup id (map fst (sourceAddresses (form s))) in
      if families = [] then [(1, 1)]
      else map (\<lambda>f. case positionRanges s f of None \<Rightarrow> (1, 1) | Some r \<Rightarrow> r) families)"

definition positionalPriorityMin :: "rule_form \<Rightarrow> int" where
  "positionalPriorityMin s = fold max (map fst (selectedPositionRanges s)) 1"

definition positionalPriorityMax :: "rule_form \<Rightarrow> int" where
  "positionalPriorityMax s =
     (let ms = map snd (selectedPositionRanges s) in fold min (tl ms) (hd ms))"

definition priorityMin :: "rule_form \<Rightarrow> int" where
  "priorityMin s = (if provider s = Firewalld then -32768 else positionalPriorityMin s)"

definition priorityMax :: "rule_form \<Rightarrow> int" where
  "priorityMax s = (if provider s = Firewalld then 32767 else positionalPriorityMax s)"

section \<open>Normal form of the lists\<close>

text \<open>Rows of addresses: a row may hold several; each is put in its own family, and shown once.\<close>

definition address_key :: "jstring \<Rightarrow> jstring" where
  "address_key a = family_name (inferAddressFamily a) @ lit '':'' @ a"

fun fresh_addresses :: "jstring set \<Rightarrow> jstring list \<Rightarrow> source_item list \<times> jstring set" where
  "fresh_addresses seen [] = ([], seen)"
| "fresh_addresses seen (a # as) =
     (if address_key a \<in> seen then fresh_addresses seen as
      else let (items, seen') = fresh_addresses (insert (address_key a) seen) as
           in ((inferAddressFamily a, a) # items, seen'))"

fun source_rows :: "jstring set \<Rightarrow> source_item list \<Rightarrow> source_item list" where
  "source_rows seen [] = []"
| "source_rows seen ((f, a) # rows) =
     (let addresses = splitTagValues [a] in
      if addresses = [] then (f, []) # source_rows seen rows
      else let (items, seen') = fresh_addresses seen addresses in items @ source_rows seen' rows)"

definition drop_blank :: "source_item list \<Rightarrow> source_item list" where
  "drop_blank items =
     (if list_ex (\<lambda>i. snd i \<noteq> []) items then filter (\<lambda>i. snd i \<noteq> []) items else items)"

definition set_sources :: "source_item list \<Rightarrow> rule_form \<Rightarrow> rule_form" where
  "set_sources xs s = s\<lparr>form := (form s)\<lparr>sourceAddresses := xs\<rparr>\<rparr>"

definition set_ports :: "jstring list \<Rightarrow> rule_form \<Rightarrow> rule_form" where
  "set_ports xs s = s\<lparr>form := (form s)\<lparr>destinationPorts := xs\<rparr>\<rparr>"

definition normalizeSourceAddresses :: "rule_form \<Rightarrow> rule_form \<times> bool" where
  "normalizeSourceAddresses s =
     (let normalized = drop_blank (source_rows {} (sourceAddresses (form s))) in
      if edit_mode s \<and> length normalized > 1 then (say ''firewall.sourceIP'' s, False)
      else
        let fallback = (case sourceAddresses (form s) of [] \<Rightarrow> IPv4 | r # _ \<Rightarrow> fst r)
        in (set_sources
              (if edit_mode s then [case normalized of [] \<Rightarrow> (fallback, []) | n # _ \<Rightarrow> n]
               else if normalized \<noteq> [] then normalized else [(fallback, [])]) s, True))"

text \<open>A port that is none makes the normal form throw (\<open>Inl\<close>).\<close>

definition normalizeDestinationPorts :: "rule_form \<Rightarrow> rule_form \<times> (fw_error + bool)" where
  "normalizeDestinationPorts s =
     (case map_throw normalizePortRange (splitTagValues (destinationPorts (form s))) of
        Inl e \<Rightarrow> (s, Inl e)
      | Inr normalized \<Rightarrow>
          if provider s = Ufw \<or> provider s = Iptables then (set_ports [js_join (lit '','') normalized] s, Inr True)
          else if edit_mode s \<and> length normalized > 1 then (say ''commons.msg.notSupportOperation'' s, Inr False)
          else (set_ports (if normalized \<noteq> [] then normalized else [[]]) s, Inr True))"

definition addSourceAddress :: "rule_form \<Rightarrow> rule_form" where
  "addSourceAddress s =
     (let rows = sourceAddresses (form s); f = (if rows = [] then IPv4 else fst (last rows))
      in set_sources (rows @ [(f, [])]) s)"

text \<open>Enter in the last row with a text opens the next one; the focus is not modelled.\<close>

definition addSourceAddressOnEnter :: "nat \<Rightarrow> rule_form \<Rightarrow> rule_form" where
  "addSourceAddressOnEnter i s =
     (let rows = sourceAddresses (form s) in
      if edit_mode s \<or> i \<ge> length rows \<or> trim (snd (rows ! i)) = [] then s
      else if Suc i < length rows then s
      else addSourceAddress s)"

text \<open>\<open>splice (i, 1)\<close>.\<close>

definition removeSourceAddress :: "nat \<Rightarrow> rule_form \<Rightarrow> rule_form" where
  "removeSourceAddress i s = set_sources (remove_nth i (sourceAddresses (form s))) s"

definition addRuleRow :: "rule_form \<Rightarrow> rule_form" where
  "addRuleRow s = set_ports (destinationPorts (form s) @ [[]]) s"

definition addDestinationPortOnEnter :: "nat \<Rightarrow> rule_form \<Rightarrow> rule_form" where
  "addDestinationPortOnEnter i s =
     (let rows = destinationPorts (form s) in
      if edit_mode s \<or> \<not> portProtocol (form s) \<or> i \<ge> length rows \<or> trim (rows ! i) = [] then s
      else if Suc i < length rows then s
      else addRuleRow s)"

definition removeRuleRow :: "nat \<Rightarrow> rule_form \<Rightarrow> rule_form" where
  "removeRuleRow i s = set_ports (remove_nth i (destinationPorts (form s))) s"

definition changeProtocol :: "rule_form \<Rightarrow> rule_form" where
  "changeProtocol s =
     (if portProtocol (form s) then s
      else s\<lparr>form := (form s)\<lparr>sourcePort := [], destinationPorts := [[]]\<rparr>\<rparr>)"

section \<open>Building rules\<close>

definition isWildcardAddress :: "jstring \<Rightarrow> bool" where
  "isWildcardAddress a \<longleftrightarrow> trim a = []"

definition build_family :: "provider \<Rightarrow> source_item \<Rightarrow> jstring \<Rightarrow> family" where
  "build_family p source proto =
     (if snd source \<noteq> [] then fst source
      else if proto = lit ''icmpv6'' then IPv6
      else if proto = lit ''icmp'' then IPv4
      else if p = Firewalld then Inet
      else fst source)"

definition build_scope :: "rule_form \<Rightarrow> family \<Rightarrow> rule_scope" where
  "build_scope s f =
     (if provider s = Iptables \<or> provider s = Nftables then
        \<lparr>sc_provider = provider s, sc_family = f, sc_table = Some (lit ''filter''), sc_zone = None,
         sc_chain = Some (case editingRule s of
            Some r \<Rightarrow> (case sc_chain (r_scope r) of
                          Some c \<Rightarrow> if edit_mode s \<and> c \<noteq> [] then c else lit ''WORKMESH_BASIC''
                        | None \<Rightarrow> lit ''WORKMESH_BASIC'')
          | None \<Rightarrow> lit ''WORKMESH_BASIC'')\<rparr>
      else if provider s = Firewalld then
        \<lparr>sc_provider = Firewalld, sc_family = f, sc_table = None, sc_zone = Some (lit ''public''), sc_chain = None\<rparr>
      else
        \<lparr>sc_provider = provider s, sc_family = f, sc_table = None, sc_zone = None, sc_chain = Some (lit ''incoming'')\<rparr>)"

text \<open>The fields of \<open>editingRule\<close> that the form does not set are kept.\<close>

definition buildRule :: "rule_form \<Rightarrow> source_item \<Rightarrow> jstring \<Rightarrow> jstring \<Rightarrow> fw_rule" where
  "buildRule s source port proto =
     (let v = form s; kept = (\<lambda>field. case editingRule s of None \<Rightarrow> None | Some r \<Rightarrow> field r) in
      \<lparr>r_uuid = kept r_uuid,
       r_scope = build_scope s (build_family (provider s) source proto),
       r_nativeKind = kept r_nativeKind,
       r_protocol = proto,
       r_sourceAddress = Some (if isWildcardAddress (snd source) then [] else snd source),
       r_sourcePort = Some (sourcePort v),
       r_destinationAddress = Some (destinationAddress v),
       r_destinationPort = Some port,
       r_interface = kept r_interface,
       r_connectionStates = (case editingRule s of None \<Rightarrow> None | Some r \<Rightarrow> r_connectionStates r),
       r_action = (if edit_mode s \<and> map_option r_action (editingRule s) = Some Reject \<and> action v = Drop
                   then Reject else action v),
       r_priority = (if provider s = Firewalld \<and> firewalldPrioritySupported s then priority v else None),
       r_orderIndex = (if provider s = Firewalld \<or> provider s = Ufw \<and> \<not> edit_mode s then None else priority v),
       r_orderBucket = kept r_orderBucket,
       r_description = Some (description v)\<rparr>)"

text \<open>The text of a scope, with its properties in the order they are written.\<close>

definition scope_object :: "rule_scope \<Rightarrow> json" where
  "scope_object sc =
     (let optional = (\<lambda>name v. case v of None \<Rightarrow> [] | Some w \<Rightarrow> [(lit name, JStr w)]) in
      JObj ([(lit ''provider'', JStr (provider_name (sc_provider sc))), (lit ''family'', JStr (family_name (sc_family sc)))]
        @ optional ''table'' (sc_table sc) @ optional ''zone'' (sc_zone sc) @ optional ''chain'' (sc_chain sc)
        @ [(lit ''direction'', JStr (lit ''input''))]))"

definition scope_key :: "provider \<Rightarrow> fw_rule \<Rightarrow> jstring option" where
  "scope_key p r = (if p = Ufw then Some (lit ''ufw'') else json_text (scope_object (r_scope r)))"

text \<open>Rules of one scope are placed one behind the other; \<open>offset\<close> counts those placed so far.\<close>

fun place_rules :: "provider \<Rightarrow> (jstring option \<Rightarrow> int) \<Rightarrow> fw_rule list \<Rightarrow> fw_rule list" where
  "place_rules p offset [] = []"
| "place_rules p offset (r # rs) =
     (case r_orderIndex r of
        None \<Rightarrow> r # place_rules p offset rs
      | Some i \<Rightarrow>
          if p = Firewalld then r # place_rules p offset rs
          else let k = scope_key p r
               in r\<lparr>r_orderIndex := Some (i + offset k)\<rparr> # place_rules p (offset(k := offset k + 1)) rs)"

definition protocols_for :: "rule_form \<Rightarrow> jstring \<Rightarrow> jstring list" where
  "protocols_for s port =
     (if protocol (form s) = lit ''tcp/udp'' then
        (if provider s = Ufw \<and> port \<noteq> [] \<and> \<not> str_includes port (lit '','') then [lit ''all'']
         else [lit ''tcp'', lit ''udp''])
      else [protocol (form s)])"

definition all_rules :: "rule_form \<Rightarrow> fw_rule list" where
  "all_rules s =
     (let addresses = (if sourceAddresses (form s) \<noteq> [] then sourceAddresses (form s) else [(IPv4, [])]);
          ports = (if destinationPorts (form s) \<noteq> [] then destinationPorts (form s) else [[]])
      in concat (map (\<lambda>a. concat (map (\<lambda>port. map (buildRule s a port) (protocols_for s port)) ports)) addresses))"

definition buildPreviewRules :: "rule_form \<Rightarrow> rule_form \<times> (fw_error + bool)" where
  "buildPreviewRules s =
     (let (s1, ok) = normalizeSourceAddresses s in
      if \<not> ok then (s1, Inr False)
      else
        (case normalizeDestinationPorts s1 of
           (s2, Inl e) \<Rightarrow> (s2, Inl e)
         | (s2, Inr False) \<Rightarrow> (s2, Inr False)
         | (s2, Inr True) \<Rightarrow>
             let rules = place_rules (provider s2) (\<lambda>_. 0) (all_rules s2) in
             if edit_mode s2 \<and> length rules \<noteq> 1 then (say ''commons.msg.notSupportOperation'' s2, Inr False)
             else if length rules > 256 then (say ''firewall.batchRuleLimit'' s2, Inr False)
             else (s2\<lparr>previewRules := rules\<rparr>, Inr True)))"

definition prepareRulesFromForm :: "rule_form \<Rightarrow> rule_form \<times> (fw_error + bool)" where
  "prepareRulesFromForm s =
     (if \<not> form_valid s then (s, Inr False)
      else let (s1, ok) = normalizeSourceAddresses s in
        if \<not> ok then (s1, Inr False)
        else case normalizeDestinationPorts s1 of
          (s2, Inl e) \<Rightarrow> (s2, Inl e)
        | (s2, Inr False) \<Rightarrow> (s2, Inr False)
        | (s2, Inr True) \<Rightarrow> buildPreviewRules s2)"

section \<open>What a check says\<close>

datatype check_status = Creatable | Existing | Erroneous

definition ruleCheckStatus :: "fw_rule plan \<Rightarrow> check_status" where
  "ruleCheckStatus p =
     (if decision p = Blocked then Erroneous
      else if decision p = NoChange \<or> classification p = ExactExternal then Existing
      else Creatable)"

definition planReasonMessage :: "jstring \<Rightarrow> jstring" where
  "planReasonMessage why = lit ''firewall.plan_'' @
     (if why \<in> {lit ''equivalent_external_rule'', lit ''multiple_equivalent_external_rules'',
          lit ''equivalent_managed_rule'', lit ''managed_rule_drifted'', lit ''opaque_rule_in_target_scope'',
          lit ''runtime_permanent_mismatch'', lit ''protected_rule''}
      then why else lit ''blocked'')"

definition ruleCheckDescription :: "fw_rule plan \<Rightarrow> jstring" where
  "ruleCheckDescription p =
     (if ruleCheckStatus p = Creatable then lit ''firewall.ruleCheckReadyHelper''
      else if classification p = ExactExternal then lit ''firewall.ruleCheckExternalExists''
      else planReasonMessage (reason p))"

definition ruleCheckCounts :: "rule_form \<Rightarrow> check_status \<Rightarrow> nat" where
  "ruleCheckCounts s st = length (filter (\<lambda>b. ruleCheckStatus (bp_plan b) = st) (batchPlans s))"

definition ruleCheckGroups :: "rule_form \<Rightarrow> (check_status \<times> plan_item list) list" where
  "ruleCheckGroups s =
     filter (\<lambda>g. snd g \<noteq> [])
       (map (\<lambda>st. (st, filter (\<lambda>b. ruleCheckStatus (bp_plan b) = st) (batchPlans s))) [Erroneous, Creatable, Existing])"

definition hasBlockingRules :: "rule_form \<Rightarrow> bool" where
  "hasBlockingRules s \<longleftrightarrow> ruleCheckCounts s Erroneous > 0"

definition existingRuleItems :: "rule_form \<Rightarrow> plan_item list" where
  "existingRuleItems s = filter (\<lambda>b. ruleCheckStatus (bp_plan b) = Existing) (batchPlans s)"

definition showingPreview :: "rule_form \<Rightarrow> bool" where
  "showingPreview s \<longleftrightarrow> previewVisible s \<and> previewRules s \<noteq> []"

text \<open>The fields that differ, \<open>undefined\<close> being the empty text.\<close>

definition rule_fields :: "fw_rule \<Rightarrow> (json \<times> string) list" where
  "rule_fields r =
     (let txt = (\<lambda>v. JStr (case v of None \<Rightarrow> [] | Some w \<Rightarrow> w));
          num = (\<lambda>v. case v of None \<Rightarrow> JStr [] | Some i \<Rightarrow> JNum (of_int i)) in
      [(JStr (r_protocol r), ''commons.table.protocol''), (txt (r_sourceAddress r), ''firewall.sourceIP''),
       (txt (r_sourcePort r), ''firewall.sourcePort''), (txt (r_destinationAddress r), ''firewall.destIP''),
       (txt (r_destinationPort r), ''firewall.destPort''),
       (JStr (case r_action r of Accept \<Rightarrow> lit ''accept'' | Drop \<Rightarrow> lit ''drop'' | Reject \<Rightarrow> lit ''reject''), ''firewall.action''),
       (num (r_priority r), ''firewall.priority''), (num (r_orderIndex r), ''firewall.priority''),
       (txt (r_description r), ''commons.table.description'')])"

definition changedFieldLabels :: "fw_rule \<Rightarrow> fw_rule \<Rightarrow> string list" where
  "changedFieldLabels before after =
     map (snd \<circ> fst) (filter (\<lambda>(a, b). json_text (fst a) \<noteq> json_text (fst b)) (zip (rule_fields before) (rule_fields after)))"

end
