(* ===== verification/RuleFormProps.thy ===== *)
theory RuleFormProps
  imports RuleForm "HOL-Library.Code_Target_Nat"
begin

text \<open>
  Which rules the form previews: every address with every port and protocol, each once, in the
  family of the address, and at positions of their own.
\<close>

section \<open>Lists of tags\<close>

lemma split_runs_clean: "x \<in> set (split_runs P s) \<Longrightarrow> c \<in> set x \<Longrightarrow> \<not> P c"
proof (induction P s rule: split_runs.induct)
  case (1 P s)
  show ?case
  proof (cases "dropWhile (\<lambda>c. \<not> P c) s")
    case Nil
    with 1(2,3) show ?thesis by (auto simp: split_runs.simps [of P s] dropWhile_eq_Nil_conv)
  next
    case (Cons d t)
    with 1(2,3) 1(1) [OF Cons] show ?thesis
      by (auto simp: split_runs.simps [of P s] dest: set_takeWhileD)
  qed
qed

lemma split_runs_none: "\<forall>c \<in> set s. \<not> P c \<Longrightarrow> split_runs P s = [s]"
  by (subst split_runs.simps) (simp add: dropWhile_eq_Nil_conv [THEN iffD2])

lemma split_runs_sep:
  assumes "P c" "\<forall>x \<in> set a. \<not> P x" "t \<noteq> []" "\<not> P (hd t)"
  shows "split_runs P (a @ c # t) = a # split_runs P t"
proof -
  from assms(3,4) have "dropWhile P t = t" by (cases t) auto
  with assms(1,2) show ?thesis
    by (subst split_runs.simps) (simp add: dropWhile_append2 takeWhile_append2)
qed

definition tag_text :: "jstring \<Rightarrow> bool" where
  "tag_text w \<longleftrightarrow> w \<noteq> [] \<and> (\<forall>c \<in> set w. \<not> tag_sep c)"

lemma split_runs_join:
  assumes "ws \<noteq> []" "\<forall>w \<in> set ws. tag_text w"
  shows "split_runs tag_sep (js_join [44] ws) = ws"
  using assms
proof (induction ws rule: list_nonempty_induct)
  case (single w)
  then show ?case by (simp add: split_runs_none tag_text_def)
next
  case (cons w ws)
  then obtain v vs where ws: "ws = v # vs" "v \<noteq> []" by (cases ws) (auto simp: tag_text_def)
  then have "js_join [44] ws \<noteq> []" "hd (js_join [44] ws) \<in> set v"
    by (cases vs; auto simp: js_join_Cons hd_append)+
  moreover have "tag_sep 44" by (simp add: tag_sep_def)
  ultimately show ?case using cons ws
    by (simp add: js_join_Cons split_runs_sep tag_text_def)
qed

lemma tag_no_space: "tag_text w \<Longrightarrow> trim w = w"
  by (rule trim_no_space) (auto simp: tag_text_def tag_sep_def)

lemma splitTag_text: "w \<in> set (splitTagValues vs) \<Longrightarrow> tag_text w"
  using seen_dedup_subset [of id] set_trim_subset
  by (fastforce simp: splitTagValues_def tag_text_def dest: split_runs_clean)

lemma splitTag_distinct: "distinct (splitTagValues vs)"
  by (simp add: splitTagValues_def seen_dedup_distinct)

lemma set_splitTag: "set (splitTagValues vs) = (\<Union>v \<in> set vs. set (splitTagValues [v]))"
  by (auto simp: splitTagValues_def strings.seen_dedup_set)

lemma splitTag_tags: "\<forall>w \<in> set ws. tag_text w \<Longrightarrow> splitTagValues ws = seen_dedup id ws"
proof -
  assume a: "\<forall>w \<in> set ws. tag_text w"
  then have "concat (map (split_runs tag_sep) ws) = ws"
    by (induction ws) (simp_all add: split_runs_none tag_text_def)
  moreover have "map trim ws = ws" using a by (simp add: tag_no_space map_idI)
  moreover have "filter (\<lambda>v. v \<noteq> []) ws = ws" using a by (simp add: tag_text_def)
  ultimately show ?thesis by (simp add: splitTagValues_def)
qed

lemma splitTag_blank: "splitTagValues [[]] = []"
  by (simp add: splitTagValues_def split_runs_none seen_dedup_def)

lemma splitTag_join:
  assumes "\<forall>w \<in> set ws. tag_text w"
  shows "splitTagValues [js_join [44] ws] = seen_dedup id ws"
proof (cases "ws = []")
  case True
  then show ?thesis by (simp add: splitTag_blank) (simp add: seen_dedup_def)
next
  case False
  with assms have "split_runs tag_sep (js_join [44] ws) = ws" by (simp add: split_runs_join)
  moreover have "map trim ws = ws" "filter (\<lambda>v. v \<noteq> []) ws = ws"
    using assms by (simp_all add: tag_no_space map_idI tag_text_def)
  ultimately show ?thesis by (simp add: splitTagValues_def)
qed

section \<open>Rows of addresses\<close>

lemma address_key_inj: "address_key a = address_key b \<longleftrightarrow> a = b"
  by (auto simp: address_key_def inferAddressFamily_def family_name_def)

lemma fresh_addresses_eq:
  "fresh_addresses seen as = (items, seen') \<Longrightarrow>
     seen' = seen \<union> address_key ` set as \<and> distinct (map snd items) \<and>
     snd ` set items = {a \<in> set as. address_key a \<notin> seen} \<and>
     (\<forall>i \<in> set items. fst i = inferAddressFamily (snd i))"
proof (induction as arbitrary: seen items seen')
  case (Cons a as)
  show ?case
  proof (cases "address_key a \<in> seen")
    case True
    with Cons.prems Cons.IH [of seen items seen'] show ?thesis by auto
  next
    case False
    with Cons.prems obtain rest where r: "fresh_addresses (insert (address_key a) seen) as = (rest, seen')"
      "items = (inferAddressFamily a, a) # rest"
      by (auto split: prod.splits)
    with False Cons.IH [OF r(1)] show ?thesis by (auto simp: address_key_inj)
  qed
qed simp

definition given :: "source_item list \<Rightarrow> source_item list" where
  "given rows = filter (\<lambda>i. snd i \<noteq> []) rows"

lemma given_simps [simp]:
  "given [] = []" "given (r # rows) = (if snd r \<noteq> [] then r # given rows else given rows)"
  "given (xs @ ys) = given xs @ given ys"
  by (auto simp: given_def)

lemma given_all: "\<forall>i \<in> set xs. snd i \<noteq> [] \<Longrightarrow> given xs = xs"
  by (simp add: given_def)

lemma source_rows_given:
  "distinct (map snd (given (source_rows seen rows))) \<and>
   snd ` set (given (source_rows seen rows)) = {a \<in> set (splitTagValues (map snd rows)). address_key a \<notin> seen} \<and>
   (\<forall>i \<in> set (given (source_rows seen rows)). fst i = inferAddressFamily (snd i))"
proof (induction seen rows rule: source_rows.induct)
  case (1 seen)
  then show ?case by (simp add: splitTagValues_def seen_dedup_def)
next
  case (2 seen f a rows)
  show ?case
  proof (cases "splitTagValues [a] = []")
    case True
    with 2(1) [OF refl True] show ?thesis
      by (simp add: set_splitTag [of "a # map snd rows"]) (simp add: set_splitTag [of "map snd rows"])
  next
    case False
    obtain items seen' where fr: "fresh_addresses seen (splitTagValues [a]) = (items, seen')" by fastforce
    note e = fresh_addresses_eq [OF fr]
    then have "\<forall>i \<in> set items. snd i \<noteq> []" using splitTag_text tag_text_def by fastforce
    then have "given items = items" by (rule given_all)
    note ih = 2(2) [OF refl False fr [symmetric] refl]
    have new: "given (source_rows seen ((f, a) # rows)) = items @ given (source_rows seen' rows)"
      using False fr \<open>given items = items\<close> by simp
    have "set (splitTagValues (map snd ((f, a) # rows))) = set (splitTagValues [a]) \<union> set (splitTagValues (map snd rows))"
      by (simp add: set_splitTag [of "a # map snd rows"]) (simp add: set_splitTag [of "map snd rows"])
    with e ih show ?thesis unfolding new
      by (auto simp: image_Un address_key_inj)
  qed
qed

lemma source_rows_ne: "rows \<noteq> [] \<Longrightarrow> source_rows {} rows \<noteq> []"
proof (cases rows)
  case (Cons r rs)
  obtain f a where r: "r = (f, a)" by fastforce
  obtain items seen' where fr: "fresh_addresses {} (splitTagValues [a]) = (items, seen')" by fastforce
  show ?thesis
  proof (cases "splitTagValues [a] = []")
    case False
    with fresh_addresses_eq [OF fr] have "items \<noteq> []" by fastforce
    with False fr Cons r show ?thesis by (simp add: Let_def)
  qed (simp add: Cons r)
qed simp

text \<open>A normal list of rows: only addresses, each once and in its family, or no address at all.\<close>

definition normal_rows :: "source_item list \<Rightarrow> bool" where
  "normal_rows rows \<longleftrightarrow> rows \<noteq> [] \<and>
     ((\<forall>i \<in> set rows. snd i = []) \<or>
      (\<forall>i \<in> set rows. tag_text (snd i) \<and> fst i = inferAddressFamily (snd i)) \<and> distinct (map snd rows))"

lemma drop_blank_normal:
  assumes "drop_blank (source_rows {} rows) \<noteq> []"
  shows "normal_rows (drop_blank (source_rows {} rows)) \<and>
    snd ` set (drop_blank (source_rows {} rows)) - {[]} = set (splitTagValues (map snd rows))"
proof (cases "list_ex (\<lambda>i. snd i \<noteq> []) (source_rows {} rows)")
  case True
  then have d: "drop_blank (source_rows {} rows) = given (source_rows {} rows)"
    by (simp add: drop_blank_def given_def)
  have t: "tag_text a" if "a \<in> snd ` set (given (source_rows {} rows))" for a
    using that source_rows_given [of "{}" rows] splitTag_text by auto
  then have ne: "[] \<notin> snd ` set (given (source_rows {} rows))" by (metis tag_text_def)
  have "\<forall>i \<in> set (given (source_rows {} rows)). tag_text (snd i)" using t by blast
  with ne show ?thesis using assms source_rows_given [of "{}" rows]
    unfolding d normal_rows_def by (simp del: given_simps)
next
  case False
  then have d: "drop_blank (source_rows {} rows) = source_rows {} rows" and g: "given (source_rows {} rows) = []"
    by (simp_all add: drop_blank_def given_def list_ex_iff)
  moreover from False have "\<forall>i \<in> set (source_rows {} rows). snd i = []" by (auto simp: list_ex_iff)
  moreover have "set (splitTagValues (map snd rows)) = {}"
    using source_rows_given [of "{}" rows] g by auto
  ultimately show ?thesis using assms by (auto simp: normal_rows_def)
qed

lemma splitTag_rows:
  assumes "normal_rows rows"
  shows "set (splitTagValues (map snd rows)) = snd ` set rows - {[]}"
proof -
  have "set (splitTagValues [v]) = {v} - {[]}" if "v \<in> snd ` set rows" for v
  proof (cases "v = []")
    case False
    with that assms have "tag_text v" by (auto simp: normal_rows_def)
    with False show ?thesis by (simp add: splitTag_tags strings.seen_dedup_set)
  qed (simp add: splitTag_blank)
  then show ?thesis by (auto simp: set_splitTag [of "map snd rows"])
qed

lemma normalize_sources:
  assumes "normalizeSourceAddresses s = (s', True)"
  shows "\<exists>rows. s' = set_sources rows s \<and> normal_rows rows \<and> (edit_mode s \<longrightarrow> length rows = 1) \<and>
    snd ` set rows - {[]} = set (splitTagValues (map snd (sourceAddresses (form s))))"
proof -
  let ?rows = "sourceAddresses (form s)"
  let ?n = "drop_blank (source_rows {} ?rows)"
  show ?thesis
  proof (cases "?n = []")
    case True
    then have "source_rows {} ?rows = []"
      by (auto simp: drop_blank_def list_ex_iff filter_empty_conv split: if_splits)
    then have "?rows = []" using source_rows_ne by blast
    with assms show ?thesis
      by (auto simp: normalizeSourceAddresses_def drop_blank_def normal_rows_def splitTagValues_def
          seen_dedup_def Let_def split: if_splits)
  next
    case False
    note n = drop_blank_normal [OF False]
    from False assms have "s' = set_sources (if edit_mode s then [hd ?n] else ?n) s" "edit_mode s \<longrightarrow> length ?n = 1"
      by (auto simp: normalizeSourceAddresses_def Let_def hd_conv_nth length_Suc_conv le_Suc_eq
          split: if_splits list.splits)
    then have "s' = set_sources ?n s" "edit_mode s \<longrightarrow> length ?n = 1"
      by (cases ?n; auto)+
    with n show ?thesis by blast
  qed
qed

section \<open>Ports\<close>

definition port_list :: "provider \<Rightarrow> jstring list \<Rightarrow> jstring list" where
  "port_list p ns = (if p = Ufw \<or> p = Iptables then [js_join [44] ns] else if ns \<noteq> [] then ns else [[]])"

lemma normalize_ports:
  assumes "normalizeDestinationPorts s = (s', Inr True)"
  shows "\<exists>ns. map_throw normalizePortRange (splitTagValues (destinationPorts (form s))) = Inr ns \<and>
    s' = set_ports (port_list (provider s) ns) s"
proof (cases "map_throw normalizePortRange (splitTagValues (destinationPorts (form s)))")
  case (Inr ns)
  with assms have "s' = set_ports (port_list (provider s) ns) s"
    by (cases "provider s = Ufw \<or> provider s = Iptables"; cases "edit_mode s \<and> length ns > 1")
      (auto simp: normalizeDestinationPorts_def port_list_def split: if_splits)
  with Inr show ?thesis by blast
qed (use assms in \<open>simp add: normalizeDestinationPorts_def\<close>)

lemma range_tag:
  assumes "normalizePortRange p = Inr n"
  shows "tag_text n \<and> normalizePortRange n = Inr n"
proof -
  obtain a b where ab: "1 \<le> a" "a \<le> b" "b \<le> 65535" "n = range_text a b"
    using normalizePortRange_InrD [OF assms] by blast
  have "\<not> tag_sep c" if "c \<in> set n" for c
  proof -
    have "c \<in> set (digits_of_nat a) \<or> c \<in> set (digits_of_nat b) \<or> c = 45"
      using that unfolding ab(4) range_text_def by (auto split: if_splits)
    then have "is_digit c \<or> c = 45" using digits_units by blast
    then show ?thesis by (auto simp: is_digit_def tag_sep_def is_space_def)
  qed
  moreover have "n \<noteq> []" unfolding ab(4) range_text_def by (simp del: lit_simps)
  moreover have "normalizePortRange n = Inr n"
    unfolding ab(4) by (rule normalize_range_text) (rule ab)+
  ultimately show ?thesis by (simp add: tag_text_def)
qed

lemma splitTag_port_list:
  assumes "\<forall>n \<in> set ns. tag_text n"
  shows "splitTagValues (port_list p ns) = seen_dedup id ns"
proof (cases "ns = []")
  case True
  then show ?thesis by (simp add: port_list_def splitTag_blank) (simp add: seen_dedup_def)
next
  case False
  with assms show ?thesis by (simp add: port_list_def splitTag_join splitTag_tags)
qed

lemma normalize_ports_again:
  assumes "map_throw normalizePortRange ps = Inr ns" "destinationPorts (form s) = port_list (provider s) ns"
    and "normalizeDestinationPorts s = (s', Inr True)"
  shows "s' = set_ports (port_list (provider s) (seen_dedup id ns)) s"
proof -
  have n: "tag_text n \<and> normalizePortRange n = Inr n" if "n \<in> set ns" for n
    using map_throw_set [OF assms(1) that] range_tag by blast
  then have "splitTagValues (destinationPorts (form s)) = seen_dedup id ns"
    unfolding assms(2) by (simp add: splitTag_port_list)
  moreover have "map_throw normalizePortRange (seen_dedup id ns) = Inr (map id (seen_dedup id ns))"
    using n by (intro map_throw_all) (simp add: strings.seen_dedup_set)
  ultimately show ?thesis using normalize_ports [OF assms(3)] by auto
qed

section \<open>Positions\<close>

lemma place_rules_same:
  "map (\<lambda>r. (r_scope r, r_sourceAddress r, r_destinationPort r, r_protocol r)) (place_rules p off rs) =
   map (\<lambda>r. (r_scope r, r_sourceAddress r, r_destinationPort r, r_protocol r)) rs"
proof (induction rs arbitrary: p off)
  case (Cons r rs)
  show ?case by (cases "r_orderIndex r"; cases "p = Firewalld") (simp_all add: Let_def Cons.IH)
qed simp

lemma place_rules_same_element:
  assumes "r \<in> set (place_rules p off rs)"
  shows "\<exists>q \<in> set rs. r_scope q = r_scope r \<and> r_sourceAddress q = r_sourceAddress r"
proof -
  have "(r_scope r, r_sourceAddress r, r_destinationPort r, r_protocol r) \<in>
      set (map (\<lambda>r. (r_scope r, r_sourceAddress r, r_destinationPort r, r_protocol r)) (place_rules p off rs))"
    using assms by simp
  then show ?thesis unfolding place_rules_same by auto
qed

lemma length_place_rules [simp]: "length (place_rules p off rs) = length rs"
  using arg_cong [OF place_rules_same, of length p off rs] by simp

text \<open>All rules ask for the same position: those of a scope get it and the ones behind it.\<close>

lemma place_rules_positions:
  assumes "p \<noteq> Firewalld" "\<forall>r \<in> set rs. r_orderIndex r = Some i"
  shows "distinct (map (\<lambda>r. (scope_key p r, r_orderIndex r)) (place_rules p off rs)) \<and>
    (\<forall>r \<in> set (place_rules p off rs). \<exists>j. r_orderIndex r = Some (i + j) \<and> off (scope_key p r) \<le> j)"
  using assms
proof (induction p off rs rule: place_rules.induct)
  case (2 p off r rs)
  let ?k = "scope_key p r" and ?off = "off(scope_key p r := off (scope_key p r) + 1)"
  let ?rest = "place_rules p ?off rs"
  have r: "place_rules p off (r # rs) = r\<lparr>r_orderIndex := Some (i + off ?k)\<rparr> # ?rest"
    using 2(4,5) by (simp add: Let_def)
  have k: "scope_key p (r\<lparr>r_orderIndex := x\<rparr>) = ?k" for x by (simp add: scope_key_def)
  have ih: "distinct (map (\<lambda>r. (scope_key p r, r_orderIndex r)) ?rest)"
    "\<forall>r \<in> set ?rest. \<exists>j. r_orderIndex r = Some (i + j) \<and> ?off (scope_key p r) \<le> j"
    using 2(3) [OF _ 2(4) refl] 2(4,5) by (auto simp del: fun_upd_apply)
  have "(?k, Some (i + off ?k)) \<notin> (\<lambda>r. (scope_key p r, r_orderIndex r)) ` set ?rest"
  proof
    assume "(?k, Some (i + off ?k)) \<in> (\<lambda>r. (scope_key p r, r_orderIndex r)) ` set ?rest"
    then obtain q where q: "q \<in> set ?rest" "scope_key p q = ?k" "r_orderIndex q = Some (i + off ?k)" by auto
    with ih(2) obtain j where "r_orderIndex q = Some (i + j)" "?off ?k \<le> j" by metis
    with q(3) show False by simp
  qed
  moreover have "\<exists>j. r_orderIndex q = Some (i + j) \<and> off (scope_key p q) \<le> j" if "q \<in> set ?rest" for q
    using ih(2) that by (force split: if_splits)
  ultimately show ?case unfolding r using ih(1) by (auto simp: k)
qed simp

section \<open>The previewed rules\<close>

definition rule_target :: "fw_rule \<Rightarrow> jstring option \<times> jstring option \<times> jstring" where
  "rule_target r = (r_sourceAddress r, r_destinationPort r, r_protocol r)"

lemma distinct_concat_map:
  assumes "distinct xs" "\<And>x. x \<in> set xs \<Longrightarrow> distinct (f x)"
    and "\<And>x y. x \<in> set xs \<Longrightarrow> y \<in> set xs \<Longrightarrow> x \<noteq> y \<Longrightarrow> set (f x) \<inter> set (f y) = {}"
  shows "distinct (concat (map f xs))"
  using assms
proof (induction xs)
  case (Cons x xs)
  have "set (f x) \<inter> set (f y) = {}" if "y \<in> set xs" for y
    using Cons.prems(1) that by (intro Cons.prems(3)) auto
  with Cons show ?case by auto
qed simp

lemma protocols_for_distinct: "distinct (protocols_for s port)"
  by (simp add: protocols_for_def)

text \<open>What a successful preparation has done to the form, and the rules it built.\<close>

lemma prepared:
  assumes "prepareRulesFromForm s = (s', Inr True)"
  obtains rows ns where "form_valid s" "normal_rows rows"
    "snd ` set rows - {[]} = set (splitTagValues (map snd (sourceAddresses (form s))))"
    "map_throw normalizePortRange (splitTagValues (destinationPorts (form s))) = Inr ns"
    "s' = (set_ports (port_list (provider s) (seen_dedup id ns)) (set_sources rows s))
       \<lparr>previewRules := place_rules (provider s) (\<lambda>_. 0)
          (all_rules (set_ports (port_list (provider s) (seen_dedup id ns)) (set_sources rows s)))\<rparr>"
    "length (previewRules s') \<le> 256" "edit_mode s \<longrightarrow> length (previewRules s') = 1"
proof -
  have v: "form_valid s" using assms by (auto simp: prepareRulesFromForm_def split: if_splits)
  obtain s1 ok where n1: "normalizeSourceAddresses s = (s1, ok)" by fastforce
  obtain s2 r where n2: "normalizeDestinationPorts s1 = (s2, r)" by fastforce
  have ok: "ok" "r = Inr True" and b: "buildPreviewRules s2 = (s', Inr True)"
    using assms v n1 n2 by (auto simp: prepareRulesFromForm_def split: if_splits sum.splits bool.splits)
  obtain s3 ok' where n3: "normalizeSourceAddresses s2 = (s3, ok')" by fastforce
  obtain s4 r' where n4: "normalizeDestinationPorts s3 = (s4, r')" by fastforce
  have ok': "ok'" "r' = Inr True" and
    s': "s' = s4\<lparr>previewRules := place_rules (provider s4) (\<lambda>_. 0) (all_rules s4)\<rparr>" and
    len: "length (previewRules s') \<le> 256" "edit_mode s4 \<longrightarrow> length (previewRules s') = 1"
    using b n3 n4
    by (auto simp: buildPreviewRules_def Let_def split: if_splits sum.splits bool.splits)
  obtain rows1 where r1: "s1 = set_sources rows1 s" "normal_rows rows1"
    "snd ` set rows1 - {[]} = set (splitTagValues (map snd (sourceAddresses (form s))))"
    using normalize_sources [of s s1] n1 ok by auto
  obtain ns where m: "map_throw normalizePortRange (splitTagValues (destinationPorts (form s1))) = Inr ns"
    and s2: "s2 = set_ports (port_list (provider s1) ns) s1"
    using normalize_ports [of s1 s2] n2 ok by auto
  obtain rows where r2: "s3 = set_sources rows s2" "normal_rows rows"
    "snd ` set rows - {[]} = set (splitTagValues (map snd (sourceAddresses (form s2))))"
    using normalize_sources [of s2 s3] n3 ok' by auto
  have "s4 = set_ports (port_list (provider s3) (seen_dedup id ns)) s3"
    using n4 ok' by (intro normalize_ports_again [OF m]) (simp_all add: r2 s2 set_ports_def set_sources_def)
  then have s4: "s4 = set_ports (port_list (provider s) (seen_dedup id ns)) (set_sources rows s)"
    by (simp add: r2 s2 r1 set_ports_def set_sources_def)
  have rows: "snd ` set rows - {[]} = set (splitTagValues (map snd (sourceAddresses (form s))))"
    using r1(3) r2(3) splitTag_rows [OF r1(2)] by (simp add: s2 r1(1) set_ports_def set_sources_def)
  show ?thesis
  proof (rule that [OF v r2(2) rows])
    show "map_throw normalizePortRange (splitTagValues (destinationPorts (form s))) = Inr ns"
      using m by (simp add: r1 set_sources_def)
  qed (use s' s4 len in \<open>auto simp: set_ports_def set_sources_def\<close>)
qed

lemma normal_rows_addresses:
  assumes "normal_rows rows"
  shows "snd ` set rows = (if snd ` set rows - {[]} = {} then {[]} else snd ` set rows - {[]})"
proof (cases "\<forall>i \<in> set rows. snd i = []")
  case True
  then have "snd ` set rows = (\<lambda>_. []) ` set rows" by (intro image_cong) auto
  moreover have "rows \<noteq> []" using assms by (simp add: normal_rows_def)
  ultimately have "snd ` set rows = {[]}" by (simp add: image_constant_conv)
  then show ?thesis by simp
next
  case False
  with assms have "[] \<notin> snd ` set rows" "snd ` set rows \<noteq> {}" by (auto simp: normal_rows_def tag_text_def)
  then show ?thesis by auto
qed

lemma normal_rows_shown:
  assumes "normal_rows rows" "i \<in> set rows"
  shows "(if isWildcardAddress (snd i) then [] else snd i) = snd i"
proof (cases "snd i = []")
  case False
  with assms have "trim (snd i) = snd i" by (auto simp: normal_rows_def tag_no_space)
  with False show ?thesis by (simp add: isWildcardAddress_def)
qed (simp add: isWildcardAddress_def)

lemma buildRule_fields [simp]:
  "r_protocol (buildRule s i port proto) = proto"
  "r_destinationPort (buildRule s i port proto) = Some port"
  "r_sourceAddress (buildRule s i port proto) = Some (if isWildcardAddress (snd i) then [] else snd i)"
  "r_scope (buildRule s i port proto) = build_scope s (build_family (provider s) i proto)"
  by (simp_all add: buildRule_def Let_def)

lemma build_scope_family [simp]: "sc_family (build_scope s f) = f"
  by (simp add: build_scope_def)

lemma rule_target_place [simp]: "map rule_target (place_rules p off rs) = map rule_target rs"
proof -
  have "map rule_target xs = map snd (map (\<lambda>r. (r_scope r, r_sourceAddress r, r_destinationPort r, r_protocol r)) xs)"
    for xs by (simp add: rule_target_def)
  then show ?thesis by (simp only: place_rules_same)
qed

lemma all_rules_targets:
  assumes "normal_rows (sourceAddresses (form s))" "destinationPorts (form s) \<noteq> []"
  shows "map rule_target (all_rules s) =
    concat (map (\<lambda>i. concat (map (\<lambda>port. map (\<lambda>proto. (Some (snd i), Some port, proto)) (protocols_for s port))
      (destinationPorts (form s)))) (sourceAddresses (form s)))"
proof -
  have "map rule_target (map (buildRule s i port) (protocols_for s port)) =
      map (\<lambda>proto. (Some (snd i), Some port, proto)) (protocols_for s port)"
    if "i \<in> set (sourceAddresses (form s))" for i port
    using normal_rows_shown [OF assms(1) that] by (simp add: rule_target_def)
  moreover have "sourceAddresses (form s) \<noteq> []" using assms(1) by (simp add: normal_rows_def)
  ultimately show ?thesis using assms(2)
    by (simp add: all_rules_def map_concat comp_def cong: map_cong)
qed

lemma placed_family:
  assumes "normal_rows (sourceAddresses (form t))" "r \<in> set (place_rules p off (all_rules t))"
    and "r_sourceAddress r = Some a" "tag_text a"
  shows "sc_family (r_scope r) = inferAddressFamily a"
proof -
  obtain q where q: "q \<in> set (all_rules t)" "r_scope q = r_scope r" "r_sourceAddress q = Some a"
    using place_rules_same_element [OF assms(2)] assms(3) by auto
  then obtain i port proto where i: "i \<in> set (sourceAddresses (form t))" "q = buildRule t i port proto"
    using assms(1) by (auto simp: all_rules_def normal_rows_def)
  then have "snd i = a" using q(3) normal_rows_shown [OF assms(1) i(1)] by simp
  with assms(1,4) i(1) have "fst i = inferAddressFamily a" "build_family (provider t) i proto = fst i"
    by (auto simp: normal_rows_def build_family_def tag_text_def)
  with q(2) i(2) show ?thesis by (simp flip: q(2))
qed

lemma distinct_targets:
  assumes "distinct (map snd rows)" "distinct ports" "\<And>port. distinct (protos port)"
  shows "distinct (concat (map (\<lambda>i. concat (map (\<lambda>port. map (\<lambda>proto. (Some (snd i), Some port, proto))
    (protos port)) ports)) rows))"
proof (rule distinct_concat_map)
  show "distinct rows" using assms(1) by (simp add: distinct_map)
  show "distinct (concat (map (\<lambda>port. map (\<lambda>proto. (Some (snd i), Some port, proto)) (protos port)) ports))" for i
    using assms(2,3) by (intro distinct_concat_map) (auto simp: distinct_map inj_on_def)
  show "set (concat (map (\<lambda>port. map (\<lambda>proto. (Some (snd i), Some port, proto)) (protos port)) ports)) \<inter>
      set (concat (map (\<lambda>port. map (\<lambda>proto. (Some (snd j), Some port, proto)) (protos port)) ports)) = {}"
    if "i \<in> set rows" "j \<in> set rows" "i \<noteq> j" for i j
    using distinct_map_inj [OF assms(1) that(1,2)] that(3) by auto
qed

lemma map_throw_results: "map_throw f xs = Inr ys \<Longrightarrow> set ys = {y. \<exists>x \<in> set xs. f x = Inr y}"
  by (induction xs arbitrary: ys) (auto split: sum.splits)

text \<open>C8: The rules a form previews are exactly what was typed: one rule for each address, each normal form of a
  port (joined for the back ends that take lists) and each protocol; none twice when an address was
  given; and each address was checked and is in the scope of its own family.\<close>

theorem preview_rules_exact:
  assumes "prepareRulesFromForm s = (s', Inr True)"
  shows "let A = set (splitTagValues (map snd (sourceAddresses (form s)))) in
    \<exists>ports. distinct ports \<and>
      set ports = {n. \<exists>p \<in> set (splitTagValues (destinationPorts (form s))). normalizePortRange p = Inr n} \<and>
      set (map rule_target (previewRules s')) =
        {(Some a, Some port, proto) | a port proto. a \<in> (if A = {} then {[]} else A) \<and>
           port \<in> set (port_list (provider s) ports) \<and> proto \<in> set (protocols_for s port)} \<and>
      (A \<noteq> {} \<longrightarrow> distinct (map rule_target (previewRules s'))) \<and>
      (\<forall>r \<in> set (previewRules s'). \<forall>a \<in> A. r_sourceAddress r = Some a \<longrightarrow>
         isValidIPOrCIDR a \<and> sc_family (r_scope r) = inferAddressFamily a)"
proof -
  obtain rows ns where p: "form_valid s" "normal_rows rows"
    "snd ` set rows - {[]} = set (splitTagValues (map snd (sourceAddresses (form s))))"
    "map_throw normalizePortRange (splitTagValues (destinationPorts (form s))) = Inr ns"
    "s' = (set_ports (port_list (provider s) (seen_dedup id ns)) (set_sources rows s))
       \<lparr>previewRules := place_rules (provider s) (\<lambda>_. 0)
          (all_rules (set_ports (port_list (provider s) (seen_dedup id ns)) (set_sources rows s)))\<rparr>"
    by (rule prepared [OF assms])
  let ?A = "set (splitTagValues (map snd (sourceAddresses (form s))))"
  let ?ports = "seen_dedup id ns" and ?s4 = "set_ports (port_list (provider s) (seen_dedup id ns)) (set_sources rows s)"
  have pl: "port_list (provider s) ?ports \<noteq> []" by (simp add: port_list_def)
  have same: "protocols_for ?s4 = protocols_for s" by (simp add: protocols_for_def set_ports_def set_sources_def fun_eq_iff)
  have t: "map rule_target (previewRules s') = concat (map (\<lambda>i. concat (map (\<lambda>port. map (\<lambda>proto. (Some (snd i), Some port, proto))
      (protocols_for s port)) (port_list (provider s) ?ports))) rows)"
    using all_rules_targets [of ?s4] p(2) pl by (simp add: p(5) same) (simp add: set_ports_def set_sources_def)
  have rows: "snd ` set rows = (if ?A = {} then {[]} else ?A)"
    using normal_rows_addresses [OF p(2)] unfolding p(3) .
  have fam: "isValidIPOrCIDR a \<and> sc_family (r_scope r) = inferAddressFamily a"
    if r: "r \<in> set (previewRules s')" "r_sourceAddress r = Some a" and a: "a \<in> ?A" for r a
  proof
    show "isValidIPOrCIDR a"
      using p(1) a by (auto simp: form_valid_def validateSourceAddresses_def Let_def list_all_iff split: if_splits)
    show "sc_family (r_scope r) = inferAddressFamily a"
      using r by (intro placed_family [of ?s4 r "provider s" "\<lambda>_. 0"])
        (simp_all add: p(2) p(5) splitTag_text [OF a], simp_all add: set_ports_def set_sources_def p(2))
  qed
  have "set (map rule_target (previewRules s')) =
        {(Some a, Some port, proto) | a port proto. a \<in> (if ?A = {} then {[]} else ?A) \<and>
           port \<in> set (port_list (provider s) ?ports) \<and> proto \<in> set (protocols_for s port)}"
    unfolding t rows [symmetric] by auto
  moreover have "distinct (map rule_target (previewRules s'))" if "?A \<noteq> {}"
  proof -
    have "\<not> (\<forall>i \<in> set rows. snd i = [])"
    proof
      assume "\<forall>i \<in> set rows. snd i = []"
      then have "snd ` set rows - {[]} = {}" by auto
      with p(3) that show False by simp
    qed
    with p(2) have "distinct (map snd rows)" by (auto simp: normal_rows_def)
    moreover have "distinct (port_list (provider s) ?ports)" by (simp add: port_list_def seen_dedup_distinct)
    ultimately show ?thesis unfolding t by (intro distinct_targets protocols_for_distinct)
  qed
  moreover have "set ?ports = {n. \<exists>p \<in> set (splitTagValues (destinationPorts (form s))). normalizePortRange p = Inr n}"
    using map_throw_results [OF p(4)] by (simp add: strings.seen_dedup_set)
  ultimately show ?thesis
    unfolding Let_def using fam seen_dedup_distinct [of id ns] by (intro exI [of _ ?ports]) blast
qed

lemma all_rules_ne:
  assumes "normal_rows (sourceAddresses (form s))" "destinationPorts (form s) \<noteq> []"
  shows "all_rules s \<noteq> []"
proof -
  have "protocols_for s port \<noteq> []" for port by (simp add: protocols_for_def)
  moreover have "sourceAddresses (form s) \<noteq> []" using assms(1) by (simp add: normal_rows_def)
  ultimately show ?thesis using assms(2)
    by (cases "sourceAddresses (form s)"; cases "destinationPorts (form s)") (simp_all add: all_rules_def)
qed

lemma all_rules_order:
  "r \<in> set (all_rules s) \<Longrightarrow> r_orderIndex r =
     (if provider s = Firewalld \<or> provider s = Ufw \<and> \<not> edit_mode s then None else priority (form s))"
  by (auto simp: all_rules_def buildRule_def Let_def split: if_splits)

lemma place_rules_unordered: "\<forall>r \<in> set rs. r_orderIndex r = None \<Longrightarrow> place_rules p off rs = rs"
  by (induction rs arbitrary: off) auto

lemma distinct_map_coarser:
  "distinct (map f xs) \<Longrightarrow> (\<And>x y. g x = g y \<Longrightarrow> f x = f y) \<Longrightarrow> distinct (map g xs)"
  unfolding distinct_map inj_on_def by blast

text \<open>C9: The rules of a preview never compete for a position: those of one scope, or for ufw all of them, get
  different positions, none before the one that was asked for; there are 1 to 256 rules, exactly one
  when a rule is edited.\<close>

theorem preview_positions:
  assumes "prepareRulesFromForm s = (s', Inr True)"
  shows "0 < length (previewRules s') \<and> length (previewRules s') \<le> 256 \<and>
    (edit_mode s \<longrightarrow> length (previewRules s') = 1) \<and>
    distinct (map (\<lambda>r. (if provider s = Ufw then None else Some (r_scope r), r_orderIndex r))
      (filter (\<lambda>r. r_orderIndex r \<noteq> None) (previewRules s'))) \<and>
    (\<forall>r \<in> set (previewRules s'). \<forall>i. r_orderIndex r = Some i \<longrightarrow> (\<exists>p \<le> i. priority (form s) = Some p))"
proof -
  obtain rows ns where p: "normal_rows rows"
    "s' = (set_ports (port_list (provider s) (seen_dedup id ns)) (set_sources rows s))
       \<lparr>previewRules := place_rules (provider s) (\<lambda>_. 0)
          (all_rules (set_ports (port_list (provider s) (seen_dedup id ns)) (set_sources rows s)))\<rparr>"
    "length (previewRules s') \<le> 256" "edit_mode s \<longrightarrow> length (previewRules s') = 1"
    by (rule prepared [OF assms])
  let ?s4 = "set_ports (port_list (provider s) (seen_dedup id ns)) (set_sources rows s)"
  have f: "provider ?s4 = provider s" "edit_mode ?s4 = edit_mode s" "priority (form ?s4) = priority (form s)"
    by (simp_all add: set_ports_def set_sources_def)
  have pre: "previewRules s' = place_rules (provider s) (\<lambda>_. 0) (all_rules ?s4)" by (simp add: p(2))
  have ne: "all_rules ?s4 \<noteq> []"
    using p(1) by (intro all_rules_ne) (simp_all add: set_ports_def set_sources_def port_list_def)
  show ?thesis
  proof (cases "provider s = Firewalld \<or> provider s = Ufw \<and> \<not> edit_mode s \<or> priority (form s) = None")
    case True
    then have "\<forall>r \<in> set (all_rules ?s4). r_orderIndex r = None" using all_rules_order f by fastforce
    then have "previewRules s' = all_rules ?s4" "filter (\<lambda>r. r_orderIndex r \<noteq> None) (previewRules s') = []"
      unfolding pre by (simp_all add: place_rules_unordered)
    with p(3,4) ne show ?thesis by (auto simp: filter_empty_conv)
  next
    case False
    then obtain i where i: "priority (form s) = Some i" by auto
    have "provider s \<noteq> Firewalld" "\<forall>r \<in> set (all_rules ?s4). r_orderIndex r = Some i"
      using False i all_rules_order [of _ ?s4] f by auto
    note pos = place_rules_positions [OF this, of "\<lambda>_. 0", folded pre]
    have "distinct (map (\<lambda>r. (if provider s = Ufw then None else Some (r_scope r), r_orderIndex r)) (previewRules s'))"
      by (rule distinct_map_coarser [OF conjunct1 [OF pos]]) (auto simp: scope_key_def split: if_splits)
    then have "distinct (map (\<lambda>r. (if provider s = Ufw then None else Some (r_scope r), r_orderIndex r))
      (filter (\<lambda>r. r_orderIndex r \<noteq> None) (previewRules s')))" by (rule distinct_map_filter)
    then show ?thesis using p(3,4) ne pos i by (auto simp: pre) 
  qed
qed

section \<open>A form\<close>

definition sample_form :: rule_form where
  "sample_form =
     \<lparr>provider = Nftables, edit_mode = False, editingUUID = [], editingRule = None, drawerVisible = True,
      loading = False, previewRules = [], previewVisible = False, checkCompleted = False,
      positionRanges = (\<lambda>_. Some (1, 9)), firewalldPrioritySupported = True, batchPlans = [],
      form = \<lparr>protocol = lit ''tcp/udp'', sourceAddresses = [(IPv4, lit ''::1'')], sourcePort = [],
        destinationAddress = [], destinationPorts = [lit ''80'', lit ''080''], action = Accept,
        priority = Some 3, description = []\<rparr>,
      messages = []\<rparr>"

lemma sample_prepared:
  "snd (prepareRulesFromForm sample_form) = Inr True \<and>
   map (\<lambda>r. (r_sourceAddress r, r_destinationPort r, r_protocol r, r_orderIndex r))
     (previewRules (fst (prepareRulesFromForm sample_form))) =
   [(Some (lit ''::1''), Some (lit ''80''), lit ''tcp'', Some 3),
    (Some (lit ''::1''), Some (lit ''80''), lit ''udp'', Some 4)]"
  by code_simp

theorem preview_rules_exact_witness:
  "\<exists>ports. distinct ports \<and>
      set (map rule_target (previewRules (fst (prepareRulesFromForm sample_form)))) =
        {(Some a, Some port, proto) | a port proto. a \<in> {lit ''::1''} \<and>
           port \<in> set (port_list Nftables ports) \<and> proto \<in> {lit ''tcp'', lit ''udp''}}"
proof -
  have p: "prepareRulesFromForm sample_form = (fst (prepareRulesFromForm sample_form), Inr True)"
    using sample_prepared by (metis prod.collapse)
  have a: "splitTagValues (map snd (sourceAddresses (form sample_form))) = [lit ''::1'']"
    using splitTag_tags [of "[lit ''::1'']"]
    by (simp add: sample_form_def tag_text_def tag_sep_def is_space_def seen_dedup_def)
  have q: "protocols_for sample_form port = [lit ''tcp'', lit ''udp'']" for port
    by (simp add: protocols_for_def sample_form_def)
  have f: "provider sample_form = Nftables" by (simp add: sample_form_def)
  obtain ports where "distinct ports \<and>
      set (map rule_target (previewRules (fst (prepareRulesFromForm sample_form)))) =
        {(Some a, Some port, proto) | a port proto. a \<in> (if set [lit ''::1''] = {} then {[]} else set [lit ''::1'']) \<and>
           port \<in> set (port_list Nftables ports) \<and> proto \<in> set [lit ''tcp'', lit ''udp'']}"
    using preview_rules_exact [OF p, unfolded Let_def a f q] by (elim exE conjE) (rule that, rule conjI)
  then show ?thesis by (intro exI [of _ ports]) (simp del: lit_simps)
qed

theorem preview_positions_witness:
  "distinct (map (\<lambda>r. (Some (r_scope r), r_orderIndex r))
     (filter (\<lambda>r. r_orderIndex r \<noteq> None) (previewRules (fst (prepareRulesFromForm sample_form))))) \<and>
   length (filter (\<lambda>r. r_orderIndex r \<noteq> None) (previewRules (fst (prepareRulesFromForm sample_form)))) = 2"
proof -
  have p: "prepareRulesFromForm sample_form = (fst (prepareRulesFromForm sample_form), Inr True)"
    using sample_prepared by (metis prod.collapse)
  have "provider sample_form = Nftables" by (simp add: sample_form_def)
  moreover have "map r_orderIndex (previewRules (fst (prepareRulesFromForm sample_form))) = [Some 3, Some 4]"
    using arg_cong [OF conjunct2 [OF sample_prepared], of "map (snd \<circ> snd \<circ> snd)"] by (simp add: comp_def)
  ultimately show ?thesis using preview_positions [OF p] 
    by (auto simp: map_eq_Cons_conv)
qed

end
