(* ===== verification/RuleFormSteps.thy ===== *)
theory RuleFormSteps
  imports RuleForm
begin

text \<open>
  The life of the rule form: opening the drawer, typing, checking, going back, submitting, and
  the answers of the server, which arrive later.  Each handler of
  \<^verbatim>\<open>src/web/src/views/host/firewall/rule/operate/index.vue\<close> runs to its first \<open>await\<close> in one
  step; what it goes on with is \<open>pending\<close>.  The flag \<open>loading\<close> keeps a second click out, but not
  the drawer from being closed and opened again meanwhile: its page header has a way back
  (\<^verbatim>\<open>src/web/src/components/drawer-pro/index.vue\<close>) that does not look at the flag.
\<close>

section \<open>State\<close>

record inventory_item =
  inv_rule :: fw_rule
  inv_uuid :: "jstring option"
  inv_position :: "int option"

datatype request =
    CheckRules "(jstring option \<times> fw_rule) list"
  | CreateRules "fw_rule create_item list"
  | UpdateRule jstring fw_rule

datatype pending = Idle | CheckingEdit | CheckingBatch | Confirming fw_rule | Updating | Creating

record form_state =
  fs :: rule_form
  pending :: pending
  sent :: "request list"
  searches :: nat

section \<open>Opening and closing\<close>

definition resetBatch :: "rule_form \<Rightarrow> rule_form" where
  "resetBatch s = s\<lparr>previewRules := [], previewVisible := False, checkCompleted := False, batchPlans := []\<rparr>"

definition resetForm :: "rule_form \<Rightarrow> rule_form" where
  "resetForm s =
     (let s = s\<lparr>form := (form s)\<lparr>protocol := lit ''tcp'', sourceAddresses := [(IPv4, [])], sourcePort := [],
                  destinationAddress := [], destinationPorts := [[]], action := Accept\<rparr>\<rparr>;
          p = (if provider s = Firewalld \<or> provider s = Ufw then None else Some (positionalPriorityMax s))
      in resetBatch (s\<lparr>form := (form s)\<lparr>priority := p, description := []\<rparr>, editingUUID := [], editingRule := None\<rparr>))"

text \<open>\<open>a || b\<close> on texts and numbers that may be missing: the empty text and 0 count as missing.\<close>

definition or_empty :: "jstring option \<Rightarrow> jstring" where
  "or_empty v = (case v of None \<Rightarrow> [] | Some w \<Rightarrow> w)"

definition or_number :: "int option \<Rightarrow> int option \<Rightarrow> int option" where
  "or_number a b = (if a = None \<or> a = Some 0 then b else a)"

definition load_rule :: "inventory_item \<Rightarrow> jstring \<Rightarrow> rule_form \<Rightarrow> rule_form" where
  "load_rule item uuid s =
     (let r = inv_rule item; position = or_number (inv_position item) (r_orderIndex r);
          family = sc_family (r_scope r);
          s = s\<lparr>editingUUID := uuid,
                editingRule := Some (r\<lparr>r_orderIndex := (if provider s = Firewalld then None else position)\<rparr>),
                form := (form s)\<lparr>
                  protocol := (if provider s = Ufw \<and> r_protocol r = lit ''all'' \<and> or_empty (r_destinationPort r) \<noteq> []
                               then lit ''tcp/udp'' else r_protocol r),
                  sourceAddresses := [(family, formatHostAddress (r_sourceAddress r) (Some family))],
                  sourcePort := or_empty (r_sourcePort r),
                  destinationAddress := formatHostAddress (r_destinationAddress r) (Some family),
                  destinationPorts := [or_empty (r_destinationPort r)],
                  action := (if r_action r = Reject then Drop else r_action r)\<rparr>\<rparr>
      in s\<lparr>form := (form s)\<lparr>
             priority := (if provider s = Firewalld then r_priority r
                          else or_number position (Some (positionalPriorityMax s))),
             description := or_empty (r_description r)\<rparr>\<rparr>)"

definition acceptParams ::
  "provider \<Rightarrow> inventory_item option \<Rightarrow> (family \<Rightarrow> (int \<times> int) option) \<Rightarrow> bool \<Rightarrow> rule_form \<Rightarrow> rule_form" where
  "acceptParams p item ranges supported s =
     (let uuid = (case item of None \<Rightarrow> [] | Some i \<Rightarrow> or_empty (inv_uuid i));
          s = resetForm (s\<lparr>provider := p, firewalldPrioritySupported := supported, positionRanges := ranges,
                           edit_mode := (uuid \<noteq> [])\<rparr>);
          s = (case item of None \<Rightarrow> s | Some i \<Rightarrow> if uuid \<noteq> [] then load_rule i uuid s else s)
      in s\<lparr>drawerVisible := True\<rparr>)"

definition handleClose :: "rule_form \<Rightarrow> rule_form" where
  "handleClose s = resetBatch (s\<lparr>drawerVisible := False, edit_mode := False\<rparr>)"

text \<open>The watchers of the two bounds and of the form, after a step from \<open>old\<close>.\<close>

definition watchers :: "rule_form \<Rightarrow> rule_form \<Rightarrow> rule_form" where
  "watchers old s =
     (let hi = priorityMax s; lo = priorityMin s;
          s = (case priority (form s) of
                 Some p \<Rightarrow> if hi \<noteq> priorityMax old \<and> p > hi then s\<lparr>form := (form s)\<lparr>priority := Some hi\<rparr>\<rparr> else s
               | None \<Rightarrow> s);
          s = (case priority (form s) of
                 Some p \<Rightarrow> if lo \<noteq> priorityMin old \<and> p < lo then s\<lparr>form := (form s)\<lparr>priority := Some lo\<rparr>\<rparr> else s
               | None \<Rightarrow> s)
      in if form s \<noteq> form old \<and> checkCompleted s
         then s\<lparr>checkCompleted := False, previewRules := [], batchPlans := []\<rparr> else s)"

section \<open>Checking and submitting\<close>

definition finish :: "rule_form \<Rightarrow> form_state \<Rightarrow> form_state" where
  "finish s st = st\<lparr>fs := s\<lparr>loading := False\<rparr>, pending := Idle\<rparr>"

definition send :: "request \<Rightarrow> pending \<Rightarrow> rule_form \<Rightarrow> form_state \<Rightarrow> form_state" where
  "send r p s st = st\<lparr>fs := s, pending := p, sent := sent st @ [r]\<rparr>"

definition checkRules :: "rule_form \<Rightarrow> form_state \<Rightarrow> form_state" where
  "checkRules s st =
     (case prepareRulesFromForm s of
        (s, Inr True) \<Rightarrow>
          if edit_mode s \<and> editingUUID s \<noteq> [] then
            send (CheckRules [(Some (editingUUID s), hd (previewRules s))]) CheckingEdit s st
          else
            send (CheckRules (map (\<lambda>r. (None, r)) (previewRules s))) CheckingBatch
              (s\<lparr>checkCompleted := False, batchPlans := []\<rparr>) st
      | (s, _) \<Rightarrow> finish s st)"

definition plan_resolution :: "fw_rule plan \<Rightarrow> check_action option" where
  "plan_resolution p =
     (if ruleCheckStatus p = Creatable then find (\<lambda>a. a \<noteq> SelectAdopt) (availableResolutions p) else None)"

definition prepareBatchPlans :: "fw_rule plan list \<Rightarrow> rule_form \<Rightarrow> rule_form" where
  "prepareBatchPlans results s =
     (if length results \<noteq> length (previewRules s) then say ''commons.msg.operationFailed'' s
      else s\<lparr>batchPlans := batchPlans s @
               map2 (\<lambda>r p. \<lparr>bp_rule = r, bp_plan = p, bp_resolution = plan_resolution p\<rparr>) (previewRules s) results,
             previewRules := map requestedRule results, checkCompleted := True, previewVisible := True\<rparr>)"

definition edit_checked :: "fw_rule plan \<Rightarrow> rule_form \<Rightarrow> rule_form" where
  "edit_checked p s =
     s\<lparr>previewRules := [requestedRule p],
       batchPlans := [\<lparr>bp_rule = requestedRule p, bp_plan = p, bp_resolution = None\<rparr>],
       checkCompleted := True, previewVisible := True\<rparr>"

text \<open>The answer to a check; \<open>None\<close> when the request fails.\<close>

definition check_answer :: "fw_rule plan list option \<Rightarrow> form_state \<Rightarrow> form_state" where
  "check_answer answer st =
     (case pending st of
        CheckingEdit \<Rightarrow>
          finish (case answer of Some (p # _) \<Rightarrow> edit_checked p (fs st) | _ \<Rightarrow> fs st) st
      | CheckingBatch \<Rightarrow>
          finish (case answer of Some results \<Rightarrow> prepareBatchPlans results (fs st) | None \<Rightarrow> fs st) st
      | _ \<Rightarrow> st)"

fun create_items :: "plan_item list \<Rightarrow> fw_rule create_item list option" where
  "create_items [] = Some []"
| "create_items (b # bs) =
     (if ruleCheckStatus (bp_plan b) = Existing then create_items bs
      else case bp_resolution b of
        None \<Rightarrow> None
      | Some a \<Rightarrow>
          if a \<in> set (availableResolutions (bp_plan b)) then
            map_option (\<lambda>items. \<lparr>item_rule = requestedRule (bp_plan b), item_flag = checkFlag (bp_plan b),
              item_action = a, adoptInstanceKey = None, imported = False\<rparr> # items) (create_items bs)
          else None)"

definition executeBatchPlans :: "rule_form \<Rightarrow> form_state \<Rightarrow> form_state" where
  "executeBatchPlans s st =
     (if hasBlockingRules s then finish (say ''firewall.ruleCheckBlockedHelper'' s) st
      else case create_items (batchPlans s) of
        None \<Rightarrow> finish (say ''commons.msg.operationFailed'' s) st
      | Some items \<Rightarrow>
          if items = [] then finish (say ''firewall.allRulesAlreadyExist'' (s\<lparr>drawerVisible := False\<rparr>)) st
          else send (CreateRules items) Creating s st)"

definition create_answered :: "create_answer option \<Rightarrow> form_state \<Rightarrow> form_state" where
  "create_answered answer st =
     (case (pending st, answer) of
        (Creating, Some a) \<Rightarrow>
          let st = st\<lparr>searches := searches st + (if succeeded a > 0 then 1 else 0)\<rparr> in
          if answer_failed a > 0 \<or> skipped a > 0 then finish (say ''error dialog'' (fs st)) st
          else finish (say ''commons.msg.operationSuccess'' ((fs st)\<lparr>drawerVisible := False\<rparr>)) st
      | (Creating, None) \<Rightarrow> finish (fs st) st
      | _ \<Rightarrow> st)"

definition executeEdit :: "rule_form \<Rightarrow> form_state \<Rightarrow> form_state" where
  "executeEdit s st =
     (if editingUUID s = [] \<or> previewRules s = [] then finish s st
      else if hasBlockingRules s then finish (say ''firewall.ruleCheckBlockedHelper'' s) st
      else
        let updated = hd (previewRules s);
            changed = (case editingRule s of None \<Rightarrow> [] | Some r \<Rightarrow> changedFieldLabels r updated)
        in if changed = [] then finish (s\<lparr>drawerVisible := False\<rparr>) st
           else st\<lparr>fs := s, pending := Confirming updated\<rparr>)"

definition confirm_answer :: "bool \<Rightarrow> form_state \<Rightarrow> form_state" where
  "confirm_answer yes st =
     (case pending st of
        Confirming r \<Rightarrow>
          if yes then send (UpdateRule (editingUUID (fs st)) r) Updating (fs st) st else finish (fs st) st
      | _ \<Rightarrow> st)"

definition update_answered :: "bool \<Rightarrow> form_state \<Rightarrow> form_state" where
  "update_answered ok st =
     (if pending st = Updating then
        (if ok then finish (say ''commons.msg.operationSuccess'' ((fs st)\<lparr>drawerVisible := False\<rparr>))
                 (st\<lparr>searches := searches st + 1\<rparr>)
         else finish (fs st) st)
      else st)"

definition onCheckOrSubmit :: "form_state \<Rightarrow> form_state" where
  "onCheckOrSubmit st =
     (if loading (fs st) then st
      else
        let s = (fs st)\<lparr>loading := True\<rparr> in
        if showingPreview s then (if edit_mode s then executeEdit s st else executeBatchPlans s st)
        else checkRules s st)"

section \<open>Steps\<close>

datatype event =
    Open provider "inventory_item option" "family \<Rightarrow> (int \<times> int) option" bool
  | CloseDrawer
  | BackToForm
  | Type rule_values
  | AddAddress | EnterAddress nat | RemoveAddress nat
  | AddPort | EnterPort nat | RemovePort nat
  | ChangeProtocol
  | Click
  | CheckAnswer "fw_rule plan list option"
  | ConfirmAnswer bool
  | UpdateAnswer bool
  | CreateAnswer "create_answer option"

text \<open>The button is in the drawer, so a click needs it open.\<close>

definition handle :: "form_state \<Rightarrow> event \<Rightarrow> form_state" where
  "handle st e =
     (let on = (\<lambda>f. st\<lparr>fs := f (fs st)\<rparr>) in
      case e of
        Open p item ranges supported \<Rightarrow> on (acceptParams p item ranges supported)
      | CloseDrawer \<Rightarrow> on handleClose
      | BackToForm \<Rightarrow> on resetBatch
      | Type v \<Rightarrow> on (\<lambda>s. s\<lparr>form := v\<rparr>)
      | AddAddress \<Rightarrow> on addSourceAddress
      | EnterAddress i \<Rightarrow> on (addSourceAddressOnEnter i)
      | RemoveAddress i \<Rightarrow> on (removeSourceAddress i)
      | AddPort \<Rightarrow> on addRuleRow
      | EnterPort i \<Rightarrow> on (addDestinationPortOnEnter i)
      | RemovePort i \<Rightarrow> on (removeRuleRow i)
      | ChangeProtocol \<Rightarrow> on changeProtocol
      | Click \<Rightarrow> if drawerVisible (fs st) then onCheckOrSubmit st else st
      | CheckAnswer answer \<Rightarrow> check_answer answer st
      | ConfirmAnswer yes \<Rightarrow> confirm_answer yes st
      | UpdateAnswer ok \<Rightarrow> update_answered ok st
      | CreateAnswer answer \<Rightarrow> create_answered answer st)"

definition form_step :: "form_state \<Rightarrow> event \<Rightarrow> form_state" where
  "form_step st e = (let st' = handle st e in st'\<lparr>fs := watchers (fs st) (fs st')\<rparr>)"

definition initial_form :: rule_form where
  "initial_form =
     \<lparr>provider = Iptables, edit_mode = False, editingUUID = [], editingRule = None, drawerVisible = False,
      loading = False, previewRules = [], previewVisible = False, checkCompleted = False,
      positionRanges = (\<lambda>_. None), firewalldPrioritySupported = True, batchPlans = [],
      form = \<lparr>protocol = lit ''tcp'', sourceAddresses = [(IPv4, [])], sourcePort = [],
        destinationAddress = [], destinationPorts = [[]], action = Accept, priority = None, description = []\<rparr>,
      messages = []\<rparr>"

definition initial_state :: form_state where
  "initial_state = \<lparr>fs = initial_form, pending = Idle, sent = [], searches = 0\<rparr>"

end
