(* ===== verification/RuleFormSafety.thy ===== *)
theory RuleFormSafety
  imports RuleFormSteps "HOL-Library.Code_Target_Nat"
begin

text \<open>
  What the rule form sends, in whatever order the user and the server act: only what a check
  has answered for, never around a refusal, and where it goes wrong.
\<close>

section \<open>Creating\<close>

definition plans_ok :: "rule_form \<Rightarrow> bool" where
  "plans_ok s \<longleftrightarrow> (\<forall>b \<in> set (batchPlans s). bp_resolution b = None \<or> bp_resolution b = plan_resolution (bp_plan b))"

lemma form_ops_plans [simp]:
  "batchPlans (set_sources xs s) = batchPlans s" "batchPlans (set_ports ps s) = batchPlans s"
  "batchPlans (say m s) = batchPlans s" "batchPlans (addSourceAddress s) = batchPlans s"
  "batchPlans (addSourceAddressOnEnter i s) = batchPlans s" "batchPlans (removeSourceAddress i s) = batchPlans s"
  "batchPlans (addRuleRow s) = batchPlans s" "batchPlans (addDestinationPortOnEnter i s) = batchPlans s"
  "batchPlans (removeRuleRow i s) = batchPlans s" "batchPlans (changeProtocol s) = batchPlans s"
  "batchPlans (resetBatch s) = []" "batchPlans (handleClose s) = []" "batchPlans (acceptParams p item rs b s) = []"
  by (simp_all add: set_sources_def set_ports_def say_def addSourceAddress_def addSourceAddressOnEnter_def
      removeSourceAddress_def addRuleRow_def addDestinationPortOnEnter_def removeRuleRow_def changeProtocol_def
      resetBatch_def handleClose_def acceptParams_def resetForm_def load_rule_def Let_def split: option.splits)

lemma normalize_plans:
  "normalizeSourceAddresses s = (s', b) \<Longrightarrow> batchPlans s' = batchPlans s"
  "normalizeDestinationPorts s = (s', r) \<Longrightarrow> batchPlans s' = batchPlans s"
  by (auto simp: normalizeSourceAddresses_def normalizeDestinationPorts_def Let_def split: if_splits sum.splits)

lemma prepare_plans: "prepareRulesFromForm s = (s', r) \<Longrightarrow> batchPlans s' = batchPlans s"
  by (auto simp: prepareRulesFromForm_def buildPreviewRules_def Let_def dest!: normalize_plans
      split: if_splits prod.splits sum.splits bool.splits)

lemma watchers_plans: "batchPlans (watchers old s) = batchPlans s \<or> batchPlans (watchers old s) = []"
  by (simp add: watchers_def Let_def split: option.splits)

lemma plans_ok_cong: "batchPlans s' = batchPlans s \<or> batchPlans s' = [] \<Longrightarrow> plans_ok s \<Longrightarrow> plans_ok s'"
  by (auto simp: plans_ok_def)

lemma plans_ok_prepared: "plans_ok s \<Longrightarrow> plans_ok (prepareBatchPlans results s)"
  by (auto simp: plans_ok_def prepareBatchPlans_def set_zip)

lemma handle_plans: "plans_ok (fs st) \<Longrightarrow> plans_ok (fs (handle st e))"
proof (cases e)
  case Click
  assume ok: "plans_ok (fs st)"
  let ?s = "(fs st)\<lparr>loading := True\<rparr>"
  have b: "batchPlans (fs (executeEdit ?s st)) = batchPlans (fs st)"
    "batchPlans (fs (executeBatchPlans ?s st)) = batchPlans (fs st)"
    by (auto simp: executeEdit_def executeBatchPlans_def finish_def send_def Let_def split: option.splits)
  obtain s r where p: "prepareRulesFromForm ?s = (s, r)" by fastforce
  then have "batchPlans (fs (checkRules ?s st)) \<in> {batchPlans (fs st), []}"
    using prepare_plans [OF p]
    by (auto simp: checkRules_def finish_def send_def split: sum.splits bool.splits)
  with b ok show ?thesis unfolding Click handle_def onCheckOrSubmit_def Let_def
    by (auto intro: plans_ok_cong)
next
  case (CheckAnswer answer)
  assume ok: "plans_ok (fs st)"
  have "plans_ok (edit_checked p (fs st))" for p by (simp add: plans_ok_def edit_checked_def)
  then show ?thesis unfolding CheckAnswer
    using ok plans_ok_prepared [OF ok]
    by (auto simp: handle_def check_answer_def finish_def plans_ok_def Let_def split: pending.splits option.splits list.splits)
qed (auto simp: handle_def plans_ok_def confirm_answer_def update_answered_def create_answered_def finish_def send_def
    Let_def split: pending.splits option.splits)

interpretation form_plans: step_system form_step "\<lambda>st. plans_ok (fs st)"
proof
  fix st :: form_state and e
  assume "plans_ok (fs st)"
  then show "plans_ok (fs (form_step st e))"
    using plans_ok_cong [OF watchers_plans handle_plans]
    by (simp add: form_step_def Let_def)
qed

lemma plan_resolution_action:
  "plan_resolution p = Some a \<Longrightarrow> a \<in> set (allowedActions p) \<and> a \<in> {Create, Adopt}"
  by (cases a) (auto simp: plan_resolution_def availableResolutions_def find_Some_iff split: if_splits dest!: nth_mem)

lemma create_items_Some:
  assumes "create_items bs = Some items" "\<forall>b \<in> set bs. ruleCheckStatus (bp_plan b) \<noteq> Erroneous"
    and "\<forall>b \<in> set bs. bp_resolution b = None \<or> bp_resolution b = plan_resolution (bp_plan b)"
  shows "list_all2 (\<lambda>i p. item_rule i = requestedRule p \<and> item_flag i = checkFlag p \<and>
      item_action i \<in> set (allowedActions p) \<and> item_action i \<in> {Create, Adopt})
    items (filter (\<lambda>p. ruleCheckStatus p = Creatable) (map bp_plan bs))"
  using assms
proof (induction bs arbitrary: items)
  case (Cons b bs)
  show ?case
  proof (cases "ruleCheckStatus (bp_plan b) = Existing")
    case False
    with Cons.prems(2) have c: "ruleCheckStatus (bp_plan b) = Creatable" by (cases "ruleCheckStatus (bp_plan b)") auto
    from Cons.prems(1) False obtain a rest where a: "bp_resolution b = Some a" "create_items bs = Some rest"
      "items = \<lparr>item_rule = requestedRule (bp_plan b), item_flag = checkFlag (bp_plan b),
         item_action = a, adoptInstanceKey = None, imported = False\<rparr> # rest"
      by (auto split: option.splits if_splits)
    moreover have "plan_resolution (bp_plan b) = Some a" using Cons.prems(3) a(1) by auto
    ultimately show ?thesis using c Cons plan_resolution_action by auto
  qed (use Cons in auto)
qed simp

lemma creates_by_click:
  assumes "sent (form_step st e) = sent st @ [CreateRules items]"
  shows "\<not> hasBlockingRules (fs st) \<and> create_items (batchPlans (fs st)) = Some items \<and> items \<noteq> [] \<and>
    e = Click \<and> drawerVisible (fs st) \<and> \<not> loading (fs st) \<and> showingPreview (fs st) \<and> \<not> edit_mode (fs st)"
proof (cases "e = Click \<and> drawerVisible (fs st) \<and> \<not> loading (fs st)")
  case True
  let ?s = "(fs st)\<lparr>loading := True\<rparr>"
  have "sent (checkRules ?s st) \<noteq> sent st @ [CreateRules items]"
    by (auto simp: checkRules_def finish_def send_def split: prod.splits sum.splits bool.splits)
  moreover have "sent (executeEdit ?s st) \<noteq> sent st @ [CreateRules items]"
    by (simp add: executeEdit_def finish_def Let_def)
  ultimately have "sent (executeBatchPlans ?s st) = sent st @ [CreateRules items]"
    and "showingPreview (fs st) \<and> \<not> edit_mode (fs st)"
    using assms True
    by (auto simp: form_step_def handle_def onCheckOrSubmit_def showingPreview_def Let_def split: if_splits)
  with True show ?thesis
    by (auto simp: executeBatchPlans_def hasBlockingRules_def ruleCheckCounts_def finish_def send_def split: if_splits option.splits)
next
  case False
  with assms show ?thesis
    by (cases e) (auto simp: form_step_def handle_def onCheckOrSubmit_def check_answer_def confirm_answer_def update_answered_def
        create_answered_def finish_def send_def Let_def split: if_splits pending.splits option.splits)
qed

text \<open>C7: Rules are created only by a click on the button of an open drawer that waits for no answer and shows the
  result of a check, not of an edit, with no blocked rule in it; and then exactly those the check called creatable,
  in order, each with the flag of its own plan and an action that plan allows; rules that exist already are left
  out.\<close>

theorem form_creates_checked:
  assumes "st = foldl form_step initial_state es" "sent (form_step st e) = sent st @ [CreateRules items]"
  shows "e = Click \<and> drawerVisible (fs st) \<and> \<not> loading (fs st) \<and> \<not> edit_mode (fs st) \<and>
    previewVisible (fs st) \<and> previewRules (fs st) \<noteq> [] \<and>
    items \<noteq> [] \<and> (\<forall>b \<in> set (batchPlans (fs st)). decision (bp_plan b) \<noteq> Blocked) \<and>
    list_all2 (\<lambda>i p. item_rule i = requestedRule p \<and> item_flag i = checkFlag p \<and>
        item_action i \<in> set (allowedActions p) \<and> item_action i \<in> {Create, Adopt})
      items (filter (\<lambda>p. ruleCheckStatus p = Creatable) (map bp_plan (batchPlans (fs st))))"
proof -
  note c = creates_by_click [OF assms(2)]
  have e: "\<forall>b \<in> set (batchPlans (fs st)). ruleCheckStatus (bp_plan b) \<noteq> Erroneous"
    using c by (auto simp: hasBlockingRules_def ruleCheckCounts_def filter_empty_conv)
  then have "\<forall>b \<in> set (batchPlans (fs st)). decision (bp_plan b) \<noteq> Blocked" by (auto simp: ruleCheckStatus_def)
  moreover have "plans_ok (fs st)"
    unfolding assms(1) by (rule form_plans.run_inv) (simp add: plans_ok_def initial_state_def initial_form_def)
  ultimately show ?thesis using c e create_items_Some [of "batchPlans (fs st)" items]
    by (auto simp: plans_ok_def showingPreview_def)
qed

section \<open>Editing\<close>

text \<open>The rules of the last check, and that every update is for the rule checked last.\<close>

fun last_check :: "jstring option list \<Rightarrow> request list \<Rightarrow> jstring option list" where
  "last_check c [] = c"
| "last_check c (CheckRules xs # rs) = last_check (map fst xs) rs"
| "last_check c (_ # rs) = last_check c rs"

fun updates_checked :: "jstring option list \<Rightarrow> request list \<Rightarrow> bool" where
  "updates_checked c [] = True"
| "updates_checked c (CheckRules xs # rs) = updates_checked (map fst xs) rs"
| "updates_checked c (CreateRules items # rs) = updates_checked c rs"
| "updates_checked c (UpdateRule u r # rs) = (c = [Some u] \<and> updates_checked c rs)"

lemma last_check_append: "last_check c (rs @ [x]) = (case x of CheckRules xs \<Rightarrow> map fst xs | _ \<Rightarrow> last_check c rs)"
  by (induction c rs rule: last_check.induct) (auto split: request.splits)

lemma updates_checked_append:
  "updates_checked c (rs @ [x]) \<longleftrightarrow>
     updates_checked c rs \<and> (case x of UpdateRule u r \<Rightarrow> last_check c rs = [Some u] | _ \<Rightarrow> True)"
  by (induction c rs rule: updates_checked.induct) (auto split: request.splits)

definition uuid_checked :: "form_state \<Rightarrow> bool" where
  "uuid_checked st \<longleftrightarrow> last_check [] (sent st) = [Some (editingUUID (fs st))]"

definition edit_inv :: "form_state \<Rightarrow> bool" where
  "edit_inv st \<longleftrightarrow> updates_checked [] (sent st) \<and> (loading (fs st) \<longleftrightarrow> pending st \<noteq> Idle) \<and>
     (edit_mode (fs st) \<longrightarrow> editingUUID (fs st) \<noteq> []) \<and>
     (edit_mode (fs st) \<longrightarrow> pending st \<noteq> CheckingBatch) \<and>
     (edit_mode (fs st) \<and> previewVisible (fs st) \<longrightarrow> uuid_checked st) \<and>
     (case pending st of CheckingEdit \<Rightarrow> uuid_checked st | Confirming _ \<Rightarrow> uuid_checked st | _ \<Rightarrow> True)"

text \<open>What most operations leave alone.\<close>

definition session :: "rule_form \<Rightarrow> bool \<times> jstring \<times> bool \<times> bool" where
  "session s = (edit_mode s, editingUUID s, loading s, previewVisible s)"

lemma form_ops_session [simp]:
  "session (set_sources xs s) = session s" "session (set_ports ps s) = session s" "session (say m s) = session s"
  "session (addSourceAddress s) = session s" "session (addSourceAddressOnEnter i s) = session s"
  "session (removeSourceAddress i s) = session s" "session (addRuleRow s) = session s"
  "session (addDestinationPortOnEnter i s) = session s" "session (removeRuleRow i s) = session s"
  "session (changeProtocol s) = session s" "session (watchers old s) = session s"
  by (simp_all add: session_def set_sources_def set_ports_def say_def addSourceAddress_def addSourceAddressOnEnter_def
      removeSourceAddress_def addRuleRow_def addDestinationPortOnEnter_def removeRuleRow_def changeProtocol_def
      watchers_def Let_def split: option.splits)

lemma normalize_session:
  "normalizeSourceAddresses s = (s', b) \<Longrightarrow> session s' = session s"
  "normalizeDestinationPorts s = (s', r) \<Longrightarrow> session s' = session s"
  by (auto simp: normalizeSourceAddresses_def normalizeDestinationPorts_def Let_def split: if_splits sum.splits)

lemma session_preview [simp]: "session (s\<lparr>previewRules := rs\<rparr>) = session s" "session (s\<lparr>form := v\<rparr>) = session s"
  by (simp_all add: session_def)

lemma prepare_session: "prepareRulesFromForm s = (s', r) \<Longrightarrow> session s' = session s"
  by (auto simp: prepareRulesFromForm_def buildPreviewRules_def Let_def dest!: normalize_session
      split: if_splits prod.splits sum.splits bool.splits)

lemma edit_inv_session:
  "session s = session (fs st) \<Longrightarrow> edit_inv (st\<lparr>fs := s\<rparr>) = edit_inv st"
  by (simp add: edit_inv_def session_def uuid_checked_def cong: pending.case_cong)

lemma loading_simps [simp]: "edit_mode (say m s) = edit_mode s" "editingUUID (say m s) = editingUUID s"
  "loading (say m s) = loading s" "previewVisible (say m s) = previewVisible s"
  by (simp_all add: say_def)

lemma open_session:
  "\<not> loading s \<Longrightarrow> session (acceptParams p item rs b s) = (uuid \<noteq> [], uuid, False, False)"
  if "uuid = (case item of None \<Rightarrow> [] | Some i \<Rightarrow> or_empty (inv_uuid i))"
  using that by (auto simp: session_def acceptParams_def resetForm_def resetBatch_def load_rule_def Let_def
      split: option.splits)

lemma check_inv:
  assumes "edit_inv st" "\<not> loading (fs st)"
  shows "edit_inv (checkRules ((fs st)\<lparr>loading := True\<rparr>) st)"
proof -
  obtain s r where p: "prepareRulesFromForm ((fs st)\<lparr>loading := True\<rparr>) = (s, r)" by fastforce
  have "session s = (edit_mode (fs st), editingUUID (fs st), True, previewVisible (fs st))"
    using prepare_session [OF p] by (simp add: session_def)
  then show ?thesis using assms p
    by (auto simp: checkRules_def edit_inv_def session_def finish_def send_def uuid_checked_def updates_checked_append
        last_check_append split: sum.splits bool.splits)
qed

lemma submit_inv:
  assumes "edit_inv st" "\<not> loading (fs st)" "showingPreview (fs st)"
  shows "edit_mode (fs st) \<Longrightarrow> edit_inv (executeEdit ((fs st)\<lparr>loading := True\<rparr>) st)"
    and "\<not> edit_mode (fs st) \<Longrightarrow> edit_inv (executeBatchPlans ((fs st)\<lparr>loading := True\<rparr>) st)"
  using assms
  by (auto simp: executeEdit_def executeBatchPlans_def edit_inv_def uuid_checked_def finish_def send_def showingPreview_def
      updates_checked_append last_check_append Let_def split: option.splits)

lemma answer_inv:
  assumes "edit_inv st"
  shows "edit_inv (check_answer a st)" "edit_inv (confirm_answer b st)" "edit_inv (update_answered b st)"
    "edit_inv (create_answered c st)"
  using assms
  by (auto simp: check_answer_def confirm_answer_def update_answered_def create_answered_def edit_inv_def uuid_checked_def
      finish_def send_def prepareBatchPlans_def edit_checked_def updates_checked_append last_check_append Let_def
      split: pending.splits option.splits list.splits)

lemma handle_inv:
  assumes inv: "edit_inv st" and careful: "\<And>p item rs b. e = Open p item rs b \<Longrightarrow> \<not> loading (fs st)"
  shows "edit_inv (handle st e)"
proof (cases e)
  case (Open p item rs b)
  define uuid where "uuid = (case item of None \<Rightarrow> [] | Some i \<Rightarrow> or_empty (inv_uuid i))"
  have "session (acceptParams p item rs b (fs st)) = (uuid \<noteq> [], uuid, False, False)"
    using open_session [OF uuid_def] careful [OF Open] by simp
  then show ?thesis using inv careful [OF Open]
    by (auto simp: Open handle_def edit_inv_def session_def split: pending.splits)
next
  case Click
  then show ?thesis using inv check_inv [OF inv] submit_inv [OF inv]
    by (auto simp: handle_def onCheckOrSubmit_def Let_def showingPreview_def)
next
  case CloseDrawer
  then show ?thesis using inv
    by (auto simp: handle_def edit_inv_def handleClose_def resetBatch_def uuid_checked_def split: pending.splits)
next
  case BackToForm
  then show ?thesis using inv
    by (auto simp: handle_def edit_inv_def resetBatch_def uuid_checked_def split: pending.splits)
qed (use inv in \<open>simp_all add: handle_def Let_def answer_inv edit_inv_session\<close>)

lemma step_inv: 
  assumes "edit_inv st" "\<And>p item rs b. e = Open p item rs b \<Longrightarrow> \<not> loading (fs st)"
  shows "edit_inv (form_step st e)"
  using handle_inv [OF assms] edit_inv_session [of "watchers (fs st) (fs (handle st e))" "handle st e"]
  by (simp add: form_step_def Let_def)

text \<open>Runs in which the drawer is never opened anew before an answer has come.\<close>

fun careful :: "form_state \<Rightarrow> event list \<Rightarrow> bool" where
  "careful st [] = True"
| "careful st (e # es) =
     ((case e of Open p item rs b \<Rightarrow> \<not> loading (fs st) | _ \<Rightarrow> True) \<and> careful (form_step st e) es)"

lemma careful_inv: "edit_inv st \<Longrightarrow> careful st es \<Longrightarrow> edit_inv (foldl form_step st es)"
proof (induction es arbitrary: st)
  case (Cons e es)
  have "edit_inv (form_step st e)" using Cons.prems by (intro step_inv) auto
  with Cons show ?case by simp
qed simp

text \<open>C12: As long as nobody opens the drawer for another rule while an answer is outstanding, every update goes to the
  rule whose check was made last.\<close>

theorem form_update_checked:
  assumes "careful initial_state es"
  shows "updates_checked [] (sent (foldl form_step initial_state es))"
proof -
  have "edit_inv initial_state" by (simp add: edit_inv_def initial_state_def initial_form_def)
  then show ?thesis using careful_inv [OF _ assms] by (simp add: edit_inv_def)
qed

section \<open>Runs\<close>

definition sample_rule :: "jstring \<Rightarrow> jstring \<Rightarrow> fw_rule" where
  "sample_rule uuid source =
     \<lparr>r_uuid = Some uuid,
      r_scope = \<lparr>sc_provider = Nftables, sc_family = IPv6, sc_table = None, sc_zone = None, sc_chain = None\<rparr>,
      r_nativeKind = None, r_protocol = lit ''all'', r_sourceAddress = Some source, r_sourcePort = None,
      r_destinationAddress = None, r_destinationPort = None, r_interface = None, r_connectionStates = None,
      r_action = Accept, r_priority = None, r_orderIndex = Some 1, r_orderBucket = None, r_description = None\<rparr>"

definition sample_item :: "jstring \<Rightarrow> jstring \<Rightarrow> inventory_item" where
  "sample_item uuid source = \<lparr>inv_rule = sample_rule uuid source, inv_uuid = Some uuid, inv_position = Some 1\<rparr>"

definition sample_plan :: "fw_rule \<Rightarrow> fw_rule plan" where
  "sample_plan r =
     \<lparr>decision = PlanReady, classification = NoMatch, reason = [], requestedRule = r, candidates = [],
      allowedActions = [Create], checkFlag = lit ''f''\<rparr>"

text \<open>The drawer can be left while a check is on its way, and opened for another rule; the late answer then shows the
  first rule in the drawer of the second, and confirming it overwrites the second rule with the first.\<close>

theorem stale_check_overwrites_rule:
  "\<exists>es. sent (foldl form_step initial_state es) =
     [CheckRules [(Some (lit ''a''), (sample_rule (lit ''a'') (lit ''::1''))
        \<lparr>r_scope := \<lparr>sc_provider = Nftables, sc_family = IPv6, sc_table = Some (lit ''filter''), sc_zone = None,
            sc_chain = Some (lit ''WORKMESH_BASIC'')\<rparr>,
         r_sourcePort := Some [], r_destinationAddress := Some [], r_destinationPort := Some [],
         r_description := Some []\<rparr>)],
      UpdateRule (lit ''b'') (sample_rule (lit ''a'') (lit ''::1''))]"
proof
  show "sent (foldl form_step initial_state
     [Open Nftables (Some (sample_item (lit ''a'') (lit ''::1''))) (\<lambda>_. Some (1, 9)) True, Click, CloseDrawer,
      Open Nftables (Some (sample_item (lit ''b'') (lit ''::2''))) (\<lambda>_. Some (1, 9)) True,
      CheckAnswer (Some [sample_plan (sample_rule (lit ''a'') (lit ''::1''))]), Click, ConfirmAnswer True]) =
     [CheckRules [(Some (lit ''a''), (sample_rule (lit ''a'') (lit ''::1''))
        \<lparr>r_scope := \<lparr>sc_provider = Nftables, sc_family = IPv6, sc_table = Some (lit ''filter''), sc_zone = None,
            sc_chain = Some (lit ''WORKMESH_BASIC'')\<rparr>,
         r_sourcePort := Some [], r_destinationAddress := Some [], r_destinationPort := Some [],
         r_description := Some []\<rparr>)],
      UpdateRule (lit ''b'') (sample_rule (lit ''a'') (lit ''::1''))]"
    by code_simp
qed

definition create_run :: "event list" where
  "create_run =
     [Open Nftables None (\<lambda>_. Some (1, 9)) True,
      Type \<lparr>protocol = lit ''all'', sourceAddresses = [(IPv4, lit ''::1'')], sourcePort = [], destinationAddress = [],
        destinationPorts = [[]], action = Accept, priority = Some 1, description = []\<rparr>,
      Click, CheckAnswer (Some [sample_plan (sample_rule [] (lit ''::1''))])]"

definition created_item :: "fw_rule create_item" where
  "created_item =
     \<lparr>item_rule = sample_rule [] (lit ''::1''), item_flag = lit ''f'', item_action = Create,
      adoptInstanceKey = None, imported = False\<rparr>"

lemma create_run_sent:
  "sent (form_step (foldl form_step initial_state create_run) Click) =
     sent (foldl form_step initial_state create_run) @ [CreateRules [created_item]]"
  by code_simp

theorem form_creates_checked_witness:
  "list_all2 (\<lambda>i p. item_rule i = requestedRule p \<and> item_flag i = checkFlag p \<and>
        item_action i \<in> set (allowedActions p) \<and> item_action i \<in> {Create, Adopt})
      [created_item] (filter (\<lambda>p. ruleCheckStatus p = Creatable)
        (map bp_plan (batchPlans (fs (foldl form_step initial_state create_run)))))"
  using form_creates_checked [OF refl create_run_sent] by blast

definition edit_run :: "event list" where
  "edit_run =
     [Open Nftables (Some (sample_item (lit ''a'') (lit ''::1''))) (\<lambda>_. Some (1, 9)) True, Click,
      CheckAnswer (Some [sample_plan (sample_rule (lit ''a'') (lit ''::2''))]), Click, ConfirmAnswer True,
      UpdateAnswer True]"

lemma edit_run_careful:
  "careful initial_state edit_run \<and>
   map (\<lambda>r. case r of UpdateRule u q \<Rightarrow> u | _ \<Rightarrow> []) (sent (foldl form_step initial_state edit_run)) = [[], lit ''a'']"
  by code_simp

theorem form_update_checked_witness:
  "updates_checked [] (sent (foldl form_step initial_state edit_run)) \<and>
   map (\<lambda>r. case r of UpdateRule u q \<Rightarrow> u | _ \<Rightarrow> []) (sent (foldl form_step initial_state edit_run)) = [[], lit ''a'']"
  using form_update_checked [OF conjunct1 [OF edit_run_careful]] edit_run_careful by blast

end
