(* ===== verification/DashboardCache.thy ===== *)
theory DashboardCache
  imports JsonProps "HOL-Library.Code_Target_Nat"
begin

text \<open>
  The cache of the home page in the local storage of the browser:
  \<^verbatim>\<open>src/web/src/utils/dashboardCache.ts\<close>.  The item is one text of JSON, or missing.  The keys
  are names the pages choose, neither indices nor names every object has.  Times are whole
  milliseconds.  A value that holds a number without a text in \<open>Json\<close> is outside of the model
  (the outer \<open>None\<close> of an operation that writes).  The storage may refuse a text (its quota):
  \<open>setItem\<close> throws then, and the operation that writes removes the item.
\<close>

section \<open>Operations\<close>

type_synonym storage = "jstring option"

definition readCache :: "storage \<Rightarrow> json option" where
  "readCache raw =
     (case raw of None \<Rightarrow> Some (JObj []) | Some t \<Rightarrow> if t = [] then Some (JObj []) else JSON_parse t)"

text \<open>\<open>Boolean(x)\<close> and \<open>Number(x)\<close> of a value of JSON or of \<open>undefined\<close>; an array has the text of its elements.\<close>

fun json_true :: "json option \<Rightarrow> bool" where
  "json_true None = False"
| "json_true (Some JNull) = False"
| "json_true (Some (JBool b)) = b"
| "json_true (Some (JNum q)) = (q \<noteq> 0)"
| "json_true (Some (JStr s)) = (s \<noteq> [])"
| "json_true (Some _) = True"

fun element_number :: "json \<Rightarrow> jsnum" where
  "element_number JNull = Fin 0"
| "element_number (JNum q) = Fin q"
| "element_number (JStr s) = js_Number s"
| "element_number (JArr []) = Fin 0"
| "element_number (JArr [v]) = element_number v"
| "element_number _ = NaN"

fun json_number :: "json option \<Rightarrow> jsnum" where
  "json_number None = NaN"
| "json_number (Some (JBool b)) = Fin (if b then 1 else 0)"
| "json_number (Some v) = element_number v"

text \<open>The answer \<open>null\<close> is \<open>JNull\<close>, \<open>undefined\<close> is \<open>None\<close>.\<close>

definition getDashboardCache :: "storage \<Rightarrow> int \<Rightarrow> jstring \<Rightarrow> json option" where
  "getDashboardCache raw now key =
     (case readCache raw of
        None \<Rightarrow> Some JNull
      | Some cache \<Rightarrow>
          if \<not> json_true (Some cache) then Some JNull
          else case get_prop key cache of
            Some (Some entry) \<Rightarrow>
              if json_true (Some entry) \<and>
                 num_greater (json_number (Option.bind (get_prop (lit ''expireAt'') entry) id)) (of_int now)
              then Option.bind (get_prop (lit ''value'') entry) id
              else Some JNull
          | _ \<Rightarrow> Some JNull)"

definition cache_entry :: "json option \<Rightarrow> int \<Rightarrow> json" where
  "cache_entry v expire =
     JObj ((case v of None \<Rightarrow> [] | Some v \<Rightarrow> [(lit ''value'', v)]) @ [(lit ''expireAt'', JNum (of_int expire))])"

text \<open>\<open>setItem\<close> with \<open>JSON.stringify(cache)\<close>, and the \<open>catch\<close> around it; \<open>fits\<close> tells whether the storage
  takes the text.\<close>

definition store_cache :: "bool \<Rightarrow> json \<Rightarrow> storage option" where
  "store_cache fits cache = map_option (\<lambda>t. if fits then Some t else None) (json_text cache)"

text \<open>Assigning to a property of a number, a text, a truth value or \<open>null\<close> throws; a name given to an array is
  not printed.\<close>

definition setDashboardCache :: "bool \<Rightarrow> storage \<Rightarrow> int \<Rightarrow> jstring \<Rightarrow> json option \<Rightarrow> int \<Rightarrow> storage option" where
  "setDashboardCache fits raw now key v ttl =
     (case readCache raw of
        Some (JObj ms) \<Rightarrow> store_cache fits (JObj (obj_put key (cache_entry v (now + ttl)) ms))
      | Some (JArr vs) \<Rightarrow> store_cache fits (JArr vs)
      | _ \<Rightarrow> Some None)"

definition clearDashboardCache :: "storage \<Rightarrow> storage" where
  "clearDashboardCache raw = None"

text \<open>No key of the loop is one of an array, a text, a number or a truth value; \<open>Object.keys(null)\<close> throws.\<close>

definition clearDashboardCacheByPrefix :: "bool \<Rightarrow> storage \<Rightarrow> jstring list \<Rightarrow> storage option" where
  "clearDashboardCacheByPrefix fits raw ps =
     (if raw = None \<or> raw = Some [] then Some raw
      else case readCache raw of
        Some (JObj ms) \<Rightarrow> store_cache fits (JObj (filter (\<lambda>(k, v). \<not> list_ex (\<lambda>p. startsWith k p) ps) ms))
      | Some JNull \<Rightarrow> Some None
      | None \<Rightarrow> Some None
      | Some v \<Rightarrow> store_cache fits v)"

section \<open>The cache as a map\<close>

datatype cache_op =
    SetCache jstring json int
  | ClearCache
  | ClearPrefix "jstring list"

text \<open>An operation at a time, at a time of the clock and with the answer of the storage, on the storage and on
  the map of values and expiry times it stands for.\<close>

type_synonym timed_op = "int \<times> bool \<times> cache_op"

definition cache_step :: "storage option \<Rightarrow> timed_op \<Rightarrow> storage option" where
  "cache_step st op =
     (case st of None \<Rightarrow> None
      | Some raw \<Rightarrow>
          (case op of (now, fits, c) \<Rightarrow>
             (case c of
                SetCache k v ttl \<Rightarrow> setDashboardCache fits raw now k (Some v) ttl
              | ClearCache \<Rightarrow> Some (clearDashboardCache raw)
              | ClearPrefix ps \<Rightarrow> clearDashboardCacheByPrefix fits raw ps)))"

fun spec_step :: "(jstring \<rightharpoonup> json \<times> int) \<Rightarrow> timed_op \<Rightarrow> (jstring \<rightharpoonup> json \<times> int)" where
  "spec_step m (now, fits, SetCache k v ttl) = (if fits then m(k \<mapsto> (v, now + ttl)) else Map.empty)"
| "spec_step m (now, fits, ClearCache) = Map.empty"
| "spec_step m (now, fits, ClearPrefix ps) =
     (if fits then (\<lambda>k. if list_ex (\<lambda>p. startsWith k p) ps then None else m k) else Map.empty)"

definition spec_get :: "(jstring \<rightharpoonup> json \<times> int) \<Rightarrow> int \<Rightarrow> jstring \<Rightarrow> json option" where
  "spec_get m now k = Some (case m k of None \<Rightarrow> JNull | Some (v, e) \<Rightarrow> if now < e then v else JNull)"

text \<open>Values that have a text in the model: every number in them is whole and below $10^{21}$.\<close>

definition whole_number :: "rat \<Rightarrow> bool" where
  "whole_number q \<longleftrightarrow> q = of_int \<lfloor>q\<rfloor> \<and> \<bar>q\<bar> < 10 ^ 21"

fun whole_numbers :: "json \<Rightarrow> bool" where
  "whole_numbers (JNum q) = whole_number q"
| "whole_numbers (JArr vs) = (\<forall>v \<in> set vs. whole_numbers v)"
| "whole_numbers (JObj ms) = (\<forall>m \<in> set ms. whole_numbers (snd m))"
| "whole_numbers _ = True"

lemma opt_list_total: "\<forall>x \<in> set xs. x \<noteq> None \<Longrightarrow> opt_list xs \<noteq> None"
  by (induction xs) auto

lemma whole_text: "whole_numbers v \<Longrightarrow> json_text v \<noteq> None"
proof (induction v rule: json_text.induct)
  case (5 vs)
  then have "opt_list (map json_text vs) \<noteq> None" by (intro opt_list_total) auto
  then show ?case by simp
next
  case (6 ms)
  have "opt_list (map (\<lambda>(k, v). map_option (\<lambda>t. json_quote k @ lit '':'' @ t) (json_text v)) ms) \<noteq> None"
    using 6 by (intro opt_list_total) fastforce
  then show ?case by simp
qed (simp_all add: number_text_def whole_number_def)

lemma obj_put_whole:
  "whole_numbers (JObj ms) \<Longrightarrow> whole_numbers v \<Longrightarrow> whole_numbers (JObj (obj_put k v ms))"
  by (auto simp: obj_put_def set_obj_insert)

text \<open>The members the storage has for a map.\<close>

definition holds :: "members \<Rightarrow> (jstring \<rightharpoonup> json \<times> int) \<Rightarrow> bool" where
  "holds ms m \<longleftrightarrow> json_wf (JObj ms) \<and> whole_numbers (JObj ms) \<and>
     (\<forall>k. map_of ms k = map_option (\<lambda>(v, e). cache_entry (Some v) e) (m k))"

section \<open>The cache is the map\<close>

lemma entry_text_ne: "json_text v = Some t \<Longrightarrow> t \<noteq> []"
  using json_text_hd by blast

lemma cache_entry_wf: "json_wf v \<Longrightarrow> json_wf (cache_entry (Some v) e)"
  by (simp add: cache_entry_def comes_after_def index_key_def all_digits_def is_digit_def)

lemma cache_entry_whole:
  "whole_numbers v \<Longrightarrow> whole_number (of_int e) \<Longrightarrow> whole_numbers (cache_entry (Some v) e)"
  by (simp add: cache_entry_def)

lemma read_written:
  assumes "json_text (JObj ms) = Some t" "json_wf (JObj ms)"
  shows "readCache (Some t) = Some (JObj ms)"
  using json_round_trip [OF assms] entry_text_ne [OF assms(1)] by (simp add: readCache_def)

text \<open>The storage that stands for a map: nothing, or the text of its members.\<close>

definition cache_abs :: "storage \<Rightarrow> (jstring \<rightharpoonup> json \<times> int) \<Rightarrow> bool" where
  "cache_abs raw m \<longleftrightarrow> (\<exists>ms. readCache raw = Some (JObj ms) \<and> holds ms m)"

lemma cache_abs_get:
  assumes "cache_abs raw m"
  shows "getDashboardCache raw now k = spec_get m now k"
proof -
  obtain ms where ms: "readCache raw = Some (JObj ms)" "holds ms m" using assms by (auto simp: cache_abs_def)
  show ?thesis
  proof (cases "m k")
    case None
    with ms show ?thesis by (simp add: getDashboardCache_def spec_get_def holds_def)
  next
    case (Some ve)
    obtain v e where ve: "ve = (v, e)" by fastforce
    with Some ms(2) have "map_of ms k = Some (cache_entry (Some v) e)" by (simp add: holds_def)
    with ms(1) Some ve show ?thesis by (simp add: getDashboardCache_def spec_get_def cache_entry_def)
  qed
qed

text \<open>Writing members is possible, and gives the storage that stands for their map, or the empty one.\<close>

lemma empty_cache: "cache_abs None Map.empty"
  by (simp add: cache_abs_def readCache_def holds_def)

lemma cache_abs_store:
  assumes "holds ms m"
  shows "\<exists>raw. store_cache fits (JObj ms) = Some raw \<and> cache_abs raw (if fits then m else Map.empty)"
proof -
  obtain t where t: "json_text (JObj ms) = Some t"
    using whole_text [of "JObj ms"] assms by (auto simp: holds_def simp del: json_text.simps)
  have "cache_abs (Some t) m"
    using read_written [OF t] assms unfolding cache_abs_def holds_def by blast
  then show ?thesis using t empty_cache by (simp add: store_cache_def del: json_text.simps)
qed

text \<open>What may be stored: objects the language can build, and numbers that have a text.\<close>

fun op_values :: "timed_op \<Rightarrow> bool" where
  "op_values (now, fits, SetCache k v ttl) = (json_wf v \<and> whole_numbers v \<and> \<bar>now + ttl\<bar> < 10 ^ 21)"
| "op_values _ = True"

lemma whole_time: "\<bar>e :: int\<bar> < 10 ^ 21 \<Longrightarrow> whole_number (of_int e)"
proof -
  assume "\<bar>e\<bar> < 10 ^ 21"
  then have "(of_int \<bar>e\<bar> :: rat) < of_int (10 ^ 21)" by (simp only: of_int_less_iff)
  then show ?thesis by (simp add: whole_number_def)
qed

lemma cache_abs_step:
  assumes "cache_abs raw m" "op_values op"
  shows "\<exists>raw'. cache_step (Some raw) op = Some raw' \<and> cache_abs raw' (spec_step m op)"
proof -
  obtain ms where ms: "readCache raw = Some (JObj ms)" "holds ms m" using assms(1) by (auto simp: cache_abs_def)
  then have wf: "json_wf (JObj ms)" "whole_numbers (JObj ms)" by (simp_all add: holds_def)
  obtain now fits c where op: "op = (now, fits, c)" by (metis prod_cases3)
  show ?thesis
  proof (cases c)
    case (SetCache k v ttl)
    let ?e = "cache_entry (Some v) (now + ttl)"
    have v: "json_wf v" "whole_numbers v" and "\<bar>now + ttl\<bar> < 10 ^ 21" using assms(2) by (simp_all add: op SetCache)
    note v = v whole_time [OF this(3)]
    have "json_wf (JObj (obj_put k ?e ms))" "whole_numbers (JObj (obj_put k ?e ms))"
      by (intro obj_put_wf obj_put_whole wf cache_entry_wf cache_entry_whole v)+
    then have "holds (obj_put k ?e ms) (m(k \<mapsto> (v, now + ttl)))"
      using ms(2) by (simp add: holds_def map_of_obj_put)
    from cache_abs_store [OF this, of fits] ms(1) show ?thesis
      by (simp add: cache_step_def op SetCache setDashboardCache_def)
  next
    case ClearCache
    with empty_cache show ?thesis by (simp add: cache_step_def op clearDashboardCache_def)
  next
    case (ClearPrefix ps)
    let ?m = "\<lambda>k. if list_ex (\<lambda>p. startsWith k p) ps then None else m k"
    show ?thesis
    proof (cases "raw = None \<or> raw = Some []")
      case True
      with ms have "m = Map.empty" by (auto simp: readCache_def holds_def)
      with True assms(1) show ?thesis
        by (auto simp: cache_step_def op ClearPrefix clearDashboardCacheByPrefix_def if_distrib [of "cache_abs raw"] cong: if_cong)
    next
      case False
      let ?ms = "filter (\<lambda>(k, v). \<not> list_ex (\<lambda>p. startsWith k p) ps) ms"
      have "json_wf (JObj ?ms)" by (rule filter_wf [OF wf(1)])
      moreover have "whole_numbers (JObj ?ms)" using wf(2) by auto
      ultimately have "holds ?ms ?m"
        using ms(2) map_of_filter_keys [of "\<lambda>k. \<not> list_ex (\<lambda>p. startsWith k p) ps" ms]
        by (auto simp: holds_def simp del: json_wf.simps whole_numbers.simps)
      have "cache_step (Some raw) op = store_cache fits (JObj ?ms)"
        unfolding cache_step_def op ClearPrefix clearDashboardCacheByPrefix_def
        by (simp add: if_not_P [OF False] ms(1))
      with cache_abs_store [OF \<open>holds ?ms ?m\<close>, of fits] show ?thesis by (simp add: op ClearPrefix)
    qed
  qed
qed

lemma cache_abs_run:
  "cache_abs raw m \<Longrightarrow> \<forall>op \<in> set ops. op_values op \<Longrightarrow>
    \<exists>raw'. foldl cache_step (Some raw) ops = Some raw' \<and> cache_abs raw' (foldl spec_step m ops)"
proof (induction ops arbitrary: raw m)
  case (Cons op ops)
  from Cons.prems obtain raw1 where "cache_step (Some raw) op = Some raw1" "cache_abs raw1 (spec_step m op)"
    using cache_abs_step [of raw m op] by auto
  with Cons.IH [of raw1 "spec_step m op"] Cons.prems(2) show ?case by simp
qed auto

text \<open>C24: From an empty storage on, whatever is stored and cleared, reading the cache answers as a map of values with
  expiry times would: the value that was stored last under the key, until its time is over, and \<open>null\<close>
  otherwise; and a text that the storage refuses empties the whole map, the entries of all keys.  The values
  stored are those of JSON whose numbers are whole and below $10^{21}$, as are the times of expiry.\<close>

theorem dashboard_cache_map:
  assumes "\<forall>op \<in> set ops. op_values op"
  shows "\<exists>raw. foldl cache_step (Some None) ops = Some raw \<and>
    getDashboardCache raw now k = spec_get (foldl spec_step Map.empty ops) now k"
  using cache_abs_run [OF empty_cache assms] cache_abs_get by blast

definition sample_ops :: "timed_op list" where
  "sample_ops =
     [(5, True, SetCache (lit ''netOptions'') (JStr (lit ''all'')) 100), (6, True, SetCache (lit ''io'') (JArr [JNum 3]) 10),
      (7, True, ClearPrefix [lit ''net''])]"

definition refused_op :: timed_op where
  "refused_op = (8, False, SetCache (lit ''top'') JNull 100)"

theorem dashboard_cache_map_witness:
  "\<exists>raw raw'. foldl cache_step (Some None) sample_ops = Some raw \<and>
     getDashboardCache raw 15 (lit ''io'') = Some (JArr [JNum 3]) \<and>
     foldl cache_step (Some None) (sample_ops @ [refused_op]) = Some raw' \<and>
     getDashboardCache raw' 15 (lit ''io'') = Some JNull"
proof -
  have ok: "\<forall>op \<in> set sample_ops. op_values op" "\<forall>op \<in> set (sample_ops @ [refused_op]). op_values op"
    by (simp_all add: sample_ops_def refused_op_def whole_number_def)
  have net: "startsWith (lit ''netOptions'') (lit ''net'')" "\<not> startsWith (lit ''io'') (lit ''net'')"
    by (simp_all add: startsWith_def)
  have "foldl spec_step Map.empty sample_ops (lit ''io'') = Some (JArr [JNum 3], 16)"
    using net by (simp add: sample_ops_def del: lit_simps)
  moreover have "foldl spec_step Map.empty (sample_ops @ [refused_op]) = Map.empty"
    by (simp add: refused_op_def)
  ultimately show ?thesis
    using dashboard_cache_map [OF ok(1), of 15 "lit ''io''"] dashboard_cache_map [OF ok(2), of 15 "lit ''io''"]
    by (auto simp: spec_get_def simp del: lit_simps foldl_append)
qed

end
