(* ===== verification/PluginChannel.thy ===== *)
theory PluginChannel
  imports JsString
begin

text \<open>
  The plugin of an agent's channel:
  \<^verbatim>\<open>src/web/src/views/ai/agents/agent/config/tabs/channels/openclaw/useAgentPluginChannel.ts\<close>.
  Every request is a numbered call; its answer is an event of its own, so answers come in any
  order.  A missing status is the one with nothing installed.
\<close>

section \<open>State\<close>

record plugin_status =
  st_installed :: bool
  st_current :: jstring
  st_latest :: jstring
  st_upgradable :: bool

datatype check_kind = PlainCheck | LoadCheck nat | LatestCheck nat
datatype operation = InstallOp | UpgradeOp | UninstallOp
datatype call = Check check_kind nat bool | Operate operation nat nat
datatype result = Installed bool | Task nat | NoTask | Failed

text \<open>\<open>shown\<close> records the statuses that were applied: the agent that was asked for, and the one the panel was
  for at that time.\<close>

record plugin =
  agentId :: nat
  loading :: bool
  installed :: bool
  busy :: "operation \<Rightarrow> bool"
  currentVersion :: jstring
  latestVersion :: jstring
  upgradable :: bool
  loadVersion :: nat
  calls :: "(nat \<times> call) list"
  next_call :: nat
  results :: "result list"
  shown :: "(nat \<times> nat) list"

definition start_call :: "call \<Rightarrow> plugin \<Rightarrow> plugin" where
  "start_call c s = s\<lparr>calls := calls s @ [(next_call s, c)], next_call := Suc (next_call s)\<rparr>"

definition answer_with :: "result \<Rightarrow> plugin \<Rightarrow> plugin" where
  "answer_with r s = s\<lparr>results := results s @ [r]\<rparr>"

section \<open>Operations\<close>

definition applyPluginStatus :: "plugin_status \<Rightarrow> plugin \<Rightarrow> plugin" where
  "applyPluginStatus st s =
     s\<lparr>installed := st_installed st, currentVersion := st_current st, latestVersion := st_latest st,
       upgradable := st_upgradable st\<rparr>"

definition apply_for :: "nat \<Rightarrow> plugin_status \<Rightarrow> plugin \<Rightarrow> plugin" where
  "apply_for asked st s = (applyPluginStatus st s)\<lparr>shown := shown s @ [(asked, agentId s)]\<rparr>"

definition checkPluginStatus :: "bool \<Rightarrow> plugin \<Rightarrow> plugin" where
  "checkPluginStatus latest s =
     (if agentId s = 0 then answer_with (Installed False) s
      else start_call (Check PlainCheck (agentId s) latest) s)"

definition checkPluginLatestVersion :: "nat \<Rightarrow> plugin \<Rightarrow> plugin" where
  "checkPluginLatestVersion version s =
     (if agentId s = 0 then s else start_call (Check (LatestCheck version) (agentId s) True) s)"

definition loadPlugin :: "nat \<Rightarrow> plugin \<Rightarrow> plugin" where
  "loadPlugin agent s =
     (let version = Suc (loadVersion s);
          s = s\<lparr>loadVersion := version, agentId := agent, loading := True, latestVersion := [], upgradable := False\<rparr>
      in if agent = 0 then answer_with (Installed False) (s\<lparr>loading := False\<rparr>)
         else start_call (Check (LoadCheck version) agent False) s)"

text \<open>\<open>installPlugin\<close>, \<open>upgradePlugin\<close> and \<open>uninstallPlugin\<close>, each with a flag of its own; the task has the
  number of the call.\<close>

definition operatePlugin :: "operation \<Rightarrow> plugin \<Rightarrow> plugin" where
  "operatePlugin op s =
     (if agentId s = 0 then answer_with NoTask s
      else start_call (Operate op (agentId s) (next_call s)) (s\<lparr>busy := (busy s)(op := True)\<rparr>))"

text \<open>The answer to a call: a status, or \<open>None\<close> when the request fails.\<close>

definition check_answered :: "check_kind \<Rightarrow> nat \<Rightarrow> plugin_status option \<Rightarrow> plugin \<Rightarrow> plugin" where
  "check_answered k asked answer s =
     (case (k, answer) of
        (PlainCheck, Some st) \<Rightarrow> answer_with (Installed (st_installed st)) (apply_for asked st s)
      | (PlainCheck, None) \<Rightarrow> answer_with Failed s
      | (LoadCheck version, Some st) \<Rightarrow>
          let s = apply_for asked st s;
              s = (if st_installed st then checkPluginLatestVersion version s else s)
          in answer_with (Installed (st_installed st)) (s\<lparr>loading := False\<rparr>)
      | (LoadCheck version, None) \<Rightarrow> answer_with Failed (s\<lparr>loading := False\<rparr>)
      | (LatestCheck version, Some st) \<Rightarrow> if version \<noteq> loadVersion s then s else apply_for asked st s
      | (LatestCheck version, None) \<Rightarrow> s)"

definition call_answered :: "nat \<Rightarrow> plugin_status option \<Rightarrow> plugin \<Rightarrow> plugin" where
  "call_answered n answer s =
     (case map_of (calls s) n of
        None \<Rightarrow> s
      | Some c \<Rightarrow>
          let s = s\<lparr>calls := filter (\<lambda>(m, _). m \<noteq> n) (calls s)\<rparr> in
          (case c of
             Check k asked latest \<Rightarrow> check_answered k asked answer s
           | Operate op asked task \<Rightarrow>
               answer_with (if answer = None then Failed else Task task) (s\<lparr>busy := (busy s)(op := False)\<rparr>)))"

section \<open>Steps\<close>

datatype plugin_event =
    CheckStatus bool
  | Load nat
  | Start operation
  | Answer nat "plugin_status option"

definition plugin_step :: "plugin \<Rightarrow> plugin_event \<Rightarrow> plugin" where
  "plugin_step s e =
     (case e of
        CheckStatus latest \<Rightarrow> checkPluginStatus latest s
      | Load agent \<Rightarrow> loadPlugin agent s
      | Start op \<Rightarrow> operatePlugin op s
      | Answer n answer \<Rightarrow> call_answered n answer s)"

definition new_plugin :: plugin where
  "new_plugin =
     \<lparr>agentId = 0, loading = False, installed = False, busy = (\<lambda>_. False), currentVersion = [], latestVersion = [],
      upgradable = False, loadVersion = 0, calls = [], next_call = 0, results = [], shown = []\<rparr>"

section \<open>Which agent's status is shown\<close>

text \<open>Calls whose answer is applied whatever has happened since.\<close>

fun unguarded :: "call \<Rightarrow> bool" where
  "unguarded (Check (LatestCheck v) a l) = False"
| "unguarded (Check k a l) = True"
| "unguarded (Operate op a t) = False"

fun careful :: "plugin \<Rightarrow> plugin_event list \<Rightarrow> bool" where
  "careful s [] = True"
| "careful s (e # es) =
     ((case e of Load agent \<Rightarrow> \<not> list_ex (\<lambda>(n, c). unguarded c) (calls s) | _ \<Rightarrow> True) \<and> careful (plugin_step s e) es)"

text \<open>What a call in flight is for, when the panel is for an agent and its loads have come to a number.\<close>

definition call_ok :: "nat \<Rightarrow> nat \<Rightarrow> call \<Rightarrow> bool" where
  "call_ok agent version c \<longleftrightarrow>
     (case c of
        Check (LatestCheck v) a l \<Rightarrow> v \<le> version \<and> (v = version \<longrightarrow> a = agent)
      | Check (LoadCheck v) a l \<Rightarrow> a = agent \<and> v = version
      | Check PlainCheck a l \<Rightarrow> a = agent
      | Operate op a t \<Rightarrow> True)"

definition plugin_inv :: "plugin \<Rightarrow> bool" where
  "plugin_inv s \<longleftrightarrow>
     (\<forall>(n, c) \<in> set (calls s). call_ok (agentId s) (loadVersion s) c) \<and> (\<forall>(asked, current) \<in> set (shown s). asked = current)"

lemma call_ok_next: "call_ok a v c \<Longrightarrow> \<not> unguarded c \<Longrightarrow> call_ok b (Suc v) c"
  by (cases c rule: unguarded.cases) (auto simp: call_ok_def)

lemma load_inv:
  assumes "plugin_inv s" "\<not> list_ex (\<lambda>(n, c). unguarded c) (calls s)"
  shows "plugin_inv (loadPlugin agent s)"
proof -
  have "call_ok agent (Suc (loadVersion s)) c" if "(n, c) \<in> set (calls s)" for n c
  proof (rule call_ok_next)
    show "call_ok (agentId s) (loadVersion s) c" using assms(1) that by (auto simp: plugin_inv_def)
    show "\<not> unguarded c" using assms(2) that by (auto simp: list_ex_iff)
  qed
  then show ?thesis using assms(1)
    by (auto simp: plugin_inv_def loadPlugin_def Let_def answer_with_def start_call_def call_ok_def [of agent _ "Check _ _ _"])
qed

lemma answered_inv:
  assumes "plugin_inv s"
  shows "plugin_inv (call_answered n answer s)"
proof (cases "map_of (calls s) n")
  case (Some c)
  let ?s = "s\<lparr>calls := filter (\<lambda>(m, _). m \<noteq> n) (calls s)\<rparr>"
  have inv: "plugin_inv ?s" using assms by (auto simp: plugin_inv_def)
  have ok: "call_ok (agentId s) (loadVersion s) c" using assms map_of_SomeD [OF Some] by (auto simp: plugin_inv_def)
  have "plugin_inv (check_answered k asked answer ?s)" if "c = Check k asked latest" for k asked latest
    using inv ok that
    by (cases k; cases answer)
      (auto simp: check_answered_def plugin_inv_def answer_with_def apply_for_def applyPluginStatus_def
        checkPluginLatestVersion_def start_call_def call_ok_def [of _ _ "Check _ _ _"] Let_def)
  then show ?thesis using inv Some
    by (auto simp: call_answered_def Let_def plugin_inv_def answer_with_def split: call.splits)
qed (use assms in \<open>simp add: call_answered_def\<close>)

lemma plugin_step_inv:
  assumes "plugin_inv s" "\<And>agent. e = Load agent \<Longrightarrow> \<not> list_ex (\<lambda>(n, c). unguarded c) (calls s)"
  shows "plugin_inv (plugin_step s e)"
proof (cases e)
  case (Load agent)
  then show ?thesis using load_inv [OF assms(1)] assms(2) by (simp add: plugin_step_def)
next
  case (Answer n answer)
  then show ?thesis using answered_inv [OF assms(1)] by (simp add: plugin_step_def)
qed (use assms(1) in \<open>auto simp: plugin_step_def checkPluginStatus_def operatePlugin_def plugin_inv_def answer_with_def
    start_call_def call_ok_def [of _ _ "Check _ _ _"] call_ok_def [of _ _ "Operate _ _ _"]\<close>)

text \<open>As long as an agent is only loaded when no earlier check is outstanding, every status that is shown is that
  of the agent the panel is for: late answers about newer versions are dropped.\<close>

theorem plugin_status_current:
  assumes "careful new_plugin es" "(asked, current) \<in> set (shown (foldl plugin_step new_plugin es))"
  shows "asked = current"
proof -
  have "plugin_inv (foldl plugin_step s es)" if "plugin_inv s" "careful s es" for s
    using that
  proof (induction es arbitrary: s)
    case (Cons e es)
    have "plugin_inv (plugin_step s e)" by (rule plugin_step_inv) (use Cons.prems in auto)
    with Cons show ?case by simp
  qed simp
  moreover have "plugin_inv new_plugin" by (simp add: plugin_inv_def new_plugin_def)
  ultimately have "plugin_inv (foldl plugin_step new_plugin es)" using assms(1) by blast
  with assms(2) show ?thesis by (auto simp: plugin_inv_def)
qed

definition fine_status :: plugin_status where
  "fine_status = \<lparr>st_installed = True, st_current = lit ''1.0'', st_latest = lit ''1.1'', st_upgradable = True\<rparr>"

definition sample_events :: "plugin_event list" where
  "sample_events = [Load 1, Answer 0 (Some fine_status), Load 2, Answer 1 (Some fine_status), Answer 2 None]"

theorem plugin_status_current_witness:
  "(1, 1) \<in> set (shown (foldl plugin_step new_plugin sample_events)) \<and>
   length (shown (foldl plugin_step new_plugin sample_events)) = 1"
proof -
  have c: "careful new_plugin sample_events" by code_simp
  have s: "shown (foldl plugin_step new_plugin sample_events) = [(1, 1)]" by code_simp
  have "\<forall>(asked, current) \<in> set (shown (foldl plugin_step new_plugin sample_events)). asked = current"
    using plugin_status_current [OF c] by blast
  with s show ?thesis by simp
qed

text \<open>The first check of a load has no such guard: when two loads overlap, the answer for the agent that was left is
  shown for the one that was opened, and the panel stops loading before its own answer is there.\<close>

theorem plugin_status_stale:
  "\<exists>es. let s = foldl plugin_step new_plugin es in
     agentId s = 2 \<and> \<not> loading s \<and> shown s = [(1, 2)] \<and> installed s \<and>
     map snd (calls s) = [Check (LoadCheck 2) 2 False, Check (LatestCheck 1) 2 True]"
  by (rule exI [of _ "[Load 1, Load 2, Answer 0 (Some fine_status)]"]) code_simp

end
