(* ===== verification/DomainEdit.thy ===== *)
theory DomainEdit
  imports FormRules Json Agent
begin

text \<open>
  The rows of domains of a website and their batch input:
  \<^verbatim>\<open>src/web/src/views/website/website/domain-create/index.vue\<close>.  The conversion of a label to
  ASCII is the library \<^verbatim>\<open>punycode\<close>'s, a parameter; \<open>None\<close> is what it throws.  A port is a number
  as JavaScript has it, since the batch input makes one of any text; the text of a number that
  is no whole number is not modelled (the outer \<open>None\<close> where a row is printed).
\<close>

section \<open>Patterns\<close>

definition strip_brackets :: "jstring \<Rightarrow> jstring" where
  "strip_brackets s =
     (let a = (case s of [] \<Rightarrow> [] | c # t \<Rightarrow> if c = 91 then t else s)
      in if a \<noteq> [] \<and> last a = 93 then butlast a else a)"

definition label_unit :: "nat \<Rightarrow> bool" where
  "label_unit c \<longleftrightarrow> word_unit c \<or> cjk c \<or> c = 45"

definition site_label :: rx where
  "site_label = RAlt (runit CHR ''*'') (RRep 1 63 (RCls label_unit))"

definition singleDomainRegex :: rx where
  "singleDomainRegex = RSeq site_label (RStar (RSeq rdot site_label))"

definition alnum_dash :: "nat \<Rightarrow> bool" where
  "alnum_dash c \<longleftrightarrow> alnum c \<or> c = 45"

definition port_text_rx :: rx where
  "port_text_rx = ralts
     [rseqs [rword ''6553'', RCls (rng CHR ''0'' CHR ''5'')],
      rseqs [rword ''655'', RCls (rng CHR ''0'' CHR ''2''), dig],
      rseqs [rword ''65'', RCls (rng CHR ''0'' CHR ''4''), rtimes 2 dig],
      rseqs [rword ''6'', RCls (rng CHR ''0'' CHR ''4''), rtimes 3 dig],
      RSeq (ropt (RCls (rng CHR ''1'' CHR ''5''))) (RRep 1 4 dig)]"

definition FQDNDomainRegex :: rx where
  "FQDNDomainRegex = rseqs
     [ropt (RSeq (runit CHR ''*'') rdot),
      rplus (rseqs [RCls alnum, ropt (RSeq (RRep 0 61 (RCls alnum_dash)) (RCls alnum)), rdot]),
      RRep 2 63 (RCls letter),
      ropt (RSeq rcolon port_text_rx)]"

definition isIPv4 :: "jstring \<Rightarrow> bool" where
  "isIPv4 s = rmatch ipv4Regex s"

definition isIPv6 :: "jstring \<Rightarrow> bool" where
  "isIPv6 s = rmatch ipv6Regex (strip_brackets s)"

definition isFQDN :: "jstring \<Rightarrow> bool" where
  "isFQDN d = (d = [] \<or> rmatch FQDNDomainRegex d)"

section \<open>Names\<close>

definition convertLabels :: "(jstring \<Rightarrow> jstring option) \<Rightarrow> jstring \<Rightarrow> jstring option" where
  "convertLabels toASCII v =
     map_option (js_join (lit ''.''))
       (opt_list (map (\<lambda>l. if l = lit ''*'' \<or> l = [] then Some l else toASCII l) (js_split (lit ''.'') v)))"

definition toPunycode :: "(jstring \<Rightarrow> jstring option) \<Rightarrow> jstring \<Rightarrow> jstring" where
  "toPunycode toASCII hostname =
     (if isIPv4 hostname \<or> isIPv6 (strip_brackets hostname) then hostname
      else
        (case (if startsWith hostname (lit ''*.'') then map_option (\<lambda>d. lit ''*.'' @ d) (convertLabels toASCII (drop 2 hostname))
               else if endsWith hostname (lit ''.*'') then
                 map_option (\<lambda>d. d @ lit ''.*'') (convertLabels toASCII (take (length hostname - 2) hostname))
               else convertLabels toASCII hostname) of
           None \<Rightarrow> hostname
         | Some h \<Rightarrow> h))"

definition validateSingleDomain :: "jstring \<Rightarrow> bool" where
  "validateSingleDomain v =
     (v = [] \<or> isIPv4 (strip_brackets v) \<or> isIPv6 (strip_brackets v) \<or> rmatch singleDomainRegex v)"

section \<open>Rows\<close>

record domain_row =
  domain :: jstring
  host :: jstring
  port :: jsnum
  ssl :: bool

record domain_form =
  domains :: "domain_row list"
  domainStr :: jstring
  defaultPort :: jsnum
  batchDialogVisible :: bool
  domainWarnings :: "nat \<Rightarrow> bool"
  form_alias :: "jstring option"
  form_domains :: "domain_row list"
  errors :: "jstring list"

definition initDomain :: "domain_form \<Rightarrow> domain_row" where
  "initDomain s = \<lparr>domain = [], host = [], port = defaultPort s, ssl = False\<rparr>"

definition set_row :: "nat \<Rightarrow> domain_row \<Rightarrow> domain_form \<Rightarrow> domain_form" where
  "set_row i r s = s\<lparr>domains := (domains s)[i := r]\<rparr>"

definition warn :: "nat \<Rightarrow> bool \<Rightarrow> domain_form \<Rightarrow> domain_form" where
  "warn i b s = s\<lparr>domainWarnings := (domainWarnings s)(i := b)\<rparr>"

text \<open>The row the user leaves; the index is that of a row.\<close>

definition handleDomainBlur :: "(jstring \<Rightarrow> jstring option) \<Rightarrow> nat \<Rightarrow> domain_form \<Rightarrow> domain_form" where
  "handleDomainBlur toASCII i s =
     (let r = domains s ! i; original = domain r in
      if original = [] then warn i False (set_row i (r\<lparr>host := []\<rparr>) s)
      else
        let clean = strip_brackets original in
        if isIPv4 clean \<or> isIPv6 clean then warn i False (set_row i (r\<lparr>host := original\<rparr>) s)
        else if \<not> rmatch singleDomainRegex original then warn i False s
        else
          let d = toPunycode toASCII original
          in warn i (\<not> isFQDN d) (set_row i (r\<lparr>host := original, domain := d\<rparr>) s))"

definition addDomain :: "domain_form \<Rightarrow> domain_form" where
  "addDomain s = s\<lparr>domains := domains s @ [initDomain s]\<rparr>"

definition removeDomain :: "nat \<Rightarrow> domain_form \<Rightarrow> domain_form" where
  "removeDomain i s = s\<lparr>domains := remove_nth i (domains s)\<rparr>"

definition handleParams :: "domain_form \<Rightarrow> domain_form" where
  "handleParams s = s\<lparr>form_domains := domains s\<rparr>"

text \<open>The port of the installed web server, if the answer has one; the first row gets it.\<close>

definition getOprensty :: "jsnum option \<Rightarrow> domain_form \<Rightarrow> domain_form" where
  "getOprensty httpPort s =
     (let p = (case httpPort of None \<Rightarrow> Fin 80 | Some n \<Rightarrow> if n = NaN \<or> n = Fin 0 then Fin 80 else n);
          s = s\<lparr>defaultPort := p\<rparr>
      in case domains s of [] \<Rightarrow> s | r # rs \<Rightarrow> s\<lparr>domains := r\<lparr>port := p\<rparr> # rs\<rparr>)"

section \<open>Batch input\<close>

definition port_given :: "jsnum \<Rightarrow> bool" where
  "port_given p \<longleftrightarrow> p \<noteq> NaN \<and> p \<noteq> Fin 0 \<and> p \<noteq> Fin 80"

definition port_text :: "jsnum \<Rightarrow> jstring option" where
  "port_text p = (case p of NaN \<Rightarrow> Some (lit ''NaN'')
     | Infinite neg \<Rightarrow> Some (if neg then lit ''-Infinity'' else lit ''Infinity'') | Fin q \<Rightarrow> number_text q)"

definition domainToString :: "domain_row \<Rightarrow> jstring option" where
  "domainToString r =
     (if domain r = [] then Some []
      else if port_given (port r) then
        let str = (if isIPv6 (strip_brackets (domain r)) \<and> \<not> startsWith (domain r) (lit ''['')
                   then lit ''['' @ domain r @ lit '']'' else domain r)
        in map_option (\<lambda>p. str @ lit '':'' @ p) (port_text (port r))
      else Some (domain r))"

text \<open>\<open>match(/^\[([^\]]+)\](?::(\d+))?$/)\<close>\<close>

definition match_bracket :: "jstring \<Rightarrow> (jstring \<times> jstring) option" where
  "match_bracket s =
     (case s of
        [] \<Rightarrow> None
      | c # t \<Rightarrow>
          let a = takeWhile (\<lambda>d. d \<noteq> 93) t; r = drop 1 (dropWhile (\<lambda>d. d \<noteq> 93) t) in
          if c \<noteq> 91 \<or> a = [] \<or> dropWhile (\<lambda>d. d \<noteq> 93) t = [] then None
          else if r = [] then Some (a, [])
          else if hd r = 58 \<and> all_digits (tl r) then Some (a, tl r) else None)"

definition split_row :: "jstring \<Rightarrow> (jstring \<times> jstring) option" where
  "split_row str =
     (case match_bracket str of
        Some m \<Rightarrow> Some m
      | None \<Rightarrow>
          let parts = js_split (lit '':'') str in
          if length parts = 2 then Some (parts ! 0, parts ! 1)
          else if length parts = 1 then Some (parts ! 0, [])
          else if isIPv6 str then Some (str, []) else None)"

definition stringToDomain :: "(jstring \<Rightarrow> jstring option) \<Rightarrow> jsnum \<Rightarrow> jstring \<Rightarrow> domain_row option" where
  "stringToDomain toASCII dflt line =
     (if trim line = [] then None
      else case split_row (trim line) of
        None \<Rightarrow> None
      | Some (domainRaw, portStr) \<Rightarrow>
          if domainRaw = [] then None
          else
            let clean = strip_brackets domainRaw;
                d = (if isIPv4 clean \<or> isIPv6 clean then domainRaw else toPunycode toASCII domainRaw);
                p = (if portStr \<noteq> [] then js_Number portStr else dflt)
            in Some \<lparr>domain = d, host = domainRaw, port = p, ssl = (p = Fin 443)\<rparr>)"

definition openBatchDialog :: "domain_form \<Rightarrow> domain_form option" where
  "openBatchDialog s =
     map_option (\<lambda>lines. s\<lparr>domainStr := js_join [10] (filter (\<lambda>l. l \<noteq> []) lines), batchDialogVisible := True\<rparr>)
       (opt_list (map domainToString (domains s)))"

definition same_site :: "domain_row \<Rightarrow> domain_row \<Rightarrow> bool" where
  "same_site a b \<longleftrightarrow> domain a = domain b \<and> port a = port b \<and> port a \<noteq> NaN"

definition row_valid :: "jstring \<Rightarrow> bool" where
  "row_valid d \<longleftrightarrow> trim d \<noteq> [] \<and>
     (isIPv4 (strip_brackets d) \<or> isIPv6 (strip_brackets d) \<or> rmatch singleDomainRegex d)"

text \<open>One line: the rows so far, the lines with errors, and the alias when the first line gives it.\<close>

definition batch_line ::
  "(jstring \<Rightarrow> jstring option) \<Rightarrow> domain_form \<Rightarrow> nat \<times> jstring \<Rightarrow> domain_row list \<times> jstring list \<times> jstring option
     \<Rightarrow> domain_row list \<times> jstring list \<times> jstring option" where
  "batch_line toASCII s il acc =
     (let (index, line) = il; (rows, bad, alias) = acc in
      case stringToDomain toASCII (defaultPort s) line of
        None \<Rightarrow> acc
      | Some r \<Rightarrow>
          if \<not> row_valid (domain r) then (rows, bad @ [line], alias)
          else
            (if list_ex (\<lambda>q. same_site q r) rows then rows else rows @ [r], bad,
             if (length (domains s) = 1 \<and> domain (hd (domains s)) = []) \<and> index = 0
             then map_option (\<lambda>_. strip_brackets (hd (js_split (lit '':'') (domain r)))) alias else alias))"

text \<open>The truth value is what the dialog gets back.\<close>

definition saveBatchInput :: "(jstring \<Rightarrow> jstring option) \<Rightarrow> domain_form \<Rightarrow> domain_form \<times> bool" where
  "saveBatchInput toASCII s =
     (if trim (domainStr s) = [] then (s, True)
      else
        let (rows, bad, alias) =
              fold (batch_line toASCII s) (enumerate 0 (split_lines (domainStr s))) ([], [], form_alias s);
            s = s\<lparr>form_alias := alias, errors := errors s @ bad\<rparr>
        in if bad \<noteq> [] then (s, False)
           else (handleParams (s\<lparr>domains := (if rows \<noteq> [] then rows else [initDomain s]), batchDialogVisible := False\<rparr>), True))"

end
