(* ===== verification/DomainProps.thy ===== *)
theory DomainProps
  imports DomainEdit
begin

text \<open>
  What the batch input does to rows that are already there: names and ports survive, but the
  flag for TLS follows the port alone, and port 80 turns into the default port.
\<close>

section \<open>Names\<close>

text \<open>Every match of a pattern has a unit of a class.\<close>

fun rx_has :: "(nat \<Rightarrow> bool) \<Rightarrow> rx \<Rightarrow> bool" where
  "rx_has q REmpty = True"
| "rx_has q REps = False"
| "rx_has q (RCls p) = (\<forall>c. p c \<longrightarrow> q c)"
| "rx_has q (RSeq r s) = (rx_has q r \<or> rx_has q s)"
| "rx_has q (RAlt r s) = (rx_has q r \<and> rx_has q s)"
| "rx_has q (RRep m n r) = (0 < m \<and> rx_has q r)"
| "rx_has q (RStar r) = False"

lemma rx_has_match: "s \<in> lang r \<Longrightarrow> rx_has q r \<Longrightarrow> \<exists>c \<in> set s. q c"
proof (induction r arbitrary: s)
  case (RRep m n r)
  then obtain k where k: "s \<in> lpow k (lang r)" "m \<le> k" "0 < m" by auto
  then obtain j where "k = Suc j" by (cases k) auto
  with k obtain u v where "s = u @ v" "u \<in> lang r" by auto
  then show ?case using RRep by auto
next
  case (RSeq r t)
  then obtain u v where "s = u @ v" "u \<in> lang r" "v \<in> lang t" by auto
  moreover from this RSeq have "(\<exists>c \<in> set u. q c) \<or> (\<exists>c \<in> set v. q c)" by auto
  ultimately show ?case by auto
qed auto

lemma single_units:
  assumes "rmatch singleDomainRegex d" "c \<in> set d"
  shows "label_unit c \<or> c = 42 \<or> c = 46"
  using rmatch_units [OF assms]
  by (auto simp: singleDomainRegex_def site_label_def rdot_def runit_def)

lemma ipv6_units:
  assumes "rmatch ipv6Regex d" "c \<in> set d"
  shows "alnum c \<or> c = 58 \<or> c = 46 \<or> c = 37"
  using rmatch_units [OF assms]
  by (simp add: ipv6Regex_def IPv6SegmentFormat_def colon_segs_def rcolon_def runit_def rword_def rplus_def ropt_def
      quad_n_def octet_n_def rtimes_def rdot_def dig_def Let_def)
    (auto simp: cls_defs)

lemma ipv6_colon: "rmatch ipv6Regex d \<Longrightarrow> 58 \<in> set d"
proof -
  assume "rmatch ipv6Regex d"
  moreover have "rx_has (\<lambda>c. c = 58) ipv6Regex"
    by (simp add: ipv6Regex_def IPv6SegmentFormat_def colon_segs_def rcolon_def runit_def rword_def rplus_def ropt_def
      quad_n_def octet_n_def rtimes_def rdot_def Let_def)
  ultimately show ?thesis using rx_has_match unfolding rmatch_iff by fastforce
qed

lemma name_units:
  assumes "rmatch singleDomainRegex d \<or> rmatch ipv6Regex d" "c \<in> set d"
  shows "\<not> is_space c \<and> c \<noteq> 91 \<and> c \<noteq> 93 \<and> c \<noteq> 10 \<and> c \<noteq> 13"
  using assms single_units [of d c] ipv6_units [of d c]
  by (auto simp: label_unit_def cls_defs is_space_def)

lemma single_no_colon: "rmatch singleDomainRegex d \<Longrightarrow> 58 \<notin> set d"
  using single_units [of d 58] by (auto simp: label_unit_def cls_defs)

lemma single_ne: "rmatch singleDomainRegex d \<Longrightarrow> d \<noteq> []"
proof
  assume "rmatch singleDomainRegex d" "d = []"
  then show False by (simp add: singleDomainRegex_def site_label_def runit_def)
qed

lemma strip_plain: "91 \<notin> set d \<Longrightarrow> 93 \<notin> set d \<Longrightarrow> strip_brackets d = d"
  using last_in_set [of d] by (cases d) (auto simp: strip_brackets_def Let_def)

lemma match_bracket_plain: "91 \<notin> set d \<Longrightarrow> match_bracket (d @ e) = None \<or> d = []"
  by (cases d) (auto simp: match_bracket_def Let_def)

section \<open>Lines\<close>

text \<open>A name of a row that the field has normalised.\<close>

definition plain_name :: "(jstring \<Rightarrow> jstring option) \<Rightarrow> jstring \<Rightarrow> bool" where
  "plain_name toASCII d \<longleftrightarrow>
     rmatch singleDomainRegex d \<and> toPunycode toASCII d = d \<or>
     rmatch ipv6Regex d \<and> length (js_split (lit '':'') d) > 2"

definition port_suffix :: "nat \<Rightarrow> jstring" where
  "port_suffix p = (if p = 80 then [] else 58 # digits_of_nat p)"

definition row_line :: "jstring \<Rightarrow> nat \<Rightarrow> jstring" where
  "row_line d p = (if p \<noteq> 80 \<and> rmatch ipv6Regex d then 91 # d @ [93] else d) @ port_suffix p"

lemma plain_name_facts:
  assumes "plain_name toASCII d"
  shows "d \<noteq> []" "strip_brackets d = d" "91 \<notin> set d" "93 \<notin> set d" "\<forall>c \<in> set d. \<not> is_space c \<and> c \<noteq> 10 \<and> c \<noteq> 13"
    "isIPv6 d \<longleftrightarrow> rmatch ipv6Regex d" "rmatch ipv6Regex d \<or> rmatch singleDomainRegex d \<and> 58 \<notin> set d"
proof -
  have u: "\<not> is_space c \<and> c \<noteq> 91 \<and> c \<noteq> 93 \<and> c \<noteq> 10 \<and> c \<noteq> 13" if "c \<in> set d" for c
    using assms that name_units [of d c] by (auto simp: plain_name_def)
  show "d \<noteq> []" using assms single_ne [of d] ipv6_colon [of d] by (auto simp: plain_name_def)
  show "91 \<notin> set d" "93 \<notin> set d" "\<forall>c \<in> set d. \<not> is_space c \<and> c \<noteq> 10 \<and> c \<noteq> 13" using u by blast+
  then show "strip_brackets d = d" by (intro strip_plain)
  then show "isIPv6 d \<longleftrightarrow> rmatch ipv6Regex d" by (simp add: isIPv6_def)
  show "rmatch ipv6Regex d \<or> rmatch singleDomainRegex d \<and> 58 \<notin> set d"
    using assms single_no_colon by (auto simp: plain_name_def)
qed

lemma number_text_nat: "p \<le> 65535 \<Longrightarrow> number_text (of_nat p) = Some (digits_of_nat p)"
  by (simp add: number_text_def)

lemma rat_eq_nat: "(of_nat p :: rat) = numeral n \<longleftrightarrow> p = numeral n"
  by (metis of_nat_eq_iff of_nat_numeral)

lemma row_text:
  assumes "plain_name toASCII (domain r)" "port r = Fin (of_nat p)" "0 < p" "p \<le> 65535"
  shows "domainToString r = Some (row_line (domain r) p)"
proof -
  note f = plain_name_facts [OF assms(1)]
  have "port_given (port r) \<longleftrightarrow> p \<noteq> 80"
    using assms(2,3) rat_eq_nat [of p] by (simp add: port_given_def)
  moreover have "\<not> startsWith (domain r) [91]" using f(1,3) by (cases "domain r") (auto simp: startsWith_def)
  ultimately show ?thesis using f assms
    by (simp add: domainToString_def row_line_def port_suffix_def port_text_def number_text_nat)
qed

lemma digits_no_units: "c \<in> set (digits_of_nat n) \<Longrightarrow> 48 \<le> c \<and> c \<le> 57"
  using digits_of_nat_digits [of n] by (auto simp: is_digit_def)

lemma split_colon_digits:
  "58 \<notin> set d \<Longrightarrow> js_split [58] (d @ 58 # digits_of_nat p) = [d, digits_of_nat p]"
proof -
  have "58 \<notin> set (digits_of_nat p)" using digits_no_units [of 58 p] by auto
  then show "58 \<notin> set d \<Longrightarrow> ?thesis" by (simp add: js_split_unit split_unit_append_sep split_unit_fresh)
qed

lemma split_row_line:
  assumes "plain_name toASCII d"
  shows "split_row (row_line d p) = Some (d, if p = 80 then [] else digits_of_nat p)"
proof -
  note f = plain_name_facts [OF assms]
  have mb: "match_bracket (d @ e) = None" for e using match_bracket_plain [OF f(3)] f(1) by auto
  show ?thesis
  proof (cases "rmatch ipv6Regex d")
    case v6: True
    show ?thesis
    proof (cases "p = 80")
      case True
      have "length (js_split [58] d) > 2"
        using assms v6 single_no_colon ipv6_colon by (auto simp: plain_name_def)
      then show ?thesis using True v6 f mb [of "[]"]
        by (simp add: split_row_def row_line_def port_suffix_def)
    next
      case False
      have "takeWhile (\<lambda>c. c \<noteq> 93) (d @ 93 # t) = d" "dropWhile (\<lambda>c. c \<noteq> 93) (d @ 93 # t) = 93 # t" for t
        using f(4) by (induction d) auto
      then show ?thesis using False v6 f
        by (simp add: split_row_def row_line_def port_suffix_def match_bracket_def Let_def)
    qed
  next
    case False
    with f(7) have "58 \<notin> set d" by simp
    then show ?thesis using False mb [of "[]"] mb split_colon_digits [of d p]
      by (simp add: split_row_def row_line_def port_suffix_def js_split_unit split_unit_fresh)
  qed
qed

lemma row_line_units:
  assumes "plain_name toASCII d" "c \<in> set (row_line d p)"
  shows "\<not> is_space c \<and> c \<noteq> 10 \<and> c \<noteq> 13"
proof -
  have "c \<in> set d \<or> c = 91 \<or> c = 93 \<or> c = 58 \<or> c \<in> set (digits_of_nat p)"
    using assms(2) by (auto simp: row_line_def port_suffix_def split: if_splits)
  moreover have "\<not> is_space e \<and> e \<noteq> 10 \<and> e \<noteq> 13" if "48 \<le> e \<and> e \<le> 58 \<or> e = 91 \<or> e = 93" for e
    using that by (auto simp: is_space_def)
  ultimately show ?thesis
    using plain_name_facts(5) [OF assms(1)] digits_no_units [of c p] by fastforce
qed

definition read_row :: "jsnum \<Rightarrow> jstring \<Rightarrow> nat \<Rightarrow> domain_row" where
  "read_row dflt d p =
     (let q = (if p = 80 then dflt else Fin (of_nat p)) in \<lparr>domain = d, host = d, port = q, ssl = (q = Fin 443)\<rparr>)"

lemma read_line:
  assumes "plain_name toASCII d"
  shows "stringToDomain toASCII dflt (row_line d p) = Some (read_row dflt d p)"
proof -
  note f = plain_name_facts [OF assms]
  have "row_line d p \<noteq> []" using f(1) by (simp add: row_line_def)
  moreover have "trim (row_line d p) = row_line d p"
    using row_line_units [OF assms] by (intro trim_no_space) blast
  moreover have "isIPv4 d \<or> isIPv6 d \<or> toPunycode toASCII d = d"
    using assms f by (auto simp: plain_name_def)
  ultimately show ?thesis using split_row_line [OF assms, of p] f
    by (auto simp: stringToDomain_def read_row_def Let_def)
qed

lemma read_row_valid: "plain_name toASCII d \<Longrightarrow> row_valid d"
  using plain_name_facts [of toASCII d] trim_no_space [of d] by (auto simp: row_valid_def)

section \<open>The batch input\<close>

definition num_port :: "domain_row \<Rightarrow> nat" where
  "num_port r = (case port r of Fin q \<Rightarrow> nat \<lfloor>q\<rfloor> | _ \<Rightarrow> 0)"

definition plain_row :: "(jstring \<Rightarrow> jstring option) \<Rightarrow> domain_row \<Rightarrow> bool" where
  "plain_row toASCII r \<longleftrightarrow> plain_name toASCII (domain r) \<and>
     (\<exists>p. port r = Fin (of_nat p) \<and> 1 \<le> p \<and> p \<le> 65535)"

definition reread :: "jsnum \<Rightarrow> domain_row \<Rightarrow> domain_row" where
  "reread dflt r = read_row dflt (domain r) (num_port r)"

lemma plain_row_port: "plain_row toASCII r \<Longrightarrow> port r = Fin (of_nat (num_port r)) \<and> 0 < num_port r \<and> num_port r \<le> 65535"
  by (auto simp: plain_row_def num_port_def)

lemma reread_fields:
  assumes "plain_row toASCII r"
  shows "domain (reread dflt r) = domain r" "port (reread dflt r) = (if port r = Fin 80 then dflt else port r)"
    "ssl (reread dflt r) \<longleftrightarrow> port (reread dflt r) = Fin 443"
  using plain_row_port [OF assms] rat_eq_nat [of "num_port r"]
  by (auto simp: reread_def read_row_def Let_def)

lemma read_lines:
  assumes "\<forall>r \<in> set rs. plain_row toASCII r"
    and "distinct (map (\<lambda>r. (domain r, port r)) (acc @ map (reread (defaultPort s)) rs))"
  shows "\<exists>al'. fold (batch_line toASCII s) (enumerate n (map (\<lambda>r. row_line (domain r) (num_port r)) rs)) (acc, [], al)
    = (acc @ map (reread (defaultPort s)) rs, [], al')"
  using assms
proof (induction rs arbitrary: acc n al)
  case (Cons r rs)
  have r: "plain_name toASCII (domain r)" using Cons.prems(1) by (simp add: plain_row_def)
  let ?q = "reread (defaultPort s) r"
  have "\<not> list_ex (\<lambda>q. same_site q ?q) acc"
  proof
    assume "list_ex (\<lambda>q. same_site q ?q) acc"
    then obtain q where q: "q \<in> set acc" "domain q = domain ?q" "port q = port ?q"
      unfolding list_ex_iff same_site_def by blast
    have "(domain q, port q) \<in> set (map (\<lambda>r. (domain r, port r)) acc)"
      using q(1) by (simp add: rev_image_eqI)
    then have "(domain ?q, port ?q) \<in> set (map (\<lambda>r. (domain r, port r)) acc)" by (simp only: q(2,3))
    with Cons.prems(2) show False by simp
  qed
  moreover have "stringToDomain toASCII (defaultPort s) (row_line (domain r) (num_port r)) = Some ?q"
    unfolding reread_def by (rule read_line [OF r])
  moreover have "row_valid (domain ?q)" using read_row_valid [OF r] by (simp add: reread_def read_row_def Let_def)
  ultimately obtain al1 where one:
    "batch_line toASCII s (n, row_line (domain r) (num_port r)) (acc, [], al) = (acc @ [?q], [], al1)"
    by (simp add: batch_line_def)
  have "\<forall>r \<in> set rs. plain_row toASCII r" using Cons.prems(1) by simp
  moreover have "distinct (map (\<lambda>r. (domain r, port r)) ((acc @ [?q]) @ map (reread (defaultPort s)) rs))"
    using Cons.prems(2) by simp
  ultimately obtain al2 where
    "fold (batch_line toASCII s) (enumerate (Suc n) (map (\<lambda>r. row_line (domain r) (num_port r)) rs)) (acc @ [?q], [], al1)
      = ((acc @ [?q]) @ map (reread (defaultPort s)) rs, [], al2)"
    using Cons.IH [of "acc @ [?q]" "Suc n" al1] by blast
  with one show ?case by simp
qed simp

lemma opt_list_map_Some: "\<forall>x \<in> set xs. f x = Some (g x) \<Longrightarrow> opt_list (map f xs) = Some (map g xs)"
  by (induction xs) auto

lemma split_lines_join:
  assumes "ws \<noteq> []" "\<forall>w \<in> set ws. \<forall>c \<in> set w. c \<noteq> 10 \<and> c \<noteq> 13"
  shows "split_lines (js_join [10] ws) = ws"
proof -
  have "split_unit 10 (js_join [10] ws) = ws" using assms by (intro split_join_unit) auto
  moreover have "map chop_return (butlast ws) = butlast ws"
    using assms(2) by (intro map_idI) (auto simp: chop_return_def dest: in_set_butlastD last_in_set)
  ultimately show ?thesis using assms(1) by (simp add: split_lines_def Let_def)
qed

lemma trim_join_ne:
  assumes "ws \<noteq> []" "\<forall>w \<in> set ws. w \<noteq> [] \<and> (\<forall>c \<in> set w. \<not> is_space c)"
  shows "trim (js_join sep ws) \<noteq> []"
proof -
  obtain w vs where w: "ws = w # vs" using assms(1) by (cases ws) auto
  then obtain c t where "w = c # t" using assms(2) by (cases w) auto
  with w have "c \<in> set (js_join sep ws)" by (cases vs) auto
  with assms(2) w \<open>w = c # t\<close> show ?thesis by (auto simp: trim_eq_Nil_iff)
qed

text \<open>C25: Opening the batch input on plain rows and confirming it unchanged keeps every name, in order, and every
  port but one: port 80 comes back as the default port of the web server.  Whether a row uses TLS is not
  kept at all; it is read off the port, so that the flag is lost on every port but 443.  Plain rows have a
  whole port between 1 and 65535 and a name that is a normalised domain or an IPv6 address without brackets (one in
  brackets comes back without them); and no two rows are the same once 80 is read as the default port, or they
  would be merged into one.\<close>

theorem batch_input_effect:
  assumes "domains s \<noteq> []" "\<forall>r \<in> set (domains s). plain_row toASCII r"
    and "distinct (map (\<lambda>r. (domain r, if port r = Fin 80 then defaultPort s else port r)) (domains s))"
  shows "\<exists>s1 s2. openBatchDialog s = Some s1 \<and> saveBatchInput toASCII s1 = (s2, True) \<and>
    map (\<lambda>r. (domain r, port r, ssl r)) (domains s2) =
      map (\<lambda>r. let p = (if port r = Fin 80 then defaultPort s else port r) in (domain r, p, p = Fin 443)) (domains s)"
proof -
  let ?line = "\<lambda>r. row_line (domain r) (num_port r)"
  have plain: "plain_name toASCII (domain r)" if "r \<in> set (domains s)" for r
    using assms(2) that by (auto simp: plain_row_def)
  have ne: "?line r \<noteq> []" if "r \<in> set (domains s)" for r
    using plain_name_facts(1) [OF plain [OF that]] by (simp add: row_line_def)
  have "opt_list (map domainToString (domains s)) = Some (map ?line (domains s))"
    using assms(2) plain_row_port by (intro opt_list_map_Some ballI row_text [of toASCII]) (auto simp: plain_row_def)
  moreover have "filter (\<lambda>l. l \<noteq> []) (map ?line (domains s)) = map ?line (domains s)"
    using ne by (simp add: filter_id_conv)
  ultimately obtain s1 where s1: "openBatchDialog s = Some s1" "domains s1 = domains s" "defaultPort s1 = defaultPort s"
    "domainStr s1 = js_join [10] (map ?line (domains s))"
    by (simp add: openBatchDialog_def)
  have lines: "split_lines (domainStr s1) = map ?line (domains s)"
    unfolding s1(4) using assms(1) row_line_units [OF plain] by (intro split_lines_join) auto
  have t: "trim (domainStr s1) \<noteq> []"
    unfolding s1(4) using assms(1) ne row_line_units [OF plain] by (intro trim_join_ne) auto
  have "distinct (map (\<lambda>r. (domain r, port r)) (map (reread (defaultPort s)) (domains s)))"
  proof -
    have "map (\<lambda>r. (domain (reread (defaultPort s) r), port (reread (defaultPort s) r))) (domains s) =
        map (\<lambda>r. (domain r, if port r = Fin 80 then defaultPort s else port r)) (domains s)"
    proof (intro map_cong refl)
      fix r assume "r \<in> set (domains s)"
      then have "plain_row toASCII r" using assms(2) by simp
      note f = reread_fields(1,2) [OF this, of "defaultPort s"]
      show "(domain (reread (defaultPort s) r), port (reread (defaultPort s) r)) =
          (domain r, if port r = Fin 80 then defaultPort s else port r)" by (simp only: f)
    qed
    then show ?thesis using assms(3) by (simp only: map_map comp_def)
  qed
  then obtain al where
    "fold (batch_line toASCII s1) (enumerate 0 (map ?line (domains s))) ([], [], form_alias s1) =
       (map (reread (defaultPort s)) (domains s), [], al)"
    using read_lines [of "domains s" toASCII "[]" s1 0 "form_alias s1"] assms(2) s1(3) by auto
  then obtain s2 where s2: "saveBatchInput toASCII s1 = (s2, True)" "domains s2 = map (reread (defaultPort s)) (domains s)"
    using t lines assms(1) by (simp add: saveBatchInput_def Let_def handleParams_def)
  have "map (\<lambda>r. (domain r, port r, ssl r)) (domains s2) =
      map (\<lambda>r. let p = (if port r = Fin 80 then defaultPort s else port r) in (domain r, p, p = Fin 443)) (domains s)"
    unfolding s2(2) map_map comp_def
  proof (intro map_cong refl)
    fix r assume "r \<in> set (domains s)"
    then have "plain_row toASCII r" using assms(2) by simp
    note f = reread_fields [OF this, of "defaultPort s"]
    show "(domain (reread (defaultPort s) r), port (reread (defaultPort s) r), ssl (reread (defaultPort s) r)) =
      (let p = (if port r = Fin 80 then defaultPort s else port r) in (domain r, p, p = Fin 443))"
      by (simp only: f Let_def)
  qed
  with s1(1) s2(1) show ?thesis by blast
qed

text \<open>A site on port 80 without TLS and one on port 8443 with it, when the web server listens on 8080.\<close>

definition sample_rows :: domain_form where
  "sample_rows =
     \<lparr>domains = [\<lparr>domain = lit ''a.b'', host = lit ''a.b'', port = Fin 80, ssl = False\<rparr>,
                 \<lparr>domain = lit ''::1'', host = lit ''::1'', port = Fin 8443, ssl = True\<rparr>],
      domainStr = [], defaultPort = Fin 8080, batchDialogVisible = False, domainWarnings = (\<lambda>_. False),
      form_alias = None, form_domains = [], errors = []\<rparr>"

lemma sample_names: "plain_name Some (lit ''a.b'')" "plain_name Some (lit ''::1'')"
  by code_simp+

theorem batch_input_effect_witness:
  "\<exists>s1 s2. openBatchDialog sample_rows = Some s1 \<and> saveBatchInput Some s1 = (s2, True) \<and>
    map (\<lambda>r. (domain r, port r, ssl r)) (domains s2) =
      [(lit ''a.b'', Fin 8080, False), (lit ''::1'', Fin 8443, False)]"
proof -
  have "plain_row Some r" if "r \<in> set (domains sample_rows)" for r
    using that sample_names
    by (auto simp: sample_rows_def plain_row_def intro: exI [of _ 80] exI [of _ 8443])
  moreover have "distinct (map (\<lambda>r. (domain r, if port r = Fin 80 then defaultPort sample_rows else port r)) (domains sample_rows))"
    by (simp add: sample_rows_def)
  moreover have "domains sample_rows \<noteq> []" by (simp add: sample_rows_def)
  ultimately show ?thesis using batch_input_effect [of sample_rows Some] by (simp add: sample_rows_def)
qed

end
