(* ===== verification/RuleTable.thy ===== *)
theory RuleTable
  imports RuleFormSteps
begin

text \<open>
  The page of the firewall rules: \<^verbatim>\<open>src/web/src/views/host/firewall/rule/index.vue\<close>.  It lists what the
  server observes and what it wants to have, filters and pages the list, tells which rules may be
  edited and deleted, and hands the form of \<open>RuleForm\<close> the range of positions a rule may move in.
  The answers of the server and of the confirmation boxes are arguments.  A missing list is the
  empty one.  The raw texts of native rules and the order of the owners' names are left out.
\<close>

section \<open>What the server lists\<close>

datatype parse_status = Supported | Partial | Opaque
datatype persistence = Converged | RuntimeOnly | PermanentOnly
datatype rule_origin = Created | AdoptedOrigin
datatype inventory_state = ManagedState | AdoptedState | ExternalState | DriftedState | ProtectedState
datatype inventory_match = MatchNone | MatchExact | MatchChanged | MatchMissing | MatchAmbiguous | MatchOpaque

record locator =
  lo_provider :: provider
  lo_nativeId :: "jstring option"
  lo_canonical :: "jstring option"
  lo_position :: "int option"

record observed_rule =
  ob_rule :: fw_rule
  ob_locator :: locator
  ob_instanceKey :: "jstring option"
  ob_marker :: "jstring option"
  ob_parseStatus :: parse_status
  ob_raw :: "jstring option"
  ob_persistence :: "persistence option"

record desired_rule =
  de_uuid :: jstring
  de_rule :: fw_rule
  de_origin :: rule_origin
  de_protected :: bool

record inventory =
  it_rule :: fw_rule
  it_observed :: "observed_rule option"
  it_desired :: "desired_rule option"
  it_state :: inventory_state
  it_match :: inventory_match

datatype notice_code =
  DefaultScopeMismatch | ManagedScopeInactive | UnmanagedActiveScopes | RuntimePermanentMismatch |
  DefaultPolicy | ManagedScopeMissing

type_synonym scope_notice = "notice_code \<times> jstring list"

record listening =
  li_pid :: nat
  li_name :: "jstring option"
  li_protocol :: nat
  li_ports :: "jstring list"

record docker_endpoint =
  dk_tcp :: bool
  dk_hostPort :: int
  dk_containerName :: "jstring option"
  dk_containerID :: "jstring option"

datatype rule_filter = FamilyFilter family | AcceptFilter | DenyFilter | StateFilter inventory_state

datatype page_request =
    SearchRequest rule_scope
  | DeleteRequest "jstring list"
  | CheckRequest fw_rule
  | AdoptRequest "fw_rule create_item"

record rule_page =
  pg_provider :: "provider option"
  isActive :: bool
  isInit :: bool
  isBind :: bool
  firewallVersion :: jstring
  selectedRuleFilters :: "rule_filter list"
  visibleIptablesChains :: "jstring list"
  searchName :: jstring
  inventoryItems :: "inventory list"
  listeningProcesses :: "listening list"
  dockerEndpoints :: "docker_endpoint list"
  selects :: "inventory list"
  scopeNotices :: "scope_notice list"
  currentPage :: nat
  pageSize :: nat
  total :: nat
  requests :: "page_request list"
  page_messages :: "(string \<times> nat list) list"

section \<open>The back end\<close>

definition isDirectBackend :: "rule_page \<Rightarrow> bool" where
  "isDirectBackend pg \<longleftrightarrow> pg_provider pg \<in> {Some Iptables, Some Nftables}"

definition isServiceBackend :: "rule_page \<Rightarrow> bool" where
  "isServiceBackend pg \<longleftrightarrow> pg_provider pg \<in> {Some Firewalld, Some Ufw}"

definition canReset :: "rule_page \<Rightarrow> bool" where
  "canReset pg \<longleftrightarrow> pg_provider pg \<noteq> None \<and> (if isDirectBackend pg then isInit pg else True)"

definition isFirewallReady :: "rule_page \<Rightarrow> bool" where
  "isFirewallReady pg = (if isDirectBackend pg then isInit pg \<and> isBind pg else isActive pg)"

definition showFirewallUnavailablePrompt :: "rule_page \<Rightarrow> bool" where
  "showFirewallUnavailablePrompt pg \<longleftrightarrow>
     isDirectBackend pg \<and> (\<not> isInit pg \<or> \<not> isBind pg) \<or> isServiceBackend pg \<and> \<not> isActive pg"

definition canSyncRules :: "rule_page \<Rightarrow> bool" where
  "canSyncRules pg \<longleftrightarrow> pg_provider pg \<noteq> None \<and> isActive pg \<and> (isDirectBackend pg \<longrightarrow> isBind pg)"

text \<open>\<open>match(/^(\d+)\.(\d+)/)\<close>, with both groups as numbers.\<close>

definition version_pair :: "jstring \<Rightarrow> (nat \<times> nat) option" where
  "version_pair v =
     (let a = takeWhile is_digit v in
      case dropWhile is_digit v of
        [] \<Rightarrow> None
      | c # t \<Rightarrow>
          let b = takeWhile is_digit t in
          if a = [] \<or> c \<noteq> 46 \<or> b = [] then None else Some (nat_of_digits a, nat_of_digits b))"

definition supportsFirewalldPriority :: "rule_page \<Rightarrow> bool" where
  "supportsFirewalldPriority pg =
     (if pg_provider pg \<noteq> Some Firewalld then True
      else case version_pair (trim (firewallVersion pg)) of
        None \<Rightarrow> False
      | Some (major, minor) \<Rightarrow> major > 0 \<or> minor \<ge> 7)"

definition chain_scope :: "provider \<Rightarrow> family \<Rightarrow> jstring \<Rightarrow> rule_scope" where
  "chain_scope p f c =
     \<lparr>sc_provider = p, sc_family = f, sc_table = Some (lit ''filter''), sc_zone = None, sc_chain = Some c\<rparr>"

definition iptablesChains :: "jstring list" where
  "iptablesChains = [lit ''WORKMESH_BASIC_BEFORE'', lit ''WORKMESH_BASIC'', lit ''WORKMESH_BASIC_AFTER'']"

definition providerScopes :: "rule_page \<Rightarrow> rule_scope list" where
  "providerScopes pg =
     (case pg_provider pg of
        None \<Rightarrow> []
      | Some Firewalld \<Rightarrow>
          [\<lparr>sc_provider = Firewalld, sc_family = Inet, sc_table = None, sc_zone = Some (lit ''public''), sc_chain = None\<rparr>]
      | Some Ufw \<Rightarrow>
          [\<lparr>sc_provider = Ufw, sc_family = Inet, sc_table = None, sc_zone = None, sc_chain = Some (lit ''incoming'')\<rparr>]
      | Some p \<Rightarrow> concat (map (\<lambda>f. map (chain_scope p f) iptablesChains) [IPv4, IPv6]))"

section \<open>Rows\<close>

definition isIptablesSystemPresetScope :: "rule_scope \<Rightarrow> bool" where
  "isIptablesSystemPresetScope s \<longleftrightarrow> sc_provider s \<in> {Iptables, Nftables} \<and>
     sc_chain s \<in> {Some (lit ''WORKMESH_BASIC_BEFORE''), Some (lit ''WORKMESH_BASIC_AFTER'')}"

definition wildcardAddress :: "family \<Rightarrow> jstring" where
  "wildcardAddress f = (case f of IPv6 \<Rightarrow> lit ''::/0'' | Inet \<Rightarrow> lit ''0.0.0.0/0, ::/0'' | IPv4 \<Rightarrow> lit ''0.0.0.0/0'')"

definition isOpaqueRule :: "inventory \<Rightarrow> bool" where
  "isOpaqueRule row = (case it_observed row of None \<Rightarrow> False | Some ob \<Rightarrow> ob_parseStatus ob = Opaque)"

definition isReadOnlyNativeRule :: "inventory \<Rightarrow> bool" where
  "isReadOnlyNativeRule row = (case it_observed row of None \<Rightarrow> False | Some ob \<Rightarrow> ob_parseStatus ob \<noteq> Supported)"

definition rowProvider :: "inventory \<Rightarrow> provider" where
  "rowProvider row = sc_provider (r_scope (it_rule row))"

definition first_text :: "jstring option \<Rightarrow> jstring option \<Rightarrow> jstring option" where
  "first_text a b = (if a = None \<or> a = Some [] then b else a)"

definition rowNativeKind :: "inventory \<Rightarrow> jstring option" where
  "rowNativeKind row =
     first_text (r_nativeKind (it_rule row)) (Option.bind (it_observed row) (\<lambda>ob. r_nativeKind (ob_rule ob)))"

definition isFirewalldService :: "inventory \<Rightarrow> bool" where
  "isFirewalldService row =
     (let canonical = or_empty (Option.bind (it_observed row)
            (\<lambda>ob. first_text (lo_canonical (ob_locator ob)) (lo_nativeId (ob_locator ob))))
      in rowProvider row = Firewalld \<and>
         (rowNativeKind row = Some (lit ''zone_service'') \<or> startsWith canonical (lit ''service:'')))"

definition isUFWApplication :: "inventory \<Rightarrow> bool" where
  "isUFWApplication row \<longleftrightarrow> rowProvider row = Ufw \<and> rowNativeKind row = Some (lit ''ufw_application'')"

definition hasParsedUFWFields :: "inventory \<Rightarrow> bool" where
  "hasParsedUFWFields row \<longleftrightarrow> rowProvider row = Ufw \<and> r_protocol (it_rule row) \<noteq> []"

text \<open>\<open>toUpperCase\<close> of Latin-1; other units are kept.\<close>

definition upper_unit :: "nat \<Rightarrow> jstring" where
  "upper_unit c =
     (if is_lower c \<or> 224 \<le> c \<and> c \<le> 254 \<and> c \<noteq> 247 then [c - 32]
      else if c = 223 then [83, 83] else if c = 255 then [376] else if c = 181 then [924] else [c])"

definition toUpperCase :: "jstring \<Rightarrow> jstring" where
  "toUpperCase s = concat (map upper_unit s)"

definition displayProtocol :: "inventory \<Rightarrow> jstring" where
  "displayProtocol row =
     (if isFirewalldService row then lit ''SERVICE''
      else if isUFWApplication row \<and> r_protocol (it_rule row) = [] then lit ''APP''
      else if isOpaqueRule row \<and> \<not> hasParsedUFWFields row then lit ''-''
      else if rowProvider row = Ufw \<and> r_protocol (it_rule row) = lit ''all'' \<and>
          or_empty (r_destinationPort (it_rule row)) \<noteq> [] then lit ''TCP/UDP''
      else if r_protocol (it_rule row) = [] then lit ''-'' else toUpperCase (r_protocol (it_rule row)))"

definition displayAddress :: "inventory \<Rightarrow> jstring" where
  "displayAddress row =
     (let f = sc_family (r_scope (it_rule row)); a = or_empty (r_sourceAddress (it_rule row)) in
      if isOpaqueRule row \<and> \<not> hasParsedUFWFields row then lit ''-''
      else if a \<noteq> [] \<and> a \<noteq> wildcardAddress f then formatHostAddress (Some a) (Some f)
      else wildcardAddress f @ [65288] @ lit ''firewall.anyWhere'' @ [65289])"

definition displayPort :: "inventory \<Rightarrow> jstring" where
  "displayPort row =
     (let p = or_empty (r_destinationPort (it_rule row)) in
      if isOpaqueRule row \<and> \<not> hasParsedUFWFields row then lit ''-'' else if p = [] then lit ''*'' else p)"

definition isEditableManagedRule :: "inventory \<Rightarrow> bool" where
  "isEditableManagedRule row =
     (case it_desired row of
        None \<Rightarrow> False
      | Some d \<Rightarrow> de_uuid d \<noteq> [] \<and> \<not> de_protected d \<and> \<not> isIptablesSystemPresetScope (r_scope (it_rule row)) \<and>
          it_state row \<noteq> DriftedState \<and> it_state row \<noteq> ProtectedState)"

definition isMissingManagedRule :: "inventory \<Rightarrow> bool" where
  "isMissingManagedRule row \<longleftrightarrow> it_state row = DriftedState \<and> it_match row = MatchMissing \<and> it_observed row = None"

definition isDeletableManagedRule :: "inventory \<Rightarrow> bool" where
  "isDeletableManagedRule row =
     (case it_desired row of
        None \<Rightarrow> False
      | Some d \<Rightarrow> de_uuid d \<noteq> [] \<and> \<not> de_protected d \<and> \<not> isIptablesSystemPresetScope (r_scope (it_rule row)) \<and>
          it_state row \<noteq> ProtectedState \<and> (it_state row \<noteq> DriftedState \<or> isMissingManagedRule row))"

definition row_position :: "inventory \<Rightarrow> int option" where
  "row_position row = Option.bind (it_observed row) (\<lambda>ob. lo_position (ob_locator ob))"

definition displayRulePriority :: "inventory \<Rightarrow> int option" where
  "displayRulePriority row =
     (let s = r_scope (it_rule row) in
      if sc_provider s = Firewalld then r_priority (it_rule row)
      else if sc_provider s \<in> {Iptables, Nftables} \<and> sc_chain s \<noteq> Some (lit ''WORKMESH_BASIC'') then None
      else row_position row)"

section \<open>Who uses a port\<close>

text \<open>A number that is a whole one.\<close>

definition js_int :: "jsnum \<Rightarrow> int option" where
  "js_int n = (case n of Fin q \<Rightarrow> if q = of_int \<lfloor>q\<rfloor> then Some \<lfloor>q\<rfloor> else None | _ \<Rightarrow> None)"

definition extractListeningPorts :: "jstring list \<Rightarrow> int list" where
  "extractListeningPorts ports =
     filter (\<lambda>p. p > 0 \<and> p \<le> 65535) (List.map_filter (\<lambda>k. js_int (js_Number k)) ports)"

definition port_segment :: "jstring \<Rightarrow> int \<Rightarrow> bool" where
  "port_segment raw port =
     (let segment = trim raw;
          range = (\<lambda>d. let parts = take 2 (js_split d segment) in
            (case (js_int (js_Number (parts ! 0)), js_int (js_Number (parts ! 1))) of
               (Some lo, Some hi) \<Rightarrow> port \<ge> lo \<and> port \<le> hi
             | _ \<Rightarrow> False))
      in if str_includes segment (lit ''-'') then range (lit ''-'')
         else if str_includes segment (lit '':'') then range (lit '':'')
         else js_Number segment = Fin (of_int port))"

definition isPortInRule :: "jstring option \<Rightarrow> int \<Rightarrow> bool" where
  "isPortInRule rulePort port =
     (let v = trim (or_empty rulePort) in
      if v = [] \<or> v = lit ''*'' then True
      else list_ex (\<lambda>raw. port_segment raw port) (js_split (lit '','') v))"

definition listeningProtocolNumbers :: "jstring \<Rightarrow> nat list" where
  "listeningProtocolNumbers proto =
     (let p = toLowerCase proto in
      if p = lit ''tcp'' then [1] else if p = lit ''udp'' then [2] else if p = lit ''all'' then [1, 2] else [])"

record usage_entry =
  us_ports :: "int list"
  us_owner :: jstring
  us_pid :: "nat option"
  us_docker :: bool

definition process_entry :: "nat list \<Rightarrow> jstring option \<Rightarrow> listening \<Rightarrow> usage_entry list" where
  "process_entry protocols port p =
     (let ports = sort (filter (isPortInRule port) (extractListeningPorts (li_ports p)));
          name = trim (or_empty (li_name p))
      in if li_protocol p \<notin> set protocols \<or> ports = [] then []
         else [\<lparr>us_ports = ports, us_owner = (if name \<noteq> [] then name else lit ''PID '' @ digits_of_nat (li_pid p)),
                us_pid = Some (li_pid p), us_docker = False\<rparr>])"

definition docker_entry :: "docker_endpoint \<Rightarrow> usage_entry" where
  "docker_entry e =
     (let owner = (if or_empty (dk_containerName e) \<noteq> [] then or_empty (dk_containerName e)
                   else let i = take 12 (or_empty (dk_containerID e)) in if i \<noteq> [] then i else lit ''-'')
      in \<lparr>us_ports = [dk_hostPort e], us_owner = lit ''Docker: '' @ owner, us_pid = None, us_docker = True\<rparr>)"

definition ruleUsageEntries :: "rule_page \<Rightarrow> inventory \<Rightarrow> usage_entry list" where
  "ruleUsageEntries pg row =
     (if isReadOnlyNativeRule row then []
      else
        let protocols = listeningProtocolNumbers (r_protocol (it_rule row)); port = r_destinationPort (it_rule row)
        in concat (map (process_entry protocols port) (listeningProcesses pg)) @
           map docker_entry (filter (\<lambda>e. isPortInRule port (dk_hostPort e))
             (filter (\<lambda>e. (if dk_tcp e then 1 else 2) \<in> set protocols) (dockerEndpoints pg))))"

section \<open>Positions\<close>

definition sameIptablesPositionScope :: "fw_rule \<Rightarrow> family \<Rightarrow> jstring \<Rightarrow> bool" where
  "sameIptablesPositionScope r f c \<longleftrightarrow>
     sc_provider (r_scope r) \<in> {Iptables, Nftables} \<and> sc_family (r_scope r) = f \<and>
     sc_table (r_scope r) = Some (lit ''filter'') \<and> sc_chain (r_scope r) = Some c"

text \<open>\<open>position || d\<close>\<close>

definition position_or :: "int \<Rightarrow> inventory \<Rightarrow> int" where
  "position_or d row = (case row_position row of None \<Rightarrow> d | Some p \<Rightarrow> if p = 0 then d else p)"

definition max_position :: "inventory list \<Rightarrow> int" where
  "max_position rows = fold (\<lambda>row m. max m (position_or 0 row)) rows 0"

text \<open>One of the two loops: on along the rows while they may be edited.\<close>

fun walk :: "int \<Rightarrow> inventory list \<Rightarrow> int" where
  "walk m [] = m"
| "walk m (row # rows) = (if isEditableManagedRule row then walk (position_or m row) rows else m)"

definition chain_range :: "rule_page \<Rightarrow> inventory option \<Rightarrow> jstring \<Rightarrow> family \<Rightarrow> int \<times> int" where
  "chain_range pg item chain f =
     (let scopeRows = sort_key (position_or 0)
            (filter (\<lambda>row. sameIptablesPositionScope (it_rule row) f chain) (inventoryItems pg));
          create = (\<lambda>extra. (1, max 1 (max_position scopeRows + extra)))
      in case item of
           None \<Rightarrow> create 1
         | Some it \<Rightarrow>
             if sc_family (r_scope (it_rule it)) \<noteq> f then create 0
             else
               let current = position_or 1 it in
               (case find_index (\<lambda>row. row_position row = row_position it) scopeRows of
                  None \<Rightarrow> (current, walk current scopeRows)
                | Some i \<Rightarrow> (walk current (rev (take i scopeRows)), walk current (drop (Suc i) scopeRows))))"

definition priorityPositionRanges :: "rule_page \<Rightarrow> inventory option \<Rightarrow> family \<Rightarrow> (int \<times> int) option" where
  "priorityPositionRanges pg item =
     (if pg_provider pg = Some Firewalld then (\<lambda>_. None)
      else if pg_provider pg = Some Ufw then
        (case item of
           None \<Rightarrow>
             let range = (1, max 1 (max_position (inventoryItems pg) + 1))
             in (\<lambda>_. None)(IPv4 := Some range, IPv6 := Some range)
         | Some it \<Rightarrow>
             let f = sc_family (r_scope (it_rule it));
                 positions = filter (\<lambda>p. p \<noteq> 0) (List.map_filter row_position
                   (filter (\<lambda>row. sc_family (r_scope (it_rule row)) = f) (inventoryItems pg)));
                 current = position_or 1 it
             in (\<lambda>_. None)(f := Some (case positions of [] \<Rightarrow> (current, current) | p # ps \<Rightarrow> (fold min ps p, fold max ps p))))
      else
        let chain = (case item of None \<Rightarrow> lit ''WORKMESH_BASIC''
              | Some it \<Rightarrow> (let c = or_empty (sc_chain (r_scope (it_rule it))) in if c = [] then lit ''WORKMESH_BASIC'' else c))
        in (\<lambda>_. None)(IPv4 := Some (chain_range pg item chain IPv4), IPv6 := Some (chain_range pg item chain IPv6)))"

section \<open>Filters and pages\<close>

definition matchesRuleFamily :: "fw_rule \<Rightarrow> family \<Rightarrow> bool" where
  "matchesRuleFamily r f =
     (if sc_family (r_scope r) \<noteq> Inet then sc_family (r_scope r) = f
      else let a = or_empty (r_sourceAddress r) in
        if a = [] then True else if f = IPv6 then str_includes a (lit '':'') else \<not> str_includes a (lit '':''))"

definition matchesRuleFilters :: "rule_page \<Rightarrow> inventory \<Rightarrow> bool" where
  "matchesRuleFilters pg item =
     (let fs = selectedRuleFilters pg;
          families = List.map_filter (\<lambda>g. case g of FamilyFilter f \<Rightarrow> Some f | _ \<Rightarrow> None) fs;
          actions = filter (\<lambda>g. g = AcceptFilter \<or> g = DenyFilter) fs;
          states = List.map_filter (\<lambda>g. case g of StateFilter st \<Rightarrow> Some st | _ \<Rightarrow> None) fs
      in if families \<noteq> [] \<and> \<not> list_ex (matchesRuleFamily (it_rule item)) families then False
         else if actions \<noteq> [] \<and>
             \<not> list_ex (\<lambda>g. if g = AcceptFilter then r_action (it_rule item) = Accept else r_action (it_rule item) \<noteq> Accept) actions
         then False
         else states = [] \<or> it_state item \<in> set states)"

definition action_text :: "fw_action \<Rightarrow> jstring" where
  "action_text a = (case a of Accept \<Rightarrow> lit ''accept'' | Drop \<Rightarrow> lit ''drop'' | Reject \<Rightarrow> lit ''reject'')"

definition state_text :: "inventory_state \<Rightarrow> jstring" where
  "state_text s = (case s of ManagedState \<Rightarrow> lit ''managed'' | AdoptedState \<Rightarrow> lit ''adopted''
     | ExternalState \<Rightarrow> lit ''external'' | DriftedState \<Rightarrow> lit ''drifted'' | ProtectedState \<Rightarrow> lit ''protected'')"

definition search_texts :: "inventory \<Rightarrow> jstring option list" where
  "search_texts item =
     [Some (displayProtocol item), Some (displayAddress item), Some (displayPort item),
      r_sourceAddress (it_rule item), r_sourcePort (it_rule item), r_destinationAddress (it_rule item),
      r_description (it_rule item),
      Option.bind (it_observed item) (\<lambda>ob. r_description (ob_rule ob)),
      Option.bind (it_desired item) (\<lambda>d. r_description (de_rule d)),
      Option.bind (it_observed item) ob_raw,
      Some (action_text (r_action (it_rule item))), Some (state_text (it_state item))]"

definition row_shown :: "rule_page \<Rightarrow> inventory \<Rightarrow> bool" where
  "row_shown pg item =
     (let keyword = toLowerCase (trim (searchName pg)) in
      if sc_provider (r_scope (it_rule item)) \<in> {Iptables, Nftables} \<and>
         or_empty (sc_chain (r_scope (it_rule item))) \<notin> set (visibleIptablesChains pg) then False
      else if \<not> matchesRuleFilters pg item then False
      else if keyword = [] then True
      else list_ex (\<lambda>v. case v of None \<Rightarrow> False | Some t \<Rightarrow> str_includes (toLowerCase t) keyword) (search_texts item))"

definition filteredItems :: "rule_page \<Rightarrow> inventory list" where
  "filteredItems pg = filter (row_shown pg) (inventoryItems pg)"

definition pagedItems :: "rule_page \<Rightarrow> inventory list" where
  "pagedItems pg =
     (let start = (currentPage pg - 1) * pageSize pg in take (pageSize pg) (drop start (filteredItems pg)))"

definition resetPagination :: "rule_page \<Rightarrow> rule_page" where
  "resetPagination pg = pg\<lparr>currentPage := 1\<rparr>"

definition changeIptablesChainFilter :: "rule_page \<Rightarrow> rule_page" where
  "changeIptablesChainFilter pg = resetPagination (pg\<lparr>selects := []\<rparr>)"

definition changeRuleFilter :: "rule_page \<Rightarrow> rule_page" where
  "changeRuleFilter pg = resetPagination (pg\<lparr>selects := []\<rparr>)"

text \<open>The watcher of the filtered items; \<open>Math.ceil\<close> of the quotient.\<close>

definition last_page :: "rule_page \<Rightarrow> nat" where
  "last_page pg = max 1 ((length (filteredItems pg) + pageSize pg - 1) div pageSize pg)"

definition watch_items :: "rule_page \<Rightarrow> rule_page" where
  "watch_items pg =
     pg\<lparr>total := length (filteredItems pg),
        currentPage := (if currentPage pg > last_page pg then last_page pg else currentPage pg)\<rparr>"

definition allManagedRules :: "rule_page \<Rightarrow> inventory list" where
  "allManagedRules pg = filter isDeletableManagedRule (inventoryItems pg)"

definition notice_text :: "notice_code \<Rightarrow> jstring" where
  "notice_text c = (case c of DefaultScopeMismatch \<Rightarrow> lit ''default_scope_mismatch''
     | ManagedScopeInactive \<Rightarrow> lit ''managed_scope_inactive'' | UnmanagedActiveScopes \<Rightarrow> lit ''unmanaged_active_scopes''
     | RuntimePermanentMismatch \<Rightarrow> lit ''runtime_permanent_mismatch'' | DefaultPolicy \<Rightarrow> lit ''default_policy''
     | ManagedScopeMissing \<Rightarrow> lit ''managed_scope_missing'')"

definition notices :: "rule_page \<Rightarrow> scope_notice list" where
  "notices pg = seen_dedup (\<lambda>(c, vs). notice_text c @ lit '':'' @ js_join (lit '','') vs)
     (filter (\<lambda>(c, vs). c \<noteq> ManagedScopeMissing) (scopeNotices pg))"

end
