(* ===== verification/RuleTableActions.thy ===== *)
theory RuleTableActions
  imports RuleTable
begin

text \<open>
  What the page of the firewall rules asks the server for: listing, creating, editing, exporting,
  deleting and adopting rules (\<^verbatim>\<open>src/web/src/views/host/firewall/rule/index.vue\<close>).  Each action runs
  as one function of the answers it gets; \<open>None\<close> is a request that fails.  \<open>requests\<close> records what
  was sent, \<open>page_messages\<close> what the user is told.  Two actions at the same time are not modelled.
\<close>

definition tell :: "string \<Rightarrow> nat list \<Rightarrow> rule_page \<Rightarrow> rule_page" where
  "tell m ns pg = pg\<lparr>page_messages := page_messages pg @ [(m, ns)]\<rparr>"

definition request_sent :: "page_request list \<Rightarrow> rule_page \<Rightarrow> rule_page" where
  "request_sent rs pg = pg\<lparr>requests := requests pg @ rs\<rparr>"

section \<open>Listing\<close>

record answers =
  an_scope :: "rule_scope \<Rightarrow> (inventory list \<times> scope_notice list) option"
  an_processes :: "listening list option"
  an_endpoints :: "docker_endpoint list option"

definition loadListeningProcesses :: "answers \<Rightarrow> rule_page \<Rightarrow> rule_page" where
  "loadListeningProcesses an pg =
     pg\<lparr>listeningProcesses := (case an_processes an of None \<Rightarrow> [] | Some ps \<Rightarrow> ps)\<rparr>"

definition loadDockerEndpoints :: "answers \<Rightarrow> rule_page \<Rightarrow> rule_page" where
  "loadDockerEndpoints an pg =
     pg\<lparr>dockerEndpoints := (case an_endpoints an of None \<Rightarrow> [] | Some es \<Rightarrow> es)\<rparr>"

text \<open>The truth value: that nothing was thrown.\<close>

definition search :: "answers \<Rightarrow> rule_page \<Rightarrow> rule_page \<times> bool" where
  "search an pg =
     (let scopes = providerScopes pg in
      if \<not> isFirewallReady pg \<or> scopes = [] then (pg\<lparr>inventoryItems := [], scopeNotices := []\<rparr>, True)
      else
        let pg = loadDockerEndpoints an (loadListeningProcesses an (request_sent (map SearchRequest scopes) pg))
        in case opt_list (map (an_scope an) scopes) of
             None \<Rightarrow> (pg, False)
           | Some responses \<Rightarrow>
               (pg\<lparr>inventoryItems := concat (map fst responses), scopeNotices := concat (map snd responses),
                   selects := []\<rparr>, True))"

section \<open>Creating, editing, exporting\<close>

definition form_item :: "inventory \<Rightarrow> inventory_item" where
  "form_item row = \<lparr>inv_rule = it_rule row, inv_uuid = map_option de_uuid (it_desired row), inv_position = row_position row\<rparr>"

text \<open>A scope that is not there has to be confirmed; \<open>yes\<close> is the answer.\<close>

definition openCreate :: "bool \<Rightarrow> rule_page \<Rightarrow> rule_form \<Rightarrow> rule_form" where
  "openCreate yes pg frm =
     (if list_ex (\<lambda>(c, vs). c = ManagedScopeInactive \<or> c = ManagedScopeMissing) (scopeNotices pg) \<and> \<not> yes then frm
      else case pg_provider pg of
        None \<Rightarrow> frm
      | Some p \<Rightarrow> acceptParams p None (priorityPositionRanges pg None) (supportsFirewalldPriority pg) frm)"

definition openEdit :: "rule_page \<Rightarrow> inventory \<Rightarrow> rule_form \<Rightarrow> rule_form" where
  "openEdit pg row frm =
     (if \<not> isEditableManagedRule row then frm
      else case pg_provider pg of
        None \<Rightarrow> frm
      | Some p \<Rightarrow>
          acceptParams p (Some (form_item row)) (priorityPositionRanges pg (Some row)) (supportsFirewalldPriority pg) frm)"

text \<open>The rules of the file; a rule is not exported under its identity.\<close>

definition exportRules :: "bool \<Rightarrow> inventory list \<Rightarrow> fw_rule list option" where
  "exportRules yes rows =
     (if rows = [] \<or> \<not> yes then None else Some (map (\<lambda>row. (it_rule row)\<lparr>r_uuid := None\<rparr>) rows))"

definition exportRulesBySelection :: "bool \<Rightarrow> rule_page \<Rightarrow> fw_rule list option" where
  "exportRulesBySelection yes pg =
     (let selected = filter isDeletableManagedRule (selects pg)
      in exportRules yes (if selected \<noteq> [] then selected else allManagedRules pg))"

section \<open>Deleting\<close>

definition isWildcardDestinationPort :: "fw_rule \<Rightarrow> bool" where
  "isWildcardDestinationPort r = (let p = trim (or_empty (r_destinationPort r)) in p = [] \<or> p = lit ''*'')"

definition deleteRulesConfirmMessage :: "rule_page \<Rightarrow> inventory list \<Rightarrow> string \<times> nat list" where
  "deleteRulesConfirmMessage pg selected =
     (let accepted = filter (\<lambda>row. r_action (it_rule row) = Accept \<and> it_observed row \<noteq> None) selected;
          risky = filter (\<lambda>row. isWildcardDestinationPort (it_rule row) \<or> ruleUsageEntries pg row \<noteq> []) accepted
      in if length selected > 1 \<and> risky \<noteq> [] then (''firewall.deleteRiskRulesConfirm'', [length selected, length risky])
         else if length selected = 1 \<and> length accepted = 1 \<and> isWildcardDestinationPort (it_rule (hd accepted))
         then (''firewall.deleteWildcardRuleConfirm'', [])
         else if length selected = 1 \<and> length accepted = 1 \<and> ruleUsageEntries pg (hd accepted) \<noteq> []
         then (''firewall.deleteUsedRuleConfirm'', [])
         else (''firewall.deleteRuleConfirm'', [length selected]))"

definition selected_uuids :: "inventory list \<Rightarrow> jstring list" where
  "selected_uuids selected =
     List.map_filter (\<lambda>row. Option.bind (it_desired row) (\<lambda>d. if de_uuid d \<noteq> [] then Some (de_uuid d) else None)) selected"

text \<open>The loop over the batches: what was sent, the two counts, and whether no request failed.  The \<open>n\<close>th
  request is answered by the numbers of rules that were deleted and that were not.\<close>

fun delete_loop :: "(nat \<Rightarrow> (nat \<times> nat) option) \<Rightarrow> nat \<Rightarrow> jstring list list \<Rightarrow> jstring list list \<times> nat \<times> nat \<times> bool" where
  "delete_loop answer n [] = ([], 0, 0, True)"
| "delete_loop answer n (b # bs) =
     (case answer n of
        None \<Rightarrow> ([b], 0, 0, False)
      | Some (s, f) \<Rightarrow> let (out, ss, ff, ok) = delete_loop answer (Suc n) bs in (b # out, s + ss, f + ff, ok))"

definition removeRules ::
  "bool \<Rightarrow> (nat \<Rightarrow> (nat \<times> nat) option) \<Rightarrow> answers \<Rightarrow> inventory list \<Rightarrow> rule_page \<Rightarrow> rule_page \<times> bool" where
  "removeRules yes answer an selected pg =
     (if selected = [] \<or> \<not> yes then (pg, True)
      else
        let uuids = selected_uuids selected;
            (out, s, f, ok) = delete_loop answer 0 (batches 256 uuids);
            pg = request_sent (map DeleteRequest out) pg;
            pg = (if ok \<and> s > 0 then tell ''commons.msg.operationSuccess'' [s, length uuids] pg else pg);
            pg = (if ok \<and> f > 0 then tell ''commons.msg.operationFailed'' [f, length uuids] pg else pg);
            (pg, searched) = search an pg
        in (pg, ok \<and> searched))"

definition removeSelectedRules ::
  "bool \<Rightarrow> (nat \<Rightarrow> (nat \<times> nat) option) \<Rightarrow> answers \<Rightarrow> rule_page \<Rightarrow> rule_page \<times> bool" where
  "removeSelectedRules yes answer an pg = removeRules yes answer an (filter isDeletableManagedRule (selects pg)) pg"

definition removeRule ::
  "bool \<Rightarrow> (nat \<Rightarrow> (nat \<times> nat) option) \<Rightarrow> answers \<Rightarrow> inventory \<Rightarrow> rule_page \<Rightarrow> rule_page \<times> bool" where
  "removeRule yes answer an row pg = removeRules yes answer an [row] pg"

section \<open>Adopting\<close>

text \<open>The plan of an adoption has the place and the key of each candidate.\<close>

record adopt_plan =
  ap_decision :: check_decision
  ap_classification :: check_class
  ap_requestedRule :: fw_rule
  ap_candidates :: "(locator \<times> jstring option) list"
  ap_checkFlag :: jstring

definition same_place :: "inventory \<Rightarrow> locator \<Rightarrow> bool" where
  "same_place row l =
     (lo_position l = row_position row \<and>
      lo_nativeId l = Option.bind (it_observed row) (\<lambda>ob. lo_nativeId (ob_locator ob)) \<and>
      lo_canonical l = Option.bind (it_observed row) (\<lambda>ob. lo_canonical (ob_locator ob)))"

text \<open>What is asked for, or \<open>None\<close> when the adoption is refused.\<close>

definition adopt_item :: "inventory \<Rightarrow> adopt_plan \<Rightarrow> fw_rule create_item option" where
  "adopt_item row p =
     (let candidate = find (\<lambda>(l, k). same_place row l) (ap_candidates p);
          one = (length (ap_candidates p) = 1);
          key = Option.bind candidate snd
      in if ap_decision p \<noteq> ConfirmationRequired \<or> ap_classification p \<noteq> ExactExternal then None
         else if \<not> one \<and> or_empty key = [] then None
         else Some \<lparr>item_rule = ap_requestedRule p, item_flag = ap_checkFlag p,
                    item_action = (if one then Adopt else SelectAdopt),
                    adoptInstanceKey = (if one then snd (hd (ap_candidates p)) else key), imported = False\<rparr>)"

definition adoptRule ::
  "bool \<Rightarrow> adopt_plan option \<Rightarrow> create_answer option \<Rightarrow> answers \<Rightarrow> inventory \<Rightarrow> rule_page \<Rightarrow> rule_page \<times> bool" where
  "adoptRule yes plan answer an row pg =
     (if it_observed row = None \<or> \<not> yes then (pg, True)
      else
        let pg = request_sent [CheckRequest (it_rule row)] pg in
        case plan of
          None \<Rightarrow> (pg, False)
        | Some p \<Rightarrow>
            (case adopt_item row p of
               None \<Rightarrow> (tell ''firewall.plan_blocked'' [] pg, True)
             | Some item \<Rightarrow>
                 let pg = request_sent [AdoptRequest item] pg in
                 (case answer of
                    None \<Rightarrow> (pg, False)
                  | Some a \<Rightarrow>
                      if answer_failed a > 0 \<or> skipped a > 0 then (tell ''commons.msg.operationFailed'' [] pg, True)
                      else search an (tell ''commons.msg.operationSuccess'' [] pg))))"

section \<open>Buttons of a row\<close>

datatype row_button = ViewButton | AdoptButton | EditButton | DeleteButton

definition operationButtons :: "inventory \<Rightarrow> row_button list" where
  "operationButtons row =
     (if isReadOnlyNativeRule row \<and> or_empty (Option.bind (it_observed row) ob_raw) \<noteq> [] then [ViewButton] else []) @
     (if it_state row = ExternalState \<and> (case it_observed row of None \<Rightarrow> False | Some ob \<Rightarrow> ob_parseStatus ob = Supported)
      then [AdoptButton] else []) @
     (if isEditableManagedRule row then [EditButton] else []) @
     (if isDeletableManagedRule row then [DeleteButton] else [])"

end
