(* ===== verification/RuleTableProps.thy ===== *)
theory RuleTableProps
  imports RuleTableActions RuleFormProps
begin

text \<open>
  What holds of the page of the firewall rules: where the form of an edited rule may move it, which
  rules a deletion asks for and what it reports, which ports a rule covers, and that the pages are a
  division of the filtered rows.
\<close>

section \<open>The range of an edited rule\<close>

abbreviation key :: "inventory \<Rightarrow> int" where
  "key \<equiv> position_or 0"

lemma position_or_key: "position_or m row = (if key row = 0 then m else key row)"
  by (simp add: position_or_def split: option.splits)

lemma key_position: "row_position row = Some k \<Longrightarrow> key row = k"
  by (simp add: position_or_def)

text \<open>Upwards and downwards: what lies between the start and the end of a walk may be edited.\<close>

lemma walk_up:
  assumes "sorted (map key rs)" "0 < m" "\<forall>r \<in> set rs. m \<le> key r \<and> (key r = m \<longrightarrow> isEditableManagedRule r)"
    and "\<forall>r \<in> set rs. \<forall>q \<in> set rs. 0 < key r \<longrightarrow> key r = key q \<longrightarrow> r = q"
  shows "m \<le> walk m rs \<and> (\<forall>r \<in> set rs. key r \<le> walk m rs \<longrightarrow> isEditableManagedRule r)"
  using assms
proof (induction rs arbitrary: m)
  case (Cons r rs)
  show ?case
  proof (cases "isEditableManagedRule r")
    case True
    have r: "0 < key r" "m \<le> key r" using Cons.prems(2,3) by auto
    have "key r \<le> key q \<and> (key q = key r \<longrightarrow> isEditableManagedRule q)" if "q \<in> set rs" for q
    proof -
      have "key r \<le> key q" using Cons.prems(1) that by simp
      moreover have "key q = key r \<Longrightarrow> q = r" using Cons.prems(4) that r(1) by simp
      ultimately show ?thesis using True by blast
    qed
    then have "key r \<le> walk (key r) rs \<and> (\<forall>q \<in> set rs. key q \<le> walk (key r) rs \<longrightarrow> isEditableManagedRule q)"
      using Cons.prems r(1) by (intro Cons.IH) auto
    with True r show ?thesis by (simp add: position_or_key [of m])
  next
    case False
    with Cons.prems(3) show ?thesis by fastforce
  qed
qed simp

lemma walk_down:
  assumes "sorted_wrt (\<ge>) (map key rs)" "\<forall>r \<in> set rs. key r \<le> m \<and> (key r = m \<longrightarrow> isEditableManagedRule r)"
    and "\<forall>r \<in> set rs. \<forall>q \<in> set rs. key r \<noteq> 0 \<longrightarrow> key r = key q \<longrightarrow> r = q"
  shows "walk m rs \<le> m \<and> (\<forall>r \<in> set rs. key r \<noteq> 0 \<longrightarrow> walk m rs \<le> key r \<longrightarrow> isEditableManagedRule r)"
  using assms
proof (induction rs arbitrary: m)
  case (Cons r rs)
  show ?case
  proof (cases "isEditableManagedRule r")
    case True
    let ?m = "position_or m r"
    have "key q \<le> ?m \<and> (key q = ?m \<longrightarrow> isEditableManagedRule q)" if q: "q \<in> set rs" for q
    proof (cases "key r = 0")
      case True
      with Cons.prems(2) q show ?thesis by (simp add: position_or_key [of m])
    next
      case False
      have "key q \<le> key r" using Cons.prems(1) q by simp
      moreover have "key q = key r \<Longrightarrow> q = r" using Cons.prems(3) q False by simp
      ultimately show ?thesis using True False by (auto simp: position_or_key [of m])
    qed
    then have "walk ?m rs \<le> ?m \<and> (\<forall>q \<in> set rs. key q \<noteq> 0 \<longrightarrow> walk ?m rs \<le> key q \<longrightarrow> isEditableManagedRule q)"
      using Cons.prems by (intro Cons.IH) auto
    moreover have "?m \<le> m" using Cons.prems(2) by (simp add: position_or_key [of m])
    ultimately show ?thesis using True by auto
  next
    case False
    with Cons.prems(2) show ?thesis by fastforce
  qed
qed simp

lemma fold_max_single: "fold max [a] (1::int) = max 1 a"
  by (simp add: max.commute)

text \<open>The rows of the chain, in order.\<close>

definition chain_rows :: "rule_page \<Rightarrow> family \<Rightarrow> jstring \<Rightarrow> inventory list" where
  "chain_rows pg f c = sort_key key (filter (\<lambda>row. sameIptablesPositionScope (it_rule row) f c) (inventoryItems pg))"

lemma set_chain_rows: "set (chain_rows pg f c) = {row \<in> set (inventoryItems pg). sameIptablesPositionScope (it_rule row) f c}"
  by (auto simp: chain_rows_def)

lemma chain_range_edit:
  assumes row: "row \<in> set (inventoryItems pg)" "isEditableManagedRule row" "row_position row = Some p" "0 < p"
    and scope: "sameIptablesPositionScope (it_rule row) f c"
    and distinct: "\<forall>a \<in> set (chain_rows pg f c). \<forall>b \<in> set (chain_rows pg f c). key a \<noteq> 0 \<longrightarrow> key a = key b \<longrightarrow> a = b"
    and range: "chain_range pg (Some row) c f = (lo, hi)"
  shows "lo \<le> p \<and> p \<le> hi \<and>
    (\<forall>q \<in> set (chain_rows pg f c). \<forall>k. row_position q = Some k \<longrightarrow> k \<noteq> 0 \<longrightarrow> lo \<le> k \<longrightarrow> k \<le> hi \<longrightarrow> isEditableManagedRule q)"
proof -
  let ?rows = "chain_rows pg f c"
  have "row \<in> set ?rows" using row scope by (simp add: set_chain_rows)
  then obtain i where i: "find_index (\<lambda>q. row_position q = row_position row) ?rows = Some i"
    using find_index_None_iff [of "\<lambda>q. row_position q = row_position row" ?rows] by (cases "find_index (\<lambda>q. row_position q = row_position row) ?rows") auto
  note at = find_index_SomeD [OF i]
  have sorted: "sorted (map key ?rows)" by (simp add: chain_rows_def)
  have key: "key row = p" using row(3) by (rule key_position)
  then have "key (?rows ! i) = p" using at row(3) by (auto dest: key_position)
  with distinct at row key \<open>row \<in> set ?rows\<close> have "?rows ! i = row" by (metis nth_mem less_irrefl)
  then have split: "?rows = take i ?rows @ row # drop (Suc i) ?rows" using at id_take_nth_drop by metis
  have lh: "lo = walk p (rev (take i ?rows))" "hi = walk p (drop (Suc i) ?rows)"
  proof -
    have "sc_family (r_scope (it_rule row)) = f" "position_or 1 row = p"
      using scope row(3,4) by (simp_all add: sameIptablesPositionScope_def position_or_def)
    then show "lo = walk p (rev (take i ?rows))" "hi = walk p (drop (Suc i) ?rows)"
      using range i unfolding chain_range_def chain_rows_def [symmetric] Let_def by simp_all
  qed
  have "sorted (map key (take i ?rows) @ p # map key (drop (Suc i) ?rows))"
    using sorted key by (subst (asm) split) simp
  then have s: "sorted (map key (take i ?rows))" "sorted (map key (drop (Suc i) ?rows))"
    "\<forall>q \<in> set (take i ?rows). key q \<le> p" "\<forall>q \<in> set (drop (Suc i) ?rows). p \<le> key q"
    by (auto simp: sorted_append)
  have sub: "set (take i ?rows) \<subseteq> set ?rows" "set (drop (Suc i) ?rows) \<subseteq> set ?rows"
    by (simp_all add: set_take_subset set_drop_subset)
  have same: "isEditableManagedRule q" if "q \<in> set ?rows" "key q = p" for q
    using distinct \<open>row \<in> set ?rows\<close> that key row(2,4) by (metis less_irrefl)
  have uniq: "\<forall>r \<in> R. \<forall>q \<in> R. key r \<noteq> 0 \<longrightarrow> key r = key q \<longrightarrow> r = q" if "R \<subseteq> set ?rows" for R
    using distinct that by blast
  have "\<forall>r \<in> set (take i ?rows). key r \<le> p \<and> (key r = p \<longrightarrow> isEditableManagedRule r)"
    using s(3) sub(1) same by blast
  then have down: "lo \<le> p \<and> (\<forall>q \<in> set (take i ?rows). key q \<noteq> 0 \<longrightarrow> lo \<le> key q \<longrightarrow> isEditableManagedRule q)"
    using walk_down [of "rev (take i ?rows)" p] s(1) uniq [OF sub(1)]
    by (simp add: lh(1) sorted_wrt_rev flip: rev_map)
  have "\<forall>r \<in> set (drop (Suc i) ?rows). p \<le> key r \<and> (key r = p \<longrightarrow> isEditableManagedRule r)"
    using s(4) sub(2) same by blast
  moreover have "\<forall>r \<in> set (drop (Suc i) ?rows). \<forall>q \<in> set (drop (Suc i) ?rows). 0 < key r \<longrightarrow> key r = key q \<longrightarrow> r = q"
    using uniq [OF sub(2)] by (metis less_irrefl)
  ultimately have up: "p \<le> hi \<and> (\<forall>q \<in> set (drop (Suc i) ?rows). key q \<le> hi \<longrightarrow> isEditableManagedRule q)"
    unfolding lh(2) by (intro walk_up s(2) row(4))
  have "isEditableManagedRule q" if q: "q \<in> set ?rows" "row_position q = Some k" "k \<noteq> 0" "lo \<le> k" "k \<le> hi" for q k
  proof -
    have "q \<in> set (take i ?rows) \<or> q = row \<or> q \<in> set (drop (Suc i) ?rows)"
      using q(1) by (subst (asm) split) auto
    with down up row(2) key_position [OF q(2)] q(3,4,5) show ?thesis by auto
  qed
  with down up show ?thesis by blast
qed

lemma edit_form:
  assumes "isDirectBackend pg" "isEditableManagedRule row" "row_position row = Some p" "0 < p"
    and "sameIptablesPositionScope (it_rule row) f c" "c \<noteq> []" "f \<noteq> Inet" "chain_range pg (Some row) c f = (lo, hi)"
  shows "let s = openEdit pg row s0 in
    priority (form s) = Some p \<and> priorityMin s = max 1 lo \<and> priorityMax s = hi"
proof -
  obtain d where d: "it_desired row = Some d" "de_uuid d \<noteq> []"
    using assms(2) by (auto simp: isEditableManagedRule_def split: option.splits)
  obtain b where b: "pg_provider pg = Some b" "b \<noteq> Firewalld" "b \<noteq> Ufw"
    using assms(1) by (auto simp: isDirectBackend_def)
  have f: "sc_family (r_scope (it_rule row)) = f" "sc_chain (r_scope (it_rule row)) = Some c"
    using assms(5) by (simp_all add: sameIptablesPositionScope_def)
  have r: "priorityPositionRanges pg (Some row) f = Some (lo, hi)"
    using b assms(6-8) f by (cases f) (auto simp: priorityPositionRanges_def or_empty_def Let_def)
  have families: "seen_dedup id [f] = [f]" by (simp add: seen_dedup_fixed)
  show ?thesis
    using assms(2-4) d b f r
    by (simp add: openEdit_def acceptParams_def form_item_def load_rule_def resetForm_def resetBatch_def or_empty_def
        or_number_def priorityMin_def priorityMax_def positionalPriorityMin_def positionalPriorityMax_def
        selectedPositionRanges_def families Let_def fold_max_single)
qed

text \<open>C19: With a direct back end (iptables or nftables), the form of an edited rule starts at the rule's own position
  and offers only positions on its own run of editable rules: between the two bounds there is no
  protected, external or drifted rule of the chain that the move would jump over.  The rule is an editable
  one of a chain of IPv4 or IPv6 with a positive position, and no two rules of the chain have the same
  position.  For ufw the code offers all positions from the first to the last, those of protected and
  external rules too.\<close>

theorem edit_stays_among_editable:
  assumes "isDirectBackend pg" "row \<in> set (inventoryItems pg)" "isEditableManagedRule row"
    and "row_position row = Some p" "0 < p"
    and "sameIptablesPositionScope (it_rule row) f c" "c \<noteq> []" "f \<noteq> Inet"
    and "\<forall>a \<in> set (chain_rows pg f c). \<forall>b \<in> set (chain_rows pg f c). key a \<noteq> 0 \<longrightarrow> key a = key b \<longrightarrow> a = b"
  shows "let s = openEdit pg row s0 in
    priority (form s) = Some p \<and> priorityMin s \<le> p \<and> p \<le> priorityMax s \<and>
    (\<forall>q \<in> set (inventoryItems pg). \<forall>k. sameIptablesPositionScope (it_rule q) f c \<longrightarrow> row_position q = Some k \<longrightarrow>
       priorityMin s \<le> k \<longrightarrow> k \<le> priorityMax s \<longrightarrow> isEditableManagedRule q)"
proof -
  obtain lo hi where range: "chain_range pg (Some row) c f = (lo, hi)" by fastforce
  note r = chain_range_edit [OF assms(2-6) assms(9) range]
  note e = edit_form [OF assms(1,3-8) range, of s0, unfolded Let_def]
  have "isEditableManagedRule q" if "q \<in> set (inventoryItems pg)" "sameIptablesPositionScope (it_rule q) f c"
    "row_position q = Some k" "max 1 lo \<le> k" "k \<le> hi" for q k
    using r that by (simp add: set_chain_rows)
  with r e assms(5) show ?thesis unfolding Let_def by auto
qed

section \<open>Deleting\<close>

lemma delete_loop_sent:
  "delete_loop answer n bs = (out, s, f, ok) \<Longrightarrow>
    prefix out bs \<and> (ok \<longrightarrow> out = bs) \<and>
    (\<not> ok \<longrightarrow> out \<noteq> [] \<and> answer (n + length out - 1) = None \<and> (\<forall>i < length out - 1. answer (n + i) \<noteq> None)) \<and>
    (ok \<longrightarrow> (\<forall>i < length bs. answer (n + i) \<noteq> None) \<and>
       s = (\<Sum>i<length bs. fst (the (answer (n + i)))) \<and> f = (\<Sum>i<length bs. snd (the (answer (n + i)))))"
proof (induction answer n bs arbitrary: out s f rule: delete_loop.induct)
  case (2 answer n b bs)
  show ?case
  proof (cases "answer n")
    case None
    with 2(2) show ?thesis by auto
  next
    case (Some sf)
    obtain s0 f0 where sf: "sf = (s0, f0)" by fastforce
    obtain out' s' f' ok' where l: "delete_loop answer (Suc n) bs = (out', s', f', ok')"
      by (metis prod_cases4)
    have eq: "out = b # out'" "s = s0 + s'" "f = f0 + f'" "ok = ok'"
      using 2(2) Some sf l by auto
    have IH: "prefix out' bs \<and> (ok' \<longrightarrow> out' = bs) \<and>
      (\<not> ok' \<longrightarrow> out' \<noteq> [] \<and> answer (Suc n + length out' - 1) = None \<and>
        (\<forall>i < length out' - 1. answer (Suc n + i) \<noteq> None)) \<and>
      (ok' \<longrightarrow> (\<forall>i < length bs. answer (Suc n + i) \<noteq> None) \<and>
        s' = (\<Sum>i<length bs. fst (the (answer (Suc n + i)))) \<and> f' = (\<Sum>i<length bs. snd (the (answer (Suc n + i)))))"
      using 2(1) [OF Some sf [symmetric] l [folded eq(4)]] by (simp add: eq(4))
    have "(\<forall>i < length (b # bs). answer (n + i) \<noteq> None)" if "\<forall>i < length bs. answer (Suc n + i) \<noteq> None"
      using that Some by (auto simp: less_Suc_eq_0_disj)
    moreover have "\<forall>i < length (b # out') - 1. answer (n + i) \<noteq> None"
      if "out' \<noteq> []" "\<forall>i < length out' - 1. answer (Suc n + i) \<noteq> None"
    proof (intro allI impI)
      fix i assume "i < length (b # out') - 1"
      then show "answer (n + i) \<noteq> None" using that Some by (cases i) auto
    qed
    ultimately show ?thesis
      using IH Some sf eq by (auto simp: sum.lessThan_Suc_shift simp del: sum.lessThan_Suc)
  qed
qed auto

lemma search_requests:
  "search an pg = (pg', ok) \<Longrightarrow> page_messages pg' = page_messages pg \<and>
    (\<exists>rest. requests pg' = requests pg @ map SearchRequest rest)"
  by (auto simp: search_def loadDockerEndpoints_def loadListeningProcesses_def request_sent_def Let_def
      split: if_splits option.splits intro: exI [of _ "[]"])

lemma selected_uuids_rows:
  "u \<in> set (selected_uuids rows) \<Longrightarrow> \<exists>row \<in> set rows. \<exists>d. it_desired row = Some d \<and> de_uuid d = u"
  by (induction rows)
    (auto simp: selected_uuids_def map_filter_simps bind_eq_Some_conv split: option.splits if_splits)

lemma deletable_rule:
  "isDeletableManagedRule row \<Longrightarrow> it_desired row = Some d \<Longrightarrow> \<not> de_protected d \<and>
    it_state row \<noteq> ProtectedState \<and> \<not> isIptablesSystemPresetScope (r_scope (it_rule row))"
  by (simp add: isDeletableManagedRule_def)

lemma selected_uuids_deletable:
  assumes "u \<in> set (selected_uuids (filter isDeletableManagedRule rows))"
  shows "\<exists>row \<in> set rows. \<exists>d. it_desired row = Some d \<and> de_uuid d = u \<and> \<not> de_protected d \<and>
    it_state row \<noteq> ProtectedState \<and> \<not> isIptablesSystemPresetScope (r_scope (it_rule row))"
proof -
  obtain row d where "row \<in> set (filter isDeletableManagedRule rows)" "it_desired row = Some d" "de_uuid d = u"
    using selected_uuids_rows [OF assms] by blast
  with deletable_rule [of row d] show ?thesis by auto
qed

definition report :: "nat \<Rightarrow> nat \<Rightarrow> nat \<Rightarrow> (string \<times> nat list) list" where
  "report s f n = (if s > 0 then [(''commons.msg.operationSuccess'', [s, n])] else []) @
     (if f > 0 then [(''commons.msg.operationFailed'', [f, n])] else [])"

lemma report_sent:
  "(let q = request_sent rs pg; q = (if s > 0 then tell ''commons.msg.operationSuccess'' [s, n] q else q)
    in if f > 0 then tell ''commons.msg.operationFailed'' [f, n] q else q) =
   pg\<lparr>requests := requests pg @ rs, page_messages := page_messages pg @ report s f n\<rparr>"
  by (cases "s > 0"; cases "f > 0") (simp_all add: request_sent_def tell_def report_def)

lemma removeRules_sent:
  assumes l: "delete_loop answer 0 (batches 256 (selected_uuids rows)) = (out, s, f, good)" and rows: "rows \<noteq> []"
  shows "fst (removeRules True answer an rows pg) =
    fst (search an (pg\<lparr>requests := requests pg @ map DeleteRequest out,
      page_messages := page_messages pg @ (if good then report s f (length (selected_uuids rows)) else [])\<rparr>))"
proof -
  have both: "fst (case x of (p, b) \<Rightarrow> (p, good \<and> b)) = fst x" for x :: "rule_page \<times> bool"
    by (simp split: prod.split)
  have no: "(rows = [] \<or> \<not> True) = False" using rows by simp
  let ?n = "length (selected_uuids rows)"
  have "fst (removeRules True answer an rows pg) = fst (search an
     (let q = request_sent (map DeleteRequest out) pg;
          q = (if good \<and> s > 0 then tell ''commons.msg.operationSuccess'' [s, ?n] q else q)
      in if good \<and> f > 0 then tell ''commons.msg.operationFailed'' [f, ?n] q else q))"
    unfolding removeRules_def no if_False Let_def l prod.case both ..
  also have "(let q = request_sent (map DeleteRequest out) pg;
          q = (if good \<and> s > 0 then tell ''commons.msg.operationSuccess'' [s, ?n] q else q)
      in if good \<and> f > 0 then tell ''commons.msg.operationFailed'' [f, ?n] q else q) =
      pg\<lparr>requests := requests pg @ map DeleteRequest out,
        page_messages := page_messages pg @ (if good then report s f ?n else [])\<rparr>"
  proof (cases good)
    case True
    then have g: "(good \<and> b) = b" for b by blast
    show ?thesis unfolding g if_P [OF True] by (rule report_sent)
  next
    case False
    then have g: "(good \<and> b) = False" for b by blast
    show ?thesis unfolding g if_not_P [OF False] if_False Let_def request_sent_def by simp
  qed
  finally show ?thesis .
qed

text \<open>C20: A deletion of the selected rules that is not confirmed, or has no rule to delete, changes
  nothing and sends nothing.  Otherwise it asks for the selected rules in order, in requests of at
  most 256, and never for a rule that is protected or belongs to the presets of the system.  Either
  every request is answered: then all the rules were asked for, and the page reports the sum of the
  rules deleted, if any, and the sum of those not deleted, if any.  Or a request fails: then it is
  the last one sent and the page reports nothing at all, although the earlier ones were answered.
  In both cases the rules are loaded again.\<close>

theorem deletion_report:
  assumes "removeSelectedRules yes answer an pg = (pg', ok)"
  shows "let rows = filter isDeletableManagedRule (selects pg); us = selected_uuids rows in
    if rows = [] \<or> \<not> yes then pg' = pg
    else \<exists>out rest ms. requests pg' = requests pg @ map DeleteRequest out @ map SearchRequest rest \<and>
      page_messages pg' = page_messages pg @ ms \<and>
      pg' = fst (search an (pg\<lparr>requests := requests pg @ map DeleteRequest out, page_messages := page_messages pg @ ms\<rparr>)) \<and>
      (\<forall>b \<in> set out. length b \<le> 256) \<and> prefix (concat out) us \<and>
      (\<forall>u \<in> set (concat out). \<exists>row \<in> set (selects pg). \<exists>d. it_desired row = Some d \<and> de_uuid d = u \<and>
         \<not> de_protected d \<and> it_state row \<noteq> ProtectedState \<and> \<not> isIptablesSystemPresetScope (r_scope (it_rule row))) \<and>
      (if \<forall>i < length out. answer i \<noteq> None then
         concat out = us \<and>
         (let deleted = (\<Sum>i<length out. fst (the (answer i))); kept = (\<Sum>i<length out. snd (the (answer i))) in
          ms = (if deleted > 0 then [(''commons.msg.operationSuccess'', [deleted, length us])] else []) @
               (if kept > 0 then [(''commons.msg.operationFailed'', [kept, length us])] else []))
       else answer (length out - 1) = None \<and> (\<forall>i < length out - 1. answer i \<noteq> None) \<and> ms = [])"
proof -
  let ?rows = "filter isDeletableManagedRule (selects pg)"
  let ?us = "selected_uuids ?rows"
  show ?thesis
  proof (cases "?rows = [] \<or> \<not> yes")
    case True
    then have "pg' = pg" using assms by (auto simp: removeSelectedRules_def removeRules_def)
    with True show ?thesis unfolding Let_def by simp
  next
    case False
    obtain out s f good where l: "delete_loop answer 0 (batches 256 ?us) = (out, s, f, good)"
      by (metis prod_cases4)
    define ms where "ms = (if good then report s f (length ?us) else [])"
    have s: "pg' = fst (search an (pg\<lparr>requests := requests pg @ map DeleteRequest out, page_messages := page_messages pg @ ms\<rparr>))"
      using removeRules_sent [OF l, of an pg] False assms by (simp add: removeSelectedRules_def ms_def)
    obtain rest where pg': "requests pg' = requests pg @ map DeleteRequest out @ map SearchRequest rest"
      "page_messages pg' = page_messages pg @ ms"
      using search_requests [of an "pg\<lparr>requests := requests pg @ map DeleteRequest out,
        page_messages := page_messages pg @ ms\<rparr>", OF surjective_pairing] unfolding s [symmetric] by auto
    note d = delete_loop_sent [OF l]
    have len: "\<forall>b \<in> set out. length b \<le> 256"
      using d length_batches_le set_mono_prefix by blast
    have p: "prefix (concat out) ?us"
    proof -
      obtain more where "batches 256 ?us = out @ more" using d by (auto elim: prefixE)
      then have "concat (batches 256 ?us) = concat out @ concat more" by simp
      then show ?thesis by (simp add: concat_batches)
    qed
    have us: "\<forall>u \<in> set (concat out). \<exists>row \<in> set (selects pg). \<exists>d. it_desired row = Some d \<and> de_uuid d = u \<and>
        \<not> de_protected d \<and> it_state row \<noteq> ProtectedState \<and> \<not> isIptablesSystemPresetScope (r_scope (it_rule row))"
      using set_mono_prefix [OF p] selected_uuids_deletable by blast
    have good: "(\<forall>i < length out. answer i \<noteq> None) \<longleftrightarrow> good"
      using d by (cases good) (auto intro!: exI [of _ "length out - 1"])
    have all: "concat out = ?us" "s = (\<Sum>i<length out. fst (the (answer i)))"
      "f = (\<Sum>i<length out. snd (the (answer i)))" if good
      using d that by (simp_all add: concat_batches)
    have r: "if \<forall>i < length out. answer i \<noteq> None then
         concat out = ?us \<and>
         (let deleted = (\<Sum>i<length out. fst (the (answer i))); kept = (\<Sum>i<length out. snd (the (answer i))) in
          ms = (if deleted > 0 then [(''commons.msg.operationSuccess'', [deleted, length ?us])] else []) @
               (if kept > 0 then [(''commons.msg.operationFailed'', [kept, length ?us])] else []))
       else answer (length out - 1) = None \<and> (\<forall>i < length out - 1. answer i \<noteq> None) \<and> ms = []"
    proof (cases good)
      case True
      with all show ?thesis unfolding good Let_def by (simp only: if_True simp_thms) (simp add: ms_def report_def)
    next
      case False
      with d show ?thesis unfolding good by (simp add: ms_def)
    qed
    show ?thesis
      unfolding Let_def if_not_P [OF False]
      by (intro exI [of _ out] exI [of _ rest] exI [of _ ms] conjI pg' s len p us r [unfolded Let_def])
  qed
qed

section \<open>Ports\<close>

lemma range_units: "c \<in> set (range_text a b) \<Longrightarrow> is_digit c \<or> c = 45"
  using digits_units by (auto simp: range_text_def split: if_splits)

lemma js_int_of_nat [simp]: "js_int (Fin (of_nat n)) = Some (int n)"
  by (simp add: js_int_def)

lemma split_range: "js_split (lit ''-'') (digits_of_nat a @ 45 # digits_of_nat b) = [digits_of_nat a, digits_of_nat b]"
proof -
  have "45 \<notin> set (digits_of_nat n)" for n using digits_units [of 45 n] by (auto simp: is_digit_def)
  then show ?thesis by (simp add: js_split_unit split_unit_append_sep split_unit_fresh)
qed

lemma segment_range:
  assumes "a \<le> b"
  shows "port_segment (range_text a b) q \<longleftrightarrow> int a \<le> q \<and> q \<le> int b"
proof -
  have no: "c \<notin> set (digits_of_nat n)" if "\<not> is_digit c" for c n using digits_units that by blast
  have trim: "trim (range_text a b) = range_text a b" by (rule trim_range_text)
  show ?thesis
  proof (cases "a = b")
    case True
    have "Fin (of_nat a) = Fin (of_int q) \<longleftrightarrow> q = int a" 
    proof -
      have "(of_nat a :: rat) = of_int (int a)" by simp
      then show ?thesis by (simp only: of_int_eq_iff jsnum.inject) auto
    qed
    with True show ?thesis
      unfolding port_segment_def trim by (auto simp: range_text_def no is_digit_def Let_def)
  next
    case False
    then have "range_text a b = digits_of_nat a @ 45 # digits_of_nat b" by (simp add: range_text_def)
    then show ?thesis
      unfolding port_segment_def trim by (simp add: split_range [simplified] Let_def)
  qed
qed

text \<open>C21: The page counts a listening port to a rule exactly when one of the ports or ranges that were typed into
  the form covers it, whichever way they were written and although the rule holds one text for them all.\<close>

theorem rule_port_covers:
  assumes "map_throw normalizePortRange ps = Inr ns" "ps \<noteq> []"
  shows "isPortInRule (Some (js_join (lit '','') ns)) q \<longleftrightarrow>
    (\<exists>p \<in> set ps. \<exists>a b. normalizePortRange p = Inr (range_text a b) \<and> 1 \<le> a \<and> a \<le> b \<and> b \<le> 65535 \<and>
       int a \<le> q \<and> q \<le> int b)"
proof -
  have set: "set ns = {n. \<exists>p \<in> set ps. normalizePortRange p = Inr n}" by (rule map_throw_results [OF assms(1)])
  have range: "\<exists>a b. 1 \<le> a \<and> a \<le> b \<and> b \<le> 65535 \<and> n = range_text a b" if "n \<in> set ns" for n
    using that normalizePortRange_InrD unfolding set by blast
  have units: "is_digit c \<or> c = 45" if "n \<in> set ns" "c \<in> set n" for n c
    using range [OF that(1)] range_units that(2) by blast
  have ne: "ns \<noteq> []"
    using assms by (cases ps) (auto split: sum.splits)
  have split: "js_split (lit '','') (js_join (lit '','') ns) = ns"
    using ne units by (fastforce simp: js_split_unit is_digit_def intro: split_join_unit)
  have "c = 44 \<or> is_digit c \<or> c = 45" if "c \<in> set (js_join (lit '','') ns)" for c
    using that units by (induction "lit '',''" ns rule: js_join.induct) auto
  then have trim: "trim (js_join (lit '','') ns) = js_join (lit '','') ns" and star: "js_join (lit '','') ns \<noteq> lit ''*''"
    by (force intro: trim_no_space simp: is_space_def is_digit_def)+
  have "range_text a b \<noteq> []" for a b by (simp add: range_text_def del: lit_simps)
  then have "hd ns \<noteq> []" using ne range hd_in_set by metis
  then have "js_join (lit '','') ns \<noteq> []" using ne by (induction "lit '',''" ns rule: js_join.induct) auto
  then have "isPortInRule (Some (js_join (lit '','') ns)) q \<longleftrightarrow> (\<exists>n \<in> set ns. port_segment n q)"
    using trim star split by (simp add: isPortInRule_def or_empty_def list_ex_iff)
  also have "\<dots> \<longleftrightarrow> (\<exists>n \<in> set ns. \<exists>a b. n = range_text a b \<and> 1 \<le> a \<and> a \<le> b \<and> b \<le> 65535 \<and> int a \<le> q \<and> q \<le> int b)"
    using range segment_range by metis
  also have "\<dots> \<longleftrightarrow> (\<exists>p \<in> set ps. \<exists>a b. normalizePortRange p = Inr (range_text a b) \<and> 1 \<le> a \<and> a \<le> b \<and> b \<le> 65535 \<and>
       int a \<le> q \<and> q \<le> int b)"
    unfolding set by auto
  finally show ?thesis .
qed

section \<open>Pages\<close>

lemma concat_pages: "concat (map (\<lambda>n. take k (drop (n * k) xs)) [0..<m]) = take (m * k) xs"
  by (induction m) (simp_all add: take_add add.commute [of k])

lemma last_page_covers:
  assumes "0 < pageSize pg"
  shows "length (filteredItems pg) \<le> last_page pg * pageSize pg"
proof -
  let ?n = "length (filteredItems pg)" and ?k = "pageSize pg"
  have "?n + ?k - 1 < (?n + ?k - 1) div ?k * ?k + ?k" using assms 
    using div_mult_mod_eq [of "?n + ?k - 1" ?k] mod_less_divisor [OF assms, of "?n + ?k - 1"] by linarith
  then have "?n \<le> (?n + ?k - 1) div ?k * ?k" using assms by linarith
  also have "\<dots> \<le> last_page pg * ?k" by (simp add: last_page_def)
  finally show ?thesis .
qed

lemma before_last_page:
  assumes "0 < pageSize pg" "n < last_page pg" "filteredItems pg \<noteq> []"
  shows "n * pageSize pg < length (filteredItems pg)"
proof -
  let ?n = "length (filteredItems pg)" and ?k = "pageSize pg"
  have "n < (?n + ?k - 1) div ?k \<or> n = 0" using assms(2) by (auto simp: last_page_def)
  then show ?thesis
  proof
    assume "n < (?n + ?k - 1) div ?k"
    then have "Suc n * ?k \<le> ?n + ?k - 1" using assms(1) by (metis Suc_leI less_eq_div_iff_mult_less_eq)
    with assms(1) show ?thesis by simp
  qed (use assms(3) in simp)
qed

text \<open>The filtered rows depend on four of the fields.\<close>

lemma filters_agree: "selectedRuleFilters a = selectedRuleFilters b \<Longrightarrow> matchesRuleFilters a = matchesRuleFilters b"
  by (rule ext) (simp only: matchesRuleFilters_def)

lemma filteredItems_agree:
  assumes "selectedRuleFilters a = selectedRuleFilters b" "searchName a = searchName b"
    "visibleIptablesChains a = visibleIptablesChains b" "inventoryItems a = inventoryItems b"
  shows "filteredItems a = filteredItems b"
proof -
  have "row_shown a = row_shown b"
    by (rule ext) (simp only: row_shown_def filters_agree [OF assms(1)] assms)
  then show ?thesis by (simp only: filteredItems_def assms(4))
qed

lemma filteredItems_page:
  "filteredItems (pg\<lparr>currentPage := n\<rparr>) = filteredItems pg" "filteredItems (pg\<lparr>total := t\<rparr>) = filteredItems pg"
  by (rule filteredItems_agree; simp)+

text \<open>The pages up to the last one are a division of the filtered rows, in order; and whatever page was open,
  the one the watcher leaves open exists, and is empty only when no row is left at all.\<close>

theorem pages_divide_rows:
  assumes "0 < pageSize pg" "0 < currentPage pg"
  shows "concat (map (\<lambda>n. pagedItems (pg\<lparr>currentPage := n\<rparr>)) [1..<Suc (last_page pg)]) = filteredItems pg \<and>
    1 \<le> currentPage (watch_items pg) \<and> currentPage (watch_items pg) \<le> last_page pg \<and>
    (pagedItems (watch_items pg) = [] \<longleftrightarrow> filteredItems pg = [])"
proof -
  let ?k = "pageSize pg" and ?xs = "filteredItems pg"
  note f = filteredItems_page
  have page: "pagedItems (pg\<lparr>currentPage := n\<rparr>) = take ?k (drop ((n - 1) * ?k) ?xs)" for n
    by (simp add: pagedItems_def f)
  have "[1..<Suc (last_page pg)] = map Suc [0..<last_page pg]" by (simp add: map_Suc_upt del: upt_Suc)
  then have "map (\<lambda>n. pagedItems (pg\<lparr>currentPage := n\<rparr>)) [1..<Suc (last_page pg)] =
      map (\<lambda>n. take ?k (drop (n * ?k) ?xs)) [0..<last_page pg]"
    by (simp only: page map_map comp_def diff_Suc_1)
  then have "concat (map (\<lambda>n. pagedItems (pg\<lparr>currentPage := n\<rparr>)) [1..<Suc (last_page pg)]) = ?xs"
    using last_page_covers [OF assms(1)] by (simp only: concat_pages take_all)
  moreover have c: "1 \<le> currentPage (watch_items pg)" "currentPage (watch_items pg) \<le> last_page pg"
    using assms(2) by (auto simp: watch_items_def last_page_def)
  moreover have "pagedItems (watch_items pg) = [] \<longleftrightarrow> ?xs = []"
  proof -
    define n where "n = currentPage (watch_items pg) - 1"
    have "pagedItems (watch_items pg) = take ?k (drop (n * ?k) ?xs)"
      by (simp add: n_def pagedItems_def watch_items_def f)
    moreover have "n < last_page pg" using c by (simp add: n_def)
    then have "?xs \<noteq> [] \<Longrightarrow> n * ?k < length ?xs" using before_last_page [OF assms(1)] by simp
    ultimately show ?thesis using assms(1) by (cases "?xs = []") auto
  qed
  ultimately show ?thesis by blast
qed

section \<open>Examples\<close>

text \<open>A chain of nftables: a protected rule, two managed ones and an external one.\<close>

definition sample_inventory :: "int \<Rightarrow> inventory_state \<Rightarrow> jstring option \<Rightarrow> inventory" where
  "sample_inventory position st uuid =
     (let r = \<lparr>r_uuid = uuid, r_scope = chain_scope Nftables IPv4 (lit ''WORKMESH_BASIC''), r_nativeKind = None,
            r_protocol = lit ''tcp'', r_sourceAddress = None, r_sourcePort = None, r_destinationAddress = None,
            r_destinationPort = Some (lit ''80''), r_interface = None, r_connectionStates = None, r_action = Accept,
            r_priority = None, r_orderIndex = Some position, r_orderBucket = None, r_description = None\<rparr>
      in \<lparr>it_rule = r,
          it_observed = Some \<lparr>ob_rule = r,
            ob_locator = \<lparr>lo_provider = Nftables, lo_nativeId = None, lo_canonical = None, lo_position = Some position\<rparr>,
            ob_instanceKey = None, ob_marker = None, ob_parseStatus = Supported, ob_raw = None, ob_persistence = None\<rparr>,
          it_desired = map_option (\<lambda>u. \<lparr>de_uuid = u, de_rule = r, de_origin = Created, de_protected = False\<rparr>) uuid,
          it_state = st, it_match = MatchExact\<rparr>)"

definition sample_page :: rule_page where
  "sample_page =
     \<lparr>pg_provider = Some Nftables, isActive = True, isInit = True, isBind = True, firewallVersion = [],
      selectedRuleFilters = [], visibleIptablesChains = iptablesChains, searchName = [],
      inventoryItems = [sample_inventory 1 ProtectedState (Some (lit ''p'')), sample_inventory 2 ManagedState (Some (lit ''a'')),
        sample_inventory 3 ManagedState (Some (lit ''b'')), sample_inventory 4 ExternalState None],
      listeningProcesses = [], dockerEndpoints = [],
      selects = [sample_inventory 1 ProtectedState (Some (lit ''p'')), sample_inventory 3 ManagedState (Some (lit ''b''))],
      scopeNotices = [], currentPage = 7, pageSize = 3, total = 0, requests = [], page_messages = []\<rparr>"

lemma sample_inventory_simps [simp]:
  "row_position (sample_inventory p st u) = Some p" "it_state (sample_inventory p st u) = st"
  "it_desired (sample_inventory p st u) = map_option (\<lambda>u. \<lparr>de_uuid = u, de_rule = it_rule (sample_inventory p st (Some u)),
     de_origin = Created, de_protected = False\<rparr>) u"
  "r_scope (it_rule (sample_inventory p st u)) = chain_scope Nftables IPv4 (lit ''WORKMESH_BASIC'')"
  by (cases u; simp add: sample_inventory_def row_position_def Let_def)+

lemma sample_editable [simp]:
  "isEditableManagedRule (sample_inventory p st (Some u)) \<longleftrightarrow> u \<noteq> [] \<and> st \<noteq> DriftedState \<and> st \<noteq> ProtectedState"
  "\<not> isEditableManagedRule (sample_inventory p st None)"
  by (auto simp: isEditableManagedRule_def isIptablesSystemPresetScope_def chain_scope_def)

lemma sample_scope [simp]:
  "sameIptablesPositionScope (it_rule (sample_inventory p st u)) IPv4 (lit ''WORKMESH_BASIC'')"
  by (simp add: sameIptablesPositionScope_def chain_scope_def)

theorem edit_stays_among_editable_witness:
  "let s = openEdit sample_page (sample_inventory 3 ManagedState (Some (lit ''b''))) initial_form in
    priority (form s) = Some 3 \<and> 1 < priorityMin s \<and> priorityMin s \<le> 3 \<and> priorityMax s = 3"
proof -
  let ?row = "sample_inventory 3 ManagedState (Some (lit ''b''))"
  have items: "inventoryItems sample_page = [sample_inventory 1 ProtectedState (Some (lit ''p'')),
    sample_inventory 2 ManagedState (Some (lit ''a'')), ?row, sample_inventory 4 ExternalState None]"
    by (simp add: sample_page_def)
  have direct: "isDirectBackend sample_page" by (simp add: isDirectBackend_def sample_page_def)
  have chain: "\<forall>a \<in> set (chain_rows sample_page IPv4 (lit ''WORKMESH_BASIC'')).
      \<forall>b \<in> set (chain_rows sample_page IPv4 (lit ''WORKMESH_BASIC'')). key a \<noteq> 0 \<longrightarrow> key a = key b \<longrightarrow> a = b"
    by (auto simp: set_chain_rows items position_or_def simp del: lit_simps)
  have row: "?row \<in> set (inventoryItems sample_page)" "isEditableManagedRule ?row" "row_position ?row = Some 3"
    "lit ''WORKMESH_BASIC'' \<noteq> []" "(0 :: int) < 3" "IPv4 \<noteq> Inet"
    by (simp_all add: items)
  note w = edit_stays_among_editable [OF direct row(1-3,5) sample_scope row(4,6) chain, of initial_form]
  let ?s = "openEdit sample_page ?row initial_form"
  have b: "priority (form ?s) = Some 3" "priorityMin ?s \<le> 3" "3 \<le> priorityMax ?s" using w unfolding Let_def by blast+
  have e: "isEditableManagedRule (sample_inventory k st u)"
    if "sample_inventory k st u \<in> set (inventoryItems sample_page)" "priorityMin ?s \<le> k" "k \<le> priorityMax ?s" for k st u
    using w that sample_scope sample_inventory_simps(1) unfolding Let_def by blast
  have "\<not> priorityMin ?s \<le> 1" using e [of 1 ProtectedState "Some (lit ''p'')"] b by (auto simp: items simp del: lit_simps)
  moreover have "\<not> 4 \<le> priorityMax ?s" using e [of 4 ExternalState None] b by (auto simp: items simp del: lit_simps)
  ultimately show ?thesis unfolding Let_def using b by linarith
qed

theorem deletion_report_witness:
  "\<exists>out rest. requests (fst (removeSelectedRules True (\<lambda>_. Some (1, 0)) \<lparr>an_scope = (\<lambda>_. None), an_processes = None,
      an_endpoints = None\<rparr> sample_page)) = map DeleteRequest out @ map SearchRequest rest \<and> concat out = [lit ''b'']"
proof -
  obtain pg' ok where r: "removeSelectedRules True (\<lambda>_. Some (1, 0)) \<lparr>an_scope = (\<lambda>_. None), an_processes = None,
      an_endpoints = None\<rparr> sample_page = (pg', ok)" by fastforce
  have rows: "filter isDeletableManagedRule (selects sample_page) = [sample_inventory 3 ManagedState (Some (lit ''b''))]"
    by (simp add: sample_page_def isDeletableManagedRule_def isIptablesSystemPresetScope_def chain_scope_def)
  have us: "selected_uuids [sample_inventory 3 ManagedState (Some (lit ''b''))] = [lit ''b'']"
    by (simp add: selected_uuids_def map_filter_simps)
  note d = deletion_report [OF r, unfolded rows us Let_def]
  have "requests sample_page = []" by (simp add: sample_page_def)
  with d show ?thesis unfolding r fst_conv by (auto simp del: lit_simps)
qed

theorem rule_port_covers_witness: "isPortInRule (Some (lit ''80-90,443'')) 85"
proof -
  have n: "normalizePortRange (lit ''80:90'') = Inr (range_text 80 90)"
    "normalizePortRange (lit ''443'') = Inr (range_text 443 443)" by code_simp+
  then have m: "map_throw normalizePortRange [lit ''80:90'', lit ''443''] = Inr [range_text 80 90, range_text 443 443]"
    by (simp del: lit_simps)
  have t: "js_join (lit '','') [range_text 80 90, range_text 443 443] = lit ''80-90,443''" by code_simp
  have "\<exists>p \<in> set [lit ''80:90'', lit ''443'']. \<exists>a b. normalizePortRange p = Inr (range_text a b) \<and> 1 \<le> a \<and> a \<le> b \<and>
      b \<le> 65535 \<and> int a \<le> 85 \<and> 85 \<le> int b"
    by (rule bexI [of _ "lit ''80:90''"], intro exI [of _ 80] exI [of _ 90]) (simp_all add: n del: lit_simps)
  then show ?thesis using rule_port_covers [OF m, unfolded t] by blast
qed

theorem pages_divide_rows_witness:
  "currentPage (watch_items sample_page) \<le> last_page sample_page \<and> pagedItems (watch_items sample_page) \<noteq> []"
proof -
  have "filteredItems sample_page \<noteq> []" by code_simp
  moreover have "0 < pageSize sample_page" "0 < currentPage sample_page" by (simp_all add: sample_page_def)
  ultimately show ?thesis using pages_divide_rows [of sample_page] by blast
qed

end
