(* ===== verification/Utf8.thy ===== *)
theory Utf8
  imports JsNumber
begin

text \<open>
  \<^verbatim>\<open>TextEncoder\<close> and \<^verbatim>\<open>TextDecoder\<close> of the language's runtime: UTF-16 units to bytes and back, with
  the replacement character for what is no text, as the Encoding Standard has it.
\<close>

section \<open>Encoding\<close>

definition high_surrogate :: "nat \<Rightarrow> bool" where
  "high_surrogate c \<longleftrightarrow> 55296 \<le> c \<and> c \<le> 56319"

definition low_surrogate :: "nat \<Rightarrow> bool" where
  "low_surrogate c \<longleftrightarrow> 56320 \<le> c \<and> c \<le> 57343"

definition lone_scalar :: "nat \<Rightarrow> nat" where
  "lone_scalar c = (if high_surrogate c \<or> low_surrogate c then 65533 else c)"

fun scalars :: "jstring \<Rightarrow> nat list" where
  "scalars [] = []"
| "scalars [c] = [lone_scalar c]"
| "scalars (c # d # s) =
     (if high_surrogate c \<and> low_surrogate d then (65536 + (c - 55296) * 1024 + (d - 56320)) # scalars s
      else lone_scalar c # scalars (d # s))"

definition utf8_bytes :: "nat \<Rightarrow> nat list" where
  "utf8_bytes n =
     (if n < 128 then [n]
      else if n < 2048 then [192 + n div 64, 128 + n mod 64]
      else if n < 65536 then [224 + n div 4096, 128 + n div 64 mod 64, 128 + n mod 64]
      else [240 + n div 262144, 128 + n div 4096 mod 64, 128 + n div 64 mod 64, 128 + n mod 64])"

definition encode_text :: "jstring \<Rightarrow> nat list" where
  "encode_text s = concat (map utf8_bytes (scalars s))"

section \<open>Decoding\<close>

text \<open>What is open: how many bytes are missing, the bits so far, and the bounds of the next byte.\<close>

type_synonym utf8_state = "(nat \<times> nat \<times> nat \<times> nat) option"

definition begin_byte :: "nat \<Rightarrow> nat list \<times> utf8_state" where
  "begin_byte b =
     (if b < 128 then ([b], None)
      else if 194 \<le> b \<and> b \<le> 223 then ([], Some (1, b - 192, 128, 191))
      else if 224 \<le> b \<and> b \<le> 239 then
        ([], Some (2, b - 224, if b = 224 then 160 else 128, if b = 237 then 159 else 191))
      else if 240 \<le> b \<and> b \<le> 244 then
        ([], Some (3, b - 240, if b = 240 then 144 else 128, if b = 244 then 143 else 191))
      else ([65533], None))"

fun decode_bytes :: "utf8_state \<Rightarrow> nat list \<Rightarrow> nat list" where
  "decode_bytes st [] = (case st of None \<Rightarrow> [] | Some _ \<Rightarrow> [65533])"
| "decode_bytes None (b # bs) = (let (out, st) = begin_byte b in out @ decode_bytes st bs)"
| "decode_bytes (Some (need, bits, lo, hi)) (b # bs) =
     (if lo \<le> b \<and> b \<le> hi then
        let bits = bits * 64 + (b - 128)
        in if need \<le> 1 then bits # decode_bytes None bs else decode_bytes (Some (need - 1, bits, 128, 191)) bs
      else let (out, st) = begin_byte b in 65533 # out @ decode_bytes st bs)"

definition utf16_units :: "nat \<Rightarrow> jstring" where
  "utf16_units n = (if n < 65536 then [n] else [55296 + (n - 65536) div 1024, 56320 + (n - 65536) mod 1024])"

text \<open>A byte order mark at the beginning is dropped.\<close>

definition decode_text :: "nat list \<Rightarrow> jstring" where
  "decode_text bs =
     concat (map utf16_units (decode_bytes None (if take 3 bs = [239, 187, 191] then drop 3 bs else bs)))"

section \<open>Facts\<close>

text \<open>A byte of ASCII always becomes the unit it stands for, whatever is around it.\<close>

definition ascii_safe :: "utf8_state \<Rightarrow> bool" where
  "ascii_safe st = (case st of None \<Rightarrow> True | Some (need, bits, lo, hi) \<Rightarrow> 128 \<le> lo)"

lemma begin_byte_safe: "begin_byte b = (out, st) \<Longrightarrow> ascii_safe st"
  by (auto simp: begin_byte_def ascii_safe_def split: if_splits)

lemma begin_byte_ascii: "b < 128 \<Longrightarrow> begin_byte b = ([b], None)"
  by (simp add: begin_byte_def)

lemma decode_bytes_ascii: "ascii_safe st \<Longrightarrow> b < 128 \<Longrightarrow> b \<in> set bs \<Longrightarrow> b \<in> set (decode_bytes st bs)"
proof (induction st bs rule: decode_bytes.induct)
  case (2 c bs)
  obtain out st where c: "begin_byte c = (out, st)" by fastforce
  have "b \<in> set out \<or> b \<in> set (decode_bytes st bs)"
  proof (cases "b = c")
    case True
    with 2(3) c have "out = [b]" by (auto simp: begin_byte_ascii)
    then show ?thesis by simp
  next
    case False
    with 2(4) 2(1) [OF c [symmetric] refl begin_byte_safe [OF c] 2(3)] show ?thesis by simp
  qed
  then show ?case by (simp only: decode_bytes.simps c Let_def prod.case set_append Un_iff)
next
  case (3 need bits lo hi c bs)
  obtain out st where c: "begin_byte c = (out, st)" by fastforce
  show ?case
  proof (cases "lo \<le> c \<and> c \<le> hi")
    case True
    with 3(4-6) have "b \<in> set bs" by (auto simp: ascii_safe_def)
    then show ?thesis
      using True 3(1,2) [OF True refl _ _ 3(5)] by (simp add: ascii_safe_def Let_def)
  next
    case False
    have "b \<in> set out \<or> b \<in> set (decode_bytes st bs)"
    proof (cases "b = c")
      case True
      with 3(5) c have "out = [b]" by (auto simp: begin_byte_ascii)
      then show ?thesis by simp
    next
      case neq: False
      with 3(6) 3(3) [OF False c [symmetric] refl begin_byte_safe [OF c] 3(5)] show ?thesis by simp
    qed
    moreover have "decode_bytes (Some (need, bits, lo, hi)) (c # bs) = 65533 # out @ decode_bytes st bs"
      unfolding decode_bytes.simps if_not_P [OF False] c Let_def by simp
    ultimately show ?thesis by simp
  qed
qed simp

lemma decode_text_ascii:
  assumes "b < 128" "b \<in> set bs"
  shows "b \<in> set (decode_text bs)"
proof -
  have "b \<in> set (if take 3 bs = [239, 187, 191] then drop 3 bs else bs)"
  proof (cases "take 3 bs = [239, 187, 191]")
    case True
    have "b \<notin> set (take 3 bs)" using True assms(1) by auto
    moreover have "set bs = set (take 3 bs) \<union> set (drop 3 bs)" by (simp only: set_append [symmetric] append_take_drop_id)
    ultimately show ?thesis using assms(2) True by auto
  qed (simp add: assms(2))
  then have "b \<in> set (decode_bytes None (if take 3 bs = [239, 187, 191] then drop 3 bs else bs))"
    using assms(1) by (intro decode_bytes_ascii) (auto simp: ascii_safe_def)
  moreover have "b \<in> set (utf16_units b)" using assms(1) by (simp add: utf16_units_def)
  ultimately show ?thesis by (auto simp: decode_text_def)
qed

text \<open>So does a control character beyond ASCII, whose two bytes begin with 194: that byte never continues another
  character.\<close>

definition lead_safe :: "utf8_state \<Rightarrow> bool" where
  "lead_safe st = (case st of None \<Rightarrow> True | Some (need, bits, lo, hi) \<Rightarrow> hi \<le> 191)"

lemma begin_byte_lead_safe: "begin_byte b = (out, st) \<Longrightarrow> lead_safe st"
  by (auto simp: begin_byte_def lead_safe_def split: if_splits)

lemma decode_c1_start:
  "128 \<le> c \<Longrightarrow> c \<le> 159 \<Longrightarrow> decode_bytes None (194 # c # ys) = c # decode_bytes None ys"
  by (simp add: begin_byte_def Let_def)

lemma decode_c1_break:
  assumes "128 \<le> c" "c \<le> 159" "lead_safe st"
  shows "c \<in> set (decode_bytes st (194 # c # ys))"
proof (cases st)
  case None
  then show ?thesis using decode_c1_start [OF assms(1,2)] by simp
next
  case (Some x)
  obtain need bits lo hi where x: "x = (need, bits, lo, hi)" by (metis prod_cases4)
  have no: "\<not> (lo \<le> 194 \<and> 194 \<le> hi)" using assms(3) Some x by (simp add: lead_safe_def)
  have "decode_bytes st (194 # c # ys) = 65533 # decode_bytes None (194 # c # ys)"
    unfolding Some x decode_bytes.simps(3) if_not_P [OF no] decode_bytes.simps(2)
    by (simp only: Let_def case_prod_beta append_Nil)
  then show ?thesis using decode_c1_start [OF assms(1,2)] by simp
qed

lemma decode_bytes_c1:
  "lead_safe st \<Longrightarrow> 128 \<le> c \<Longrightarrow> c \<le> 159 \<Longrightarrow> bs = xs @ 194 # c # ys \<Longrightarrow> c \<in> set (decode_bytes st bs)"
proof (induction st bs arbitrary: xs rule: decode_bytes.induct)
  case (2 b bs)
  obtain out st where b: "begin_byte b = (out, st)" by fastforce
  show ?case
  proof (cases xs)
    case Nil
    with 2(5) show ?thesis using decode_c1_break [OF 2(3,4), of None] by (simp add: lead_safe_def)
  next
    case (Cons x zs)
    then have "c \<in> set (decode_bytes st bs)"
      using 2(1) [OF b [symmetric] refl begin_byte_lead_safe [OF b] 2(3,4), of zs] 2(5) by simp
    then show ?thesis by (simp add: b)
  qed
next
  case (3 need bits lo hi b bs)
  obtain out st where b: "begin_byte b = (out, st)" by fastforce
  show ?case
  proof (cases xs)
    case Nil
    with 3(7) show ?thesis using decode_c1_break [OF 3(5,6,4)] by simp
  next
    case (Cons x zs)
    then have bs: "bs = zs @ 194 # c # ys" using 3(7) by simp
    show ?thesis
    proof (cases "lo \<le> b \<and> b \<le> hi")
      case True
      then show ?thesis
        using 3(1,2) [OF True refl _ _ 3(5,6) bs] by (simp add: lead_safe_def Let_def)
    next
      case False
      have "c \<in> set (decode_bytes st bs)"
        by (rule 3(3) [OF False b [symmetric] refl begin_byte_lead_safe [OF b] 3(5,6) bs])
      moreover have "decode_bytes (Some (need, bits, lo, hi)) (b # bs) = 65533 # out @ decode_bytes st bs"
        unfolding decode_bytes.simps if_not_P [OF False] b Let_def by simp
      ultimately show ?thesis by simp
    qed
  qed
qed simp

lemma decode_text_c1:
  assumes "128 \<le> c" "c \<le> 159"
  shows "c \<in> set (decode_text (xs @ 194 # c # ys))"
proof -
  let ?bs = "xs @ 194 # c # ys"
  have "\<exists>zs. (if take 3 ?bs = [239, 187, 191] then drop 3 ?bs else ?bs) = zs @ 194 # c # ys"
  proof (cases "take 3 ?bs = [239, 187, 191]")
    case True
    have "3 \<le> length xs"
    proof (rule ccontr)
      assume "\<not> 3 \<le> length xs"
      then have "194 \<in> set (take 3 ?bs)" by (auto simp: take_Cons' not_le)
      with True show False by auto
    qed
    then show ?thesis using True by simp
  qed auto
  then have "c \<in> set (decode_bytes None (if take 3 ?bs = [239, 187, 191] then drop 3 ?bs else ?bs))"
    using assms by (auto simp: lead_safe_def intro: decode_bytes_c1)
  moreover have "c \<in> set (utf16_units c)" using assms by (simp add: utf16_units_def)
  ultimately show ?thesis by (auto simp: decode_text_def)
qed

end
