(* ===== verification/FooterNav.thy ===== *)
theory FooterNav
  imports Utf8 Regex
begin

text \<open>
  The links in the footer: \<^verbatim>\<open>src/web/src/components/footer-navigation/model.ts\<close> and the component
  \<^verbatim>\<open>index.vue\<close> beside it.  Links come from a setting of the server; only safe addresses are taken
  from it, and only safe ones are opened.  The browser's URL parser is a parameter, \<open>None\<close> where it
  throws.  A field of another type than the expected one is \<open>None\<close>.
\<close>

section \<open>Safe addresses\<close>

record ext_url =
  u_protocol :: jstring
  u_hostname :: jstring
  u_username :: jstring
  u_password :: jstring
  u_port :: jstring
  u_pathname :: jstring

definition control_unit :: "nat \<Rightarrow> bool" where
  "control_unit c \<longleftrightarrow> c \<le> 31 \<or> 127 \<le> c \<and> c \<le> 159"

definition containsControlCharacter :: "jstring \<Rightarrow> bool" where
  "containsControlCharacter v = list_ex control_unit v"

text \<open>\<open>match(/^[a-z][a-z\d+.-]*:\/\/([^/?#]*)/i)\<close>: the group.\<close>

definition scheme_unit :: "nat \<Rightarrow> bool" where
  "scheme_unit c \<longleftrightarrow> letter c \<or> is_digit c \<or> c = 43 \<or> c = 46 \<or> c = 45"

definition match_authority :: "jstring \<Rightarrow> jstring option" where
  "match_authority v =
     (case v of
        [] \<Rightarrow> None
      | c # t \<Rightarrow>
          let r = dropWhile scheme_unit t in
          if letter c \<and> take 3 r = lit ''://'' then Some (takeWhile (\<lambda>d. d \<noteq> 47 \<and> d \<noteq> 63 \<and> d \<noteq> 35) (drop 3 r))
          else None)"

definition hex_digit_value :: "nat \<Rightarrow> nat" where
  "hex_digit_value c = (if is_digit c then c - 48 else if 97 \<le> c then c - 87 else c - 55)"

definition escaped_byte :: "nat \<Rightarrow> nat \<Rightarrow> nat" where
  "escaped_byte a b = 16 * hex_digit_value a + hex_digit_value b"

text \<open>The loop: \<open>seg\<close> is the text since the last escape.\<close>

fun escape_loop :: "jstring \<Rightarrow> jstring \<Rightarrow> nat list option" where
  "escape_loop seg [] = Some (encode_text seg)"
| "escape_loop seg (c # s) =
     (if c \<noteq> 37 then escape_loop (seg @ [c]) s
      else case s of
        a # b # t \<Rightarrow>
          if hex_unit a \<and> hex_unit b then map_option (\<lambda>bs. encode_text seg @ escaped_byte a b # bs) (escape_loop [] t)
          else None
      | _ \<Rightarrow> None)"

definition decodePercentEscapes :: "jstring \<Rightarrow> jstring option" where
  "decodePercentEscapes v = (if \<not> str_includes v (lit ''%'') then Some v else map_option decode_text (escape_loop [] v))"

definition port_allowed :: "jstring \<Rightarrow> bool" where
  "port_allowed p \<longleftrightarrow> p = [] \<or>
     (case js_Number p of Fin q \<Rightarrow> q = of_int \<lfloor>q\<rfloor> \<and> q \<ge> 1 \<and> q \<le> 65535 | _ \<Rightarrow> False)"

definition isSafeExternalUrl :: "(jstring \<Rightarrow> ext_url option) \<Rightarrow> jstring option \<Rightarrow> bool" where
  "isSafeExternalUrl url_parse v =
     (case v of
        None \<Rightarrow> False
      | Some v \<Rightarrow>
          if containsControlCharacter v then False
          else
            let normalized = trim v in
            if 92 \<in> set normalized then False
            else case match_authority normalized of
              None \<Rightarrow> False
            | Some authority \<Rightarrow>
                if authority = [] \<or> endsWith authority (lit '':'') \<or> str_includes authority (lit ''@'') \<or>
                   str_includes authority (lit ''%'') then False
                else case decodePercentEscapes normalized of
                  None \<Rightarrow> False
                | Some decoded \<Rightarrow>
                    if containsControlCharacter decoded then False
                    else case url_parse normalized of
                      None \<Rightarrow> False
                    | Some u \<Rightarrow> u_protocol u \<in> {lit ''http:'', lit ''https:''} \<and> u_hostname u \<noteq> [] \<and>
                        u_username u = [] \<and> u_password u = [] \<and> port_allowed (u_port u))"

definition isLegacyPanelUrl :: "(jstring \<Rightarrow> ext_url option) \<Rightarrow> jstring \<Rightarrow> bool" where
  "isLegacyPanelUrl url_parse v =
     (case url_parse v of
        None \<Rightarrow> False
      | Some u \<Rightarrow>
          let hostname = toLowerCase (u_hostname u) in
          hostname = lit ''workmesh.cn'' \<or> hostname = lit ''workmesh.pro'' \<or>
          endsWith hostname (lit ''.workmesh.cn'') \<or> endsWith hostname (lit ''.workmesh.pro'') \<or>
          hostname = lit ''github.com'' \<and> startsWith (toLowerCase (u_pathname u)) (lit ''/workmesh-dev/workmesh''))"

section \<open>Links\<close>

datatype link_key = LearnMore | Forum | Documentation | Project

definition footerNavigationKeys :: "link_key list" where
  "footerNavigationKeys = [LearnMore, Forum, Documentation, Project]"

record link =
  visible :: bool
  url :: jstring

text \<open>A link as the server sends it.\<close>

record link_setting =
  set_visible :: "bool option"
  set_url :: "jstring option"

record footer_setting =
  customized :: bool
  links :: "(link_key \<Rightarrow> link_setting option) option"

definition createDefaultFooterNavigationLinks :: "link_key \<Rightarrow> link" where
  "createDefaultFooterNavigationLinks k =
     (case k of
        LearnMore \<Rightarrow> \<lparr>visible = False, url = lit ''https://www.zoomtk.com/workmesh''\<rparr>
      | Forum \<Rightarrow> \<lparr>visible = True, url = lit ''https://www.zoomtk.com/community''\<rparr>
      | Documentation \<Rightarrow> \<lparr>visible = False, url = lit ''https://www.zoomtk.com/docs''\<rparr>
      | Project \<Rightarrow> \<lparr>visible = True, url = lit ''https://www.zoomtk.com/workmesh''\<rparr>)"

definition merge_link :: "(jstring \<Rightarrow> ext_url option) \<Rightarrow> link_setting option \<Rightarrow> link \<Rightarrow> link" where
  "merge_link url_parse c d =
     \<lparr>visible = (case Option.bind c set_visible of Some b \<Rightarrow> b | None \<Rightarrow> visible d),
      url = (case Option.bind c set_url of
               Some u \<Rightarrow> if isSafeExternalUrl url_parse (Some u) \<and> \<not> isLegacyPanelUrl url_parse u then u else url d
             | None \<Rightarrow> url d)\<rparr>"

definition mergeFooterNavigationLinks ::
  "(jstring \<Rightarrow> ext_url option) \<Rightarrow> footer_setting option \<Rightarrow> (link_key \<Rightarrow> link) \<Rightarrow> link_key \<Rightarrow> link" where
  "mergeFooterNavigationLinks url_parse setting defaults =
     (case setting of
        None \<Rightarrow> defaults
      | Some s \<Rightarrow>
          if \<not> customized s then defaults
          else case links s of None \<Rightarrow> defaults | Some cs \<Rightarrow> (\<lambda>k. merge_link url_parse (cs k) (defaults k)))"

section \<open>The component\<close>

text \<open>\<open>waiting\<close> has the requests without an answer, each with its generation; \<open>opened\<close> records the addresses that
  were opened, \<open>applied\<close> the generations whose answer became the setting.\<close>

record footer =
  isEE :: bool
  isFxplay :: bool
  mounted :: bool
  setting :: "footer_setting option"
  loadGeneration :: nat
  waiting :: "nat list"
  opened :: "jstring list"
  applied :: "nat list"

definition visibleLinks :: "(jstring \<Rightarrow> ext_url option) \<Rightarrow> footer \<Rightarrow> (link_key \<times> jstring) list" where
  "visibleLinks url_parse s =
     (let ls = mergeFooterNavigationLinks url_parse (setting s) createDefaultFooterNavigationLinks
      in map (\<lambda>k. (k, url (ls k)))
           (filter (\<lambda>k. if isFxplay s \<and> k \<noteq> Documentation then False else visible (ls k)) footerNavigationKeys))"

definition loadSetting :: "footer \<Rightarrow> footer" where
  "loadSetting s =
     (let g = Suc (loadGeneration s); s = s\<lparr>loadGeneration := g\<rparr>
      in if \<not> isEE s then s\<lparr>setting := None\<rparr> else s\<lparr>waiting := waiting s @ [g]\<rparr>)"

text \<open>The answer to the request of generation \<open>g\<close>; \<open>None\<close> when there is no setting or the request fails.\<close>

definition setting_answered :: "nat \<Rightarrow> footer_setting option \<Rightarrow> footer \<Rightarrow> footer" where
  "setting_answered g answer s =
     (if g \<notin> set (waiting s) then s
      else
        let s = s\<lparr>waiting := remove1 g (waiting s)\<rparr> in
        if g \<noteq> loadGeneration s \<or> \<not> isEE s then s
        else s\<lparr>setting := answer, applied := applied s @ [g]\<rparr>)"

definition openLink :: "(jstring \<Rightarrow> ext_url option) \<Rightarrow> jstring \<Rightarrow> footer \<Rightarrow> footer" where
  "openLink url_parse u s = (if \<not> isSafeExternalUrl url_parse (Some u) then s else s\<lparr>opened := opened s @ [u]\<rparr>)"

datatype footer_event =
    EditionChange bool
  | FxplayChange bool
  | Refresh
  | SettingAnswer nat "footer_setting option"
  | ClickLink nat
  | Unmount

definition footer_step :: "(jstring \<Rightarrow> ext_url option) \<Rightarrow> footer \<Rightarrow> footer_event \<Rightarrow> footer" where
  "footer_step url_parse s e =
     (case e of
        EditionChange b \<Rightarrow> if b = isEE s then s else if mounted s then loadSetting (s\<lparr>isEE := b\<rparr>) else s\<lparr>isEE := b\<rparr>
      | FxplayChange b \<Rightarrow> s\<lparr>isFxplay := b\<rparr>
      | Refresh \<Rightarrow> if mounted s then loadSetting s else s
      | SettingAnswer g answer \<Rightarrow> setting_answered g answer s
      | ClickLink i \<Rightarrow>
          if mounted s \<and> i < length (visibleLinks url_parse s) then openLink url_parse (snd (visibleLinks url_parse s ! i)) s
          else s
      | Unmount \<Rightarrow> if mounted s then s\<lparr>mounted := False, loadGeneration := loadGeneration s + 1\<rparr> else s)"

text \<open>The component starts with one load.\<close>

definition new_footer :: "bool \<Rightarrow> bool \<Rightarrow> footer" where
  "new_footer ee fxplay =
     loadSetting \<lparr>isEE = ee, isFxplay = fxplay, mounted = True, setting = None, loadGeneration = 0, waiting = [],
       opened = [], applied = []\<rparr>"

end
