(* ===== verification/FooterProps.thy ===== *)
theory FooterProps
  imports FooterNav "HOL-Library.Code_Target_Nat"
begin

text \<open>
  What holds of the links in the footer: which addresses are ever opened, that a late answer never
  replaces a newer setting, and that taking over a merged setting changes nothing.
\<close>

section \<open>Escapes\<close>

lemma hex_unit_no_percent: "hex_unit a \<Longrightarrow> a \<noteq> 37"
  by (auto simp: cls_defs is_digit_def)

lemma escape_loop_split:
  "escape_loop seg s = Some bs \<Longrightarrow> s = v @ 37 # w \<Longrightarrow>
    \<exists>a b t pre cs. w = a # b # t \<and> hex_unit a \<and> hex_unit b \<and> escape_loop [] t = Some cs \<and>
      bs = pre @ escaped_byte a b # cs"
proof (induction seg s arbitrary: bs v rule: escape_loop.induct)
  case (2 seg c s)
  note IH = 2(1,2) and found = 2(3) and split = 2(4)
  show ?case
  proof (cases "c = 37")
    case False
    then obtain v' where "s = v' @ 37 # w" using split by (cases v) auto
    with False IH(1) found show ?thesis by simp
  next
    case True
    then obtain a b t where abt: "s = a # b # t" "hex_unit a" "hex_unit b"
      using found by (auto split: list.splits if_splits)
    then obtain cs where cs: "escape_loop [] t = Some cs" "bs = encode_text seg @ escaped_byte a b # cs"
      using True found by auto
    have no: "a \<noteq> 37" "b \<noteq> 37" using abt hex_unit_no_percent by auto
    consider "v = []" | v' where "v = [c, a, b] @ v'"
    proof (cases v)
      case (Cons x v1)
      then obtain y v2 where "v1 = y # v2" using split abt no by (cases v1) auto
      with Cons obtain z v3 where "v2 = z # v3" using split abt no by (cases v2) auto
      with Cons \<open>v1 = y # v2\<close> show ?thesis using split abt that(2) [of v3] by auto
    qed (use that in blast)
    then show ?thesis
    proof cases
      case 1
      then have "w = a # b # t" using split abt by simp
      with abt cs show ?thesis by blast
    next
      case 2
      then have t: "t = v' @ 37 # w" using split abt by auto
      have "\<not> c \<noteq> 37" "hex_unit a \<and> hex_unit b" using True abt by simp_all
      from IH(2) [OF this(1) abt(1) refl this(2) cs(1) t]
      obtain x y z pre ds where "w = x # y # z" "hex_unit x" "hex_unit y" "escape_loop [] z = Some ds"
        "cs = pre @ escaped_byte x y # ds" by blast
      with cs(2) have "w = x # y # z \<and> hex_unit x \<and> hex_unit y \<and> escape_loop [] z = Some ds \<and>
        bs = (encode_text seg @ escaped_byte a b # pre) @ escaped_byte x y # ds" by simp
      then show ?thesis by blast
    qed
  qed
qed simp

text \<open>What the escapes of a text without control characters, once decoded, cannot be: a byte that is a
  control character of ASCII, or the two bytes of one beyond it.\<close>

lemma decode_escapes:
  assumes "decodePercentEscapes v = Some d" "\<not> containsControlCharacter d" "v = x @ 37 # w"
  shows "\<exists>a b t. w = a # b # t \<and> hex_unit a \<and> hex_unit b \<and> 32 \<le> escaped_byte a b \<and> escaped_byte a b \<noteq> 127 \<and>
    (\<forall>e f z. t = 37 # e # f # z \<and> escaped_byte a b = 194 \<longrightarrow> 159 < escaped_byte e f \<or> escaped_byte e f < 128)"
proof -
  have "str_includes v (lit ''%'')" using assms(3) by simp
  then obtain bs where bs: "escape_loop [] v = Some bs" "d = decode_text bs"
    using assms(1) by (auto simp: decodePercentEscapes_def simp del: lit_simps)
  from escape_loop_split [OF bs(1) assms(3)] obtain a b t pre cs where
    abt: "w = a # b # t" "hex_unit a" "hex_unit b" "escape_loop [] t = Some cs" "bs = pre @ escaped_byte a b # cs" by blast
  then have m: "escaped_byte a b \<in> set bs" by simp
  have free: "\<not> control_unit c" if "c \<in> set (decode_text bs)" for c
    using that assms(2) by (auto simp: containsControlCharacter_def bs(2) list_ex_iff)
  have "\<not> control_unit (escaped_byte a b)" if "escaped_byte a b < 128"
    using decode_text_ascii [OF that m] free by blast
  then have c0: "32 \<le> escaped_byte a b \<and> escaped_byte a b \<noteq> 127"
    by (cases "escaped_byte a b < 128") (auto simp: control_unit_def)
  have "159 < escaped_byte e f \<or> escaped_byte e f < 128"
    if t: "t = 37 # e # f # z" "escaped_byte a b = 194" for e f z
  proof (rule ccontr)
    assume "\<not> ?thesis"
    then have r: "128 \<le> escaped_byte e f" "escaped_byte e f \<le> 159" by simp_all
    obtain ds where "cs = escaped_byte e f # ds"
      using abt(4) t(1) by (auto simp: encode_text_def split: if_splits)
    then have "escaped_byte e f \<in> set (decode_text bs)"
      using decode_text_c1 [OF r] abt(5) t(2) by simp
    with free r show False by (auto simp: control_unit_def)
  qed
  with c0 abt(1-3) show ?thesis by blast
qed

text \<open>The scheme and the authority of an address.\<close>

lemma match_authority_SomeD:
  assumes "match_authority v = Some a"
  shows "\<exists>s r. v = s @ lit ''://'' @ a @ r \<and> s \<noteq> [] \<and> (\<forall>c \<in> set s. scheme_unit c) \<and>
    (\<forall>c \<in> set a. c \<noteq> 47 \<and> c \<noteq> 63 \<and> c \<noteq> 35) \<and> (r = [] \<or> hd r \<in> {47, 63, 35})"
proof -
  obtain c t where v: "v = c # t" using assms by (cases v) (simp_all add: match_authority_def)
  define q where "q = dropWhile scheme_unit t"
  let ?in = "\<lambda>d :: nat. d \<noteq> 47 \<and> d \<noteq> 63 \<and> d \<noteq> 35"
  have c: "letter c" "take 3 q = lit ''://''" and a: "a = takeWhile ?in (drop 3 q)"
    using assms by (auto simp: v match_authority_def q_def Let_def simp del: lit_simps split: if_splits)
  have "t = takeWhile scheme_unit t @ q" by (simp add: q_def)
  moreover have "q = lit ''://'' @ drop 3 q" by (subst c(2) [symmetric]) simp
  moreover have "drop 3 q = a @ dropWhile ?in (drop 3 q)" by (simp add: a)
  ultimately have "v = (c # takeWhile scheme_unit t) @ lit ''://'' @ a @ dropWhile ?in (drop 3 q)"
    unfolding v by (metis append_Cons append_assoc)
  moreover have "\<forall>x \<in> set (c # takeWhile scheme_unit t). scheme_unit x"
    using c(1) by (auto simp: scheme_unit_def dest: set_takeWhileD)
  moreover have "\<forall>x \<in> set a. ?in x" unfolding a by (auto dest: set_takeWhileD)
  moreover have "dropWhile ?in (drop 3 q) = [] \<or> hd (dropWhile ?in (drop 3 q)) \<in> {47, 63, 35}"
    using hd_dropWhile [of ?in "drop 3 q"] by auto
  ultimately show ?thesis by blast
qed

lemma port_allowed_range:
  "port_allowed p \<Longrightarrow> p \<noteq> [] \<Longrightarrow> \<exists>n. js_Number p = Fin (of_nat n) \<and> 1 \<le> n \<and> n \<le> 65535"
proof -
  assume "port_allowed p" "p \<noteq> []"
  then obtain q where q: "js_Number p = Fin q" "q = of_int \<lfloor>q\<rfloor>" "q \<ge> 1" "q \<le> 65535"
    by (auto simp: port_allowed_def split: jsnum.splits)
  then have "1 \<le> \<lfloor>q\<rfloor>" "\<lfloor>q\<rfloor> \<le> 65535" by linarith+
  moreover from this have "q = of_nat (nat \<lfloor>q\<rfloor>)" using q(2) by simp
  ultimately show ?thesis using q(1) by (intro exI [of _ "nat \<lfloor>q\<rfloor>"]) auto
qed

definition harmless :: "(jstring \<Rightarrow> ext_url option) \<Rightarrow> jstring \<Rightarrow> bool" where
  "harmless url_parse u \<longleftrightarrow>
     (\<exists>p. url_parse (trim u) = Some p \<and> u_protocol p \<in> {lit ''http:'', lit ''https:''} \<and> u_hostname p \<noteq> [] \<and>
        u_username p = [] \<and> u_password p = [] \<and>
        (u_port p = [] \<or> (\<exists>n. js_Number (u_port p) = Fin (of_nat n) \<and> 1 \<le> n \<and> n \<le> 65535))) \<and>
     (\<exists>s a r. trim u = s @ lit ''://'' @ a @ r \<and> s \<noteq> [] \<and> (\<forall>c \<in> set s. scheme_unit c) \<and>
        a \<noteq> [] \<and> last a \<noteq> 58 \<and> set a \<inter> {47, 63, 35, 64, 37} = {} \<and> (r = [] \<or> hd r \<in> {47, 63, 35})) \<and>
     92 \<notin> set (trim u) \<and>
     (\<forall>c \<in> set u. \<not> c \<le> 31 \<and> \<not> (127 \<le> c \<and> c \<le> 159)) \<and>
     (\<forall>v w. trim u = v @ 37 # w \<longrightarrow>
        (\<exists>a b t. w = a # b # t \<and> hex_unit a \<and> hex_unit b \<and> 32 \<le> escaped_byte a b \<and> escaped_byte a b \<noteq> 127 \<and>
          (\<forall>e f z. t = 37 # e # f # z \<and> escaped_byte a b = 194 \<longrightarrow> 159 < escaped_byte e f \<or> escaped_byte e f < 128)))"

lemma ends_colon: "a \<noteq> [] \<Longrightarrow> \<not> endsWith a (lit '':'') \<Longrightarrow> last a \<noteq> 58"
proof
  assume a: "a \<noteq> []" "\<not> endsWith a (lit '':'')" "last a = 58"
  then have "a = butlast a @ lit '':''" using append_butlast_last_id [of a] by simp
  with a(2) show False unfolding endsWith_iff by blast
qed

lemma safe_harmless:
  assumes "isSafeExternalUrl url_parse (Some u)"
  shows "harmless url_parse u"
proof -
  obtain a d p where a: "match_authority (trim u) = Some a" "a \<noteq> []" "\<not> endsWith a (lit '':'')"
      "\<not> str_includes a (lit ''@'')" "\<not> str_includes a (lit ''%'')" "92 \<notin> set (trim u)"
    and d: "decodePercentEscapes (trim u) = Some d" "\<not> containsControlCharacter d"
    and p: "url_parse (trim u) = Some p" "u_protocol p \<in> {lit ''http:'', lit ''https:''}" "u_hostname p \<noteq> []"
      "u_username p = []" "u_password p = []" "port_allowed (u_port p)" and c: "\<not> containsControlCharacter u"
  proof -
    have "\<not> containsControlCharacter u" "92 \<notin> set (trim u)"
      using assms by (simp_all add: isSafeExternalUrl_def Let_def split: if_splits del: lit_simps)
    note safe = assms [unfolded isSafeExternalUrl_def option.case Let_def if_not_P [OF this(1)] if_not_P [OF this(2)]]
    obtain a where a: "match_authority (trim u) = Some a" using safe by (auto split: option.splits)
    note safe = safe [unfolded a option.case]
    have s: "\<not> (a = [] \<or> endsWith a (lit '':'') \<or> str_includes a (lit ''@'') \<or> str_includes a (lit ''%''))"
      using safe by (auto split: if_splits)
    note safe = safe [unfolded if_not_P [OF s]]
    obtain d where d: "decodePercentEscapes (trim u) = Some d" using safe by (auto split: option.splits)
    note safe = safe [unfolded d option.case]
    have c: "\<not> containsControlCharacter d" using safe by (auto split: if_splits)
    note safe = safe [unfolded if_not_P [OF c]]
    obtain p where p: "url_parse (trim u) = Some p" using safe by (auto split: option.splits)
    note safe = safe [unfolded p option.case]
    show ?thesis
      using that [OF a _ _ _ _ \<open>92 \<notin> set (trim u)\<close> d c p _ _ _ _ _ \<open>\<not> containsControlCharacter u\<close>] s safe by blast
  qed
  obtain s r where s: "trim u = s @ lit ''://'' @ a @ r" "s \<noteq> []" "\<forall>c \<in> set s. scheme_unit c"
      "\<forall>c \<in> set a. c \<noteq> 47 \<and> c \<noteq> 63 \<and> c \<noteq> 35" "r = [] \<or> hd r \<in> {47, 63, 35}"
    using match_authority_SomeD [OF a(1)] by blast
  have "64 \<notin> set a" "37 \<notin> set a" using a(4,5) by simp_all
  then have "set a \<inter> {47, 63, 35, 64, 37} = {}" using s(4) by auto
  then have authority: "\<exists>s a r. trim u = s @ lit ''://'' @ a @ r \<and> s \<noteq> [] \<and> (\<forall>c \<in> set s. scheme_unit c) \<and>
        a \<noteq> [] \<and> last a \<noteq> 58 \<and> set a \<inter> {47, 63, 35, 64, 37} = {} \<and> (r = [] \<or> hd r \<in> {47, 63, 35})"
    using s a(2) ends_colon [OF a(2,3)] by blast
  have controls: "\<not> x \<le> 31 \<and> \<not> (127 \<le> x \<and> x \<le> 159)" if "x \<in> set u" for x
    using c that by (auto simp: containsControlCharacter_def control_unit_def list_ex_iff)
  have "u_port p = [] \<or> (\<exists>n. js_Number (u_port p) = Fin (of_nat n) \<and> 1 \<le> n \<and> n \<le> 65535)"
    using port_allowed_range [OF p(6)] by blast
  with p(1-5) have parsed: "\<exists>p. url_parse (trim u) = Some p \<and> u_protocol p \<in> {lit ''http:'', lit ''https:''} \<and>
      u_hostname p \<noteq> [] \<and> u_username p = [] \<and> u_password p = [] \<and>
      (u_port p = [] \<or> (\<exists>n. js_Number (u_port p) = Fin (of_nat n) \<and> 1 \<le> n \<and> n \<le> 65535))" by blast
  show ?thesis unfolding harmless_def
    by (intro conjI parsed authority a(6) ballI controls allI impI decode_escapes [OF d])
qed

section \<open>Steps\<close>

definition footer_inv :: "(jstring \<Rightarrow> ext_url option) \<Rightarrow> footer \<Rightarrow> bool" where
  "footer_inv url_parse s \<longleftrightarrow>
     (\<forall>u \<in> set (opened s). harmless url_parse u) \<and>
     (mounted s \<and> \<not> isEE s \<longrightarrow> setting s = None) \<and>
     sorted_wrt (<) (applied s) \<and> distinct (waiting s) \<and>
     (\<forall>g \<in> set (waiting s). g \<le> loadGeneration s) \<and> (\<forall>g \<in> set (applied s). g \<le> loadGeneration s \<and> g \<notin> set (waiting s))"

lemma footer_load_inv: "footer_inv url_parse s \<Longrightarrow> footer_inv url_parse (loadSetting (s\<lparr>isEE := b\<rparr>))"
  by (fastforce simp: footer_inv_def loadSetting_def Let_def)

lemma footer_load_inv_same: "footer_inv url_parse s \<Longrightarrow> footer_inv url_parse (loadSetting s)"
  using footer_load_inv [of url_parse s "isEE s"] by simp

lemma footer_answer_inv:
  assumes "footer_inv url_parse s"
  shows "footer_inv url_parse (setting_answered g answer s)"
proof (cases "g \<in> set (waiting s) \<and> g = loadGeneration s \<and> isEE s")
  case True
  then have "h < g" if "h \<in> set (applied s)" for h
    using assms that unfolding footer_inv_def by (metis le_neq_implies_less)
  with True assms show ?thesis
    by (auto simp: footer_inv_def setting_answered_def sorted_wrt_append Let_def dest: notin_set_remove1)
next
  case False
  with assms show ?thesis
    by (auto simp: footer_inv_def setting_answered_def Let_def dest: notin_set_remove1)
qed

lemma footer_step_inv: "footer_inv url_parse s \<Longrightarrow> footer_inv url_parse (footer_step url_parse s e)"
proof (cases e)
  case (SettingAnswer g answer)
  then show "footer_inv url_parse s \<Longrightarrow> ?thesis" by (simp add: footer_step_def footer_answer_inv)
next
  case (ClickLink i)
  then show "footer_inv url_parse s \<Longrightarrow> ?thesis"
    using safe_harmless by (auto simp: footer_step_def openLink_def footer_inv_def)
qed (auto simp: footer_step_def footer_load_inv footer_load_inv_same, auto simp: footer_inv_def)

interpretation footer_runs: step_system "footer_step url_parse" "footer_inv url_parse"
  by unfold_locales (rule footer_step_inv)

lemma new_footer_inv: "footer_inv url_parse (new_footer ee fxplay)"
  by (simp add: new_footer_def footer_inv_def loadSetting_def Let_def)

text \<open>C22: Whatever the server sends and the user does, only harmless addresses are opened.  The browser parses them
  as addresses of http or https with a host, without credentials, and with a port between 1 and 65535 if there is
  one.  As a text they are a scheme and an authority that is not empty, does not end in a colon and holds neither
  an at sign nor a percent sign; there is no backslash; no unit is a control character, of ASCII or of U+0080 to
  U+009F; every percent sign begins the escape of a byte that is no control character of ASCII, and no two
  escapes in a row are the bytes of a control character beyond it.\<close>

theorem footer_opens_harmless:
  assumes "u \<in> set (opened (foldl (footer_step url_parse) (new_footer ee fxplay) es))"
  shows "(\<exists>p. url_parse (trim u) = Some p \<and> u_protocol p \<in> {lit ''http:'', lit ''https:''} \<and> u_hostname p \<noteq> [] \<and>
       u_username p = [] \<and> u_password p = [] \<and>
       (u_port p = [] \<or> (\<exists>n. js_Number (u_port p) = Fin (of_nat n) \<and> 1 \<le> n \<and> n \<le> 65535))) \<and>
    (\<exists>s a r. trim u = s @ lit ''://'' @ a @ r \<and> s \<noteq> [] \<and> (\<forall>c \<in> set s. scheme_unit c) \<and>
       a \<noteq> [] \<and> last a \<noteq> 58 \<and> set a \<inter> {47, 63, 35, 64, 37} = {} \<and> (r = [] \<or> hd r \<in> {47, 63, 35})) \<and>
    92 \<notin> set (trim u) \<and>
    (\<forall>c \<in> set u. \<not> c \<le> 31 \<and> \<not> (127 \<le> c \<and> c \<le> 159)) \<and>
    (\<forall>v w. trim u = v @ 37 # w \<longrightarrow>
       (\<exists>a b t. w = a # b # t \<and> hex_unit a \<and> hex_unit b \<and> 32 \<le> escaped_byte a b \<and> escaped_byte a b \<noteq> 127 \<and>
         (\<forall>e f z. t = 37 # e # f # z \<and> escaped_byte a b = 194 \<longrightarrow> 159 < escaped_byte e f \<or> escaped_byte e f < 128)))"
  using footer_runs.run_inv [OF new_footer_inv] assms unfolding footer_inv_def harmless_def by blast

text \<open>C23: Answers that come late are dropped: the settings that are applied belong to ever newer requests, and
  outside of the enterprise edition no setting is shown.\<close>

theorem footer_setting_current:
  "let s = foldl (footer_step url_parse) (new_footer ee fxplay) es in
     sorted_wrt (<) (applied s) \<and>
     (mounted s \<and> \<not> isEE s \<longrightarrow> mergeFooterNavigationLinks url_parse (setting s) defaults = defaults)"
  using footer_runs.run_inv [OF new_footer_inv, of url_parse ee fxplay es]
  by (auto simp: footer_inv_def mergeFooterNavigationLinks_def Let_def)

section \<open>Merging\<close>

definition link_as_setting :: "link \<Rightarrow> link_setting option" where
  "link_as_setting l = Some \<lparr>set_visible = Some (visible l), set_url = Some (url l)\<rparr>"

text \<open>The merged links, sent back as a setting, merge to themselves.\<close>

theorem merged_links_stable:
  "mergeFooterNavigationLinks url_parse
     (Some \<lparr>customized = True, links = Some (\<lambda>k. link_as_setting (mergeFooterNavigationLinks url_parse stored defaults k))\<rparr>)
     defaults = mergeFooterNavigationLinks url_parse stored defaults"
  by (auto simp: mergeFooterNavigationLinks_def merge_link_def link_as_setting_def fun_eq_iff split: option.splits)

section \<open>Examples\<close>

text \<open>A parser that knows the addresses of one site.\<close>

definition zoom_site :: "jstring \<Rightarrow> ext_url option" where
  "zoom_site v =
     (if startsWith v (lit ''https://www.zoomtk.com'') then
        Some \<lparr>u_protocol = lit ''https:'', u_hostname = lit ''www.zoomtk.com'', u_username = [], u_password = [],
              u_port = [], u_pathname = drop 22 v\<rparr>
      else None)"

definition sent_setting :: footer_setting where
  "sent_setting = \<lparr>customized = True, links = Some (\<lambda>k. Some \<lparr>set_visible = Some True,
     set_url = Some (lit ''https://www.zoomtk.com/a%20b'')\<rparr>)\<rparr>"

definition footer_run :: "footer_event list" where
  "footer_run = [Refresh, SettingAnswer 1 None, SettingAnswer 2 (Some sent_setting), ClickLink 0]"

lemma footer_run_state:
  "opened (foldl (footer_step zoom_site) (new_footer True False) footer_run) = [lit ''https://www.zoomtk.com/a%20b'']"
  "applied (foldl (footer_step zoom_site) (new_footer True False) footer_run) = [2]"
  by code_simp+

theorem footer_opens_harmless_witness:
  "u_hostname (the (zoom_site (trim (lit ''https://www.zoomtk.com/a%20b'')))) \<noteq> [] \<and>
   opened (foldl (footer_step zoom_site) (new_footer True False) footer_run) \<noteq> []"
  using footer_opens_harmless [of "lit ''https://www.zoomtk.com/a%20b''" zoom_site True False footer_run]
  unfolding footer_run_state by (auto simp del: lit_simps)

lemma left_edition_state:
  "mounted (foldl (footer_step zoom_site) (new_footer True False) (footer_run @ [EditionChange False]))"
  "\<not> isEE (foldl (footer_step zoom_site) (new_footer True False) (footer_run @ [EditionChange False]))"
  by code_simp+

theorem footer_setting_current_witness:
  "mergeFooterNavigationLinks zoom_site
     (setting (foldl (footer_step zoom_site) (new_footer True False) (footer_run @ [EditionChange False])))
     createDefaultFooterNavigationLinks = createDefaultFooterNavigationLinks"
  using footer_setting_current [where url_parse = zoom_site and ee = True and fxplay = False
      and es = "footer_run @ [EditionChange False]" and defaults = createDefaultFooterNavigationLinks]
    left_edition_state by (simp add: Let_def)

end
