(* ===== verification/TaskText.thy ===== *)
theory TaskText
  imports JsString Regex
begin

text \<open>
  Lines of task logs as they are shown: \<^verbatim>\<open>src/web/src/utils/task.ts\<close> and the escapes that
  \<^verbatim>\<open>src/web/src/components/log/file/index.vue\<close> resolves.  The translations are a parameter \<open>t\<close>: the text of a
  key and its arguments, without a dollar sign (which \<^verbatim>\<open>replaceAll\<close> would interpret).
\<close>

type_synonym translation = "string \<Rightarrow> jstring list \<Rightarrow> jstring"

definition agentActionKeyMap :: "string \<Rightarrow> string" where
  "agentActionKeyMap action =
     (if action = ''Install'' then ''commons.button.install'' else if action = ''Upgrade'' then ''commons.button.upgrade''
      else if action = ''Start'' then ''commons.operate.start'' else if action = ''Stop'' then ''commons.operate.stop''
      else if action = ''Restart'' then ''commons.operate.restart'' else ''commons.operate.delete'')"

definition getActionText :: "translation \<Rightarrow> string \<Rightarrow> jstring" where
  "getActionText t action = t (agentActionKeyMap action) []"

definition formatBatchAgentTask :: "translation \<Rightarrow> string \<Rightarrow> jstring" where
  "formatBatchAgentTask t action = t ''aiTools.agents.batchAgentTask'' [getActionText t action]"

definition formatDispatchAgentTask :: "translation \<Rightarrow> string \<Rightarrow> jstring" where
  "formatDispatchAgentTask t action = t ''aiTools.agents.dispatchAgentTask'' [getActionText t action]"

definition formatSkillInstallTask :: "translation \<Rightarrow> jstring" where
  "formatSkillInstallTask t = lit ''Skill '' @ t ''commons.button.install'' []"

definition taskTextMap :: "translation \<Rightarrow> (jstring \<times> jstring) list" where
  "taskTextMap t =
     [(lit ''BatchInstallAgent'', formatBatchAgentTask t ''Install''),
      (lit ''DispatchAgentInstallTasks'', formatDispatchAgentTask t ''Install''),
      (lit ''BatchUpgradeAgent'', formatBatchAgentTask t ''Upgrade''),
      (lit ''DispatchAgentUpgradeTasks'', formatDispatchAgentTask t ''Upgrade''),
      (lit ''BatchInstallAgentSkill'', t ''aiTools.agents.batchAction'' [t ''aiTools.agents.installSkillAction'' []]),
      (lit ''DispatchAgentSkillInstallTasks'', t ''aiTools.agents.dispatchTask'' [formatSkillInstallTask t]),
      (lit ''BatchStartAgent'', formatBatchAgentTask t ''Start''),
      (lit ''DispatchAgentStartTasks'', formatDispatchAgentTask t ''Start''),
      (lit ''BatchStopAgent'', formatBatchAgentTask t ''Stop''),
      (lit ''DispatchAgentStopTasks'', formatDispatchAgentTask t ''Stop''),
      (lit ''BatchRestartAgent'', formatBatchAgentTask t ''Restart''),
      (lit ''DispatchAgentRestartTasks'', formatDispatchAgentTask t ''Restart''),
      (lit ''BatchDeleteAgent'', formatBatchAgentTask t ''Delete''),
      (lit ''DispatchAgentDeleteTasks'', formatDispatchAgentTask t ''Delete'')]"

text \<open>The longest keys come first, so that no key is replaced inside a longer one.\<close>

definition translateTaskText :: "translation \<Rightarrow> jstring \<Rightarrow> jstring" where
  "translateTaskText t v =
     (if v = [] then []
      else fold (\<lambda>(k, w) text. replaceAll text k w) (sort_key (\<lambda>(k, w). - int (length k)) (taskTextMap t)) v)"

section \<open>Escapes\<close>

text \<open>\<open>parseInt(s, 16)\<close> of four word characters, as \<open>String.fromCharCode\<close> takes it: 0 for no number.\<close>

definition hex_value_unit :: "nat \<Rightarrow> nat" where
  "hex_value_unit c = (if is_digit c then c - 48 else if 97 \<le> c then c - 87 else c - 55)"

definition parse_hex :: "jstring \<Rightarrow> nat" where
  "parse_hex s =
     (let digits = (if take 2 s = lit ''0x'' \<or> take 2 s = lit ''0X'' then drop 2 s else s)
      in foldl (\<lambda>n c. 16 * n + hex_value_unit c) 0 (takeWhile hex_unit digits))"

definition word_char :: "nat \<Rightarrow> bool" where
  "word_char c \<longleftrightarrow> letter c \<or> is_digit c \<or> c = 95"

function unescape_line :: "jstring \<Rightarrow> jstring" where
  "unescape_line s =
     (case s of
        [] \<Rightarrow> []
      | c # r \<Rightarrow>
          if take 2 s = [92, 117] \<and> length s \<ge> 6 \<and> list_all word_char (take 4 (drop 2 s))
          then parse_hex (take 4 (drop 2 s)) # unescape_line (drop 6 s)
          else c # unescape_line r)"
  by pat_completeness auto
termination by (relation "measure length") auto

declare unescape_line.simps [simp del]

definition show_line :: "translation \<Rightarrow> jstring \<Rightarrow> jstring" where
  "show_line t line = translateTaskText t (unescape_line line)"

end
