(* ===== verification/LogReader.thy ===== *)
theory LogReader
  imports TaskText
begin

text \<open>
  The viewer of log files: \<^verbatim>\<open>src/web/src/components/log/file/index.vue\<close>.  It reads a log page by page,
  from its end, and shows a window of the lines it has.  A request is on its way in \<open>waiting\<close>, with
  the page it asks for; its answer is an event of its own.  As in the code, what follows an answer
  looks at the request object as it is by then, not as it was sent.
\<close>

definition PAGE :: nat where "PAGE = 500"
definition WINDOW :: nat where "WINDOW = 3000"

definition stopSignals :: "jstring list" where
  "stopSignals =
     [lit ''docker-compose up failed!'', lit ''docker-compose up successful!'', lit ''image build failed!'',
      lit ''image build successful!'', lit ''image pull failed!'', lit ''image pull successful!'',
      lit ''image push failed!'', lit ''image push successful!'', lit ''[TASK-END]'']"

record read_request =
  rq_page :: nat
  rq_latest :: bool
  rq_pre :: bool

record page_answer =
  pa_lines :: "jstring list"
  pa_total :: nat
  pa_end :: bool
  pa_totalLines :: nat
  pa_scope_tail :: bool
  pa_finished :: bool

record log_reader =
  is_php :: bool
  page :: nat
  latest :: bool
  tailLog :: bool
  ticking :: bool
  isLoading :: bool
  at_end :: bool
  lastLogs :: "jstring list"
  maxPage :: nat
  minPage :: nat
  logs :: "jstring list"
  totalLines :: nat
  totalPages :: nat
  isEndOfFile :: bool
  isTailDisabled :: bool
  showTail :: bool
  disposed :: bool
  waiting :: "read_request list"
  asked :: "nat list"

section \<open>What is shown\<close>

text \<open>Pixels; a row has the height \<open>h\<close>.\<close>

definition visibleCount :: "rat \<Rightarrow> rat \<Rightarrow> int" where
  "visibleCount h container = \<lceil>container / h\<rceil> + 10"

definition startIndex :: "rat \<Rightarrow> rat \<Rightarrow> int" where
  "startIndex h y = max 0 (\<lfloor>y / h\<rfloor> - 5)"

definition endIndex :: "rat \<Rightarrow> rat \<Rightarrow> rat \<Rightarrow> log_reader \<Rightarrow> int" where
  "endIndex h container y s = min (int (length (logs s))) (startIndex h y + visibleCount h container)"

definition visibleLogs :: "rat \<Rightarrow> rat \<Rightarrow> rat \<Rightarrow> log_reader \<Rightarrow> jstring list" where
  "visibleLogs h container y s =
     drop (nat (startIndex h y)) (take (nat (endIndex h container y s)) (logs s))"

definition offsetY :: "rat \<Rightarrow> rat \<Rightarrow> rat" where
  "offsetY h y = of_int (startIndex h y) * h"

section \<open>Reading\<close>

definition onCloseLog :: "log_reader \<Rightarrow> log_reader" where
  "onCloseLog s = s\<lparr>tailLog := False, ticking := False, isLoading := False\<rparr>"

definition getContent :: "bool \<Rightarrow> log_reader \<Rightarrow> log_reader" where
  "getContent pre s =
     (if isLoading s then s
      else
        let s = s\<lparr>page := max 1 (page s), isLoading := True\<rparr>
        in s\<lparr>waiting := waiting s @ [\<lparr>rq_page = page s, rq_latest = latest s, rq_pre = pre\<rparr>],
             asked := asked s @ [page s]\<rparr>)"

text \<open>The lines of an answer; \<open>None\<close> when the answer is dropped as the one before (PHP logs).\<close>

definition take_lines :: "bool \<Rightarrow> jstring list \<Rightarrow> page_answer \<Rightarrow> log_reader \<Rightarrow> log_reader option" where
  "take_lines pre newLogs a s =
     (if newLogs = [] then Some s
      else
        let s = (if tailLog s \<and> length newLogs = PAGE \<and> page s < pa_total a then s\<lparr>page := page s + 1\<rparr> else s) in
        if is_php s \<and> logs s \<noteq> [] \<and> last newLogs = last (logs s) then None
        else
          let s = (if list_ex (endsWith (last newLogs)) stopSignals then onCloseLog s else s)
          in Some (s\<lparr>logs :=
               (if logs s = [] then newLogs
                else if pre then newLogs @ logs s
                else if at_end s then lastLogs s @ newLogs
                else if length newLogs > length (logs s) then newLogs else logs s @ newLogs)\<rparr>))"

definition note_pages :: "page_answer \<Rightarrow> log_reader \<Rightarrow> log_reader" where
  "note_pages a s =
     (let s = s\<lparr>at_end := pa_end a, totalPages := pa_total a\<rparr> in
      if latest s then
        s\<lparr>page := pa_total a, latest := False, maxPage := pa_total a, isEndOfFile := True,
          minPage := (if length (pa_lines a) > 500 then pa_total a - 1 else pa_total a)\<rparr>
      else s\<lparr>maxPage := max (maxPage s) (page s)\<rparr>)"

definition trim_window :: "bool \<Rightarrow> log_reader \<Rightarrow> log_reader" where
  "trim_window pre s =
     (if length (logs s) \<le> WINDOW then s
      else if pre then
        s\<lparr>logs := take (length (logs s) - PAGE) (logs s), maxPage := (if maxPage s > 1 then maxPage s - 1 else maxPage s)\<rparr>
      else
        s\<lparr>isEndOfFile := False, logs := drop PAGE (logs s), minPage := (if minPage s > 1 then minPage s + 1 else minPage s)\<rparr>)"

definition note_answer :: "page_answer \<Rightarrow> log_reader \<Rightarrow> log_reader" where
  "note_answer a s =
     (let s = s\<lparr>totalLines := pa_totalLines a\<rparr>;
          s = (if pa_scope_tail a then s\<lparr>showTail := False\<rparr> else s);
          s = (if pa_finished a then s\<lparr>isTailDisabled := True, tailLog := False\<rparr> else s)
      in if \<not> at_end s \<and> pa_end a then s\<lparr>lastLogs := logs s\<rparr> else s)"

definition content_answered :: "translation \<Rightarrow> bool \<Rightarrow> page_answer option \<Rightarrow> log_reader \<Rightarrow> log_reader" where
  "content_answered t pre answer s =
     (case answer of
        None \<Rightarrow> s\<lparr>isLoading := False\<rparr>
      | Some a \<Rightarrow>
          if disposed s then s
          else
            let s = note_answer a s in
            case take_lines pre (map (show_line t) (pa_lines a)) a s of
              None \<Rightarrow> s\<lparr>page := (if tailLog s \<and> length (pa_lines a) = PAGE \<and> page s < pa_total a then page s + 1 else page s),
                        isLoading := False\<rparr>
            | Some s \<Rightarrow> (trim_window pre (note_pages a s))\<lparr>isLoading := False\<rparr>)"

section \<open>Handlers\<close>

definition onScroll :: "rat \<Rightarrow> rat \<Rightarrow> rat \<Rightarrow> log_reader \<Rightarrow> log_reader" where
  "onScroll y scrollHeight clientHeight s =
     (if isLoading s then s
      else if y \<le> 50 \<and> page s > 1 then
        (if minPage s \<le> 1 then s
         else getContent True (s\<lparr>page := minPage s - 1, minPage := minPage s - 1\<rparr>))
      else if scrollHeight - y - clientHeight \<le> 50 \<and> \<not> at_end s \<and> \<not> isEndOfFile s then
        (if page s < maxPage s then getContent False (s\<lparr>page := maxPage s\<rparr>)
         else if page s < totalPages s then getContent False (s\<lparr>maxPage := maxPage s + 1, page := maxPage s + 1\<rparr>)
         else s)
      else s)"

definition changeTail :: "bool \<Rightarrow> log_reader \<Rightarrow> log_reader" where
  "changeTail fromOutSide s =
     (let s = (if fromOutSide then s\<lparr>tailLog := \<not> tailLog s\<rparr> else s)
      in if tailLog s then s\<lparr>ticking := True\<rparr> else onCloseLog s)"

definition clearLog :: "log_reader \<Rightarrow> log_reader" where
  "clearLog s = s\<lparr>logs := [], page := 1, lastLogs := []\<rparr>"

definition init_reader :: "bool \<Rightarrow> log_reader \<Rightarrow> log_reader" where
  "init_reader tail s =
     (let s = s\<lparr>tailLog := tail\<rparr>; s = (if tail then changeTail False s else s)
      in getContent False (s\<lparr>latest := True\<rparr>))"

definition new_reader :: "bool \<Rightarrow> bool \<Rightarrow> log_reader" where
  "new_reader php tail =
     init_reader tail \<lparr>is_php = php, page = 1, latest = False, tailLog = True, ticking = False, isLoading = False,
       at_end = False, lastLogs = [], maxPage = 0, minPage = 0, logs = [], totalLines = 0, totalPages = 0,
       isEndOfFile = False, isTailDisabled = False, showTail = True, disposed = False, waiting = [], asked = []\<rparr>"

datatype reader_event =
    Scroll rat rat rat
  | Tick
  | CheckTail bool
  | OutsideTail
  | RefreshButton
  | PageAnswer nat "page_answer option"
  | ClearButton
  | CloseReader

text \<open>An answer names the request by its place among the waiting ones.\<close>

definition reader_step :: "translation \<Rightarrow> log_reader \<Rightarrow> reader_event \<Rightarrow> log_reader" where
  "reader_step t s e =
     (case e of
        Scroll y scrollHeight clientHeight \<Rightarrow> onScroll y scrollHeight clientHeight s
      | Tick \<Rightarrow> if ticking s then getContent False s else s
      | CheckTail b \<Rightarrow> changeTail False (s\<lparr>tailLog := b\<rparr>)
      | OutsideTail \<Rightarrow> changeTail True s
      | RefreshButton \<Rightarrow> getContent False s
      | PageAnswer i answer \<Rightarrow>
          if i < length (waiting s) then
            content_answered t (rq_pre (waiting s ! i)) answer
              (s\<lparr>waiting := take i (waiting s) @ drop (Suc i) (waiting s)\<rparr>)
          else s
      | ClearButton \<Rightarrow> clearLog s
      | CloseReader \<Rightarrow> onCloseLog (s\<lparr>disposed := True\<rparr>))"

end
