(* ===== verification/LogServer.thy ===== *)
theory LogServer
  imports LogReader
begin

text \<open>
  How the node serves the pages of a log: from its database (\<^verbatim>\<open>src/node/api/logs_sql_pagination.go\<close>),
  from the file of a task (\<^verbatim>\<open>src/node/api/functional_logs.go\<close>) and from any other file
  (\<^verbatim>\<open>src/node/api/files_advanced_read.go\<close>), for the page size the viewer asks for.  The log is the list of
  its lines, after the redaction of secrets.  Limits on bytes and errors of the file system are left out.
\<close>

definition page_count :: "nat \<Rightarrow> nat" where
  "page_count n = (n + PAGE - 1) div PAGE"

definition page_lines :: "nat \<Rightarrow> 'a list \<Rightarrow> 'a list" where
  "page_lines p L = take PAGE (drop ((p - 1) * PAGE) L)"

text \<open>\<open>queryRuntimeTaskLogLinesPage\<close> and \<open>readTaskLogSQLite\<close>; \<open>None\<close> when there is no line, and the request is
  not handled here.\<close>

definition sqlite_answer :: "jstring list \<Rightarrow> bool \<Rightarrow> read_request \<Rightarrow> page_answer option" where
  "sqlite_answer L finished q =
     (let p = (if rq_latest q \<and> L \<noteq> [] then page_count (length L) else max 1 (rq_page q)) in
      if L = [] then None
      else Some \<lparr>pa_lines = page_lines p L, pa_total = page_count (length L), pa_end = (p * PAGE \<ge> length L),
                 pa_totalLines = length L, pa_scope_tail = False, pa_finished = finished\<rparr>)"

text \<open>\<open>readTaskLog\<close> with \<open>readTaskLogPage\<close>: for the latest page the last lines, as many as fit on one.\<close>

definition task_file_answer :: "jstring list \<Rightarrow> read_request \<Rightarrow> page_answer" where
  "task_file_answer L q =
     (let p = max 1 (rq_page q);
          shown = (if rq_latest q then drop (length L - PAGE) L else page_lines p L);
          p = (if rq_latest q \<and> L \<noteq> [] then page_count (length L) else p)
      in \<lparr>pa_lines = shown, pa_total = page_count (length L), pa_end = (p * PAGE \<ge> length L),
          pa_totalLines = length L, pa_scope_tail = False, pa_finished = False\<rparr>)"

text \<open>\<open>writePagedFileLines\<close>: whether the latest page is asked for makes no difference.\<close>

definition paged_file_answer :: "jstring list \<Rightarrow> read_request \<Rightarrow> page_answer" where
  "paged_file_answer L q =
     (let p = max 1 (rq_page q); start = min ((p - 1) * PAGE) (length L); end' = min (start + PAGE) (length L) in
      \<lparr>pa_lines = drop start (take end' L), pa_total = max 1 (page_count (length L)), pa_end = (end' = length L),
       pa_totalLines = length L, pa_scope_tail = False, pa_finished = False\<rparr>)"

lemma PAGE_pos [simp]: "0 < PAGE" "PAGE \<noteq> 0"
  by (simp_all add: PAGE_def)

lemma page_count_iff: "0 < n \<Longrightarrow> 1 \<le> p \<Longrightarrow> p \<le> page_count n \<longleftrightarrow> (p - 1) * PAGE < n"
  by (simp add: page_count_def PAGE_def) linarith

lemma page_count_covers: "n \<le> p * PAGE \<longleftrightarrow> page_count n \<le> p"
  by (simp add: page_count_def PAGE_def) linarith

lemma page_count_pos: "0 < n \<Longrightarrow> 1 \<le> page_count n"
  by (simp add: page_count_def PAGE_def)

lemma length_page_lines: "length (page_lines p L) = min PAGE (length L - (p - 1) * PAGE)"
  by (simp add: page_lines_def)

lemma page_lines_full: "1 \<le> p \<Longrightarrow> p < page_count (length L) \<Longrightarrow> length (page_lines p L) = PAGE"
  by (cases p) (auto simp: length_page_lines page_count_def PAGE_def)

lemma page_lines_ne: "1 \<le> p \<Longrightarrow> p \<le> page_count (length L) \<Longrightarrow> L \<noteq> [] \<Longrightarrow> page_lines p L \<noteq> []"
  using page_count_iff[of "length L" p] by (simp add: page_lines_def)

text \<open>A block of the log followed by the next page is a block.\<close>

lemma block_append_page:
  assumes "c \<le> (p - 1) * PAGE" "1 \<le> p"
  shows "take ((p - 1) * PAGE - c) (drop c L) @ page_lines p L = take (p * PAGE - c) (drop c L)"
proof -
  have e: "p * PAGE - c = ((p - 1) * PAGE - c) + PAGE" using assms by (cases p) auto
  have d: "drop ((p - 1) * PAGE) L = drop ((p - 1) * PAGE - c) (drop c L)" using assms by simp
  show ?thesis unfolding page_lines_def d e take_add ..
qed

lemma page_append_block:
  "1 \<le> p \<Longrightarrow> page_lines p L @ take k (drop (p * PAGE) L) =
     (if p * PAGE \<le> length L then take (PAGE + k) (drop ((p - 1) * PAGE) L) else page_lines p L)"
  by (cases p) (auto simp: page_lines_def take_add add.commute)

end
