(* ===== verification/LogReaderProps.thy ===== *)
theory LogReaderProps
  imports LogServer
begin

text \<open>
  What the viewer of logs shows: while it follows a growing log, while its user scrolls, and with each
  of the ways a log is served.
\<close>

section \<open>Following\<close>

text \<open>The log grows, the timer fires, the request on its way is answered or lost, and the container is
  scrolled, by the user or by the code, which sets \<open>scrollTop\<close> after an answer.\<close>

datatype follow_event = Grow "jstring list" | NextTick | Arrival | Lost | Scrolled rat rat rat

fun follow_step :: "translation \<Rightarrow> jstring list \<times> log_reader \<Rightarrow> follow_event \<Rightarrow> jstring list \<times> log_reader" where
  "follow_step t (L, s) (Grow ls) = (L @ ls, s)"
| "follow_step t (L, s) NextTick = (L, reader_step t s Tick)"
| "follow_step t (L, s) Arrival =
     (L, case waiting s of [] \<Rightarrow> s | q # qs \<Rightarrow> reader_step t s (PageAnswer 0 (sqlite_answer L False q)))"
| "follow_step t (L, s) Lost = (L, reader_step t s (PageAnswer 0 None))"
| "follow_step t (L, s) (Scrolled y scrollHeight clientHeight) = (L, reader_step t s (Scroll y scrollHeight clientHeight))"

text \<open>A scroll that asks for no page: it does not come near the top as long as there are earlier pages, and near
  the bottom only if the last answer was the end of the log, or the log fits in the window.\<close>

fun quiet :: "jstring list \<times> log_reader \<Rightarrow> follow_event \<Rightarrow> bool" where
  "quiet (L, s) (Scrolled y scrollHeight clientHeight) =
     ((y > 50 \<or> minPage s \<le> 1) \<and> (scrollHeight - y - clientHeight > 50 \<or> at_end s \<or> length L \<le> WINDOW))"
| "quiet z e = True"

fun calm :: "translation \<Rightarrow> jstring list \<times> log_reader \<Rightarrow> follow_event list \<Rightarrow> bool" where
  "calm t z [] = True"
| "calm t z (e # es) = (quiet z e \<and> calm t (follow_step t z e) es)"

definition base_lines :: "log_reader \<Rightarrow> jstring list" where
  "base_lines s = (if at_end s then lastLogs s else logs s)"

definition stops_at :: "jstring list \<Rightarrow> bool" where
  "stops_at ls \<longleftrightarrow> list_ex (endsWith (last ls)) stopSignals"

definition window :: "jstring list \<Rightarrow> jstring list" where
  "window ls = (if length ls > WINDOW then drop PAGE ls else ls)"

definition joined :: "bool \<Rightarrow> jstring list \<Rightarrow> log_reader \<Rightarrow> jstring list" where
  "joined pre new s =
     (if logs s = [] then new else if pre then new @ logs s else if at_end s then lastLogs s @ new
      else if length new > length (logs s) then new else logs s @ new)"

definition page_up :: "jstring list \<Rightarrow> page_answer \<Rightarrow> log_reader \<Rightarrow> nat" where
  "page_up new a s = (if tailLog s \<and> length new = PAGE \<and> page s < pa_total a then page s + 1 else page s)"

lemma take_lines_eq:
  "new \<noteq> [] \<Longrightarrow> \<not> is_php s \<Longrightarrow> take_lines pre new a s =
     Some (s\<lparr>page := page_up new a s, tailLog := tailLog s \<and> \<not> stops_at new, ticking := ticking s \<and> \<not> stops_at new,
             isLoading := isLoading s \<and> \<not> stops_at new, logs := joined pre new s\<rparr>)"
  by (simp add: take_lines_def page_up_def joined_def stops_at_def onCloseLog_def Let_def)

lemma note_answer_simps [simp]:
  "logs (note_answer a s) = logs s" "at_end (note_answer a s) = at_end s" "waiting (note_answer a s) = waiting s"
  "latest (note_answer a s) = latest s" "disposed (note_answer a s) = disposed s" "is_php (note_answer a s) = is_php s"
  "asked (note_answer a s) = asked s" "page (note_answer a s) = page s" "tailLog (note_answer a s) = (tailLog s \<and> \<not> pa_finished a)"
  "ticking (note_answer a s) = ticking s" "minPage (note_answer a s) = minPage s" "isEndOfFile (note_answer a s) = isEndOfFile s"
  "isLoading (note_answer a s) = isLoading s" "totalLines (note_answer a s) = pa_totalLines a"
  "lastLogs (note_answer a s) = (if \<not> at_end s \<and> pa_end a then logs s else lastLogs s)"
  "joined pre new (note_answer a s) = joined pre new s" "\<not> pa_finished a \<Longrightarrow> page_up new a (note_answer a s) = page_up new a s"
  by (simp_all add: note_answer_def Let_def joined_def page_up_def)

lemma content_answered_eq:
  assumes "\<not> disposed s" "\<not> is_php s" "pa_lines a \<noteq> []" "\<not> pa_finished a"
    and new: "new = map (show_line t) (pa_lines a)"
  shows "content_answered t pre (Some a) s =
    (trim_window pre (note_pages a ((note_answer a s)\<lparr>page := page_up new a s,
       tailLog := tailLog s \<and> \<not> stops_at new, ticking := ticking s \<and> \<not> stops_at new,
       isLoading := isLoading s \<and> \<not> stops_at new, logs := joined pre new s\<rparr>)))\<lparr>isLoading := False\<rparr>"
  using assms by (simp add: content_answered_def take_lines_eq)

lemma note_pages_simps [simp]:
  "logs (note_pages a s) = logs s" "lastLogs (note_pages a s) = lastLogs s" "at_end (note_pages a s) = pa_end a"
  "waiting (note_pages a s) = waiting s" "latest (note_pages a s) = False" "disposed (note_pages a s) = disposed s"
  "is_php (note_pages a s) = is_php s" "totalLines (note_pages a s) = totalLines s" "asked (note_pages a s) = asked s"
  "page (note_pages a s) = (if latest s then pa_total a else page s)"
  "tailLog (note_pages a s) = tailLog s" "ticking (note_pages a s) = ticking s"
  "minPage (note_pages a s) = (if latest s then if length (pa_lines a) > 500 then pa_total a - 1 else pa_total a else minPage s)"
  "isEndOfFile (note_pages a s) = (latest s \<or> isEndOfFile s)"
  by (simp_all add: note_pages_def Let_def)

lemma trim_window_simps [simp]:
  "lastLogs (trim_window pre s) = lastLogs s" "at_end (trim_window pre s) = at_end s"
  "waiting (trim_window pre s) = waiting s" "latest (trim_window pre s) = latest s" "disposed (trim_window pre s) = disposed s"
  "is_php (trim_window pre s) = is_php s" "totalLines (trim_window pre s) = totalLines s" "page (trim_window pre s) = page s"
  "tailLog (trim_window pre s) = tailLog s" "ticking (trim_window pre s) = ticking s" "asked (trim_window pre s) = asked s"
  "logs (trim_window pre s) = (if length (logs s) \<le> WINDOW then logs s
     else if pre then take (length (logs s) - PAGE) (logs s) else drop PAGE (logs s))"
  "minPage (trim_window pre s) =
     (if length (logs s) \<le> WINDOW \<or> pre \<or> minPage s \<le> 1 then minPage s else minPage s + 1)"
  "isEndOfFile (trim_window pre s) = (isEndOfFile s \<and> (length (logs s) \<le> WINDOW \<or> pre))"
  by (simp_all add: trim_window_def)

lemma follow_answer:
  assumes "\<not> disposed s" "\<not> latest s" "\<not> is_php s" "tailLog s" "pa_lines a \<noteq> []" "\<not> pa_finished a"
    and "logs s \<noteq> []" "\<not> at_end s \<Longrightarrow> length (pa_lines a) \<le> length (logs s)"
  shows "let new = map (show_line t) (pa_lines a); s' = content_answered t False (Some a) s in
    logs s' = window (base_lines s @ new) \<and>
    lastLogs s' = (if \<not> at_end s \<and> pa_end a then logs s else lastLogs s) \<and>
    at_end s' = pa_end a \<and> \<not> isLoading s' \<and> waiting s' = waiting s \<and> \<not> latest s' \<and> \<not> disposed s' \<and>
    \<not> is_php s' \<and> totalLines s' = pa_totalLines a \<and> page s' = page_up new a s \<and>
    tailLog s' = (\<not> stops_at new) \<and> ticking s' = (ticking s \<and> \<not> stops_at new) \<and>
    isEndOfFile s' = (isEndOfFile s \<and> length (base_lines s @ new) \<le> WINDOW) \<and>
    minPage s' = (if length (base_lines s @ new) > WINDOW \<and> minPage s > 1 then minPage s + 1 else minPage s)"
proof -
  have j: "joined False (map (show_line t) (pa_lines a)) s = base_lines s @ map (show_line t) (pa_lines a)"
    using assms(7,8) by (cases "at_end s") (simp_all add: joined_def base_lines_def)
  show ?thesis using assms(1-7)
    by (simp add: content_answered_eq[OF _ _ _ _ refl] j window_def Let_def)
qed

lemma first_answer:
  assumes "\<not> disposed s" "latest s" "\<not> is_php s" "pa_lines a \<noteq> []" "\<not> pa_finished a"
    and "logs s = []" "length (pa_lines a) \<le> PAGE"
  shows "let new = map (show_line t) (pa_lines a); s' = content_answered t pre (Some a) s in
    logs s' = new \<and> lastLogs s' = (if \<not> at_end s \<and> pa_end a then [] else lastLogs s) \<and> at_end s' = pa_end a \<and>
    \<not> isLoading s' \<and> waiting s' = waiting s \<and> \<not> latest s' \<and> \<not> disposed s' \<and> \<not> is_php s' \<and>
    totalLines s' = pa_totalLines a \<and> page s' = pa_total a \<and> tailLog s' = (tailLog s \<and> \<not> stops_at new) \<and>
    ticking s' = (ticking s \<and> \<not> stops_at new) \<and> minPage s' = pa_total a \<and> isEndOfFile s' \<and> asked s' = asked s"
  using assms by (simp add: content_answered_eq[OF _ _ _ _ refl] joined_def Let_def PAGE_def WINDOW_def)

definition shows_block :: "translation \<Rightarrow> jstring list \<Rightarrow> nat \<Rightarrow> log_reader \<Rightarrow> bool" where
  "shows_block t L c s \<longleftrightarrow> PAGE dvd c \<and> logs s = map (show_line t) (take (length (logs s)) (drop c L)) \<and>
     c + length (logs s) \<le> length L \<and> length (logs s) \<le> WINDOW \<and> (at_end s \<longrightarrow> c + length (logs s) = totalLines s)"

definition based :: "translation \<Rightarrow> jstring list \<Rightarrow> nat \<Rightarrow> log_reader \<Rightarrow> bool" where
  "based t L c s \<longleftrightarrow> PAGE dvd c \<and> c \<le> (page s - 1) * PAGE \<and>
     base_lines s = map (show_line t) (take ((page s - 1) * PAGE - c) (drop c L))"

definition following :: "translation \<Rightarrow> jstring list \<Rightarrow> log_reader \<Rightarrow> bool" where
  "following t L s \<longleftrightarrow> logs s \<noteq> [] \<and> (\<not> at_end s \<longrightarrow> PAGE \<le> length (logs s)) \<and> page s \<le> page_count (length L) \<and>
     length (base_lines s) \<le> WINDOW \<and> (\<exists>c. based t L c s)"

definition follow_inv :: "translation \<Rightarrow> jstring list \<Rightarrow> log_reader \<Rightarrow> bool" where
  "follow_inv t L s \<longleftrightarrow> L \<noteq> [] \<and> \<not> is_php s \<and> \<not> disposed s \<and> isLoading s = (waiting s \<noteq> []) \<and>
     waiting s \<in> {[], [\<lparr>rq_page = page s, rq_latest = latest s, rq_pre = False\<rparr>]} \<and>
     (waiting s \<noteq> [] \<or> ticking s \<longrightarrow> tailLog s) \<and> 1 \<le> page s \<and>
     (latest s \<longrightarrow> logs s = [] \<and> lastLogs s = [] \<and> \<not> at_end s \<and> maxPage s = 0 \<and> totalPages s = 0) \<and>
     (\<not> latest s \<and> length L \<le> WINDOW \<longrightarrow> isEndOfFile s) \<and>
     (\<not> latest s \<and> tailLog s \<longrightarrow> following t L s) \<and> (\<exists>c. shows_block t L c s)"

lemma drop_block: "n \<le> k \<Longrightarrow> drop n (map f (take k (drop c L))) = map f (take (k - n) (drop (c + n) L))"
  by (simp add: drop_map drop_take add.commute)

text \<open>The lines of a page, put after the lines before it.\<close>

lemma based_page:
  assumes "based t L c s" "1 \<le> page s" "page s \<le> page_count (length L)" "L \<noteq> []" "length (base_lines s) \<le> WINDOW"
  defines "new \<equiv> map (show_line t) (page_lines (page s) L)"
  shows "\<exists>c'. PAGE dvd c' \<and> c' + length (window (base_lines s @ new)) = min (page s * PAGE) (length L) \<and>
    window (base_lines s @ new) = map (show_line t) (take (page s * PAGE - c') (drop c' L)) \<and>
    length (window (base_lines s @ new)) \<le> WINDOW \<and> c' \<le> page s * PAGE"
proof -
  let ?p = "page s"
  have c: "PAGE dvd c" "c \<le> (?p - 1) * PAGE" using assms(1) by (auto simp: based_def)
  have all: "base_lines s @ new = map (show_line t) (take (?p * PAGE - c) (drop c L))"
    using assms(1) block_append_page[OF c(2) assms(2), of L] by (simp add: based_def new_def flip: map_append)
  have le: "(?p - 1) * PAGE < length L" using page_count_iff[of "length L" ?p] assms(2-4) by simp
  have len: "length (base_lines s @ new) = min (?p * PAGE) (length L) - c" "c \<le> min (?p * PAGE) (length L)"
    using c le assms(2) unfolding all by (cases ?p; simp)+
  show ?thesis
  proof (cases "length (base_lines s @ new) > WINDOW")
    case False
    then show ?thesis using c le len all assms(2) by (intro exI[of _ c]) (auto simp: window_def)
  next
    case True
    have n: "length new \<le> PAGE" by (simp add: new_def length_page_lines)
    have big: "PAGE \<le> ?p * PAGE - c" using True len by (simp add: PAGE_def WINDOW_def)
    have w: "window (base_lines s @ new) = map (show_line t) (take (?p * PAGE - (c + PAGE)) (drop (c + PAGE) L))"
      using True drop_block[OF big, of "show_line t" c L] unfolding all by (simp add: window_def)
    define n m where "n = length (base_lines s @ new)" and "m = min (?p * PAGE) (length L)"
    have l: "length (window (base_lines s @ new)) = n - PAGE" using True by (simp add: window_def n_def)
    have b: "n \<le> WINDOW + PAGE" using n assms(5) by (simp add: n_def)
    have "c + PAGE + (n - PAGE) = m" "n - PAGE \<le> WINDOW" "c + PAGE \<le> ?p * PAGE"
      using len True b unfolding n_def[symmetric] m_def[symmetric] by (simp_all add: m_def PAGE_def WINDOW_def)
    then show ?thesis using w c(1) unfolding l m_def by (intro exI[of _ "c + PAGE"]) simp
  qed
qed

lemma block_length: "xs = map f (take k ys) \<Longrightarrow> xs = map f (take (length xs) ys)"
  by (simp add: min_def)

lemma sqlite_page:
  "L \<noteq> [] \<Longrightarrow> 1 \<le> p \<Longrightarrow> sqlite_answer L fin \<lparr>rq_page = p, rq_latest = False, rq_pre = pre\<rparr> =
     Some \<lparr>pa_lines = page_lines p L, pa_total = page_count (length L), pa_end = (p * PAGE \<ge> length L),
           pa_totalLines = length L, pa_scope_tail = False, pa_finished = fin\<rparr>"
  by (simp add: sqlite_answer_def Let_def max_def)

lemma sqlite_latest:
  "L \<noteq> [] \<Longrightarrow> sqlite_answer L fin \<lparr>rq_page = p, rq_latest = True, rq_pre = pre\<rparr> =
     Some \<lparr>pa_lines = page_lines (page_count (length L)) L, pa_total = page_count (length L), pa_end = True,
           pa_totalLines = length L, pa_scope_tail = False, pa_finished = fin\<rparr>"
  by (simp add: sqlite_answer_def Let_def page_count_covers)

lemma based_waiting [simp]: "based t L c (s\<lparr>waiting := w\<rparr>) = based t L c s" "base_lines (s\<lparr>waiting := w\<rparr>) = base_lines s"
  by (simp_all add: based_def base_lines_def)

lemma window_long: "length new = PAGE \<Longrightarrow> PAGE \<le> length (window (ls @ new))"
  by (simp add: window_def PAGE_def WINDOW_def)

lemma window_ne: "new \<noteq> [] \<Longrightarrow> window (ls @ new) \<noteq> []"
  by (auto simp: window_def PAGE_def WINDOW_def)

lemma follow_page:
  assumes inv: "follow_inv t L s" and w: "waiting s \<noteq> []" and l: "\<not> latest s"
  shows "follow_inv t L (content_answered t False (sqlite_answer L False (hd (waiting s))) (s\<lparr>waiting := []\<rparr>))"
proof -
  let ?p = "page s" and ?f = "show_line t"
  define a where "a = the (sqlite_answer L False (hd (waiting s)))"
  define s' where "s' = content_answered t False (Some a) (s\<lparr>waiting := []\<rparr>)"
  define new where "new = map ?f (page_lines ?p L)"
  have f: "following t L s" "tailLog s" "L \<noteq> []" "1 \<le> ?p" "\<not> is_php s" "\<not> disposed s"
    using inv w l by (auto simp: follow_inv_def)
  have q: "waiting s = [\<lparr>rq_page = ?p, rq_latest = False, rq_pre = False\<rparr>]" using inv w l by (auto simp: follow_inv_def)
  have answer: "sqlite_answer L False (hd (waiting s)) = Some a" and
    a: "pa_lines a = page_lines ?p L" "pa_total a = page_count (length L)" "pa_end a \<longleftrightarrow> length L \<le> ?p * PAGE"
       "pa_totalLines a = length L" "\<not> pa_finished a"
    using f by (simp_all add: a_def q sqlite_page)
  have p: "?p \<le> page_count (length L)" "length (base_lines s) \<le> WINDOW" "logs s \<noteq> []"
    "\<not> at_end s \<Longrightarrow> PAGE \<le> length (logs s)" using f(1) by (auto simp: following_def)
  obtain c where c: "based t L c s" using f(1) by (auto simp: following_def)
  have ne: "page_lines ?p L \<noteq> []" using page_lines_ne f p by blast
  have new: "new = map ?f (pa_lines a)" "new \<noteq> []" using ne a by (simp_all add: new_def)
  have "\<not> at_end s \<Longrightarrow> length (page_lines ?p L) \<le> length (logs s)" using p(4) by (simp add: length_page_lines)
  then have s': "logs s' = window (base_lines s @ new)" "at_end s' = pa_end a" "\<not> isLoading s'" "waiting s' = []" "\<not> latest s'"
      "\<not> disposed s'" "\<not> is_php s'" "totalLines s' = length L" "page s' = page_up new a s" "tailLog s' = (\<not> stops_at new)"
      "ticking s' = (ticking s \<and> \<not> stops_at new)" "lastLogs s' = (if \<not> at_end s \<and> pa_end a then logs s else lastLogs s)"
      "isEndOfFile s' = (isEndOfFile s \<and> length (base_lines s @ new) \<le> WINDOW)"
    using follow_answer[of "s\<lparr>waiting := []\<rparr>" a t] f ne p(3) l a unfolding s'_def new(1)
    by (simp_all add: Let_def page_up_def)
  obtain c' where c': "PAGE dvd c'" "c' + length (logs s') = min (?p * PAGE) (length L)" "c' \<le> ?p * PAGE"
      "logs s' = map ?f (take (?p * PAGE - c') (drop c' L))" "length (logs s') \<le> WINDOW"
    using based_page[OF c f(4) p(1) f(3) p(2)] unfolding s'(1) new_def by blast
  have "shows_block t L c' s'"
    using c' block_length[OF c'(4)] s'(2,8) a(3) by (auto simp: shows_block_def)
  moreover have "following t L s'"
  proof (cases "pa_end a")
    case True
    then have "page_count (length L) \<le> ?p" using a(3) by (simp add: page_count_covers)
    then have u: "page s' = ?p" using s'(9) a(2) by (simp add: page_up_def)
    have "base_lines s' = base_lines s" using True s' by (simp add: base_lines_def)
    then have "based t L c s'" using c u by (simp add: based_def)
    then show ?thesis using u p(1,2) True s'(1,2) window_ne[OF new(2)] \<open>base_lines s' = base_lines s\<close>
      by (auto simp: following_def)
  next
    case False
    then have lt: "?p < page_count (length L)" using a(3) by (simp add: page_count_covers)
    then have full: "length new = PAGE" using page_lines_full f(4) by (simp add: new_def)
    have u: "page s' = ?p + 1" using s'(9) a(2) full f(2) lt by (simp add: page_up_def)
    have b: "base_lines s' = logs s'" using False s' by (simp add: base_lines_def)
    then have "based t L c' s'" using c' u by (simp add: based_def)
    then show ?thesis using u lt b c'(5) s'(1) window_ne[OF new(2)] window_long[OF full]
      by (auto simp: following_def)
  qed
  moreover have "length (base_lines s @ new) \<le> length L"
  proof -
    have b: "c \<le> (?p - 1) * PAGE" "base_lines s = map ?f (take ((?p - 1) * PAGE - c) (drop c L))"
      using c by (auto simp: based_def)
    then have "base_lines s @ new = map ?f (take (?p * PAGE - c) (drop c L))"
      using block_append_page[OF b(1) f(4), of L] by (simp add: new_def flip: map_append)
    then show ?thesis by simp
  qed
  then have "length L \<le> WINDOW \<longrightarrow> isEndOfFile s'" using s'(13) inv l by (auto simp: follow_inv_def)
  ultimately show ?thesis unfolding answer s'_def[symmetric] using f s' inv
    by (auto simp: follow_inv_def page_up_def)
qed

lemma follow_first:
  assumes inv: "follow_inv t L s" and w: "waiting s \<noteq> []" and l: "latest s"
  shows "follow_inv t L (content_answered t False (sqlite_answer L False (hd (waiting s))) (s\<lparr>waiting := []\<rparr>))"
proof -
  let ?p = "page_count (length L)" and ?f = "show_line t"
  define a where "a = the (sqlite_answer L False (hd (waiting s)))"
  define s' where "s' = content_answered t False (Some a) (s\<lparr>waiting := []\<rparr>)"
  define new where "new = map ?f (page_lines ?p L)"
  have f: "logs s = []" "lastLogs s = []" "\<not> at_end s" "tailLog s" "L \<noteq> []" "\<not> is_php s" "\<not> disposed s"
    using inv w l by (auto simp: follow_inv_def)
  have q: "waiting s = [\<lparr>rq_page = page s, rq_latest = True, rq_pre = False\<rparr>]" using inv w l by (auto simp: follow_inv_def)
  have answer: "sqlite_answer L False (hd (waiting s)) = Some a" and
    a: "pa_lines a = page_lines ?p L" "pa_total a = ?p" "pa_end a" "pa_totalLines a = length L" "\<not> pa_finished a"
    using f by (simp_all add: a_def q sqlite_latest)
  have p: "1 \<le> ?p" using f(5) by (intro page_count_pos) simp
  have ne: "page_lines ?p L \<noteq> []" using page_lines_ne[OF p order.refl f(5)] .
  have s': "logs s' = new" "lastLogs s' = []" "at_end s'" "\<not> isLoading s'" "waiting s' = []" "\<not> latest s'" "\<not> disposed s'"
      "\<not> is_php s'" "totalLines s' = length L" "page s' = ?p" "tailLog s' = (\<not> stops_at new)"
      "ticking s' = (ticking s \<and> \<not> stops_at new)" "isEndOfFile s'"
    using first_answer[of "s\<lparr>waiting := []\<rparr>" a t False] f ne l a unfolding s'_def new_def
    by (simp_all add: Let_def length_page_lines)
  have lt: "(?p - 1) * PAGE < length L" using page_count_iff[of "length L" ?p] p f(5) by simp
  have cover: "length L \<le> ?p * PAGE" by (simp add: page_count_covers)
  have e: "length L - (?p - 1) * PAGE \<le> PAGE" using cover p by (cases ?p) auto
  have len: "length new = length L - (?p - 1) * PAGE" using e by (simp add: new_def length_page_lines)
  have "shows_block t L ((?p - 1) * PAGE) s'"
    using s' len lt e by (auto simp: shows_block_def new_def page_lines_def PAGE_def WINDOW_def)
  moreover have "based t L ((?p - 1) * PAGE) s'" using s' by (simp add: based_def base_lines_def)
  then have "following t L s'" using s' ne by (auto simp: following_def new_def base_lines_def)
  ultimately show ?thesis unfolding answer s'_def[symmetric] using f s' p by (auto simp: follow_inv_def)
qed

lemma following_grow: "following t L s \<Longrightarrow> L \<noteq> [] \<Longrightarrow> 1 \<le> page s \<Longrightarrow> following t (L @ ls) s"
proof -
  assume f: "following t L s" and L: "L \<noteq> []" and p: "1 \<le> page s"
  have m: "page_count (length L) \<le> page_count (length (L @ ls))" by (simp add: page_count_def div_le_mono)
  have lt: "(page s - 1) * PAGE < length L"
    using f p L page_count_iff[of "length L" "page s"] by (simp add: following_def)
  have "based t (L @ ls) c s" if "based t L c s" for c
    using that lt by (auto simp: based_def)
  then show ?thesis using f m by (auto simp: following_def)
qed

lemma shows_grow: "shows_block t L c s \<Longrightarrow> shows_block t (L @ ls) c s"
  by (auto simp: shows_block_def)

text \<open>A quiet scroll changes nothing.\<close>

lemma quiet_scroll:
  assumes "follow_inv t L s" "quiet (L, s) (Scrolled y h c)"
  shows "follow_step t (L, s) (Scrolled y h c) = (L, s)"
proof (cases "latest s")
  case True
  then have "minPage s \<le> 1 \<or> y > 50" "page s \<ge> 1" "maxPage s = 0" "totalPages s = 0"
    using assms by (auto simp: follow_inv_def)
  then show ?thesis by (auto simp: reader_step_def onScroll_def)
next
  case False
  then have "length L \<le> WINDOW \<longrightarrow> isEndOfFile s" using assms(1) by (simp add: follow_inv_def)
  then show ?thesis using assms(2) by (auto simp: reader_step_def onScroll_def)
qed

lemma follow_step_inv:
  assumes "follow_inv t L s" "quiet (L, s) e"
  shows "follow_inv t (fst (follow_step t (L, s) e)) (snd (follow_step t (L, s) e))"
proof (cases e)
  case (Grow ls)
  then show ?thesis using assms following_grow[of t L s ls] shows_grow[of t L _ s ls]
    by (auto simp: follow_inv_def)
next
  case NextTick
  have "following t L (s\<lparr>page := page s, isLoading := i, waiting := w, asked := k\<rparr>) = following t L s" for i w k
    by (simp add: following_def based_def base_lines_def)
  moreover have "shows_block t L c (s\<lparr>page := page s, isLoading := i, waiting := w, asked := k\<rparr>) = shows_block t L c s" for c i w k
    by (simp add: shows_block_def)
  ultimately show ?thesis using NextTick assms
    by (auto simp: follow_inv_def reader_step_def getContent_def Let_def max_def)
next
  case Arrival
  show ?thesis
  proof (cases "waiting s")
    case (Cons q qs)
    then have "qs = []" using assms by (auto simp: follow_inv_def)
    then have "follow_step t (L, s) e =
        (L, content_answered t False (sqlite_answer L False (hd (waiting s))) (s\<lparr>waiting := []\<rparr>))"
      using Cons Arrival assms by (auto simp: reader_step_def follow_inv_def)
    then show ?thesis using follow_page[OF assms(1)] follow_first[OF assms(1)] Cons by (cases "latest s") auto
  qed (use Arrival assms in simp)
next
  case Lost
  have "following t L (s\<lparr>waiting := w, isLoading := i\<rparr>) = following t L s" for i w
    by (simp add: following_def based_def base_lines_def)
  moreover have "shows_block t L c (s\<lparr>waiting := w, isLoading := i\<rparr>) = shows_block t L c s" for c i w
    by (simp add: shows_block_def)
  ultimately show ?thesis using Lost assms
    by (auto simp: follow_inv_def reader_step_def content_answered_def)
next
  case (Scrolled y h c)
  then show ?thesis using quiet_scroll[OF assms(1), of y h c] assms by simp
qed

lemma follow_start: "L \<noteq> [] \<Longrightarrow> follow_inv t L (new_reader False True)"
  by (auto simp: follow_inv_def new_reader_def init_reader_def changeTail_def getContent_def Let_def shows_block_def)

definition no_stop :: "translation \<Rightarrow> jstring list \<Rightarrow> bool" where
  "no_stop t L \<longleftrightarrow> (\<forall>l \<in> set L. \<not> list_ex (endsWith (show_line t l)) stopSignals)"

definition live :: "log_reader \<Rightarrow> bool" where
  "live s \<longleftrightarrow> tailLog s \<and> ticking s"

lemma no_stop_page: "no_stop t L \<Longrightarrow> page_lines p L \<noteq> [] \<Longrightarrow> \<not> stops_at (map (show_line t) (page_lines p L))"
  using in_set_dropD in_set_takeD last_in_set unfolding no_stop_def stops_at_def page_lines_def
  by (metis last_map)

text \<open>One answer, by the page it is for.\<close>

lemma follow_arrival:
  assumes inv: "follow_inv t L s" and w: "waiting s \<noteq> []" and n: "no_stop t L" and v: "live s"
  defines "s' \<equiv> content_answered t False (sqlite_answer L False (hd (waiting s))) (s\<lparr>waiting := []\<rparr>)"
  shows "live s' \<and> waiting s' = [] \<and> \<not> latest s' \<and>
    (if \<not> latest s \<and> page s < page_count (length L) then page s' = page s + 1
     else page s' = page_count (length L) \<and> at_end s' \<and> totalLines s' = length L)"
proof -
  have L: "L \<noteq> []" "1 \<le> page s" "\<not> is_php s" "\<not> disposed s" "tailLog s" using inv v by (auto simp: follow_inv_def live_def)
  let ?n = "page_count (length L)"
  have n1: "1 \<le> ?n" using L by (intro page_count_pos) simp
  show ?thesis
  proof (cases "latest s")
    case True
    have q: "hd (waiting s) = \<lparr>rq_page = page s, rq_latest = True, rq_pre = False\<rparr>" "logs s = []"
      using inv w True by (auto simp: follow_inv_def)
    have ne: "page_lines ?n L \<noteq> []" using page_lines_ne[OF n1 order.refl L(1)] .
    show ?thesis using True q L ne n v no_stop_page[OF n ne]
        first_answer[of "s\<lparr>waiting := []\<rparr>" "the (sqlite_answer L False (hd (waiting s)))" t False]
      unfolding s'_def by (simp add: sqlite_latest Let_def length_page_lines live_def)
  next
    case False
    then have f: "following t L s" using inv L by (simp add: follow_inv_def)
    have q: "hd (waiting s) = \<lparr>rq_page = page s, rq_latest = False, rq_pre = False\<rparr>"
      using inv w False by (auto simp: follow_inv_def)
    have p: "page s \<le> ?n" "logs s \<noteq> []" "\<not> at_end s \<Longrightarrow> PAGE \<le> length (logs s)" using f by (auto simp: following_def)
    have ne: "page_lines (page s) L \<noteq> []" using page_lines_ne[OF L(2) p(1) L(1)] .
    have len: "\<not> at_end s \<Longrightarrow> length (page_lines (page s) L) \<le> length (logs s)" using p(3) by (simp add: length_page_lines)
    have fields: "live s' \<and> waiting s' = [] \<and> \<not> latest s' \<and> at_end s' = (length L \<le> page s * PAGE) \<and>
        totalLines s' = length L \<and>
        page s' = (if length (page_lines (page s) L) = PAGE \<and> page s < ?n then page s + 1 else page s)"
      using False q L p(2) ne v no_stop_page[OF n ne] len
        follow_answer[of "s\<lparr>waiting := []\<rparr>" "the (sqlite_answer L False (hd (waiting s)))" t]
      unfolding s'_def by (simp add: sqlite_page Let_def live_def page_up_def)
    then show ?thesis using False p(1) page_lines_full[OF L(2), of L] by (auto simp: page_count_covers)
  qed
qed

definition round :: "follow_event list" where "round = [NextTick, Arrival]"

lemma follow_round:
  assumes "follow_inv t L s" "no_stop t L" "live s"
  shows "\<exists>s'. fold (\<lambda>e z. follow_step t z e) round (L, s) = (L, s') \<and> follow_inv t L s' \<and> live s' \<and> \<not> latest s' \<and>
    (if \<not> latest s \<and> page s < page_count (length L) then page s' = page s + 1
     else page s' = page_count (length L) \<and> at_end s' \<and> totalLines s' = length L)"
proof -
  define s1 where "s1 = snd (follow_step t (L, s) NextTick)"
  have i: "follow_inv t L s1" using follow_step_inv[OF assms(1), of NextTick] by (simp add: s1_def)
  have f: "waiting s1 \<noteq> []" "live s1" "latest s1 = latest s" "page s1 = page s"
    using assms(1,3) by (auto simp: s1_def reader_step_def getContent_def Let_def follow_inv_def live_def max_def)
  obtain q where q: "waiting s1 = [q]" using i f(1) by (auto simp: follow_inv_def)
  define s2 where "s2 = content_answered t False (sqlite_answer L False q) (s1\<lparr>waiting := []\<rparr>)"
  have "fold (\<lambda>e z. follow_step t z e) round (L, s) = follow_step t (L, s1) Arrival"
    by (simp add: round_def s1_def)
  also have "\<dots> = (L, s2)" using q i by (auto simp: s2_def reader_step_def follow_inv_def)
  finally have run: "fold (\<lambda>e z. follow_step t z e) round (L, s) = (L, s2)" .
  moreover have "follow_inv t L s2" using follow_step_inv[OF i, of Arrival] q i by (auto simp: s2_def reader_step_def follow_inv_def)
  moreover have "content_answered t False (sqlite_answer L False (hd (waiting s1))) (s1\<lparr>waiting := []\<rparr>) = s2"
    by (simp add: q s2_def)
  note follow_arrival[OF i f(1) assms(2) f(2), unfolded this f(3,4)]
  ultimately show ?thesis by blast
qed

lemma follow_rounds:
  assumes "follow_inv t L s" "no_stop t L" "live s"
    and "page_count (length L) < k + (if latest s then 0 else page s)"
  shows "\<exists>s'. fold (\<lambda>e z. follow_step t z e) (concat (replicate (Suc k) round)) (L, s) = (L, s') \<and> follow_inv t L s' \<and>
    at_end s' \<and> totalLines s' = length L \<and> tailLog s' \<and> \<not> latest s'"
  using assms
proof (induction k arbitrary: s)
  case 0
  then have "\<not> latest s" "page_count (length L) \<le> page s" by (auto split: if_splits)
  then show ?case using follow_round[OF 0(1-3)] by (auto simp: live_def)
next
  case (Suc k)
  obtain s' where s': "fold (\<lambda>e z. follow_step t z e) round (L, s) = (L, s')" "follow_inv t L s'" "live s'" "\<not> latest s'"
      "if \<not> latest s \<and> page s < page_count (length L) then page s' = page s + 1
       else page s' = page_count (length L) \<and> at_end s' \<and> totalLines s' = length L"
    using follow_round[OF Suc.prems(1-3)] by blast
  show ?case
  proof (cases "page_count (length L) < k + page s'")
    case True
    then show ?thesis using Suc.IH[OF s'(2) Suc.prems(2) s'(3)] s'(1,4) by simp
  next
    case False
    then have "k = 0" "page s' = page_count (length L)" using s'(5) Suc.prems(4) by (auto split: if_splits)
    then show ?thesis using follow_round[OF s'(2) Suc.prems(2) s'(3)] s'(1) by (auto simp: live_def)
  qed
qed

lemma live_step:
  assumes "follow_inv t L s" "live s" "no_stop t (fst (follow_step t (L, s) e))" "quiet (L, s) e"
  shows "live (snd (follow_step t (L, s) e))"
proof (cases e)
  case Arrival
  show ?thesis
  proof (cases "waiting s")
    case (Cons q qs)
    then have "qs = []" using assms by (auto simp: follow_inv_def)
    then show ?thesis using follow_arrival[of t L s] Cons Arrival assms
      by (auto simp: reader_step_def follow_inv_def)
  qed (use Arrival assms in simp)
next
  case (Scrolled y h c)
  then show ?thesis using quiet_scroll[OF assms(1), of y h c] assms by simp
qed (use assms in \<open>auto simp: live_def reader_step_def getContent_def content_answered_def Let_def\<close>)

lemma no_stop_before: "no_stop t (fst (follow_step t (L, s) e)) \<Longrightarrow> no_stop t L"
  by (cases e) (auto simp: no_stop_def)

lemma no_stop_run: "no_stop t (fst (fold (\<lambda>e z. follow_step t z e) es z)) \<Longrightarrow> no_stop t (fst z)"
proof (induction es arbitrary: z)
  case (Cons e es)
  obtain L s where z: "z = (L, s)" by fastforce
  from Cons.IH [of "follow_step t z e"] Cons.prems no_stop_before [of t L s e] show ?case by (simp add: z)
qed simp

lemma follow_run:
  assumes "follow_inv t L0 s0" "calm t (L0, s0) es" "fold (\<lambda>e z. follow_step t z e) es (L0, s0) = (L, s)"
  shows "follow_inv t L s" and "live s0 \<Longrightarrow> no_stop t L \<Longrightarrow> live s"
proof -
  have "follow_inv t L s \<and> (live s0 \<and> no_stop t L \<longrightarrow> live s)"
    using assms
  proof (induction es arbitrary: L0 s0)
    case (Cons e es)
    obtain L1 s1 where s1: "follow_step t (L0, s0) e = (L1, s1)" by fastforce
    have q: "quiet (L0, s0) e" "calm t (L1, s1) es" "fold (\<lambda>e z. follow_step t z e) es (L1, s1) = (L, s)"
      using Cons.prems(2,3) by (simp_all add: s1)
    have "no_stop t L1" if "no_stop t L" using no_stop_run[of t es "(L1, s1)"] q(3) that by simp
    then show ?case
      using Cons.IH[OF _ q(2,3)] follow_step_inv[OF Cons.prems(1) q(1)] live_step[OF Cons.prems(1) _ _ q(1)] by (simp add: s1)
  qed simp
  then show "follow_inv t L s" and "live s0 \<Longrightarrow> no_stop t L \<Longrightarrow> live s" by blast+
qed

lemma new_reader_live: "live (new_reader False True)"
  by (simp add: live_def new_reader_def init_reader_def changeTail_def getContent_def Let_def)

text \<open>A calm run is the run without its scrolls.\<close>

definition is_scroll :: "follow_event \<Rightarrow> bool" where
  "is_scroll e \<longleftrightarrow> (case e of Scrolled y h c \<Rightarrow> True | _ \<Rightarrow> False)"

lemma calm_skip:
  "follow_inv t L s \<Longrightarrow> calm t (L, s) es \<Longrightarrow>
    fold (\<lambda>e z. follow_step t z e) es (L, s) = fold (\<lambda>e z. follow_step t z e) (filter (\<lambda>e. \<not> is_scroll e) es) (L, s)"
proof (induction es arbitrary: L s)
  case (Cons e es)
  obtain L1 s1 where s1: "follow_step t (L, s) e = (L1, s1)" by fastforce
  have q: "quiet (L, s) e" "calm t (L1, s1) es" using Cons.prems(2) by (simp_all add: s1)
  have "follow_inv t L1 s1" using follow_step_inv[OF Cons.prems(1) q(1)] by (simp add: s1)
  note IH = Cons.IH[OF this q(2)]
  show ?case
  proof (cases "is_scroll e")
    case True
    then obtain y h c where e: "e = Scrolled y h c" by (auto simp: is_scroll_def split: follow_event.splits)
    have "(L1, s1) = (L, s)" using quiet_scroll[OF Cons.prems(1)] q(1) s1 unfolding e by simp
    then show ?thesis using IH s1 True by simp
  next
    case False
    then show ?thesis using IH s1 by simp
  qed
qed simp

text \<open>C16: While the log of a task, served from the database, is followed, however it grows, whenever the answers
  arrive and whichever are lost, the viewer shows one stretch of the log, no line missing, doubled or out of
  place, of at most 3000 lines; whenever the last answer was the end of the log, the stretch goes up to that
  end; and nothing was cut off as long as the log itself has at most 3000 lines.  Scrolls, by the user or by the code,
  are calm: not within 50 pixels of the top while there are earlier pages, and within 50 pixels of the bottom only
  when the last answer was the end or the log has at most 3000 lines.\<close>

theorem following_shows_block:
  assumes "L0 \<noteq> []" and "calm t (L0, new_reader False True) es"
    and "fold (\<lambda>e z. follow_step t z e) es (L0, new_reader False True) = (L, s)"
  shows "\<exists>c. logs s = map (show_line t) (take (length (logs s)) (drop c L)) \<and> c + length (logs s) \<le> length L \<and>
    500 dvd c \<and> length (logs s) \<le> 3000 \<and> (at_end s \<longrightarrow> c + length (logs s) = totalLines s) \<and>
    (length L \<le> 3000 \<and> \<not> latest s \<longrightarrow> isEndOfFile s)"
proof -
  have i: "follow_inv t L s" by (rule follow_run(1)[OF follow_start[OF assms(1)] assms(2,3)])
  then obtain c where "shows_block t L c s" by (auto simp: follow_inv_def)
  then show ?thesis using i unfolding shows_block_def follow_inv_def PAGE_def WINDOW_def by blast
qed

lemma new_reader_waiting: "waiting (new_reader False tail) = [\<lparr>rq_page = 1, rq_latest = True, rq_pre = False\<rparr>]"
  by (simp add: new_reader_def init_reader_def changeTail_def getContent_def Let_def)

lemma new_reader_fields [simp]:
  "logs (new_reader b tail) = []" "\<not> disposed (new_reader b tail)" "latest (new_reader b tail)" "is_php (new_reader b tail) = b"
  "lastLogs (new_reader b tail) = []" "\<not> at_end (new_reader b tail)" "tailLog (new_reader b tail) = tail"
  "asked (new_reader b tail) = [1]"
  by (simp_all add: new_reader_def init_reader_def changeTail_def getContent_def Let_def)

text \<open>A viewer opens with the last page.\<close>

lemma opened_reader:
  assumes "L \<noteq> []"
  shows "let s = reader_step t (new_reader False tail) (PageAnswer 0 (sqlite_answer L False (hd (waiting (new_reader False tail)))))
    in logs s = map (show_line t) (page_lines (page_count (length L)) L) \<and> at_end s \<and> totalLines s = length L \<and>
       minPage s = page_count (length L) \<and> page s = page_count (length L) \<and> isEndOfFile s \<and> \<not> isLoading s \<and>
       waiting s = [] \<and> \<not> latest s \<and> \<not> disposed s \<and> \<not> is_php s \<and> tailLog s = (tail \<and> \<not> stops_at (logs s)) \<and> asked s = [1]"
proof -
  have ne: "page_lines (page_count (length L)) L \<noteq> []"
    using page_lines_ne[OF page_count_pos order.refl assms] assms by simp
  show ?thesis
    using first_answer[of "(new_reader False tail)\<lparr>waiting := []\<rparr>"
        "the (sqlite_answer L False \<lparr>rq_page = 1, rq_latest = True, rq_pre = False\<rparr>)" t False] ne assms
    by (simp add: reader_step_def new_reader_waiting sqlite_latest Let_def length_page_lines)
qed

lemma short_run:
  assumes "fold (\<lambda>e z. follow_step t z e) [Arrival] ([lit ''a''], new_reader False True) = (L, s)"
  shows "L = [lit ''a''] \<and> length (logs s) = 1"
  using assms opened_reader[of "[lit ''a'']" t True]
  by (auto simp: new_reader_waiting Let_def page_lines_def page_count_def PAGE_def)

lemma show_a: "show_line (\<lambda>_ _. []) (lit ''a'') = lit ''a''"
  by code_simp

lemma following_shows_block_witness:
  "\<exists>L s. fold (\<lambda>e z. follow_step (\<lambda>_ _. []) z e) [Arrival] ([lit ''a''], new_reader False True) = (L, s) \<and>
     logs s = [lit ''a'']"
proof -
  have calm: "calm (\<lambda>_ _. []) ([lit ''a''], new_reader False True) [Arrival]" by (simp del: lit_simps)
  obtain L s where r: "fold (\<lambda>e z. follow_step (\<lambda>_ _. []) z e) [Arrival] ([lit ''a''], new_reader False True) = (L, s)"
    by fastforce
  have ne: "[lit ''a''] \<noteq> []" by simp
  obtain c where c: "logs s = map (show_line (\<lambda>_ _. [])) (take (length (logs s)) (drop c L))" "c + length (logs s) \<le> length L"
    using following_shows_block[OF ne calm r] by blast
  have L: "L = [lit ''a'']" "length (logs s) = 1" using short_run[OF r] by blast+
  then have "c = 0" using c(2) by simp
  then have "logs s = map (show_line (\<lambda>_ _. [])) [lit ''a'']" using c(1) unfolding L by simp
  then show ?thesis using r by (simp add: show_a del: lit_simps fold.simps)
qed

text \<open>C17: A viewer that follows the log of a task served from the database catches up: whatever happened before,
  once the log has stopped growing and no request is lost, as many polls as the log has pages, and two more,
  bring the end of the log on the screen, whatever is scrolled between them.  No line may end like the message
  that ends a task (it stops the viewer for good), and the scrolls are calm, before and during the polls: not
  within 50 pixels of the top while there are earlier pages, and within 50 pixels of the bottom only when the
  last answer was the end or the log has at most 3000 lines.\<close>

theorem following_catches_up:
  assumes "L0 \<noteq> []" and "calm t (L0, new_reader False True) es"
    and "fold (\<lambda>e z. follow_step t z e) es (L0, new_reader False True) = (L, s)"
    and "no_stop t L" and "page_count (length L) < k"
    and "filter (\<lambda>e. \<not> is_scroll e) es' = concat (replicate (Suc k) [NextTick, Arrival])" and "calm t (L, s) es'"
  shows "\<exists>s'. fold (\<lambda>e z. follow_step t z e) es' (L, s) = (L, s') \<and>
    logs s' \<noteq> [] \<and> logs s' = map (show_line t) (drop (length L - length (logs s')) L)"
proof -
  have i: "follow_inv t L s" and v: "live s"
    using follow_run[OF follow_start[OF assms(1)] assms(2,3)] assms(4) new_reader_live by blast+
  have k: "page_count (length L) < k + (if latest s then 0 else page s)" using assms(5) by simp
  obtain s' where s': "fold (\<lambda>e z. follow_step t z e) (concat (replicate (Suc k) round)) (L, s) = (L, s')" "follow_inv t L s'"
      "at_end s'" "totalLines s' = length L" "tailLog s'" "\<not> latest s'"
    using follow_rounds[OF i assms(4) v k] by blast
  have run: "fold (\<lambda>e z. follow_step t z e) es' (L, s) = (L, s')"
    using calm_skip[OF i assms(7)] s'(1) unfolding assms(6) round_def by simp
  obtain c where "shows_block t L c s'" using s'(2) by (auto simp: follow_inv_def)
  then have c: "logs s' = map (show_line t) (take (length (logs s')) (drop c L))" "c + length (logs s') = length L"
    using s'(3,4) by (auto simp: shows_block_def)
  then have "c = length L - length (logs s')" by simp
  moreover have "take (length (logs s')) (drop c L) = drop c L" using c(2) by simp
  moreover have "logs s' \<noteq> []" using s'(2,5,6) by (auto simp: follow_inv_def following_def)
  ultimately show ?thesis using run c(1) by auto
qed

lemma calm_polls: "list_all (\<lambda>e. \<not> is_scroll e) es \<Longrightarrow> calm t z es"
proof (induction es arbitrary: z)
  case (Cons e es)
  obtain L s where "z = (L, s)" by fastforce
  then have "quiet z e" using Cons.prems by (cases e) (simp_all add: is_scroll_def)
  with Cons show ?case by simp
qed simp

lemma following_catches_up_witness:
  "\<exists>s'. fold (\<lambda>e z. follow_step (\<lambda>_ _. []) z e) (concat (replicate (Suc 2) [NextTick, Arrival]))
       ([lit ''a''], new_reader False True) = ([lit ''a''], s') \<and>
     logs s' \<noteq> [] \<and> logs s' = map (show_line (\<lambda>_ _. [])) (drop (1 - length (logs s')) [lit ''a''])"
proof -
  let ?t = "\<lambda>_ _. [] :: jstring" and ?es = "concat (replicate (Suc 2) [NextTick, Arrival])"
  have r: "fold (\<lambda>e z. follow_step ?t z e) [] ([lit ''a''], new_reader False True) = ([lit ''a''], new_reader False True)"
    and ne: "[lit ''a''] \<noteq> []" and c: "calm ?t ([lit ''a''], new_reader False True) []" by simp_all
  have n: "no_stop ?t [lit ''a'']" unfolding no_stop_def by (simp add: show_a del: lit_simps) code_simp
  have k: "page_count (length [lit ''a'']) < 2" by (simp add: page_count_def PAGE_def)
  have f: "filter (\<lambda>e. \<not> is_scroll e) ?es = ?es" "list_all (\<lambda>e. \<not> is_scroll e) ?es"
    by (simp_all add: is_scroll_def numeral_2_eq_2)
  show ?thesis using following_catches_up[OF ne c r n k f(1) calm_polls[OF f(2)]] by simp
qed

section \<open>Scrolling\<close>

datatype scroll_event = ScrollTo rat rat rat | Served

fun scroll_step :: "translation \<Rightarrow> jstring list \<Rightarrow> scroll_event \<Rightarrow> log_reader \<Rightarrow> log_reader" where
  "scroll_step t L (ScrollTo y h c) s = reader_step t s (Scroll y h c)"
| "scroll_step t L Served s =
     (case waiting s of [] \<Rightarrow> s | q # qs \<Rightarrow> reader_step t s (PageAnswer 0 (sqlite_answer L False q)))"

definition from_page :: "translation \<Rightarrow> jstring list \<Rightarrow> nat \<Rightarrow> jstring list \<Rightarrow> bool" where
  "from_page t L m ls \<longleftrightarrow> ls = map (show_line t) (take (length ls) (drop ((m - 1) * PAGE) L)) \<and> ls \<noteq> [] \<and> length ls \<le> WINDOW"

definition scroll_inv :: "translation \<Rightarrow> jstring list \<Rightarrow> log_reader \<Rightarrow> bool" where
  "scroll_inv t L s \<longleftrightarrow> \<not> is_php s \<and> \<not> disposed s \<and> \<not> tailLog s \<and> isLoading s = (waiting s \<noteq> []) \<and>
     (if latest s then s = new_reader False False
      else isEndOfFile s \<and> page s = minPage s \<and> 1 \<le> minPage s \<and> minPage s \<le> page_count (length L) \<and>
        asked s = 1 # rev [minPage s..<page_count (length L)] \<and>
        (if waiting s = [] then from_page t L (minPage s) (logs s)
         else waiting s = [\<lparr>rq_page = minPage s, rq_latest = False, rq_pre = True\<rparr>] \<and>
           minPage s < page_count (length L) \<and> from_page t L (Suc (minPage s)) (logs s)))"

lemma from_pageI:
  "ls = map (show_line t) (take k (drop ((m - 1) * PAGE) L)) \<Longrightarrow> ls \<noteq> [] \<Longrightarrow> length ls \<le> WINDOW \<Longrightarrow> from_page t L m ls"
  unfolding from_page_def by (intro conjI block_length)

text \<open>The page before the lines that are shown.\<close>

lemma page_before:
  assumes "from_page t L (Suc m) ls" "1 \<le> m" "m < page_count (length L)" "L \<noteq> []"
  defines "new \<equiv> map (show_line t) (page_lines m L)"
  shows "from_page t L m (let all = new @ ls in if length all \<le> WINDOW then all else take (length all - PAGE) all)"
proof -
  let ?f = "show_line t"
  have full: "length new = PAGE" using page_lines_full assms(2,3) by (simp add: new_def)
  have le: "m * PAGE \<le> length L"
    using page_count_iff[of "length L" "Suc m"] assms(3,4) by simp
  have ls: "ls = map ?f (take (length ls) (drop (m * PAGE) L))" "ls \<noteq> []" "length ls \<le> WINDOW"
    using assms(1) by (auto simp: from_page_def)
  have all: "new @ ls = map ?f (take (PAGE + length ls) (drop ((m - 1) * PAGE) L))"
    using page_append_block[OF assms(2), of L "length ls"] le ls(1) unfolding new_def by (metis map_append)
  show ?thesis
  proof (cases "length (new @ ls) \<le> WINDOW")
    case True
    moreover have "new @ ls \<noteq> []" using ls by simp
    ultimately show ?thesis using from_pageI[OF all] by (simp only: Let_def if_True simp_thms)
  next
    case False
    define n where "n = length (new @ ls) - PAGE"
    have n: "n = length ls" using full by (simp add: n_def)
    then have "take n (new @ ls) = map ?f (take n (drop ((m - 1) * PAGE) L))" unfolding all by (simp add: take_map)
    moreover have "length (take n (new @ ls)) = n" using n by simp
    ultimately have "from_page t L m (take n (new @ ls))" using ls(2,3) n by (intro from_pageI) auto
    then show ?thesis using False by (simp only: n_def Let_def if_False simp_thms)
  qed
qed

lemma scroll_answer:
  assumes inv: "scroll_inv t L s" and w: "waiting s \<noteq> []" and l: "\<not> latest s" and L: "L \<noteq> []"
  shows "scroll_inv t L (content_answered t True (sqlite_answer L False (hd (waiting s))) (s\<lparr>waiting := []\<rparr>))"
proof -
  let ?m = "minPage s"
  have f: "\<not> is_php s" "\<not> disposed s" "\<not> tailLog s" "isEndOfFile s" "page s = ?m" "1 \<le> ?m" "?m < page_count (length L)"
      "asked s = 1 # rev [?m..<page_count (length L)]" "waiting s = [\<lparr>rq_page = ?m, rq_latest = False, rq_pre = True\<rparr>]"
      "from_page t L (Suc ?m) (logs s)"
    using inv w l by (auto simp: scroll_inv_def)
  define a where "a = the (sqlite_answer L False (hd (waiting s)))"
  have answer: "sqlite_answer L False (hd (waiting s)) = Some a" and a: "pa_lines a = page_lines ?m L" "\<not> pa_finished a"
    using f(6,9) L by (simp_all add: a_def sqlite_page)
  have ne: "page_lines ?m L \<noteq> []" using page_lines_ne[OF f(6) less_imp_le[OF f(7)] L] .
  have j: "joined True new (s\<lparr>waiting := []\<rparr>) = new @ logs s" for new using f(10) by (simp add: joined_def from_page_def)
  have p: "page_up new a (s\<lparr>waiting := []\<rparr>) = ?m" for new using f(3,5) by (simp add: page_up_def)
  have b: "from_page t L ?m (let all = map (show_line t) (page_lines ?m L) @ logs s in
      if length all \<le> WINDOW then all else take (length all - PAGE) all)"
    using page_before[OF f(10,6,7) L] .
  show ?thesis unfolding answer scroll_inv_def
    using f(1-8) l ne a b
    by (cases "length (page_lines ?m L) + length (logs s) \<le> WINDOW")
      (simp_all add: content_answered_eq[OF _ _ _ _ refl] j p Let_def)
qed

lemma scroll_first:
  assumes L: "L \<noteq> []"
  shows "scroll_inv t L (scroll_step t L Served (new_reader False False))"
proof -
  let ?n = "page_count (length L)"
  have p: "1 \<le> ?n" using L by (intro page_count_pos) simp
  have lt: "(?n - 1) * PAGE < length L" using page_count_iff[of "length L" ?n] p L by simp
  have "length L \<le> ?n * PAGE" by (simp add: page_count_covers)
  then have e: "length L - (?n - 1) * PAGE \<le> PAGE" using p by (cases ?n) auto
  have "from_page t L ?n (map (show_line t) (page_lines ?n L))"
    using lt e by (auto simp: from_page_def page_lines_def PAGE_def WINDOW_def)
  then show ?thesis using opened_reader[OF L, of t False] p
    by (simp add: new_reader_waiting scroll_inv_def Let_def)
qed

lemma scroll_step_inv:
  assumes inv: "scroll_inv t L s" and L: "L \<noteq> []"
  shows "scroll_inv t L (scroll_step t L e s)"
proof (cases e)
  case (ScrollTo y h c)
  show ?thesis
  proof (cases "isLoading s \<or> page s \<le> 1 \<or> \<not> y \<le> 50")
    case True
    then have "onScroll y h c s = s" using inv by (auto simp: scroll_inv_def onScroll_def new_reader_waiting split: if_splits)
    then show ?thesis using inv unfolding ScrollTo by (simp add: reader_step_def)
  next
    case False
    then have f: "waiting s = []" "\<not> latest s" using inv by (auto simp: scroll_inv_def new_reader_waiting split: if_splits)
    let ?m = "minPage s"
    have m: "page s = ?m" "1 < ?m" "?m \<le> page_count (length L)" using False inv f by (auto simp: scroll_inv_def)
    have r: "rev [?m - 1..<page_count (length L)] = rev [?m..<page_count (length L)] @ [?m - 1]"
      using m by (cases ?m) (simp_all add: upt_conv_Cons)
    have m': "Suc (?m - 1) = ?m" "?m - 1 < page_count (length L)" "1 \<le> ?m - 1" "?m - 1 \<le> page_count (length L)"
      using m by simp_all
    have "onScroll y h c s = s\<lparr>page := ?m - 1, minPage := ?m - 1, isLoading := True,
        waiting := [\<lparr>rq_page = ?m - 1, rq_latest = False, rq_pre = True\<rparr>], asked := asked s @ [?m - 1]\<rparr>"
      using False f m by (simp add: onScroll_def getContent_def Let_def max_def)
    then show ?thesis using inv f m(1) m' r unfolding ScrollTo
      by (simp add: reader_step_def scroll_inv_def del: One_nat_def)
  qed
next
  case Served
  show ?thesis
  proof (cases "waiting s")
    case (Cons q qs)
    show ?thesis
    proof (cases "latest s")
      case True
      then have "s = new_reader False False" using inv by (simp add: scroll_inv_def)
      then show ?thesis using scroll_first[OF L] Served by (simp only:)
    next
      case False
      then show ?thesis using scroll_answer[OF inv _ False L] Cons inv Served
        by (auto simp: scroll_inv_def reader_step_def)
    qed
  qed (use Served inv in simp)
qed

text \<open>C18: A user who only scrolls, while the log of a task, served from the database, neither grows nor is
  followed and every request is answered, sees, whenever no request is on its way, one stretch of the log of at
  most 3000 lines that begins at the page the viewer notes.  The pages are asked for once each, from the last one
  upwards, so what was cut off at the end never comes back.\<close>

theorem scrolling_shows_block:
  assumes "L \<noteq> []" and "s = fold (scroll_step t L) es (new_reader False False)" and "waiting s = []"
  shows "logs s = map (show_line t) (take (length (logs s)) (drop ((minPage s - 1) * 500) L)) \<and> length (logs s) \<le> 3000 \<and>
    asked s = 1 # rev [minPage s..<page_count (length L)]"
proof -
  have "scroll_inv t L s0 \<Longrightarrow> scroll_inv t L (fold (scroll_step t L) es s0)" for s0
    by (induction es arbitrary: s0) (simp_all add: scroll_step_inv assms(1))
  moreover have "scroll_inv t L (new_reader False False)"
    by (simp add: scroll_inv_def) (simp add: new_reader_def init_reader_def getContent_def Let_def)
  ultimately have inv: "scroll_inv t L s" using assms(2) by simp
  have "\<not> latest s" using inv assms(3) by (auto simp: scroll_inv_def new_reader_waiting split: if_splits)
  then show ?thesis using inv assms(3) by (auto simp: scroll_inv_def from_page_def PAGE_def WINDOW_def)
qed

lemma scrolling_shows_block_witness:
  "let s = fold (scroll_step (\<lambda>_ _. []) [lit ''a'']) [Served, ScrollTo 0 100 100] (new_reader False False) in
     logs s = [lit ''a''] \<and> asked s = [1]"
proof -
  define s where "s = fold (scroll_step (\<lambda>_ _. []) [lit ''a'']) [Served, ScrollTo 0 100 100] (new_reader False False)"
  have f: "waiting s = [] \<and> length (logs s) = 1 \<and> minPage s = 1"
    using opened_reader[of "[lit ''a'']" "\<lambda>_ _. []" False]
    by (simp add: s_def new_reader_waiting Let_def page_lines_def page_count_def PAGE_def reader_step_def onScroll_def)
  show ?thesis using scrolling_shows_block[OF _ s_def] f unfolding s_def[symmetric]
    by (simp add: show_a page_count_def PAGE_def del: lit_simps)
qed

section \<open>What is drawn\<close>

lemma start_le_row: "0 < h \<Longrightarrow> y < (of_nat i + 1) * h \<Longrightarrow> startIndex h y \<le> int i"
proof -
  assume h: "0 < h" and y: "y < (of_nat i + 1) * h"
  then have "y / h < of_nat i + 1" by (simp add: pos_divide_less_eq)
  then have "\<lfloor>y / h\<rfloor> \<le> int i" by (simp add: floor_le_iff)
  then show ?thesis by (simp add: startIndex_def)
qed

lemma row_before_end: "0 < h \<Longrightarrow> of_nat i * h < y + c \<Longrightarrow> int i < startIndex h y + visibleCount h c"
proof -
  assume h: "0 < h" and i: "of_nat i * h < y + c"
  then have "of_nat i < (y + c) / h" by (simp add: pos_less_divide_eq)
  also have "\<dots> = y / h + c / h" by (simp add: add_divide_distrib)
  also have "\<dots> < of_int (\<lfloor>y / h\<rfloor> + 1 + \<lceil>c / h\<rceil>)"
    using floor_correct[of "y / h"] le_of_int_ceiling[of "c / h"] by (simp only: of_int_add of_int_1) linarith
  finally have "int i < \<lfloor>y / h\<rfloor> + 1 + \<lceil>c / h\<rceil>" by (metis of_int_less_iff of_int_of_nat_eq)
  then show ?thesis by (simp add: startIndex_def visibleCount_def)
qed

text \<open>Every line whose row meets the part of the log that is on the screen is drawn, and at the height where it
  belongs, although only as many lines are drawn as fit on the screen, and ten more.\<close>

theorem lines_on_screen_drawn:
  assumes "0 < h" and "i < length (logs s)" and "y < (of_nat i + 1) * h" and "of_nat i * h < y + container"
  shows "let k = i - nat (startIndex h y) in
    k < length (visibleLogs h container y s) \<and> visibleLogs h container y s ! k = logs s ! i \<and>
    offsetY h y + of_nat k * h = of_nat i * h \<and> int (length (visibleLogs h container y s)) \<le> max 0 (\<lceil>container / h\<rceil> + 10)"
proof -
  let ?b = "startIndex h y" and ?e = "endIndex h container y s"
  have b: "0 \<le> ?b" "?b \<le> int i" using start_le_row[OF assms(1,3)] by (simp_all add: startIndex_def)
  have e: "int i < ?e" using row_before_end[OF assms(1,4)] assms(2) by (simp add: endIndex_def)
  have n: "nat ?b \<le> i" "i < nat ?e" using b e by linarith+
  have le: "?e \<le> int (length (logs s))" "?e \<le> ?b + (\<lceil>container / h\<rceil> + 10)" by (simp_all add: endIndex_def visibleCount_def)
  have len: "length (visibleLogs h container y s) = nat ?e - nat ?b" using le(1) by (simp add: visibleLogs_def)
  have "visibleLogs h container y s ! (i - nat ?b) = logs s ! i" using n assms(2) le(1) by (simp add: visibleLogs_def)
  moreover have "offsetY h y + of_nat (i - nat ?b) * h = of_nat i * h"
  proof -
    have "(of_int ?b :: rat) = of_nat (nat ?b)" using b(1) by simp
    then have "of_int ?b + of_nat (i - nat ?b) = (of_nat i :: rat)" by (simp only: of_nat_add[symmetric] le_add_diff_inverse[OF n(1)])
    then show ?thesis by (simp only: offsetY_def distrib_right[symmetric])
  qed
  moreover have "i - nat ?b < nat ?e - nat ?b" using n by simp
  moreover have "int (nat ?e - nat ?b) \<le> max 0 (\<lceil>container / h\<rceil> + 10)" using le(2) b(1) by linarith
  ultimately show ?thesis unfolding Let_def len by blast
qed

lemma lines_on_screen_drawn_witness:
  "let s = (new_reader False False)\<lparr>logs := replicate 7 (lit ''a'') @ [lit ''b'']\<rparr>; k = 7 - nat (startIndex 20 140) in
     visibleLogs 20 40 140 s ! k = lit ''b'' \<and> offsetY 20 140 + of_nat k * 20 = 140"
  using lines_on_screen_drawn[of 20 7 "(new_reader False False)\<lparr>logs := replicate 7 (lit ''a'') @ [lit ''b'']\<rparr>" 140 40]
  by (simp add: Let_def nth_append)

section \<open>Where it goes wrong\<close>

text \<open>Once the window is full, every poll moves the noted page on, although the window stays where it is.\<close>

lemma polling_moves_page:
  assumes "\<not> disposed s" "\<not> latest s" "\<not> is_php s" "tailLog s" "at_end s" "logs s \<noteq> []" "length (lastLogs s) = WINDOW" "1 < minPage s"
    and "L \<noteq> []" "page s = page_count (length L)"
  shows "let s' = content_answered t False (sqlite_answer L False \<lparr>rq_page = page s, rq_latest = False, rq_pre = False\<rparr>) s in
    minPage s' = minPage s + 1 \<and> lastLogs s' = lastLogs s \<and> page s' = page s \<and>
    logs s' = drop PAGE (lastLogs s @ map (show_line t) (page_lines (page s) L))"
proof -
  have p: "1 \<le> page s" using assms(9,10) page_count_pos[of "length L"] by simp
  have "page_lines (page s) L \<noteq> []" using page_lines_ne[OF p _ assms(9)] assms(10) by simp
  then show ?thesis
    using assms p follow_answer[of s "the (sqlite_answer L False \<lparr>rq_page = page s, rq_latest = False, rq_pre = False\<rparr>)" t]
    by (simp add: sqlite_page Let_def base_lines_def window_def page_up_def)
qed

text \<open>After an answer the code scrolls to the bottom.  Once lines were cut off, and unless that answer was the end of
  the log, this asks for the page after the one that is next: that one is skipped.\<close>

lemma bottom_scroll_skips:
  assumes "\<not> isLoading s" "\<not> at_end s" "\<not> isEndOfFile s" "maxPage s = page s" "page s < totalPages s"
    and "50 < y" "scrollHeight - y - clientHeight \<le> 50"
  shows "asked (onScroll y scrollHeight clientHeight s) = asked s @ [page s + 1]"
  using assms by (simp add: onScroll_def getContent_def Let_def)

text \<open>A user who scrolls up while a log is followed gets the page before; the next poll then finds that the last
  answer was not the end, and puts the lines of the last page after those that are shown already.\<close>

lemma scroll_up_doubles:
  assumes "\<not> disposed s" "\<not> latest s" "\<not> is_php s" "tailLog s" "ticking s" "at_end s" "\<not> isLoading s" "waiting s = []"
    and "minPage s = n" "page s = n" "n = page_count (length L)" "2 \<le> n" "y \<le> 50"
    and "logs s = map (show_line t) (page_lines n L)" "no_stop t L"
  defines "arrive \<equiv> \<lambda>s. reader_step t s (PageAnswer 0 (sqlite_answer L False (hd (waiting s))))"
  shows "logs (arrive (reader_step t (arrive (reader_step t s (Scroll y h c))) Tick)) =
    map (show_line t) (page_lines (n - 1) L @ page_lines n L @ page_lines n L)"
proof -
  have L: "L \<noteq> []" using assms(11,12) by (auto simp: page_count_def PAGE_def)
  have full: "length (page_lines (n - 1) L) = PAGE" using page_lines_full[of "n - 1" L] assms(11,12) by simp
  have ne: "page_lines (n - 1) L \<noteq> []" "page_lines n L \<noteq> []"
    using page_lines_ne[of "n - 1" L] page_lines_ne[of n L] assms(11,12) L by simp_all
  have short: "length (page_lines n L) \<le> PAGE" by (simp add: length_page_lines)
  have e: "\<not> length L \<le> (n - 1) * PAGE" using assms(11,12) page_count_covers[of "length L" "n - 1"] by simp
  note stop = no_stop_page[OF assms(15) ne(1)] no_stop_page[OF assms(15) ne(2)]
  define s1 where "s1 = reader_step t s (Scroll y h c)"
  have s1: "s1 = s\<lparr>page := n - 1, minPage := n - 1, isLoading := True, waiting := [\<lparr>rq_page = n - 1, rq_latest = False, rq_pre = True\<rparr>],
      asked := asked s @ [n - 1]\<rparr>"
    using assms by (simp add: s1_def reader_step_def onScroll_def getContent_def Let_def max_def)
  define a where "a = the (sqlite_answer L False (hd (waiting s1)))"
  have a: "sqlite_answer L False (hd (waiting s1)) = Some a" "pa_lines a = page_lines (n - 1) L" "\<not> pa_finished a"
    "pa_total a = n" "\<not> pa_end a"
    using L e assms(11,12) by (simp_all add: a_def s1 sqlite_page)
  define s2 where "s2 = arrive s1"
  have s2: "logs s2 = map (show_line t) (page_lines (n - 1) L @ page_lines n L)" "page s2 = n" "\<not> at_end s2" "tailLog s2"
      "ticking s2" "\<not> isLoading s2" "waiting s2 = []" "\<not> latest s2" "\<not> disposed s2" "\<not> is_php s2"
    using assms(1-14) a ne full short stop
    by (simp_all add: s2_def arrive_def a(1) reader_step_def s1 content_answered_eq[OF _ _ _ _ refl] joined_def page_up_def
        PAGE_def WINDOW_def)
  define s3 where "s3 = reader_step t s2 Tick"
  have s3: "s3 = s2\<lparr>isLoading := True, waiting := [\<lparr>rq_page = n, rq_latest = False, rq_pre = False\<rparr>], asked := asked s2 @ [n]\<rparr>"
    using s2 assms(12) by (simp add: s3_def reader_step_def getContent_def Let_def max_def)
  have j: "joined False new s3 = logs s2 @ new" if "length new \<le> PAGE" for new
    using that s2 full by (simp add: joined_def s3)
  have "logs (arrive s3) = logs s2 @ map (show_line t) (page_lines n L)"
    using s2 ne full short stop L assms(11,12) j[of "map (show_line t) (page_lines n L)"]
    by (simp add: arrive_def reader_step_def s3 sqlite_page content_answered_eq[OF _ _ _ _ refl] joined_def PAGE_def WINDOW_def)
  then show ?thesis using s2(1) by (simp add: s3_def s2_def s1_def)
qed

text \<open>A file longer than a page opens with its first lines, noted as its last page.\<close>

lemma file_opens_at_start:
  assumes "PAGE < length L"
  shows "let s = reader_step t (new_reader False tail)
      (PageAnswer 0 (Some (paged_file_answer L (hd (waiting (new_reader False tail)))))) in
    logs s = map (show_line t) (take PAGE L) \<and> minPage s = page_count (length L) \<and> 1 < minPage s \<and> isEndOfFile s"
proof -
  let ?a = "paged_file_answer L \<lparr>rq_page = 1, rq_latest = True, rq_pre = False\<rparr>"
  have n: "2 \<le> page_count (length L)" using assms by (simp add: page_count_def PAGE_def)
  have a: "pa_lines ?a = take PAGE L" "pa_total ?a = page_count (length L)" "\<not> pa_finished ?a"
    using assms n by (simp_all add: paged_file_answer_def Let_def)
  have "take PAGE L \<noteq> []" using assms by (cases L) (auto simp: PAGE_def)
  then show ?thesis
    using n a first_answer[of "(new_reader False tail)\<lparr>waiting := []\<rparr>" ?a t False]
    by (simp add: reader_step_def new_reader_waiting Let_def)
qed

text \<open>The file of a task opens with its last 500 lines; scrolling up then shows some of them again.\<close>

lemma task_file_doubles:
  assumes "L \<noteq> []" "(page_count (length L) - 1) * PAGE + k = length L" "1 < page_count (length L)"
  defines "n \<equiv> page_count (length L)"
  shows "pa_lines (task_file_answer L \<lparr>rq_page = 1, rq_latest = True, rq_pre = False\<rparr>) = drop (length L - PAGE) L \<and>
    pa_lines (task_file_answer L \<lparr>rq_page = n - 1, rq_latest = False, rq_pre = True\<rparr>) =
      take PAGE (drop ((n - 2) * PAGE) L) \<and>
    (n - 1) * PAGE - (length L - PAGE) = PAGE - k"
proof -
  have "k \<le> PAGE" using assms(2,3) by (simp add: page_count_def PAGE_def)
  have "PAGE \<le> (n - 1) * PAGE" using assms(3) by (cases n) (simp_all add: n_def)
  moreover have "(n - 1) * PAGE + k = length L" using assms(2) by (simp add: n_def)
  ultimately have "(n - 1) * PAGE - (length L - PAGE) = PAGE - k" using \<open>k \<le> PAGE\<close> by linarith
  then show ?thesis using assms
    by (simp add: task_file_answer_def page_lines_def Let_def numeral_2_eq_2 max_def)
qed

end
