(* ===== verification/CodeTree.thy ===== *)
theory CodeTree
  imports JsString
begin

text \<open>
  Paths and the tree of files beside the code editor
  (\<^verbatim>\<open>src/web/src/views/host/file-management/code-editor/index.vue\<close>): what renaming and deleting a file or
  directory does to the paths the editor holds.  The nodes are values; the children of a file are
  \<open>None\<close>.
\<close>

datatype tree_node =
  Tree_Node (tn_key: jstring) (tn_name: jstring) (tn_path: jstring) (tn_dir: bool) (tn_kids: "tree_node list option")

section \<open>Paths\<close>

definition getDirectoryPath :: "jstring \<Rightarrow> jstring \<Rightarrow> jstring" where
  "getDirectoryPath base filePath =
     (case last_index_unit 47 filePath of
        None \<Rightarrow> base
      | Some i \<Rightarrow>
          let d = take i filePath in if d = [] \<or> d = lit ''.'' \<or> d = lit ''/'' then base else d)"

definition joinPath :: "jstring \<Rightarrow> jstring \<Rightarrow> jstring" where
  "joinPath d n = (if d = lit ''/'' then 47 # n else d @ 47 # n)"

definition isPathAffected :: "jstring \<Rightarrow> jstring \<Rightarrow> bool \<Rightarrow> bool" where
  "isPathAffected p target isDir \<longleftrightarrow> p = target \<or> isDir \<and> startsWith p (target @ [47])"

definition replaceAffectedPath :: "jstring \<Rightarrow> jstring \<Rightarrow> jstring \<Rightarrow> bool \<Rightarrow> jstring" where
  "replaceAffectedPath p old new isDir =
     (if p = old then new
      else if isDir \<and> startsWith p (old @ [47]) then new @ drop (length old) p
      else p)"

text \<open>The directory above, of a path that is not the root.\<close>

definition parent_path :: "jstring \<Rightarrow> jstring" where
  "parent_path p =
     (let q = js_join (lit ''/'') (butlast (js_split (lit ''/'') p)) in if q = [] then lit ''/'' else q)"

section \<open>The tree\<close>

fun updateNodeChildren :: "jstring \<Rightarrow> tree_node list \<Rightarrow> tree_node list \<Rightarrow> tree_node list" where
  "updateNodeChildren p new [] = []"
| "updateNodeChildren p new (Tree_Node k n q d cs # ns) =
     (if q = p then Tree_Node k n q d (Some new) # ns
      else Tree_Node k n q d (map_option (updateNodeChildren p new) cs) # updateNodeChildren p new ns)"

fun renameTreeNodePaths :: "jstring \<Rightarrow> jstring \<Rightarrow> jstring \<Rightarrow> bool \<Rightarrow> tree_node \<Rightarrow> tree_node" where
  "renameTreeNodePaths old new name isDir (Tree_Node k n p d cs) =
     Tree_Node k (if p = old then name else n) (replaceAffectedPath p old new isDir) d
       (map_option (map (renameTreeNodePaths old new name isDir)) cs)"

fun removeTreeNodeByPath :: "jstring \<Rightarrow> bool \<Rightarrow> tree_node list \<Rightarrow> tree_node list" where
  "removeTreeNodeByPath target isDir [] = []"
| "removeTreeNodeByPath target isDir (Tree_Node k n p d cs # ns) =
     (if isPathAffected p target isDir then removeTreeNodeByPath target isDir ns
      else Tree_Node k n p d (map_option (removeTreeNodeByPath target isDir) cs) # removeTreeNodeByPath target isDir ns)"

fun filterNodes :: "jstring \<Rightarrow> tree_node list \<Rightarrow> tree_node list" where
  "filterNodes key [] = []"
| "filterNodes key (Tree_Node k n p d cs # ns) =
     (if k = key then filterNodes key ns
      else Tree_Node k n p d (map_option (filterNodes key) cs) # filterNodes key ns)"

fun tree_paths :: "tree_node \<Rightarrow> jstring list" where
  "tree_paths (Tree_Node k n p d cs) = p # (case cs of None \<Rightarrow> [] | Some cs \<Rightarrow> concat (map tree_paths cs))"

section \<open>What they do\<close>

lemma affected_iff: "isPathAffected p t d \<longleftrightarrow> p = t \<or> d \<and> (\<exists>r. p = t @ 47 # r)"
  by (auto simp: isPathAffected_def startsWith_iff)

lemma replace_unaffected: "\<not> isPathAffected p old d \<Longrightarrow> replaceAffectedPath p old new d = p"
  by (auto simp: isPathAffected_def replaceAffectedPath_def)

lemma replace_affected: "isPathAffected (old @ r) old d \<Longrightarrow> replaceAffectedPath (old @ r) old new d = new @ r"
  by (auto simp: isPathAffected_def replaceAffectedPath_def)

lemma replace_cases:
  obtains (Moved) r where "p = old @ r" "replaceAffectedPath p old new d = new @ r" "r = [] \<or> d \<and> (\<exists>s. r = 47 # s)"
  | (Kept) "\<not> isPathAffected p old d" "replaceAffectedPath p old new d = p"
proof (cases "isPathAffected p old d")
  case True
  then consider "p = old" | r where "d" "p = old @ 47 # r" by (auto simp: affected_iff)
  then show thesis
  proof cases
    case 1
    then show thesis using Moved[of "[]"] by (simp add: replaceAffectedPath_def)
  next
    case 2
    then have "isPathAffected (old @ 47 # r) old d" by (auto simp: affected_iff)
    then show thesis using Moved[of "47 # r"] 2 replace_affected[of old "47 # r" d new] by blast
  qed
qed (use Kept replace_unaffected in blast)

text \<open>Renaming is undone by renaming back, and keeps different paths different, unless something of the new
  name was there before.\<close>

lemma replace_back:
  "\<not> isPathAffected p new d \<Longrightarrow> replaceAffectedPath (replaceAffectedPath p old new d) new old d = p"
proof (cases rule: replace_cases[of p old new d])
  case (Moved r)
  then have "isPathAffected (new @ r) new d" by (auto simp: affected_iff)
  then show ?thesis using Moved replace_affected[of new r d old] by simp
next
  case Kept
  then show "\<not> isPathAffected p new d \<Longrightarrow> ?thesis" by (simp add: replace_unaffected)
qed

lemma replace_inj: "inj_on (\<lambda>p. replaceAffectedPath p old new d) {p. \<not> isPathAffected p new d}"
  by (rule inj_on_inverseI[where g = "\<lambda>p. replaceAffectedPath p new old d"]) (simp add: replace_back)

lemma rename_tree_paths:
  "tree_paths (renameTreeNodePaths old new name d n) = map (\<lambda>p. replaceAffectedPath p old new d) (tree_paths n)"
proof (induction n rule: tree_paths.induct)
  case (1 k nm p dir cs)
  then show ?case by (cases cs) (auto simp: map_concat comp_def intro!: arg_cong[where f = concat])
qed

text \<open>A tree in which everything below a directory has a path below it, and files have nothing below.\<close>

fun filed :: "tree_node \<Rightarrow> bool" where
  "filed (Tree_Node k n p d cs) \<longleftrightarrow>
     (case cs of None \<Rightarrow> True
      | Some cs \<Rightarrow> (\<forall>c \<in> set cs. filed c \<and> (\<forall>q \<in> set (tree_paths c). \<exists>r. q = p @ 47 # r)) \<and> (\<not> d \<longrightarrow> cs = []))"

fun says_dir :: "jstring \<Rightarrow> bool \<Rightarrow> tree_node \<Rightarrow> bool" where
  "says_dir target isDir (Tree_Node k n p d cs) \<longleftrightarrow>
     (p = target \<longrightarrow> d = isDir) \<and> (case cs of None \<Rightarrow> True | Some cs \<Rightarrow> (\<forall>c \<in> set cs. says_dir target isDir c))"

lemma affected_below: "isPathAffected p t True \<Longrightarrow> isPathAffected (p @ 47 # r) t True"
  by (auto simp: affected_iff)

lemma removed_paths:
  "(\<forall>n \<in> set ns. filed n \<and> says_dir t d n) \<Longrightarrow>
     concat (map tree_paths (removeTreeNodeByPath t d ns)) =
     filter (\<lambda>p. \<not> isPathAffected p t d) (concat (map tree_paths ns))"
proof (induction t d ns rule: removeTreeNodeByPath.induct)
  case (2 t d k n p dir cs ns)
  show ?case
  proof (cases "isPathAffected p t d")
    case True
    have "isPathAffected q t d" if "cs = Some cs'" "c \<in> set cs'" "q \<in> set (tree_paths c)" for cs' c q
    proof -
      have f: "\<exists>r. q = p @ 47 # r" "dir" using 2(4) that by auto
      have "d" using True f(2) 2(4) by (auto simp: affected_iff)
      then show ?thesis using True f(1) by (auto simp: affected_iff)
    qed
    then have "filter (\<lambda>p. \<not> isPathAffected p t d) (tree_paths (Tree_Node k n p dir cs)) = []"
      using True by (auto simp: filter_empty_conv split: option.splits)
    then show ?thesis using 2(1)[OF True] 2(4) True by (simp del: tree_paths.simps)
  next
    case False
    then show ?thesis using 2(2)[OF False] 2(3)[OF False] 2(4) by (cases cs) auto
  qed
qed simp

end
