(* ===== verification/CodeEditor.thy ===== *)
theory CodeEditor
  imports CodeTree
begin

text \<open>
  The code editor of the file manager: \<^verbatim>\<open>src/web/src/views/host/file-management/code-editor/index.vue\<close>.  It
  holds one text, that of the file in \<open>form_path\<close>; opening a tab fetches its file again.  Every request and
  every question to the user is a call on its way; its answer is an event of its own and may come
  whenever it likes.  A handler that goes on after a question still holds the list of tabs it began with.
  Such a list may have been changed or replaced meanwhile, so the lists live in a store and are named by
  number.  The library that shows the text is there or not, and reports what is typed; what it does for
  layout, themes and languages is left out, as are the handlers that create files, which appear only as
  changes of \<open>isCreate\<close>.
\<close>

type_synonym tab = "jstring \<times> jstring"

datatype creating = CreateNone | CreateDir | CreateFile
datatype remove_type = RemoveLeft | RemoveRight | RemoveAll

datatype editor_call =
    FetchCall jstring
  | SaveCall
  | HistoryCall jstring
  | ExistsCall jstring jstring "tab list"
  | AskRemove nat jstring jstring
  | AskRemoveAll nat "nat option" jstring jstring remove_type
  | AskRemoveOther tab
  | AskOpen jstring
  | AskClose
  | RenameCall jstring jstring jstring bool
  | DeleteCall jstring bool
  | UpCall jstring
  | RefreshCall jstring
  | ExpandCall jstring
  | TreeCall jstring

record code_editor =
  shown :: bool
  tab_lists :: "tab list list"
  tab_list :: nat
  selectTab :: jstring
  form_path :: jstring
  form_content :: jstring
  oldFileContent :: jstring
  fileName :: jstring
  isEdit :: bool
  has_editor :: bool
  isCreate :: creating
  baseDir :: jstring
  currentPath :: jstring
  directoryPath :: jstring
  treeData :: "tree_node list"
  loadedNodes :: "jstring set"
  historyVersionCount :: nat
  stored_tabs :: "tab list"
  calls :: "editor_call list"
  saves :: "(jstring \<times> jstring) list"
  told :: "string list"

section \<open>Tabs\<close>

definition maxTabs :: nat where "maxTabs = 10"

definition fileTabs :: "code_editor \<Rightarrow> tab list" where
  "fileTabs s = tab_lists s ! tab_list s"

text \<open>A new list in place of the old one, and a change of the list itself.\<close>

definition put_tabs :: "tab list \<Rightarrow> code_editor \<Rightarrow> code_editor" where
  "put_tabs ts s = s\<lparr>tab_lists := tab_lists s @ [ts], tab_list := length (tab_lists s)\<rparr>"

definition change_tabs :: "(tab list \<Rightarrow> tab list) \<Rightarrow> code_editor \<Rightarrow> code_editor" where
  "change_tabs f s = s\<lparr>tab_lists := (tab_lists s)[tab_list s := f (fileTabs s)]\<rparr>"

definition saveTabsToStorage :: "code_editor \<Rightarrow> code_editor" where
  "saveTabsToStorage s = s\<lparr>stored_tabs := take maxTabs (fileTabs s)\<rparr>"

definition loadTabsFromStorage :: "code_editor \<Rightarrow> tab list" where
  "loadTabsFromStorage s = filter (\<lambda>(p, n). p \<noteq> [] \<and> n \<noteq> []) (stored_tabs s)"

definition disposeEditor :: "code_editor \<Rightarrow> code_editor" where
  "disposeEditor s = s\<lparr>has_editor := False\<rparr>"

text \<open>\<open>editor.setValue\<close> reports a change like typing does.\<close>

definition setValue :: "jstring \<Rightarrow> code_editor \<Rightarrow> code_editor" where
  "setValue v s = s\<lparr>form_content := v, isEdit := True\<rparr>"

definition call :: "editor_call \<Rightarrow> code_editor \<Rightarrow> code_editor" where
  "call c s = s\<lparr>calls := calls s @ [c]\<rparr>"

definition inform :: "string \<Rightarrow> code_editor \<Rightarrow> code_editor" where
  "inform m s = s\<lparr>told := told s @ [m]\<rparr>"

definition loadHistoryVersionCount :: "jstring \<Rightarrow> code_editor \<Rightarrow> code_editor" where
  "loadHistoryVersionCount p s = (if p = [] then s\<lparr>historyVersionCount := 0\<rparr> else call (HistoryCall p) s)"

definition history_answered :: "jstring \<Rightarrow> nat option \<Rightarrow> code_editor \<Rightarrow> code_editor" where
  "history_answered p n s =
     (if form_path s = p then s\<lparr>historyVersionCount := (case n of None \<Rightarrow> 0 | Some n \<Rightarrow> n)\<rparr> else s)"

section \<open>Loading and saving\<close>

definition getContent :: "jstring \<Rightarrow> bool \<Rightarrow> code_editor \<Rightarrow> code_editor" where
  "getContent p forceReload s =
     (if \<not> forceReload \<and> (form_path s = p \<or> isCreate s = CreateFile) then s
      else
        let s = (if p \<notin> fst ` set (fileTabs s) \<and> length (fileTabs s) \<ge> maxTabs then change_tabs tl s else s)
        in call (if isEdit s then AskOpen p else FetchCall p) s)"

text \<open>The first tab of the path gets the name, or a new tab is put at the end.\<close>

definition name_tab :: "jstring \<Rightarrow> jstring \<Rightarrow> jstring \<Rightarrow> tab list \<Rightarrow> tab list" where
  "name_tab p p' n ts =
     (case find_index (\<lambda>(q, _). q = p) ts of None \<Rightarrow> ts @ [(p', n)] | Some i \<Rightarrow> ts[i := (p, n)])"

definition content_fetched :: "jstring \<Rightarrow> jstring \<Rightarrow> jstring \<Rightarrow> jstring \<Rightarrow> code_editor \<Rightarrow> code_editor" where
  "content_fetched p content p' n s =
     (let s = s\<lparr>form_content := content, oldFileContent := content, form_path := p', fileName := n, has_editor := True\<rparr>;
          s = saveTabsToStorage (change_tabs (name_tab p p' n) s)
      in loadHistoryVersionCount p' (s\<lparr>selectTab := p'\<rparr>))"

definition saveContent :: "bool \<Rightarrow> code_editor \<Rightarrow> code_editor" where
  "saveContent may s =
     (if \<not> may then inform ''commons.res.forbidden'' s
      else if isEdit s then call SaveCall (s\<lparr>saves := saves s @ [(form_path s, form_content s)]\<rparr>)
      else inform ''file.noEdit'' s)"

text \<open>The answer to a save: whether there was a result, \<open>None\<close> when the request failed.\<close>

definition save_answered :: "bool option \<Rightarrow> code_editor \<Rightarrow> code_editor" where
  "save_answered res s =
     (case res of
        None \<Rightarrow> s
      | Some True \<Rightarrow>
          inform ''commons.msg.updateSuccess''
            (loadHistoryVersionCount (form_path s) (s\<lparr>isEdit := False, oldFileContent := form_content s\<rparr>))
      | Some False \<Rightarrow> inform ''commons.status.failed'' (s\<lparr>isEdit := False\<rparr>))"

definition handleReset :: "code_editor \<Rightarrow> code_editor" where
  "handleReset s =
     (if \<not> isEdit s then inform ''file.noEdit'' s
      else if \<not> has_editor s then s\<lparr>form_content := oldFileContent s\<rparr>
      else inform ''commons.msg.resetSuccess'' ((setValue (oldFileContent s) s)\<lparr>isEdit := False\<rparr>))"

section \<open>Closing tabs\<close>

definition close_tab :: "nat \<Rightarrow> jstring \<Rightarrow> jstring \<Rightarrow> code_editor \<Rightarrow> code_editor" where
  "close_tab k active target s =
     (let tabs = tab_lists s ! k;
          i = (case find_index (\<lambda>(p, _). p = target) tabs of None \<Rightarrow> 0 | Some i \<Rightarrow> Suc i);
          active' = (if active \<noteq> target then active
            else if i < length tabs then fst (tabs ! i)
            else if 2 \<le> i then fst (tabs ! (i - 2)) else active);
          s = saveTabsToStorage (put_tabs (filter (\<lambda>(p, _). p \<noteq> target) tabs) (s\<lparr>selectTab := active'\<rparr>))
      in if fileTabs s = [] then disposeEditor (s\<lparr>selectTab := []\<rparr>) else s)"

definition removeTab :: "jstring \<Rightarrow> code_editor \<Rightarrow> code_editor" where
  "removeTab target s =
     (if isEdit s then call (AskRemove (tab_list s) (selectTab s) target) s
      else
        let s = close_tab (tab_list s) (selectTab s) target s
        in if fileTabs s = [] then s else getContent (selectTab s) False s)"

definition remove_answered :: "bool \<Rightarrow> nat \<Rightarrow> jstring \<Rightarrow> jstring \<Rightarrow> bool \<Rightarrow> code_editor \<Rightarrow> code_editor" where
  "remove_answered may k active target confirmed s =
     (let s = close_tab k active target s in
      if confirmed then
        if fileTabs s = [] then s else let s = saveContent may s in getContent (selectTab s) False s
      else
        let s = s\<lparr>isEdit := False\<rparr> in if fileTabs s = [] then s else getContent (selectTab s) False s)"

definition close_tabs ::
  "nat \<Rightarrow> nat option \<Rightarrow> jstring \<Rightarrow> jstring \<Rightarrow> remove_type \<Rightarrow> code_editor \<Rightarrow> code_editor" where
  "close_tabs k i active target ty s =
     (let tabs = tab_lists s ! k;
          active' = (if active \<noteq> target \<and> ty \<noteq> RemoveAll then
              (case i of Some j \<Rightarrow> if j < length tabs then fst (tabs ! j) else [] | None \<Rightarrow> [])
            else active);
          newTabs = (case ty of
              RemoveLeft \<Rightarrow> (case i of Some j \<Rightarrow> drop j tabs | None \<Rightarrow> drop (length tabs - 1) tabs)
            | RemoveRight \<Rightarrow> (case i of Some j \<Rightarrow> take (Suc j) tabs | None \<Rightarrow> [])
            | RemoveAll \<Rightarrow> []);
          s = saveTabsToStorage ((put_tabs newTabs s)\<lparr>selectTab := active'\<rparr>)
      in if ty = RemoveAll then disposeEditor (s\<lparr>selectTab := []\<rparr>)
         else if newTabs \<noteq> [] then getContent active' False s else s)"

definition removeAllTab :: "jstring \<Rightarrow> remove_type \<Rightarrow> code_editor \<Rightarrow> code_editor" where
  "removeAllTab target ty s =
     (let i = find_index (\<lambda>(p, _). p = target) (fileTabs s) in
      if isEdit s then call (AskRemoveAll (tab_list s) i (selectTab s) target ty) s
      else close_tabs (tab_list s) i (selectTab s) target ty s)"

text \<open>Without an editor \<open>setValue\<close> throws, and nothing else happens.\<close>

definition remove_all_answered ::
  "bool \<Rightarrow> nat \<Rightarrow> nat option \<Rightarrow> jstring \<Rightarrow> jstring \<Rightarrow> remove_type \<Rightarrow> bool \<Rightarrow> code_editor \<Rightarrow> code_editor" where
  "remove_all_answered may k i active target ty confirmed s =
     (if confirmed then saveContent may (close_tabs k i active target ty s)
      else if ty \<noteq> RemoveAll \<and> \<not> has_editor s then s
      else
        let s = (if ty \<noteq> RemoveAll then setValue (oldFileContent s) s else s)
        in close_tabs k i active target ty (s\<lparr>isEdit := False, isCreate := CreateNone\<rparr>))"

definition keep_tab :: "tab \<Rightarrow> code_editor \<Rightarrow> code_editor" where
  "keep_tab t s = getContent (fst t) False (saveTabsToStorage ((put_tabs [t] s)\<lparr>selectTab := fst t\<rparr>))"

definition removeOtherTab :: "jstring \<Rightarrow> code_editor \<Rightarrow> code_editor" where
  "removeOtherTab target s =
     (case find (\<lambda>(p, _). p = target) (fileTabs s) of
        None \<Rightarrow> s
      | Some t \<Rightarrow> if isEdit s then call (AskRemoveOther t) s else keep_tab t s)"

definition remove_other_answered :: "bool \<Rightarrow> tab \<Rightarrow> bool \<Rightarrow> code_editor \<Rightarrow> code_editor" where
  "remove_other_answered may t confirmed s =
     (if confirmed then saveContent may (keep_tab t s)
      else if \<not> has_editor s then s
      else keep_tab t ((setValue (oldFileContent s) s)\<lparr>isEdit := False\<rparr>))"

definition changeTab :: "jstring \<Rightarrow> code_editor \<Rightarrow> code_editor" where
  "changeTab target s = getContent target False (s\<lparr>selectTab := target\<rparr>)"

section \<open>Opening and closing the editor\<close>

definition closeEditor :: "code_editor \<Rightarrow> code_editor" where
  "closeEditor s = disposeEditor ((put_tabs [] s)\<lparr>shown := False, selectTab := [], isEdit := False\<rparr>)"

definition handleClose :: "code_editor \<Rightarrow> code_editor" where
  "handleClose s = (if isEdit s then call AskClose s else closeEditor s)"

definition open_tabs :: "jstring \<Rightarrow> jstring \<Rightarrow> tab list \<Rightarrow> code_editor \<Rightarrow> code_editor" where
  "open_tabs p n savedTabs s =
     (let merged = savedTabs @ [(p, n)];
          s = put_tabs (drop (length merged - maxTabs) merged) s;
          s = loadHistoryVersionCount p (saveTabsToStorage (s\<lparr>selectTab := p, shown := True\<rparr>))
      in if has_editor s then (setValue (form_content s) s)\<lparr>isEdit := False\<rparr> else s)"

definition acceptParams :: "jstring \<Rightarrow> jstring \<Rightarrow> jstring \<Rightarrow> code_editor \<Rightarrow> code_editor" where
  "acceptParams p n content s =
     (let s = s\<lparr>form_content := content, oldFileContent := content, form_path := p, historyVersionCount := 0,
              currentPath := getDirectoryPath (baseDir s) p, directoryPath := getDirectoryPath (baseDir s) p, fileName := n\<rparr>;
          withoutCurrent = filter (\<lambda>(q, _). q \<noteq> p) (loadTabsFromStorage s)
      in if withoutCurrent \<noteq> [] then call (ExistsCall p n withoutCurrent) s else open_tabs p n [] s)"

definition exists_answered :: "jstring \<Rightarrow> jstring \<Rightarrow> tab list \<Rightarrow> jstring list option \<Rightarrow> code_editor \<Rightarrow> code_editor" where
  "exists_answered p n withoutCurrent res s =
     (case res of
        None \<Rightarrow> open_tabs p n withoutCurrent s
      | Some found \<Rightarrow> open_tabs p n (filter (\<lambda>(q, _). q \<in> set found) withoutCurrent) s)"

definition handleHistoryRestored :: "jstring \<Rightarrow> code_editor \<Rightarrow> code_editor" where
  "handleHistoryRestored p s = (if p = form_path s then loadHistoryVersionCount p (getContent p True s) else s)"

section \<open>Renaming and deleting\<close>

text \<open>What is renamed or deleted is given by its path, its name and whether it is a directory.\<close>

definition renameFromContextMenu :: "jstring \<Rightarrow> jstring \<Rightarrow> bool \<Rightarrow> jstring \<Rightarrow> code_editor \<Rightarrow> code_editor" where
  "renameFromContextMenu p name isDir input s =
     (let newName = trim input in
      if newName = [] \<or> newName = name then s
      else call (RenameCall p (joinPath (getDirectoryPath (baseDir s) p) newName) newName isDir) s)"

definition moved :: "jstring \<Rightarrow> jstring \<Rightarrow> bool \<Rightarrow> jstring \<Rightarrow> jstring" where
  "moved old new isDir p =
     (if p \<noteq> [] \<and> isPathAffected p old isDir then replaceAffectedPath p old new isDir else p)"

definition rename_tab :: "jstring \<Rightarrow> jstring \<Rightarrow> jstring \<Rightarrow> bool \<Rightarrow> tab \<Rightarrow> tab" where
  "rename_tab old new name isDir t =
     (if \<not> isPathAffected (fst t) old isDir then t
      else (replaceAffectedPath (fst t) old new isDir, if fst t = old then name else snd t))"

definition syncTabsAfterRename :: "jstring \<Rightarrow> jstring \<Rightarrow> jstring \<Rightarrow> bool \<Rightarrow> code_editor \<Rightarrow> code_editor" where
  "syncTabsAfterRename old new name isDir s =
     (let current = (form_path s = old);
          s = s\<lparr>currentPath := moved old new isDir (currentPath s), directoryPath := moved old new isDir (directoryPath s),
                loadedNodes := (\<lambda>p. replaceAffectedPath p old new isDir) ` loadedNodes s\<rparr>;
          s = put_tabs (map (rename_tab old new name isDir) (fileTabs s)) s;
          s = s\<lparr>selectTab := moved old new isDir (selectTab s), form_path := moved old new isDir (form_path s),
                fileName := (if current \<and> form_path s \<noteq> [] then name else fileName s)\<rparr>
      in saveTabsToStorage s)"

definition rename_answered :: "jstring \<Rightarrow> jstring \<Rightarrow> jstring \<Rightarrow> bool \<Rightarrow> code_editor \<Rightarrow> code_editor" where
  "rename_answered old new name isDir s =
     (let s = s\<lparr>treeData := map (renameTreeNodePaths old new name isDir) (treeData s)\<rparr>;
          s = syncTabsAfterRename old new name isDir s
      in inform ''commons.msg.updateSuccess'' (s\<lparr>loadedNodes := loadedNodes s - {old, new}\<rparr>))"

definition closeTabsAfterDelete :: "jstring \<Rightarrow> bool \<Rightarrow> code_editor \<Rightarrow> code_editor" where
  "closeTabsAfterDelete target isDir s =
     (let removedCurrent = (selectTab s \<noteq> [] \<and> isPathAffected (selectTab s) target isDir);
          s = put_tabs (filter (\<lambda>(p, _). \<not> isPathAffected p target isDir) (fileTabs s)) s
      in if \<not> removedCurrent then saveTabsToStorage s
         else
           let s = s\<lparr>isEdit := False\<rparr> in
           if fileTabs s \<noteq> [] then
             let p = fst (last (fileTabs s)) in saveTabsToStorage (getContent p True (s\<lparr>selectTab := p\<rparr>))
           else saveTabsToStorage (disposeEditor (s\<lparr>selectTab := [], form_content := [], form_path := [],
               oldFileContent := [], fileName := [], historyVersionCount := 0\<rparr>)))"

definition delete_answered :: "jstring \<Rightarrow> bool \<Rightarrow> code_editor \<Rightarrow> code_editor" where
  "delete_answered p isDir s =
     (let s = closeTabsAfterDelete p isDir s;
          s = s\<lparr>treeData := removeTreeNodeByPath p isDir (treeData s),
                loadedNodes := loadedNodes s - {p, getDirectoryPath (baseDir s) p}\<rparr>;
          s = (if currentPath s \<noteq> [] \<and> isPathAffected (currentPath s) p isDir
               then s\<lparr>currentPath := getDirectoryPath (baseDir s) p\<rparr> else s)
      in inform ''commons.msg.deleteSuccess'' s)"

section \<open>Walking the tree\<close>

text \<open>The children the server lists; \<open>None\<close> is a request that fails.\<close>

definition getUpData :: "code_editor \<Rightarrow> code_editor" where
  "getUpData s =
     (if directoryPath s = lit ''/'' then inform ''commons.msg.rootInfoErr'' s
      else call (UpCall (parent_path (directoryPath s))) s)"

definition up_answered :: "jstring \<Rightarrow> tree_node list option \<Rightarrow> code_editor \<Rightarrow> code_editor" where
  "up_answered p res s =
     (case res of
        None \<Rightarrow> s\<lparr>directoryPath := p\<rparr>
      | Some ns \<Rightarrow> s\<lparr>treeData := ns, loadedNodes := {}, isCreate := CreateNone, currentPath := p, directoryPath := p\<rparr>)"

definition refresh_answered :: "jstring \<Rightarrow> tree_node list option \<Rightarrow> code_editor \<Rightarrow> code_editor" where
  "refresh_answered p res s =
     (case res of
        None \<Rightarrow> s
      | Some ns \<Rightarrow> s\<lparr>treeData := ns, loadedNodes := {}, isCreate := CreateNone, currentPath := p\<rparr>)"

definition handleSearchResult :: "tree_node list \<Rightarrow> code_editor \<Rightarrow> code_editor" where
  "handleSearchResult ns s = s\<lparr>treeData := map (\<lambda>n. Tree_Node (tn_key n) (tn_name n) (tn_path n) (tn_dir n)
       (if tn_dir n then Some (case tn_kids n of None \<Rightarrow> [] | Some cs \<Rightarrow> cs) else None)) ns\<rparr>"

definition handleNodeExpand :: "jstring \<Rightarrow> bool \<Rightarrow> code_editor \<Rightarrow> code_editor" where
  "handleNodeExpand p isDir s =
     (if \<not> isDir \<or> p \<in> loadedNodes s then s
      else call (ExpandCall p) (if isCreate s = CreateNone then s\<lparr>currentPath := p\<rparr> else s))"

definition expand_answered :: "jstring \<Rightarrow> tree_node list option \<Rightarrow> code_editor \<Rightarrow> code_editor" where
  "expand_answered p res s =
     (case res of
        None \<Rightarrow> s
      | Some ns \<Rightarrow> s\<lparr>loadedNodes := insert p (loadedNodes s), treeData := updateNodeChildren p ns (treeData s)\<rparr>)"

section \<open>Events\<close>

datatype editor_answer =
    Failed
  | Confirmed
  | Fetched jstring jstring jstring
  | SavedAnswer bool
  | Counted nat
  | ExistAnswer "jstring list"
  | Listed "tree_node list"
  | DoneAnswer

definition answered :: "bool \<Rightarrow> editor_call \<Rightarrow> editor_answer \<Rightarrow> code_editor \<Rightarrow> code_editor" where
  "answered may c r s =
     (case c of
        FetchCall p \<Rightarrow> (case r of Fetched content p' n \<Rightarrow> content_fetched p content p' n s | _ \<Rightarrow> s)
      | SaveCall \<Rightarrow> save_answered (case r of SavedAnswer ok \<Rightarrow> Some ok | _ \<Rightarrow> None) s
      | HistoryCall p \<Rightarrow> history_answered p (case r of Counted n \<Rightarrow> Some n | _ \<Rightarrow> None) s
      | ExistsCall p n ts \<Rightarrow> exists_answered p n ts (case r of ExistAnswer ps \<Rightarrow> Some ps | _ \<Rightarrow> None) s
      | AskRemove k a t \<Rightarrow> remove_answered may k a t (r = Confirmed) s
      | AskRemoveAll k i a t ty \<Rightarrow> remove_all_answered may k i a t ty (r = Confirmed) s
      | AskRemoveOther t \<Rightarrow> remove_other_answered may t (r = Confirmed) s
      | AskOpen p \<Rightarrow> if r = Confirmed then call (FetchCall p) (saveContent may s) else s\<lparr>selectTab := form_path s\<rparr>
      | AskClose \<Rightarrow> closeEditor (if r = Confirmed then saveContent may s else s)
      | RenameCall old new n d \<Rightarrow> if r = DoneAnswer then rename_answered old new n d s else s
      | DeleteCall p d \<Rightarrow> if r = DoneAnswer then delete_answered p d s else s
      | UpCall p \<Rightarrow> up_answered p (case r of Listed ns \<Rightarrow> Some ns | _ \<Rightarrow> None) s
      | RefreshCall p \<Rightarrow> refresh_answered p (case r of Listed ns \<Rightarrow> Some ns | _ \<Rightarrow> None) s
      | ExpandCall p \<Rightarrow> expand_answered p (case r of Listed ns \<Rightarrow> Some ns | _ \<Rightarrow> None) s
      | TreeCall p \<Rightarrow> (case r of Listed ns \<Rightarrow> handleSearchResult ns s | _ \<Rightarrow> s))"

definition onOpen :: "code_editor \<Rightarrow> code_editor" where
  "onOpen s = call (TreeCall (directoryPath s)) (s\<lparr>has_editor := True\<rparr>)"

datatype editor_event =
    Typed jstring
  | OpenFile jstring jstring jstring
  | OpenedDialog
  | ClickFile jstring
  | ClickTab jstring
  | CloseTab jstring
  | CloseTabs jstring remove_type
  | CloseOthers jstring
  | SaveKey
  | ResetButton
  | CloseButton
  | Restored jstring
  | Rename jstring jstring bool jstring
  | Delete jstring bool
  | UpButton
  | RefreshButton
  | Expand jstring bool
  | CreateState creating
  | Reply nat editor_answer

definition editor_step :: "bool \<Rightarrow> code_editor \<Rightarrow> editor_event \<Rightarrow> code_editor" where
  "editor_step may s e =
     (case e of
        Typed v \<Rightarrow> if has_editor s then setValue v s else s
      | OpenFile p n content \<Rightarrow> acceptParams p n content s
      | OpenedDialog \<Rightarrow> if shown s then onOpen s else s
      | ClickFile p \<Rightarrow> getContent p False s
      | ClickTab p \<Rightarrow> changeTab p s
      | CloseTab p \<Rightarrow> removeTab p s
      | CloseTabs p ty \<Rightarrow> removeAllTab p ty s
      | CloseOthers p \<Rightarrow> removeOtherTab p s
      | SaveKey \<Rightarrow> saveContent may s
      | ResetButton \<Rightarrow> handleReset s
      | CloseButton \<Rightarrow> handleClose s
      | Restored p \<Rightarrow> handleHistoryRestored p s
      | Rename p n d input \<Rightarrow> renameFromContextMenu p n d input s
      | Delete p d \<Rightarrow> call (DeleteCall p d) s
      | UpButton \<Rightarrow> getUpData s
      | RefreshButton \<Rightarrow> call (RefreshCall (directoryPath s)) (inform ''commons.msg.refreshSuccess'' s)
      | Expand p d \<Rightarrow> handleNodeExpand p d s
      | CreateState c \<Rightarrow> s\<lparr>isCreate := c\<rparr>
      | Reply i r \<Rightarrow>
          if i < length (calls s) then answered may (calls s ! i) r (s\<lparr>calls := remove_nth i (calls s)\<rparr>) else s)"

definition new_editor :: "jstring \<Rightarrow> tab list \<Rightarrow> code_editor" where
  "new_editor base stored =
     \<lparr>shown = False, tab_lists = [[]], tab_list = 0, selectTab = [], form_path = [], form_content = [], oldFileContent = [],
      fileName = [], isEdit = False, has_editor = False, isCreate = CreateNone, baseDir = base, currentPath = [],
      directoryPath = [], treeData = [], loadedNodes = {}, historyVersionCount = 0, stored_tabs = stored, calls = [],
      saves = [], told = []\<rparr>"

end
