(* ===== verification/CodeEditorProps.thy ===== *)
theory CodeEditorProps
  imports CodeEditor
begin

text \<open>
  What the code editor guarantees for the texts of files: which text is written to which file, which tabs
  there are, and where edits get lost.
\<close>

named_theorems editor_ops

lemmas editor_helpers = put_tabs_def change_tabs_def saveTabsToStorage_def disposeEditor_def setValue_def call_def inform_def

section \<open>Whose text is saved\<close>

text \<open>The texts of each file: what was loaded for it or typed while it was open; after a renaming they are also
  those of the new name.\<close>

definition texts_step :: "bool \<Rightarrow> code_editor \<times> (jstring \<times> jstring) set \<Rightarrow> editor_event \<Rightarrow> code_editor \<times> (jstring \<times> jstring) set" where
  "texts_step may z e =
     (let (s, G) = z in
      (editor_step may s e,
       (case e of
          Typed c \<Rightarrow> insert (form_path s, c) G
        | OpenFile p n c \<Rightarrow> insert (p, c) G
        | Reply i r \<Rightarrow>
            if i < length (calls s) then
              (case (calls s ! i, r) of
                 (FetchCall p, Fetched c p' n) \<Rightarrow> insert (p', c) G
               | (RenameCall old new n d, DoneAnswer) \<Rightarrow> G \<union> (\<lambda>(p, c). (moved old new d p, c)) ` G
               | _ \<Rightarrow> G)
            else G
        | _ \<Rightarrow> G)))"

definition own_text :: "(jstring \<times> jstring) set \<Rightarrow> code_editor \<Rightarrow> bool" where
  "own_text G s \<longleftrightarrow> ([], []) \<in> G \<and> (form_path s, form_content s) \<in> G \<and> (form_path s, oldFileContent s) \<in> G \<and> set (saves s) \<subseteq> G"

text \<open>What the helpers leave alone.\<close>

lemma put_tabs_texts [simp]:
  "form_path (put_tabs ts s) = form_path s"
  "form_content (put_tabs ts s) = form_content s"
  "oldFileContent (put_tabs ts s) = oldFileContent s"
  "saves (put_tabs ts s) = saves s"
  by (simp_all add: editor_helpers)

lemma change_tabs_texts [simp]:
  "form_path (change_tabs f s) = form_path s"
  "form_content (change_tabs f s) = form_content s"
  "oldFileContent (change_tabs f s) = oldFileContent s"
  "saves (change_tabs f s) = saves s"
  by (simp_all add: editor_helpers)

lemma store_texts [simp]:
  "form_path (saveTabsToStorage s) = form_path s"
  "form_content (saveTabsToStorage s) = form_content s"
  "oldFileContent (saveTabsToStorage s) = oldFileContent s"
  "saves (saveTabsToStorage s) = saves s"
  by (simp_all add: editor_helpers)

lemma dispose_texts [simp]:
  "form_path (disposeEditor s) = form_path s"
  "form_content (disposeEditor s) = form_content s"
  "oldFileContent (disposeEditor s) = oldFileContent s"
  "saves (disposeEditor s) = saves s"
  by (simp_all add: editor_helpers)

lemma call_texts [simp]:
  "form_path (call c s) = form_path s"
  "form_content (call c s) = form_content s"
  "oldFileContent (call c s) = oldFileContent s"
  "saves (call c s) = saves s"
  by (simp_all add: editor_helpers)

lemma inform_texts [simp]:
  "form_path (inform m s) = form_path s"
  "form_content (inform m s) = form_content s"
  "oldFileContent (inform m s) = oldFileContent s"
  "saves (inform m s) = saves s"
  by (simp_all add: editor_helpers)

lemma history_texts [simp]:
  "form_path (loadHistoryVersionCount p s) = form_path s"
  "form_content (loadHistoryVersionCount p s) = form_content s"
  "oldFileContent (loadHistoryVersionCount p s) = oldFileContent s"
  "saves (loadHistoryVersionCount p s) = saves s"
  by (simp_all add: loadHistoryVersionCount_def)

lemma history_answered_texts [simp]:
  "form_path (history_answered p n s) = form_path s"
  "form_content (history_answered p n s) = form_content s"
  "oldFileContent (history_answered p n s) = oldFileContent s"
  "saves (history_answered p n s) = saves s"
  by (simp_all add: history_answered_def)

lemma getContent_texts [simp]:
  "form_path (getContent p b s) = form_path s"
  "form_content (getContent p b s) = form_content s"
  "oldFileContent (getContent p b s) = oldFileContent s"
  "saves (getContent p b s) = saves s"
  by (simp_all add: getContent_def Let_def)

lemma close_tab_texts [simp]:
  "form_path (close_tab k a t s) = form_path s"
  "form_content (close_tab k a t s) = form_content s"
  "oldFileContent (close_tab k a t s) = oldFileContent s"
  "saves (close_tab k a t s) = saves s"
  by (simp_all add: close_tab_def Let_def)

lemma removeTab_texts [simp]:
  "form_path (removeTab t s) = form_path s"
  "form_content (removeTab t s) = form_content s"
  "oldFileContent (removeTab t s) = oldFileContent s"
  "saves (removeTab t s) = saves s"
  by (simp_all add: removeTab_def Let_def)

lemma close_tabs_texts [simp]:
  "form_path (close_tabs k i a t ty s) = form_path s"
  "form_content (close_tabs k i a t ty s) = form_content s"
  "oldFileContent (close_tabs k i a t ty s) = oldFileContent s"
  "saves (close_tabs k i a t ty s) = saves s"
  by (simp_all add: close_tabs_def Let_def)

lemma removeAllTab_texts [simp]:
  "form_path (removeAllTab t ty s) = form_path s"
  "form_content (removeAllTab t ty s) = form_content s"
  "oldFileContent (removeAllTab t ty s) = oldFileContent s"
  "saves (removeAllTab t ty s) = saves s"
  by (simp_all add: removeAllTab_def Let_def)

lemma keep_tab_texts [simp]:
  "form_path (keep_tab t s) = form_path s"
  "form_content (keep_tab t s) = form_content s"
  "oldFileContent (keep_tab t s) = oldFileContent s"
  "saves (keep_tab t s) = saves s"
  by (simp_all add: keep_tab_def)

lemma removeOtherTab_texts [simp]:
  "form_path (removeOtherTab t s) = form_path s"
  "form_content (removeOtherTab t s) = form_content s"
  "oldFileContent (removeOtherTab t s) = oldFileContent s"
  "saves (removeOtherTab t s) = saves s"
  by (simp_all add: removeOtherTab_def split: option.split)

lemma closeEditor_texts [simp]:
  "form_path (closeEditor s) = form_path s"
  "form_content (closeEditor s) = form_content s"
  "oldFileContent (closeEditor s) = oldFileContent s"
  "saves (closeEditor s) = saves s"
  by (simp_all add: closeEditor_def)

lemma handleClose_texts [simp]:
  "form_path (handleClose s) = form_path s"
  "form_content (handleClose s) = form_content s"
  "oldFileContent (handleClose s) = oldFileContent s"
  "saves (handleClose s) = saves s"
  by (simp_all add: handleClose_def)

lemma open_tabs_texts [simp]:
  "form_path (open_tabs p n ts s) = form_path s" "form_content (open_tabs p n ts s) = form_content s"
  "oldFileContent (open_tabs p n ts s) = oldFileContent s" "saves (open_tabs p n ts s) = saves s"
  by (simp_all add: open_tabs_def Let_def setValue_def)

lemma own_mono: "own_text G s \<Longrightarrow> G \<subseteq> H \<Longrightarrow> own_text H s"
  by (auto simp: own_text_def)

lemma own_saveContent: "own_text G s \<Longrightarrow> own_text G (saveContent may s)"
  by (simp add: saveContent_def own_text_def)

lemma own_setValue_old: "own_text G s \<Longrightarrow> own_text G (setValue (oldFileContent s) s)"
  by (simp add: own_text_def setValue_def)

lemma own_content_fetched: "own_text G s \<Longrightarrow> (p', c) \<in> G \<Longrightarrow> own_text G (content_fetched p c p' n s)"
  by (simp add: content_fetched_def Let_def own_text_def)

lemma own_open_tabs: "own_text G s \<Longrightarrow> own_text G (open_tabs p n ts s)"
  by (simp add: own_text_def)

lemma own_acceptParams: "own_text G s \<Longrightarrow> (p, c) \<in> G \<Longrightarrow> own_text G (acceptParams p n c s)"
  by (simp add: acceptParams_def Let_def own_text_def)

lemma own_rename: "own_text G s \<Longrightarrow> own_text (G \<union> (\<lambda>(p, c). (moved old new d p, c)) ` G) (rename_answered old new n d s)"
  by (auto simp: own_text_def rename_answered_def Let_def syncTabsAfterRename_def intro: rev_image_eqI)

lemma own_delete: "own_text G s \<Longrightarrow> own_text G (delete_answered p d s)"
  by (simp add: own_text_def delete_answered_def closeTabsAfterDelete_def Let_def)

lemma own_answer:
  assumes "own_text G s"
  shows "own_text (case (c, r) of (FetchCall p, Fetched x p' n) \<Rightarrow> insert (p', x) G
     | (RenameCall old new n d, DoneAnswer) \<Rightarrow> G \<union> (\<lambda>(p, c). (moved old new d p, c)) ` G
     | _ \<Rightarrow> G) (answered may c r s)"
proof (cases c)
  case (FetchCall p)
  show ?thesis
  proof (cases r)
    case (Fetched x p' n)
    then show ?thesis using assms FetchCall own_content_fetched[OF own_mono[OF assms], of "insert (p', x) G" p' x p n]
      by (auto simp: answered_def)
  qed (use assms FetchCall in \<open>simp_all add: answered_def\<close>)
next
  case (RenameCall old new n d)
  then show ?thesis using assms own_rename[OF assms] by (cases r) (simp_all add: answered_def)
next
  case (AskRemove k a t)
  have "own_text G (saveContent may (close_tab k a t s))" using assms own_saveContent by (simp add: own_text_def)
  then show ?thesis using assms AskRemove
    by (cases r) (simp_all add: answered_def remove_answered_def Let_def own_text_def)
next
  case (AskRemoveAll k i a t ty)
  have "own_text G (saveContent may (close_tabs k i a t ty s))" using assms own_saveContent by (simp add: own_text_def)
  then show ?thesis using assms AskRemoveAll
    by (cases r) (simp_all add: answered_def remove_all_answered_def Let_def own_text_def setValue_def)
next
  case (AskRemoveOther t)
  have "own_text G (saveContent may (keep_tab t s))" using assms own_saveContent by (simp add: own_text_def)
  then show ?thesis using assms AskRemoveOther
    by (cases r) (simp_all add: answered_def remove_other_answered_def own_text_def setValue_def)
next
  case (AskOpen p)
  then show ?thesis using assms own_saveContent[OF assms, of may]
    by (cases r) (simp_all add: answered_def own_text_def)
next
  case AskClose
  then show ?thesis using assms own_saveContent[OF assms, of may]
    by (cases r) (simp_all add: answered_def own_text_def)
next
  case (ExistsCall p n ts)
  then show ?thesis using assms by (cases r) (simp_all add: answered_def exists_answered_def own_open_tabs)
next
  case SaveCall
  then show ?thesis using assms by (cases r) (auto simp: answered_def save_answered_def own_text_def split: bool.split)
next
  case (DeleteCall p d)
  then show ?thesis using assms by (cases r) (simp_all add: answered_def own_delete)
next
  case (UpCall p)
  then show ?thesis using assms by (cases r) (simp_all add: answered_def up_answered_def own_text_def)
next
  case (RefreshCall p)
  then show ?thesis using assms by (cases r) (simp_all add: answered_def refresh_answered_def own_text_def)
next
  case (ExpandCall p)
  then show ?thesis using assms by (cases r) (simp_all add: answered_def expand_answered_def own_text_def)
next
  case (TreeCall p)
  then show ?thesis using assms by (cases r) (simp_all add: answered_def handleSearchResult_def own_text_def)
next
  case (HistoryCall p)
  then show ?thesis using assms by (cases r) (simp_all add: answered_def own_text_def)
qed

lemma own_step:
  assumes "own_text (snd z) (fst z)"
  shows "own_text (snd (texts_step may z e)) (fst (texts_step may z e))"
proof (cases z)
  case (Pair s G)
  then have own: "own_text G s" using assms by simp
  show ?thesis
  proof (cases e)
    case (Reply i r)
    have "own_text G (s\<lparr>calls := remove_nth i (calls s)\<rparr>)" using own by (simp add: own_text_def)
    from own_answer[OF this, of "calls s ! i" r may] show ?thesis using Pair Reply own
      by (simp add: texts_step_def editor_step_def Let_def)
  next
    case (OpenFile p n c)
    have "own_text (insert (p, c) G) s" using own_mono[OF own] by blast
    then show ?thesis using Pair OpenFile own_acceptParams[of "insert (p, c) G" s p c n]
      by (simp add: texts_step_def editor_step_def Let_def)
  qed (use Pair own own_saveContent[OF own] in \<open>auto simp: texts_step_def editor_step_def Let_def own_text_def setValue_def
      changeTab_def handleReset_def handleHistoryRestored_def renameFromContextMenu_def getUpData_def handleNodeExpand_def onOpen_def\<close>)
qed

text \<open>C13: Whatever the user does and in whatever order the server and the questions are answered: what is saved
  under a path was loaded for that very file or typed while it was open.  The text of one file is never
  written to another.\<close>

theorem editor_saves_own_text:
  assumes "foldl (texts_step may) (new_editor base stored, {([], [])}) es = (s, G)"
  shows "set (saves s) \<subseteq> G"
proof -
  have "own_text (snd z) (fst z) \<Longrightarrow> own_text (snd (foldl (texts_step may) z es)) (fst (foldl (texts_step may) z es))" for z
    by (induction es arbitrary: z) (simp_all add: own_step)
  from this[of "(new_editor base stored, {([], [])})"] show ?thesis
    using assms by (simp add: own_text_def new_editor_def)
qed

text \<open>A file is opened, changed and left for a second one with \<open>save\<close>; the second one is changed before the
  answer to the save is there.\<close>

definition late_save_run :: "editor_event list" where
  "late_save_run =
     [OpenFile (lit ''/a'') (lit ''a'') (lit ''1''), OpenedDialog, Typed (lit ''2''),
      ClickFile (lit ''/b''), Reply 2 Confirmed, Reply 3 (Fetched (lit ''3'') (lit ''/b'') (lit ''b'')), Typed (lit ''4''),
      Reply 2 (SavedAnswer True), ClickFile (lit ''/c'')]"

lemma late_save_texts:
  "let z = foldl (texts_step True) (new_editor (lit ''/opt'') [], {([], [])}) late_save_run in
     form_content (fst z) = lit ''4'' \<and> form_path (fst z) = lit ''/b'' \<and> \<not> isEdit (fst z) \<and>
     saves (fst z) = [(lit ''/a'', lit ''2'')] \<and> last (calls (fst z)) = FetchCall (lit ''/c'') \<and>
     snd z = {(lit ''/b'', lit ''4''), (lit ''/b'', lit ''3''), (lit ''/a'', lit ''2''), (lit ''/a'', lit ''1''), ([], [])}"
  by code_simp

lemma editor_saves_own_text_witness:
  "set (saves (fst (foldl (texts_step True) (new_editor (lit ''/opt'') [], {([], [])}) late_save_run)))
     \<subseteq> {(lit ''/b'', lit ''4''), (lit ''/b'', lit ''3''), (lit ''/a'', lit ''2''), (lit ''/a'', lit ''1''), ([], [])}"
proof -
  obtain s G where z: "foldl (texts_step True) (new_editor (lit ''/opt'') [], {([], [])}) late_save_run = (s, G)" by fastforce
  have "G = {(lit ''/b'', lit ''4''), (lit ''/b'', lit ''3''), (lit ''/a'', lit ''2''), (lit ''/a'', lit ''1''), ([], [])}"
    using late_save_texts unfolding z Let_def by simp
  then show ?thesis using editor_saves_own_text[OF z] unfolding z by simp
qed

text \<open>The answer to a save marks whatever file is open by then as saved: a file that was changed meanwhile can
  be left without a question, and what was typed into it is gone, in no request and no longer in the editor.\<close>

theorem late_save_hides_edits:
  "let s = foldl (editor_step True) (new_editor (lit ''/opt'') [])
         (late_save_run @ [Reply 4 (Fetched (lit ''5'') (lit ''/c'') (lit ''c''))]) in
     form_path s = lit ''/c'' \<and> form_content s = lit ''5'' \<and> saves s = [(lit ''/a'', lit ''2'')] \<and>
     AskOpen (lit ''/c'') \<notin> set (calls s)"
  by code_simp

text \<open>When the only tab is closed, its path stays behind: the file cannot be opened again, and an answer \<open>save\<close>
  to the question saves nothing.\<close>

lemma closed_file_stuck:
  assumes "tab_list s < length (tab_lists s)" "fileTabs s = [(p, n)]" "form_path s = p"
  shows "\<not> isEdit s \<Longrightarrow> fileTabs (removeTab p s) = [] \<and> getContent p False (removeTab p s) = removeTab p s"
    and "let s' = remove_answered may (tab_list s) (selectTab s) p True s in fileTabs s' = [] \<and> saves s' = saves s \<and> isEdit s' = isEdit s"
proof -
  have f: "find_index (\<lambda>(q, _). q = p) [(p, n)] = Some 0" by simp
  have c: "fileTabs (close_tab (tab_list s) a p s) = []" "isEdit (close_tab (tab_list s) a p s) = isEdit s" for a
    using assms(2) f by (simp_all add: close_tab_def Let_def fileTabs_def editor_helpers)
  show "\<not> isEdit s \<Longrightarrow> fileTabs (removeTab p s) = [] \<and> getContent p False (removeTab p s) = removeTab p s"
    using c assms(3) by (simp add: removeTab_def Let_def getContent_def)
  show "let s' = remove_answered may (tab_list s) (selectTab s) p True s in fileTabs s' = [] \<and> saves s' = saves s \<and> isEdit s' = isEdit s"
    using c by (simp add: remove_answered_def Let_def)
qed

text \<open>A file in the root directory is renamed into the base directory.\<close>

lemma root_file_moves:
  "calls (renameFromContextMenu (lit ''/a'') (lit ''a'') False (lit ''b'') (new_editor (lit ''/opt'') [])) =
     [RenameCall (lit ''/a'') (lit ''/opt/b'') (lit ''b'') False]"
proof -
  have "trim (lit ''b'') = lit ''b''" by (rule trim_no_space) (simp add: is_space_def)
  moreover have "getDirectoryPath (lit ''/opt'') (lit ''/a'') = lit ''/opt''" by code_simp
  ultimately show ?thesis
    by (simp add: renameFromContextMenu_def Let_def joinPath_def new_editor_def call_def)
qed

section \<open>Tabs\<close>

definition call_ok :: "nat \<Rightarrow> editor_call \<Rightarrow> bool" where
  "call_ok n c =
     (case c of
        AskRemove k a t \<Rightarrow> k < n
      | AskRemoveAll k i a t ty \<Rightarrow> k < n
      | ExistsCall p m ts \<Rightarrow> distinct (map fst ts) \<and> p \<notin> fst ` set ts
      | _ \<Rightarrow> True)"

definition tabs_inv :: "code_editor \<Rightarrow> bool" where
  "tabs_inv s \<longleftrightarrow> tab_list s < length (tab_lists s) \<and> (\<forall>ts \<in> set (tab_lists s). distinct (map fst ts)) \<and>
     distinct (map fst (stored_tabs s)) \<and> (\<forall>c \<in> set (calls s). call_ok (length (tab_lists s)) c)"

lemma call_ok_mono: "call_ok n c \<Longrightarrow> n \<le> m \<Longrightarrow> call_ok m c"
  by (auto simp: call_ok_def split: editor_call.splits)

lemma tabs_inv_updates [simp]:
  "tabs_inv (s\<lparr>selectTab := a\<rparr>) = tabs_inv s" "tabs_inv (s\<lparr>form_path := a\<rparr>) = tabs_inv s"
  "tabs_inv (s\<lparr>form_content := a\<rparr>) = tabs_inv s" "tabs_inv (s\<lparr>oldFileContent := a\<rparr>) = tabs_inv s"
  "tabs_inv (s\<lparr>fileName := a\<rparr>) = tabs_inv s" "tabs_inv (s\<lparr>isEdit := b\<rparr>) = tabs_inv s" "tabs_inv (s\<lparr>has_editor := b\<rparr>) = tabs_inv s"
  "tabs_inv (s\<lparr>isCreate := k\<rparr>) = tabs_inv s" "tabs_inv (s\<lparr>currentPath := a\<rparr>) = tabs_inv s"
  "tabs_inv (s\<lparr>directoryPath := a\<rparr>) = tabs_inv s" "tabs_inv (s\<lparr>treeData := ns\<rparr>) = tabs_inv s"
  "tabs_inv (s\<lparr>loadedNodes := x\<rparr>) = tabs_inv s" "tabs_inv (s\<lparr>historyVersionCount := h\<rparr>) = tabs_inv s"
  "tabs_inv (s\<lparr>saves := sv\<rparr>) = tabs_inv s" "tabs_inv (s\<lparr>told := ms\<rparr>) = tabs_inv s" "tabs_inv (s\<lparr>shown := b\<rparr>) = tabs_inv s"
  by (simp_all add: tabs_inv_def)

lemma tabs_inv_more [simp]:
  "tabs_inv (disposeEditor s) = tabs_inv s" "tabs_inv (inform m s) = tabs_inv s" "tabs_inv (setValue v s) = tabs_inv s"
  by (simp_all add: disposeEditor_def inform_def setValue_def)

lemma current_distinct: "tabs_inv s \<Longrightarrow> distinct (map fst (fileTabs s))"
  by (simp add: tabs_inv_def fileTabs_def)

lemma list_distinct: "tabs_inv s \<Longrightarrow> k < length (tab_lists s) \<Longrightarrow> distinct (map fst (tab_lists s ! k))"
  by (simp add: tabs_inv_def)

lemma tabs_inv_put [intro]: "tabs_inv s \<Longrightarrow> distinct (map fst ts) \<Longrightarrow> tabs_inv (put_tabs ts s)"
  by (auto simp: tabs_inv_def put_tabs_def intro: call_ok_mono)

lemma tabs_inv_change [intro]: "tabs_inv s \<Longrightarrow> distinct (map fst (f (fileTabs s))) \<Longrightarrow> tabs_inv (change_tabs f s)"
  by (auto simp: tabs_inv_def change_tabs_def set_conv_nth nth_list_update)

lemma distinct_take_tabs: "distinct (map fst ts) \<Longrightarrow> distinct (map fst (take n ts))"
  by (simp add: take_map[symmetric])

lemma tabs_inv_store [intro]: "tabs_inv s \<Longrightarrow> tabs_inv (saveTabsToStorage s)"
  using distinct_take_tabs[OF current_distinct, of s maxTabs] by (simp add: tabs_inv_def saveTabsToStorage_def)

lemma tabs_inv_call: "tabs_inv (call c s) \<longleftrightarrow> tabs_inv s \<and> call_ok (length (tab_lists s)) c"
  by (auto simp: tabs_inv_def call_def)

lemma plain_call_ok [simp]:
  "call_ok n (FetchCall p)" "call_ok n SaveCall" "call_ok n (HistoryCall p)" "call_ok n (AskRemoveOther t)" "call_ok n (AskOpen p)"
  "call_ok n AskClose" "call_ok n (RenameCall p q m d)" "call_ok n (DeleteCall p d)" "call_ok n (UpCall p)"
  "call_ok n (RefreshCall p)" "call_ok n (ExpandCall p)" "call_ok n (TreeCall p)"
  by (simp_all add: call_ok_def)

lemma tabs_inv_history [simp]: "tabs_inv (loadHistoryVersionCount p s) = tabs_inv s" "tabs_inv (history_answered p n s) = tabs_inv s"
  by (simp_all add: loadHistoryVersionCount_def history_answered_def tabs_inv_call)

lemma tabs_inv_saveContent [simp]: "tabs_inv (saveContent may s) = tabs_inv s"
  by (simp add: saveContent_def tabs_inv_call)

lemma distinct_tl_tabs: "distinct (map fst ts) \<Longrightarrow> distinct (map fst (tl ts))"
  by (cases ts) simp_all

lemma tabs_inv_getContent [intro]: "tabs_inv s \<Longrightarrow> tabs_inv (getContent p b s)"
  by (auto simp: getContent_def Let_def tabs_inv_call intro!: tabs_inv_change distinct_tl_tabs current_distinct)

lemma distinct_filter_tabs: "distinct (map fst ts) \<Longrightarrow> distinct (map fst (filter P ts))"
  by (induction ts) auto

lemma tabs_inv_close_tab: "tabs_inv s \<Longrightarrow> k < length (tab_lists s) \<Longrightarrow> tabs_inv (close_tab k a t s)"
  unfolding close_tab_def Let_def
  by (auto intro!: tabs_inv_store tabs_inv_put distinct_filter_tabs list_distinct)

lemma tabs_inv_close_tabs: "tabs_inv s \<Longrightarrow> k < length (tab_lists s) \<Longrightarrow> tabs_inv (close_tabs k i a t ty s)"
proof -
  assume inv: "tabs_inv s" and k: "k < length (tab_lists s)"
  let ?tabs = "tab_lists s ! k"
  let ?new = "case ty of RemoveLeft \<Rightarrow> (case i of Some j \<Rightarrow> drop j ?tabs | None \<Rightarrow> drop (length ?tabs - 1) ?tabs)
    | RemoveRight \<Rightarrow> (case i of Some j \<Rightarrow> take (Suc j) ?tabs | None \<Rightarrow> []) | RemoveAll \<Rightarrow> []"
  have "distinct (map fst ?new)" using list_distinct[OF inv k]
    by (simp add: take_map[symmetric] drop_map[symmetric] split: remove_type.split option.split)
  then have "tabs_inv (saveTabsToStorage ((put_tabs ?new s)\<lparr>selectTab := p\<rparr>))" for p
    using inv by (intro tabs_inv_store) (simp add: tabs_inv_put)
  then show ?thesis unfolding close_tabs_def Let_def
    by (simp only: tabs_inv_more tabs_inv_updates tabs_inv_getContent split: if_split) blast
qed

lemma tabs_inv_current: "tabs_inv s \<Longrightarrow> tab_list s < length (tab_lists s)"
  by (simp add: tabs_inv_def)

lemma tabs_inv_removeTab: "tabs_inv s \<Longrightarrow> tabs_inv (removeTab t s)"
  by (auto simp: removeTab_def Let_def tabs_inv_call call_ok_def tabs_inv_current tabs_inv_close_tab intro!: tabs_inv_getContent)

lemma tabs_inv_removeAllTab: "tabs_inv s \<Longrightarrow> tabs_inv (removeAllTab t ty s)"
  by (simp add: removeAllTab_def Let_def tabs_inv_call call_ok_def tabs_inv_current tabs_inv_close_tabs)

lemma tabs_inv_keep_tab: "tabs_inv s \<Longrightarrow> tabs_inv (keep_tab t s)"
  unfolding keep_tab_def by (intro tabs_inv_getContent tabs_inv_store) (simp add: tabs_inv_put)

lemma tabs_inv_closeEditor: "tabs_inv s \<Longrightarrow> tabs_inv (closeEditor s)"
  by (simp add: closeEditor_def tabs_inv_put)

lemma distinct_last_tabs: "distinct (map fst ts) \<Longrightarrow> distinct (map fst (drop n ts))"
  by (simp add: drop_map[symmetric])

lemma tabs_inv_open_tabs: "tabs_inv s \<Longrightarrow> distinct (map fst ts) \<Longrightarrow> p \<notin> fst ` set ts \<Longrightarrow> tabs_inv (open_tabs p n ts s)"
proof -
  assume inv: "tabs_inv s" and ts: "distinct (map fst ts)" "p \<notin> fst ` set ts"
  have "distinct (map fst (drop k (ts @ [(p, n)])))" for k using ts by (intro distinct_last_tabs) simp
  then have "tabs_inv (saveTabsToStorage ((put_tabs (drop k (ts @ [(p, n)])) s)\<lparr>selectTab := p, shown := True\<rparr>))" for k
    using inv by (intro tabs_inv_store) (simp add: tabs_inv_put)
  then show ?thesis by (simp add: open_tabs_def Let_def del: drop_append)
qed

lemma tabs_inv_acceptParams: "tabs_inv s \<Longrightarrow> tabs_inv (acceptParams p n c s)"
proof -
  assume inv: "tabs_inv s"
  have st: "distinct (map fst (stored_tabs s))" using inv by (simp add: tabs_inv_def)
  then show ?thesis using inv
    by (auto simp: acceptParams_def Let_def loadTabsFromStorage_def tabs_inv_call call_ok_def simp del: filter_filter
        intro!: tabs_inv_open_tabs distinct_filter_tabs st)
qed

lemma distinct_name_tab: "distinct (map fst ts) \<Longrightarrow> distinct (map fst (name_tab p p n ts))"
proof (cases "find_index (\<lambda>(q, _). q = p) ts")
  case None
  then have "p \<notin> fst ` set ts" by (auto simp: find_index_None_iff)
  then show "distinct (map fst ts) \<Longrightarrow> ?thesis" using None by (simp add: name_tab_def)
next
  case (Some i)
  then have i: "i < length ts" "fst (ts ! i) = p" using find_index_SomeD[OF Some] by (auto split: prod.splits)
  have "map fst (ts[i := (p, n)]) = map fst ts" using i by (simp add: map_update list_update_same_conv)
  then show "distinct (map fst ts) \<Longrightarrow> ?thesis" using Some by (simp add: name_tab_def)
qed

lemma tabs_inv_fetched: "tabs_inv s \<Longrightarrow> tabs_inv (content_fetched p c p n s)"
  unfolding content_fetched_def Let_def
  by (simp, intro tabs_inv_store tabs_inv_change) (simp_all add: distinct_name_tab current_distinct)

lemma distinct_rename_tabs:
  assumes "distinct (map fst ts)" "\<forall>t \<in> set ts. \<not> isPathAffected (fst t) new d"
  shows "distinct (map fst (map (rename_tab old new m d) ts))"
proof -
  have "fst (rename_tab old new m d t) = replaceAffectedPath (fst t) old new d" for t
    by (simp add: rename_tab_def replace_unaffected)
  then have "map fst (map (rename_tab old new m d) ts) = map (\<lambda>p. replaceAffectedPath p old new d) (map fst ts)" by simp
  moreover have "inj_on (\<lambda>p. replaceAffectedPath p old new d) (set (map fst ts))"
    using assms(2) by (intro inj_on_subset[OF replace_inj]) auto
  ultimately show ?thesis using assms(1) distinct_map by metis
qed

lemma tabs_inv_rename:
  "tabs_inv s \<Longrightarrow> \<forall>t \<in> set (fileTabs s). \<not> isPathAffected (fst t) new d \<Longrightarrow> tabs_inv (rename_answered old new m d s)"
proof -
  assume inv: "tabs_inv s" and free: "\<forall>t \<in> set (fileTabs s). \<not> isPathAffected (fst t) new d"
  have f: "fileTabs (s\<lparr>treeData := ns\<rparr>) = fileTabs s"
    "fileTabs (s\<lparr>treeData := ns, currentPath := a, directoryPath := b, loadedNodes := c\<rparr>) = fileTabs s" for ns a b c
    by (simp_all add: fileTabs_def)
  show ?thesis unfolding rename_answered_def syncTabsAfterRename_def Let_def
    using inv distinct_rename_tabs[OF current_distinct[OF inv] free]
    by (simp add: f tabs_inv_put tabs_inv_store del: map_map)
qed

lemma tabs_inv_delete: "tabs_inv s \<Longrightarrow> tabs_inv (delete_answered p d s)"
proof -
  assume inv: "tabs_inv s"
  have put: "tabs_inv (put_tabs (filter P (fileTabs s)) s)" for P
    using inv by (intro tabs_inv_put distinct_filter_tabs current_distinct)
  have "tabs_inv (closeTabsAfterDelete p d s)" unfolding closeTabsAfterDelete_def Let_def
    using put by (auto intro!: tabs_inv_store tabs_inv_getContent)
  then show ?thesis by (simp add: delete_answered_def Let_def)
qed

text \<open>What is assumed of the server: it answers with the path that was asked for, and renames nothing to a name
  under which a file is open.\<close>

definition honest :: "code_editor \<Rightarrow> editor_event \<Rightarrow> bool" where
  "honest s e =
     (case e of
        Reply i r \<Rightarrow>
          i < length (calls s) \<longrightarrow>
          (case (calls s ! i, r) of
             (FetchCall p, Fetched c p' n) \<Rightarrow> p' = p
           | (RenameCall old new m d, DoneAnswer) \<Rightarrow> (\<forall>t \<in> set (fileTabs s). \<not> isPathAffected (fst t) new d)
           | _ \<Rightarrow> True)
      | _ \<Rightarrow> True)"

fun honest_run :: "bool \<Rightarrow> code_editor \<Rightarrow> editor_event list \<Rightarrow> bool" where
  "honest_run may s [] = True"
| "honest_run may s (e # es) \<longleftrightarrow> honest s e \<and> honest_run may (editor_step may s e) es"

lemma tabs_inv_answered:
  assumes inv: "tabs_inv s" and ok: "call_ok (length (tab_lists s)) c"
    and fetch: "\<And>p x p' n. c = FetchCall p \<Longrightarrow> r = Fetched x p' n \<Longrightarrow> p' = p"
    and rename: "\<And>old new m d. c = RenameCall old new m d \<Longrightarrow> r = DoneAnswer \<Longrightarrow>
      \<forall>t \<in> set (fileTabs s). \<not> isPathAffected (fst t) new d"
  shows "tabs_inv (answered may c r s)"
proof (cases c)
  case (FetchCall p)
  then show ?thesis using fetch inv tabs_inv_fetched by (cases r) (simp_all add: answered_def)
next
  case (RenameCall old new m d)
  then show ?thesis using rename inv tabs_inv_rename by (cases r) (simp_all add: answered_def)
next
  case (AskRemove k a t)
  then have "tabs_inv (close_tab k a t s)" using ok inv by (simp add: call_ok_def tabs_inv_close_tab)
  then show ?thesis using AskRemove
    by (auto simp: answered_def remove_answered_def Let_def intro!: tabs_inv_getContent)
next
  case (AskRemoveAll k i a t ty)
  then have k: "k < length (tab_lists s)" using ok by (simp add: call_ok_def)
  have "tabs_inv (close_tabs k i a t ty ((setValue v s)\<lparr>isEdit := False, isCreate := CreateNone\<rparr>))"
    "tabs_inv (close_tabs k i a t ty (s\<lparr>isEdit := False, isCreate := CreateNone\<rparr>))" for v
    using inv k by (auto intro!: tabs_inv_close_tabs simp: setValue_def)
  then show ?thesis using AskRemoveAll inv k
    by (simp add: answered_def remove_all_answered_def Let_def tabs_inv_close_tabs)
next
  case (AskRemoveOther t)
  then show ?thesis using inv by (auto simp: answered_def remove_other_answered_def intro!: tabs_inv_keep_tab)
next
  case (AskOpen p)
  then show ?thesis using inv by (simp add: answered_def tabs_inv_call)
next
  case AskClose
  then show ?thesis using inv by (simp add: answered_def tabs_inv_closeEditor)
next
  case (ExistsCall p n ts)
  then have "distinct (map fst ts)" "p \<notin> fst ` set ts" using ok by (auto simp: call_ok_def)
  then have "tabs_inv (open_tabs p n (filter P ts) s)" "tabs_inv (open_tabs p n ts s)" for P
    using inv by (auto intro!: tabs_inv_open_tabs distinct_filter_tabs)
  then show ?thesis using ExistsCall by (simp add: answered_def exists_answered_def split: option.split)
next
  case SaveCall
  then show ?thesis using inv by (auto simp: answered_def save_answered_def split: option.split bool.split)
next
  case (DeleteCall p d)
  then show ?thesis using inv by (simp add: answered_def tabs_inv_delete)
next
  case (UpCall p)
  then show ?thesis using inv by (simp add: answered_def up_answered_def split: option.split)
next
  case (RefreshCall p)
  then show ?thesis using inv by (simp add: answered_def refresh_answered_def split: option.split)
next
  case (ExpandCall p)
  then show ?thesis using inv by (simp add: answered_def expand_answered_def split: option.split)
next
  case (TreeCall p)
  then show ?thesis using inv by (simp add: answered_def handleSearchResult_def split: editor_answer.split)
next
  case (HistoryCall p)
  then show ?thesis using inv by (simp add: answered_def)
qed

lemma tabs_inv_step:
  assumes "tabs_inv s" "honest s e"
  shows "tabs_inv (editor_step may s e)"
proof (cases e)
  case (Reply i r)
  show ?thesis
  proof (cases "i < length (calls s)")
    case True
    let ?s = "s\<lparr>calls := remove_nth i (calls s)\<rparr>"
    have "tabs_inv ?s" using assms(1) set_remove_nth_subset[of i "calls s"] by (auto simp: tabs_inv_def)
    moreover have "call_ok (length (tab_lists ?s)) (calls s ! i)" using assms(1) True by (simp add: tabs_inv_def)
    moreover have "fileTabs ?s = fileTabs s" by (simp add: fileTabs_def)
    moreover have "p' = p" if "calls s ! i = FetchCall p" "r = Fetched x p' n" for p x p' n
      using assms(2) that True Reply by (simp add: honest_def)
    moreover have "\<forall>t \<in> set (fileTabs s). \<not> isPathAffected (fst t) new d"
      if "calls s ! i = RenameCall old new m d" "r = DoneAnswer" for old new m d
      using assms(2) that True Reply by (simp add: honest_def)
    ultimately have "tabs_inv (answered may (calls s ! i) r ?s)" by (intro tabs_inv_answered) simp_all
    then show ?thesis using True Reply by (simp add: editor_step_def)
  qed (use Reply assms in \<open>simp add: editor_step_def\<close>)
qed (use assms(1) in \<open>auto simp: editor_step_def tabs_inv_call tabs_inv_acceptParams onOpen_def tabs_inv_removeTab tabs_inv_removeAllTab
    removeOtherTab_def tabs_inv_keep_tab changeTab_def handleReset_def handleClose_def tabs_inv_closeEditor handleHistoryRestored_def
    renameFromContextMenu_def Let_def getUpData_def handleNodeExpand_def intro!: tabs_inv_getContent split: option.split\<close>)

text \<open>C14: Whatever happens, no path is open in two tabs, and none is stored twice, as long as the server answers with
  the path that was asked for and renames nothing to the name of an open file, and the tabs stored at the
  beginning have different paths.\<close>

theorem editor_tabs_distinct:
  assumes "honest_run may (new_editor base stored) es" and "distinct (map fst stored)"
  shows "let s = foldl (editor_step may) (new_editor base stored) es in
    distinct (map fst (fileTabs s)) \<and> distinct (map fst (stored_tabs s))"
proof -
  have "tabs_inv s \<Longrightarrow> honest_run may s es \<Longrightarrow> tabs_inv (foldl (editor_step may) s es)" for s
    by (induction es arbitrary: s) (simp_all add: tabs_inv_step)
  from this[of "new_editor base stored"] have "tabs_inv (foldl (editor_step may) (new_editor base stored) es)"
    using assms by (simp add: tabs_inv_def new_editor_def)
  then show ?thesis using current_distinct by (auto simp: Let_def tabs_inv_def)
qed

lemma late_save_honest: "honest_run True (new_editor (lit ''/opt'') []) late_save_run"
  by code_simp

lemma editor_tabs_distinct_witness:
  "distinct (map fst (fileTabs (foldl (editor_step True) (new_editor (lit ''/opt'') []) late_save_run)))"
  using editor_tabs_distinct[OF late_save_honest] by (simp add: Let_def)

section \<open>The tree\<close>

text \<open>C15: Renaming a file or directory moves exactly the paths it stands for, in the tree as in the tabs; renaming it
  back restores all of them, when the new name was free; and a deletion removes exactly these paths.\<close>

theorem tree_rename_delete:
  assumes "\<forall>n \<in> set ns. filed n \<and> says_dir old d n" and "\<forall>p \<in> set (concat (map tree_paths ns)). \<not> isPathAffected p new d"
  defines "paths \<equiv> \<lambda>ns. concat (map tree_paths ns)"
  shows "paths (map (renameTreeNodePaths old new m d) ns) = map (\<lambda>p. replaceAffectedPath p old new d) (paths ns) \<and>
    (\<forall>r. isPathAffected (old @ r) old d \<longrightarrow> replaceAffectedPath (old @ r) old new d = new @ r) \<and>
    paths (map (renameTreeNodePaths new old k d) (map (renameTreeNodePaths old new m d) ns)) = paths ns \<and>
    (distinct (paths ns) \<longrightarrow> distinct (paths (map (renameTreeNodePaths old new m d) ns))) \<and>
    paths (removeTreeNodeByPath old d ns) = filter (\<lambda>p. \<not> isPathAffected p old d) (paths ns)"
proof -
  have r: "paths (map (renameTreeNodePaths a b x d) ns) = map (\<lambda>p. replaceAffectedPath p a b d) (paths ns)" for a b x ns
    by (simp add: paths_def rename_tree_paths map_concat comp_def)
  have free: "\<forall>p \<in> set (paths ns). \<not> isPathAffected p new d" using assms(2) by (simp add: paths_def)
  have "map (\<lambda>p. replaceAffectedPath p new old d) (map (\<lambda>p. replaceAffectedPath p old new d) (paths ns)) = paths ns"
    using free by (simp add: comp_def replace_back map_idI)
  moreover have "inj_on (\<lambda>p. replaceAffectedPath p old new d) (set (paths ns))"
    using free by (intro inj_on_subset[OF replace_inj]) auto
  ultimately show ?thesis using removed_paths[of ns old d] assms(1) replace_affected unfolding r
    by (simp add: paths_def distinct_map)
qed

lemma tree_rename_delete_witness:
  "concat (map tree_paths (removeTreeNodeByPath (lit ''/d'') True
      [Tree_Node (lit ''1'') (lit ''d'') (lit ''/d'') True (Some [Tree_Node (lit ''2'') (lit ''f'') (lit ''/d/f'') False None]),
       Tree_Node (lit ''3'') (lit ''e'') (lit ''/e'') True (Some [])])) = [lit ''/e'']"
proof -
  let ?ns = "[Tree_Node (lit ''1'') (lit ''d'') (lit ''/d'') True (Some [Tree_Node (lit ''2'') (lit ''f'') (lit ''/d/f'') False None]),
       Tree_Node (lit ''3'') (lit ''e'') (lit ''/e'') True (Some [])]"
  have a: "\<forall>n \<in> set ?ns. filed n \<and> says_dir (lit ''/d'') True n" by simp
  have b: "\<forall>p \<in> set (concat (map tree_paths ?ns)). \<not> isPathAffected p (lit ''/x'') True" by (simp add: affected_iff)
  show ?thesis using tree_rename_delete[OF a b] by (simp add: affected_iff)
qed

end
