(* ===== verification/Spec2Isabelle.thy ===== *)
theory Spec2Isabelle
  imports FirewallProps FormProps FormTable Tabs ProcessProps RouteGuard Directive Stepper Selection
    Cron Agent Validate Sse HttpProps TableProps Extension RouterProps MenuProps MenuEditor
    FirewallImport Upload Highlight RuleFormProps RuleFormSafety DashboardCache PluginChannel DomainProps
    RuleTableProps FooterProps LogReaderProps CodeEditorProps
begin

text \<open>
  A model of the front end of WorkMesh Server, the TypeScript program under
  \<^verbatim>\<open>src/web/src\<close>, and what makes its own logic correct.  The front end is a
  single-page application: a router with guards in front of the pages, stores with the state that
  pages share, composables and components with a state of their own, and pure helpers that check
  and convert what users type.  The server is another program (in Go) and is reached through
  endpoints, whose answers are arguments of the model.

  \<^bold>\<open>How the code is rendered.\<close>  A string is the list of its UTF-16 units (\<open>jstring\<close>,
  theory \<open>JsString\<close>), with the operations of JavaScript the code uses; \<open>lit ''...''\<close> is a literal.
  A number is an exact rational or one of the special values (\<open>jsnum\<close>, theory \<open>JsNumber\<close>); where the
  code computes with doubles that are not exact the part is not modelled.  Regular expressions are
  a datatype with a matcher by derivatives (theory \<open>Regex\<close>), so that every pattern is executable and has
  a language to reason about.  \<open>undefined\<close> and \<open>null\<close> are \<open>None\<close>.  Thrown errors are values.  Translated
  texts are their keys.  A function that changes the state of a store or a component takes that
  state, a record of the variables in the code, and returns it.

  \<^bold>\<open>Parts and theories.\<close>
  \<^item> \<open>Prelude\<close>: lists, the loop with a seen-set and its interface \<open>keyed_loop\<close>, and the interface
    \<open>step_system\<close> of components with handlers: an invariant that every handler keeps.
  \<^item> \<open>GlobalStore\<close>, \<open>PermissionCodes\<close>, \<open>Permission\<close> model \<^verbatim>\<open>store/modules/global.ts\<close>,
    \<^verbatim>\<open>utils/permission-codes.ts\<close>, \<^verbatim>\<open>utils/rbac.ts\<close>, \<^verbatim>\<open>utils/permission.ts\<close> and the menu composable.
    A check refreshes a module-level set of codes; the interface \<open>pure_query\<close> says when such a stateful
    check still is a function of the visible state, and \<open>PermissionProps\<close> interprets it, compares
    the checks with the specification \<open>permitted\<close> after any history of sign-ins, switches of the node
    and page loads, and shows what routes need.
  \<^item> \<open>Nodes\<close> models \<^verbatim>\<open>utils/node.ts\<close> and the selections of a node in \<^verbatim>\<open>views/home/index.vue\<close> and
    \<^verbatim>\<open>views/advanced/multi-node/index.vue\<close>; the node's role decides whether reserved rights count.
  \<^item> \<open>RouteGuard\<close> models \<^verbatim>\<open>routers/index.ts\<close> on top of them: who reaches which page, and that
    redirections settle.  While the guard waits for the gateway other code may run; it is an arbitrary
    change of the state.
  \<^item> \<open>RouteTable\<close> has the route records of \<^verbatim>\<open>routers/modules\<close> as they are written, names, paths,
    permissions and redirects; \<open>Router\<close> models \<^verbatim>\<open>routers/router.ts\<close>, which collects, sorts and
    merges them, and the trail of \<^verbatim>\<open>routers/cache-router.ts\<close>.  Route objects are shared and mutated
    there, so they live in a store, by number.  Matching is left to the router library: \<open>routed\<close> is any
    record whose name is asked for.  \<open>RouteMap\<close> evaluates the table and follows
    its redirections, \<open>RouterProps\<close> shows that it is well formed and, page by page, what the guard
    answers to a user without rights.
  \<^item> \<open>Extension\<close> models \<^verbatim>\<open>extensions/routes.ts\<close>, which places the routes of extensions in the
    table; the extensions are arguments.
  \<^item> \<open>Menu\<close> models the side menu (\<^verbatim>\<open>layout/components/Sidebar\<close>, \<^verbatim>\<open>store/modules/menu.ts\<close>);
    \<open>MenuProps\<close> has that it shows the pages of the table, none a user may not enter.  \<open>MenuEditor\<close> models
    the editor of that menu, \<^verbatim>\<open>views/setting/panel/hidemenu\<close>, with the sorting of \<^verbatim>\<open>utils/misc.ts\<close>.
  \<^item> \<open>Http\<close> models the interceptors of \<^verbatim>\<open>api/index.ts\<close> with \<^verbatim>\<open>utils/auth-response.ts\<close>
    and their neighbours; \<open>HttpProps\<close> has which answers end the session, and what
    a request carries.
  \<^item> \<open>Table\<close> models the column handling of \<^verbatim>\<open>components/table\<close> and the flattening of slots;
    \<open>TableProps\<close> has that the user's choice is kept.
  \<^item> \<open>Directive\<close> models \<^verbatim>\<open>directives/modules/permission.ts\<close>: greying out can be undone, but for
    three attributes that are lost.
  \<^item> \<open>Process\<close> models \<^verbatim>\<open>store/modules/process.ts\<close>: sockets and timers are numbered and every event of
    the browser is a step; \<open>ProcessSteps\<close> has the step relation, its reachable states and their
    invariants, \<open>ProcessProps\<close> what is sent when, and the two ways the store gets stuck.
  \<^item> \<open>Tabs\<close>, \<open>Stepper\<close>, \<open>Selection\<close> model \<^verbatim>\<open>store/modules/tabs.ts\<close>, the stepper under
    \<^verbatim>\<open>components/fu/steps\<close> and \<^verbatim>\<open>components/table/complex/useTableSelection.ts\<close>; each has an
    invariant, kept by every handler (an interpretation of \<open>step_system\<close>), and its operations' effects.
  \<^item> \<open>Sse\<close> models \<^verbatim>\<open>utils/sse.ts\<close>: the parser's events do not depend on how the body is cut into
    chunks, and are those that were written.
  \<^item> \<open>FormRules\<close>, \<open>FormTable\<close> model \<^verbatim>\<open>global/form-rules.ts\<close>, every validator and the table;
    \<open>Firewall\<close> models \<^verbatim>\<open>views/host/firewall/utils/validation.ts\<close>; \<open>Validate\<close> the older
    \<^verbatim>\<open>utils/validate.ts\<close>.  \<open>Dotted\<close> has what the patterns of addresses and ports accept, \<open>FormProps\<close> and
    \<open>FirewallProps\<close> the properties and where the three agree.
  \<^item> \<open>Cron\<close>, \<open>Version\<close>, \<open>Agent\<close> model \<^verbatim>\<open>views/cronjob/cronjob/helper.ts\<close>,
    \<^verbatim>\<open>utils/version.ts\<close> and \<^verbatim>\<open>utils/agent.ts\<close>; versions are a \<open>preorder\<close>.  \<open>Uri\<close> is \<open>encodeURIComponent\<close>.

  \<^item> \<open>Json\<close> has \<^verbatim>\<open>JSON.parse\<close> and \<^verbatim>\<open>JSON.stringify\<close> of the language, with numbers that stay exact;
    \<open>JsonProps\<close> has that a printed value reads back.  On it stand \<open>WhiteList\<close>
    (\<^verbatim>\<open>views/host/firewall/setting/white-list/model.ts\<close>), whose two stored forms give the same rules,
    \<open>DockerGuard\<close> (\<^verbatim>\<open>views/host/firewall/docker/model.ts\<close> and the import beside it), and
    \<open>FirewallPlans\<close>, \<open>FirewallImport\<close> (\<^verbatim>\<open>views/host/firewall/rule/import\<close>): what a file of rules may
    say, where the rules are aimed, and that the report of an import accounts for each of them.  The
    server of an import is an argument: what it answers to each request.
  \<^item> \<open>Upload\<close> models \<^verbatim>\<open>views/host/file-management/upload\<close>: chunks, retries, cancelling and the
    clean-up.  The \<open>world\<close> is an argument: the answer to each request and when the user cancels; the
    state records what was sent and accepted.  A chunk is retried at most \<open>MAX_CHUNK_RETRIES\<close> times.
  \<^item> \<open>RegexExec\<close> has the matches a global pattern finds in a text, by backtracking; \<open>LogRules\<close> has the
    rule tables and \<open>Highlight\<close> the tokenizer of \<^verbatim>\<open>components/log/custom-highlight\<close>.  A search loop
    that would not end is \<open>None\<close>, and \<open>highlight_returns\<close> shows that none of the tables has one.
  \<^item> \<open>RuleForm\<close> has the form for firewall rules, \<^verbatim>\<open>views/host/firewall/rule/operate\<close>: its checks,
    normal forms and the rules built from it (\<open>RuleFormProps\<close>: exactly those that were typed, at
    positions of their own).  \<open>RuleFormSteps\<close> has its life: every handler runs to its first \<open>await\<close> in one
    step, \<open>pending\<close> is what it goes on with, \<open>sent\<close> the requests that went out.  \<open>RuleFormSafety\<close> shows
    what may be created and updated, and how an answer that comes late overwrites another rule.
  \<^item> \<open>DashboardCache\<close> models \<^verbatim>\<open>utils/dashboardCache.ts\<close> over the text in the local storage, and shows
    that it implements a map with times of expiry, emptied by a text the storage refuses.  \<open>PluginChannel\<close> models
    \<^verbatim>\<open>useAgentPluginChannel.ts\<close>: calls are numbered and their answers come in any order.
  \<^item> \<open>DomainEdit\<close> models the rows of domains of a website and their batch input,
    \<^verbatim>\<open>views/website/website/domain-create\<close>; the punycode library is an argument.  \<open>DomainProps\<close> shows
    what a round trip through the batch input keeps and what it loses.
  \<^item> \<open>RuleTable\<close> and \<open>RuleTableActions\<close> model the page of the firewall rules,
    \<^verbatim>\<open>views/host/firewall/rule/index.vue\<close>: the list with its filters and pages, and what is asked of the
    server; it opens the form of \<open>RuleForm\<close> with the positions a rule may take.  \<open>RuleTableProps\<close> shows
    which these are, what a deletion sends and reports, and that ports are counted to rules as they were typed.
  \<^item> \<open>Utf8\<close> has the encoder and the decoder of the browser.  \<open>FooterNav\<close> models
    \<^verbatim>\<open>components/footer-navigation\<close>: which addresses may be opened, the merge with a stored setting, and
    answers that come late; \<open>FooterProps\<close> has what is opened and shown.
  \<^item> \<open>LogReader\<close> models the viewer of log files, \<^verbatim>\<open>components/log/file\<close>, with the texts of
    \<^verbatim>\<open>utils/task.ts\<close> (\<open>TaskText\<close>); \<open>LogServer\<close> has how the node divides a log into pages, three functions of
    the Go code.  \<open>LogReaderProps\<close> puts both together: what a viewer shows that follows a growing log or
    is scrolled, that it catches up, and where the two disagree.  While it follows, scrolls are events of
    their own, the user's and those the code causes; two lemmas show what goes wrong when they are not calm.
  \<^item> \<open>CodeTree\<close> and \<open>CodeEditor\<close> model the code editor, \<^verbatim>\<open>views/host/file-management/code-editor\<close>:
    its tabs, the one text it holds, and every request and question on its way; the lists of tabs live in a
    store, because a handler that waits may hold an old one.  \<open>CodeEditorProps\<close> shows that no text is
    written to another file, that tabs are distinct, what renaming does to paths, and how edits get lost.

  \<^bold>\<open>Bounds.\<close>  One loop runs on fuel: \<open>unfold_route\<close> reads a route tree from the store, with one unit more
  than there are route objects, and \<open>router_table_fuel\<close> shows that more does not change the table.
  Every other loop is structural or has a measure, and each definition is total.  Integers stay exact; the code's doubles are exact below 2 to the power of 53.

  \<^bold>\<open>Not modelled.\<close>  Templates and rendering, HTTP calls, message tables, browser glue (clipboard, editors,
  charts, cryptography libraries), formatting of inexact numbers and local dates, and the parts of the
  repository in other languages.
\<close>

end
